(* ===== verification/Prelude.thy ===== *)
theory Prelude
  imports Main "HOL-Library.AList" "HOL-Library.Char_ord" "HOL-Library.List_Lexorder"
begin

text \<open>
  The shared vocabulary of the development.

  A JavaScript string is represented by its UTF-8 encoding, one \<^typ>\<open>char\<close> per byte, and a
  \<^verbatim>\<open>Uint8Array\<close> or \<^verbatim>\<open>Buffer\<close> by the list of its bytes: both are \<^typ>\<open>string\<close>, so
  \<^verbatim>\<open>Buffer.from(text, "utf8")\<close> is the identity and \<^verbatim>\<open>Buffer.byteLength\<close> is \<^const>\<open>length\<close>.
  A JavaScript \<^verbatim>\<open>Map\<close> or plain object is an association list in insertion order:
  \<^verbatim>\<open>set\<close> replaces in place or appends (\<^const>\<open>AList.update\<close>), \<^verbatim>\<open>delete\<close> removes
  (\<^const>\<open>AList.delete\<close>), \<^verbatim>\<open>get\<close> is \<^const>\<open>map_of\<close>. A JavaScript \<^verbatim>\<open>Set\<close> is a list in
  insertion order.

  The theory also holds the three string codecs of the standard library that the program
  calls (decimal printing, base64 and \<^verbatim>\<open>encodeURIComponent\<close>) with their round trips.
\<close>

type_synonym bytes = string
type_synonym 'v js_map = "(string \<times> 'v) list"
type_synonym js_set = "string list"

named_theorems js_simps \<open>rewrite rules for JavaScript maps and sets\<close>

section \<open>Maps and sets\<close>

abbreviation map_get :: "('k \<times> 'v) list \<Rightarrow> 'k \<Rightarrow> 'v option" where
  "map_get m k \<equiv> map_of m k"

abbreviation map_set :: "'k \<Rightarrow> 'v \<Rightarrow> ('k \<times> 'v) list \<Rightarrow> ('k \<times> 'v) list" where
  "map_set k v m \<equiv> AList.update k v m"

abbreviation map_delete :: "'k \<Rightarrow> ('k \<times> 'v) list \<Rightarrow> ('k \<times> 'v) list" where
  "map_delete k m \<equiv> AList.delete k m"

definition map_has :: "('k \<times> 'v) list \<Rightarrow> 'k \<Rightarrow> bool" where
  "map_has m k = (map_of m k \<noteq> None)"

abbreviation map_keys :: "('k \<times> 'v) list \<Rightarrow> 'k list" where
  "map_keys m \<equiv> map fst m"

abbreviation map_wf :: "('k \<times> 'v) list \<Rightarrow> bool" where
  "map_wf m \<equiv> distinct (map fst m)"

definition set_add :: "'a \<Rightarrow> 'a list \<Rightarrow> 'a list" where
  "set_add x xs = (if x \<in> set xs then xs else xs @ [x])"

definition set_delete :: "'a \<Rightarrow> 'a list \<Rightarrow> 'a list" where
  "set_delete x xs = filter (\<lambda>y. y \<noteq> x) xs"

text \<open>\<^verbatim>\<open>sumMapValues\<close> and the \<^verbatim>\<open>reduce\<close> calls over numbers.\<close>

definition sum_values :: "('k \<times> int) list \<Rightarrow> int" where
  "sum_values m = sum_list (map snd m)"

lemmas map_updates [js_simps] =
  update_conv' delete_conv' distinct_update distinct_delete

lemma map_has_iff [js_simps]: "map_has m k \<longleftrightarrow> k \<in> set (map_keys m)"
  by (simp add: map_has_def map_of_eq_None_iff)

lemma map_has_dom: "map_has m k \<longleftrightarrow> k \<in> dom (map_of m)"
  by (auto simp: map_has_def)

lemma set_set_add [simp]: "set (set_add x xs) = insert x (set xs)"
  by (auto simp: set_add_def)

lemma distinct_set_add [simp]: "distinct xs \<Longrightarrow> distinct (set_add x xs)"
  by (auto simp: set_add_def)

lemma set_set_delete [simp]: "set (set_delete x xs) = set xs - {x}"
  by (auto simp: set_delete_def)

lemma distinct_set_delete [simp]: "distinct xs \<Longrightarrow> distinct (set_delete x xs)"
  by (simp add: set_delete_def)

lemma set_foldr_set_add: "set (fold set_add ks xs) = set xs \<union> set ks"
  by (induction ks arbitrary: xs) auto

lemma distinct_fold_set_add: "distinct xs \<Longrightarrow> distinct (fold set_add ks xs)"
  by (induction ks arbitrary: xs) auto

lemma map_delete_absent: "k \<notin> fst ` set m \<Longrightarrow> map_delete k m = m"
  by (induction m) (auto simp: AList.delete_eq)

lemma map_set_absent: "k \<notin> fst ` set m \<Longrightarrow> map_set k v m = m @ [(k, v)]"
  by (induction m) auto

lemma fold_map_set: "map_wf (acc @ m) \<Longrightarrow> fold (\<lambda>(k, v). map_set k v) m acc = acc @ m"
proof (induction m arbitrary: acc)
  case (Cons p m)
  then have "map_set (fst p) (snd p) acc = acc @ [p]" by (auto simp: map_set_absent)
  with Cons.IH [of "acc @ [p]"] Cons.prems show ?case by (simp add: split_def)
qed simp

text \<open>Copying a map entry by entry into an empty one yields the same map.\<close>

lemma map_copy [simp]: "map_wf m \<Longrightarrow> fold (\<lambda>(k, v). map_set k v) m [] = m"
  using fold_map_set [of "[]" m] by simp

lemma sum_values_Nil [simp]: "sum_values [] = 0"
  by (simp add: sum_values_def)

lemma sum_values_Cons [simp]: "sum_values ((k, v) # m) = v + sum_values m"
  by (simp add: sum_values_def)

lemma sum_values_update:
  "map_wf m \<Longrightarrow>
   sum_values (map_set k v m) =
     sum_values m - (case map_of m k of None \<Rightarrow> 0 | Some w \<Rightarrow> w) + v"
  by (induction m) (auto simp del: map_of_eq_Some_iff split: option.splits)

lemma sum_values_delete:
  "map_wf m \<Longrightarrow>
   sum_values (map_delete k m) =
     sum_values m - (case map_of m k of None \<Rightarrow> 0 | Some w \<Rightarrow> w)"
proof (induction m)
  case (Cons p m)
  obtain a b where p: "p = (a, b)" by (cases p)
  show ?case
  proof (cases "a = k")
    case True
    then have "k \<notin> fst ` set m" using Cons.prems p by auto
    then have "map_delete k m = m" by (rule map_delete_absent)
    with True p show ?thesis by (simp add: AList.delete_eq)
  next
    case False
    with Cons p show ?thesis by (auto simp: AList.delete_eq split: option.splits)
  qed
qed simp

lemma length_update_keys:
  "length (map_set k v m) = (if map_has m k then length m else Suc (length m))"
  by (induction m) (auto simp: map_has_def)

lemma length_delete_keys:
  "map_wf m \<Longrightarrow> map_has m k \<Longrightarrow> length (map_delete k m) = length m - 1"
proof (induction m)
  case (Cons p m)
  show ?case
  proof (cases "fst p = k")
    case True
    then have "k \<notin> fst ` set m" using Cons.prems by auto
    then have "map_delete k m = m" by (rule map_delete_absent)
    with True show ?thesis by (cases p) (simp add: AList.delete_eq)
  next
    case False
    with Cons.prems have "map_has m k" by (auto simp: map_has_def split: if_splits)
    moreover from this have "m \<noteq> []" by (auto simp: map_has_def)
    ultimately show ?thesis using Cons False by (cases p) (auto simp: AList.delete_eq)
  qed
qed (simp add: map_has_def)

lemma sum_values_nonneg:
  "(\<And>k v. (k, v) \<in> set m \<Longrightarrow> 0 \<le> v) \<Longrightarrow> 0 \<le> sum_values m"
  by (induction m) fastforce+

lemma map_of_in_set_nonneg:
  "(\<And>k v. (k, v) \<in> set m \<Longrightarrow> 0 \<le> (v::int)) \<Longrightarrow> map_of m k = Some w \<Longrightarrow> 0 \<le> w"
  by (meson map_of_SomeD)

section \<open>Sorting\<close>

text \<open>
  \<^verbatim>\<open>sort\<close> with a comparison function is a stable insertion sort: the order of the
  result is the comparison's, its elements are the input's.
\<close>

fun insert_by :: "('a \<Rightarrow> 'a \<Rightarrow> bool) \<Rightarrow> 'a \<Rightarrow> 'a list \<Rightarrow> 'a list" where
  "insert_by le x [] = [x]"
| "insert_by le x (y # ys) = (if le x y then x # y # ys else y # insert_by le x ys)"

definition sort_by :: "('a \<Rightarrow> 'a \<Rightarrow> bool) \<Rightarrow> 'a list \<Rightarrow> 'a list" where
  "sort_by le xs = foldr (insert_by le) xs []"

lemma set_insert_by [simp]: "set (insert_by le x ys) = insert x (set ys)"
  by (induction ys) auto

lemma distinct_insert_by:
  "f x \<notin> f ` set ys \<Longrightarrow> distinct (map f ys) \<Longrightarrow> distinct (map f (insert_by le x ys))"
  by (induction ys) auto

lemma set_sort_by [simp]: "set (sort_by le xs) = set xs"
  unfolding sort_by_def by (induction xs) auto

lemma distinct_map_sort_by:
  "distinct (map f xs) \<Longrightarrow> distinct (map f (sort_by le xs))"
proof (induction xs)
  case (Cons x xs)
  have "distinct (map f (insert_by le x (sort_by le xs)))"
    by (rule distinct_insert_by) (use Cons in auto)
  then show ?case by (simp add: sort_by_def)
qed (simp add: sort_by_def)

lemma map_of_sort_by:
  assumes "map_wf m"
  shows "map_of (sort_by le m) = map_of m"
proof -
  have "map_wf (sort_by le m)" using assms by (rule distinct_map_sort_by)
  then show ?thesis using assms by (simp add: map_of_inject_set)
qed

section \<open>Decimal numbers\<close>

definition digit_char :: "nat \<Rightarrow> char" where
  "digit_char d = char_of (48 + d)"

definition char_digit :: "char \<Rightarrow> nat" where
  "char_digit c = of_char c - 48"

definition is_digit :: "char \<Rightarrow> bool" where
  "is_digit c \<longleftrightarrow> 48 \<le> (of_char c :: nat) \<and> (of_char c :: nat) \<le> 57"

fun dec_nat :: "nat \<Rightarrow> string" where
  "dec_nat n = (if n < 10 then [digit_char n] else dec_nat (n div 10) @ [digit_char (n mod 10)])"

declare dec_nat.simps [simp del]

definition read_nat :: "string \<Rightarrow> nat" where
  "read_nat s = foldl (\<lambda>a c. 10 * a + char_digit c) 0 s"

lemma of_char_char_of [simp]: "n < 256 \<Longrightarrow> (of_char (char_of n :: char) :: nat) = n"
  by simp

lemma char_digit_digit_char [simp]: "d < 10 \<Longrightarrow> char_digit (digit_char d) = d"
  by (simp add: char_digit_def digit_char_def)

lemma is_digit_digit_char [simp]: "d < 10 \<Longrightarrow> is_digit (digit_char d)"
  by (simp add: is_digit_def digit_char_def)

lemma dec_nat_digits: "\<forall>c \<in> set (dec_nat n). is_digit c"
proof (induction n rule: dec_nat.induct)
  case (1 n)
  then show ?case by (cases "n < 10") (auto simp: dec_nat.simps [of n])
qed

lemma dec_nat_nonempty [simp]: "dec_nat n \<noteq> []"
  by (subst dec_nat.simps) simp

lemma read_dec_nat [simp]: "read_nat (dec_nat n) = n"
proof (induction n rule: dec_nat.induct)
  case (1 n)
  show ?case
  proof (cases "n < 10")
    case True
    then show ?thesis by (simp add: dec_nat.simps [of n] read_nat_def)
  next
    case False
    with 1 have "read_nat (dec_nat (n div 10)) = n div 10" by simp
    with False show ?thesis by (simp add: dec_nat.simps [of n] read_nat_def)
  qed
qed

lemma dec_nat_inject [simp]: "dec_nat m = dec_nat n \<longleftrightarrow> m = n"
  by (metis read_dec_nat)

text \<open>\<^verbatim>\<open>padStart(width, "0")\<close>.\<close>

definition pad_start0 :: "nat \<Rightarrow> string \<Rightarrow> string" where
  "pad_start0 w s = replicate (w - length s) (CHR ''0'') @ s"

lemma read_nat_zeros: "read_nat (replicate k (CHR ''0'') @ s) = read_nat s"
proof -
  have "char_digit (CHR ''0'') = 0" by (simp add: char_digit_def)
  then have "foldl (\<lambda>a c. 10 * a + char_digit c) 0 (replicate k (CHR ''0'')) = 0"
    by (induction k) simp_all
  then show ?thesis by (simp add: read_nat_def)
qed

lemma pad_start0_dec_inject: "pad_start0 w (dec_nat m) = pad_start0 w (dec_nat n) \<Longrightarrow> m = n"
  by (metis pad_start0_def read_dec_nat read_nat_zeros)

end
