(* ===== verification/Codecs.thy ===== *)
theory Codecs
  imports Prelude
begin

text \<open>
  The string codecs of the standard library that the program calls: lower- and upper-case
  hexadecimal, \<^verbatim>\<open>Buffer.toString("base64")\<close> with \<^verbatim>\<open>Buffer.from(_, "base64")\<close>, and
  \<^verbatim>\<open>encodeURIComponent\<close>. Each comes with the round trip or the injectivity that the
  object keys and the checkpoint format rest on.
\<close>

section \<open>Hexadecimal\<close>

definition hex_digit :: "nat \<Rightarrow> char" where
  "hex_digit d = (if d < 10 then char_of (48 + d) else char_of (87 + d))"

definition hex_digit_upper :: "nat \<Rightarrow> char" where
  "hex_digit_upper d = (if d < 10 then char_of (48 + d) else char_of (55 + d))"

definition hex_value :: "char \<Rightarrow> nat option" where
  "hex_value c = (let n = of_char c in
     if 48 \<le> n \<and> n \<le> 57 then Some (n - 48)
     else if 97 \<le> n \<and> n \<le> 102 then Some (n - 87)
     else if 65 \<le> n \<and> n \<le> 70 then Some (n - 55)
     else None)"

definition hex_byte :: "char \<Rightarrow> string" where
  "hex_byte c = [hex_digit (of_char c div 16), hex_digit (of_char c mod 16)]"

definition hex_byte_upper :: "char \<Rightarrow> string" where
  "hex_byte_upper c = [hex_digit_upper (of_char c div 16), hex_digit_upper (of_char c mod 16)]"

abbreviation byte :: "char \<Rightarrow> nat" where
  "byte c \<equiv> of_char c"

lemma of_char_bound [simp]: "byte c < 256"
  using mod_less_divisor [of 256 "byte c"] by simp

lemma hex_value_hex_digit [simp]: "d < 16 \<Longrightarrow> hex_value (hex_digit d) = Some d"
  by (auto simp: hex_value_def hex_digit_def Let_def)

lemma hex_value_hex_digit_upper [simp]: "d < 16 \<Longrightarrow> hex_value (hex_digit_upper d) = Some d"
  by (auto simp: hex_value_def hex_digit_upper_def Let_def)

lemma hex_nibbles [simp]:
  "(of_char (c::char) :: nat) div 16 < 16" "(of_char (c::char) :: nat) mod 16 < 16"
  using of_char_bound [of c] by (auto simp: less_mult_imp_div_less)

lemma hex_digit_inject: "d < 16 \<Longrightarrow> e < 16 \<Longrightarrow> hex_digit d = hex_digit e \<Longrightarrow> d = e"
  by (metis hex_value_hex_digit option.inject)

lemma hex_digit_upper_inject:
  "d < 16 \<Longrightarrow> e < 16 \<Longrightarrow> hex_digit_upper d = hex_digit_upper e \<Longrightarrow> d = e"
  by (metis hex_value_hex_digit_upper option.inject)

lemma char_by_nibbles:
  assumes "(of_char (c::char) :: nat) div 16 = of_char d div 16"
    and "(of_char c :: nat) mod 16 = of_char d mod 16"
  shows "c = d"
proof -
  have "(of_char c :: nat) = of_char d"
    using assms by (metis div_mult_mod_eq)
  then show ?thesis by simp
qed

lemma hex_byte_inject [simp]: "hex_byte c = hex_byte d \<longleftrightarrow> c = d"
  by (auto simp: hex_byte_def intro: char_by_nibbles dest!: hex_digit_inject [rotated 2])

lemma hex_byte_upper_inject [simp]: "hex_byte_upper c = hex_byte_upper d \<longleftrightarrow> c = d"
  by (auto simp: hex_byte_upper_def intro: char_by_nibbles dest!: hex_digit_upper_inject [rotated 2])

lemma concat_hex_byte_inject: "concat (map hex_byte xs) = concat (map hex_byte ys) \<Longrightarrow> xs = ys"
proof (induction xs arbitrary: ys)
  case Nil
  then show ?case by (cases ys) (auto simp: hex_byte_def)
next
  case (Cons x xs)
  then obtain y ys' where ys: "ys = y # ys'"
    by (cases ys) (auto simp: hex_byte_def)
  have "hex_byte x @ concat (map hex_byte xs) = hex_byte y @ concat (map hex_byte ys')"
    using Cons.prems ys by simp
  then have "hex_byte x = hex_byte y \<and> concat (map hex_byte xs) = concat (map hex_byte ys')"
    by (rule append_eq_append_conv [THEN iffD1, rotated]) (simp add: hex_byte_def)
  then show ?case using Cons.IH ys by simp
qed

section \<open>Base64\<close>

definition b64_char :: "nat \<Rightarrow> char" where
  "b64_char n =
     (if n < 26 then char_of (65 + n)
      else if n < 52 then char_of (71 + n)
      else if n < 62 then char_of (n - 4)
      else if n = 62 then CHR ''+'' else CHR ''/'')"

text \<open>
  Decoding accepts the standard and the URL-safe alphabet and skips every other
  character; padding is skipped too, which is what Node does.
\<close>

definition b64_value :: "char \<Rightarrow> nat option" where
  "b64_value c = (let n = byte c in
     if 65 \<le> n \<and> n \<le> 90 then Some (n - 65)
     else if 97 \<le> n \<and> n \<le> 122 then Some (n - 71)
     else if 48 \<le> n \<and> n \<le> 57 then Some (n + 4)
     else if n = 43 \<or> n = 45 then Some 62
     else if n = 47 \<or> n = 95 then Some 63
     else None)"

fun b64_encode :: "bytes \<Rightarrow> string" where
  "b64_encode [] = []"
| "b64_encode [a] =
     [b64_char (byte a div 4), b64_char (byte a mod 4 * 16), CHR ''='', CHR ''='']"
| "b64_encode [a, b] =
     [b64_char (byte a div 4), b64_char (byte a mod 4 * 16 + byte b div 16),
      b64_char (byte b mod 16 * 4), CHR ''='']"
| "b64_encode (a # b # c # r) =
     [b64_char (byte a div 4), b64_char (byte a mod 4 * 16 + byte b div 16),
      b64_char (byte b mod 16 * 4 + byte c div 64), b64_char (byte c mod 64)]
     @ b64_encode r"

fun b64_groups :: "nat list \<Rightarrow> bytes" where
  "b64_groups (w # x # y # z # r) =
     char_of (w * 4 + x div 16) # char_of (x mod 16 * 16 + y div 4)
     # char_of (y mod 4 * 64 + z) # b64_groups r"
| "b64_groups [w, x, y] = [char_of (w * 4 + x div 16), char_of (x mod 16 * 16 + y div 4)]"
| "b64_groups [w, x] = [char_of (w * 4 + x div 16)]"
| "b64_groups _ = []"

definition b64_decode :: "string \<Rightarrow> bytes" where
  "b64_decode s = b64_groups (List.map_filter b64_value (takeWhile (\<lambda>c. c \<noteq> CHR ''='') s))"

lemma b64_value_char [simp]: "n < 64 \<Longrightarrow> b64_value (b64_char n) = Some n"
  by (auto simp: b64_value_def b64_char_def Let_def)

lemma b64_char_not_pad [simp]: "n < 64 \<Longrightarrow> b64_char n \<noteq> CHR ''=''"
proof
  assume "n < 64" and "b64_char n = CHR ''=''"
  then have "b64_value (CHR ''='') = Some n" by (metis b64_value_char)
  then show False by (simp add: b64_value_def)
qed

lemma byte_split [simp]:
  "byte a div 4 < 64"
  "byte b div 16 < 16"
  "byte c div 64 < 4"
  using of_char_bound [of a] of_char_bound [of b] of_char_bound [of c]
  by (auto simp: less_mult_imp_div_less)

lemma b64_sextets [simp]:
  "byte a mod 4 * 16 < 64"
  "byte a mod 4 * 16 + byte b div 16 < 64"
  "byte b mod 16 * 4 < 64"
  "byte b mod 16 * 4 + byte c div 64 < 64"
  "byte c mod 64 < 64"
proof -
  have m: "byte a mod 4 \<le> 3" "byte b mod 16 \<le> 15" by auto
  have d: "byte b div 16 \<le> 15" "byte c div 64 \<le> 3"
    using byte_split(2) [of b] byte_split(3) [of c] by linarith+
  show "byte a mod 4 * 16 < 64"
    "byte a mod 4 * 16 + byte b div 16 < 64"
    "byte b mod 16 * 4 < 64"
    "byte b mod 16 * 4 + byte c div 64 < 64"
    "byte c mod 64 < 64"
    using m d by (linarith | simp)+
qed

lemma b64_byte1 [simp]:
  "(char_of ((byte a div 4) * 4 + (byte a mod 4 * 16 + byte b div 16) div 16) :: char) = a"
proof -
  have "(byte a mod 4 * 16 + byte b div 16) div 16 = byte a mod 4"
    using byte_split(2) [of b] by (simp add: div_add1_eq)
  then show ?thesis by simp
qed

lemma b64_byte1' [simp]:
  "(char_of ((byte a div 4) * 4 + (byte a mod 4 * 16) div 16) :: char) = a"
  by simp

lemma b64_byte2 [simp]:
  "(char_of ((byte a mod 4 * 16 + byte b div 16) mod 16 * 16
      + (byte b mod 16 * 4 + byte c div 64) div 4) :: char) = b"
proof -
  have "(byte a mod 4 * 16 + byte b div 16) mod 16 = byte b div 16"
    using byte_split(2) [of b] by (simp add: mod_add_eq [symmetric])
  moreover have "(byte b mod 16 * 4 + byte c div 64) div 4 = byte b mod 16"
    using byte_split(3) [of c] by (simp add: div_add1_eq)
  ultimately show ?thesis by simp
qed

lemma b64_byte2' [simp]:
  "(char_of ((byte a mod 4 * 16 + byte b div 16) mod 16 * 16
      + (byte b mod 16 * 4) div 4) :: char) = b"
proof -
  have "(byte a mod 4 * 16 + byte b div 16) mod 16 = byte b div 16"
    using byte_split(2) [of b] by (simp add: mod_add_eq [symmetric])
  then show ?thesis by simp
qed

lemma b64_byte3 [simp]:
  "(char_of ((byte b mod 16 * 4 + byte c div 64) mod 4 * 64 + byte c mod 64) :: char) = c"
proof -
  have "(byte b mod 16 * 4 + byte c div 64) mod 4 = byte c div 64"
    using byte_split(3) [of c] by (simp add: mod_add_eq [symmetric])
  then show ?thesis by simp
qed

lemma b64_roundtrip: "b64_decode (b64_encode bs) = bs"
proof (induction bs rule: b64_encode.induct)
  case (4 a b c r)
  then show ?case
    by (simp add: b64_decode_def List.map_filter_simps)
qed (simp_all add: b64_decode_def List.map_filter_simps)

section \<open>URI components\<close>

definition uri_unreserved :: "char \<Rightarrow> bool" where
  "uri_unreserved c = (let n = (of_char c :: nat) in
     (65 \<le> n \<and> n \<le> 90) \<or> (97 \<le> n \<and> n \<le> 122) \<or> (48 \<le> n \<and> n \<le> 57)
     \<or> n \<in> {45, 95, 46, 33, 126, 42, 39, 40, 41})"

definition uri_char :: "char \<Rightarrow> string" where
  "uri_char c = (if uri_unreserved c then [c] else CHR ''%'' # hex_byte_upper c)"

definition encodeURIComponent :: "string \<Rightarrow> string" where
  "encodeURIComponent s = concat (map uri_char s)"

lemma uri_percent_reserved [simp]: "\<not> uri_unreserved (CHR ''%'')"
  by (simp add: uri_unreserved_def)

lemma uri_slash_reserved [simp]: "\<not> uri_unreserved (CHR ''/'')"
  by (simp add: uri_unreserved_def)

lemma uri_char_prefix_inject:
  "uri_char c @ s = uri_char d @ t \<Longrightarrow> c = d \<and> s = t"
proof -
  assume eq: "uri_char c @ s = uri_char d @ t"
  show ?thesis
  proof (cases "uri_unreserved c \<or> uri_unreserved d")
    case True
    with eq show ?thesis by (auto simp: uri_char_def split: if_splits)
  next
    case False
    with eq have "hex_byte_upper c @ s = hex_byte_upper d @ t" by (simp add: uri_char_def)
    then have "hex_byte_upper c = hex_byte_upper d" "s = t" by (auto simp: hex_byte_upper_def)
    then show ?thesis by simp
  qed
qed

lemma uri_char_nonempty [simp]: "uri_char c \<noteq> []"
  by (simp add: uri_char_def)

lemma encodeURIComponent_inject [simp]: "encodeURIComponent s = encodeURIComponent t \<longleftrightarrow> s = t"
proof
  show "encodeURIComponent s = encodeURIComponent t \<Longrightarrow> s = t"
  proof (induction s arbitrary: t)
    case Nil
    then show ?case by (cases t) (simp_all add: encodeURIComponent_def uri_char_nonempty)
  next
    case (Cons c s)
    then obtain d t' where t: "t = d # t'"
      by (cases t) (simp_all add: encodeURIComponent_def)
    from Cons.prems t have "c = d" "encodeURIComponent s = encodeURIComponent t'"
      by (auto simp: encodeURIComponent_def dest!: uri_char_prefix_inject)
    with Cons.IH t show ?case by simp
  qed
qed simp

lemma hex_digit_upper_no_slash: "d < 16 \<Longrightarrow> CHR ''/'' \<noteq> hex_digit_upper d"
proof
  assume "d < 16" and "CHR ''/'' = hex_digit_upper d"
  then have "hex_value (CHR ''/'') = Some d" by (metis hex_value_hex_digit_upper)
  then show False by (simp add: hex_value_def)
qed

lemma uri_char_no_slash: "CHR ''/'' \<notin> set (uri_char c)"
  by (auto simp: uri_char_def hex_byte_upper_def hex_digit_upper_no_slash)

lemma encodeURIComponent_no_slash [simp]: "CHR ''/'' \<notin> set (encodeURIComponent s)"
  by (auto simp: encodeURIComponent_def uri_char_no_slash)

text \<open>A path whose first segment has no slash determines that segment and the rest.\<close>

lemma slash_split_inject:
  "x @ CHR ''/'' # s = y @ CHR ''/'' # t \<Longrightarrow> CHR ''/'' \<notin> set x \<Longrightarrow> CHR ''/'' \<notin> set y
   \<Longrightarrow> x = y \<and> s = t"
proof (induction x arbitrary: y)
  case Nil
  then show ?case by (cases y) auto
next
  case (Cons a x)
  then show ?case by (cases y) auto
qed

end
