(* ===== verification/Json.thy ===== *)
theory Json
  imports Codecs
begin

text \<open>
  JavaScript values as the program passes them around, \<^verbatim>\<open>JSON.stringify\<close> on them, and the
  interface of \<^verbatim>\<open>JSON.parse\<close>.

  Numbers are integers: the program's own documents (checkpoint roots, envelopes, history
  rows) hold integers only. \<open>JUndef\<close> is \<^verbatim>\<open>undefined\<close> and \<open>JBig\<close> a \<^verbatim>\<open>BigInt\<close>, the value
  on which \<^verbatim>\<open>JSON.stringify\<close> throws. The fields of an object are listed in enumeration order.

  The locale \<open>json_codec\<close> states what the program relies on from \<^verbatim>\<open>JSON.parse\<close>; it is
  interpreted by a parser for the fragment of JSON with integer numbers.
\<close>

datatype js =
    JUndef
  | JNull
  | JBool bool
  | JNum int
  | JBig int
  | JStr string
  | JArr "js list"
  | JObj "(string \<times> js) list"

section \<open>JSON.stringify\<close>

definition escape_char :: "char \<Rightarrow> string" where
  "escape_char c =
     (if c = CHR 0x22 then [CHR 0x5C, CHR 0x22]
      else if c = CHR 0x5C then [CHR 0x5C, CHR 0x5C]
      else if c = CHR 0x08 then [CHR 0x5C, CHR ''b'']
      else if c = CHR 0x0C then [CHR 0x5C, CHR ''f'']
      else if c = CHR 0x0A then [CHR 0x5C, CHR ''n'']
      else if c = CHR 0x0D then [CHR 0x5C, CHR ''r'']
      else if c = CHR 0x09 then [CHR 0x5C, CHR ''t'']
      else if byte c < 32 then [CHR 0x5C, CHR ''u'', CHR ''0'', CHR ''0''] @ hex_byte c
      else [c])"

definition quote :: "string \<Rightarrow> string" where
  "quote s = CHR 0x22 # concat (map escape_char s) @ [CHR 0x22]"

definition dec_int :: "int \<Rightarrow> string" where
  "dec_int n = (if n < 0 then CHR ''-'' # dec_nat (nat (- n)) else dec_nat (nat n))"

fun join :: "string \<Rightarrow> string list \<Rightarrow> string" where
  "join sep [] = []"
| "join sep [x] = x"
| "join sep (x # y # r) = x @ sep @ join sep (y # r)"

definition bigint_error :: string where
  "bigint_error = ''Do not know how to serialize a BigInt''"

fun stringify :: "js \<Rightarrow> string + string option"
  and stringify_elems :: "js list \<Rightarrow> string + string list"
  and stringify_fields :: "(string \<times> js) list \<Rightarrow> string + string list"
where
  "stringify JUndef = Inr None"
| "stringify JNull = Inr (Some ''null'')"
| "stringify (JBool b) = Inr (Some (if b then ''true'' else ''false''))"
| "stringify (JNum n) = Inr (Some (dec_int n))"
| "stringify (JBig n) = Inl bigint_error"
| "stringify (JStr s) = Inr (Some (quote s))"
| "stringify (JArr xs) =
     (case stringify_elems xs of
        Inl e \<Rightarrow> Inl e
      | Inr ts \<Rightarrow> Inr (Some (''['' @ join '','' ts @ '']'')))"
| "stringify (JObj fs) =
     (case stringify_fields fs of
        Inl e \<Rightarrow> Inl e
      | Inr ts \<Rightarrow> Inr (Some (''{'' @ join '','' ts @ ''}'')))"
| "stringify_elems [] = Inr []"
| "stringify_elems (x # xs) =
     (case stringify x of
        Inl e \<Rightarrow> Inl e
      | Inr t \<Rightarrow>
         (case stringify_elems xs of
            Inl e \<Rightarrow> Inl e
          | Inr ts \<Rightarrow> Inr ((case t of None \<Rightarrow> ''null'' | Some s \<Rightarrow> s) # ts)))"
| "stringify_fields [] = Inr []"
| "stringify_fields ((k, x) # fs) =
     (case stringify x of
        Inl e \<Rightarrow> Inl e
      | Inr t \<Rightarrow>
         (case stringify_fields fs of
            Inl e \<Rightarrow> Inl e
          | Inr ts \<Rightarrow>
              Inr (case t of None \<Rightarrow> ts | Some s \<Rightarrow> (quote k @ '':'' @ s) # ts)))"

text \<open>The values that JSON can represent, and their text.\<close>

fun is_json :: "js \<Rightarrow> bool" where
  "is_json JUndef = False"
| "is_json (JBig n) = False"
| "is_json (JArr xs) = list_all is_json xs"
| "is_json (JObj fs) = list_all (\<lambda>(k, x). is_json x) fs"
| "is_json x = True"

fun json_text :: "js \<Rightarrow> string" where
  "json_text JNull = ''null''"
| "json_text (JBool b) = (if b then ''true'' else ''false'')"
| "json_text (JNum n) = dec_int n"
| "json_text (JStr s) = quote s"
| "json_text (JArr xs) = ''['' @ join '','' (map json_text xs) @ '']''"
| "json_text (JObj fs) =
     ''{'' @ join '','' (map (\<lambda>(k, x). quote k @ '':'' @ json_text x) fs) @ ''}''"
| "json_text x = []"

lemma stringify_json_all:
  "is_json v \<Longrightarrow> stringify v = Inr (Some (json_text v))"
  "list_all is_json xs \<Longrightarrow> stringify_elems xs = Inr (map json_text xs)"
  "list_all (\<lambda>(k, x). is_json x) fs \<Longrightarrow>
     stringify_fields fs = Inr (map (\<lambda>(k, x). quote k @ '':'' @ json_text x) fs)"
  by (induction v and xs and fs rule: stringify_stringify_elems_stringify_fields.induct) auto

lemmas stringify_json = stringify_json_all(1)

section \<open>JSON.parse: the interface\<close>

locale json_codec =
  fixes parse :: "string \<Rightarrow> js option"
  assumes parse_line: "is_json v \<Longrightarrow> parse (json_text v @ [CHR 0x0A]) = Some v"
    and parse_text: "is_json v \<Longrightarrow> parse (json_text v) = Some v"
begin

lemma parse_stringify:
  "is_json v \<Longrightarrow> stringify v = Inr (Some t) \<Longrightarrow> parse t = Some v"
  by (auto simp: stringify_json parse_text)

lemma json_text_inject: "is_json v \<Longrightarrow> is_json w \<Longrightarrow> json_text v = json_text w \<Longrightarrow> v = w"
  by (metis parse_text option.inject)

end

section \<open>A parser for the integer fragment\<close>

definition is_ws :: "char \<Rightarrow> bool" where
  "is_ws c \<longleftrightarrow> c = CHR '' '' \<or> c = CHR 0x09 \<or> c = CHR 0x0A \<or> c = CHR 0x0D"

abbreviation skip_ws :: "string \<Rightarrow> string" where
  "skip_ws s \<equiv> dropWhile is_ws s"

definition unescape :: "char \<Rightarrow> char option" where
  "unescape e =
     (if e = CHR 0x22 then Some (CHR 0x22)
      else if e = CHR 0x5C then Some (CHR 0x5C)
      else if e = CHR ''/'' then Some (CHR ''/'')
      else if e = CHR ''b'' then Some (CHR 0x08)
      else if e = CHR ''f'' then Some (CHR 0x0C)
      else if e = CHR ''n'' then Some (CHR 0x0A)
      else if e = CHR ''r'' then Some (CHR 0x0D)
      else if e = CHR ''t'' then Some (CHR 0x09)
      else None)"

text \<open>UTF-8 of a code point below the surrogates; surrogate escapes are outside the fragment.\<close>

definition utf8 :: "nat \<Rightarrow> string option" where
  "utf8 n =
     (if n < 128 then Some [char_of n]
      else if n < 2048 then Some [char_of (192 + n div 64), char_of (128 + n mod 64)]
      else if 55296 \<le> n \<and> n < 57344 then None
      else Some [char_of (224 + n div 4096), char_of (128 + n div 64 mod 64), char_of (128 + n mod 64)])"

definition hex4 :: "char \<Rightarrow> char \<Rightarrow> char \<Rightarrow> char \<Rightarrow> nat option" where
  "hex4 a b c d =
     (case (hex_value a, hex_value b, hex_value c, hex_value d) of
        (Some w, Some x, Some y, Some z) \<Rightarrow> Some (((w * 16 + x) * 16 + y) * 16 + z)
      | _ \<Rightarrow> None)"

definition prepend :: "string \<Rightarrow> (string \<times> string) option \<Rightarrow> (string \<times> string) option" where
  "prepend s = map_option (\<lambda>(t, r). (s @ t, r))"

fun parse_string :: "string \<Rightarrow> (string \<times> string) option" where
  "parse_string [] = None"
| "parse_string (c # r) =
     (if c = CHR 0x22 then Some ([], r)
      else if c = CHR 0x5C then
        (case r of
           [] \<Rightarrow> None
         | e # r2 \<Rightarrow>
            if e = CHR ''u'' then
              (case r2 of
                 w # x # y # z # r3 \<Rightarrow>
                   (case hex4 w x y z of
                      None \<Rightarrow> None
                    | Some n \<Rightarrow> (case utf8 n of None \<Rightarrow> None | Some bs \<Rightarrow> prepend bs (parse_string r3)))
               | _ \<Rightarrow> None)
            else (case unescape e of None \<Rightarrow> None | Some ch \<Rightarrow> prepend [ch] (parse_string r2)))
      else if byte c < 32 then None
      else prepend [c] (parse_string r))"

definition parse_number :: "string \<Rightarrow> (js \<times> string) option" where
  "parse_number s =
     (let neg = (s \<noteq> [] \<and> hd s = CHR ''-''); s1 = (if neg then tl s else s);
          ds = takeWhile is_digit s1; r = dropWhile is_digit s1;
          n = int (read_nat ds)
      in if ds = [] \<or> (length ds > 1 \<and> hd ds = CHR ''0'')
            \<or> (r \<noteq> [] \<and> hd r \<in> {CHR ''.'', CHR ''e'', CHR ''E''}) then None
         else Some (JNum (if neg then - n else n), r))"

definition parse_word :: "string \<Rightarrow> js \<Rightarrow> string \<Rightarrow> (js \<times> string) option" where
  "parse_word w v s = (if take (length w) s = w then Some (v, drop (length w) s) else None)"

fun parse_value :: "nat \<Rightarrow> string \<Rightarrow> (js \<times> string) option"
  and parse_elems :: "nat \<Rightarrow> string \<Rightarrow> (js list \<times> string) option"
  and parse_fields :: "nat \<Rightarrow> string \<Rightarrow> ((string \<times> js) list \<times> string) option"
where
  "parse_value 0 s = None"
| "parse_value (Suc f) s0 =
     (let s = skip_ws s0 in
      case s of
        [] \<Rightarrow> None
      | c # r \<Rightarrow>
         if c = CHR 0x22 then map_option (\<lambda>(t, r). (JStr t, r)) (parse_string r)
         else if c = CHR ''['' then
           (let r1 = skip_ws r in
            if r1 \<noteq> [] \<and> hd r1 = CHR '']'' then Some (JArr [], tl r1)
            else map_option (\<lambda>(xs, r). (JArr xs, r)) (parse_elems f r1))
         else if c = CHR ''{'' then
           (let r1 = skip_ws r in
            if r1 \<noteq> [] \<and> hd r1 = CHR ''}'' then Some (JObj [], tl r1)
            else map_option (\<lambda>(xs, r). (JObj xs, r)) (parse_fields f r1))
         else if c = CHR ''t'' then parse_word ''true'' (JBool True) s
         else if c = CHR ''f'' then parse_word ''false'' (JBool False) s
         else if c = CHR ''n'' then parse_word ''null'' JNull s
         else parse_number s)"
| "parse_elems 0 s = None"
| "parse_elems (Suc f) s =
     (case parse_value f s of
        None \<Rightarrow> None
      | Some (x, r) \<Rightarrow>
         (let r1 = skip_ws r in
          if r1 = [] then None
          else if hd r1 = CHR '']'' then Some ([x], tl r1)
          else if hd r1 = CHR '','' then map_option (\<lambda>(xs, r). (x # xs, r)) (parse_elems f (tl r1))
          else None))"
| "parse_fields 0 s = None"
| "parse_fields (Suc f) s =
     (let s1 = skip_ws s in
      if s1 = [] \<or> hd s1 \<noteq> CHR 0x22 then None
      else
       (case parse_string (tl s1) of
          None \<Rightarrow> None
        | Some (k, r) \<Rightarrow>
           (let r1 = skip_ws r in
            if r1 = [] \<or> hd r1 \<noteq> CHR '':'' then None
            else
             (case parse_value f (tl r1) of
                None \<Rightarrow> None
              | Some (x, q) \<Rightarrow>
                 (let q1 = skip_ws q in
                  if q1 = [] then None
                  else if hd q1 = CHR ''}'' then Some ([(k, x)], tl q1)
                  else if hd q1 = CHR '','' then
                    map_option (\<lambda>(xs, r). ((k, x) # xs, r)) (parse_fields f (tl q1))
                  else None)))))"

definition json_parse :: "string \<Rightarrow> js option" where
  "json_parse s =
     (case parse_value (Suc (length s)) s of
        None \<Rightarrow> None
      | Some (v, r) \<Rightarrow> if skip_ws r = [] then Some v else None)"

section \<open>The parser inverts the printer\<close>

lemma ws_chars [simp]:
  "\<not> is_ws (CHR 0x22)" "\<not> is_ws (CHR '','')" "\<not> is_ws (CHR '']'')" "\<not> is_ws (CHR ''}'')"
  "\<not> is_ws (CHR ''['')" "\<not> is_ws (CHR ''{'')" "\<not> is_ws (CHR '':'')" "\<not> is_ws (CHR ''t'')"
  "\<not> is_ws (CHR ''f'')" "\<not> is_ws (CHR ''n'')" "\<not> is_ws (CHR ''-'')" "is_ws (CHR 0x0A)"
  by (simp_all add: is_ws_def)

lemma prepend_Some [simp]: "prepend s (Some (t, r)) = Some (s @ t, r)"
  by (simp add: prepend_def)

lemma parse_string_escape_char:
  "parse_string (escape_char c @ r) = prepend [c] (parse_string r)"
proof (cases "byte c < 32")
  case True
  then have "utf8 (byte c) = Some [c]" by (simp add: utf8_def)
  moreover have "hex4 (CHR ''0'') (CHR ''0'') (hex_digit (byte c div 16)) (hex_digit (byte c mod 16))
      = Some (byte c)"
    by (simp add: hex4_def hex_value_def [of "CHR ''0''"])
  ultimately show ?thesis using True
    by (auto simp: escape_char_def hex_byte_def unescape_def)
next
  case False
  then show ?thesis by (auto simp: escape_char_def unescape_def)
qed

lemma parse_string_quote:
  "parse_string (concat (map escape_char s) @ CHR 0x22 # r) = Some (s, r)"
  by (induction s) (simp_all add: parse_string_escape_char)

definition delim :: "string \<Rightarrow> bool" where
  "delim r \<longleftrightarrow> r = [] \<or> hd r \<in> {CHR '','', CHR '']'', CHR ''}'', CHR 0x0A}"

lemma delim_simps [simp]:
  "delim []" "delim (CHR '','' # r)" "delim (CHR '']'' # r)" "delim (CHR ''}'' # r)"
  "delim (CHR 0x0A # r)"
  by (simp_all add: delim_def)

lemma delim_no_digit: "delim r \<Longrightarrow> r = [] \<or> \<not> is_digit (hd r)"
  by (auto simp: delim_def is_digit_def)

lemma delim_no_frac: "delim r \<Longrightarrow> (r \<noteq> [] \<and> hd r \<in> {CHR ''.'', CHR ''e'', CHR ''E''}) = False"
  by (auto simp: delim_def)

lemma digits_then_delim:
  assumes "delim r"
  shows "takeWhile is_digit (dec_nat n @ r) = dec_nat n" "dropWhile is_digit (dec_nat n @ r) = r"
  using dec_nat_digits [of n] delim_no_digit [OF assms]
  by (cases r; simp add: takeWhile_append dropWhile_append)+

lemma hd_dec_nat_zero: "hd (dec_nat n) = CHR ''0'' \<Longrightarrow> n = 0"
proof (induction n rule: dec_nat.induct)
  case (1 n)
  show ?case
  proof (cases "n < 10")
    case True
    with "1.prems" have "char_digit (digit_char n) = char_digit (CHR ''0'')"
      by (simp add: dec_nat.simps [of n])
    with True show ?thesis by (simp add: char_digit_def [of "CHR ''0''"])
  next
    case False
    with "1.prems" have "hd (dec_nat (n div 10)) = CHR ''0''"
      by (simp add: dec_nat.simps [of n] hd_append)
    with False "1.IH" have "n div 10 = 0" by blast
    with False show ?thesis by simp
  qed
qed

lemma digit_char_zero [simp]: "digit_char 0 = CHR ''0''"
proof -
  have "byte (digit_char 0) = byte (CHR ''0'')" by (simp add: digit_char_def)
  then show ?thesis by (simp only: of_char_eq_iff)
qed

lemma dec_nat_zero [simp]: "dec_nat 0 = ''0''"
  by (simp add: dec_nat.simps [of 0])

lemma dec_nat_no_leading_zero: "\<not> (length (dec_nat n) > 1 \<and> hd (dec_nat n) = CHR ''0'')"
  using hd_dec_nat_zero [of n] by auto

lemma is_digit_hd_dec_nat: "is_digit (hd (dec_nat n))"
  using dec_nat_digits [of n] by (simp add: hd_in_set)

lemma digit_facts:
  assumes "is_digit c"
  shows "c \<noteq> CHR ''-''" "c \<noteq> CHR 0x22" "c \<noteq> CHR ''[''" "c \<noteq> CHR ''{''" "c \<noteq> CHR ''t''"
    "c \<noteq> CHR ''f''" "c \<noteq> CHR ''n''" "\<not> is_ws c" "c \<noteq> CHR '']''"
  using assms by (auto simp: is_digit_def is_ws_def)

lemma parse_number_dec_int:
  assumes "delim r"
  shows "parse_number (dec_int n @ r) = Some (JNum n, r)"
proof (cases "n < 0")
  case True
  then show ?thesis
    by (simp add: parse_number_def dec_int_def Let_def digits_then_delim [OF assms]
        delim_no_frac [OF assms, simplified] dec_nat_no_leading_zero [simplified]
        del: dropWhile_eq_Nil_conv)
next
  case False
  then show ?thesis
    by (simp add: parse_number_def dec_int_def Let_def digits_then_delim [OF assms]
        delim_no_frac [OF assms, simplified] dec_nat_no_leading_zero [simplified]
        digit_facts(1) [OF is_digit_hd_dec_nat] del: dropWhile_eq_Nil_conv)
qed

lemma dec_int_head:
  obtains c t where "dec_int n = c # t" "c = CHR ''-'' \<or> is_digit c"
proof (cases "n < 0")
  case True
  then show ?thesis using that by (simp add: dec_int_def)
next
  case False
  then show ?thesis
    using that is_digit_hd_dec_nat [of "nat n"] dec_nat_nonempty [of "nat n"]
    by (cases "dec_nat (nat n)") (auto simp: dec_int_def)
qed

lemma parse_value_int:
  assumes "delim r"
  shows "parse_value (Suc f) (dec_int n @ r) = Some (JNum n, r)"
proof -
  obtain c t where ct: "dec_int n = c # t" "c = CHR ''-'' \<or> is_digit c"
    by (rule dec_int_head)
  then have "c \<noteq> CHR 0x22" "c \<noteq> CHR ''[''" "c \<noteq> CHR ''{''" "c \<noteq> CHR ''t''"
    "c \<noteq> CHR ''f''" "c \<noteq> CHR ''n''" "\<not> is_ws c"
    by (auto dest: digit_facts)
  then show ?thesis
    using parse_number_dec_int [OF assms, of n] ct(1) by simp
qed

fun js_fuel :: "js \<Rightarrow> nat" where
  "js_fuel (JArr xs) = Suc (sum_list (map (\<lambda>x. Suc (js_fuel x)) xs))"
| "js_fuel (JObj fs) = Suc (sum_list (map (\<lambda>(k, x). Suc (js_fuel x)) fs))"
| "js_fuel x = 1"

lemma json_text_head:
  "is_json v \<Longrightarrow> json_text v \<noteq> [] \<and> \<not> is_ws (hd (json_text v)) \<and> hd (json_text v) \<noteq> CHR '']''"
proof (cases v)
  case (JNum n)
  obtain c t where "dec_int n = c # t" "c = CHR ''-'' \<or> is_digit c" by (rule dec_int_head)
  then show ?thesis using JNum by (auto dest: digit_facts)
qed (auto simp: quote_def)

lemma skip_ws_json_text: "is_json v \<Longrightarrow> skip_ws (json_text v @ r) = json_text v @ r"
  using json_text_head [of v] by (cases "json_text v") auto

lemma skip_ws_join:
  assumes "list_all is_json (x # xs)"
  shows "skip_ws (join '','' (map json_text (x # xs)) @ r) = join '','' (map json_text (x # xs)) @ r"
    "hd (join '','' (map json_text (x # xs)) @ r) \<noteq> CHR '']''"
    "join '','' (map json_text (x # xs)) @ r \<noteq> []"
  using json_text_head [of x] assms by (cases xs; cases "json_text x"; auto)+

lemma parse_elems_join:
  assumes "\<And>x f r. x \<in> set xs \<Longrightarrow> js_fuel x \<le> f \<Longrightarrow> delim r \<Longrightarrow>
      parse_value f (json_text x @ r) = Some (x, r)"
    and "xs \<noteq> []" and "sum_list (map (\<lambda>x. Suc (js_fuel x)) xs) \<le> f"
  shows "parse_elems f (join '','' (map json_text xs) @ CHR '']'' # r) = Some (xs, r)"
  using assms
proof (induction xs arbitrary: f)
  case (Cons x xs)
  from Cons.prems(3) obtain g where f: "f = Suc g" by (cases f) auto
  from Cons.prems(3) f have fx: "js_fuel x \<le> g"
    and fr: "sum_list (map (\<lambda>x. Suc (js_fuel x)) xs) \<le> g" by auto
  show ?case
  proof (cases xs)
    case Nil
    then show ?thesis using Cons.prems(1) [of x g "CHR '']'' # r"] fx f by simp
  next
    case (Cons y ys)
    let ?rest = "join '','' (map json_text xs) @ CHR '']'' # r"
    have "parse_value g (json_text x @ CHR '','' # ?rest) = Some (x, CHR '','' # ?rest)"
      using Cons.prems(1) [of x g "CHR '','' # ?rest"] fx by simp
    moreover have "parse_elems g ?rest = Some (xs, r)"
      by (rule Cons.IH) (use Cons.prems(1) Cons fr in auto)
    ultimately show ?thesis using f Cons by simp
  qed
qed simp

abbreviation field_text :: "string \<times> js \<Rightarrow> string" where
  "field_text \<equiv> \<lambda>(k, x). quote k @ '':'' @ json_text x"

lemma parse_fields_step:
  assumes "parse_value g (json_text x @ q) = Some (x, q)" and "is_json x"
  shows "parse_fields (Suc g) (field_text (k, x) @ q) =
    (let q1 = skip_ws q in
     if q1 = [] then None
     else if hd q1 = CHR ''}'' then Some ([(k, x)], tl q1)
     else if hd q1 = CHR '','' then
       map_option (\<lambda>(xs, r). ((k, x) # xs, r)) (parse_fields g (tl q1))
     else None)"
proof -
  have "parse_string (concat (map escape_char k) @ CHR 0x22 # CHR '':'' # json_text x @ q)
      = Some (k, CHR '':'' # json_text x @ q)"
    by (rule parse_string_quote)
  then show ?thesis using assms by (simp add: quote_def Let_def)
qed

lemma parse_fields_join:
  assumes "\<And>k x f r. (k, x) \<in> set fs \<Longrightarrow> js_fuel x \<le> f \<Longrightarrow> delim r \<Longrightarrow>
      parse_value f (json_text x @ r) = Some (x, r)"
    and "list_all (\<lambda>(k, x). is_json x) fs"
    and "fs \<noteq> []" and "sum_list (map (\<lambda>(k, x). Suc (js_fuel x)) fs) \<le> f"
  shows "parse_fields f (join '','' (map field_text fs) @ CHR ''}'' # r) = Some (fs, r)"
  using assms
proof (induction fs arbitrary: f)
  case (Cons p fs)
  obtain k x where p: "p = (k, x)" by (cases p)
  from Cons.prems(4) p obtain g where f: "f = Suc g" by (cases f) auto
  from Cons.prems(4) f p have fx: "js_fuel x \<le> g"
    and fr: "sum_list (map (\<lambda>(k, x). Suc (js_fuel x)) fs) \<le> g" by auto
  have jx: "is_json x" using Cons.prems(2) p by simp
  have px: "\<And>q. delim q \<Longrightarrow> parse_value g (json_text x @ q) = Some (x, q)"
    using Cons.prems(1) [of k x g] fx p by simp
  show ?case
  proof (cases fs)
    case Nil
    then show ?thesis
      using parse_fields_step [OF px jx, of "CHR ''}'' # r" k] f p by simp
  next
    case (Cons y ys)
    let ?rest = "join '','' (map field_text fs) @ CHR ''}'' # r"
    have "parse_fields g ?rest = Some (fs, r)"
      by (rule Cons.IH) (use Cons.prems(1,2) Cons fr in auto)
    then show ?thesis
      using parse_fields_step [OF px jx, of "CHR '','' # ?rest" k] f p Cons by simp
  qed
qed simp

lemma parse_value_text:
  "is_json v \<Longrightarrow> js_fuel v \<le> f \<Longrightarrow> delim r \<Longrightarrow> parse_value f (json_text v @ r) = Some (v, r)"
proof (induction v arbitrary: f r)
  case (JNum n)
  then show ?case by (cases f) (simp_all add: parse_value_int del: parse_value.simps)
next
  case (JStr s)
  then obtain g where "f = Suc g" by (cases f) auto
  then show ?case using parse_string_quote [of s r] by (simp add: quote_def)
next
  case (JArr xs)
  then obtain g where f: "f = Suc g" by (cases f) auto
  show ?case
  proof (cases xs)
    case Nil
    then show ?thesis using f by simp
  next
    case (Cons y ys)
    have "list_all is_json xs" using JArr.prems by simp
    moreover have "parse_elems g (join '','' (map json_text xs) @ CHR '']'' # r) = Some (xs, r)"
      by (rule parse_elems_join) (use JArr f Cons in \<open>auto simp: list_all_iff\<close>)
    ultimately show ?thesis using skip_ws_join [of y ys "CHR '']'' # r"] f Cons
      by (simp del: join.simps map_append list.map)
  qed
next
  case (JObj fs)
  then obtain g where f: "f = Suc g" by (cases f) auto
  show ?case
  proof (cases fs)
    case Nil
    then show ?thesis using f by simp
  next
    case (Cons y ys)
    have "parse_fields g (join '','' (map field_text fs) @ CHR ''}'' # r) = Some (fs, r)"
      by (rule parse_fields_join) (use JObj f Cons in \<open>fastforce simp: list_all_iff\<close>)+
    moreover obtain t where "join '','' (map field_text fs) = CHR 0x22 # t"
      using Cons by (cases y; cases ys) (auto simp: quote_def)
    ultimately show ?thesis using f by simp
  qed
qed (auto simp: parse_word_def gr0_conv_Suc Suc_le_eq split: if_splits elim!: lessE)

lemma length_join:
  "xs \<noteq> [] \<Longrightarrow> Suc (length (join '','' xs)) = sum_list (map (\<lambda>x. Suc (length x)) xs)"
  by (induction "'','' :: string" xs rule: join.induct) auto

lemma js_fuel_le: "is_json v \<Longrightarrow> js_fuel v \<le> length (json_text v)"
proof (induction v)
  case (JNum n)
  obtain c t where "dec_int n = c # t" by (rule dec_int_head)
  then show ?case by simp
next
  case (JArr xs)
  then have "\<And>x. x \<in> set xs \<Longrightarrow> Suc (js_fuel x) \<le> Suc (length (json_text x))"
    by (simp add: list_all_iff)
  then have "sum_list (map (\<lambda>x. Suc (js_fuel x)) xs) \<le> sum_list (map (\<lambda>x. Suc (length (json_text x))) xs)"
    by (rule sum_list_mono)
  then show ?case using length_join [of "map json_text xs"] by (cases xs) (simp_all add: comp_def)
next
  case (JObj fs)
  then have "\<And>p. p \<in> set fs \<Longrightarrow> (case p of (k, x) \<Rightarrow> Suc (js_fuel x)) \<le> Suc (length (field_text p))"
    by (fastforce simp: list_all_iff)
  then have "sum_list (map (\<lambda>(k, x). Suc (js_fuel x)) fs) \<le> sum_list (map (\<lambda>p. Suc (length (field_text p))) fs)"
    by (rule sum_list_mono)
  then show ?case using length_join [of "map field_text fs"] by (cases fs) (simp_all add: comp_def)
qed (simp_all add: quote_def)

lemma json_parse_text:
  assumes "is_json v" and "delim r" and "skip_ws r = []"
  shows "json_parse (json_text v @ r) = Some v"
proof -
  have "js_fuel v \<le> Suc (length (json_text v @ r))"
    using js_fuel_le [OF assms(1)] by simp
  then have "parse_value (Suc (length (json_text v @ r))) (json_text v @ r) = Some (v, r)"
    using parse_value_text assms by blast
  then show ?thesis using assms(3) by (simp add: json_parse_def del: parse_value.simps)
qed

interpretation json: json_codec json_parse
proof unfold_locales
  fix v
  assume v: "is_json v"
  show "json_parse (json_text v @ [CHR 0x0A]) = Some v"
    by (rule json_parse_text [OF v]) simp_all
  show "json_parse (json_text v) = Some v"
    using json_parse_text [OF v, of "[]"] by simp
qed

section \<open>Reading objects\<close>

text \<open>Property access on a value: \<^verbatim>\<open>undefined\<close> when the value is no object or lacks the field.\<close>

fun js_get :: "js \<Rightarrow> string \<Rightarrow> js" where
  "js_get (JObj fs) k = (case map_of fs k of None \<Rightarrow> JUndef | Some v \<Rightarrow> v)"
| "js_get v k = JUndef"

fun js_string :: "js \<Rightarrow> string option" where
  "js_string (JStr s) = Some s"
| "js_string v = None"

fun js_int :: "js \<Rightarrow> int option" where
  "js_int (JNum n) = Some n"
| "js_int v = None"

text \<open>\<^verbatim>\<open>isRecord\<close>: a non-null object that is not an array.\<close>

fun isRecord :: "js \<Rightarrow> bool" where
  "isRecord (JObj fs) = True"
| "isRecord v = False"

definition opt_str :: "string option \<Rightarrow> js" where
  "opt_str o1 = (case o1 of None \<Rightarrow> JUndef | Some s \<Rightarrow> JStr s)"

definition opt_int :: "int option \<Rightarrow> js" where
  "opt_int o1 = (case o1 of None \<Rightarrow> JUndef | Some n \<Rightarrow> JNum n)"

text \<open>\<^verbatim>\<open>x ?? null\<close> for a string.\<close>

definition str_or_null :: "string option \<Rightarrow> js" where
  "str_or_null o1 = (case o1 of None \<Rightarrow> JNull | Some s \<Rightarrow> JStr s)"

end
