(* ===== verification/Ipc.thy ===== *)
theory Ipc
  imports Json
begin

text \<open>
  The bridge protocol between Broker and Runner (\<^verbatim>\<open>shared/ipc-protocol/src/index.mts\<close>): its
  constants, payloads, the two discriminated unions of messages and the envelopes that carry
  them, and the rows the services share. A number is an \<open>int\<close>, \<^verbatim>\<open>unknown\<close> is \<open>js\<close>, an optional
  field or one that may be \<^verbatim>\<open>null\<close> is an \<open>option\<close>. The type tag of a message is a function of its
  constructor (\<open>btr_type\<close>, \<open>rtb_type\<close>); the theory relates the tags to the frozen channel
  catalogs.
\<close>

section \<open>Constants\<close>

definition IPC_VERSION :: int where "IPC_VERSION = 1"
definition RUNTIME_CONTRACT_VERSION :: int where "RUNTIME_CONTRACT_VERSION = 1"

definition ACTIVE_GAMES_KEY_PREFIX :: string where "ACTIVE_GAMES_KEY_PREFIX = ''active_games:''"
definition SHARD_REGISTRY_KEY_PREFIX :: string where "SHARD_REGISTRY_KEY_PREFIX = ''shards:''"
definition SHARD_DRAIN_KEY_PREFIX :: string where "SHARD_DRAIN_KEY_PREFIX = ''shard_drain:''"
definition PLACEMENT_RECENT_WAKES_KEY_PREFIX :: string where
  "PLACEMENT_RECENT_WAKES_KEY_PREFIX = ''placement_recent_wakes:''"
definition BUNDLE_KEY_PREFIX :: string where "BUNDLE_KEY_PREFIX = ''bundles:''"
definition GAME_KEY_PREFIX :: string where "GAME_KEY_PREFIX = ''games:''"
definition ALLOWED_PLAYERS_KEY_PREFIX :: string where "ALLOWED_PLAYERS_KEY_PREFIX = ''allowed_players:''"
definition API_KIND_KEY_PREFIX :: string where "API_KIND_KEY_PREFIX = ''api_kinds:''"
definition STATE_KEY_PREFIX :: string where "STATE_KEY_PREFIX = ''state:''"
definition BLOB_KEY_PREFIX :: string where "BLOB_KEY_PREFIX = ''blob:''"
definition HOST_EVENT_QUEUE_KEY_PREFIX :: string where "HOST_EVENT_QUEUE_KEY_PREFIX = ''host_events:''"

definition SHARD_REGISTRY_TTL_SECONDS :: int where "SHARD_REGISTRY_TTL_SECONDS = 45"
definition ACTIVE_GAME_TTL_SECONDS :: int where "ACTIVE_GAME_TTL_SECONDS = 3600"
definition PLACEMENT_RECENT_WAKES_TTL_SECONDS :: int where "PLACEMENT_RECENT_WAKES_TTL_SECONDS = 45"
definition DEFAULT_STATE_BYTES_LIMIT :: int where "DEFAULT_STATE_BYTES_LIMIT = 131072"
definition DEFAULT_BLOB_BYTES_LIMIT :: int where "DEFAULT_BLOB_BYTES_LIMIT = 104857600"
definition DEFAULT_BLOB_KEYS_LIMIT :: int where "DEFAULT_BLOB_KEYS_LIMIT = 1024"
definition HOST_EVENT_QUEUE_TTL_SECONDS :: int where
  "HOST_EVENT_QUEUE_TTL_SECONDS = 30 * 24 * 60 * 60"

definition GATEWAY_ENVELOPE_VERSION :: int where "GATEWAY_ENVELOPE_VERSION = 2"

section \<open>Envelopes\<close>

record BridgeEnvelopeOptions =
  eo_requestId :: "string option"
  eo_traceId :: "string option"
  eo_spanId :: "string option"
  eo_timeoutMs :: "int option"
  eo_ts_ns :: "int option"

definition no_options :: BridgeEnvelopeOptions where
  "no_options = \<lparr>eo_requestId = None, eo_traceId = None, eo_spanId = None, eo_timeoutMs = None, eo_ts_ns = None\<rparr>"

record 'p BridgeEnvelope =
  be_version :: int
  be_gameId :: string
  be_payload :: 'p
  be_options :: BridgeEnvelopeOptions

record 'p RunnerControlEnvelope =
  re_version :: int
  re_payload :: 'p
  re_options :: BridgeEnvelopeOptions

definition bridgeEnvelope :: "string \<Rightarrow> 'p \<Rightarrow> BridgeEnvelopeOptions \<Rightarrow> 'p BridgeEnvelope" where
  "bridgeEnvelope gameId payload options =
     \<lparr>be_version = RUNTIME_CONTRACT_VERSION, be_gameId = gameId, be_payload = payload,
      be_options = options\<rparr>"

definition runnerControlEnvelope :: "'p \<Rightarrow> BridgeEnvelopeOptions \<Rightarrow> 'p RunnerControlEnvelope" where
  "runnerControlEnvelope payload options =
     \<lparr>re_version = RUNTIME_CONTRACT_VERSION, re_payload = payload, re_options = options\<rparr>"

section \<open>Lifecycle payloads\<close>

datatype WakeReason = ColdStart | Reconnect | ColdRestartAfterCrash | ColdRestartAfterEviction
  | ColdRestartFromStorage | WakeUpgrade

datatype WakeErrorClass = Oom | Crash | CpuTimeout | UnknownClass

record OnWakePayload =
  ow_reason :: WakeReason
  ow_errorClass :: "WakeErrorClass option"
  ow_runId :: "string option"
  ow_bundleName :: string
  ow_bundleCompatTag :: string
  ow_blobCompatTag :: "string option"
  ow_state :: "js option"

datatype SleepReason = Idle | RequestedBySleep | Evicted | SleepShardEvicted | Shutdown | SleepUpgrade

record OnSleepPayload =
  sl_deadline :: int
  sl_reason :: SleepReason

record OnPlayerConnectPayload =
  oc_playerId :: string
  oc_sessionId :: string
  oc_jwtClaims :: "js js_map"
  oc_connectedAt :: int

datatype DisconnectReason = LeftGame | TimedOut | RemovedFromAllowedPlayers | ShardEvicted | GameDeleted

record OnPlayerDisconnectPayload =
  od_playerId :: string
  od_sessionId :: string
  od_reason :: DisconnectReason

record OnPlayerMessagePayload =
  om_playerId :: string
  om_sessionId :: string
  om_seq :: int
  om_body :: js

datatype ComputeBudgetName = CpuMsPerTick | MemoryBytes | BandwidthBytesPerSec | WsMessagesPerSec
  | StateBytes | BlobBytes | BlobKeys | ApiInvocationsPerMin

record OnCapacityWarningPayload =
  cw_budget :: ComputeBudgetName
  cw_currentUsage :: int
  cw_limit :: int

record OnHostEventPayload =
  oh_eventType :: string
  oh_payload :: js
  oh_receivedAt :: int
  oh_eventId :: "string option"
  oh_deliveryAttempts :: "int option"

record OnTickPayload =
  ot_tickSeq :: int
  ot_intervalMs :: int

record HostEventRecord =
  he_gameId :: string
  he_eventId :: string
  he_eventType :: string
  he_payload :: js
  he_receivedAt :: int
  he_deliveryAttempts :: int
  he_wakeOnDelivery :: bool
  he_expiresAt :: int

section \<open>Assignment and telemetry\<close>

datatype RunnerKind = Ivm | Noivm

datatype TestSeed = SeedNum int | SeedStr string

record AssignPayload =
  as_bundleName :: string
  as_bundleSource :: string
  as_bundleCompatTag :: string
  as_runId :: "string option"
  as_memoryLimitMb :: int
  as_handlerTimeoutMs :: int
  as_testSeed :: "TestSeed option"

record RunnerAssignment = AssignPayload +
  ra_gameId :: string
  ra_runtimeContractRequired :: int
  ra_generation :: "int option"

record RunnerAssignmentGrant =
  rg_runnerId :: string
  rg_gameId :: string
  rg_generation :: int
  rg_runtimeContractRequired :: int
  rg_assignedAt :: int

datatype RuntimeHandlerName = H_onWake | H_onSleep | H_onPlayerConnect | H_onPlayerDisconnect
  | H_onPlayerMessage | H_onCapacityWarning | H_onHostEvent | H_onTick

record RunnerInvoke =
  ri_gameId :: string
  ri_handler :: RuntimeHandlerName
  ri_payload :: js
  ri_timeoutMs :: int
  ri_traceId :: "string option"

record RunnerReadyPayload =
  rr_runnerId :: string
  rr_kind :: RunnerKind
  rr_maxAssignedGames :: int
  rr_runtimeContractsSupported :: "int \<times> int"
  rr_pid :: "int option"

record IsolateReadyPayload =
  ir_runnerId :: string
  ir_bundleName :: string
  ir_bundleCompatTag :: string
  ir_runId :: "string option"

record RunnerTelemetry =
  te_gameId :: string
  te_runnerId :: string
  te_memoryBytes :: int
  te_cpuMs :: int
  te_isolateCount :: int

record IsolateCountersPayload = RunnerTelemetry +
  ic_heapUsedBytes :: int
  ic_heapLimitBytes :: int
  ic_wallTimeMs :: int

record HandlerCompletePayload =
  hc_handler :: RuntimeHandlerName
  hc_durationMs :: int
  hc_timeoutMs :: int

datatype HandlerErrorCode = HandlerError | HandlerTimeout | HandlerException

record HandlerErrorPayload = HandlerCompletePayload +
  hr_error :: string
  hr_code :: HandlerErrorCode

record IsolateFatalPayload =
  if_runnerId :: "string option"
  if_message :: string
  if_error :: string
  if_errorClass :: "WakeErrorClass option"

record RunnerUnknownMessagePayload =
  ru_type :: string
  ru_detail :: "js option"

section \<open>External API channel\<close>

datatype ApiInvokeError = KindUnknown | ProviderError | ApiRateExceeded | ReplayCoverageGap

record ApiInvokeRequest =
  ai_kind :: string
  ai_args :: js
  ai_idempotencyKey :: "string option"

record ApiKindRegistration =
  ak_kindName :: string
  ak_url :: string
  ak_registeredAt :: "int option"

datatype ApiInvokeResponse = ApiOk js | ApiErr ApiInvokeError "js option"

record ConnectedSessionSnapshot =
  ss_sessionId :: string
  ss_playerId :: string
  ss_connectedAt :: int

record GatewayInvokeContext =
  gc_gameId :: string
  gc_traceId :: "string option"
  gc_triggeringSessionId :: "string option"
  gc_triggeringJwtClaims :: "js js_map option"
  gc_connectedSessions :: "ConnectedSessionSnapshot list"
  gc_bundleName :: string
  gc_bundleCompatTag :: string
  gc_runId :: "string option"
  gc_idempotencyKey :: "string option"

record GatewayHttpRequestBody =
  gb_args :: js
  gb_context :: GatewayInvokeContext

datatype GatewayHttpResponseBody = GatewayResult js | GatewayError string "js option"

record ApiGatewayDispatchInput = ApiInvokeRequest +
  di_gameId :: string
  di_triggeringSessionId :: "string option"
  di_triggeringJwtClaims :: "js js_map option"
  di_connectedSessions :: "ConnectedSessionSnapshot list"
  di_bundleName :: string
  di_bundleCompatTag :: string
  di_runId :: "string option"
  di_traceId :: "string option"
  di_replayMode :: "bool option"

datatype WireMode = Live | Replay

record ApiInvokeWireRecord =
  wr_requestId :: string
  wr_fingerprint :: string
  wr_mode :: WireMode
  wr_kind :: string
  wr_gameId :: string
  wr_runId :: "string option"
  wr_rawOutbound :: string
  wr_rawInbound :: string
  wr_statusCode :: int
  wr_error :: "ApiInvokeError option"
  wr_recordedAt :: string

record ApiGatewayInvokeResult =
  gr_response :: ApiInvokeResponse
  gr_wireRecord :: "ApiInvokeWireRecord option"

section \<open>Budget, storage and WebSocket payloads\<close>

record ComputeBudgetUsage =
  bu_currentUsage :: int
  bu_limit :: int
  bu_windowMs :: "int option"

type_synonym ComputeBudgetSnapshot = "ComputeBudgetName \<Rightarrow> ComputeBudgetUsage"

datatype StorageError = SizeExceeded | KeyCountExceeded | StorageUnavailable

datatype StorageWriteResponse = StorageOk | StorageErr StorageError "js option"

record StorageReadResponsePayload =
  sp_value :: "js option"
  sp_found :: "bool option"
  sp_bytes :: "int option"

record BlobPutIpcPayload =
  bp_key :: string
  bp_bytesBase64 :: string

record BlobGetResponsePayload =
  bg_valueBase64 :: "string option"
  bg_found :: "bool option"
  bg_bytesBase64 :: "string option"
  bg_bytes :: "int option"

record BlobListItem =
  bl_key :: string
  bl_size :: int

datatype WsTarget = ToSession string | ToSessions "string list" | ToAll

datatype WsSendError = BandwidthExceeded | RateExceeded | SerializationFailed | TargetInvalid
  | TargetNotConnected

datatype WsSendResponse = WsSent int int | WsErr WsSendError "js option"

datatype MetricKind = Counter | Gauge | Histogram

record MetricsEmitPayload =
  me_name :: string
  me_kind :: MetricKind
  me_value :: int
  me_tags :: "string js_map option"

section \<open>Message unions\<close>

datatype BrokerToRunner =
    Assign AssignPayload
  | Release
  | ApiInvokeResponseMsg ApiInvokeResponse
  | PlayersAllowedResponse "string list"
  | PlayersConnectedResponse "ConnectedSessionSnapshot list"
  | ComputeBudgetResponse ComputeBudgetSnapshot
  | StateReadResponse StorageReadResponsePayload
  | StateWriteResponse StorageWriteResponse
  | StateFlushResponse StorageWriteResponse
  | BlobPutResponse StorageWriteResponse
  | BlobGetResponse BlobGetResponsePayload
  | BlobDeleteResponse
  | BlobListResponse "BlobListItem list"
  | WsSendResponseMsg WsSendResponse
  | OnWake OnWakePayload
  | OnSleep OnSleepPayload
  | OnPlayerConnect OnPlayerConnectPayload
  | OnPlayerDisconnect OnPlayerDisconnectPayload
  | OnPlayerMessage OnPlayerMessagePayload
  | OnCapacityWarning OnCapacityWarningPayload
  | OnHostEvent OnHostEventPayload
  | OnTick OnTickPayload

text \<open>A \<^verbatim>\<open>ws.send\<close> target is untyped on the wire: any value can arrive.\<close>

datatype RunnerToBroker =
    RunnerReady RunnerReadyPayload
  | IsolateReady IsolateReadyPayload
  | ApiInvoke ApiInvokeRequest
  | PlayersAllowed
  | PlayersConnected
  | ComputeBudget
  | StateRead
  | StateWrite js
  | StateFlush
  | BlobPut BlobPutIpcPayload
  | BlobGet string
  | BlobDelete string
  | BlobList "string option"
  | WsSend js js
  | WsSendRejected WsSendError "js option"
  | LogEmit js
  | MetricsEmit MetricsEmitPayload
  | LifecycleRequestSleep
  | LifecycleRequestTick int
  | LifecycleSleepComplete SleepReason int
  | HandlerCompleteMsg HandlerCompletePayload
  | HandlerErrorMsg HandlerErrorPayload
  | IsolateFatal IsolateFatalPayload
  | IsolateCounters IsolateCountersPayload
  | RunnerUnknownMessage RunnerUnknownMessagePayload

type_synonym BrokerToRunnerEnvelope = "BrokerToRunner BridgeEnvelope"
type_synonym RunnerToBrokerEnvelope = "RunnerToBroker BridgeEnvelope"

section \<open>Channel catalogs\<close>

definition BROKER_TO_RUNNER :: "(string \<times> string) list" where
  "BROKER_TO_RUNNER =
    [(''assign'', ''assign''), (''release'', ''release''),
     (''apiInvokeResponse'', ''api.invoke.response''),
     (''playersAllowedResponse'', ''players.allowed.response''),
     (''playersConnectedResponse'', ''players.connected.response''),
     (''computeBudgetResponse'', ''compute.budget.response''),
     (''stateReadResponse'', ''state.read.response''),
     (''stateWriteResponse'', ''state.write.response''),
     (''stateFlushResponse'', ''state.flush.response''),
     (''blobPutResponse'', ''blob.put.response''), (''blobGetResponse'', ''blob.get.response''),
     (''blobDeleteResponse'', ''blob.delete.response''),
     (''blobListResponse'', ''blob.list.response''), (''wsSendResponse'', ''ws.send.response''),
     (''onWake'', ''onWake''), (''onSleep'', ''onSleep''),
     (''onPlayerConnect'', ''onPlayerConnect''), (''onPlayerDisconnect'', ''onPlayerDisconnect''),
     (''onPlayerMessage'', ''onPlayerMessage''), (''onCapacityWarning'', ''onCapacityWarning''),
     (''onHostEvent'', ''onHostEvent''), (''onTick'', ''onTick'')]"

definition RUNNER_TO_BROKER :: "(string \<times> string) list" where
  "RUNNER_TO_BROKER =
    [(''runnerReady'', ''runner.ready''), (''isolateReady'', ''isolate.ready''),
     (''apiInvoke'', ''api.invoke''), (''playersAllowed'', ''players.allowed''),
     (''playersConnected'', ''players.connected''), (''computeBudget'', ''compute.budget''),
     (''stateRead'', ''state.read''), (''stateWrite'', ''state.write''),
     (''stateFlush'', ''state.flush''), (''blobPut'', ''blob.put''), (''blobGet'', ''blob.get''),
     (''blobDelete'', ''blob.delete''), (''blobList'', ''blob.list''), (''wsSend'', ''ws.send''),
     (''wsSendRejected'', ''ws.send.rejected''), (''logEmit'', ''log.emit''),
     (''metricsEmit'', ''metrics.emit''), (''lifecycleRequestSleep'', ''lifecycle.requestSleep''),
     (''lifecycleRequestTick'', ''lifecycle.requestTick''),
     (''lifecycleSleepComplete'', ''lifecycle.sleepComplete''),
     (''handlerComplete'', ''handler.complete''), (''handlerError'', ''handler.error''),
     (''isolateFatal'', ''isolate.fatal''), (''isolateCounters'', ''isolate.counters''),
     (''runnerUnknownMessage'', ''runner.unknownMessage'')]"

definition RunnerRequestChannel :: "string list" where
  "RunnerRequestChannel =
    [''api.invoke'', ''players.allowed'', ''players.connected'', ''compute.budget'', ''state.read'',
     ''state.write'', ''state.flush'', ''blob.put'', ''blob.get'', ''blob.delete'', ''blob.list'',
     ''ws.send'']"

fun btr_type :: "BrokerToRunner \<Rightarrow> string" where
  "btr_type (Assign p) = ''assign''"
| "btr_type Release = ''release''"
| "btr_type (ApiInvokeResponseMsg p) = ''api.invoke.response''"
| "btr_type (PlayersAllowedResponse p) = ''players.allowed.response''"
| "btr_type (PlayersConnectedResponse p) = ''players.connected.response''"
| "btr_type (ComputeBudgetResponse p) = ''compute.budget.response''"
| "btr_type (StateReadResponse p) = ''state.read.response''"
| "btr_type (StateWriteResponse p) = ''state.write.response''"
| "btr_type (StateFlushResponse p) = ''state.flush.response''"
| "btr_type (BlobPutResponse p) = ''blob.put.response''"
| "btr_type (BlobGetResponse p) = ''blob.get.response''"
| "btr_type BlobDeleteResponse = ''blob.delete.response''"
| "btr_type (BlobListResponse p) = ''blob.list.response''"
| "btr_type (WsSendResponseMsg p) = ''ws.send.response''"
| "btr_type (OnWake p) = ''onWake''"
| "btr_type (OnSleep p) = ''onSleep''"
| "btr_type (OnPlayerConnect p) = ''onPlayerConnect''"
| "btr_type (OnPlayerDisconnect p) = ''onPlayerDisconnect''"
| "btr_type (OnPlayerMessage p) = ''onPlayerMessage''"
| "btr_type (OnCapacityWarning p) = ''onCapacityWarning''"
| "btr_type (OnHostEvent p) = ''onHostEvent''"
| "btr_type (OnTick p) = ''onTick''"

fun rtb_type :: "RunnerToBroker \<Rightarrow> string" where
  "rtb_type (RunnerReady p) = ''runner.ready''"
| "rtb_type (IsolateReady p) = ''isolate.ready''"
| "rtb_type (ApiInvoke p) = ''api.invoke''"
| "rtb_type PlayersAllowed = ''players.allowed''"
| "rtb_type PlayersConnected = ''players.connected''"
| "rtb_type ComputeBudget = ''compute.budget''"
| "rtb_type StateRead = ''state.read''"
| "rtb_type (StateWrite v) = ''state.write''"
| "rtb_type StateFlush = ''state.flush''"
| "rtb_type (BlobPut p) = ''blob.put''"
| "rtb_type (BlobGet k) = ''blob.get''"
| "rtb_type (BlobDelete k) = ''blob.delete''"
| "rtb_type (BlobList p) = ''blob.list''"
| "rtb_type (WsSend t b) = ''ws.send''"
| "rtb_type (WsSendRejected e d) = ''ws.send.rejected''"
| "rtb_type (LogEmit p) = ''log.emit''"
| "rtb_type (MetricsEmit p) = ''metrics.emit''"
| "rtb_type LifecycleRequestSleep = ''lifecycle.requestSleep''"
| "rtb_type (LifecycleRequestTick i) = ''lifecycle.requestTick''"
| "rtb_type (LifecycleSleepComplete r d) = ''lifecycle.sleepComplete''"
| "rtb_type (HandlerCompleteMsg p) = ''handler.complete''"
| "rtb_type (HandlerErrorMsg p) = ''handler.error''"
| "rtb_type (IsolateFatal p) = ''isolate.fatal''"
| "rtb_type (IsolateCounters p) = ''isolate.counters''"
| "rtb_type (RunnerUnknownMessage p) = ''runner.unknownMessage''"

section \<open>Shared rows\<close>

record ShardBrokerInfo =
  sb_flyMachineId :: "string option"
  sb_publicUrl :: "string option"
  sb_wsPath :: "string option"

datatype ShardStatus = ShardHealthy | ShardDraining | ShardDrained | ShardUnhealthy

record ShardRegistration =
  sh_shardId :: string
  sh_url :: string
  sh_status :: ShardStatus
  sh_healthy :: bool
  sh_acceptingWakes :: bool
  sh_runtimeContractsSupported :: "int \<times> int"
  sh_activeGames :: int
  sh_currentGameCount :: "int option"
  sh_maxGames :: "int option"
  sh_cpuPct :: "int option"
  sh_recentWakeRate :: "int option"
  sh_lastSeenAt :: int
  sh_broker :: "ShardBrokerInfo option"

record ActiveGamePlacement =
  ap_gameId :: string
  ap_shardId :: string
  ap_placedAt :: int
  ap_refreshedAt :: int
  ap_generation :: int
  ap_brokerId :: "string option"
  ap_flyMachineId :: "string option"

record BundleManifest =
  bm_compatTagProduced :: string
  bm_compatTagsAccepted :: "string list"
  bm_runtimeContractRequired :: int

record BundleRecord =
  br_bundleName :: string
  br_manifest :: BundleManifest
  br_uploadedAt :: "string option"
  br_uploadedBy :: "string option"
  br_tigrisPath :: "string option"
  br_sourceObjectKey :: "string option"
  br_manifestObjectKey :: "string option"
  br_metadataObjectKey :: "string option"
  br_contentSha256 :: "string option"
  br_sizeBytes :: "int option"
  br_source :: "string option"
  br_publishedAt :: "int option"

record BundleRollbackRecord =
  rb_previousBundleName :: string
  rb_failedBundleName :: string
  rb_createdAt :: int
  rb_expiresAt :: int
  rb_consecutiveWakeFailures :: int

record GameRecord =
  gm_gameId :: string
  gm_bundleName :: string
  gm_blobCompatTag :: "string option"
  gm_bundleRollback :: "BundleRollbackRecord option"
  gm_createdAt :: int

section \<open>The legacy parent and child catalogs\<close>

record 'p IpcEnvelope =
  ie_version :: int
  ie_type :: string
  ie_payload :: 'p
  ie_requestId :: "string option"

definition envelope :: "string \<Rightarrow> 'p \<Rightarrow> string option \<Rightarrow> 'p IpcEnvelope" where
  "envelope type payload requestId =
     \<lparr>ie_version = IPC_VERSION, ie_type = type, ie_payload = payload, ie_requestId = requestId\<rparr>"

record BootstrapPayload = AssignPayload +
  bo_gameId :: string

definition PARENT_TO_CHILD :: "(string \<times> string) list" where
  "PARENT_TO_CHILD =
    [(''bootstrap'', ''bootstrap''),
     (''apiInvokeResponse'', ''api.invoke.response''),
     (''playersAllowedResponse'', ''players.allowed.response''),
     (''playersConnectedResponse'', ''players.connected.response''),
     (''computeBudgetResponse'', ''compute.budget.response''),
     (''stateReadResponse'', ''state.read.response''),
     (''stateWriteResponse'', ''state.write.response''),
     (''stateFlushResponse'', ''state.flush.response''),
     (''blobPutResponse'', ''blob.put.response''), (''blobGetResponse'', ''blob.get.response''),
     (''blobDeleteResponse'', ''blob.delete.response''),
     (''blobListResponse'', ''blob.list.response''), (''wsSendResponse'', ''ws.send.response''),
     (''onWake'', ''onWake''), (''onSleep'', ''onSleep''),
     (''onPlayerConnect'', ''onPlayerConnect''), (''onPlayerDisconnect'', ''onPlayerDisconnect''),
     (''onPlayerMessage'', ''onPlayerMessage''), (''onCapacityWarning'', ''onCapacityWarning''),
     (''onHostEvent'', ''onHostEvent''), (''onTick'', ''onTick'')]"

definition CHILD_TO_PARENT :: "(string \<times> string) list" where
  "CHILD_TO_PARENT =
    [(''ready'', ''ready''),
     (''apiInvoke'', ''api.invoke''), (''playersAllowed'', ''players.allowed''),
     (''playersConnected'', ''players.connected''), (''computeBudget'', ''compute.budget''),
     (''stateRead'', ''state.read''), (''stateWrite'', ''state.write''),
     (''stateFlush'', ''state.flush''), (''blobPut'', ''blob.put''), (''blobGet'', ''blob.get''),
     (''blobDelete'', ''blob.delete''), (''blobList'', ''blob.list''), (''wsSend'', ''ws.send''),
     (''wsSendRejected'', ''ws.send.rejected''), (''logEmit'', ''log.emit''),
     (''metricsEmit'', ''metrics.emit''), (''lifecycleRequestSleep'', ''lifecycle.requestSleep''),
     (''lifecycleRequestTick'', ''lifecycle.requestTick''),
     (''lifecycleSleepComplete'', ''lifecycle.sleepComplete'')]"

end
