(* ===== verification/ObjectStore.thy ===== *)
theory ObjectStore
  imports Json "HOL-Library.Sublist"
begin

text \<open>
  The object-store interface of the state store (\<^verbatim>\<open>StateObjectStore\<close> in
  \<^verbatim>\<open>runtime/state-store/src/index.mts\<close>) and its adapters (\<^verbatim>\<open>runtime/state-store/src/adapters.mts\<close>).

  The interface is a record of operations over a store state \<open>'s\<close>; a thrown exception is an
  \<open>Inl\<close>. The locale \<open>object_store\<close> states what its clients rely on (read your writes,
  conditional puts, deletion) and is interpreted on \<open>MemoryStateObjectStore\<close>. The content
  hash, the collation order and \<^verbatim>\<open>JSON.parse\<close> come from the host and are collected in
  the record \<open>host\<close>.
\<close>

section \<open>The host\<close>

record host =
  host_parse :: "string \<Rightarrow> js option"
  host_sha256 :: "bytes \<Rightarrow> string"
  host_localeLe :: "string \<Rightarrow> string \<Rightarrow> bool"

text \<open>
  What the development relies on from the host: \<^verbatim>\<open>JSON.parse\<close> inverts \<^verbatim>\<open>JSON.stringify\<close>, and
  SHA-256 is treated as free of collisions.
\<close>

locale host_env = json_codec "host_parse H" for H :: host +
  assumes sha256_inj: "host_sha256 H x = host_sha256 H y \<Longrightarrow> x = y"

text \<open>A concrete host: the integer parser, and hexadecimal as an injective digest.\<close>

definition plain_host :: host where
  "plain_host = \<lparr>host_parse = json_parse, host_sha256 = (\<lambda>bs. concat (map hex_byte bs)),
     host_localeLe = (\<lambda>x y. x \<le> y)\<rparr>"

interpretation plain_host: host_env plain_host
proof unfold_locales
  fix v
  assume v: "is_json v"
  show "host_parse plain_host (json_text v @ [CHR 0x0A]) = Some v"
    using json.parse_line [OF v] by (simp add: plain_host_def)
  show "host_parse plain_host (json_text v) = Some v"
    using json.parse_text [OF v] by (simp add: plain_host_def)
next
  fix x y
  assume "host_sha256 plain_host x = host_sha256 plain_host y"
  then show "x = y" by (simp add: plain_host_def concat_hex_byte_inject)
qed

lemma plain_host_env: "host_env plain_host"
  by (rule plain_host.host_env_axioms)

section \<open>The interface\<close>

datatype store_error =
    ConditionalPutConflict string
  | StoreFailure string

record list_entry =
  le_key :: string
  le_size :: "int option"
  le_updatedAt :: "int option"

record 's StateObjectStore =
  os_get :: "'s \<Rightarrow> string \<Rightarrow> store_error + (bytes \<times> string) option"
  os_put :: "'s \<Rightarrow> string \<Rightarrow> bytes \<Rightarrow> string option \<Rightarrow> store_error + 's \<times> string"
  os_delete :: "'s \<Rightarrow> string \<Rightarrow> store_error + 's"
  os_list :: "('s \<Rightarrow> string \<Rightarrow> store_error + list_entry list) option"

text \<open>
  \<open>lookup\<close> is the store's contents: for each key the body and the version a \<open>get\<close>
  returns. A put is unconditional when it carries no version.
\<close>

locale object_store =
  fixes ops :: "'s StateObjectStore"
    and lookup :: "'s \<Rightarrow> string \<Rightarrow> (bytes \<times> string) option"
    and version_of :: "bytes \<Rightarrow> string"
  assumes get: "os_get ops s k = Inr (lookup s k)"
    and put_ok: "ifCurrent = None \<or> map_option snd (lookup s k) = ifCurrent \<Longrightarrow>
      \<exists>s'. os_put ops s k b ifCurrent = Inr (s', version_of b)
         \<and> lookup s' = (lookup s)(k \<mapsto> (b, version_of b))"
    and put_conflict: "ifCurrent \<noteq> None \<Longrightarrow> map_option snd (lookup s k) \<noteq> ifCurrent \<Longrightarrow>
      os_put ops s k b ifCurrent = Inl (ConditionalPutConflict k)"
    and delete: "\<exists>s'. os_delete ops s k = Inr s' \<and> lookup s' = (lookup s)(k := None)"
begin

lemma put_cases:
  assumes "os_put ops s k b ifCurrent = r"
  obtains (ok) s' where "r = Inr (s', version_of b)"
      "lookup s' = (lookup s)(k \<mapsto> (b, version_of b))"
      "ifCurrent = None \<or> map_option snd (lookup s k) = ifCurrent"
  | (conflict) "r = Inl (ConditionalPutConflict k)" "ifCurrent \<noteq> None"
      "map_option snd (lookup s k) \<noteq> ifCurrent"
  using assms put_ok put_conflict by metis

lemma put_unconditional:
  obtains s' where "os_put ops s k b None = Inr (s', version_of b)"
    "lookup s' = (lookup s)(k \<mapsto> (b, version_of b))"
  using put_ok by blast

lemma put_Inr:
  assumes "os_put ops s k b ifCurrent = Inr (s', v)"
  shows "v = version_of b" "lookup s' = (lookup s)(k \<mapsto> (b, version_of b))"
  using put_cases [OF assms] by auto

lemma delete_Inr:
  "os_delete ops s k = Inr s' \<Longrightarrow> lookup s' = (lookup s)(k := None)"
  using delete [of s k] by auto

lemma delete_total: obtains s' where "os_delete ops s k = Inr s'"
  using delete by blast

end

section \<open>The in-memory adapter\<close>

record stored =
  st_body :: bytes
  st_version :: string
  st_updatedAt :: int

text \<open>The store's map, and the clock that \<^verbatim>\<open>new Date()\<close> reads.\<close>

record mem_store =
  mem_objects :: "stored js_map"
  mem_clock :: int

definition mem_empty :: mem_store where
  "mem_empty = \<lparr>mem_objects = [], mem_clock = 0\<rparr>"

definition etag :: "host \<Rightarrow> bytes \<Rightarrow> string" where
  "etag H b = host_sha256 H b"

definition mem_get :: "mem_store \<Rightarrow> string \<Rightarrow> store_error + (bytes \<times> string) option" where
  "mem_get s k = Inr (map_option (\<lambda>o1. (st_body o1, st_version o1)) (map_get (mem_objects s) k))"

definition mem_put ::
  "host \<Rightarrow> mem_store \<Rightarrow> string \<Rightarrow> bytes \<Rightarrow> string option \<Rightarrow> store_error + mem_store \<times> string" where
  "mem_put H s k b ifCurrent =
     (let existing = map_get (mem_objects s) k in
      if ifCurrent \<noteq> None \<and> map_option st_version existing \<noteq> ifCurrent
      then Inl (ConditionalPutConflict k)
      else
       let v = etag H b in
       Inr (s\<lparr>mem_objects :=
              map_set k \<lparr>st_body = b, st_version = v, st_updatedAt = mem_clock s\<rparr> (mem_objects s)\<rparr>,
            v))"

definition mem_delete :: "mem_store \<Rightarrow> string \<Rightarrow> store_error + mem_store" where
  "mem_delete s k = Inr (s\<lparr>mem_objects := map_delete k (mem_objects s)\<rparr>)"

definition mem_list :: "host \<Rightarrow> mem_store \<Rightarrow> string \<Rightarrow> store_error + list_entry list" where
  "mem_list H s pre =
     Inr (sort_by (\<lambda>l r. host_localeLe H (le_key l) (le_key r))
       (map (\<lambda>(k, o1). \<lparr>le_key = k, le_size = Some (int (length (st_body o1))),
                         le_updatedAt = Some (st_updatedAt o1)\<rparr>)
         (filter (\<lambda>(k, o1). prefix pre k) (mem_objects s))))"

definition MemoryStateObjectStore :: "host \<Rightarrow> mem_store StateObjectStore" where
  "MemoryStateObjectStore H =
     \<lparr>os_get = mem_get, os_put = mem_put H, os_delete = mem_delete, os_list = Some (mem_list H)\<rparr>"

definition mem_lookup :: "mem_store \<Rightarrow> string \<Rightarrow> (bytes \<times> string) option" where
  "mem_lookup s k = map_option (\<lambda>o1. (st_body o1, st_version o1)) (map_of (mem_objects s) k)"

lemmas mem_defs = MemoryStateObjectStore_def mem_get_def mem_put_def mem_delete_def mem_list_def
  mem_lookup_def

interpretation mem: object_store "MemoryStateObjectStore H" mem_lookup "etag H" for H
proof unfold_locales
  fix s k b ifCurrent
  show "os_get (MemoryStateObjectStore H) s k = Inr (mem_lookup s k)"
    by (simp add: mem_defs)
  show "ifCurrent = None \<or> map_option snd (mem_lookup s k) = ifCurrent \<Longrightarrow>
      \<exists>s'. os_put (MemoryStateObjectStore H) s k b ifCurrent = Inr (s', etag H b)
         \<and> mem_lookup s' = (mem_lookup s)(k \<mapsto> (b, etag H b))"
    by (auto simp: mem_defs Let_def update_conv' fun_eq_iff option.map_comp comp_def)
  show "ifCurrent \<noteq> None \<Longrightarrow> map_option snd (mem_lookup s k) \<noteq> ifCurrent \<Longrightarrow>
      os_put (MemoryStateObjectStore H) s k b ifCurrent = Inl (ConditionalPutConflict k)"
    by (auto simp: mem_defs Let_def option.map_comp comp_def)
  show "\<exists>s'. os_delete (MemoryStateObjectStore H) s k = Inr s'
      \<and> mem_lookup s' = (mem_lookup s)(k := None)"
    by (auto simp: mem_defs delete_conv' fun_eq_iff)
qed

text \<open>A listing names exactly the stored keys under the prefix, each once.\<close>

lemma mem_list_keys:
  assumes "mem_list H s pre = Inr es"
  shows "le_key ` set es = {k. mem_lookup s k \<noteq> None \<and> prefix pre k}"
  using assms by (force simp: mem_list_def mem_lookup_def map_of_eq_None_iff image_iff)

section \<open>Keys of the local and the S3 adapter\<close>

text \<open>
  \<^verbatim>\<open>LocalStateObjectStore.pathFor\<close>: a path is the list of its segments. \<open>resolve_segs\<close> is
  \<^verbatim>\<open>path.resolve\<close> on an absolute starting directory.
\<close>

fun split_on :: "char \<Rightarrow> string \<Rightarrow> string list" where
  "split_on d [] = [[]]"
| "split_on d (c # cs) =
     (if c = d then [] # split_on d cs
      else case split_on d cs of [] \<Rightarrow> [[c]] | x # xs \<Rightarrow> (c # x) # xs)"

fun resolve_segs :: "string list \<Rightarrow> string list \<Rightarrow> string list" where
  "resolve_segs cwd [] = cwd"
| "resolve_segs cwd (x # xs) =
     (if x = [] \<or> x = ''.'' then resolve_segs cwd xs
      else if x = ''..'' then resolve_segs (butlast cwd) xs
      else resolve_segs (cwd @ [x]) xs)"

definition resolve_path :: "string list \<Rightarrow> string \<Rightarrow> string list" where
  "resolve_path root k =
     resolve_segs (if k \<noteq> [] \<and> hd k = CHR ''/'' then [] else root) (split_on (CHR ''/'') k)"

definition pathFor :: "string list \<Rightarrow> string \<Rightarrow> store_error + string list" where
  "pathFor root k =
     (let resolved = resolve_path root k in
      if resolved \<noteq> root \<and> \<not> (prefix root resolved \<and> length root < length resolved)
      then Inl (StoreFailure (''state object key escapes local root: '' @ k))
      else Inr resolved)"

lemma pathFor_inside_root: "pathFor root k = Inr p \<Longrightarrow> prefix root p"
  by (auto simp: pathFor_def Let_def split: if_splits)

text \<open>\<^verbatim>\<open>S3StateObjectStore.keyFor\<close> and \<^verbatim>\<open>unkey\<close>.\<close>

definition keyFor :: "string \<Rightarrow> string \<Rightarrow> string" where
  "keyFor pre k = (if pre = [] then k else pre @ ''/'' @ k)"

definition unkey :: "string \<Rightarrow> string \<Rightarrow> string" where
  "unkey pre k = (if pre \<noteq> [] \<and> prefix (pre @ ''/'') k then drop (length pre + 1) k else k)"

lemma unkey_keyFor: "unkey pre (keyFor pre k) = k"
  by (simp add: unkey_def keyFor_def)

text \<open>
  The classification of errors from the S3 client: \<open>isObjectNotFound\<close> and
  \<open>isConditionalConflict\<close> look at the error's name and HTTP status.
\<close>

definition err_status :: "js \<Rightarrow> js" where
  "err_status err = js_get (js_get err ''$metadata'') ''httpStatusCode''"

definition isObjectNotFound :: "js \<Rightarrow> bool" where
  "isObjectNotFound err \<longleftrightarrow>
     js_get err ''name'' = JStr ''NoSuchKey'' \<or> err_status err = JNum 404"

definition isConditionalConflict :: "js \<Rightarrow> bool" where
  "isConditionalConflict err \<longleftrightarrow>
     js_get err ''name'' = JStr ''PreconditionFailed''
     \<or> err_status err = JNum 409 \<or> err_status err = JNum 412"

end
