(* ===== verification/StateRoot.thy ===== *)
theory StateRoot
  imports ObjectStore
begin

text \<open>
  The data model of the checkpoint format (\<^verbatim>\<open>runtime/state-store/src/index.mts\<close>): checkpoint
  roots, state references and blob versions, their object keys, and the JSON documents
  they are stored as. The main results are the round trip \<open>decodeRoot_encodeRoot\<close> and the
  facts that keep the objects of one game apart (\<open>object_keys\<close>).
\<close>

section \<open>Data\<close>

datatype StateCodec = Whole | JsonDelta | Cdc

record BlobVersion =
  bv_version :: string
  bv_key :: string
  bv_size :: int
  bv_objectKey :: string
  bv_sha256 :: string

datatype StateRefKind = InlineRef | ObjectRef

record StateRef =
  sr_kind :: StateRefKind
  sr_bytesBase64 :: "string option"
  sr_objectKey :: "string option"
  sr_sha256 :: string
  sr_size :: int

record StateRoot =
  rt_rootId :: string
  rt_historyObjectKey :: "string option"
  rt_gameId :: string
  rt_checkpointSeq :: int
  rt_codec :: StateCodec
  rt_stateRef :: StateRef
  rt_blobManifest :: "BlobVersion js_map"
  rt_parent :: "string option"
  rt_createdAt :: string
  rt_bundleCompatTag :: "string option"
  rt_blobCompatTag :: "string option"

datatype state_error =
    StoreErr store_error
  | JsonSyntax
  | UnsupportedSchema
  | MalformedRoot
  | GameIdMismatch string string
  | MissingStateKey string
  | StateObjectMissing string
  | Diverges

text \<open>
  A string used as a condition: the empty string is false. \<open>Diverges\<close> is not an exception of
  the program: it is the result of a loop that never ends.
\<close>

definition truthy :: "string option \<Rightarrow> string option" where
  "truthy o1 = (case o1 of None \<Rightarrow> None | Some s \<Rightarrow> if s = [] then None else Some s)"

lemma truthy_simps [simp]: "truthy None = None" "truthy (Some (c # s)) = Some (c # s)"
  by (simp_all add: truthy_def)

lemma truthy_Some: "truthy o1 = Some s \<longleftrightarrow> o1 = Some s \<and> s \<noteq> []"
  by (auto simp: truthy_def split: option.splits)

section \<open>Object keys\<close>

definition gamePrefix :: "string \<Rightarrow> string" where
  "gamePrefix gameId = ''state/'' @ encodeURIComponent gameId @ ''/''"

definition rootKey :: "string \<Rightarrow> string" where
  "rootKey gameId = gamePrefix gameId @ ''root.json''"

definition checkpointRootKey :: "string \<Rightarrow> int \<Rightarrow> string \<Rightarrow> string" where
  "checkpointRootKey gameId checkpointSeq rootId =
     gamePrefix gameId @ ''roots/'' @ pad_start0 20 (dec_int checkpointSeq) @ ''-'' @ rootId @ ''.json''"

definition blobKey :: "string \<Rightarrow> string \<Rightarrow> string \<Rightarrow> string" where
  "blobKey gameId key hash = gamePrefix gameId @ ''blob/'' @ encodeURIComponent key @ ''/'' @ hash"

definition stateObjectKey :: "string \<Rightarrow> string \<Rightarrow> string" where
  "stateObjectKey gameId hash = gamePrefix gameId @ ''objects/state/'' @ hash"

lemma gamePrefix_inject: "gamePrefix g @ s = gamePrefix h @ t \<longleftrightarrow> g = h \<and> s = t"
proof
  assume "gamePrefix g @ s = gamePrefix h @ t"
  then have "encodeURIComponent g @ CHR ''/'' # s = encodeURIComponent h @ CHR ''/'' # t"
    by (simp add: gamePrefix_def)
  then have "encodeURIComponent g = encodeURIComponent h \<and> s = t"
    by (rule slash_split_inject) simp_all
  then show "g = h \<and> s = t" by simp
qed simp

lemma gamePrefix_eq [simp]: "gamePrefix g = gamePrefix h \<longleftrightarrow> g = h"
  using gamePrefix_inject [of g "[]" h "[]"] by simp

lemma blobKey_inject: "blobKey g k h = blobKey g' k' h' \<longleftrightarrow> g = g' \<and> k = k' \<and> h = h'"
proof
  assume "blobKey g k h = blobKey g' k' h'"
  then have g: "g = g'"
    and "encodeURIComponent k @ CHR ''/'' # h = encodeURIComponent k' @ CHR ''/'' # h'"
    by (auto simp: blobKey_def gamePrefix_inject)
  from this(2) have "encodeURIComponent k = encodeURIComponent k' \<and> h = h'"
    by (rule slash_split_inject) simp_all
  with g show "g = g' \<and> k = k' \<and> h = h'" by simp
qed simp

lemma object_keys:
  "blobKey g k h \<noteq> rootKey g'" "stateObjectKey g h \<noteq> rootKey g'"
  "checkpointRootKey g n i \<noteq> rootKey g'" "blobKey g k h \<noteq> stateObjectKey g' h'"
  "blobKey g k h \<noteq> checkpointRootKey g' n i" "stateObjectKey g h \<noteq> checkpointRootKey g' n i"
  "rootKey g = rootKey g' \<longleftrightarrow> g = g'"
  "stateObjectKey g h = stateObjectKey g' h' \<longleftrightarrow> g = g' \<and> h = h'"
  by (auto simp: blobKey_def rootKey_def stateObjectKey_def checkpointRootKey_def gamePrefix_inject)

lemmas object_keys_sym = object_keys(1-6) [THEN not_sym]

lemmas object_key_simps [simp] = object_keys(1-6) object_keys_sym object_keys(7,8) blobKey_inject

lemma keys_nonempty [simp]:
  "rootKey g \<noteq> []" "checkpointRootKey g n i \<noteq> []" "blobKey g k h \<noteq> []" "stateObjectKey g h \<noteq> []"
  by (simp_all add: rootKey_def checkpointRootKey_def blobKey_def stateObjectKey_def gamePrefix_def)

lemma truthy_keys [simp]:
  "truthy (Some (rootKey g)) = Some (rootKey g)"
  "truthy (Some (checkpointRootKey g n i)) = Some (checkpointRootKey g n i)"
  "truthy (Some (blobKey g k h)) = Some (blobKey g k h)"
  "truthy (Some (stateObjectKey g h)) = Some (stateObjectKey g h)"
  by (simp_all add: truthy_Some)

lemma dec_int_nonneg: "0 \<le> n \<Longrightarrow> dec_int n = dec_nat (nat n)"
  by (simp add: dec_int_def)

section \<open>State references\<close>

definition inlineStateRef :: "host \<Rightarrow> bytes \<Rightarrow> StateRef" where
  "inlineStateRef H bs =
     \<lparr>sr_kind = InlineRef, sr_bytesBase64 = Some (b64_encode bs), sr_objectKey = None,
      sr_sha256 = host_sha256 H bs, sr_size = int (length bs)\<rparr>"

definition objectStateRef :: "string \<Rightarrow> bytes \<Rightarrow> string \<Rightarrow> StateRef" where
  "objectStateRef objectKey bs hash =
     \<lparr>sr_kind = ObjectRef, sr_bytesBase64 = None, sr_objectKey = Some objectKey,
      sr_sha256 = hash, sr_size = int (length bs)\<rparr>"

definition referencedObjects :: "StateRoot \<Rightarrow> js_set" where
  "referencedObjects root =
     fold set_add (map (\<lambda>(k, b). bv_objectKey b) (rt_blobManifest root))
       (case truthy (sr_objectKey (rt_stateRef root)) of None \<Rightarrow> [] | Some k \<Rightarrow> [k])"

lemma set_referencedObjects:
  "set (referencedObjects root) =
     (case truthy (sr_objectKey (rt_stateRef root)) of None \<Rightarrow> {} | Some k \<Rightarrow> {k})
     \<union> (\<lambda>(k, b). bv_objectKey b) ` set (rt_blobManifest root)"
  by (auto simp: referencedObjects_def set_foldr_set_add split: option.splits)

section \<open>JSON documents\<close>

text \<open>An object literal; a property whose value is \<^verbatim>\<open>undefined\<close> does not reach the document.\<close>

definition js_obj :: "(string \<times> js) list \<Rightarrow> js" where
  "js_obj fs = JObj (filter (\<lambda>(k, v). v \<noteq> JUndef) fs)"

definition codec_js :: "StateCodec \<Rightarrow> js" where
  "codec_js c = JStr (case c of Whole \<Rightarrow> ''whole'' | JsonDelta \<Rightarrow> ''json-delta'' | Cdc \<Rightarrow> ''cdc'')"

definition kind_js :: "StateRefKind \<Rightarrow> js" where
  "kind_js k = JStr (case k of InlineRef \<Rightarrow> ''inline'' | ObjectRef \<Rightarrow> ''object'')"

definition blob_version_js :: "BlobVersion \<Rightarrow> js" where
  "blob_version_js b = JObj
     [(''version'', JStr (bv_version b)), (''key'', JStr (bv_key b)), (''size'', JNum (bv_size b)),
      (''objectKey'', JStr (bv_objectKey b)), (''sha256'', JStr (bv_sha256 b))]"

definition state_ref_js :: "StateRef \<Rightarrow> js" where
  "state_ref_js r = js_obj
     [(''kind'', kind_js (sr_kind r)), (''bytesBase64'', opt_str (sr_bytesBase64 r)),
      (''objectKey'', opt_str (sr_objectKey r)), (''sha256'', JStr (sr_sha256 r)),
      (''size'', JNum (sr_size r))]"

definition manifest_js :: "BlobVersion js_map \<Rightarrow> js" where
  "manifest_js m = JObj (map (\<lambda>(k, b). (k, blob_version_js b)) m)"

definition root_js :: "StateRoot \<Rightarrow> js" where
  "root_js r = js_obj
     [(''schemaVersion'', JNum 1), (''rootId'', JStr (rt_rootId r)), (''gameId'', JStr (rt_gameId r)),
      (''checkpointSeq'', JNum (rt_checkpointSeq r)), (''codec'', codec_js (rt_codec r)),
      (''stateRef'', state_ref_js (rt_stateRef r)),
      (''blobManifest'', manifest_js (rt_blobManifest r)),
      (''parent'', opt_str (rt_parent r)), (''createdAt'', JStr (rt_createdAt r)),
      (''bundleCompatTag'', opt_str (rt_bundleCompatTag r)),
      (''blobCompatTag'', opt_str (rt_blobCompatTag r)),
      (''historyObjectKey'', opt_str (rt_historyObjectKey r))]"

definition encodeRoot :: "StateRoot \<Rightarrow> bytes" where
  "encodeRoot r = (case stringify (root_js r) of Inr (Some t) \<Rightarrow> t @ [CHR 0x0A] | _ \<Rightarrow> [])"

text \<open>Reading the documents back. An optional property is absent or a string.\<close>

definition js_opt_str :: "js \<Rightarrow> string option option" where
  "js_opt_str j = (case j of JUndef \<Rightarrow> Some None | JStr s \<Rightarrow> Some (Some s) | _ \<Rightarrow> None)"

definition js_codec :: "js \<Rightarrow> StateCodec option" where
  "js_codec j = (case js_string j of
       None \<Rightarrow> None
     | Some s \<Rightarrow> if s = ''whole'' then Some Whole else if s = ''json-delta'' then Some JsonDelta
         else if s = ''cdc'' then Some Cdc else None)"

definition js_kind :: "js \<Rightarrow> StateRefKind option" where
  "js_kind j = (case js_string j of
       None \<Rightarrow> None
     | Some s \<Rightarrow> if s = ''inline'' then Some InlineRef else if s = ''object'' then Some ObjectRef
         else None)"

definition js_blob_version :: "js \<Rightarrow> BlobVersion option" where
  "js_blob_version j =
     (case (js_string (js_get j ''version''), js_string (js_get j ''key''), js_int (js_get j ''size''),
            js_string (js_get j ''objectKey''), js_string (js_get j ''sha256'')) of
        (Some v, Some k, Some n, Some ok, Some h) \<Rightarrow>
          Some \<lparr>bv_version = v, bv_key = k, bv_size = n, bv_objectKey = ok, bv_sha256 = h\<rparr>
      | _ \<Rightarrow> None)"

definition js_state_ref :: "js \<Rightarrow> StateRef option" where
  "js_state_ref j =
     (case (js_kind (js_get j ''kind''), js_opt_str (js_get j ''bytesBase64''),
            js_opt_str (js_get j ''objectKey''), js_string (js_get j ''sha256''),
            js_int (js_get j ''size'')) of
        (Some k, Some b, Some ok, Some h, Some n) \<Rightarrow>
          Some \<lparr>sr_kind = k, sr_bytesBase64 = b, sr_objectKey = ok, sr_sha256 = h, sr_size = n\<rparr>
      | _ \<Rightarrow> None)"

fun js_manifest_fields :: "(string \<times> js) list \<Rightarrow> BlobVersion js_map option" where
  "js_manifest_fields [] = Some []"
| "js_manifest_fields ((k, j) # fs) =
     (case (js_blob_version j, js_manifest_fields fs) of
        (Some b, Some m) \<Rightarrow> Some ((k, b) # m)
      | _ \<Rightarrow> None)"

text \<open>\<^verbatim>\<open>parsed.blobManifest ?? {}\<close>\<close>

fun js_manifest :: "js \<Rightarrow> BlobVersion js_map option" where
  "js_manifest JUndef = Some []"
| "js_manifest JNull = Some []"
| "js_manifest (JObj fs) = js_manifest_fields fs"
| "js_manifest j = None"

text \<open>\<^verbatim>\<open>parsed.rootId ?? randomUUID()\<close>\<close>

definition js_rootId :: "string \<Rightarrow> js \<Rightarrow> string option" where
  "js_rootId fresh j =
     (case j of JUndef \<Rightarrow> Some fresh | JNull \<Rightarrow> Some fresh | JStr s \<Rightarrow> Some s | _ \<Rightarrow> None)"

definition js_root :: "string \<Rightarrow> js \<Rightarrow> StateRoot option" where
  "js_root fresh j =
     (case (js_rootId fresh (js_get j ''rootId''), js_opt_str (js_get j ''historyObjectKey''),
            js_string (js_get j ''gameId''), js_int (js_get j ''checkpointSeq''),
            js_codec (js_get j ''codec''), js_state_ref (js_get j ''stateRef''),
            js_manifest (js_get j ''blobManifest'')) of
        (Some i, Some h, Some g, Some n, Some c, Some r, Some m) \<Rightarrow>
          (case (js_opt_str (js_get j ''parent''), js_string (js_get j ''createdAt''),
                 js_opt_str (js_get j ''bundleCompatTag''), js_opt_str (js_get j ''blobCompatTag'')) of
             (Some p, Some t, Some bt, Some xt) \<Rightarrow>
               Some \<lparr>rt_rootId = i, rt_historyObjectKey = h, rt_gameId = g, rt_checkpointSeq = n,
                     rt_codec = c, rt_stateRef = r, rt_blobManifest = m, rt_parent = p,
                     rt_createdAt = t, rt_bundleCompatTag = bt, rt_blobCompatTag = xt\<rparr>
           | _ \<Rightarrow> None)
      | _ \<Rightarrow> None)"

definition decodeRoot :: "host \<Rightarrow> string \<Rightarrow> bytes \<Rightarrow> state_error + StateRoot" where
  "decodeRoot H fresh bs =
     (case host_parse H bs of
        None \<Rightarrow> Inl JsonSyntax
      | Some j \<Rightarrow>
         if js_get j ''schemaVersion'' \<noteq> JNum 1 then Inl UnsupportedSchema
         else (case js_root fresh j of None \<Rightarrow> Inl MalformedRoot | Some r \<Rightarrow> Inr r))"

section \<open>Round trip\<close>

lemma is_json_opt_str [simp]: "opt_str o1 \<noteq> JUndef \<Longrightarrow> is_json (opt_str o1)"
  by (cases o1) (simp_all add: opt_str_def)

lemma is_json_js_obj: "(\<And>k v. (k, v) \<in> set fs \<Longrightarrow> v \<noteq> JUndef \<Longrightarrow> is_json v) \<Longrightarrow> is_json (js_obj fs)"
  by (auto simp: js_obj_def list_all_iff)

lemma is_json_state_ref [simp]: "is_json (state_ref_js r)"
  unfolding state_ref_js_def by (rule is_json_js_obj) (auto simp: kind_js_def)

lemma is_json_manifest [simp]: "is_json (manifest_js m)"
  by (auto simp: manifest_js_def list_all_iff blob_version_js_def)

lemma is_json_root [simp]: "is_json (root_js r)"
  unfolding root_js_def by (rule is_json_js_obj) (auto simp: codec_js_def)

lemma encodeRoot_text: "encodeRoot r = json_text (root_js r) @ [CHR 0x0A]"
  by (simp add: encodeRoot_def stringify_json)

lemma js_get_js_obj: "map_wf fs \<Longrightarrow> js_get (js_obj fs) k = (case map_of fs k of None \<Rightarrow> JUndef | Some v \<Rightarrow> v)"
proof (induction fs)
  case (Cons p fs)
  obtain a b where p: "p = (a, b)" by (cases p)
  have "map_of (filter (\<lambda>(k, v). v \<noteq> JUndef) fs) a = None"
    using Cons.prems p by (force simp: map_of_eq_None_iff)
  with Cons p show ?case by (auto simp: js_obj_def)
qed (simp add: js_obj_def)

lemma js_opt_str_opt_str [simp]: "js_opt_str (opt_str o1) = Some o1"
  by (cases o1) (simp_all add: js_opt_str_def opt_str_def)

lemma js_codec_codec_js [simp]: "js_codec (codec_js c) = Some c"
  by (cases c) (simp_all add: js_codec_def codec_js_def)

lemma js_kind_kind_js [simp]: "js_kind (kind_js k) = Some k"
  by (cases k) (simp_all add: js_kind_def kind_js_def)

lemma js_blob_version_js [simp]: "js_blob_version (blob_version_js b) = Some b"
  by (simp add: js_blob_version_def blob_version_js_def)

lemma js_manifest_js [simp]: "js_manifest (manifest_js m) = Some m"
  unfolding manifest_js_def by (simp, induction m) auto

lemma js_state_ref_js [simp]: "js_state_ref (state_ref_js r) = Some r"
  by (simp add: js_state_ref_def state_ref_js_def js_get_js_obj)

lemma js_root_root_js: "js_root fresh (root_js r) = Some r" "js_get (root_js r) ''schemaVersion'' = JNum 1"
  by (simp_all add: js_root_def root_js_def js_get_js_obj js_rootId_def)

context host_env
begin

lemma decodeRoot_encodeRoot: "decodeRoot H fresh (encodeRoot r) = Inr r"
  using parse_line [OF is_json_root [of r]]
  by (simp add: decodeRoot_def encodeRoot_text js_root_root_js)

lemma encodeRoot_inject: "encodeRoot r = encodeRoot r' \<longleftrightarrow> r = r'"
  by (metis decodeRoot_encodeRoot sum.inject(2))

end

end
