(* ===== verification/StateStore.thy ===== *)
theory StateStore
  imports StateRoot
begin

text \<open>
  The state store (\<^verbatim>\<open>runtime/state-store/src/index.mts\<close>): \<^verbatim>\<open>StateStore\<close>, \<^verbatim>\<open>GameStateSession\<close> and
  \<^verbatim>\<open>CheckpointScheduler\<close>, as definitions over any object store.

  An operation that touches the object store is an \<open>io\<close>: it takes the store and returns a
  result or an exception together with the store, so the objects written before an
  exception stay written. The two loops that follow parent links without a bound are
  \<^theory_text>\<open>partial_function (option)\<close>; a loop that never ends gives \<open>Diverges\<close>.
  The random identifiers and the clock of one call are collected in \<open>env\<close>.

  A flush is the composition of \<open>flush_prepare\<close> (everything up to the conditional put of the
  root), \<open>flush_commit\<close> (the assignments to the session after it) and \<open>flush_cleanup\<close>, the
  pieces between which other operations of the session can run.
\<close>

section \<open>Store actions\<close>

type_synonym ('s, 'a) io = "'s \<Rightarrow> (state_error + 'a) \<times> 's"

definition io_return :: "'a \<Rightarrow> ('s, 'a) io" where
  "io_return a s = (Inr a, s)"

definition io_bind :: "('s, 'a) io \<Rightarrow> ('a \<Rightarrow> ('s, 'b) io) \<Rightarrow> ('s, 'b) io" where
  "io_bind m f s = (case m s of (Inl e, s') \<Rightarrow> (Inl e, s') | (Inr a, s') \<Rightarrow> f a s')"

lemma io_bind_Inr: "m s = (Inr a, s') \<Longrightarrow> io_bind m f s = f a s'"
  by (simp add: io_bind_def)

lemma io_bind_Inl: "m s = (Inl e, s') \<Longrightarrow> io_bind m f s = (Inl e, s')"
  by (simp add: io_bind_def)

definition io_lift :: "state_error + 'a \<Rightarrow> ('s, 'a) io" where
  "io_lift r s = (r, s)"

definition io_put :: "'s StateObjectStore \<Rightarrow> string \<Rightarrow> bytes \<Rightarrow> string option \<Rightarrow> ('s, string) io" where
  "io_put ops k b ifCurrent s =
     (case os_put ops s k b ifCurrent of
        Inl e \<Rightarrow> (Inl (StoreErr e), s)
      | Inr (s', v) \<Rightarrow> (Inr v, s'))"

definition io_delete :: "'s StateObjectStore \<Rightarrow> string \<Rightarrow> ('s, unit) io" where
  "io_delete ops k s =
     (case os_delete ops s k of Inl e \<Rightarrow> (Inl (StoreErr e), s) | Inr s' \<Rightarrow> (Inr (), s'))"

fun io_delete_all :: "'s StateObjectStore \<Rightarrow> string list \<Rightarrow> ('s, unit) io" where
  "io_delete_all ops [] = io_return ()"
| "io_delete_all ops (k # ks) = io_bind (io_delete ops k) (\<lambda>_. io_delete_all ops ks)"

definition obj_get :: "'s StateObjectStore \<Rightarrow> 's \<Rightarrow> string \<Rightarrow> state_error + (bytes \<times> string) option" where
  "obj_get ops s k = (case os_get ops s k of Inl e \<Rightarrow> Inl (StoreErr e) | Inr r \<Rightarrow> Inr r)"

text \<open>The random identifiers and the time that one call draws.\<close>

record env =
  ev_host :: host
  ev_rootId :: string
  ev_blobId :: "nat \<Rightarrow> string"
  ev_freshId :: string
  ev_now :: string

section \<open>Materialisation and checkpoint history\<close>

record MaterializedGameState =
  mt_gameId :: string
  mt_checkpointSeq :: int
  mt_state :: bytes
  mt_blobs :: "BlobVersion js_map"
  mt_root :: "StateRoot option"
  mt_rootVersion :: "string option"
  mt_rootObjectKey :: "string option"

record LocatedRoot =
  lr_root :: StateRoot
  lr_version :: "string option"
  lr_objectKey :: string

record StateCheckpoint =
  cp_checkpointSeq :: int
  cp_rootId :: string
  cp_rootObjectKey :: string
  cp_createdAt :: string
  cp_codec :: StateCodec
  cp_byteSize :: int
  cp_blobCompatTag :: "string option"
  cp_bundleCompatTag :: "string option"

definition emptyMaterialized :: "string \<Rightarrow> MaterializedGameState" where
  "emptyMaterialized gameId =
     \<lparr>mt_gameId = gameId, mt_checkpointSeq = 0, mt_state = [], mt_blobs = [], mt_root = None,
      mt_rootVersion = None, mt_rootObjectKey = None\<rparr>"

definition checkpointView :: "StateRoot \<Rightarrow> string \<Rightarrow> StateCheckpoint" where
  "checkpointView root rootObjectKey =
     \<lparr>cp_checkpointSeq = rt_checkpointSeq root, cp_rootId = rt_rootId root,
      cp_rootObjectKey = rootObjectKey, cp_createdAt = rt_createdAt root, cp_codec = rt_codec root,
      cp_byteSize = sr_size (rt_stateRef root), cp_blobCompatTag = rt_blobCompatTag root,
      cp_bundleCompatTag = rt_bundleCompatTag root\<rparr>"

definition readStateBytes :: "'s StateObjectStore \<Rightarrow> 's \<Rightarrow> StateRoot \<Rightarrow> state_error + bytes" where
  "readStateBytes ops s root =
     (let ref = rt_stateRef root in
      if sr_kind ref = InlineRef
      then Inr (b64_decode (case sr_bytesBase64 ref of None \<Rightarrow> [] | Some b \<Rightarrow> b))
      else case truthy (sr_objectKey ref) of
        None \<Rightarrow> Inl (MissingStateKey (rt_gameId root))
      | Some k \<Rightarrow>
         (case obj_get ops s k of
            Inl e \<Rightarrow> Inl e
          | Inr None \<Rightarrow> Inl (StateObjectMissing k)
          | Inr (Some (b, v)) \<Rightarrow> Inr b))"

definition materializeRoot ::
  "'s StateObjectStore \<Rightarrow> 's \<Rightarrow> StateRoot \<Rightarrow> string option \<Rightarrow> string \<Rightarrow> state_error + MaterializedGameState" where
  "materializeRoot ops s root rootVersion rootObjectKeyValue =
     (case readStateBytes ops s root of
        Inl e \<Rightarrow> Inl e
      | Inr b \<Rightarrow>
         Inr \<lparr>mt_gameId = rt_gameId root, mt_checkpointSeq = rt_checkpointSeq root, mt_state = b,
              mt_blobs = rt_blobManifest root, mt_root = Some root, mt_rootVersion = rootVersion,
              mt_rootObjectKey = Some rootObjectKeyValue\<rparr>)"

definition materialize ::
  "env \<Rightarrow> 's StateObjectStore \<Rightarrow> 's \<Rightarrow> string \<Rightarrow> state_error + MaterializedGameState" where
  "materialize E ops s gameId =
     (case obj_get ops s (rootKey gameId) of
        Inl e \<Rightarrow> Inl e
      | Inr None \<Rightarrow> Inr (emptyMaterialized gameId)
      | Inr (Some (b, v)) \<Rightarrow>
         (case decodeRoot (ev_host E) (ev_freshId E) b of
            Inl e \<Rightarrow> Inl e
          | Inr root \<Rightarrow>
             if rt_gameId root \<noteq> gameId then Inl (GameIdMismatch gameId (rt_gameId root))
             else materializeRoot ops s root (Some v)
               (case rt_historyObjectKey root of None \<Rightarrow> rootKey gameId | Some h \<Rightarrow> h)))"

definition readRootObject ::
  "env \<Rightarrow> 's StateObjectStore \<Rightarrow> 's \<Rightarrow> string \<Rightarrow> state_error + LocatedRoot option" where
  "readRootObject E ops s objectKey =
     (case obj_get ops s objectKey of
        Inl e \<Rightarrow> Inl e
      | Inr None \<Rightarrow> Inr None
      | Inr (Some (b, v)) \<Rightarrow>
         (case decodeRoot (ev_host E) (ev_freshId E) b of
            Inl e \<Rightarrow> Inl e
          | Inr root \<Rightarrow> Inr (Some \<lparr>lr_root = root, lr_version = Some v, lr_objectKey = objectKey\<rparr>)))"

definition readHeadRoot ::
  "env \<Rightarrow> 's StateObjectStore \<Rightarrow> 's \<Rightarrow> string \<Rightarrow> state_error + LocatedRoot option" where
  "readHeadRoot E ops s gameId = readRootObject E ops s (rootKey gameId)"

partial_function (option) find_loop ::
  "env \<Rightarrow> 's StateObjectStore \<Rightarrow> 's \<Rightarrow> int \<Rightarrow> LocatedRoot option \<Rightarrow> (state_error + LocatedRoot option) option"
where
  "find_loop E ops s checkpointSeq current =
     (case current of
        None \<Rightarrow> Some (Inr None)
      | Some c \<Rightarrow>
         if rt_checkpointSeq (lr_root c) = checkpointSeq then Some (Inr (Some c))
         else (case truthy (rt_parent (lr_root c)) of
            None \<Rightarrow> Some (Inr None)
          | Some p \<Rightarrow>
             (case readRootObject E ops s p of
                Inl e \<Rightarrow> Some (Inl e)
              | Inr next \<Rightarrow> find_loop E ops s checkpointSeq next)))"

definition of_loop :: "(state_error + 'a) option \<Rightarrow> state_error + 'a" where
  "of_loop r = (case r of None \<Rightarrow> Inl Diverges | Some x \<Rightarrow> x)"

definition findCheckpointRoot ::
  "env \<Rightarrow> 's StateObjectStore \<Rightarrow> 's \<Rightarrow> string \<Rightarrow> int \<Rightarrow> state_error + LocatedRoot option" where
  "findCheckpointRoot E ops s gameId checkpointSeq =
     (case readHeadRoot E ops s gameId of
        Inl e \<Rightarrow> Inl e
      | Inr current \<Rightarrow> of_loop (find_loop E ops s checkpointSeq current))"

definition viewCheckpoint ::
  "env \<Rightarrow> 's StateObjectStore \<Rightarrow> 's \<Rightarrow> string \<Rightarrow> int \<Rightarrow> state_error + MaterializedGameState option" where
  "viewCheckpoint E ops s gameId checkpointSeq =
     (case findCheckpointRoot E ops s gameId checkpointSeq of
        Inl e \<Rightarrow> Inl e
      | Inr None \<Rightarrow> Inr None
      | Inr (Some l) \<Rightarrow>
         (case materializeRoot ops s (lr_root l) (lr_version l) (lr_objectKey l) of
            Inl e \<Rightarrow> Inl e
          | Inr m \<Rightarrow> Inr (Some m)))"

fun list_loop ::
  "env \<Rightarrow> 's StateObjectStore \<Rightarrow> 's \<Rightarrow> nat \<Rightarrow> LocatedRoot option \<Rightarrow> state_error + StateCheckpoint list"
where
  "list_loop E ops s 0 current = Inr []"
| "list_loop E ops s (Suc n) None = Inr []"
| "list_loop E ops s (Suc n) (Some c) =
     (let v = checkpointView (lr_root c) (lr_objectKey c) in
      case truthy (rt_parent (lr_root c)) of
        None \<Rightarrow> Inr [v]
      | Some p \<Rightarrow>
         (case readRootObject E ops s p of
            Inl e \<Rightarrow> Inl e
          | Inr next \<Rightarrow>
             (case list_loop E ops s n next of Inl e \<Rightarrow> Inl e | Inr vs \<Rightarrow> Inr (v # vs))))"

definition listCheckpoints ::
  "env \<Rightarrow> 's StateObjectStore \<Rightarrow> 's \<Rightarrow> string \<Rightarrow> nat \<Rightarrow> state_error + StateCheckpoint list" where
  "listCheckpoints E ops s gameId limit =
     (case readHeadRoot E ops s gameId of
        Inl e \<Rightarrow> Inl e
      | Inr current \<Rightarrow> list_loop E ops s limit current)"

text \<open>\<^verbatim>\<open>StateStore.buildRoot\<close>\<close>

definition store_buildRoot ::
  "env \<Rightarrow> string \<Rightarrow> int \<Rightarrow> StateRef \<Rightarrow> BlobVersion js_map \<Rightarrow> string option \<Rightarrow> string option
   \<Rightarrow> string option \<Rightarrow> StateRoot" where
  "store_buildRoot E gameId checkpointSeq stateRef blobManifest parent bundleCompatTag blobCompatTag =
     \<lparr>rt_rootId = ev_rootId E, rt_historyObjectKey = None, rt_gameId = gameId,
      rt_checkpointSeq = checkpointSeq, rt_codec = Whole, rt_stateRef = stateRef,
      rt_blobManifest = blobManifest, rt_parent = parent, rt_createdAt = ev_now E,
      rt_bundleCompatTag = bundleCompatTag, rt_blobCompatTag = blobCompatTag\<rparr>"

text \<open>\<^verbatim>\<open>x ?? y\<close>\<close>

definition coalesce :: "'a option \<Rightarrow> 'a option \<Rightarrow> 'a option" where
  "coalesce x y = (case x of None \<Rightarrow> y | Some v \<Rightarrow> Some v)"

definition restoreCheckpoint ::
  "env \<Rightarrow> 's StateObjectStore \<Rightarrow> string \<Rightarrow> int \<Rightarrow> string option \<Rightarrow> string option
   \<Rightarrow> ('s, StateRoot option) io" where
  "restoreCheckpoint E ops gameId checkpointSeq bundleCompatTag blobCompatTag s =
     (case readHeadRoot E ops s gameId of
        Inl e \<Rightarrow> (Inl e, s)
      | Inr head \<Rightarrow>
     (case findCheckpointRoot E ops s gameId checkpointSeq of
        Inl e \<Rightarrow> (Inl e, s)
      | Inr target \<Rightarrow>
     (case (head, target) of
        (Some h, Some t) \<Rightarrow>
          let root = store_buildRoot E gameId (rt_checkpointSeq (lr_root h) + 1)
                (rt_stateRef (lr_root t)) (rt_blobManifest (lr_root t))
                (coalesce (rt_historyObjectKey (lr_root h)) (Some (lr_objectKey h)))
                (coalesce bundleCompatTag (rt_bundleCompatTag (lr_root h)))
                (coalesce blobCompatTag (rt_blobCompatTag (lr_root t)));
              historyObjectKey = checkpointRootKey gameId (rt_checkpointSeq root) (rt_rootId root);
              retainedRoot = root\<lparr>rt_historyObjectKey := Some historyObjectKey\<rparr>
          in io_bind (io_put ops historyObjectKey (encodeRoot retainedRoot) None) (\<lambda>_.
             io_bind (io_put ops (rootKey gameId) (encodeRoot retainedRoot) (lr_version h)) (\<lambda>_.
             io_return (Some retainedRoot))) s
      | _ \<Rightarrow> (Inr None, s))))"

text \<open>\<^verbatim>\<open>reapOrphans\<close>: \<open>Number.MAX_SAFE_INTEGER\<close> bounds the listing.\<close>

record ReapOrphansResult =
  ro_scanned :: nat
  ro_deleted :: nat
  ro_skipped :: bool

definition max_safe_integer :: nat where
  "max_safe_integer = 9007199254740991"

fun reap_referenced ::
  "env \<Rightarrow> 's StateObjectStore \<Rightarrow> 's \<Rightarrow> string \<Rightarrow> StateCheckpoint list \<Rightarrow> js_set \<Rightarrow> state_error + js_set"
where
  "reap_referenced E ops s gameId [] referenced = Inr referenced"
| "reap_referenced E ops s gameId (c # cs) referenced =
     (let r1 = set_add (cp_rootObjectKey c) referenced in
      case viewCheckpoint E ops s gameId (cp_checkpointSeq c) of
        Inl e \<Rightarrow> Inl e
      | Inr m \<Rightarrow>
         (case m of
            None \<Rightarrow> reap_referenced E ops s gameId cs r1
          | Some mm \<Rightarrow>
             (case mt_root mm of
                None \<Rightarrow> reap_referenced E ops s gameId cs r1
              | Some root \<Rightarrow>
                  let r2 = set_add (case sr_objectKey (rt_stateRef root) of None \<Rightarrow> [] | Some k \<Rightarrow> k) r1
                  in reap_referenced E ops s gameId cs
                       (fold set_add (map (\<lambda>(k, b). bv_objectKey b) (rt_blobManifest root)) r2))))"

fun reap_loop ::
  "'s StateObjectStore \<Rightarrow> js_set \<Rightarrow> int \<Rightarrow> list_entry list \<Rightarrow> nat \<Rightarrow> nat \<Rightarrow> ('s, ReapOrphansResult) io"
where
  "reap_loop ops referenced olderThan [] scanned deleted =
     io_return \<lparr>ro_scanned = scanned, ro_deleted = deleted, ro_skipped = False\<rparr>"
| "reap_loop ops referenced olderThan (e # es) scanned deleted =
     (if le_key e \<in> set referenced then reap_loop ops referenced olderThan es (Suc scanned) deleted
      else if (case le_updatedAt e of None \<Rightarrow> False | Some t \<Rightarrow> t > olderThan)
      then reap_loop ops referenced olderThan es (Suc scanned) deleted
      else io_bind (io_delete ops (le_key e))
        (\<lambda>_. reap_loop ops referenced olderThan es (Suc scanned) (Suc deleted)))"

definition reapOrphans ::
  "env \<Rightarrow> 's StateObjectStore \<Rightarrow> string \<Rightarrow> int \<Rightarrow> ('s, ReapOrphansResult) io" where
  "reapOrphans E ops gameId olderThan s =
     (case os_list ops of
        None \<Rightarrow> (Inr \<lparr>ro_scanned = 0, ro_deleted = 0, ro_skipped = True\<rparr>, s)
      | Some list \<Rightarrow>
         (case listCheckpoints E ops s gameId max_safe_integer of
            Inl e \<Rightarrow> (Inl e, s)
          | Inr cps \<Rightarrow>
             (case reap_referenced E ops s gameId cps [rootKey gameId] of
                Inl e \<Rightarrow> (Inl e, s)
              | Inr referenced \<Rightarrow>
                 (case list s (gamePrefix gameId) of
                    Inl e \<Rightarrow> (Inl (StoreErr e), s)
                  | Inr entries \<Rightarrow> reap_loop ops referenced olderThan entries 0 0 s))))"

section \<open>Sessions\<close>

record GameStateSession =
  gs_gameId :: string
  gs_bundleCompatTag :: "string option"
  gs_blobCompatTag :: "string option"
  gs_inlineStateMaxBytes :: int
  gs_retainCheckpoints :: int
  gs_enableTimeTravel :: bool
  gs_state :: bytes
  gs_dirtyState :: bool
  gs_blobs :: "BlobVersion js_map"
  gs_dirtyBlobs :: "bytes js_map"
  gs_deletedBlobs :: js_set
  gs_dirtyBlobManifest :: bool
  gs_checkpointSeq :: int
  gs_rootVersion :: "string option"
  gs_root :: "StateRoot option"
  gs_rootObjectKey :: "string option"

record StateStoreOptions =
  so_inlineStateMaxBytes :: "int option"
  so_retainCheckpoints :: "int option"
  so_enableTimeTravel :: "bool option"

record GameStateSessionOptions =
  sn_gameId :: string
  sn_bundleCompatTag :: "string option"
  sn_blobCompatTag :: "string option"
  sn_enableTimeTravel :: "bool option"
  sn_retainCheckpoints :: "int option"

definition default :: "'a \<Rightarrow> 'a option \<Rightarrow> 'a" where
  "default d x = (case x of None \<Rightarrow> d | Some v \<Rightarrow> v)"

lemma default_simps [simp]: "default d None = d" "default d (Some v) = v"
  by (simp_all add: default_def)

definition new_session ::
  "StateStoreOptions \<Rightarrow> GameStateSessionOptions \<Rightarrow> MaterializedGameState \<Rightarrow> GameStateSession" where
  "new_session so sn m =
     \<lparr>gs_gameId = sn_gameId sn, gs_bundleCompatTag = sn_bundleCompatTag sn,
      gs_blobCompatTag = sn_blobCompatTag sn,
      gs_inlineStateMaxBytes = default (128 * 1024) (so_inlineStateMaxBytes so),
      gs_retainCheckpoints = default (default 0 (so_retainCheckpoints so)) (sn_retainCheckpoints sn),
      gs_enableTimeTravel = default (default False (so_enableTimeTravel so)) (sn_enableTimeTravel sn),
      gs_state = mt_state m, gs_dirtyState = False,
      gs_blobs = fold (\<lambda>(k, v). map_set k v) (mt_blobs m) [],
      gs_dirtyBlobs = [], gs_deletedBlobs = [], gs_dirtyBlobManifest = False,
      gs_checkpointSeq = mt_checkpointSeq m, gs_rootVersion = mt_rootVersion m,
      gs_root = mt_root m, gs_rootObjectKey = mt_rootObjectKey m\<rparr>"

definition openSession ::
  "env \<Rightarrow> StateStoreOptions \<Rightarrow> 's StateObjectStore \<Rightarrow> 's \<Rightarrow> GameStateSessionOptions
   \<Rightarrow> state_error + GameStateSession" where
  "openSession E so ops s sn =
     (case materialize E ops s (sn_gameId sn) of
        Inl e \<Rightarrow> Inl e
      | Inr m \<Rightarrow> Inr (new_session so sn m))"

definition readState :: "GameStateSession \<Rightarrow> bytes" where
  "readState g = gs_state g"

definition writeState :: "bytes \<Rightarrow> GameStateSession \<Rightarrow> GameStateSession" where
  "writeState b g = g\<lparr>gs_state := b, gs_dirtyState := True\<rparr>"

definition putBlob :: "string \<Rightarrow> bytes \<Rightarrow> GameStateSession \<Rightarrow> GameStateSession" where
  "putBlob k b g = g\<lparr>gs_dirtyBlobs := map_set k b (gs_dirtyBlobs g),
     gs_deletedBlobs := set_delete k (gs_deletedBlobs g)\<rparr>"

definition getBlob ::
  "'s StateObjectStore \<Rightarrow> 's \<Rightarrow> GameStateSession \<Rightarrow> string \<Rightarrow> state_error + bytes option" where
  "getBlob ops s g k =
     (case map_get (gs_dirtyBlobs g) k of
        Some b \<Rightarrow> Inr (Some b)
      | None \<Rightarrow>
         if k \<in> set (gs_deletedBlobs g) then Inr None
         else (case map_get (gs_blobs g) k of
            None \<Rightarrow> Inr None
          | Some v \<Rightarrow>
             (case obj_get ops s (bv_objectKey v) of
                Inl e \<Rightarrow> Inl e
              | Inr o1 \<Rightarrow> Inr (map_option fst o1))))"

definition deleteBlob :: "string \<Rightarrow> GameStateSession \<Rightarrow> GameStateSession" where
  "deleteBlob k g =
     (let hadPersistedBlob = map_has (gs_blobs g) k in
      g\<lparr>gs_blobs := map_delete k (gs_blobs g),
        gs_dirtyBlobs := map_delete k (gs_dirtyBlobs g),
        gs_deletedBlobs := set_add k (gs_deletedBlobs g),
        gs_dirtyBlobManifest := gs_dirtyBlobManifest g \<or> hadPersistedBlob\<rparr>)"

definition listBlobs :: "string \<Rightarrow> GameStateSession \<Rightarrow> string list" where
  "listBlobs pre g =
     (let keys = fold set_add (map_keys (gs_blobs g) @ map_keys (gs_dirtyBlobs g)) [];
          kept = fold set_delete (gs_deletedBlobs g) keys
      in sort (filter (prefix pre) kept))"

definition isDirty :: "GameStateSession \<Rightarrow> bool" where
  "isDirty g \<longleftrightarrow> gs_dirtyState g \<or> gs_dirtyBlobs g \<noteq> [] \<or> gs_dirtyBlobManifest g"

definition shouldRetainHistory :: "GameStateSession \<Rightarrow> bool" where
  "shouldRetainHistory g \<longleftrightarrow> gs_enableTimeTravel g \<or> gs_retainCheckpoints g > 0"

section \<open>Flush\<close>

fun write_blobs_loop ::
  "env \<Rightarrow> 's StateObjectStore \<Rightarrow> string \<Rightarrow> nat \<Rightarrow> bytes js_map \<Rightarrow> BlobVersion js_map
   \<Rightarrow> ('s, BlobVersion js_map) io"
where
  "write_blobs_loop E ops gameId i [] manifest = io_return manifest"
| "write_blobs_loop E ops gameId i ((k, b) # ds) manifest =
     (let hash = host_sha256 (ev_host E) b; objectKey = blobKey gameId k hash in
      io_bind (io_put ops objectKey b None) (\<lambda>_.
        write_blobs_loop E ops gameId (Suc i) ds
          (map_set k \<lparr>bv_version = ev_blobId E i, bv_key = k, bv_size = int (length b),
                      bv_objectKey = objectKey, bv_sha256 = hash\<rparr> manifest)))"

definition writeDirtyBlobs ::
  "env \<Rightarrow> 's StateObjectStore \<Rightarrow> GameStateSession \<Rightarrow> ('s, BlobVersion js_map) io" where
  "writeDirtyBlobs E ops g =
     io_bind (write_blobs_loop E ops (gs_gameId g) 0 (gs_dirtyBlobs g)
         (fold map_delete (gs_deletedBlobs g) (gs_blobs g)))
       (\<lambda>m. io_return (sort_by (\<lambda>l r. host_localeLe (ev_host E) (fst l) (fst r)) m))"

definition writeStateRef :: "env \<Rightarrow> 's StateObjectStore \<Rightarrow> GameStateSession \<Rightarrow> ('s, StateRef) io" where
  "writeStateRef E ops g =
     (if int (length (gs_state g)) \<le> gs_inlineStateMaxBytes g
      then io_return (inlineStateRef (ev_host E) (gs_state g))
      else
       let hash = host_sha256 (ev_host E) (gs_state g); objectKey = stateObjectKey (gs_gameId g) hash in
       io_bind (io_put ops objectKey (gs_state g) None)
         (\<lambda>_. io_return (objectStateRef objectKey (gs_state g) hash)))"

definition buildRoot :: "env \<Rightarrow> GameStateSession \<Rightarrow> StateRef \<Rightarrow> BlobVersion js_map \<Rightarrow> StateRoot" where
  "buildRoot E g stateRef blobManifest =
     \<lparr>rt_rootId = ev_rootId E, rt_historyObjectKey = None, rt_gameId = gs_gameId g,
      rt_checkpointSeq = gs_checkpointSeq g + 1, rt_codec = Whole, rt_stateRef = stateRef,
      rt_blobManifest = blobManifest,
      rt_parent = (if shouldRetainHistory g
        then coalesce (Option.bind (gs_root g) rt_historyObjectKey) (gs_rootObjectKey g) else None),
      rt_createdAt = ev_now E, rt_bundleCompatTag = gs_bundleCompatTag g,
      rt_blobCompatTag = gs_blobCompatTag g\<rparr>"

definition flush_history_key :: "GameStateSession \<Rightarrow> StateRoot \<Rightarrow> string option" where
  "flush_history_key g root =
     (if shouldRetainHistory g
      then Some (checkpointRootKey (gs_gameId g) (rt_checkpointSeq root) (rt_rootId root)) else None)"

definition flush_prepare ::
  "env \<Rightarrow> 's StateObjectStore \<Rightarrow> GameStateSession \<Rightarrow> ('s, StateRoot \<times> string) io" where
  "flush_prepare E ops g =
     io_bind (writeDirtyBlobs E ops g) (\<lambda>blobManifest.
     io_bind (writeStateRef E ops g) (\<lambda>stateRef.
       let root = buildRoot E g stateRef blobManifest;
           historyObjectKey = flush_history_key g root;
           committedRoot = root\<lparr>rt_historyObjectKey := historyObjectKey\<rparr>
       in io_bind (case historyObjectKey of
             None \<Rightarrow> io_return ()
           | Some h \<Rightarrow> io_bind (io_put ops h (encodeRoot committedRoot) None) (\<lambda>_. io_return ())) (\<lambda>_.
          io_bind (io_put ops (rootKey (gs_gameId g)) (encodeRoot committedRoot) (gs_rootVersion g))
            (\<lambda>v. io_return (committedRoot, v)))))"

definition flush_commit :: "StateRoot \<Rightarrow> string \<Rightarrow> GameStateSession \<Rightarrow> GameStateSession" where
  "flush_commit committedRoot version g =
     g\<lparr>gs_checkpointSeq := rt_checkpointSeq committedRoot,
       gs_rootVersion := Some version,
       gs_root := Some committedRoot,
       gs_rootObjectKey :=
         Some (default (rootKey (gs_gameId g)) (rt_historyObjectKey committedRoot)),
       gs_blobs := fold (\<lambda>(k, v). map_set k v) (rt_blobManifest committedRoot) [],
       gs_dirtyBlobs := [], gs_deletedBlobs := [], gs_dirtyBlobManifest := False,
       gs_dirtyState := False\<rparr>"

definition deleteSupersededObjects ::
  "'s StateObjectStore \<Rightarrow> StateRoot option \<Rightarrow> StateRoot \<Rightarrow> ('s, unit) io" where
  "deleteSupersededObjects ops previousRoot currentRoot =
     (case previousRoot of
        None \<Rightarrow> io_return ()
      | Some p \<Rightarrow>
         io_delete_all ops
           (filter (\<lambda>k. k \<notin> set (referencedObjects currentRoot)) (referencedObjects p)))"

partial_function (option) prune_walk ::
  "env \<Rightarrow> 's StateObjectStore \<Rightarrow> 's \<Rightarrow> int \<Rightarrow> StateRoot \<Rightarrow> string \<Rightarrow> int \<Rightarrow> js_set
   \<Rightarrow> (StateRoot \<times> string) list \<Rightarrow> (state_error + js_set \<times> (StateRoot \<times> string) list) option"
where
  "prune_walk E ops s retain root objectKey index protectedObjects prune =
     (let protected' = (if index < retain
            then fold set_add (referencedObjects root) (set_add objectKey protectedObjects)
            else protectedObjects);
          prune' = (if index < retain then prune else prune @ [(root, objectKey)])
      in case truthy (rt_parent root) of
        None \<Rightarrow> Some (Inr (protected', prune'))
      | Some p \<Rightarrow>
         (case obj_get ops s p of
            Inl e \<Rightarrow> Some (Inl e)
          | Inr None \<Rightarrow> Some (Inr (protected', prune'))
          | Inr (Some (b, v)) \<Rightarrow>
             (case decodeRoot (ev_host E) (ev_freshId E) b of
                Inl e \<Rightarrow> Some (Inl e)
              | Inr parent \<Rightarrow>
                  prune_walk E ops s retain parent p (index + 1) protected' prune')))"

definition prune_deletes :: "js_set \<Rightarrow> (StateRoot \<times> string) list \<Rightarrow> string list" where
  "prune_deletes protectedObjects prune =
     filter (\<lambda>k. k \<notin> set protectedObjects)
       (concat (map (\<lambda>(root, objectKey). objectKey # referencedObjects root) prune))"

definition pruneRetainedCheckpoints ::
  "env \<Rightarrow> 's StateObjectStore \<Rightarrow> GameStateSession \<Rightarrow> ('s, unit) io" where
  "pruneRetainedCheckpoints E ops g s =
     (if gs_enableTimeTravel g \<or> gs_retainCheckpoints g \<le> 0 then (Inr (), s)
      else case gs_root g of
        None \<Rightarrow> (Inr (), s)
      | Some root \<Rightarrow>
         (case truthy (rt_historyObjectKey root) of
            None \<Rightarrow> (Inr (), s)
          | Some objectKey \<Rightarrow>
             (case of_loop (prune_walk E ops s (gs_retainCheckpoints g) root objectKey 0
                      [rootKey (gs_gameId g)] []) of
                Inl e \<Rightarrow> (Inl e, s)
              | Inr (protectedObjects, prune) \<Rightarrow>
                  io_delete_all ops (prune_deletes protectedObjects prune) s)))"

definition flush_cleanup ::
  "env \<Rightarrow> 's StateObjectStore \<Rightarrow> StateRoot option \<Rightarrow> StateRoot \<Rightarrow> GameStateSession \<Rightarrow> ('s, unit) io" where
  "flush_cleanup E ops previousRoot committedRoot g =
     io_bind (if shouldRetainHistory g then io_return ()
              else deleteSupersededObjects ops previousRoot committedRoot) (\<lambda>_.
       pruneRetainedCheckpoints E ops g)"

text \<open>
  The result of a flush: the value or the exception it ends with, the session and the store.
  An exception from the clean-up leaves the session committed.
\<close>

definition flush ::
  "env \<Rightarrow> 's StateObjectStore \<Rightarrow> GameStateSession \<Rightarrow> 's
   \<Rightarrow> (state_error + StateRoot option) \<times> GameStateSession \<times> 's" where
  "flush E ops g s =
     (if \<not> isDirty g then (Inr None, g, s)
      else case flush_prepare E ops g s of
        (Inl e, s1) \<Rightarrow> (Inl e, g, s1)
      | (Inr (committedRoot, v), s1) \<Rightarrow>
         (let g1 = flush_commit committedRoot v g in
          case flush_cleanup E ops (gs_root g) committedRoot g1 s1 of
            (Inl e, s2) \<Rightarrow> (Inl e, g1, s2)
          | (Inr _, s2) \<Rightarrow> (Inr (Some committedRoot), g1, s2)))"

section \<open>Checkpoint scheduler\<close>

text \<open>
  \<^verbatim>\<open>CheckpointScheduler\<close>: the armed timers, by game, each with the number of the
  session object it will flush and the time it fires.
\<close>

record timer =
  tm_session :: nat
  tm_firesAt :: int

record CheckpointScheduler =
  cs_timers :: "timer js_map"
  cs_intervalMs :: int

definition cs_cancel :: "string \<Rightarrow> CheckpointScheduler \<Rightarrow> CheckpointScheduler" where
  "cs_cancel gameId c = c\<lparr>cs_timers := map_delete gameId (cs_timers c)\<rparr>"

definition cs_schedule :: "int \<Rightarrow> string \<Rightarrow> nat \<Rightarrow> CheckpointScheduler \<Rightarrow> CheckpointScheduler" where
  "cs_schedule now gameId session c =
     (let c1 = cs_cancel gameId c in
      c1\<lparr>cs_timers := map_set gameId
            \<lparr>tm_session = session, tm_firesAt = now + cs_intervalMs c1\<rparr> (cs_timers c1)\<rparr>)"

text \<open>The timer's callback: it forgets the timer and names the session to flush.\<close>

definition cs_fire :: "string \<Rightarrow> CheckpointScheduler \<Rightarrow> (nat \<times> CheckpointScheduler) option" where
  "cs_fire gameId c =
     map_option (\<lambda>t. (tm_session t, c\<lparr>cs_timers := map_delete gameId (cs_timers c)\<rparr>))
       (map_get (cs_timers c) gameId)"

definition cs_flushNow ::
  "env \<Rightarrow> 's StateObjectStore \<Rightarrow> string \<Rightarrow> GameStateSession \<Rightarrow> 's \<Rightarrow> CheckpointScheduler
   \<Rightarrow> ((state_error + StateRoot option) \<times> GameStateSession \<times> 's) \<times> CheckpointScheduler" where
  "cs_flushNow E ops gameId g s c = (flush E ops g s, cs_cancel gameId c)"

definition cs_stop :: "CheckpointScheduler \<Rightarrow> CheckpointScheduler" where
  "cs_stop c = c\<lparr>cs_timers := []\<rparr>"

end
