(* ===== verification/StateStoreFlush.thy ===== *)
theory StateStoreFlush
  imports StateStore
begin

text \<open>
  Correctness of sessions and of \<open>flush\<close>. A session is abstracted to the state bytes and the
  finite map of blobs a caller sees (\<open>session_view\<close>); the session operations refine updates of
  that map, a successful flush makes it durable, and a flush against a superseded root is
  refused. The lemmas are proved for every object store that satisfies the contract
  \<open>object_store\<close> (locale \<open>state_env\<close>) and then read off for the in-memory adapter.
\<close>

section \<open>Abstraction\<close>

definition blob_view :: "'s StateObjectStore \<Rightarrow> 's \<Rightarrow> GameStateSession \<Rightarrow> string \<Rightarrow> bytes option" where
  "blob_view ops s g k = (case getBlob ops s g k of Inl e \<Rightarrow> None | Inr r \<Rightarrow> r)"

definition session_view :: "'s StateObjectStore \<Rightarrow> 's \<Rightarrow> GameStateSession \<Rightarrow> bytes \<times> (string \<Rightarrow> bytes option)" where
  "session_view ops s g = (gs_state g, blob_view ops s g)"

text \<open>
  Well-formed sessions: the maps have no duplicate keys, a deleted blob is neither
  persisted nor dirty, every persisted blob is present in the object store under its
  content-addressed key, and the previous root refers to objects of this game only.
\<close>

definition blob_present :: "host \<Rightarrow> 's StateObjectStore \<Rightarrow> 's \<Rightarrow> string \<Rightarrow> string \<Rightarrow> BlobVersion \<Rightarrow> bool" where
  "blob_present H ops s gameId k bv \<longleftrightarrow>
     (case os_get ops s (bv_objectKey bv) of
        Inr (Some (b, v)) \<Rightarrow>
          bv_objectKey bv = blobKey gameId k (host_sha256 H b) \<and> bv_sha256 bv = host_sha256 H b
          \<and> bv_size bv = int (length b)
      | _ \<Rightarrow> False)"

definition game_object :: "string \<Rightarrow> string \<Rightarrow> bool" where
  "game_object gameId key \<longleftrightarrow>
     (\<exists>k h. key = blobKey gameId k h) \<or> (\<exists>h. key = stateObjectKey gameId h)"

definition maps_ok :: "GameStateSession \<Rightarrow> bool" where
  "maps_ok g \<longleftrightarrow> map_wf (gs_blobs g) \<and> map_wf (gs_dirtyBlobs g) \<and> distinct (gs_deletedBlobs g)
     \<and> (\<forall>k \<in> set (gs_deletedBlobs g). \<not> map_has (gs_blobs g) k \<and> \<not> map_has (gs_dirtyBlobs g) k)"

definition session_ok :: "host \<Rightarrow> 's StateObjectStore \<Rightarrow> 's \<Rightarrow> GameStateSession \<Rightarrow> bool" where
  "session_ok H ops s g \<longleftrightarrow> maps_ok g
     \<and> (\<forall>(k, bv) \<in> set (gs_blobs g). blob_present H ops s (gs_gameId g) k bv)
     \<and> (case gs_root g of
          None \<Rightarrow> True
        | Some r \<Rightarrow> rt_gameId r = gs_gameId g \<and> rt_checkpointSeq r = gs_checkpointSeq g
            \<and> (\<forall>key \<in> set (referencedObjects r). game_object (gs_gameId g) key))"

lemma game_object_simps [simp]:
  "game_object g (blobKey g k h)" "game_object g (stateObjectKey g h)"
  "\<not> game_object g (rootKey g')" "\<not> game_object g (checkpointRootKey g' n i)"
  by (auto simp: game_object_def)

text \<open>A root whose state and blobs can be read from the contents \<open>L\<close>.\<close>

definition stored_root ::
  "(string \<Rightarrow> (bytes \<times> string) option) \<Rightarrow> StateRoot \<Rightarrow> bytes \<Rightarrow> (string \<Rightarrow> bytes option) \<Rightarrow> bool" where
  "stored_root L root st view \<longleftrightarrow>
     (if sr_kind (rt_stateRef root) = InlineRef
      then sr_bytesBase64 (rt_stateRef root) = Some (b64_encode st)
      else \<exists>k v. truthy (sr_objectKey (rt_stateRef root)) = Some k \<and> L k = Some (st, v))
     \<and> map_wf (rt_blobManifest root)
     \<and> (\<forall>k. view k = Option.bind (map_of (rt_blobManifest root) k)
            (\<lambda>bv. map_option fst (L (bv_objectKey bv))))
     \<and> (\<forall>(k, bv) \<in> set (rt_blobManifest root). L (bv_objectKey bv) \<noteq> None)"

lemma stored_root_cong:
  assumes "stored_root L root st view"
    and "\<And>k. k \<in> set (referencedObjects root) \<Longrightarrow> L' k = L k"
  shows "stored_root L' root st view"
proof -
  have "L' (bv_objectKey bv) = L (bv_objectKey bv)" if "(k, bv) \<in> set (rt_blobManifest root)" for k bv
    using assms(2) that by (force simp: set_referencedObjects)
  moreover have "L' k = L k" if "truthy (sr_objectKey (rt_stateRef root)) = Some k" for k
    using assms(2) that by (simp add: set_referencedObjects)
  moreover have "Option.bind (map_of (rt_blobManifest root) k) (\<lambda>bv. map_option fst (L' (bv_objectKey bv)))
      = Option.bind (map_of (rt_blobManifest root) k) (\<lambda>bv. map_option fst (L (bv_objectKey bv)))" for k
    using calculation(1) by (cases "map_of (rt_blobManifest root) k") (auto dest: map_of_SomeD)
  ultimately show ?thesis using assms(1) unfolding stored_root_def by (fastforce split: if_splits)
qed

section \<open>Session operations refine map updates\<close>

lemma maps_ok_ops:
  "maps_ok g \<Longrightarrow> maps_ok (writeState b g)"
  "maps_ok g \<Longrightarrow> maps_ok (putBlob k b g)"
  "maps_ok g \<Longrightarrow> maps_ok (deleteBlob k g)"
  unfolding maps_ok_def writeState_def putBlob_def deleteBlob_def map_has_def
  by (auto simp: js_simps Let_def)

lemma getBlob_putBlob:
  "getBlob ops s (putBlob k b g) k' = (if k' = k then Inr (Some b) else getBlob ops s g k')"
  by (auto simp: getBlob_def putBlob_def js_simps split: option.splits)

lemma getBlob_deleteBlob:
  "getBlob ops s (deleteBlob k g) k' = (if k' = k then Inr None else getBlob ops s g k')"
  by (auto simp: getBlob_def deleteBlob_def js_simps Let_def split: option.splits)

lemma view_putBlob: "blob_view ops s (putBlob k b g) = (blob_view ops s g)(k \<mapsto> b)"
  by (auto simp: blob_view_def getBlob_putBlob)

lemma view_deleteBlob: "blob_view ops s (deleteBlob k g) = (blob_view ops s g)(k := None)"
  by (auto simp: blob_view_def getBlob_deleteBlob)

lemma view_writeState: "blob_view ops s (writeState b g) = blob_view ops s g"
  by (rule ext) (simp add: blob_view_def getBlob_def writeState_def cong: option.case_cong)

lemma session_ok_ops:
  "session_ok H ops s g \<Longrightarrow> session_ok H ops s (writeState b g)"
  "session_ok H ops s g \<Longrightarrow> session_ok H ops s (putBlob k b g)"
  "session_ok H ops s g \<Longrightarrow> session_ok H ops s (deleteBlob k g)"
proof -
  assume ok: "session_ok H ops s g"
  then have m: "maps_ok g" by (simp add: session_ok_def)
  show "session_ok H ops s (writeState b g)" "session_ok H ops s (putBlob k b g)"
    using ok maps_ok_ops [OF m]
    by (auto simp: session_ok_def writeState_def putBlob_def split: option.splits)
  have "set (map_delete k (gs_blobs g)) \<subseteq> set (gs_blobs g)"
    by (auto simp: AList.delete_eq)
  then show "session_ok H ops s (deleteBlob k g)"
    using ok maps_ok_ops(3) [OF m, of k] by (auto simp: session_ok_def deleteBlob_def Let_def split: option.splits)
qed

lemma set_fold_set_delete: "set (fold set_delete ks xs) = set xs - set ks"
  by (induction ks arbitrary: xs) auto

lemma distinct_fold_set_delete: "distinct xs \<Longrightarrow> distinct (fold set_delete ks xs)"
  by (induction ks arbitrary: xs) auto

lemma set_listBlobs:
  "set (listBlobs pre g) =
     {k. (map_has (gs_blobs g) k \<or> map_has (gs_dirtyBlobs g) k)
        \<and> k \<notin> set (gs_deletedBlobs g) \<and> prefix pre k}"
  by (auto simp: listBlobs_def Let_def set_fold_set_delete set_foldr_set_add js_simps)

lemma distinct_listBlobs: "distinct (listBlobs pre g)" and sorted_listBlobs: "sorted (listBlobs pre g)"
  by (simp_all add: listBlobs_def Let_def distinct_fold_set_delete distinct_fold_set_add)

lemma blob_present_get:
  "blob_present H ops s gid k bv \<Longrightarrow> \<exists>b v. os_get ops s (bv_objectKey bv) = Inr (Some (b, v))"
  by (auto simp: blob_present_def split: sum.splits option.splits)

lemma listBlobs_view:
  assumes "session_ok H ops s g"
  shows "set (listBlobs pre g) = {k \<in> dom (blob_view ops s g). prefix pre k}"
proof -
  have "map_has (gs_blobs g) k \<or> map_has (gs_dirtyBlobs g) k
      \<longleftrightarrow> k \<in> dom (blob_view ops s g)" if "k \<notin> set (gs_deletedBlobs g)" for k
  proof (cases "map_of (gs_dirtyBlobs g) k")
    case (Some b)
    then show ?thesis by (auto simp: blob_view_def getBlob_def map_has_def)
  next
    case dirty: None
    show ?thesis
    proof (cases "map_of (gs_blobs g) k")
      case None
      with dirty show ?thesis by (auto simp: blob_view_def getBlob_def map_has_def split: if_splits)
    next
      case (Some bv)
      then have "blob_present H ops s (gs_gameId g) k bv"
        using assms by (auto simp: session_ok_def dest: map_of_SomeD)
      then show ?thesis using dirty Some that
        by (auto simp: blob_view_def getBlob_def map_has_def obj_get_def dest: blob_present_get)
    qed
  qed
  moreover have "k \<notin> dom (blob_view ops s g)" if "k \<in> set (gs_deletedBlobs g)" for k
    using assms that by (auto simp: session_ok_def maps_ok_def map_has_def blob_view_def getBlob_def
        split: if_splits)
  ultimately show ?thesis by (auto simp: set_listBlobs)
qed

text \<open>
  Content-addressed objects keep their contents: a put under a hash of its body never
  replaces a different body.
\<close>

definition addressed :: "host \<Rightarrow> string \<Rightarrow> string \<Rightarrow> bytes \<Rightarrow> bool" where
  "addressed H gid key b \<longleftrightarrow>
     (\<exists>k. key = blobKey gid k (host_sha256 H b)) \<or> key = stateObjectKey gid (host_sha256 H b)"

definition keeps_addressed ::
  "host \<Rightarrow> string \<Rightarrow> (string \<Rightarrow> (bytes \<times> string) option) \<Rightarrow> (string \<Rightarrow> (bytes \<times> string) option) \<Rightarrow> bool" where
  "keeps_addressed H gid L L' \<longleftrightarrow>
     (\<forall>key b v. L key = Some (b, v) \<longrightarrow> addressed H gid key b \<longrightarrow> (\<exists>v'. L' key = Some (b, v')))"

section \<open>The object store behind a flush\<close>

text \<open>
  The environment of a flush: an object store that keeps its contract, a host that keeps
  its own, and versions that tell different bodies apart.
\<close>

locale state_env = object_store ops lookup version_of + host_env "ev_host E"
  for ops :: "'s StateObjectStore"
    and lookup :: "'s \<Rightarrow> string \<Rightarrow> (bytes \<times> string) option"
    and version_of :: "bytes \<Rightarrow> string"
    and E :: env +
  assumes version_inj: "version_of b = version_of c \<Longrightarrow> b = c"
begin

abbreviation sha :: "bytes \<Rightarrow> string" where
  "sha \<equiv> host_sha256 (ev_host E)"

lemma obj_get_lookup [simp]: "obj_get ops s k = Inr (lookup s k)"
  by (simp add: obj_get_def get)

lemma io_put_None:
  obtains s' where "io_put ops k b None s = (Inr (version_of b), s')"
    "lookup s' = (lookup s)(k \<mapsto> (b, version_of b))"
proof -
  obtain s' where "os_put ops s k b None = Inr (s', version_of b)"
    "lookup s' = (lookup s)(k \<mapsto> (b, version_of b))" by (rule put_unconditional)
  then show ?thesis using that by (simp add: io_put_def)
qed

lemma io_put_cases:
  obtains (ok) s' where "io_put ops k b c s = (Inr (version_of b), s')"
      "lookup s' = (lookup s)(k \<mapsto> (b, version_of b))" "c = None \<or> map_option snd (lookup s k) = c"
  | (conflict) "io_put ops k b c s = (Inl (StoreErr (ConditionalPutConflict k)), s)"
      "c \<noteq> None" "map_option snd (lookup s k) \<noteq> c"
proof (rule put_cases [OF refl, of s k b c])
  fix s'
  assume "os_put ops s k b c = Inr (s', version_of b)"
    "lookup s' = (lookup s)(k \<mapsto> (b, version_of b))" "c = None \<or> map_option snd (lookup s k) = c"
  then show ?thesis using ok [of s'] by (simp add: io_put_def)
next
  assume "os_put ops s k b c = Inl (ConditionalPutConflict k)" "c \<noteq> None"
    "map_option snd (lookup s k) \<noteq> c"
  then show ?thesis using conflict by (simp add: io_put_def)
qed

lemma io_delete_all_run:
  obtains s' where "io_delete_all ops ks s = (Inr (), s')"
    "lookup s' = (\<lambda>k. if k \<in> set ks then None else lookup s k)"
proof -
  have "\<exists>s'. io_delete_all ops ks s = (Inr (), s')
      \<and> lookup s' = (\<lambda>k. if k \<in> set ks then None else lookup s k)"
  proof (induction ks arbitrary: s)
    case Nil
    then show ?case by (simp add: io_return_def)
  next
    case (Cons k ks)
    obtain s1 where "os_delete ops s k = Inr s1" "lookup s1 = (lookup s)(k := None)"
      using delete by blast
    moreover obtain s2 where "io_delete_all ops ks s1 = (Inr (), s2)"
      "lookup s2 = (\<lambda>k. if k \<in> set ks then None else lookup s1 k)"
      using Cons.IH by blast
    ultimately show ?case by (auto simp: io_bind_def io_delete_def)
  qed
  then show ?thesis using that by blast
qed

text \<open>Writing the dirty blobs: the new manifest, and what the store holds afterwards.\<close>

lemma write_blobs_run:
  assumes "map_wf ds" and "map_wf m"
  shows "\<exists>m' s'. write_blobs_loop E ops gid i ds m s = (Inr m', s') \<and> map_wf m'
    \<and> (\<forall>k. map_of ds k = None \<longrightarrow> map_of m' k = map_of m k)
    \<and> (\<forall>k b. map_of ds k = Some b \<longrightarrow> (\<exists>bv. map_of m' k = Some bv
         \<and> bv_objectKey bv = blobKey gid k (sha b) \<and> bv_sha256 bv = sha b \<and> bv_size bv = int (length b)))
    \<and> (\<forall>k b. map_of ds k = Some b \<longrightarrow> lookup s' (blobKey gid k (sha b)) = Some (b, version_of b))
    \<and> (\<forall>key. (\<forall>k b. map_of ds k = Some b \<longrightarrow> key \<noteq> blobKey gid k (sha b)) \<longrightarrow> lookup s' key = lookup s key)"
  using assms
proof (induction ds arbitrary: i m s)
  case Nil
  then show ?case by (auto simp: io_return_def)
next
  case (Cons p ds)
  obtain k0 b0 where p: "p = (k0, b0)" by (cases p)
  let ?key = "blobKey gid k0 (sha b0)"
  let ?bv = "\<lparr>bv_version = ev_blobId E i, bv_key = k0, bv_size = int (length b0),
                bv_objectKey = ?key, bv_sha256 = sha b0\<rparr>"
  obtain s1 where put: "io_put ops ?key b0 None s = (Inr (version_of b0), s1)"
    and L1: "lookup s1 = (lookup s)(?key \<mapsto> (b0, version_of b0))" by (rule io_put_None)
  have wf: "map_wf ds" "map_wf (map_set k0 ?bv m)" and fresh: "map_of ds k0 = None"
    using Cons.prems p by (auto simp: distinct_update map_of_eq_None_iff)
  obtain m' s' where IH:
    "write_blobs_loop E ops gid (Suc i) ds (map_set k0 ?bv m) s1 = (Inr m', s')" "map_wf m'"
    "\<And>k. map_of ds k = None \<Longrightarrow> map_of m' k = map_of (map_set k0 ?bv m) k"
    "\<And>k b. map_of ds k = Some b \<Longrightarrow> \<exists>bv. map_of m' k = Some bv
         \<and> bv_objectKey bv = blobKey gid k (sha b) \<and> bv_sha256 bv = sha b \<and> bv_size bv = int (length b)"
    "\<And>k b. map_of ds k = Some b \<Longrightarrow> lookup s' (blobKey gid k (sha b)) = Some (b, version_of b)"
    "\<And>key. (\<And>k b. map_of ds k = Some b \<Longrightarrow> key \<noteq> blobKey gid k (sha b)) \<Longrightarrow> lookup s' key = lookup s1 key"
    using Cons.IH [OF wf, of "Suc i" s1] by blast
  have "write_blobs_loop E ops gid i (p # ds) m s = (Inr m', s')"
    using put IH(1) p by (simp add: io_bind_def Let_def)
  moreover have "lookup s' ?key = Some (b0, version_of b0)"
    using IH(6) [of ?key] fresh L1 by fastforce
  moreover have "map_of m' k = map_of m k" if "map_of (p # ds) k = None" for k
    using IH(3) [of k] that p by (simp add: update_conv' split: if_splits)
  moreover have "\<exists>bv. map_of m' k = Some bv \<and> bv_objectKey bv = blobKey gid k (sha b)
      \<and> bv_sha256 bv = sha b \<and> bv_size bv = int (length b)" if "map_of (p # ds) k = Some b" for k b
  proof (cases "k = k0")
    case True
    then show ?thesis using IH(3) [of k0] fresh that p by (simp add: update_conv')
  next
    case False
    then show ?thesis using IH(4) [of k b] that p by simp
  qed
  moreover have "lookup s' (blobKey gid k (sha b)) = Some (b, version_of b)"
    if "map_of (p # ds) k = Some b" for k b
    using that p IH(5) [of k b] calculation(2) by (auto split: if_splits)
  moreover have "lookup s' key = lookup s key"
    if "\<forall>k b. map_of (p # ds) k = Some b \<longrightarrow> key \<noteq> blobKey gid k (sha b)" for key
  proof -
    have "key \<noteq> ?key" using that p by auto
    moreover have "lookup s' key = lookup s1 key"
    proof (rule IH(6))
      fix k b
      assume kb: "map_of ds k = Some b"
      then have "k \<noteq> k0" using fresh by auto
      with that p kb show "key \<noteq> blobKey gid k (sha b)" by auto
    qed
    ultimately show ?thesis using L1 by simp
  qed
  ultimately show ?case using IH(2) by blast
qed

lemma fold_map_delete:
  "map_of (fold map_delete ks m) = (\<lambda>k. if k \<in> set ks then None else map_of m k)"
  by (induction ks arbitrary: m) (auto simp: delete_conv' fun_eq_iff)

lemma map_wf_fold_delete: "map_wf m \<Longrightarrow> map_wf (fold map_delete ks m)"
  by (induction ks arbitrary: m) (auto simp: distinct_delete)

lemma blob_present_lookup:
  "blob_present (ev_host E) ops s gid k bv \<longleftrightarrow>
     (\<exists>b v. lookup s (bv_objectKey bv) = Some (b, v) \<and> bv_objectKey bv = blobKey gid k (sha b)
        \<and> bv_sha256 bv = sha b \<and> bv_size bv = int (length b))"
  by (auto simp: blob_present_def get split: option.splits)

lemma blob_view_lookup:
  "blob_view ops s g k =
     (case map_of (gs_dirtyBlobs g) k of
        Some b \<Rightarrow> Some b
      | None \<Rightarrow> if k \<in> set (gs_deletedBlobs g) then None
          else Option.bind (map_of (gs_blobs g) k) (\<lambda>bv. map_option fst (lookup s (bv_objectKey bv))))"
  by (auto simp: blob_view_def getBlob_def split: option.splits)

lemma keeps_addressed_refl [simp]: "keeps_addressed H gid L L"
  by (auto simp: keeps_addressed_def)

lemma keeps_addressed_trans:
  "keeps_addressed H gid L L1 \<Longrightarrow> keeps_addressed H gid L1 L2 \<Longrightarrow> keeps_addressed H gid L L2"
  unfolding keeps_addressed_def by blast

lemma writeDirtyBlobs_run:
  assumes ok: "session_ok (ev_host E) ops s g"
  obtains m s' where "writeDirtyBlobs E ops g s = (Inr m, s')" "map_wf m"
    "\<And>k. blob_view ops s g k = Option.bind (map_of m k) (\<lambda>bv. map_option fst (lookup s' (bv_objectKey bv)))"
    "\<And>k bv. (k, bv) \<in> set m \<Longrightarrow> blob_present (ev_host E) ops s' (gs_gameId g) k bv"
    "\<And>key. \<not> game_object (gs_gameId g) key \<Longrightarrow> lookup s' key = lookup s key"
    "keeps_addressed (ev_host E) (gs_gameId g) (lookup s) (lookup s')"
proof -
  let ?gid = "gs_gameId g" and ?ds = "gs_dirtyBlobs g" and ?del = "gs_deletedBlobs g"
  let ?m0 = "fold map_delete ?del (gs_blobs g)"
  have wf: "map_wf ?ds" "map_wf ?m0"
    using ok by (auto simp: session_ok_def maps_ok_def map_wf_fold_delete)
  obtain m s' where run: "write_blobs_loop E ops ?gid 0 ?ds ?m0 s = (Inr m, s')" and m: "map_wf m"
    and old: "\<And>k. map_of ?ds k = None \<Longrightarrow> map_of m k = map_of ?m0 k"
    and new: "\<And>k b. map_of ?ds k = Some b \<Longrightarrow> \<exists>bv. map_of m k = Some bv
         \<and> bv_objectKey bv = blobKey ?gid k (sha b) \<and> bv_sha256 bv = sha b \<and> bv_size bv = int (length b)"
    and L: "\<And>k b. map_of ?ds k = Some b \<Longrightarrow> lookup s' (blobKey ?gid k (sha b)) = Some (b, version_of b)"
    and frame: "\<And>key. (\<And>k b. map_of ?ds k = Some b \<Longrightarrow> key \<noteq> blobKey ?gid k (sha b)) \<Longrightarrow> lookup s' key = lookup s key"
    using write_blobs_run [OF wf, of ?gid 0 s] by blast
  let ?m = "sort_by (\<lambda>l r. host_localeLe (ev_host E) (fst l) (fst r)) m"
  have mo: "map_of ?m = map_of m" using m by (rule map_of_sort_by)
  have entry: "blob_present (ev_host E) ops s' ?gid k bv
      \<and> blob_view ops s g k = map_option fst (lookup s' (bv_objectKey bv))"
    if bv: "map_of m k = Some bv" for k bv
  proof (cases "map_of ?ds k")
    case (Some b)
    from new [OF Some] bv have "bv_objectKey bv = blobKey ?gid k (sha b)" "bv_sha256 bv = sha b"
      "bv_size bv = int (length b)" by auto
    with L [OF Some] Some show ?thesis by (simp add: blob_present_lookup blob_view_lookup)
  next
    case None
    from old [OF None] bv have del: "k \<notin> set ?del" and b0: "map_of (gs_blobs g) k = Some bv"
      by (auto simp: fold_map_delete split: if_splits)
    from b0 ok have pres: "blob_present (ev_host E) ops s ?gid k bv"
      by (auto simp: session_ok_def dest: map_of_SomeD)
    then obtain b where "bv_objectKey bv = blobKey ?gid k (sha b)" by (auto simp: blob_present_lookup)
    then have "lookup s' (bv_objectKey bv) = lookup s (bv_objectKey bv)"
      by (intro frame) (use None in auto)
    with pres None del b0 show ?thesis by (simp add: blob_present_lookup blob_view_lookup)
  qed
  have missing: "blob_view ops s g k = None" if "map_of m k = None" for k
    using that new [of k] old [of k]
    by (cases "map_of ?ds k") (auto simp: blob_view_lookup fold_map_delete split: if_splits)
  show ?thesis
  proof (rule that)
    show "writeDirtyBlobs E ops g s = (Inr ?m, s')"
      using run by (simp add: writeDirtyBlobs_def io_bind_def io_return_def)
    show "map_wf ?m" using m by (rule distinct_map_sort_by)
    show "blob_view ops s g k = Option.bind (map_of ?m k) (\<lambda>bv. map_option fst (lookup s' (bv_objectKey bv)))" for k
      using entry [of k] missing [of k] by (cases "map_of m k") (simp_all add: mo)
    show "blob_present (ev_host E) ops s' ?gid k bv" if "(k, bv) \<in> set ?m" for k bv
      using that entry [of k bv] m by simp
    show "lookup s' key = lookup s key" if "\<not> game_object ?gid key" for key
      using that by (intro frame) auto
    show "keeps_addressed (ev_host E) ?gid (lookup s) (lookup s')"
      unfolding keeps_addressed_def
    proof (intro allI impI)
      fix key b v
      assume Lk: "lookup s key = Some (b, v)" and a: "addressed (ev_host E) ?gid key b"
      show "\<exists>v'. lookup s' key = Some (b, v')"
      proof (cases "\<exists>k b'. map_of ?ds k = Some b' \<and> key = blobKey ?gid k (sha b')")
        case True
        then obtain k b' where d: "map_of ?ds k = Some b'" and key: "key = blobKey ?gid k (sha b')"
          by blast
        with a have "sha b' = sha b" by (auto simp: addressed_def)
        then have "b' = b" by (rule sha256_inj)
        with L [OF d] key show ?thesis by simp
      next
        case False
        then have "lookup s' key = lookup s key" by (intro frame) blast
        with Lk show ?thesis by simp
      qed
    qed
  qed
qed

lemma writeStateRef_run:
  obtains r s' where "writeStateRef E ops g s = (Inr r, s')"
    "sr_kind r = InlineRef \<and> sr_bytesBase64 r = Some (b64_encode (gs_state g)) \<and> sr_objectKey r = None \<and> s' = s
     \<or> sr_kind r = ObjectRef \<and> sr_objectKey r = Some (stateObjectKey (gs_gameId g) (sha (gs_state g)))
       \<and> lookup s' = (lookup s)(stateObjectKey (gs_gameId g) (sha (gs_state g)) \<mapsto>
             (gs_state g, version_of (gs_state g)))"
proof (cases "int (length (gs_state g)) \<le> gs_inlineStateMaxBytes g")
  case True
  then show ?thesis using that by (simp add: writeStateRef_def io_return_def inlineStateRef_def)
next
  case False
  let ?key = "stateObjectKey (gs_gameId g) (sha (gs_state g))"
  obtain s' where "io_put ops ?key (gs_state g) None s = (Inr (version_of (gs_state g)), s')"
    "lookup s' = (lookup s)(?key \<mapsto> (gs_state g, version_of (gs_state g)))" by (rule io_put_None)
  with False show ?thesis
    using that by (simp add: writeStateRef_def io_return_def io_bind_def objectStateRef_def Let_def)
qed

text \<open>
  What a flush has written by the time its root is committed: the root under the game's
  root key (and under its history key), every object it refers to, nothing else but
  content-addressed objects of the game.
\<close>

definition prepared :: "GameStateSession \<Rightarrow> 's \<Rightarrow> StateRoot \<Rightarrow> 's \<Rightarrow> bool" where
  "prepared g s root s1 \<longleftrightarrow>
     lookup s1 (rootKey (gs_gameId g)) = Some (encodeRoot root, version_of (encodeRoot root))
     \<and> stored_root (lookup s1) root (gs_state g) (blob_view ops s g)
     \<and> rt_gameId root = gs_gameId g \<and> rt_checkpointSeq root = gs_checkpointSeq g + 1
     \<and> rt_rootId root = ev_rootId E \<and> rt_historyObjectKey root = flush_history_key g root
     \<and> rt_parent root = (if shouldRetainHistory g
          then coalesce (Option.bind (gs_root g) rt_historyObjectKey) (gs_rootObjectKey g) else None)
     \<and> (\<forall>key \<in> set (referencedObjects root). game_object (gs_gameId g) key
          \<and> (\<exists>b v. lookup s1 key = Some (b, v) \<and> addressed (ev_host E) (gs_gameId g) key b))
     \<and> (\<forall>(k, bv) \<in> set (rt_blobManifest root). blob_present (ev_host E) ops s1 (gs_gameId g) k bv)
     \<and> (\<forall>h. rt_historyObjectKey root = Some h \<longrightarrow> (\<exists>v. lookup s1 h = Some (encodeRoot root, v)))
     \<and> (\<forall>key. \<not> game_object (gs_gameId g) key \<longrightarrow> key \<noteq> rootKey (gs_gameId g)
          \<longrightarrow> rt_historyObjectKey root \<noteq> Some key \<longrightarrow> lookup s1 key = lookup s key)
     \<and> keeps_addressed (ev_host E) (gs_gameId g) (lookup s) (lookup s1)"

lemma preparedD:
  assumes "prepared g s root s1"
  shows "lookup s1 (rootKey (gs_gameId g)) = Some (encodeRoot root, version_of (encodeRoot root))"
    and "rt_gameId root = gs_gameId g"
    and "stored_root (lookup s1) root (gs_state g) (blob_view ops s g)"
    and "rt_checkpointSeq root = gs_checkpointSeq g + 1"
  using assms by (simp_all add: prepared_def)

lemma stored_root_buildRoot:
  assumes "map_wf m"
    and "\<And>k. view k = Option.bind (map_of m k) (\<lambda>bv. map_option fst (L (bv_objectKey bv)))"
    and "\<And>k bv. (k, bv) \<in> set m \<Longrightarrow> L (bv_objectKey bv) \<noteq> None"
    and "sr_kind r = InlineRef \<and> sr_bytesBase64 r = Some (b64_encode st)
      \<or> sr_kind r = ObjectRef \<and> (\<exists>h v. sr_objectKey r = Some (stateObjectKey gid h)
          \<and> L (stateObjectKey gid h) = Some (st, v))"
  shows "stored_root L ((buildRoot E g r m)\<lparr>rt_historyObjectKey := h\<rparr>) st view"
  using assms unfolding stored_root_def buildRoot_def by (auto simp: truthy_Some)

lemma referenced_buildRoot:
  assumes "\<And>k bv. (k, bv) \<in> set m \<Longrightarrow> P (bv_objectKey bv)"
    and "\<And>k. sr_objectKey r = Some k \<Longrightarrow> P k"
    and "key \<in> set (referencedObjects ((buildRoot E g r m)\<lparr>rt_historyObjectKey := h\<rparr>))"
  shows "P key"
  using assms by (auto simp: set_referencedObjects buildRoot_def truthy_Some split: option.splits)

text \<open>The blobs and the state are written; what remains are the puts of the root.\<close>

lemma flush_objects_run:
  assumes ok: "session_ok (ev_host E) ops s g"
  obtains m r s2 where "flush_prepare E ops g s =
     (let root = buildRoot E g r m; h = flush_history_key g root; c = root\<lparr>rt_historyObjectKey := h\<rparr>
      in io_bind (case h of None \<Rightarrow> io_return ()
           | Some h \<Rightarrow> io_bind (io_put ops h (encodeRoot c) None) (\<lambda>_. io_return ())) (\<lambda>_.
          io_bind (io_put ops (rootKey (gs_gameId g)) (encodeRoot c) (gs_rootVersion g))
            (\<lambda>v. io_return (c, v))) s2)"
    "\<And>h. stored_root (lookup s2) ((buildRoot E g r m)\<lparr>rt_historyObjectKey := h\<rparr>) (gs_state g) (blob_view ops s g)"
    "\<And>h key. key \<in> set (referencedObjects ((buildRoot E g r m)\<lparr>rt_historyObjectKey := h\<rparr>))
        \<Longrightarrow> game_object (gs_gameId g) key
          \<and> (\<exists>b v. lookup s2 key = Some (b, v) \<and> addressed (ev_host E) (gs_gameId g) key b)"
    "\<And>k bv. (k, bv) \<in> set m \<Longrightarrow> blob_present (ev_host E) ops s2 (gs_gameId g) k bv"
    "\<And>key. \<not> game_object (gs_gameId g) key \<Longrightarrow> lookup s2 key = lookup s key"
    "keeps_addressed (ev_host E) (gs_gameId g) (lookup s) (lookup s2)"
proof -
  let ?gid = "gs_gameId g"
  let ?skey = "stateObjectKey ?gid (sha (gs_state g))"
  obtain m s1 where b: "writeDirtyBlobs E ops g s = (Inr m, s1)" "map_wf m"
    "\<And>k. blob_view ops s g k = Option.bind (map_of m k) (\<lambda>bv. map_option fst (lookup s1 (bv_objectKey bv)))"
    "\<And>k bv. (k, bv) \<in> set m \<Longrightarrow> blob_present (ev_host E) ops s1 ?gid k bv"
    "\<And>key. \<not> game_object ?gid key \<Longrightarrow> lookup s1 key = lookup s key"
    "keeps_addressed (ev_host E) ?gid (lookup s) (lookup s1)"
    by (rule writeDirtyBlobs_run [OF ok]) blast
  obtain r s2 where r: "writeStateRef E ops g s1 = (Inr r, s2)"
    and cases: "sr_kind r = InlineRef \<and> sr_bytesBase64 r = Some (b64_encode (gs_state g))
        \<and> sr_objectKey r = None \<and> s2 = s1
     \<or> sr_kind r = ObjectRef \<and> sr_objectKey r = Some ?skey
       \<and> lookup s2 = (lookup s1)(?skey \<mapsto> (gs_state g, version_of (gs_state g)))"
    by (rule writeStateRef_run)
  have L2: "lookup s2 key = lookup s1 key" if "key \<noteq> ?skey" for key
    using cases that by auto
  have pres: "blob_present (ev_host E) ops s2 ?gid k bv
      \<and> lookup s2 (bv_objectKey bv) = lookup s1 (bv_objectKey bv)" if "(k, bv) \<in> set m" for k bv
    using b(4) [OF that] L2 by (auto simp: blob_present_lookup)
  have keep: "keeps_addressed (ev_host E) ?gid (lookup s1) (lookup s2)"
    using cases by (auto simp: keeps_addressed_def addressed_def dest: sha256_inj)
  show ?thesis
  proof (rule that [of r m s2])
    show "flush_prepare E ops g s =
     (let root = buildRoot E g r m; h = flush_history_key g root; c = root\<lparr>rt_historyObjectKey := h\<rparr>
      in io_bind (case h of None \<Rightarrow> io_return ()
           | Some h \<Rightarrow> io_bind (io_put ops h (encodeRoot c) None) (\<lambda>_. io_return ())) (\<lambda>_.
          io_bind (io_put ops (rootKey (gs_gameId g)) (encodeRoot c) (gs_rootVersion g))
            (\<lambda>v. io_return (c, v))) s2)"
      using b(1) r by (simp add: flush_prepare_def io_bind_def Let_def)
    have "blob_view ops s g k = Option.bind (map_of m k) (\<lambda>bv. map_option fst (lookup s2 (bv_objectKey bv)))" for k
      using b(3) [of k] pres by (cases "map_of m k") (auto dest: map_of_SomeD)
    moreover have "lookup s2 (bv_objectKey bv) \<noteq> None" if "(k, bv) \<in> set m" for k bv
      using pres [OF that] by (auto simp: blob_present_lookup)
    ultimately show "stored_root (lookup s2) ((buildRoot E g r m)\<lparr>rt_historyObjectKey := h\<rparr>)
        (gs_state g) (blob_view ops s g)" for h
      by (intro stored_root_buildRoot [where gid = ?gid]) (use b(2) cases in auto)
    show "game_object ?gid key
        \<and> (\<exists>b v. lookup s2 key = Some (b, v) \<and> addressed (ev_host E) ?gid key b)" (is "?P key")
      if "key \<in> set (referencedObjects ((buildRoot E g r m)\<lparr>rt_historyObjectKey := h\<rparr>))" for h key
    proof (rule referenced_buildRoot [where P = ?P, OF _ _ that])
      show "?P (bv_objectKey bv)" if "(k, bv) \<in> set m" for k bv
        using pres [OF that] by (auto simp: blob_present_lookup addressed_def)
      show "?P k" if "sr_objectKey r = Some k" for k
        using that cases by (auto simp: addressed_def)
    qed
    show "lookup s2 key = lookup s key" if "\<not> game_object ?gid key" for key
    proof -
      have "key \<noteq> ?skey" using that by auto
      then show ?thesis using L2 b(5) [OF that] by simp
    qed
    show "keeps_addressed (ev_host E) ?gid (lookup s) (lookup s2)" using b(6) keep by (rule keeps_addressed_trans)
  qed (use pres in blast)
qed

lemma flush_prepare_cases:
  assumes ok: "session_ok (ev_host E) ops s g"
  obtains (committed) root s1 where
      "flush_prepare E ops g s = (Inr (root, version_of (encodeRoot root)), s1)"
      "prepared g s root s1"
      "gs_rootVersion g = None \<or> map_option snd (lookup s (rootKey (gs_gameId g))) = gs_rootVersion g"
  | (conflict) s1 where
      "flush_prepare E ops g s = (Inl (StoreErr (ConditionalPutConflict (rootKey (gs_gameId g)))), s1)"
      "lookup s1 (rootKey (gs_gameId g)) = lookup s (rootKey (gs_gameId g))"
      "gs_rootVersion g \<noteq> None"
      "map_option snd (lookup s (rootKey (gs_gameId g))) \<noteq> gs_rootVersion g"
proof -
  let ?gid = "gs_gameId g"
  obtain m r s2 where run: "flush_prepare E ops g s =
     (let root = buildRoot E g r m; h = flush_history_key g root; c = root\<lparr>rt_historyObjectKey := h\<rparr>
      in io_bind (case h of None \<Rightarrow> io_return ()
           | Some h \<Rightarrow> io_bind (io_put ops h (encodeRoot c) None) (\<lambda>_. io_return ())) (\<lambda>_.
          io_bind (io_put ops (rootKey ?gid) (encodeRoot c) (gs_rootVersion g))
            (\<lambda>v. io_return (c, v))) s2)"
    and st: "\<And>h. stored_root (lookup s2) ((buildRoot E g r m)\<lparr>rt_historyObjectKey := h\<rparr>) (gs_state g) (blob_view ops s g)"
    and refs: "\<And>h key. key \<in> set (referencedObjects ((buildRoot E g r m)\<lparr>rt_historyObjectKey := h\<rparr>)) \<Longrightarrow>
        game_object ?gid key \<and> (\<exists>b v. lookup s2 key = Some (b, v) \<and> addressed (ev_host E) ?gid key b)"
    and pres: "\<And>k bv. (k, bv) \<in> set m \<Longrightarrow> blob_present (ev_host E) ops s2 ?gid k bv"
    and frame: "\<And>key. \<not> game_object ?gid key \<Longrightarrow> lookup s2 key = lookup s key"
    and keep: "keeps_addressed (ev_host E) ?gid (lookup s) (lookup s2)"
    by (rule flush_objects_run [OF ok]) blast
  define root0 where "root0 = buildRoot E g r m"
  define h where "h = flush_history_key g root0"
  define root where "root = root0\<lparr>rt_historyObjectKey := h\<rparr>"
  have hist_key: "h = None \<or> (\<exists>n i. h = Some (checkpointRootKey ?gid n i))"
    by (auto simp: h_def flush_history_key_def)
  obtain s3 where s3: "(case h of None \<Rightarrow> io_return ()
      | Some h \<Rightarrow> io_bind (io_put ops h (encodeRoot root) None) (\<lambda>_. io_return ())) s2 = (Inr (), s3)"
    and L3: "lookup s3 = (case h of None \<Rightarrow> lookup s2
        | Some k \<Rightarrow> (lookup s2)(k \<mapsto> (encodeRoot root, version_of (encodeRoot root))))"
  proof (cases h)
    case None
    then show ?thesis using that by (simp add: io_return_def)
  next
    case (Some k)
    obtain s' where "io_put ops k (encodeRoot root) None s2 = (Inr (version_of (encodeRoot root)), s')"
      "lookup s' = (lookup s2)(k \<mapsto> (encodeRoot root, version_of (encodeRoot root)))"
      by (rule io_put_None)
    with Some show ?thesis using that by (simp add: io_return_def io_bind_def)
  qed
  have head3: "lookup s3 (rootKey ?gid) = lookup s (rootKey ?gid)"
    using L3 hist_key frame [of "rootKey ?gid"] by auto
  have run': "flush_prepare E ops g s =
      io_bind (io_put ops (rootKey ?gid) (encodeRoot root) (gs_rootVersion g)) (\<lambda>v. io_return (root, v)) s3"
    unfolding run Let_def root0_def [symmetric] h_def [symmetric] root_def [symmetric]
    by (rule io_bind_Inr) (rule s3)
  show ?thesis
  proof (rule io_put_cases [of "rootKey ?gid" "encodeRoot root" "gs_rootVersion g" s3])
    fix s1
    assume put: "io_put ops (rootKey ?gid) (encodeRoot root) (gs_rootVersion g) s3
        = (Inr (version_of (encodeRoot root)), s1)"
      and L1: "lookup s1 = (lookup s3)(rootKey ?gid \<mapsto> (encodeRoot root, version_of (encodeRoot root)))"
      and cond: "gs_rootVersion g = None \<or> map_option snd (lookup s3 (rootKey ?gid)) = gs_rootVersion g"
    have obj: "lookup s1 key = lookup s2 key" if "game_object ?gid key" for key
      using that L1 L3 hist_key by (auto split: option.splits)
    have "stored_root (lookup s1) root (gs_state g) (blob_view ops s g)"
      using st [of h] refs [of _ h] obj by (auto simp: root_def root0_def intro: stored_root_cong)
    moreover have "blob_present (ev_host E) ops s1 ?gid k bv" if "(k, bv) \<in> set m" for k bv
      using pres [OF that] obj by (auto simp: blob_present_lookup)
    moreover have "keeps_addressed (ev_host E) ?gid (lookup s) (lookup s1)"
      using keep obj by (fastforce simp: keeps_addressed_def addressed_def)
    moreover have "lookup s1 key = lookup s key"
      if "\<not> game_object ?gid key" "key \<noteq> rootKey ?gid" "h \<noteq> Some key" for key
      using that L1 L3 frame [of key] by (auto split: option.splits)
    moreover have "\<exists>v. lookup s1 k = Some (encodeRoot root, v)" if "h = Some k" for k
      using that L1 L3 hist_key by auto
    ultimately have "prepared g s root s1"
      using L1 refs [of _ h] obj
      by (auto simp: prepared_def root_def root0_def h_def buildRoot_def flush_history_key_def)
    then show ?thesis using committed run' put cond head3 by (simp add: io_bind_def io_return_def)
  next
    assume "io_put ops (rootKey ?gid) (encodeRoot root) (gs_rootVersion g) s3
        = (Inl (StoreErr (ConditionalPutConflict (rootKey ?gid))), s3)" "gs_rootVersion g \<noteq> None"
      "map_option snd (lookup s3 (rootKey ?gid)) \<noteq> gs_rootVersion g"
    then show ?thesis using conflict run' head3 by (simp add: io_bind_def)
  qed
qed

end

subsection \<open>Clean-up\<close>

text \<open>The walk over the retained checkpoints only adds to the protected objects.\<close>

lemma prune_walk_mono:
  assumes "prune_walk E ops s retain root k i prot pr = Some res"
  shows "\<forall>p q. res = Inr (p, q) \<longrightarrow> set prot \<subseteq> set p"
proof (rule prune_walk.raw_induct [OF _ assms])
  fix f E ops s retain root k i prot pr res
  assume IH: "\<And>E ops s retain root k i prot pr res.
      f E ops s retain root k i prot pr = Some res \<Longrightarrow> \<forall>p q. res = Inr (p, q) \<longrightarrow> set prot \<subseteq> set p"
    and eq: "(let protected' = if i < retain then fold set_add (referencedObjects root) (set_add k prot) else prot;
          prune' = if i < retain then pr else pr @ [(root, k)]
      in case truthy (rt_parent root) of
        None \<Rightarrow> Some (Inr (protected', prune'))
      | Some p \<Rightarrow>
         (case obj_get ops s p of
            Inl e \<Rightarrow> Some (Inl e)
          | Inr None \<Rightarrow> Some (Inr (protected', prune'))
          | Inr (Some (b, v)) \<Rightarrow>
             (case decodeRoot (ev_host E) (ev_freshId E) b of
                Inl e \<Rightarrow> Some (Inl e)
              | Inr parent \<Rightarrow> f E ops s retain parent p (i + 1) protected' prune'))) = Some res"
  show "\<forall>p q. res = Inr (p, q) \<longrightarrow> set prot \<subseteq> set p"
    using eq by (auto simp: Let_def set_foldr_set_add split: option.splits sum.splits if_splits dest!: IH; blast)
qed

lemma prune_walk_protects:
  assumes "prune_walk E ops s retain root k i prot pr = Some (Inr (p, q))" and "i < retain"
  shows "insert k (set prot) \<union> set (referencedObjects root) \<subseteq> set p"
proof -
  let ?prot = "fold set_add (referencedObjects root) (set_add k prot)"
  have "set ?prot \<subseteq> set p"
    using assms by (subst (asm) prune_walk.simps)
      (auto simp: Let_def split: option.splits sum.splits dest!: prune_walk_mono; blast)
  then show ?thesis by (auto simp: set_foldr_set_add)
qed

context state_env
begin

lemma deleteSuperseded_run:
  obtains s' where "deleteSupersededObjects ops prev root s = (Inr (), s')"
    "\<And>key. key \<in> set (referencedObjects root) \<or> prev = None
        \<or> key \<notin> set (referencedObjects (the prev)) \<Longrightarrow> lookup s' key = lookup s key"
proof (cases prev)
  case None
  then show ?thesis using that by (simp add: deleteSupersededObjects_def io_return_def)
next
  case (Some p)
  obtain s' where "io_delete_all ops (filter (\<lambda>k. k \<notin> set (referencedObjects root)) (referencedObjects p)) s
      = (Inr (), s')"
    "lookup s' = (\<lambda>k. if k \<in> set (filter (\<lambda>k. k \<notin> set (referencedObjects root)) (referencedObjects p))
        then None else lookup s k)"
    by (rule io_delete_all_run)
  with Some show ?thesis by (intro that [of s']) (auto simp: deleteSupersededObjects_def)
qed

lemma prune_run:
  assumes "gs_root g = Some root"
    and "key = rootKey (gs_gameId g) \<or> rt_historyObjectKey root = Some key
      \<or> key \<in> set (referencedObjects root)"
    and run: "pruneRetainedCheckpoints E ops g s = (r, s')"
  shows "lookup s' key = lookup s key"
proof (cases "gs_enableTimeTravel g \<or> gs_retainCheckpoints g \<le> 0 \<or> truthy (rt_historyObjectKey root) = None")
  case True
  then show ?thesis using assms by (auto simp: pruneRetainedCheckpoints_def split: if_splits)
next
  case False
  then obtain h where h: "truthy (rt_historyObjectKey root) = Some h"
    and pos: "0 < gs_retainCheckpoints g" by auto
  let ?walk = "prune_walk E ops s (gs_retainCheckpoints g) root h 0 [rootKey (gs_gameId g)] []"
  show ?thesis
  proof (cases "of_loop ?walk")
    case (Inl e)
    then show ?thesis using assms False h by (auto simp: pruneRetainedCheckpoints_def)
  next
    case (Inr pq)
    then obtain p q where pq: "of_loop ?walk = Inr (p, q)" by (cases pq) auto
    then have "?walk = Some (Inr (p, q))" by (auto simp: of_loop_def split: option.splits)
    then have prot: "insert h {rootKey (gs_gameId g)} \<union> set (referencedObjects root) \<subseteq> set p"
      using prune_walk_protects [OF _ pos] by fastforce
    obtain s2 where "io_delete_all ops (prune_deletes p q) s = (Inr (), s2)"
      "lookup s2 = (\<lambda>k. if k \<in> set (prune_deletes p q) then None else lookup s k)"
      by (rule io_delete_all_run)
    moreover have "key \<in> set p" using assms(2) prot h by (auto simp: truthy_Some)
    ultimately show ?thesis
      using assms False h pq by (auto simp: pruneRetainedCheckpoints_def prune_deletes_def)
  qed
qed

lemma flush_commit_fields [simp]:
  "gs_gameId (flush_commit root v g) = gs_gameId g" "gs_root (flush_commit root v g) = Some root"
  "gs_state (flush_commit root v g) = gs_state g"
  "gs_rootVersion (flush_commit root v g) = Some v"
  "gs_checkpointSeq (flush_commit root v g) = rt_checkpointSeq root"
  "shouldRetainHistory (flush_commit root v g) = shouldRetainHistory g"
  "gs_dirtyBlobs (flush_commit root v g) = []" "gs_deletedBlobs (flush_commit root v g) = []"
  "\<not> isDirty (flush_commit root v g)"
  by (simp_all add: flush_commit_def shouldRetainHistory_def isDirty_def)

lemma flush_cleanup_frame:
  assumes ok: "session_ok (ev_host E) ops s g" and prep: "prepared g s root s1"
    and run: "flush_cleanup E ops (gs_root g) root (flush_commit root v g) s1 = (r, s2)"
    and key: "key = rootKey (gs_gameId g) \<or> rt_historyObjectKey root = Some key
      \<or> key \<in> set (referencedObjects root)"
  shows "lookup s2 key = lookup s1 key"
proof (cases "shouldRetainHistory g")
  case True
  then show ?thesis
    using run key prune_run [of "flush_commit root v g" root key s1 r s2]
    by (simp add: flush_cleanup_def io_bind_def io_return_def)
next
  case False
  obtain s' where del: "deleteSupersededObjects ops (gs_root g) root s1 = (Inr (), s')"
    and L: "\<And>key. key \<in> set (referencedObjects root) \<or> gs_root g = None
        \<or> key \<notin> set (referencedObjects (the (gs_root g))) \<Longrightarrow> lookup s' key = lookup s1 key"
    by (rule deleteSuperseded_run) blast
  have "rt_historyObjectKey root = None"
    using prep False by (simp add: prepared_def flush_history_key_def)
  then have "key = rootKey (gs_gameId g) \<or> key \<in> set (referencedObjects root)" using key by simp
  then have "lookup s' key = lookup s1 key"
    using L [of key] ok by (fastforce simp: session_ok_def split: option.splits)
  moreover have "lookup s2 key = lookup s' key"
    using run False del key prune_run [of "flush_commit root v g" root key s' r s2]
    by (simp add: flush_cleanup_def io_bind_def)
  ultimately show ?thesis by simp
qed

subsection \<open>Durability and fencing\<close>

lemma materialize_stored:
  assumes "lookup s (rootKey gid) = Some (encodeRoot root, v)" and "rt_gameId root = gid"
    and "stored_root (lookup s) root st view"
  obtains m where "materialize E ops s gid = Inr m" "mt_state m = st" "mt_root m = Some root"
    "mt_checkpointSeq m = rt_checkpointSeq root" "mt_blobs m = rt_blobManifest root"
    "mt_rootVersion m = Some v" "mt_gameId m = gid"
proof -
  have "readStateBytes ops s root = Inr st"
    using assms(3) by (auto simp: stored_root_def readStateBytes_def Let_def b64_roundtrip split: if_splits)
  then show ?thesis
    using assms that by (simp add: materialize_def decodeRoot_encodeRoot materializeRoot_def)
qed

lemma view_of_manifest:
  assumes "stored_root (lookup s) root st view" and "gs_blobs g = rt_blobManifest root"
    and "gs_dirtyBlobs g = []" and "gs_deletedBlobs g = []"
  shows "blob_view ops s g = view"
  using assms by (auto simp: blob_view_lookup stored_root_def fun_eq_iff)

lemma flush_inv:
  assumes "flush E ops g s = (r, g', s')" and "session_ok (ev_host E) ops s g" and "isDirty g"
  obtains (committed) root s1 where "prepared g s root s1"
      "g' = flush_commit root (version_of (encodeRoot root)) g"
      "r = Inr (Some root) \<or> (\<exists>e. r = Inl e)"
      "\<exists>x. flush_cleanup E ops (gs_root g) root g' s1 = (x, s')"
      "gs_rootVersion g = None \<or> map_option snd (lookup s (rootKey (gs_gameId g))) = gs_rootVersion g"
  | (conflict) "r = Inl (StoreErr (ConditionalPutConflict (rootKey (gs_gameId g))))" "g' = g"
      "lookup s' (rootKey (gs_gameId g)) = lookup s (rootKey (gs_gameId g))"
      "gs_rootVersion g \<noteq> None"
      "map_option snd (lookup s (rootKey (gs_gameId g))) \<noteq> gs_rootVersion g"
proof (rule flush_prepare_cases [OF assms(2)])
  fix root s1
  assume p: "flush_prepare E ops g s = (Inr (root, version_of (encodeRoot root)), s1)"
    "prepared g s root s1"
    "gs_rootVersion g = None \<or> map_option snd (lookup s (rootKey (gs_gameId g))) = gs_rootVersion g"
  let ?g1 = "flush_commit root (version_of (encodeRoot root)) g"
  obtain x s2 where c: "flush_cleanup E ops (gs_root g) root ?g1 s1 = (x, s2)" by fastforce
  show ?thesis
  proof (rule committed [OF p(2) _ _ _ p(3)])
    show "g' = ?g1" "r = Inr (Some root) \<or> (\<exists>e. r = Inl e)"
      "\<exists>x. flush_cleanup E ops (gs_root g) root g' s1 = (x, s')"
      using assms(1,3) p(1) c by (auto simp: flush_def Let_def split: sum.splits)
  qed
next
  fix s1
  assume c: "flush_prepare E ops g s = (Inl (StoreErr (ConditionalPutConflict (rootKey (gs_gameId g)))), s1)"
      "lookup s1 (rootKey (gs_gameId g)) = lookup s (rootKey (gs_gameId g))"
      "gs_rootVersion g \<noteq> None"
      "map_option snd (lookup s (rootKey (gs_gameId g))) \<noteq> gs_rootVersion g"
  have "r = Inl (StoreErr (ConditionalPutConflict (rootKey (gs_gameId g))))" "g' = g" "s' = s1"
    using assms(1,3) c(1) by (auto simp: flush_def)
  with c(2-4) show ?thesis by (intro conflict) simp_all
qed

text \<open>
  Once the root is committed, the game's root key holds it and the root is readable,
  whatever the clean-up does; the session is clean and well-formed again.
\<close>

lemma flush_committed:
  assumes ok: "session_ok (ev_host E) ops s g" and prep: "prepared g s root s1"
    and g': "g' = flush_commit root (version_of (encodeRoot root)) g"
    and run: "flush_cleanup E ops (gs_root g) root g' s1 = (x, s')"
  shows "lookup s' (rootKey (gs_gameId g)) = Some (encodeRoot root, version_of (encodeRoot root))"
    and "stored_root (lookup s') root (gs_state g) (blob_view ops s g)"
    and "session_ok (ev_host E) ops s' g'"
    and "blob_view ops s' g' = blob_view ops s g"
proof -
  note frame = flush_cleanup_frame [OF ok prep run [unfolded g']]
  show head: "lookup s' (rootKey (gs_gameId g)) = Some (encodeRoot root, version_of (encodeRoot root))"
    using frame [of "rootKey (gs_gameId g)"] prep by (simp add: prepared_def)
  show st: "stored_root (lookup s') root (gs_state g) (blob_view ops s g)"
  proof (rule stored_root_cong)
    show "stored_root (lookup s1) root (gs_state g) (blob_view ops s g)"
      using prep by (simp add: prepared_def)
  qed (simp add: frame)
  have wf: "map_wf (rt_blobManifest root)" using st by (simp add: stored_root_def)
  then have blobs: "gs_blobs g' = rt_blobManifest root" by (simp add: g' flush_commit_def)
  have "blob_present (ev_host E) ops s' (gs_gameId g) k bv"
    if "(k, bv) \<in> set (rt_blobManifest root)" for k bv
  proof -
    have "lookup s' (bv_objectKey bv) = lookup s1 (bv_objectKey bv)"
      by (rule frame) (use that in \<open>force simp: set_referencedObjects\<close>)
    then show ?thesis using prep that by (auto simp: prepared_def blob_present_lookup)
  qed
  then show "session_ok (ev_host E) ops s' g'"
    using prep blobs wf by (auto simp: session_ok_def maps_ok_def g' prepared_def)
  show "blob_view ops s' g' = blob_view ops s g"
    by (rule view_of_manifest [OF st blobs]) (simp_all add: g')
qed

lemma flush_durable:
  assumes ok: "session_ok (ev_host E) ops s g"
    and run: "flush E ops g s = (Inr (Some root), g', s')"
    and game: "sn_gameId sn = gs_gameId g"
  shows "\<exists>g''. openSession E so ops s' sn = Inr g''
      \<and> session_view ops s' g'' = session_view ops s g
      \<and> gs_checkpointSeq g'' = gs_checkpointSeq g + 1 \<and> gs_root g'' = Some root"
    and "session_view ops s' g' = session_view ops s g"
    and "session_ok (ev_host E) ops s' g'" and "\<not> isDirty g'"
proof -
  have dirty: "isDirty g" using run by (auto simp: flush_def split: if_splits)
  obtain root' s1 x where prep: "prepared g s root' s1"
    and g': "g' = flush_commit root' (version_of (encodeRoot root')) g"
    and root: "root' = root"
    and clean: "flush_cleanup E ops (gs_root g) root' g' s1 = (x, s')"
  proof (rule flush_inv [OF run ok dirty])
    fix root' s1
    assume "prepared g s root' s1" "g' = flush_commit root' (version_of (encodeRoot root')) g"
      "Inr (Some root) = Inr (Some root') \<or> (\<exists>e. Inr (Some root) = Inl e)"
      "\<exists>x. flush_cleanup E ops (gs_root g) root' g' s1 = (x, s')"
    then show ?thesis using that by auto
  qed simp
  note c = flush_committed [OF ok prep g' clean, unfolded root]
  have gid: "rt_gameId root = gs_gameId g" and seq: "rt_checkpointSeq root = gs_checkpointSeq g + 1"
    using prep root by (simp_all add: prepared_def)
  obtain m where m: "materialize E ops s' (gs_gameId g) = Inr m" "mt_state m = gs_state g"
    "mt_root m = Some root" "mt_checkpointSeq m = rt_checkpointSeq root" "mt_blobs m = rt_blobManifest root"
    by (rule materialize_stored [OF c(1) gid c(2)])
  have "map_wf (rt_blobManifest root)" using c(2) by (simp add: stored_root_def)
  then have "blob_view ops s' (new_session so sn m) = blob_view ops s g"
    using view_of_manifest [OF c(2), of "new_session so sn m"] m(5) by (simp add: new_session_def)
  then show "\<exists>g''. openSession E so ops s' sn = Inr g''
      \<and> session_view ops s' g'' = session_view ops s g
      \<and> gs_checkpointSeq g'' = gs_checkpointSeq g + 1 \<and> gs_root g'' = Some root"
    using m seq game by (simp add: openSession_def session_view_def new_session_def)
  show "session_view ops s' g' = session_view ops s g"
    using c(4) g' by (simp add: session_view_def)
  show "session_ok (ev_host E) ops s' g'" "\<not> isDirty g'" using c(3) g' by simp_all
qed

text \<open>
  A session whose root version is no longer the head's is refused, whatever else the store
  holds, and the head stays as it is.
\<close>

lemma flush_stale:
  assumes maps: "maps_ok g" and dirty: "isDirty g" and v: "gs_rootVersion g = Some v"
    and stale: "map_option snd (lookup s (rootKey (gs_gameId g))) \<noteq> Some v"
  shows "\<exists>s'. flush E ops g s = (Inl (StoreErr (ConditionalPutConflict (rootKey (gs_gameId g)))), g, s')
    \<and> lookup s' (rootKey (gs_gameId g)) = lookup s (rootKey (gs_gameId g))"
proof -
  let ?gid = "gs_gameId g" and ?m0 = "fold map_delete (gs_deletedBlobs g) (gs_blobs g)"
  have wf: "map_wf (gs_dirtyBlobs g)" "map_wf ?m0"
    using maps by (auto simp: maps_ok_def map_wf_fold_delete)
  obtain m s1 where "write_blobs_loop E ops ?gid 0 (gs_dirtyBlobs g) ?m0 s = (Inr m, s1)"
    and L1: "lookup s1 (rootKey ?gid) = lookup s (rootKey ?gid)"
    using write_blobs_run [OF wf, of ?gid 0 s] by fastforce
  then obtain m' where b: "writeDirtyBlobs E ops g s = (Inr m', s1)"
    by (simp add: writeDirtyBlobs_def io_bind_def io_return_def)
  obtain r s2 where r: "writeStateRef E ops g s1 = (Inr r, s2)"
    and L2: "lookup s2 (rootKey ?gid) = lookup s1 (rootKey ?gid)"
    by (rule writeStateRef_run [of g s1]) fastforce
  define root0 where "root0 = buildRoot E g r m'"
  define h where "h = flush_history_key g root0"
  define root where "root = root0\<lparr>rt_historyObjectKey := h\<rparr>"
  obtain s3 where s3: "(case h of None \<Rightarrow> io_return ()
      | Some h \<Rightarrow> io_bind (io_put ops h (encodeRoot root) None) (\<lambda>_. io_return ())) s2 = (Inr (), s3)"
    and L3: "lookup s3 (rootKey ?gid) = lookup s2 (rootKey ?gid)"
  proof (cases h)
    case None
    then show ?thesis using that by (simp add: io_return_def)
  next
    case (Some k)
    obtain s' where "io_put ops k (encodeRoot root) None s2 = (Inr (version_of (encodeRoot root)), s')"
      "lookup s' = (lookup s2)(k \<mapsto> (encodeRoot root, version_of (encodeRoot root)))"
      by (rule io_put_None)
    moreover have "k \<noteq> rootKey ?gid" using Some by (auto simp: h_def flush_history_key_def split: if_splits)
    ultimately show ?thesis using Some that by (simp add: io_return_def io_bind_def)
  qed
  have conflict: "io_put ops (rootKey ?gid) (encodeRoot root) (gs_rootVersion g) s3
      = (Inl (StoreErr (ConditionalPutConflict (rootKey ?gid))), s3)"
    using stale v L1 L2 L3 put_conflict [of "Some v" s3 "rootKey ?gid"] by (simp add: io_put_def)
  have "flush_prepare E ops g s = (Inl (StoreErr (ConditionalPutConflict (rootKey ?gid))), s3)"
    unfolding flush_prepare_def io_bind_Inr [where m = "writeDirtyBlobs E ops g", OF b]
      io_bind_Inr [where m = "writeStateRef E ops g", OF r] Let_def
      root0_def [symmetric] h_def [symmetric] root_def [symmetric]
    by (subst io_bind_Inr, rule s3) (rule io_bind_Inl, rule conflict)
  then show ?thesis using dirty L1 L2 L3 by (simp add: flush_def)
qed

lemma flush_fences:
  assumes ok: "session_ok (ev_host E) ops s g"
    and root: "gs_root g = Some r0" "gs_rootVersion g = Some (version_of (encodeRoot r0))"
    and run: "flush E ops g s = (Inr (Some root1), g', s1)"
    and other: "maps_ok o1" "isDirty o1" "gs_gameId o1 = gs_gameId g"
      "gs_rootVersion o1 = gs_rootVersion g"
  shows "\<exists>s2. flush E ops o1 s1
      = (Inl (StoreErr (ConditionalPutConflict (rootKey (gs_gameId g)))), o1, s2)
    \<and> lookup s2 (rootKey (gs_gameId g)) = Some (encodeRoot root1, version_of (encodeRoot root1))"
proof -
  have dirty: "isDirty g" using run by (auto simp: flush_def split: if_splits)
  obtain s0 x where prep: "prepared g s root1 s0"
    and clean: "flush_cleanup E ops (gs_root g) root1 g' s0 = (x, s1)"
    and g': "g' = flush_commit root1 (version_of (encodeRoot root1)) g"
  proof (rule flush_inv [OF run ok dirty])
    fix root' s0
    assume "prepared g s root' s0" "g' = flush_commit root' (version_of (encodeRoot root')) g"
      "Inr (Some root1) = Inr (Some root') \<or> (\<exists>e. Inr (Some root1) = Inl e)"
      "\<exists>x. flush_cleanup E ops (gs_root g) root' g' s0 = (x, s1)"
    then show ?thesis using that by auto
  qed simp
  have head: "lookup s1 (rootKey (gs_gameId g)) = Some (encodeRoot root1, version_of (encodeRoot root1))"
    by (rule flush_committed(1) [OF ok prep g' clean])
  have "rt_checkpointSeq root1 \<noteq> rt_checkpointSeq r0"
    using prep ok root by (simp add: prepared_def session_ok_def)
  then have "version_of (encodeRoot root1) \<noteq> version_of (encodeRoot r0)"
    using version_inj encodeRoot_inject by metis
  then show ?thesis
    using flush_stale [OF other(1,2), of "version_of (encodeRoot r0)" s1] head root other by simp
qed

text \<open>Without a root version the put is unconditional: the flush goes through over any head.\<close>

lemma flush_unfenced:
  assumes ok: "session_ok (ev_host E) ops s g" and dirty: "isDirty g" and none: "gs_rootVersion g = None"
    and run: "flush E ops g s = (r, g', s')"
  shows "\<exists>root. lookup s' (rootKey (gs_gameId g)) = Some (encodeRoot root, version_of (encodeRoot root))
     \<and> rt_checkpointSeq root = gs_checkpointSeq g + 1 \<and> gs_root g' = Some root
     \<and> rt_rootId root = ev_rootId E"
proof (rule flush_inv [OF run ok dirty])
  fix root s1
  assume prep: "prepared g s root s1" and g': "g' = flush_commit root (version_of (encodeRoot root)) g"
    and "\<exists>x. flush_cleanup E ops (gs_root g) root g' s1 = (x, s')"
  then obtain x where "flush_cleanup E ops (gs_root g) root g' s1 = (x, s')" by blast
  then show ?thesis using flush_committed(1) [OF ok prep g'] prep g' by (auto simp: prepared_def)
qed (simp add: none)

text \<open>With unbounded or no history there is no walk over old roots, and the clean-up cannot fail.\<close>

lemma flush_succeeds:
  assumes ok: "session_ok (ev_host E) ops s g" and dirty: "isDirty g"
    and current: "gs_rootVersion g = map_option snd (lookup s (rootKey (gs_gameId g)))"
    and history: "gs_enableTimeTravel g \<or> gs_retainCheckpoints g \<le> 0"
  shows "\<exists>root g' s'. flush E ops g s = (Inr (Some root), g', s')"
proof -
  obtain root s1 where p: "flush_prepare E ops g s = (Inr (root, version_of (encodeRoot root)), s1)"
    by (rule flush_prepare_cases [OF ok]) (simp_all add: current)
  let ?g1 = "flush_commit root (version_of (encodeRoot root)) g"
  obtain s2 where "(if shouldRetainHistory ?g1 then io_return ()
      else deleteSupersededObjects ops (gs_root g) root) s1 = (Inr (), s2)"
    by (cases "shouldRetainHistory g") (auto simp: io_return_def intro: deleteSuperseded_run)
  moreover have "pruneRetainedCheckpoints E ops ?g1 s2 = (Inr (), s2)"
    using history by (auto simp: pruneRetainedCheckpoints_def flush_commit_def)
  ultimately have "flush_cleanup E ops (gs_root g) root ?g1 s1 = (Inr (), s2)"
    unfolding flush_cleanup_def by (subst io_bind_Inr)
  then show ?thesis using dirty p by (simp add: flush_def)
qed

text \<open>A write that arrives between the put of the root and the end of the flush.\<close>

lemma write_during_flush:
  assumes ok: "session_ok (ev_host E) ops s g"
    and prep: "flush_prepare E ops g s = (Inr (root, v), s1)"
    and g': "g' = flush_commit root v (writeState b g)"
  shows "flush E ops g' s1 = (Inr None, g', s1)" and "readState g' = b"
    and "\<exists>m. materialize E ops s1 (gs_gameId g) = Inr m \<and> mt_state m = gs_state g"
proof -
  show "flush E ops g' s1 = (Inr None, g', s1)" by (simp add: flush_def g')
  show "readState g' = b" by (simp add: readState_def g' writeState_def)
  have "prepared g s root s1"
    by (rule flush_prepare_cases [OF ok]) (use prep in auto)
  from materialize_stored [OF preparedD(1-3) [OF this]]
  show "\<exists>m. materialize E ops s1 (gs_gameId g) = Inr m \<and> mt_state m = gs_state g" by blast
qed

end

section \<open>The in-memory store\<close>

lemma mem_state_env:
  assumes "host_env (ev_host E)"
  shows "state_env (MemoryStateObjectStore (ev_host E)) mem_lookup (etag (ev_host E)) E"
proof -
  have "etag (ev_host E) b = etag (ev_host E) c \<Longrightarrow> b = c" for b c
    using host_env.sha256_inj [OF assms] by (simp add: etag_def)
  then show ?thesis
    by (intro state_env.intro state_env_axioms.intro mem.object_store_axioms assms) simp_all
qed

abbreviation mem_ops :: "env \<Rightarrow> mem_store StateObjectStore" where
  "mem_ops E \<equiv> MemoryStateObjectStore (ev_host E)"

text \<open>A concrete environment and session, for the witnesses.\<close>

definition env0 :: env where
  "env0 = \<lparr>ev_host = plain_host, ev_rootId = ''root-1'', ev_blobId = (\<lambda>i. ''blob-1''),
     ev_freshId = ''fresh'', ev_now = ''2026-01-01T00:00:00.000Z''\<rparr>"

definition options0 :: StateStoreOptions where
  "options0 = \<lparr>so_inlineStateMaxBytes = None, so_retainCheckpoints = None, so_enableTimeTravel = None\<rparr>"

definition session_options0 :: GameStateSessionOptions where
  "session_options0 = \<lparr>sn_gameId = ''g1'', sn_bundleCompatTag = None, sn_blobCompatTag = None,
     sn_enableTimeTravel = None, sn_retainCheckpoints = None\<rparr>"

definition session0 :: GameStateSession where
  "session0 = putBlob ''map'' ''blob bytes'' (writeState ''state bytes''
     (new_session options0 session_options0 (emptyMaterialized ''g1'')))"

interpretation plain_mem: state_env "mem_ops env0" mem_lookup "etag (ev_host env0)" env0
  by (rule mem_state_env) (simp add: env0_def plain_host_env)

lemma host_env0: "host_env (ev_host env0)"
  by (simp add: env0_def plain_host_env)

lemma session0_ok: "session_ok (ev_host env0) (mem_ops env0) mem_empty session0"
  by (simp add: session0_def session_ok_def maps_ok_def new_session_def emptyMaterialized_def
      putBlob_def writeState_def set_delete_def)

lemma session0_facts:
  "isDirty session0" "gs_gameId session0 = ''g1''" "gs_rootVersion session0 = None"
  "\<not> gs_enableTimeTravel session0" "gs_retainCheckpoints session0 = 0" "gs_state session0 = ''state bytes''"
  "gs_root session0 = None" "gs_checkpointSeq session0 = 0"
  by (simp_all add: session0_def isDirty_def new_session_def emptyMaterialized_def putBlob_def
      writeState_def session_options0_def options0_def)

lemma session0_flush:
  obtains root g' s' where "flush env0 (mem_ops env0) session0 mem_empty = (Inr (Some root), g', s')"
  using plain_mem.flush_succeeds [OF session0_ok] session0_facts
  by (auto simp: mem_lookup_def mem_empty_def)

end
