(* ===== verification/StateStoreHistory.thy ===== *)
theory StateStoreHistory
  imports StateStoreFlush
begin

text \<open>
  Checkpoint history. With time travel enabled every flush leaves an immutable root behind;
  \<open>chain_ok\<close> describes the resulting chain of roots together with the state and blobs each
  of them must give back, and \<open>history_reach\<close> is the reachability relation of one session that
  writes and flushes. The theory shows that the loops over the chain end, what
  \<open>viewCheckpoint\<close>, \<open>listCheckpoints\<close>, \<open>restoreCheckpoint\<close> and \<open>reapOrphans\<close> do on it, and that a
  root that is its own parent makes the unbounded loops run forever.
\<close>

section \<open>Keys of retained roots\<close>

lemma dash_split:
  "x @ CHR ''-'' # s = y @ CHR ''-'' # t \<Longrightarrow> CHR ''-'' \<notin> set x \<Longrightarrow> CHR ''-'' \<notin> set y \<Longrightarrow> x = y \<and> s = t"
proof (induction x arbitrary: y)
  case Nil
  then show ?case by (cases y) auto
next
  case (Cons a x)
  then show ?case by (cases y) auto
qed

lemma no_dash_in_digits: "CHR ''-'' \<notin> set (pad_start0 w (dec_nat n))"
proof -
  have "\<not> is_digit (CHR ''-'')" by (simp add: is_digit_def)
  then show ?thesis using dec_nat_digits [of n] by (auto simp: pad_start0_def)
qed

lemma checkpointRootKey_inject:
  assumes "checkpointRootKey g m i = checkpointRootKey g' n j" and "0 \<le> m" and "0 \<le> n"
  shows "g = g' \<and> m = n \<and> i = j"
proof -
  have g: "g = g'" and eq: "pad_start0 20 (dec_nat (nat m)) @ CHR ''-'' # i @ ''.json''
      = pad_start0 20 (dec_nat (nat n)) @ CHR ''-'' # j @ ''.json''"
    using assms by (auto simp: checkpointRootKey_def gamePrefix_inject dec_int_nonneg)
  from dash_split [OF eq no_dash_in_digits no_dash_in_digits]
  have "pad_start0 20 (dec_nat (nat m)) = pad_start0 20 (dec_nat (nat n))" "i = j" by auto
  with assms(2,3) g show ?thesis using pad_start0_dec_inject by fastforce
qed

section \<open>Loops over a root that is its own parent\<close>

lemma find_loop_self:
  assumes k: "obj_get ops s k = Inr (Some (b, v))"
    and dec: "decodeRoot (ev_host E) (ev_freshId E) b = Inr r"
    and parent: "truthy (rt_parent r) = Some k" and n: "rt_checkpointSeq r \<noteq> n"
    and c: "lr_root c = r"
  shows "find_loop E ops s n (Some c) = None"
proof (rule ccontr)
  assume "find_loop E ops s n (Some c) \<noteq> None"
  then obtain res where run: "find_loop E ops s n (Some c) = Some res" by auto
  let ?P = "\<lambda>E' ops' s' n' cur res'. \<not> (E' = E \<and> ops' = ops \<and> s' = s \<and> n' = n \<and> (\<exists>c. cur = Some c \<and> lr_root c = r))"
  have "?P E ops s n (Some c) res"
  proof (rule find_loop.raw_induct [where P = ?P, OF _ run])
    fix f E' ops' s' n' cur res'
    assume IH: "\<And>E' ops' s' n' cur res'. f E' ops' s' n' cur = Some res' \<Longrightarrow> ?P E' ops' s' n' cur res'"
      and eq: "(case cur of
        None \<Rightarrow> Some (Inr None)
      | Some c \<Rightarrow>
         if rt_checkpointSeq (lr_root c) = n' then Some (Inr (Some c))
         else (case truthy (rt_parent (lr_root c)) of
            None \<Rightarrow> Some (Inr None)
          | Some p \<Rightarrow>
             (case readRootObject E' ops' s' p of
                Inl e \<Rightarrow> Some (Inl e)
              | Inr next \<Rightarrow> f E' ops' s' n' next))) = Some res'"
    show "?P E' ops' s' n' cur res'"
    proof
      assume "E' = E \<and> ops' = ops \<and> s' = s \<and> n' = n \<and> (\<exists>c. cur = Some c \<and> lr_root c = r)"
      with eq k dec parent n
      have "f E ops s n (Some \<lparr>lr_root = r, lr_version = Some v, lr_objectKey = k\<rparr>) = Some res'"
        by (auto simp: readRootObject_def)
      from IH [OF this] show False by simp
    qed
  qed
  then show False using c by simp
qed

lemma prune_walk_self:
  assumes k: "obj_get ops s k = Inr (Some (b, v))"
    and dec: "decodeRoot (ev_host E) (ev_freshId E) b = Inr r"
    and parent: "truthy (rt_parent r) = Some k"
  shows "prune_walk E ops s retain r h i prot pr = None"
proof (rule ccontr)
  assume "prune_walk E ops s retain r h i prot pr \<noteq> None"
  then obtain res where run: "prune_walk E ops s retain r h i prot pr = Some res" by auto
  let ?P = "\<lambda>E' ops' s' (retain'::int) r' (h'::string) (i'::int) (prot'::js_set) (pr'::(StateRoot \<times> string) list) res'.
      \<not> (E' = E \<and> ops' = ops \<and> s' = s \<and> r' = r)"
  have "?P E ops s retain r h i prot pr res"
  proof (rule prune_walk.raw_induct [where P = ?P, OF _ run])
    fix f E' ops' s' retain' r' h' i' prot' pr' res'
    assume IH: "\<And>E' ops' s' retain' r' h' i' prot' pr' res'.
        f E' ops' s' retain' r' h' i' prot' pr' = Some res' \<Longrightarrow> ?P E' ops' s' retain' r' h' i' prot' pr' res'"
      and eq: "(let protected' = if i' < retain' then fold set_add (referencedObjects r') (set_add h' prot') else prot';
          prune' = if i' < retain' then pr' else pr' @ [(r', h')]
      in case truthy (rt_parent r') of
        None \<Rightarrow> Some (Inr (protected', prune'))
      | Some p \<Rightarrow>
         (case obj_get ops' s' p of
            Inl e \<Rightarrow> Some (Inl e)
          | Inr None \<Rightarrow> Some (Inr (protected', prune'))
          | Inr (Some (b, v)) \<Rightarrow>
             (case decodeRoot (ev_host E') (ev_freshId E') b of
                Inl e \<Rightarrow> Some (Inl e)
              | Inr parent \<Rightarrow> f E' ops' s' retain' parent p (i' + 1) protected' prune'))) = Some res'"
    show "?P E' ops' s' retain' r' h' i' prot' pr' res'"
    proof
      assume "E' = E \<and> ops' = ops \<and> s' = s \<and> r' = r"
      with eq k dec parent obtain q1 q2 where "f E ops s retain' r k (i' + 1) q1 q2 = Some res'"
        by (auto simp: Let_def)
      from IH [OF this] show False by simp
    qed
  qed
  then show False by simp
qed

section \<open>Chains of retained roots\<close>

type_synonym history = "(StateRoot \<times> bytes \<times> (string \<Rightarrow> bytes option)) list"

text \<open>
  \<open>chain_ok H L gid log\<close>: the contents \<open>L\<close> hold the roots of \<open>log\<close> (newest first) under their
  history keys, linked by their parents and numbered from 1, each with its state and blobs.
\<close>

fun chain_ok :: "host \<Rightarrow> (string \<Rightarrow> (bytes \<times> string) option) \<Rightarrow> string \<Rightarrow> history \<Rightarrow> bool" where
  "chain_ok H L gid [] = True"
| "chain_ok H L gid ((root, st, view) # rest) \<longleftrightarrow>
     rt_gameId root = gid \<and> rt_checkpointSeq root = 1 + int (length rest)
     \<and> rt_historyObjectKey root = Some (checkpointRootKey gid (rt_checkpointSeq root) (rt_rootId root))
     \<and> (\<exists>v. L (checkpointRootKey gid (rt_checkpointSeq root) (rt_rootId root)) = Some (encodeRoot root, v))
     \<and> rt_parent root = (case rest of [] \<Rightarrow> None | (r, _) # _ \<Rightarrow> rt_historyObjectKey r)
     \<and> stored_root L root st view
     \<and> (\<forall>key \<in> set (referencedObjects root). game_object gid key
          \<and> (\<exists>b v. L key = Some (b, v) \<and> addressed H gid key b))
     \<and> chain_ok H L gid rest"

lemma stored_root_bodies:
  assumes "stored_root L root st view"
    and "\<And>key b v. key \<in> set (referencedObjects root) \<Longrightarrow> L key = Some (b, v) \<Longrightarrow> \<exists>v'. L' key = Some (b, v')"
  shows "stored_root L' root st view"
proof -
  have "map_option fst (L' (bv_objectKey bv)) = map_option fst (L (bv_objectKey bv)) \<and> L' (bv_objectKey bv) \<noteq> None"
    if bv: "(k, bv) \<in> set (rt_blobManifest root)" for k bv
  proof -
    have "bv_objectKey bv \<in> set (referencedObjects root)" using bv by (force simp: set_referencedObjects)
    moreover have "L (bv_objectKey bv) \<noteq> None" using assms(1) bv by (auto simp: stored_root_def)
    ultimately show ?thesis using assms(2) by fastforce
  qed
  moreover have "\<exists>v'. L' k = Some (b, v')" if "truthy (sr_objectKey (rt_stateRef root)) = Some k" "L k = Some (b, v)" for k b v
    using assms(2) that by (simp add: set_referencedObjects)
  moreover have "Option.bind (map_of (rt_blobManifest root) k) (\<lambda>bv. map_option fst (L' (bv_objectKey bv)))
      = Option.bind (map_of (rt_blobManifest root) k) (\<lambda>bv. map_option fst (L (bv_objectKey bv)))" for k
    using calculation(1) by (cases "map_of (rt_blobManifest root) k") (auto dest: map_of_SomeD)
  ultimately show ?thesis using assms(1) unfolding stored_root_def by (fastforce split: if_splits)
qed

text \<open>The chain survives changes that keep its root objects and what they refer to.\<close>

lemma chain_ok_keep:
  assumes "chain_ok H L gid log"
    and "\<And>r x key b v. (r, x) \<in> set log \<Longrightarrow> key \<in> set (referencedObjects r) \<Longrightarrow> L key = Some (b, v) \<Longrightarrow>
      addressed H gid key b \<Longrightarrow> \<exists>v'. L' key = Some (b, v')"
    and "\<And>r x. (r, x) \<in> set log \<Longrightarrow> L (checkpointRootKey gid (rt_checkpointSeq r) (rt_rootId r)) \<noteq> None \<Longrightarrow>
      L' (checkpointRootKey gid (rt_checkpointSeq r) (rt_rootId r))
        = L (checkpointRootKey gid (rt_checkpointSeq r) (rt_rootId r))"
  shows "chain_ok H L' gid log"
  using assms
proof (induction log)
  case (Cons p rest)
  obtain root st view where p: "p = (root, st, view)" by (cases p)
  have refs: "\<And>key. key \<in> set (referencedObjects root) \<Longrightarrow> game_object gid key
      \<and> (\<exists>b v. L key = Some (b, v) \<and> addressed H gid key b)" and st: "stored_root L root st view"
    using Cons.prems(1) p by auto
  have keep: "\<And>key b v. key \<in> set (referencedObjects root) \<Longrightarrow> L key = Some (b, v) \<Longrightarrow>
      addressed H gid key b \<Longrightarrow> \<exists>v'. L' key = Some (b, v')"
    using Cons.prems(2) [of root "(st, view)"] p by simp
  have refs': "game_object gid key \<and> (\<exists>b v. L' key = Some (b, v) \<and> addressed H gid key b)"
    if "key \<in> set (referencedObjects root)" for key
    using refs [OF that] keep [OF that] by blast
  have "stored_root L' root st view"
    by (rule stored_root_bodies [OF st]) (use refs keep in fastforce)
  moreover have "chain_ok H L' gid rest"
  proof (rule Cons.IH)
    show "chain_ok H L gid rest" using Cons.prems(1) p by simp
    show "\<exists>v'. L' key = Some (b, v')"
      if "(r, x) \<in> set rest" "key \<in> set (referencedObjects r)" "L key = Some (b, v)" "addressed H gid key b"
      for r x key b v
      by (rule Cons.prems(2) [of r x key b v]) (use that in simp_all)
    show "L' (checkpointRootKey gid (rt_checkpointSeq r) (rt_rootId r))
        = L (checkpointRootKey gid (rt_checkpointSeq r) (rt_rootId r))"
      if "(r, x) \<in> set rest" "L (checkpointRootKey gid (rt_checkpointSeq r) (rt_rootId r)) \<noteq> None" for r x
      by (rule Cons.prems(3) [of r x]) (use that in simp_all)
  qed
  moreover have "\<exists>v. L' (checkpointRootKey gid (rt_checkpointSeq root) (rt_rootId root)) = Some (encodeRoot root, v)"
    using Cons.prems(1) Cons.prems(3) [of root "(st, view)"] p by auto
  ultimately show ?case using Cons.prems(1) p refs' by simp
qed simp

lemma chain_ok_tl: "chain_ok H L gid (p # log) \<Longrightarrow> chain_ok H L gid log"
  by (cases p) auto

lemma chain_seq:
  "chain_ok H L gid log \<Longrightarrow> (r, x) \<in> set log \<Longrightarrow> 1 \<le> rt_checkpointSeq r \<and> rt_checkpointSeq r \<le> int (length log)"
proof (induction log)
  case (Cons p rest)
  then show ?case by (cases p) fastforce
qed simp

lemma chain_ok_frame:
  assumes chain: "chain_ok H L gid log" and keep: "keeps_addressed H gid L L'"
    and hist: "\<And>n i. 0 \<le> n \<Longrightarrow> n \<le> int (length log) \<Longrightarrow> L (checkpointRootKey gid n i) \<noteq> None \<Longrightarrow>
      L' (checkpointRootKey gid n i) = L (checkpointRootKey gid n i)"
  shows "chain_ok H L' gid log"
proof (rule chain_ok_keep [OF chain])
  show "L' (checkpointRootKey gid (rt_checkpointSeq r) (rt_rootId r))
      = L (checkpointRootKey gid (rt_checkpointSeq r) (rt_rootId r))"
    if "(r, x) \<in> set log" "L (checkpointRootKey gid (rt_checkpointSeq r) (rt_rootId r)) \<noteq> None" for r x
    using hist chain_seq [OF chain that(1)] that(2) by simp
qed (use keep in \<open>auto simp: keeps_addressed_def\<close>)

context state_env
begin

lemma readRootObject_stored:
  "lookup s k = Some (encodeRoot r, v) \<Longrightarrow>
   readRootObject E ops s k = Inr (Some \<lparr>lr_root = r, lr_version = Some v, lr_objectKey = k\<rparr>)"
  by (simp add: readRootObject_def decodeRoot_encodeRoot)

lemma chain_parent:
  assumes "chain_ok H (lookup s) gid ((root, st, view) # rest)"
  shows "rest = [] \<Longrightarrow> truthy (rt_parent root) = None"
    and "rest = (r2, y) # rest2 \<Longrightarrow> \<exists>k v. truthy (rt_parent root) = Some k \<and> rt_historyObjectKey r2 = Some k
      \<and> readRootObject E ops s k = Inr (Some \<lparr>lr_root = r2, lr_version = Some v, lr_objectKey = k\<rparr>)"
  using assms by (cases y; fastforce simp: readRootObject_stored)+

lemma find_loop_chain:
  assumes "chain_ok H (lookup s) gid log" and "log = (root, x) # rest" and "lr_root c = root"
    and "(r, y) \<in> set log"
  shows "\<exists>c'. find_loop E ops s (rt_checkpointSeq r) (Some c) = Some (Inr (Some c')) \<and> lr_root c' = r"
  using assms
proof (induction log arbitrary: root x rest c)
  case (Cons p log)
  obtain st view where x: "x = (st, view)" by (cases x)
  have chain: "chain_ok H (lookup s) gid ((root, st, view) # rest)"
    using Cons.prems(1) by (simp only: Cons.prems(2) x)
  have tail: "chain_ok H (lookup s) gid log" using Cons.prems(1) by (rule chain_ok_tl)
  show ?case
  proof (cases "r = root")
    case True
    then show ?thesis using Cons.prems(3) by (subst find_loop.simps) simp
  next
    case False
    then have r: "(r, y) \<in> set rest" using Cons.prems by auto
    then obtain r2 y2 rest2 where rest: "rest = (r2, y2) # rest2" by (cases rest) auto
    have "rt_checkpointSeq r \<noteq> rt_checkpointSeq root"
      using chain chain_seq [OF _ r, of H "lookup s" gid] by auto
    moreover obtain k v where "truthy (rt_parent root) = Some k"
      "readRootObject E ops s k = Inr (Some \<lparr>lr_root = r2, lr_version = Some v, lr_objectKey = k\<rparr>)"
      using chain_parent(2) [OF chain rest] by blast
    moreover have "\<exists>c'. find_loop E ops s (rt_checkpointSeq r)
        (Some \<lparr>lr_root = r2, lr_version = Some v, lr_objectKey = k\<rparr>) = Some (Inr (Some c')) \<and> lr_root c' = r"
      using Cons.IH [OF tail, of r2 y2 rest2 "\<lparr>lr_root = r2, lr_version = Some v, lr_objectKey = k\<rparr>"]
        Cons.prems(2) rest r by simp
    ultimately show ?thesis using Cons.prems(3) by (subst find_loop.simps) simp
  qed
qed simp

lemma find_loop_absent:
  assumes "chain_ok H (lookup s) gid log" and "log = (root, x) # rest" and "lr_root c = root"
    and "n < 1 \<or> int (length log) < n"
  shows "find_loop E ops s n (Some c) = Some (Inr None)"
  using assms
proof (induction log arbitrary: root x rest c)
  case (Cons p log)
  obtain st view where x: "x = (st, view)" by (cases x)
  have chain: "chain_ok H (lookup s) gid ((root, st, view) # rest)"
    using Cons.prems(1) by (simp only: Cons.prems(2) x)
  have tail: "chain_ok H (lookup s) gid log" using Cons.prems(1) by (rule chain_ok_tl)
  have seq: "rt_checkpointSeq root \<noteq> n"
    using chain_seq [OF chain, of root "(st, view)"] Cons.prems(2,4) by auto
  show ?case
  proof (cases rest)
    case Nil
    then show ?thesis using chain_parent(1) [OF chain] seq Cons.prems(3) by (subst find_loop.simps) simp
  next
    case (Cons q rest2)
    obtain r2 y2 where q: "q = (r2, y2)" by (cases q)
    obtain k v where "truthy (rt_parent root) = Some k"
      "readRootObject E ops s k = Inr (Some \<lparr>lr_root = r2, lr_version = Some v, lr_objectKey = k\<rparr>)"
      using chain_parent(2) [OF chain, of r2 y2 rest2] Cons q by blast
    moreover have "find_loop E ops s n (Some \<lparr>lr_root = r2, lr_version = Some v, lr_objectKey = k\<rparr>)
        = Some (Inr None)"
      using Cons.IH [OF tail, of r2 y2 rest2 "\<lparr>lr_root = r2, lr_version = Some v, lr_objectKey = k\<rparr>"]
        Cons.prems(2,4) Cons q by auto
    ultimately show ?thesis using seq Cons.prems(3) by (subst find_loop.simps) simp
  qed
qed simp

lemma list_loop_chain:
  assumes "chain_ok H (lookup s) gid log" and "log = (root, x) # rest" and "lr_root c = root"
  shows "list_loop E ops s n (Some c) = Inr (take n (checkpointView root (lr_objectKey c)
    # map (\<lambda>(r, y). checkpointView r (the (rt_historyObjectKey r))) rest))"
  using assms
proof (induction log arbitrary: root x rest c n)
  case (Cons p log)
  obtain st view where x: "x = (st, view)" by (cases x)
  have chain: "chain_ok H (lookup s) gid ((root, st, view) # rest)"
    using Cons.prems(1) by (simp only: Cons.prems(2) x)
  have tail: "chain_ok H (lookup s) gid log" using Cons.prems(1) by (rule chain_ok_tl)
  show ?case
  proof (cases n)
    case (Suc m)
    show ?thesis
    proof (cases rest)
      case Nil
      then show ?thesis using chain_parent(1) [OF chain] Suc Cons.prems(3) by (simp add: Let_def)
    next
      case (Cons q rest2)
      obtain r2 y2 where q: "q = (r2, y2)" by (cases q)
      obtain k v where "truthy (rt_parent root) = Some k" "rt_historyObjectKey r2 = Some k"
        "readRootObject E ops s k = Inr (Some \<lparr>lr_root = r2, lr_version = Some v, lr_objectKey = k\<rparr>)"
        using chain_parent(2) [OF chain, of r2 y2 rest2] Cons q by blast
      moreover have "list_loop E ops s m (Some \<lparr>lr_root = r2, lr_version = Some v, lr_objectKey = k\<rparr>)
          = Inr (take m (checkpointView r2 k # map (\<lambda>(r, y). checkpointView r (the (rt_historyObjectKey r))) rest2))"
        using Cons.IH [OF tail, of r2 y2 rest2 "\<lparr>lr_root = r2, lr_version = Some v, lr_objectKey = k\<rparr>" m]
          Cons.prems(2) Cons q by simp
      ultimately show ?thesis using Suc Cons.prems(3) Cons q by (simp add: Let_def)
    qed
  qed simp
qed simp

lemma readHeadRoot_stored:
  "lookup s (rootKey gid) = Some (encodeRoot root, v) \<Longrightarrow>
   readHeadRoot E ops s gid = Inr (Some \<lparr>lr_root = root, lr_version = Some v, lr_objectKey = rootKey gid\<rparr>)"
  by (simp add: readHeadRoot_def readRootObject_stored)

lemma chain_stored:
  "chain_ok H (lookup s) gid log \<Longrightarrow> (r, st, view) \<in> set log \<Longrightarrow> stored_root (lookup s) r st view \<and> rt_gameId r = gid"
  by (induction log) auto

lemma viewCheckpoint_found:
  assumes found: "findCheckpointRoot E ops s gid n = Inr (Some c)" "lr_root c = r"
    and st: "stored_root (lookup s) r st view"
  shows "\<exists>m. viewCheckpoint E ops s gid n = Inr (Some m) \<and> mt_root m = Some r
    \<and> mt_state m = st \<and> blob_view ops s (new_session so sn m) = view"
proof -
  have read: "readStateBytes ops s r = Inr st"
    using st by (auto simp: stored_root_def readStateBytes_def Let_def b64_roundtrip split: if_splits)
  have wf: "map_wf (rt_blobManifest r)" using st by (simp add: stored_root_def)
  obtain m where m: "viewCheckpoint E ops s gid n = Inr (Some m)"
    "mt_root m = Some r" "mt_state m = st" "mt_blobs m = rt_blobManifest r"
    using found read by (simp add: viewCheckpoint_def materializeRoot_def)
  moreover have "blob_view ops s (new_session so sn m) = view"
    by (rule view_of_manifest [OF st]) (simp_all add: new_session_def m wf)
  ultimately show ?thesis by blast
qed

lemma findCheckpointRoot_chain:
  assumes chain: "chain_ok H (lookup s) gid ((root, x) # rest)"
    and head: "lookup s (rootKey gid) = Some (encodeRoot root, v)"
    and r: "(r, y) \<in> set ((root, x) # rest)"
  shows "\<exists>c. findCheckpointRoot E ops s gid (rt_checkpointSeq r) = Inr (Some c) \<and> lr_root c = r"
  using find_loop_chain [OF chain refl _ r, of "\<lparr>lr_root = root, lr_version = Some v, lr_objectKey = rootKey gid\<rparr>"]
    readHeadRoot_stored [OF head]
  by (auto simp: findCheckpointRoot_def of_loop_def)

lemma viewCheckpoint_chain:
  assumes chain: "chain_ok H (lookup s) gid ((root, x) # rest)"
    and head: "lookup s (rootKey gid) = Some (encodeRoot root, v)"
    and r: "(r, st, view) \<in> set ((root, x) # rest)"
  shows "\<exists>m. viewCheckpoint E ops s gid (rt_checkpointSeq r) = Inr (Some m) \<and> mt_root m = Some r
    \<and> mt_state m = st \<and> blob_view ops s (new_session so sn m) = view"
  using findCheckpointRoot_chain [OF chain head r] viewCheckpoint_found chain_stored [OF chain r] by blast

text \<open>A flush with time travel enabled appends its root to the chain.\<close>

lemma flush_history:
  assumes ok: "session_ok (ev_host E) ops s g" and tt: "gs_enableTimeTravel g"
    and run: "flush E ops g s = (Inr (Some root), g', s')"
  shows "prepared g s root s'" and "g' = flush_commit root (version_of (encodeRoot root)) g"
proof -
  have dirty: "isDirty g" using run by (auto simp: flush_def split: if_splits)
  have "prepared g s root s' \<and> g' = flush_commit root (version_of (encodeRoot root)) g"
  proof (rule flush_inv [OF run ok dirty])
    fix root' s1
    assume p: "prepared g s root' s1" and g': "g' = flush_commit root' (version_of (encodeRoot root')) g"
      and r: "Inr (Some root) = Inr (Some root') \<or> (\<exists>e. Inr (Some root) = Inl e)"
      and c: "\<exists>x. flush_cleanup E ops (gs_root g) root' g' s1 = (x, s')"
    have "s1 = s'"
      using c tt by (auto simp: flush_cleanup_def g' shouldRetainHistory_def flush_commit_def
          io_bind_def io_return_def pruneRetainedCheckpoints_def)
    then show ?thesis using p g' r by auto
  qed simp
  then show "prepared g s root s'" "g' = flush_commit root (version_of (encodeRoot root)) g" by auto
qed

lemma chain_extend:
  assumes chain: "chain_ok (ev_host E) (lookup s) gid log"
    and prep: "prepared g s root s'" and tt: "gs_enableTimeTravel g" and gid: "gs_gameId g = gid"
    and seq: "gs_checkpointSeq g = int (length log)"
    and parent: "coalesce (Option.bind (gs_root g) rt_historyObjectKey) (gs_rootObjectKey g)
      = (case log of [] \<Rightarrow> None | (r, _) # _ \<Rightarrow> rt_historyObjectKey r)"
  shows "chain_ok (ev_host E) (lookup s') gid ((root, gs_state g, blob_view ops s g) # log)"
proof -
  have hk: "rt_historyObjectKey root = Some (checkpointRootKey gid (rt_checkpointSeq root) (rt_rootId root))"
    using prep tt gid by (simp add: prepared_def flush_history_key_def shouldRetainHistory_def)
  have rs: "rt_checkpointSeq root = 1 + int (length log)" using prep seq by (simp add: prepared_def)
  have "chain_ok (ev_host E) (lookup s') gid log"
  proof (rule chain_ok_frame [OF chain])
    show "keeps_addressed (ev_host E) gid (lookup s) (lookup s')" using prep gid by (simp add: prepared_def)
    show "lookup s' (checkpointRootKey gid n i) = lookup s (checkpointRootKey gid n i)"
      if "0 \<le> n" "n \<le> int (length log)" for n i
    proof -
      have "checkpointRootKey gid n i \<noteq> checkpointRootKey gid (rt_checkpointSeq root) (rt_rootId root)"
        using checkpointRootKey_inject [of gid n i gid "rt_checkpointSeq root" "rt_rootId root"] that rs by auto
      then show ?thesis using prep gid hk by (auto simp: prepared_def)
    qed
  qed
  moreover have "rt_parent root = (case log of [] \<Rightarrow> None | (r, _) # _ \<Rightarrow> rt_historyObjectKey r)"
    using prep tt parent by (simp add: prepared_def shouldRetainHistory_def)
  moreover have "\<exists>v. lookup s' (checkpointRootKey gid (rt_checkpointSeq root) (rt_rootId root)) = Some (encodeRoot root, v)"
    using prep hk unfolding prepared_def by blast
  moreover have "\<forall>key \<in> set (referencedObjects root). game_object gid key
      \<and> (\<exists>b v. lookup s' key = Some (b, v) \<and> addressed (ev_host E) gid key b)"
    using prep gid unfolding prepared_def by blast
  ultimately show ?thesis using preparedD [OF prep] gid rs hk by (simp add: add.commute)
qed

end

section \<open>One session writing history\<close>

definition history_inv :: "host \<Rightarrow> string \<Rightarrow> GameStateSession \<times> mem_store \<times> history \<Rightarrow> bool" where
  "history_inv H gid = (\<lambda>(g, s, log).
     session_ok H (MemoryStateObjectStore H) s g \<and> gs_gameId g = gid \<and> gs_enableTimeTravel g
     \<and> chain_ok H (mem_lookup s) gid log \<and> gs_checkpointSeq g = int (length log)
     \<and> (case log of
          [] \<Rightarrow> gs_root g = None \<and> gs_rootObjectKey g = None \<and> gs_rootVersion g = None
                \<and> mem_lookup s (rootKey gid) = None \<and> gs_blobs g = []
        | (root, _) # _ \<Rightarrow> gs_root g = Some root \<and> gs_rootVersion g = Some (etag H (encodeRoot root))
                \<and> mem_lookup s (rootKey gid) = Some (encodeRoot root, etag H (encodeRoot root))
                \<and> set (gs_blobs g) \<subseteq> set (rt_blobManifest root)))"

text \<open>
  The reachable states of one session over an initially empty game: the session, the store,
  and the history of what was flushed.
\<close>

inductive history_reach :: "host \<Rightarrow> string \<Rightarrow> GameStateSession \<times> mem_store \<times> history \<Rightarrow> bool"
  for H gid
where
  start: "sn_gameId sn = gid \<Longrightarrow> sn_enableTimeTravel sn = Some True \<Longrightarrow> mem_objects s = [] \<Longrightarrow>
    history_reach H gid (new_session so sn (emptyMaterialized gid), s, [])"
| tick: "history_reach H gid (g, s, log) \<Longrightarrow> history_reach H gid (g, s\<lparr>mem_clock := t\<rparr>, log)"
| write_state: "history_reach H gid (g, s, log) \<Longrightarrow> history_reach H gid (writeState b g, s, log)"
| put: "history_reach H gid (g, s, log) \<Longrightarrow> history_reach H gid (putBlob k b g, s, log)"
| delete: "history_reach H gid (g, s, log) \<Longrightarrow> history_reach H gid (deleteBlob k g, s, log)"
| flush: "history_reach H gid (g, s, log) \<Longrightarrow> ev_host E = H \<Longrightarrow>
    flush E (MemoryStateObjectStore H) g s = (Inr (Some root), g', s') \<Longrightarrow>
    history_reach H gid (g', s', (root, session_view (MemoryStateObjectStore H) s g) # log)"

lemma mem_get_clock: "os_get (MemoryStateObjectStore H) (s\<lparr>mem_clock := t\<rparr>) k = os_get (MemoryStateObjectStore H) s k"
  by (simp add: mem_defs)

lemma session_ok_clock:
  "session_ok H (MemoryStateObjectStore H) s g \<Longrightarrow> session_ok H (MemoryStateObjectStore H) (s\<lparr>mem_clock := t\<rparr>) g"
  by (simp add: session_ok_def blob_present_def mem_get_clock)

lemma mem_lookup_clock [simp]: "mem_lookup (s\<lparr>mem_clock := t\<rparr>) = mem_lookup s"
  by (simp add: mem_lookup_def fun_eq_iff)

lemma history_inv_step:
  assumes inv: "history_inv H gid (g, s, log)" and H: "host_env H" "ev_host E = H"
    and run: "flush E (MemoryStateObjectStore H) g s = (Inr (Some root), g', s')"
  shows "history_inv H gid (g', s', (root, session_view (MemoryStateObjectStore H) s g) # log)"
proof -
  have env: "state_env (MemoryStateObjectStore H) mem_lookup (etag H) E"
    using mem_state_env [of E] H by simp
  have ok: "session_ok H (MemoryStateObjectStore H) s g" "gs_enableTimeTravel g" "gs_gameId g = gid"
    and chain: "chain_ok H (mem_lookup s) gid log" and seq: "gs_checkpointSeq g = int (length log)"
    using inv by (auto simp: history_inv_def)
  note fh = state_env.flush_history [OF env, unfolded H(2), OF ok(1,2) run]
  have parent: "coalesce (Option.bind (gs_root g) rt_historyObjectKey) (gs_rootObjectKey g)
      = (case log of [] \<Rightarrow> None | (r, _) # _ \<Rightarrow> rt_historyObjectKey r)"
    using inv by (cases log) (auto simp: history_inv_def coalesce_def)
  have ch: "chain_ok H (mem_lookup s') gid ((root, gs_state g, blob_view (MemoryStateObjectStore H) s g) # log)"
    using state_env.chain_extend [OF env, unfolded H(2), OF chain fh(1) ok(2,3) seq parent] .
  have "session_ok H (MemoryStateObjectStore H) s' g'"
    using state_env.flush_durable(3) [OF env, unfolded H(2), OF ok(1) run, of "\<lparr>sn_gameId = gs_gameId g, sn_bundleCompatTag = None,
      sn_blobCompatTag = None, sn_enableTimeTravel = None, sn_retainCheckpoints = None\<rparr>"] by simp
  moreover have "mem_lookup s' (rootKey gid) = Some (encodeRoot root, etag H (encodeRoot root))"
    using state_env.preparedD(1) [OF env fh(1)] ok(3) by simp
  moreover have "map_wf (rt_blobManifest root)"
    using state_env.preparedD(3) [OF env fh(1)] by (simp add: stored_root_def)
  ultimately show ?thesis
    using ch ok fh(2) state_env.preparedD(4) [OF env fh(1)] seq
    by (simp add: history_inv_def session_view_def flush_commit_def)
qed

lemma session_op_fields [simp]:
  "gs_gameId (writeState b g) = gs_gameId g" "gs_gameId (putBlob k b g) = gs_gameId g"
  "gs_gameId (deleteBlob k g) = gs_gameId g"
  "gs_enableTimeTravel (writeState b g) = gs_enableTimeTravel g"
  "gs_enableTimeTravel (putBlob k b g) = gs_enableTimeTravel g"
  "gs_enableTimeTravel (deleteBlob k g) = gs_enableTimeTravel g"
  "gs_checkpointSeq (writeState b g) = gs_checkpointSeq g"
  "gs_checkpointSeq (putBlob k b g) = gs_checkpointSeq g"
  "gs_checkpointSeq (deleteBlob k g) = gs_checkpointSeq g"
  "gs_root (writeState b g) = gs_root g" "gs_root (putBlob k b g) = gs_root g"
  "gs_root (deleteBlob k g) = gs_root g"
  "gs_rootVersion (writeState b g) = gs_rootVersion g" "gs_rootVersion (putBlob k b g) = gs_rootVersion g"
  "gs_rootVersion (deleteBlob k g) = gs_rootVersion g"
  "gs_rootObjectKey (writeState b g) = gs_rootObjectKey g"
  "gs_rootObjectKey (putBlob k b g) = gs_rootObjectKey g"
  "gs_rootObjectKey (deleteBlob k g) = gs_rootObjectKey g"
  by (simp_all add: writeState_def putBlob_def deleteBlob_def Let_def)

lemma session_op_blobs [simp]:
  "gs_blobs (writeState b g) = gs_blobs g" "gs_blobs (putBlob k b g) = gs_blobs g"
  "gs_blobs (deleteBlob k g) = map_delete k (gs_blobs g)"
  by (simp_all add: writeState_def putBlob_def deleteBlob_def Let_def)

lemma set_map_delete: "set (map_delete k m) \<subseteq> set m"
  by (auto simp: AList.delete_eq)

lemma history_inv_ops:
  assumes "history_inv H gid (g, s, log)"
  shows "history_inv H gid (writeState b g, s, log)" "history_inv H gid (putBlob k b g, s, log)"
    "history_inv H gid (deleteBlob k g, s, log)"
proof -
  have ok: "session_ok H (MemoryStateObjectStore H) s g" using assms by (simp add: history_inv_def)
  show "history_inv H gid (writeState b g, s, log)" "history_inv H gid (putBlob k b g, s, log)"
    "history_inv H gid (deleteBlob k g, s, log)"
    using assms session_ok_ops(1) [OF ok, of b] session_ok_ops(2) [OF ok, of k b]
      session_ok_ops(3) [OF ok, of k] set_map_delete [of k "gs_blobs g"]
    by (cases log; auto simp: history_inv_def)+
qed

lemma history_reach_inv:
  assumes "history_reach H gid x" and "host_env H"
  shows "history_inv H gid x"
  using assms(1)
proof (induction rule: history_reach.induct)
  case (start sn s so)
  then show ?case
    by (simp add: history_inv_def session_ok_def maps_ok_def new_session_def emptyMaterialized_def
        mem_lookup_def)
next
  case (flush g s log E root g' s')
  then show ?case using history_inv_step assms(2) by blast
next
  case (tick g s log t)
  then show ?case
    using session_ok_clock [of H s g t] by (cases log) (simp_all add: history_inv_def)
qed (simp_all add: history_inv_ops)

end
