(* ===== verification/StateStoreReap.thy ===== *)
theory StateStoreReap
  imports StateStoreHistory
begin

text \<open>
  What \<open>restoreCheckpoint\<close> and \<open>reapOrphans\<close> do to a chain of retained roots: a restore appends a
  new root with the old contents; a reap keeps everything the listed checkpoints refer to,
  but not the retained copy of the head root itself, which the next root's parent names.
  The last section treats retention that is switched on for a game that has none yet.
\<close>

section \<open>Restore\<close>

lemma stored_root_same:
  "stored_root L r st view \<Longrightarrow> rt_stateRef r' = rt_stateRef r \<Longrightarrow> rt_blobManifest r' = rt_blobManifest r \<Longrightarrow>
   stored_root L r' st view"
  unfolding stored_root_def by metis

lemma chain_refs:
  "chain_ok H L gid log \<Longrightarrow> (r, x) \<in> set log \<Longrightarrow> key \<in> set (referencedObjects r) \<Longrightarrow>
   game_object gid key \<and> (\<exists>b v. L key = Some (b, v) \<and> addressed H gid key b)"
proof (induction log)
  case (Cons p log)
  obtain r1 st1 view1 where p: "p = (r1, st1, view1)" by (cases p)
  show ?case
  proof (cases "(r, x) = p")
    case True
    then show ?thesis using Cons.prems p by auto
  next
    case False
    then have "(r, x) \<in> set log" using Cons.prems by simp
    then show ?thesis using Cons.IH [OF chain_ok_tl [OF Cons.prems(1)]] Cons.prems(3) by simp
  qed
qed simp

context state_env
begin

lemma restore_run:
  assumes chain: "chain_ok H (lookup s) gid ((root, x) # rest)"
    and head: "lookup s (rootKey gid) = Some (encodeRoot root, v)"
    and r: "(r, st, view) \<in> set ((root, x) # rest)"
  obtains new s' where "restoreCheckpoint E ops gid (rt_checkpointSeq r) bt ct s = (Inr (Some new), s')"
    and "lookup s' = (lookup s)(checkpointRootKey gid (rt_checkpointSeq new) (rt_rootId new)
            \<mapsto> (encodeRoot new, version_of (encodeRoot new)),
          rootKey gid \<mapsto> (encodeRoot new, version_of (encodeRoot new)))"
    and "rt_checkpointSeq new = rt_checkpointSeq root + 1" and "rt_gameId new = gid"
    and "rt_stateRef new = rt_stateRef r" and "rt_blobManifest new = rt_blobManifest r"
    and "rt_parent new = rt_historyObjectKey root"
    and "rt_historyObjectKey new = Some (checkpointRootKey gid (rt_checkpointSeq new) (rt_rootId new))"
proof -
  obtain c where c: "findCheckpointRoot E ops s gid (rt_checkpointSeq r) = Inr (Some c)" "lr_root c = r"
    using findCheckpointRoot_chain [OF chain head r] by blast
  define n where "n = store_buildRoot E gid (rt_checkpointSeq root + 1) (rt_stateRef r) (rt_blobManifest r)
     (coalesce (rt_historyObjectKey root) (Some (rootKey gid)))
     (coalesce bt (rt_bundleCompatTag root)) (coalesce ct (rt_blobCompatTag r))"
  define k where "k = checkpointRootKey gid (rt_checkpointSeq n) (rt_rootId n)"
  define new where "new = n\<lparr>rt_historyObjectKey := Some k\<rparr>"
  have hk: "rt_historyObjectKey root = Some (checkpointRootKey gid (rt_checkpointSeq root) (rt_rootId root))"
    using chain by (cases x) simp
  obtain s1 where p1: "io_put ops k (encodeRoot new) None s = (Inr (version_of (encodeRoot new)), s1)"
    and L1: "lookup s1 = (lookup s)(k \<mapsto> (encodeRoot new, version_of (encodeRoot new)))"
    by (rule io_put_None)
  have "lookup s1 (rootKey gid) = lookup s (rootKey gid)" using L1 by (auto simp: k_def)
  then obtain s' where p2: "io_put ops (rootKey gid) (encodeRoot new) (Some v) s1
        = (Inr (version_of (encodeRoot new)), s')"
    and L2: "lookup s' = (lookup s1)(rootKey gid \<mapsto> (encodeRoot new, version_of (encodeRoot new)))"
    using put_ok [of "Some v" s1 "rootKey gid" "encodeRoot new"] head by (auto simp: io_put_def)
  have "restoreCheckpoint E ops gid (rt_checkpointSeq r) bt ct s = (Inr (Some new), s')"
    using c p1 p2 readHeadRoot_stored [OF head]
    by (simp add: restoreCheckpoint_def Let_def io_bind_def io_return_def
        flip: n_def k_def new_def)
  then show ?thesis
    using that [of new s'] L1 L2 hk
    by (simp add: new_def k_def n_def store_buildRoot_def coalesce_def)
qed

text \<open>Restoring appends a root with the old contents; nothing of the history is lost.\<close>

lemma restore_chain:
  assumes chain: "chain_ok H (lookup s) gid ((root, x) # rest)"
    and head: "lookup s (rootKey gid) = Some (encodeRoot root, v)"
    and r: "(r, st, view) \<in> set ((root, x) # rest)"
  shows "\<exists>new s'. restoreCheckpoint E ops gid (rt_checkpointSeq r) bt ct s = (Inr (Some new), s')
    \<and> chain_ok H (lookup s') gid ((new, st, view) # (root, x) # rest)
    \<and> lookup s' (rootKey gid) = Some (encodeRoot new, version_of (encodeRoot new))"
proof -
  let ?log = "(root, x) # rest"
  obtain new s' where run: "restoreCheckpoint E ops gid (rt_checkpointSeq r) bt ct s = (Inr (Some new), s')"
    and L: "lookup s' = (lookup s)(checkpointRootKey gid (rt_checkpointSeq new) (rt_rootId new)
            \<mapsto> (encodeRoot new, version_of (encodeRoot new)),
          rootKey gid \<mapsto> (encodeRoot new, version_of (encodeRoot new)))"
    and new: "rt_checkpointSeq new = rt_checkpointSeq root + 1" "rt_gameId new = gid"
      "rt_stateRef new = rt_stateRef r" "rt_blobManifest new = rt_blobManifest r"
      "rt_parent new = rt_historyObjectKey root"
      "rt_historyObjectKey new = Some (checkpointRootKey gid (rt_checkpointSeq new) (rt_rootId new))"
    by (rule restore_run [OF chain head r])
  have seq: "rt_checkpointSeq root = 1 + int (length rest)" using chain by (cases x) simp
  have other: "lookup s' key = lookup s key" if "game_object gid key" for key
    using that L by (auto simp: game_object_def)
  have old: "chain_ok H (lookup s') gid ?log"
  proof (rule chain_ok_frame [OF chain])
    show "keeps_addressed H gid (lookup s) (lookup s')"
      using other by (auto simp: keeps_addressed_def addressed_def)
    show "lookup s' (checkpointRootKey gid n i) = lookup s (checkpointRootKey gid n i)"
      if "0 \<le> n" "n \<le> int (length ?log)" for n i
    proof -
      have "checkpointRootKey gid n i \<noteq> checkpointRootKey gid (rt_checkpointSeq new) (rt_rootId new)"
        using checkpointRootKey_inject [of gid n i gid "rt_checkpointSeq new" "rt_rootId new"] that new(1) seq
        by auto
      then show ?thesis using L by simp
    qed
  qed
  have "stored_root (lookup s') new st view"
    using stored_root_same [OF conjunct1 [OF chain_stored [OF old r]] new(3,4)] .
  moreover have "referencedObjects new = referencedObjects r"
    using new by (simp add: referencedObjects_def)
  ultimately have "chain_ok H (lookup s') gid ((new, st, view) # ?log)"
    using old new seq L chain_refs [OF old r] by simp
  then show ?thesis using run L by auto
qed

end

section \<open>Reaping orphans\<close>

definition newer :: "int \<Rightarrow> list_entry \<Rightarrow> bool" where
  "newer olderThan e = (case le_updatedAt e of None \<Rightarrow> False | Some t \<Rightarrow> t > olderThan)"

text \<open>What the listed checkpoints keep: each root's own key and the objects it refers to.\<close>

definition root_keeps :: "StateRoot \<times> string \<Rightarrow> string set" where
  "root_keeps = (\<lambda>(r, k). {k, default [] (sr_objectKey (rt_stateRef r))}
     \<union> (\<lambda>(k, b). bv_objectKey b) ` set (rt_blobManifest r))"

definition reap_keeps :: "(StateRoot \<times> string) list \<Rightarrow> string set" where
  "reap_keeps rs = (\<Union>p \<in> set rs. root_keeps p)"

context state_env
begin

lemma reap_loop_run:
  "\<exists>r s'. reap_loop ops R t es a d s = (Inr r, s') \<and> \<not> ro_skipped r
     \<and> lookup s' = (\<lambda>k. if \<exists>e \<in> set es. le_key e = k \<and> k \<notin> set R \<and> \<not> newer t e then None else lookup s k)"
proof (induction es arbitrary: a d s)
  case (Cons e es)
  show ?case
  proof (cases "le_key e \<in> set R \<or> newer t e")
    case True
    then have skip: "reap_loop ops R t (e # es) a d s = reap_loop ops R t es (Suc a) d s"
      by (auto simp: newer_def)
    obtain r s' where "reap_loop ops R t es (Suc a) d s = (Inr r, s')" "\<not> ro_skipped r"
      "lookup s' = (\<lambda>k. if \<exists>e \<in> set es. le_key e = k \<and> k \<notin> set R \<and> \<not> newer t e then None else lookup s k)"
      using Cons.IH by blast
    then show ?thesis using True unfolding skip by (auto simp: fun_eq_iff)
  next
    case False
    obtain s1 where "os_delete ops s (le_key e) = Inr s1" "lookup s1 = (lookup s)(le_key e := None)"
      using delete by blast
    then have step: "reap_loop ops R t (e # es) a d s = reap_loop ops R t es (Suc a) (Suc d) s1"
      and L1: "lookup s1 = (lookup s)(le_key e := None)"
      using False by (auto simp: newer_def io_bind_def io_delete_def)
    obtain r s' where "reap_loop ops R t es (Suc a) (Suc d) s1 = (Inr r, s')" "\<not> ro_skipped r"
      "lookup s' = (\<lambda>k. if \<exists>e \<in> set es. le_key e = k \<and> k \<notin> set R \<and> \<not> newer t e then None else lookup s1 k)"
      using Cons.IH by blast
    then show ?thesis using False L1 unfolding step by (auto simp: fun_eq_iff)
  qed
qed (simp add: io_return_def)

lemma set_fold_set_add: "set (fold set_add xs ys) = set xs \<union> set ys"
  by (induction xs arbitrary: ys) auto

lemma reap_referenced_chain:
  assumes chain: "chain_ok H (lookup s) gid ((root, x) # rest)"
    and head: "lookup s (rootKey gid) = Some (encodeRoot root, v)"
    and rs: "\<forall>(r, k) \<in> set rs. \<exists>y. (r, y) \<in> set ((root, x) # rest)"
  shows "\<exists>R. reap_referenced E ops s gid (map (\<lambda>(r, k). checkpointView r k) rs) acc = Inr R
    \<and> set R = set acc \<union> reap_keeps rs"
  using rs
proof (induction rs arbitrary: acc)
  case (Cons p rs)
  obtain r k where p: "p = (r, k)" by (cases p)
  obtain st view where y: "(r, st, view) \<in> set ((root, x) # rest)"
    using Cons.prems p by auto
  obtain m where m: "viewCheckpoint E ops s gid (rt_checkpointSeq r) = Inr (Some m)" "mt_root m = Some r"
    using viewCheckpoint_chain [OF chain head y] by blast
  let ?acc = "fold set_add (map (\<lambda>(k, b). bv_objectKey b) (rt_blobManifest r))
      (set_add (default [] (sr_objectKey (rt_stateRef r))) (set_add k acc))"
  obtain R where R: "reap_referenced E ops s gid (map (\<lambda>(r, k). checkpointView r k) rs) ?acc = Inr R"
      "set R = set ?acc \<union> reap_keeps rs"
    using Cons by fastforce
  have "reap_referenced E ops s gid (map (\<lambda>(r, k). checkpointView r k) (p # rs)) acc = Inr R"
    using R(1) m p by (simp add: Let_def checkpointView_def default_def)
  moreover have "set R = set acc \<union> reap_keeps (p # rs)"
    using R(2) p by (simp add: reap_keeps_def root_keeps_def set_fold_set_add Un_ac insert_commute)
  ultimately show ?case by blast
qed (simp add: reap_keeps_def)

lemma reapOrphans_chain:
  assumes chain: "chain_ok H (lookup s) gid ((root, x) # rest)"
    and head: "lookup s (rootKey gid) = Some (encodeRoot root, v)"
    and len: "Suc (length rest) \<le> max_safe_integer"
    and list: "os_list ops = Some lst" "lst s (gamePrefix gid) = Inr es"
  shows "\<exists>r s'. reapOrphans E ops gid t s = (Inr r, s') \<and> \<not> ro_skipped r
     \<and> lookup s' = (\<lambda>k. if (\<exists>e \<in> set es. le_key e = k \<and> \<not> newer t e) \<and> k \<noteq> rootKey gid
            \<and> k \<notin> reap_keeps ((root, rootKey gid) # map (\<lambda>(r, y). (r, the (rt_historyObjectKey r))) rest)
          then None else lookup s k)"
proof -
  let ?rs = "(root, rootKey gid) # map (\<lambda>(r, y). (r, the (rt_historyObjectKey r))) rest"
  let ?c = "\<lparr>lr_root = root, lr_version = Some v, lr_objectKey = rootKey gid\<rparr>"
  have views: "map (\<lambda>(r, k). checkpointView r k) ?rs = checkpointView root (rootKey gid)
      # map (\<lambda>(r, y). checkpointView r (the (rt_historyObjectKey r))) rest"
    by (simp add: case_prod_beta comp_def)
  have cps: "listCheckpoints E ops s gid max_safe_integer = Inr (map (\<lambda>(r, k). checkpointView r k) ?rs)"
    using list_loop_chain [OF chain refl, of ?c max_safe_integer] readHeadRoot_stored [OF head] len
    by (simp add: listCheckpoints_def views del: list.map)
  have "\<forall>(r, k) \<in> set ?rs. \<exists>y. (r, y) \<in> set ((root, x) # rest)" by (cases x) auto
  from reap_referenced_chain [OF chain head this, of "[rootKey gid]"]
  obtain R where R: "reap_referenced E ops s gid (map (\<lambda>(r, k). checkpointView r k) ?rs) [rootKey gid] = Inr R"
    "set R = {rootKey gid} \<union> reap_keeps ?rs" by auto
  have "reapOrphans E ops gid t s = reap_loop ops R t es 0 0 s"
    using list cps R(1) by (simp add: reapOrphans_def del: list.map)
  moreover obtain r s' where "reap_loop ops R t es 0 0 s = (Inr r, s')" "\<not> ro_skipped r"
    "lookup s' = (\<lambda>k. if \<exists>e \<in> set es. le_key e = k \<and> k \<notin> set R \<and> \<not> newer t e then None else lookup s k)"
    using reap_loop_run by blast
  ultimately show ?thesis using R(2) by (auto simp: fun_eq_iff)
qed

lemma in_reap_keeps:
  assumes "(r, k) \<in> set rs" shows "k \<in> reap_keeps rs" "set (referencedObjects r) \<subseteq> reap_keeps rs"
proof -
  have "root_keeps (r, k) \<subseteq> reap_keeps rs" using assms by (auto simp: reap_keeps_def)
  moreover have "k \<in> root_keeps (r, k)" by (simp add: root_keeps_def)
  moreover have "set (referencedObjects r) \<subseteq> root_keeps (r, k)"
    by (auto simp: root_keeps_def set_referencedObjects truthy_Some split: option.splits)
  ultimately show "k \<in> reap_keeps rs" "set (referencedObjects r) \<subseteq> reap_keeps rs" by auto
qed

text \<open>The head is read from the root key, so it may lack its retained copy.\<close>

lemma findCheckpointRoot_head:
  assumes chain: "chain_ok H (lookup s) gid rest" and seq: "rt_checkpointSeq root = 1 + int (length rest)"
    and parent: "rt_parent root = (case rest of [] \<Rightarrow> None | (r, _) # _ \<Rightarrow> rt_historyObjectKey r)"
    and head: "lookup s (rootKey gid) = Some (encodeRoot root, v)"
    and r: "r = root \<or> (r, y) \<in> set rest"
  shows "\<exists>c. findCheckpointRoot E ops s gid (rt_checkpointSeq r) = Inr (Some c) \<and> lr_root c = r"
proof (cases "r = root")
  case True
  then show ?thesis using readHeadRoot_stored [OF head]
    by (simp add: findCheckpointRoot_def of_loop_def find_loop.simps [of _ _ _ "rt_checkpointSeq root"])
next
  case False
  then have r': "(r, y) \<in> set rest" using r by simp
  then obtain r2 y2 rest2 where rest: "rest = (r2, y2) # rest2" by (cases rest) auto
  have ne: "rt_checkpointSeq root \<noteq> rt_checkpointSeq r" using chain_seq [OF chain r'] seq by simp
  obtain k v2 where k: "rt_historyObjectKey r2 = Some k" "k \<noteq> []" "lookup s k = Some (encodeRoot r2, v2)"
    using chain rest by (cases y2) (auto simp: checkpointRootKey_def)
  obtain c where "find_loop E ops s (rt_checkpointSeq r)
      (Some \<lparr>lr_root = r2, lr_version = Some v2, lr_objectKey = k\<rparr>) = Some (Inr (Some c))" "lr_root c = r"
    using find_loop_chain [OF chain rest _ r', of "\<lparr>lr_root = r2, lr_version = Some v2, lr_objectKey = k\<rparr>"]
    by auto
  then have "findCheckpointRoot E ops s gid (rt_checkpointSeq r) = Inr (Some c) \<and> lr_root c = r"
    using ne k parent rest readRootObject_stored [OF k(3)] readHeadRoot_stored [OF head]
    by (simp add: findCheckpointRoot_def of_loop_def find_loop.simps [of _ _ _ _ "Some \<lparr>lr_root = root, lr_version = Some v, lr_objectKey = rootKey gid\<rparr>"] truthy_def)
  then show ?thesis by blast
qed

lemma reap_chain:
  assumes chain: "chain_ok H (lookup s) gid ((root, st0, view0) # rest)"
    and head: "lookup s (rootKey gid) = Some (encodeRoot root, v)"
    and keep: "\<And>k. k = rootKey gid \<or> k \<in> reap_keeps ((root, rootKey gid)
        # map (\<lambda>(r, y). (r, the (rt_historyObjectKey r))) rest) \<Longrightarrow> lookup s' k = lookup s k"
  shows "chain_ok H (lookup s') gid rest" and "stored_root (lookup s') root st0 view0"
    and "\<forall>key \<in> set (referencedObjects root). lookup s' key = lookup s key"
proof -
  let ?rs = "(root, rootKey gid) # map (\<lambda>(r, y). (r, the (rt_historyObjectKey r))) rest"
  have member: "(r, the (rt_historyObjectKey r)) \<in> set ?rs" if "(r, x) \<in> set rest" for r x
    using that by force
  have refs: "lookup s' key = lookup s key" if "(r, x) \<in> set rest" "key \<in> set (referencedObjects r)" for r x key
    using keep in_reap_keeps(2) [OF member [OF that(1)]] that(2) by blast
  show refs0: "\<forall>key \<in> set (referencedObjects root). lookup s' key = lookup s key"
    using keep in_reap_keeps(2) [of root "rootKey gid" ?rs] by auto
  show "chain_ok H (lookup s') gid rest"
  proof (rule chain_ok_keep)
    show c: "chain_ok H (lookup s) gid rest" using chain by simp
    show "lookup s' (checkpointRootKey gid (rt_checkpointSeq r) (rt_rootId r))
        = lookup s (checkpointRootKey gid (rt_checkpointSeq r) (rt_rootId r))" if "(r, x) \<in> set rest" for r x
    proof -
      have "rt_historyObjectKey r = Some (checkpointRootKey gid (rt_checkpointSeq r) (rt_rootId r))"
        using c that by (induction rest) auto
      then show ?thesis using keep in_reap_keeps(1) [OF member [OF that]] by simp
    qed
  qed (use refs in auto)
  show "stored_root (lookup s') root st0 view0"
    using chain refs0 by (auto intro: stored_root_bodies)
qed

text \<open>A flush whose parent object is gone leaves a history of one checkpoint.\<close>

lemma find_loop_orphan:
  assumes head: "lookup s (rootKey gid) = Some (encodeRoot root, v)"
    and parent: "rt_parent root = Some k" "lookup s k = None" and n: "n \<noteq> rt_checkpointSeq root"
  shows "findCheckpointRoot E ops s gid n = Inr None"
proof -
  have "readRootObject E ops s k = Inr None" using parent(2) by (simp add: readRootObject_def)
  then have "find_loop E ops s n (Some \<lparr>lr_root = root, lr_version = Some v, lr_objectKey = rootKey gid\<rparr>)
      = Some (Inr None)"
    using n parent(1)
    by (subst find_loop.simps) (auto simp: find_loop.simps [of _ _ _ _ None] truthy_def)
  then show ?thesis using readHeadRoot_stored [OF head] by (simp add: findCheckpointRoot_def of_loop_def)
qed

text \<open>Retention switched on over a root that was flushed without it.\<close>

lemma late_retention_prepared:
  assumes prep: "prepared g s root s1" and retain: "shouldRetainHistory g"
    and root: "gs_root g = Some r0" "rt_historyObjectKey r0 = None" "gs_rootObjectKey g = Some (rootKey (gs_gameId g))"
  shows "rt_parent root = Some (rootKey (gs_gameId g))"
    and "obj_get ops s1 (rootKey (gs_gameId g)) = Inr (Some (encodeRoot root, version_of (encodeRoot root)))"
  using assms by (simp_all add: prepared_def coalesce_def)

lemma late_retention_diverges:
  assumes ok: "session_ok (ev_host E) ops s g" and dirty: "isDirty g"
    and root: "gs_root g = Some r0" "rt_historyObjectKey r0 = None" "gs_rootObjectKey g = Some (rootKey (gs_gameId g))"
    and current: "gs_rootVersion g = map_option snd (lookup s (rootKey (gs_gameId g)))"
    and retain: "\<not> gs_enableTimeTravel g" "gs_retainCheckpoints g > 0"
  shows "\<exists>g' s'. flush E ops g s = (Inl Diverges, g', s')"
proof -
  obtain root s1 where p: "flush_prepare E ops g s = (Inr (root, version_of (encodeRoot root)), s1)"
    "prepared g s root s1"
    by (rule flush_prepare_cases [OF ok]) (simp_all add: current)
  have sh: "shouldRetainHistory g" using retain by (simp add: shouldRetainHistory_def)
  note l = late_retention_prepared [OF p(2) sh root]
  let ?g1 = "flush_commit root (version_of (encodeRoot root)) g"
  obtain h where h: "truthy (rt_historyObjectKey root) = Some h"
    using p(2) sh by (auto simp: prepared_def flush_history_key_def truthy_def checkpointRootKey_def)
  have "truthy (rt_parent root) = Some (rootKey (gs_gameId g))"
    using l(1) by (simp add: truthy_def rootKey_def)
  then have "prune_walk E ops s1 r root h i a b = None" for r i a b
    by (rule prune_walk_self [OF l(2) decodeRoot_encodeRoot])
  then have "flush_cleanup E ops (gs_root g) root ?g1 s1 = (Inl Diverges, s1)"
    using retain h sh
    by (simp add: flush_cleanup_def pruneRetainedCheckpoints_def of_loop_def io_bind_def io_return_def
        shouldRetainHistory_def flush_commit_def)
  then show ?thesis using dirty p(1) by (simp add: flush_def)
qed

lemma late_timetravel_diverges:
  assumes prep: "prepared g s root s1" and sh: "shouldRetainHistory g"
    and root: "gs_root g = Some r0" "rt_historyObjectKey r0 = None" "gs_rootObjectKey g = Some (rootKey (gs_gameId g))"
    and n: "n \<noteq> rt_checkpointSeq root"
  shows "viewCheckpoint E ops s1 (gs_gameId g) n = Inl Diverges"
proof -
  note l = late_retention_prepared [OF prep sh root]
  have "truthy (rt_parent root) = Some (rootKey (gs_gameId g))"
    using l(1) by (simp add: truthy_def rootKey_def)
  then have "find_loop E ops s1 n (Some \<lparr>lr_root = root, lr_version = Some (version_of (encodeRoot root)),
      lr_objectKey = rootKey (gs_gameId g)\<rparr>) = None"
    using find_loop_self [OF l(2) decodeRoot_encodeRoot] n by simp
  moreover have "readHeadRoot E ops s1 (gs_gameId g) = Inr (Some \<lparr>lr_root = root,
      lr_version = Some (version_of (encodeRoot root)), lr_objectKey = rootKey (gs_gameId g)\<rparr>)"
    using l(2) by (intro readHeadRoot_stored) simp
  ultimately show ?thesis by (simp add: viewCheckpoint_def findCheckpointRoot_def of_loop_def)
qed

end

end
