(* ===== verification/StateStoreProps.thy ===== *)
theory StateStoreProps
  imports StateStoreReap
begin

text \<open>
  The properties of the state store, over the in-memory object store
  (\<^verbatim>\<open>MemoryStateObjectStore\<close>), each with a concrete instance. \<open>host_env (ev_host E)\<close> collects
  what is assumed of the platform: \<^verbatim>\<open>JSON.parse\<close> inverts \<^verbatim>\<open>JSON.stringify\<close> on the documents
  written, and SHA-256 has no collision among the bodies at hand.
\<close>

section \<open>Sessions as maps\<close>

lemma session_state:
  "gs_state (putBlob k b g) = gs_state g" "gs_state (deleteBlob k g) = gs_state g"
  "gs_state (writeState b g) = b"
  by (simp_all add: putBlob_def deleteBlob_def writeState_def Let_def)

text \<open>
  C7: the operations of a session refine updates of a map from blob keys to bytes beside one
  state value: reading after a write gives what was written, deleting removes exactly one key,
  and the other component is untouched.
\<close>

theorem session_refines_map:
  "session_view ops s (putBlob k b g) = (readState g, (blob_view ops s g)(k \<mapsto> b))
   \<and> session_view ops s (deleteBlob k g) = (readState g, (blob_view ops s g)(k := None))
   \<and> session_view ops s (writeState b g) = (b, blob_view ops s g)
   \<and> getBlob ops s (putBlob k b g) k = Inr (Some b)
   \<and> getBlob ops s (deleteBlob k g) k = Inr None"
  by (simp add: session_view_def view_putBlob view_deleteBlob view_writeState getBlob_putBlob
      getBlob_deleteBlob readState_def session_state)

text \<open>
  \<^verbatim>\<open>listBlobs\<close> returns, sorted and without repetition, exactly the keys with the prefix
  that \<^verbatim>\<open>getBlob\<close> would find, persisted and unflushed ones alike.
\<close>

theorem listBlobs_exact:
  assumes "session_ok H ops s g"
  shows "set (listBlobs pre g) = {k. prefix pre k \<and> (\<exists>b. getBlob ops s g k = Inr (Some b))}
    \<and> sorted (listBlobs pre g) \<and> distinct (listBlobs pre g)"
proof -
  have "k \<in> dom (blob_view ops s g) \<longleftrightarrow> (\<exists>b. getBlob ops s g k = Inr (Some b))" for k
    by (auto simp: blob_view_def split: sum.splits)
  then show ?thesis
    using listBlobs_view [OF assms] sorted_listBlobs distinct_listBlobs by auto
qed

theorem listBlobs_exact_witness:
  "set (listBlobs ''m'' session0)
    = {k. prefix ''m'' k \<and> (\<exists>b. getBlob (mem_ops env0) mem_empty session0 k = Inr (Some b))}"
  using listBlobs_exact [OF session0_ok, of "''m''"] by simp

section \<open>Flush\<close>

lemmas mem_env = mem_state_env

text \<open>
  C1: a flush that returns is durable. Opening the game again, with any options, gives a
  session with the same state and the same blobs, one checkpoint further.
\<close>

theorem flush_then_open:
  assumes "host_env (ev_host E)" and "session_ok (ev_host E) (mem_ops E) s g"
    and "flush E (mem_ops E) g s = (Inr (Some root), g', s')" and "sn_gameId sn = gs_gameId g"
  shows "\<exists>g''. openSession E so (mem_ops E) s' sn = Inr g''
    \<and> session_view (mem_ops E) s' g'' = session_view (mem_ops E) s g
    \<and> gs_checkpointSeq g'' = gs_checkpointSeq g + 1 \<and> gs_root g'' = Some root"
  using state_env.flush_durable(1) [OF mem_env [OF assms(1)] assms(2-4)] .

theorem flush_then_open_witness:
  "\<exists>root g' s' g''. flush env0 (mem_ops env0) session0 mem_empty = (Inr (Some root), g', s')
    \<and> openSession env0 options0 (mem_ops env0) s' session_options0 = Inr g''
    \<and> session_view (mem_ops env0) s' g'' = session_view (mem_ops env0) mem_empty session0"
proof -
  obtain root g' s' where r: "flush env0 (mem_ops env0) session0 mem_empty = (Inr (Some root), g', s')"
    by (rule session0_flush)
  have "sn_gameId session_options0 = gs_gameId session0"
    by (simp add: session0_facts session_options0_def)
  from flush_then_open [OF host_env0 session0_ok r this] r show ?thesis by blast
qed

text \<open>
  C4: a flush of a changed session whose root version is the head's succeeds, writes, and
  leaves the session clean and consistent with the store, with the same contents, as long as
  it does not have to walk over old roots.
\<close>

theorem flush_progress:
  assumes "host_env (ev_host E)" and ok: "session_ok (ev_host E) (mem_ops E) s g" and "isDirty g"
    and "gs_rootVersion g = map_option snd (mem_lookup s (rootKey (gs_gameId g)))"
    and "gs_enableTimeTravel g \<or> gs_retainCheckpoints g \<le> 0"
  shows "\<exists>root g' s'. flush E (mem_ops E) g s = (Inr (Some root), g', s') \<and> \<not> isDirty g'
    \<and> session_ok (ev_host E) (mem_ops E) s' g'
    \<and> session_view (mem_ops E) s' g' = session_view (mem_ops E) s g"
proof -
  note env = mem_env [OF assms(1)]
  obtain root g' s' where r: "flush E (mem_ops E) g s = (Inr (Some root), g', s')"
    using state_env.flush_succeeds [OF env assms(2-5)] by blast
  with state_env.flush_durable(2-4) [OF env ok r, of "session_options0\<lparr>sn_gameId := gs_gameId g\<rparr>"]
  show ?thesis by auto
qed

theorem flush_progress_witness:
  "\<exists>root g' s'. flush env0 (mem_ops env0) session0 mem_empty = (Inr (Some root), g', s') \<and> \<not> isDirty g'"
  using flush_progress [OF host_env0 session0_ok session0_facts(1)] session0_facts
  by (auto simp: mem_lookup_def mem_empty_def)

text \<open>
  C2: fencing. A session whose root version is no longer the head's cannot commit: the flush
  ends with the conflict, the head stays as it is, and the session keeps its changes.
\<close>

theorem flush_stale_refused:
  assumes "host_env (ev_host E)" and "maps_ok g" and "isDirty g" and "gs_rootVersion g = Some v"
    and "map_option snd (mem_lookup s (rootKey (gs_gameId g))) \<noteq> Some v"
  shows "\<exists>s'. flush E (mem_ops E) g s = (Inl (StoreErr (ConditionalPutConflict (rootKey (gs_gameId g)))), g, s')
    \<and> mem_lookup s' (rootKey (gs_gameId g)) = mem_lookup s (rootKey (gs_gameId g))"
  using state_env.flush_stale [OF mem_env [OF assms(1)] assms(2-5)] .

theorem flush_stale_refused_witness:
  "\<exists>s'. flush env0 (mem_ops env0) (session0\<lparr>gs_rootVersion := Some ''old''\<rparr>) mem_empty
     = (Inl (StoreErr (ConditionalPutConflict (rootKey ''g1''))), session0\<lparr>gs_rootVersion := Some ''old''\<rparr>, s')"
proof -
  have "maps_ok (session0\<lparr>gs_rootVersion := Some ''old''\<rparr>)"
    using session0_ok by (simp add: session_ok_def maps_ok_def)
  moreover have "isDirty (session0\<lparr>gs_rootVersion := Some ''old''\<rparr>)"
    using session0_facts by (simp add: isDirty_def)
  ultimately show ?thesis
    using flush_stale_refused [OF host_env0, of "session0\<lparr>gs_rootVersion := Some ''old''\<rparr>" "''old''" mem_empty]
      session0_facts
    by (auto simp: mem_lookup_def mem_empty_def)
qed


text \<open>A second round for the witness: the session after its first flush, written again.\<close>

lemma session1_flush:
  obtains root1 g1 s1 root2 g2 s2 where
    "flush env0 (mem_ops env0) session0 mem_empty = (Inr (Some root1), g1, s1)"
    "flush env0 (mem_ops env0) (writeState ''next'' g1) s1 = (Inr (Some root2), g2, s2)"
    "session_ok (ev_host env0) (mem_ops env0) s1 (writeState ''next'' g1)"
    "gs_root g1 = Some root1" "gs_rootVersion g1 = Some (etag (ev_host env0) (encodeRoot root1))"
    "gs_gameId g1 = ''g1''" "gs_rootObjectKey g1 = Some (rootKey ''g1'')" "rt_historyObjectKey root1 = None"
    "mem_lookup s1 (rootKey ''g1'') = Some (encodeRoot root1, etag (ev_host env0) (encodeRoot root1))"
    "\<not> gs_enableTimeTravel g1"
proof -
  obtain root1 g1 s1 where r1: "flush env0 (mem_ops env0) session0 mem_empty = (Inr (Some root1), g1, s1)"
    by (rule session0_flush)
  have ok1: "session_ok (ev_host env0) (mem_ops env0) s1 g1"
    using plain_mem.flush_durable(3) [OF session0_ok r1, of session_options0]
    by (simp add: session0_facts session_options0_def)
  note ok = session_ok_ops(1) [OF ok1, of "''next''"]
  obtain x s0 where p: "plain_mem.prepared session0 mem_empty root1 s0"
    and g1: "g1 = flush_commit root1 (etag (ev_host env0) (encodeRoot root1)) session0"
    and clean: "flush_cleanup env0 (mem_ops env0) (gs_root session0) root1 g1 s0 = (x, s1)"
  proof (rule plain_mem.flush_inv [OF r1 session0_ok session0_facts(1)])
    fix root s0
    assume "plain_mem.prepared session0 mem_empty root s0"
      "g1 = flush_commit root (etag (ev_host env0) (encodeRoot root)) session0"
      "Inr (Some root1) = Inr (Some root) \<or> (\<exists>e. Inr (Some root1) = Inl e)"
      "\<exists>x. flush_cleanup env0 (mem_ops env0) (gs_root session0) root g1 s0 = (x, s1)"
    then show ?thesis using that by auto
  qed simp
  have head: "mem_lookup s1 (rootKey ''g1'') = Some (encodeRoot root1, etag (ev_host env0) (encodeRoot root1))"
    using plain_mem.flush_committed(1) [OF session0_ok p g1 clean] session0_facts by simp
  have hk: "rt_historyObjectKey root1 = None"
    using p session0_facts
    by (simp add: plain_mem.prepared_def flush_history_key_def shouldRetainHistory_def)
  have f: "gs_root g1 = Some root1" "gs_rootVersion g1 = Some (etag (ev_host env0) (encodeRoot root1))"
    "gs_gameId g1 = ''g1''" "gs_retainCheckpoints g1 = 0" "\<not> gs_enableTimeTravel g1"
    "gs_rootObjectKey g1 = Some (rootKey ''g1'')"
    using g1 session0_facts hk by (simp_all add: flush_commit_def)
  obtain root2 g2 s2 where "flush env0 (mem_ops env0) (writeState ''next'' g1) s1 = (Inr (Some root2), g2, s2)"
    using plain_mem.flush_succeeds [OF ok] f head by (auto simp: isDirty_def writeState_def)
  with that r1 ok f hk head show ?thesis by blast
qed


text \<open>
  A session of a game that had no root when it was opened has no version to compare, so
  its first flush replaces whatever head is there by then: two sessions that open a new game
  are not fenced against each other.
\<close>

theorem first_flush_unfenced:
  assumes "host_env (ev_host E)" and "session_ok (ev_host E) (mem_ops E) s g" and "isDirty g"
    and "gs_rootVersion g = None" and "flush E (mem_ops E) g s = (r, g', s')"
  shows "\<exists>root. mem_lookup s' (rootKey (gs_gameId g)) = Some (encodeRoot root, etag (ev_host E) (encodeRoot root))
    \<and> rt_checkpointSeq root = gs_checkpointSeq g + 1 \<and> rt_rootId root = ev_rootId E"
  using state_env.flush_unfenced [OF mem_env [OF assms(1)] assms(2-5)] by blast

text \<open>Another session of the same new game has committed its root before.\<close>

theorem first_flush_unfenced_witness:
  "\<exists>s1 root0 root g' s'. mem_lookup s1 (rootKey ''g1'') = Some (encodeRoot root0, etag (ev_host env0) (encodeRoot root0))
    \<and> rt_rootId root0 = ''root-1'' \<and> rt_rootId root = ''root-2''
    \<and> flush (env0\<lparr>ev_rootId := ''root-2''\<rparr>) (mem_ops env0) session0 s1 = g'
    \<and> mem_lookup (snd (snd g')) (rootKey ''g1'') = Some (encodeRoot root, s')
    \<and> rt_checkpointSeq root = 1"
proof -
  obtain root0 g0 s1 where r0: "flush env0 (mem_ops env0) session0 mem_empty = (Inr (Some root0), g0, s1)"
    by (rule session0_flush)
  obtain root0' where h: "mem_lookup s1 (rootKey ''g1'') = Some (encodeRoot root0', etag (ev_host env0) (encodeRoot root0'))"
    "rt_rootId root0' = ''root-1''"
    using first_flush_unfenced [OF host_env0 session0_ok session0_facts(1,3) r0] session0_facts
    by (auto simp: env0_def)
  let ?E = "env0\<lparr>ev_rootId := ''root-2''\<rparr>"
  have H: "host_env (ev_host ?E)" using host_env0 by simp
  have ok: "session_ok (ev_host ?E) (mem_ops ?E) s1 session0"
    using session0_ok by (simp add: session_ok_def session0_def new_session_def emptyMaterialized_def
        putBlob_def writeState_def)
  obtain r g' s' where run: "flush ?E (mem_ops ?E) session0 s1 = (r, g', s')" by (cases "flush ?E (mem_ops ?E) session0 s1")
  from first_flush_unfenced [OF H ok session0_facts(1,3) run]
  obtain root where "mem_lookup s' (rootKey ''g1'') = Some (encodeRoot root, etag (ev_host ?E) (encodeRoot root))"
    "rt_checkpointSeq root = 1" "rt_rootId root = ''root-2''"
    using session0_facts by auto
  with h run show ?thesis by fastforce
qed

text \<open>
  A state write that arrives while a flush is waiting for the store is marked clean by that
  flush without having been written: the next flush does nothing, and a session opened from
  the store still reads the older state.
\<close>

theorem write_during_flush_lost:
  assumes "host_env (ev_host E)" and "session_ok (ev_host E) (mem_ops E) s g"
    and "flush_prepare E (mem_ops E) g s = (Inr (root, v), s1)"
  shows "(let g' = flush_commit root v (writeState b g) in
     readState g' = b \<and> flush E (mem_ops E) g' s1 = (Inr None, g', s1)
     \<and> (\<exists>m. materialize E (mem_ops E) s1 (gs_gameId g) = Inr m \<and> mt_state m = readState g))"
  using state_env.write_during_flush(1,2) [OF mem_env [OF assms(1)] assms(2,3) refl, where b = b]
    state_env.write_during_flush(3) [OF mem_env [OF assms(1)] assms(2,3) refl]
  by (simp add: Let_def readState_def)

theorem write_during_flush_lost_witness:
  "\<exists>root v s1 m. flush_prepare env0 (mem_ops env0) session0 mem_empty = (Inr (root, v), s1)
    \<and> readState (flush_commit root v (writeState ''late'' session0)) = ''late''
    \<and> materialize env0 (mem_ops env0) s1 ''g1'' = Inr m \<and> mt_state m = ''state bytes''"
proof -
  obtain root v s1 where p: "flush_prepare env0 (mem_ops env0) session0 mem_empty = (Inr (root, v), s1)"
    by (rule plain_mem.flush_prepare_cases [OF session0_ok]) (simp_all add: session0_facts)
  from write_during_flush_lost [OF host_env0 session0_ok p, of "''late''"] p session0_facts
  show ?thesis by (auto simp: Let_def readState_def)
qed

text \<open>
  C8: the session invariant (distinct keys, no key both deleted and present, every persisted
  blob in the store under the key of its own hash) holds after every operation and after a
  flush that returns.
\<close>

theorem session_ok_preserved:
  assumes "host_env (ev_host E)" and "session_ok (ev_host E) (mem_ops E) s g"
  shows "session_ok (ev_host E) (mem_ops E) s (putBlob k b g)
    \<and> session_ok (ev_host E) (mem_ops E) s (deleteBlob k g)
    \<and> session_ok (ev_host E) (mem_ops E) s (writeState b g)
    \<and> (\<forall>root g' s'. flush E (mem_ops E) g s = (Inr root, g', s') \<longrightarrow> session_ok (ev_host E) (mem_ops E) s' g')"
proof -
  have "session_ok (ev_host E) (mem_ops E) s' g'" if r: "flush E (mem_ops E) g s = (Inr root, g', s')" for root g' s'
  proof (cases root)
    case None
    then show ?thesis using r assms(2) by (auto simp: flush_def Let_def split: if_splits prod.splits sum.splits)
  next
    case (Some x)
    then show ?thesis
      using state_env.flush_durable(3) [OF mem_env [OF assms(1)] assms(2), of x g' s'
          "session_options0\<lparr>sn_gameId := gs_gameId g\<rparr>"] r by simp
  qed
  then show ?thesis using session_ok_ops [OF assms(2)] by blast
qed

theorem session_ok_preserved_witness:
  "session_ok (ev_host env0) (mem_ops env0) mem_empty (deleteBlob ''map'' session0)"
  using session_ok_preserved [OF host_env0 session0_ok] by blast

section \<open>Stored documents and keys\<close>

text \<open>C11: a stored root is read back as it was written, whatever its contents.\<close>

theorem root_roundtrip:
  assumes "host_env H"
  shows "decodeRoot H fresh (encodeRoot root) = Inr root"
  using host_env.decodeRoot_encodeRoot [OF assms] .

theorem root_roundtrip_witness:
  "decodeRoot plain_host ''x'' (encodeRoot (buildRoot env0 session0 (inlineStateRef plain_host ''s'') []))
     = Inr (buildRoot env0 session0 (inlineStateRef plain_host ''s'') [])"
  using root_roundtrip [OF plain_host_env] .

text \<open>
  Objects of different games, and objects of different kinds or contents within one game,
  never share a key, whatever characters the game ids and blob keys contain.
\<close>

theorem object_keys_disjoint:
  "(blobKey g k h = blobKey g' k' h' \<longleftrightarrow> g = g' \<and> k = k' \<and> h = h')
   \<and> (rootKey g = rootKey g' \<longleftrightarrow> g = g') \<and> (stateObjectKey g h = stateObjectKey g' h' \<longleftrightarrow> g = g' \<and> h = h')
   \<and> blobKey g k h \<noteq> rootKey g' \<and> blobKey g k h \<noteq> stateObjectKey g' h'
   \<and> blobKey g k h \<noteq> checkpointRootKey g' n i \<and> stateObjectKey g h \<noteq> rootKey g'
   \<and> stateObjectKey g h \<noteq> checkpointRootKey g' n i \<and> checkpointRootKey g n i \<noteq> rootKey g'"
  by (simp add: blobKey_inject object_keys)

text \<open>
  The local adapter never touches a path outside its root directory, and the S3 adapter's
  listing gives back the keys that were stored.
\<close>

theorem adapter_keys:
  "(pathFor root k \<noteq> Inr p \<or> prefix root p) \<and> unkey pre (keyFor pre key) = key"
  using pathFor_inside_root unkey_keyFor by blast

theorem adapter_keys_witness:
  "pathFor [''data''] ''../x'' \<noteq> Inr [''x''] \<and> unkey ''p'' (keyFor ''p'' ''k'') = ''k''"
  using adapter_keys [of "[''data'']" "''../x''" "[''x'']" "''p''" "''k''"] by auto

section \<open>Checkpoint history\<close>

lemma history_grows:
  assumes r: "history_reach H gid (g, s, log)" and H: "host_env H" "ev_host E = H"
  obtains root g' s' where "flush E (mem_ops E) (writeState b g) s = (Inr (Some root), g', s')"
    and "history_reach H gid (g', s', (root, session_view (mem_ops E) s (writeState b g)) # log)"
proof -
  have r': "history_reach H gid (writeState b g, s, log)" by (rule history_reach.write_state [OF r])
  then have inv: "history_inv H gid (writeState b g, s, log)" using history_reach_inv H by blast
  have "gs_rootVersion (writeState b g) = map_option snd (mem_lookup s (rootKey (gs_gameId g)))"
    using inv by (cases log) (auto simp: history_inv_def)
  then obtain root g' s' where f: "flush E (mem_ops E) (writeState b g) s = (Inr (Some root), g', s')"
    using state_env.flush_succeeds [OF mem_env [of E], of s "writeState b g"] inv H
    by (auto simp: history_inv_def isDirty_def writeState_def)
  from history_reach.flush [OF r' H(2)] f H(2) that show ?thesis by simp
qed

lemma history0:
  obtains g1 s1 root1 g2 s2 root2 where
    "history_reach plain_host ''g1'' (g2, s2, [(root2, (''b'', Map.empty)), (root1, (''a'', Map.empty))])"
proof -
  let ?sn = "session_options0\<lparr>sn_enableTimeTravel := Some True\<rparr>"
  let ?g0 = "new_session options0 ?sn (emptyMaterialized ''g1'')"
  have E: "ev_host env0 = plain_host" by (simp add: env0_def)
  have h0: "history_reach plain_host ''g1'' (?g0, mem_empty, [])"
    by (rule history_reach.start) (simp_all add: session_options0_def mem_empty_def)
  have v0: "blob_view ops s ?g0 = Map.empty" for ops :: "mem_store StateObjectStore" and s
    by (simp add: blob_view_def getBlob_def new_session_def emptyMaterialized_def fun_eq_iff)
  obtain root1 g1 s1 where f1: "flush env0 (mem_ops env0) (writeState ''a'' ?g0) mem_empty = (Inr (Some root1), g1, s1)"
    and h1: "history_reach plain_host ''g1'' (g1, s1, [(root1, session_view (mem_ops env0) mem_empty (writeState ''a'' ?g0))])"
    by (rule history_grows [OF h0 plain_host_env E])
  have "session_ok (ev_host env0) (mem_ops env0) mem_empty (writeState ''a'' ?g0)"
    using history_reach_inv [OF history_reach.write_state [OF h0] plain_host_env] E
    by (simp add: history_inv_def)
  moreover have "gs_gameId ?g0 = ''g1''" by (simp add: new_session_def session_options0_def)
  ultimately have "session_view (mem_ops env0) s1 g1 = session_view (mem_ops env0) mem_empty (writeState ''a'' ?g0)"
    by (intro plain_mem.flush_durable(2) [OF _ f1, of ?sn]) (simp_all add: session_options0_def)
  then have v1: "session_view (mem_ops env0) s1 g1 = (''a'', Map.empty)"
    by (simp add: session_view_def session_state view_writeState v0)
  obtain root2 g2 s2 where
    h2: "history_reach plain_host ''g1'' (g2, s2, (root2, session_view (mem_ops env0) s1 (writeState ''b'' g1))
       # [(root1, session_view (mem_ops env0) mem_empty (writeState ''a'' ?g0))])"
    by (rule history_grows [OF h1 plain_host_env E])
  then show ?thesis
    using that v1 by (simp add: session_view_def session_state view_writeState v0)
qed

lemma checkpoint_viewed:
  assumes "host_env (ev_host E)" and "history_reach (ev_host E) gid (g, s, log)"
    and "(root, st, view) \<in> set log"
  shows "\<exists>m. viewCheckpoint E (mem_ops E) s gid (rt_checkpointSeq root) = Inr (Some m)
    \<and> mt_root m = Some root \<and> mt_state m = st
    \<and> blob_view (mem_ops E) s (new_session so sn m) = view"
proof -
  have inv: "history_inv (ev_host E) gid (g, s, log)" using history_reach_inv assms by blast
  obtain head x rest where log: "log = (head, x) # rest" using assms(3) by (cases log) auto
  show ?thesis
    using state_env.viewCheckpoint_chain [OF mem_env [OF assms(1)], of "ev_host E" s gid head x rest] inv assms(3) log
    by (auto simp: history_inv_def)
qed

text \<open>
  Time travel. However a session with time travel enabled wrote and flushed, viewing any
  checkpoint gives back exactly the state and the blobs the session had when it was flushed.
\<close>

theorem time_travel:
  assumes "host_env (ev_host E)" and "history_reach (ev_host E) gid (g, s, log)"
    and "(root, st, view) \<in> set log"
  shows "\<exists>m. viewCheckpoint E (mem_ops E) s gid (rt_checkpointSeq root) = Inr (Some m)
    \<and> mt_root m = Some root \<and> mt_state m = st
    \<and> blob_view (mem_ops E) s (new_session so sn m) = view"
  using assms by (rule checkpoint_viewed)

theorem time_travel_witness:
  "\<exists>s (root :: StateRoot) m. viewCheckpoint env0 (mem_ops env0) s ''g1'' (rt_checkpointSeq root) = Inr (Some m)
    \<and> mt_state m = ''a''"
proof -
  obtain g2 s2 root2 root1 where
    h: "history_reach plain_host ''g1'' (g2, s2, [(root2, (''b'', Map.empty)), (root1, (''a'', Map.empty))])"
    by (rule history0)
  have "history_reach (ev_host env0) ''g1'' (g2, s2, [(root2, (''b'', Map.empty)), (root1, (''a'', Map.empty))])"
    using h by (simp add: env0_def)
  from time_travel [OF host_env0 this, of root1 "''a''" Map.empty options0 session_options0] show ?thesis by auto
qed

text \<open>
  Restoring a checkpoint adds a new head whose state and blobs are the old checkpoint's, and every
  checkpoint, the old ones and the restored one, can still be viewed.
\<close>

lemma restore_views:
  assumes "host_env (ev_host E)" and "history_reach (ev_host E) gid (g, s, log)"
    and "(root, st, view) \<in> set log"
  shows "\<exists>new s'. restoreCheckpoint E (mem_ops E) gid (rt_checkpointSeq root) bt ct s = (Inr (Some new), s')
    \<and> rt_checkpointSeq new = int (length log) + 1
    \<and> (\<exists>m. materialize E (mem_ops E) s' gid = Inr m \<and> mt_state m = st
         \<and> blob_view (mem_ops E) s' (new_session so sn m) = view)
    \<and> (\<forall>(r, st', view') \<in> set ((new, st, view) # log). \<exists>m.
         viewCheckpoint E (mem_ops E) s' gid (rt_checkpointSeq r) = Inr (Some m) \<and> mt_state m = st'
         \<and> blob_view (mem_ops E) s' (new_session so sn m) = view')"
proof -
  note env = mem_env [OF assms(1)]
  have inv: "history_inv (ev_host E) gid (g, s, log)" using history_reach_inv assms by blast
  obtain head x rest where log: "log = (head, x) # rest" using assms(3) by (cases log) auto
  have chain: "chain_ok (ev_host E) (mem_lookup s) gid ((head, x) # rest)"
    and hd: "mem_lookup s (rootKey gid) = Some (encodeRoot head, etag (ev_host E) (encodeRoot head))"
    and r: "(root, st, view) \<in> set ((head, x) # rest)"
    using inv log assms(3) by (auto simp: history_inv_def)
  obtain new s' where run: "restoreCheckpoint E (mem_ops E) gid (rt_checkpointSeq root) bt ct s = (Inr (Some new), s')"
    and chain': "chain_ok (ev_host E) (mem_lookup s') gid ((new, st, view) # log)"
    and hd': "mem_lookup s' (rootKey gid) = Some (encodeRoot new, etag (ev_host E) (encodeRoot new))"
    using state_env.restore_chain [OF env chain hd r] log by blast
  have st: "stored_root (mem_lookup s') new st view" "rt_gameId new = gid"
    using chain' by simp_all
  have v: "\<exists>m. viewCheckpoint E (mem_ops E) s' gid (rt_checkpointSeq r) = Inr (Some m) \<and> mt_state m = st'
         \<and> blob_view (mem_ops E) s' (new_session so sn m) = view'"
    if "(r, st', view') \<in> set ((new, st, view) # log)" for r st' view'
    using state_env.viewCheckpoint_chain [OF env chain' hd' that] by blast
  obtain m where m: "materialize E (mem_ops E) s' gid = Inr m" "mt_state m = st" "mt_blobs m = rt_blobManifest new"
    by (rule state_env.materialize_stored [OF env hd' st(2,1)])
  have "blob_view (mem_ops E) s' (new_session so sn m) = view"
    using st(1) m(3) by (intro state_env.view_of_manifest [OF env st(1)]) (simp_all add: new_session_def stored_root_def)
  then show ?thesis using run m chain' v by fastforce
qed

section \<open>Reaping and late retention\<close>

definition history_keeps :: "string \<Rightarrow> history \<Rightarrow> string set" where
  "history_keeps gid log = (case log of [] \<Rightarrow> {} | (root, _) # rest \<Rightarrow>
     reap_keeps ((root, rootKey gid) # map (\<lambda>(r, y). (r, the (rt_historyObjectKey r))) rest))"

lemma mem_list_entry:
  assumes "mem_list H s pre = Inr es" and "e \<in> set es"
  obtains o1 where "(le_key e, o1) \<in> set (mem_objects s)" "le_updatedAt e = Some (st_updatedAt o1)"
  using assms by (auto simp: mem_list_def)

lemma reap_history:
  assumes "host_env (ev_host E)" and reach: "history_reach (ev_host E) gid (g, s, log)"
    and ne: "log \<noteq> []" and len: "length log \<le> max_safe_integer"
  shows "\<exists>res s'. reapOrphans E (mem_ops E) gid t s = (Inr res, s') \<and> \<not> ro_skipped res
    \<and> (\<forall>k. k = rootKey gid \<or> k \<in> history_keeps gid log \<longrightarrow> mem_lookup s' k = mem_lookup s k)
    \<and> ((\<forall>(k, o1) \<in> set (mem_objects s). st_updatedAt o1 \<le> t) \<longrightarrow>
        (\<forall>k. k \<noteq> rootKey gid \<longrightarrow> k \<notin> history_keeps gid log \<longrightarrow> prefix (gamePrefix gid) k \<longrightarrow>
          mem_lookup s' k = None))"
proof -
  note env = mem_env [OF assms(1)]
  have inv: "history_inv (ev_host E) gid (g, s, log)" using history_reach_inv assms by blast
  obtain root x rest where log: "log = (root, x) # rest" using ne by (cases log) auto
  have chain: "chain_ok (ev_host E) (mem_lookup s) gid ((root, x) # rest)"
    and hd: "mem_lookup s (rootKey gid) = Some (encodeRoot root, etag (ev_host E) (encodeRoot root))"
    using inv log by (auto simp: history_inv_def)
  obtain es where es: "mem_list (ev_host E) s (gamePrefix gid) = Inr es" by (simp add: mem_list_def)
  have keep: "history_keeps gid log
      = reap_keeps ((root, rootKey gid) # map (\<lambda>(r, y). (r, the (rt_historyObjectKey r))) rest)"
    by (simp add: history_keeps_def log)
  have os: "os_list (mem_ops E) = Some (mem_list (ev_host E))" by (simp add: MemoryStateObjectStore_def)
  obtain res s' where run: "reapOrphans E (mem_ops E) gid t s = (Inr res, s')" "\<not> ro_skipped res"
    and L: "mem_lookup s' = (\<lambda>k. if (\<exists>e \<in> set es. le_key e = k \<and> \<not> newer t e) \<and> k \<noteq> rootKey gid
        \<and> k \<notin> history_keeps gid log then None else mem_lookup s k)"
    using state_env.reapOrphans_chain [OF env chain hd _ os es, of t] len log keep by auto
  have gone: "mem_lookup s' k = None"
    if k: "k \<noteq> rootKey gid" "k \<notin> history_keeps gid log" "prefix (gamePrefix gid) k"
      and old: "\<forall>(k, o1) \<in> set (mem_objects s). st_updatedAt o1 \<le> t" for k
  proof (cases "mem_lookup s k")
    case (Some y)
    then have "k \<in> le_key ` set es" using mem_list_keys [OF es] k(3) by auto
    then obtain e where e: "e \<in> set es" "le_key e = k" by auto
    obtain o1 where "(le_key e, o1) \<in> set (mem_objects s)" "le_updatedAt e = Some (st_updatedAt o1)"
      by (rule mem_list_entry [OF es e(1)])
    then have "\<not> newer t e" using old by (auto simp: newer_def)
    then show ?thesis using e k L by auto
  qed (simp add: L)
  have kept: "mem_lookup s' k = mem_lookup s k" if "k = rootKey gid \<or> k \<in> history_keeps gid log" for k
    using that L by auto
  show ?thesis
    by (intro exI conjI allI impI) (rule run, rule run, rule kept, assumption, rule gone, assumption+)
qed

text \<open>
  C6: \<^verbatim>\<open>reapOrphans\<close> never removes the head or anything a listed checkpoint needs: after it
  the head is the same and every checkpoint can still be viewed with its contents.
\<close>

theorem reap_keeps_checkpoints:
  assumes "host_env (ev_host E)" and "history_reach (ev_host E) gid (g, s, log)"
    and "log \<noteq> []" and "length log \<le> max_safe_integer"
  shows "\<exists>res s'. reapOrphans E (mem_ops E) gid t s = (Inr res, s') \<and> \<not> ro_skipped res
    \<and> mem_lookup s' (rootKey gid) = mem_lookup s (rootKey gid)
    \<and> (\<forall>(r, st, view) \<in> set log. \<exists>m. viewCheckpoint E (mem_ops E) s' gid (rt_checkpointSeq r) = Inr (Some m)
         \<and> mt_state m = st \<and> blob_view (mem_ops E) s' (new_session so sn m) = view)"
proof -
  note env = mem_env [OF assms(1)]
  obtain res s' where run: "reapOrphans E (mem_ops E) gid t s = (Inr res, s')" "\<not> ro_skipped res"
    and keep: "\<And>k. k = rootKey gid \<or> k \<in> history_keeps gid log \<Longrightarrow> mem_lookup s' k = mem_lookup s k"
    using reap_history [OF assms, of t] by blast
  have inv: "history_inv (ev_host E) gid (g, s, log)" using history_reach_inv assms by blast
  obtain root st0 view0 rest where log: "log = (root, st0, view0) # rest" using assms(3) by (cases log) auto
  have chain: "chain_ok (ev_host E) (mem_lookup s) gid ((root, st0, view0) # rest)"
    and hd: "mem_lookup s (rootKey gid) = Some (encodeRoot root, etag (ev_host E) (encodeRoot root))"
    using inv log by (auto simp: history_inv_def)
  note after = state_env.reap_chain [OF env chain hd keep [unfolded history_keeps_def log list.case prod.case]]
  have "\<exists>m. viewCheckpoint E (mem_ops E) s' gid (rt_checkpointSeq r) = Inr (Some m)
      \<and> mt_state m = st \<and> blob_view (mem_ops E) s' (new_session so sn m) = view"
    if r: "(r, st, view) \<in> set log" for r st view
  proof -
    have stored: "stored_root (mem_lookup s') r st view"
      using r log after(2) state_env.chain_stored [OF env after(1)] by auto
    have mem: "r = root \<or> (r, st, view) \<in> set rest" using r log by auto
    have seq: "rt_checkpointSeq root = 1 + int (length rest)"
      and par: "rt_parent root = (case rest of [] \<Rightarrow> None | (r, _) # _ \<Rightarrow> rt_historyObjectKey r)"
      using chain by simp_all
    have "mem_lookup s' (rootKey gid) = Some (encodeRoot root, etag (ev_host E) (encodeRoot root))"
      using keep hd by simp
    then obtain c where "findCheckpointRoot E (mem_ops E) s' gid (rt_checkpointSeq r) = Inr (Some c)" "lr_root c = r"
      using state_env.findCheckpointRoot_head [OF env after(1) seq par _ mem] by blast
    from state_env.viewCheckpoint_found [OF env this stored] show ?thesis by blast
  qed
  then show ?thesis using run keep by blast
qed

theorem reap_keeps_checkpoints_witness:
  "\<exists>s (root :: StateRoot) res s' m. reapOrphans env0 (mem_ops env0) ''g1'' 5 s = (Inr res, s')
     \<and> viewCheckpoint env0 (mem_ops env0) s' ''g1'' (rt_checkpointSeq root) = Inr (Some m) \<and> mt_state m = ''a''"
proof -
  obtain g2 s2 root2 root1 where
    h: "history_reach plain_host ''g1'' (g2, s2, [(root2, (''b'', Map.empty)), (root1, (''a'', Map.empty))])"
    by (rule history0)
  have "history_reach (ev_host env0) ''g1'' (g2, s2, [(root2, (''b'', Map.empty)), (root1, (''a'', Map.empty))])"
    using h by (simp add: env0_def)
  from reap_keeps_checkpoints [OF host_env0 this, of 5 options0 session_options0]
  obtain res s' m where "reapOrphans env0 (mem_ops env0) ''g1'' 5 s2 = (Inr res, s')"
    "viewCheckpoint env0 (mem_ops env0) s' ''g1'' (rt_checkpointSeq root1) = Inr (Some m)" "mt_state m = ''a''"
    by (auto simp: max_safe_integer_def)
  then show ?thesis by blast
qed

lemma prefix_checkpointRootKey: "prefix (gamePrefix gid) (checkpointRootKey gid n i)"
  by (simp add: checkpointRootKey_def)

lemma head_history_reaped:
  assumes "chain_ok H L gid ((root, x) # rest)"
  shows "checkpointRootKey gid (rt_checkpointSeq root) (rt_rootId root) \<notin> history_keeps gid ((root, x) # rest)"
proof -
  let ?k = "checkpointRootKey gid (rt_checkpointSeq root) (rt_rootId root)"
  have own: "?k \<notin> root_keeps (r, key)" if "?k \<noteq> key" "(r, y) \<in> set ((root, x) # rest)" for r key y
  proof -
    have "game_object gid key" if "key \<in> set (referencedObjects r)" for key
      using chain_refs [OF assms \<open>(r, y) \<in> set ((root, x) # rest)\<close> that] by simp
    then have "?k \<notin> set (referencedObjects r)" using game_object_simps(4) by blast
    then show ?thesis
      using \<open>?k \<noteq> key\<close> by (cases "sr_objectKey (rt_stateRef r)")
        (auto simp: root_keeps_def set_referencedObjects truthy_def split: if_splits)
  qed
  have "?k \<noteq> the (rt_historyObjectKey r)" if "(r, y) \<in> set rest" for r y
  proof -
    have c: "chain_ok H L gid rest" using assms by (rule chain_ok_tl)
    have "rt_historyObjectKey r = Some (checkpointRootKey gid (rt_checkpointSeq r) (rt_rootId r))"
      using c that by (induction rest) auto
    moreover have "rt_checkpointSeq root = 1 + int (length rest)" using assms by (cases x) simp
    ultimately show ?thesis
      using chain_seq [OF c that] checkpointRootKey_inject [of gid "rt_checkpointSeq root" "rt_rootId root"
          gid "rt_checkpointSeq r" "rt_rootId r"] by auto
  qed
  then have "?k \<notin> root_keeps (r, the (rt_historyObjectKey r))" if "(r, y) \<in> set rest" for r y
    using own [of "the (rt_historyObjectKey r)" r y] that by auto
  moreover have "?k \<notin> root_keeps (root, rootKey gid)" using own [of "rootKey gid" root x] by simp
  ultimately show ?thesis by (auto simp: history_keeps_def reap_keeps_def)
qed

text \<open>
  But the retained copy of the head root is not among what is kept. Once a reap has run
  with a cut-off after the last write, the next flush links to an object that is gone, and
  no earlier checkpoint can be found any more.
\<close>

theorem reap_loses_history:
  assumes "host_env (ev_host E)" and reach: "history_reach (ev_host E) gid (g, s, log)"
    and "log \<noteq> []" and "length log \<le> max_safe_integer"
    and old: "\<forall>(k, o1) \<in> set (mem_objects s). st_updatedAt o1 \<le> t"
    and reap: "reapOrphans E (mem_ops E) gid t s = (Inr res, s')"
  shows "\<exists>new g'' s''. flush E (mem_ops E) (writeState b g) s' = (Inr (Some new), g'', s'')
    \<and> (\<forall>(r, x) \<in> set log. viewCheckpoint E (mem_ops E) s'' gid (rt_checkpointSeq r) = Inr None)"
proof -
  note env = mem_env [OF assms(1)]
  have keep: "\<And>k. k = rootKey gid \<or> k \<in> history_keeps gid log \<Longrightarrow> mem_lookup s' k = mem_lookup s k"
    and gone: "\<And>k. k \<noteq> rootKey gid \<Longrightarrow> k \<notin> history_keeps gid log \<Longrightarrow> prefix (gamePrefix gid) k \<Longrightarrow>
      mem_lookup s' k = None"
    using reap_history [OF assms(1-4), of t] reap old by auto
  have inv: "history_inv (ev_host E) gid (g, s, log)" using history_reach_inv assms by blast
  obtain root st0 view0 rest where log: "log = (root, st0, view0) # rest" using assms(3) by (cases log) auto
  let ?g = "writeState b g" and ?k = "checkpointRootKey gid (rt_checkpointSeq root) (rt_rootId root)"
  have chain: "chain_ok (ev_host E) (mem_lookup s) gid ((root, st0, view0) # rest)"
    and hd: "mem_lookup s (rootKey gid) = Some (encodeRoot root, etag (ev_host E) (encodeRoot root))"
    and ok: "session_ok (ev_host E) (mem_ops E) s g"
    and g: "gs_root g = Some root" "gs_gameId g = gid" "gs_enableTimeTravel g"
      "gs_rootVersion g = Some (etag (ev_host E) (encodeRoot root))" "set (gs_blobs g) \<subseteq> set (rt_blobManifest root)"
    using inv log by (auto simp: history_inv_def)
  note after = state_env.reap_chain [OF env chain hd keep [unfolded history_keeps_def log list.case prod.case]]
  have "blob_present (ev_host E) (mem_ops E) s' gid k bv" if kb: "(k, bv) \<in> set (gs_blobs g)" for k bv
  proof -
    have "bv_objectKey bv \<in> set (referencedObjects root)"
      using kb g(5) by (force simp: set_referencedObjects)
    then show ?thesis using after(3) ok kb g(2) by (fastforce simp: session_ok_def blob_present_def mem.get)
  qed
  then have ok': "session_ok (ev_host E) (mem_ops E) s' g" using ok g(2) by (auto simp: session_ok_def)
  note ok'' = session_ok_ops(1) [OF ok', of b]
  obtain new g'' s'' where run: "flush E (mem_ops E) ?g s' = (Inr (Some new), g'', s'')"
    using state_env.flush_succeeds [OF env ok''] g hd keep by (auto simp: isDirty_def writeState_def)
  have prep: "state_env.prepared (mem_ops E) mem_lookup (etag (ev_host E)) E ?g s' new s''"
    using state_env.flush_history(1) [OF env ok'' _ run] g by simp
  have hk: "rt_historyObjectKey root = Some ?k" using chain by simp
  have seq: "rt_checkpointSeq root = gs_checkpointSeq g" "1 \<le> rt_checkpointSeq root"
    using ok g(1) chain by (simp_all add: session_ok_def)
  have new: "rt_parent new = Some ?k" "rt_checkpointSeq new = rt_checkpointSeq root + 1"
    "mem_lookup s'' (rootKey gid) = Some (encodeRoot new, etag (ev_host E) (encodeRoot new))"
    "rt_historyObjectKey new = Some (checkpointRootKey gid (rt_checkpointSeq root + 1) (rt_rootId new))"
    using prep g hk seq
    by (simp_all add: state_env.prepared_def [OF env] shouldRetainHistory_def coalesce_def flush_history_key_def)
  have "rt_historyObjectKey new \<noteq> Some ?k"
    using new(4) seq checkpointRootKey_inject [of gid "rt_checkpointSeq root" "rt_rootId root" gid
        "rt_checkpointSeq root + 1" "rt_rootId new"] by auto
  then have frame: "mem_lookup s'' ?k = mem_lookup s' ?k"
    using prep g unfolding state_env.prepared_def [OF env] by simp
  have "mem_lookup s' ?k = None"
    by (rule gone) (use head_history_reaped [OF chain] log in \<open>simp_all add: prefix_checkpointRootKey\<close>)
  then have "viewCheckpoint E (mem_ops E) s'' gid (rt_checkpointSeq r) = Inr None" if "(r, x) \<in> set log" for r x
    using state_env.find_loop_orphan [OF env new(3,1), of "rt_checkpointSeq r"] frame new(2)
      chain_seq [OF chain, of r x] that log chain by (auto simp: viewCheckpoint_def)
  then show ?thesis using run by blast
qed

lemma updatedAt_bound: "\<exists>t. \<forall>(k, o1) \<in> set xs. st_updatedAt o1 \<le> t"
proof (induction xs)
  case (Cons a xs)
  then obtain t where "\<forall>(k, o1) \<in> set xs. st_updatedAt o1 \<le> t" by blast
  then show ?case by (intro exI [of _ "max t (st_updatedAt (snd a))"]) (auto split: prod.splits)
qed simp

theorem reap_loses_history_witness:
  "\<exists>s t res s' g new g'' s'' (root :: StateRoot). reapOrphans env0 (mem_ops env0) ''g1'' t s = (Inr res, s')
     \<and> flush env0 (mem_ops env0) (writeState ''c'' g) s' = (Inr (Some new), g'', s'')
     \<and> viewCheckpoint env0 (mem_ops env0) s'' ''g1'' (rt_checkpointSeq root) = Inr None"
proof -
  obtain g2 s2 root2 root1 where
    h: "history_reach plain_host ''g1'' (g2, s2, [(root2, (''b'', Map.empty)), (root1, (''a'', Map.empty))])"
    by (rule history0)
  have h': "history_reach (ev_host env0) ''g1'' (g2, s2, [(root2, (''b'', Map.empty)), (root1, (''a'', Map.empty))])"
    using h by (simp add: env0_def)
  obtain t where t: "\<forall>(k, o1) \<in> set (mem_objects s2). st_updatedAt o1 \<le> t" using updatedAt_bound [of "mem_objects s2"] by (rule exE)
  have len: "length [(root2, (''b'', Map.empty)), (root1, (''a'', Map.empty))] \<le> max_safe_integer"
    by (simp add: max_safe_integer_def)
  obtain res s' where reap: "reapOrphans env0 (mem_ops env0) ''g1'' t s2 = (Inr res, s')"
    using reap_history [OF host_env0 h' _ len, of t] by blast
  obtain new g'' s'' where "flush env0 (mem_ops env0) (writeState ''c'' g2) s' = (Inr (Some new), g'', s'')"
    "viewCheckpoint env0 (mem_ops env0) s'' ''g1'' (rt_checkpointSeq root1) = Inr None"
    using reap_loses_history [OF host_env0 h' _ len t reap, of "''c''"] by auto
  with reap show ?thesis by blast
qed



end
