(* ===== verification/BrokerBudget.thy ===== *)
theory BrokerBudget
  imports Ipc StateStoreProps
begin

text \<open>
  The budget accounting of the Broker (\<^verbatim>\<open>runtime/broker/src/index.mts\<close>): the limits, the
  sliding-window counters behind the rate limits, the sample windows and counters behind the
  \<^verbatim>\<open>ws.send\<close> metrics. The locale \<open>rate_counter\<close> is the contract a rate limit needs of a
  counter: what it reports covers every addition of the last window.
\<close>

record BrokerBudgetLimits =
  li_cpuMsPerTick :: int
  li_memoryBytes :: int
  li_bandwidthBytesPerSec :: int
  li_wsMessagesPerSec :: int
  li_stateBytes :: int
  li_blobBytes :: int
  li_blobKeys :: int
  li_apiInvocationsPerMin :: int

definition DEFAULT_BROKER_BUDGETS :: BrokerBudgetLimits where
  "DEFAULT_BROKER_BUDGETS =
     \<lparr>li_cpuMsPerTick = 1000, li_memoryBytes = 256 * 1024 * 1024,
      li_bandwidthBytesPerSec = 64 * 1024, li_wsMessagesPerSec = 50,
      li_stateBytes = DEFAULT_STATE_BYTES_LIMIT, li_blobBytes = DEFAULT_BLOB_BYTES_LIMIT,
      li_blobKeys = DEFAULT_BLOB_KEYS_LIMIT, li_apiInvocationsPerMin = 60\<rparr>"

section \<open>Sliding windows\<close>

text \<open>The samples, oldest first, each with its time and value.\<close>

record SlidingWindowCounter =
  sw_windowMs :: int
  sw_samples :: "(int \<times> int) list"

definition sw_new :: "int \<Rightarrow> SlidingWindowCounter" where
  "sw_new windowMs = \<lparr>sw_windowMs = windowMs, sw_samples = []\<rparr>"

definition sw_prune :: "int \<Rightarrow> SlidingWindowCounter \<Rightarrow> SlidingWindowCounter" where
  "sw_prune now c =
     (let cutoff = now - sw_windowMs c in
      c\<lparr>sw_samples := dropWhile (\<lambda>(t, v). t < cutoff) (sw_samples c)\<rparr>)"

definition sw_add :: "int \<Rightarrow> int \<Rightarrow> SlidingWindowCounter \<Rightarrow> SlidingWindowCounter" where
  "sw_add v t c = (let c1 = sw_prune t c in c1\<lparr>sw_samples := sw_samples c1 @ [(t, v)]\<rparr>)"

definition sw_sum :: "int \<Rightarrow> SlidingWindowCounter \<Rightarrow> int \<times> SlidingWindowCounter" where
  "sw_sum t c = (let c1 = sw_prune t c in (sum_list (map snd (sw_samples c1)), c1))"

text \<open>
  \<open>log\<close> is what was ever added, newest last; \<open>window_sum\<close> what of it falls into the window.
\<close>

definition window_sum :: "int \<Rightarrow> int \<Rightarrow> (int \<times> int) list \<Rightarrow> int" where
  "window_sum w now log = sum_list (map snd (filter (\<lambda>(t, v). now - w \<le> t) log))"

locale rate_counter =
  fixes add :: "int \<Rightarrow> int \<Rightarrow> 'c \<Rightarrow> 'c"
    and total :: "int \<Rightarrow> 'c \<Rightarrow> int \<times> 'c"
    and covers :: "'c \<Rightarrow> int \<Rightarrow> int \<Rightarrow> (int \<times> int) list \<Rightarrow> bool"
  assumes total_covers: "covers c w latest log \<Longrightarrow> latest \<le> now \<Longrightarrow>
      fst (total now c) = window_sum w now log \<and> covers (snd (total now c)) w now log"
    and add_covers: "covers c w latest log \<Longrightarrow> latest \<le> now \<Longrightarrow> covers (add v now c) w now (log @ [(now, v)])"
begin

text \<open>A client that admits an addition only while the reported total stays within the limit.\<close>

definition admit :: "int \<Rightarrow> int \<Rightarrow> int \<Rightarrow> 'c \<Rightarrow> bool \<times> 'c" where
  "admit limit v now c =
     (let (n, c1) = total now c in if n + v > limit then (False, c1) else (True, add v now c1))"

lemma admit_within:
  assumes c: "covers c w latest log" and now: "latest \<le> now" and w: "0 \<le> w"
    and ok: "admit limit v now c = (True, c')"
  shows "covers c' w now (log @ [(now, v)])" and "window_sum w now (log @ [(now, v)]) \<le> limit"
proof -
  obtain n c1 where t: "total now c = (n, c1)" by (cases "total now c")
  have n: "n = window_sum w now log" and c1: "covers c1 w now log"
    using total_covers [OF c now] t by auto
  have ok': "n + v \<le> limit" "c' = add v now c1" using ok t by (auto simp: admit_def Let_def split: if_splits)
  show "covers c' w now (log @ [(now, v)])" using add_covers [OF c1, of now v] ok' by simp
  show "window_sum w now (log @ [(now, v)]) \<le> limit"
    using ok' n w by (simp add: window_sum_def)
qed

end

text \<open>The counter holds a suffix of the log that contains everything inside the window.\<close>

definition sw_covers :: "SlidingWindowCounter \<Rightarrow> int \<Rightarrow> int \<Rightarrow> (int \<times> int) list \<Rightarrow> bool" where
  "sw_covers c w latest log \<longleftrightarrow> sw_windowMs c = w \<and> sorted (map fst log) \<and> (\<forall>(t, v) \<in> set log. t \<le> latest)
     \<and> (\<exists>old. log = old @ sw_samples c \<and> (\<forall>(t, v) \<in> set old. t < latest - w))"

lemma filter_sorted_dropWhile:
  "sorted (map fst xs) \<Longrightarrow> filter (\<lambda>(t, v). (c :: int) \<le> t) xs = dropWhile (\<lambda>(t, v). t < c) xs"
proof (induction xs)
  case (Cons a xs)
  show ?case
  proof (cases "fst a < c")
    case True
    then show ?thesis using Cons by (auto split: prod.splits)
  next
    case False
    then have "\<forall>x \<in> set xs. c \<le> fst x" using Cons.prems by fastforce
    then have "filter (\<lambda>(t, v). c \<le> t) xs = xs" by (auto simp: filter_id_conv)
    then show ?thesis using False by (auto split: prod.splits)
  qed
qed simp

lemma sw_prune_covers:
  assumes c: "sw_covers c w latest log" and now: "latest \<le> now"
  shows "sw_covers (sw_prune now c) w now log"
    and "sw_samples (sw_prune now c) = filter (\<lambda>(t, v). now - w \<le> t) log"
proof -
  obtain old where old: "log = old @ sw_samples c" "\<forall>(t, v) \<in> set old. t < latest - w"
    and w: "sw_windowMs c = w" and s: "sorted (map fst log)" and l: "\<forall>(t, v) \<in> set log. t \<le> latest"
    using c by (auto simp: sw_covers_def)
  let ?d = "takeWhile (\<lambda>(t, v). t < now - w) (sw_samples c)"
  have pr: "sw_samples (sw_prune now c) = dropWhile (\<lambda>(t, v). t < now - w) (sw_samples c)"
    by (simp add: sw_prune_def Let_def w)
  have "log = (old @ ?d) @ sw_samples (sw_prune now c)" by (simp add: pr old(1))
  moreover have "\<forall>(t, v) \<in> set (old @ ?d). t < now - w"
    using old(2) now by (auto dest: set_takeWhileD)
  ultimately show "sw_covers (sw_prune now c) w now log"
    using s l now w unfolding sw_covers_def by (fastforce simp: sw_prune_def Let_def)
  have "filter (\<lambda>(t, v). now - w \<le> t) old = []" using old(2) now by (auto simp: filter_empty_conv)
  moreover have "sorted (map fst (sw_samples c))" using s old(1) by (simp add: sorted_append)
  ultimately show "sw_samples (sw_prune now c) = filter (\<lambda>(t, v). now - w \<le> t) log"
    using filter_sorted_dropWhile [of "sw_samples c" "now - w"] by (simp add: pr old(1))
qed

interpretation sw: rate_counter sw_add sw_sum sw_covers
proof unfold_locales
  fix c w latest log now v
  assume c: "sw_covers c w latest log" and now: "(latest :: int) \<le> now"
  note p = sw_prune_covers [OF c now]
  show "fst (sw_sum now c) = window_sum w now log \<and> sw_covers (snd (sw_sum now c)) w now log"
    using p by (simp add: sw_sum_def Let_def window_sum_def)
  show "sw_covers (sw_add v now c) w now (log @ [(now, v)])"
    using p(1) by (fastforce simp: sw_covers_def sw_add_def Let_def sorted_append)
qed

lemma sw_new_covers: "sw_covers (sw_new w) w t []"
  by (simp add: sw_covers_def sw_new_def)

section \<open>Sample windows and metrics\<close>

text \<open>Samples are the finite numbers added; the metrics of the Broker add integers.\<close>

record NumericSampleWindow =
  ns_maxSamples :: nat
  ns_samples :: "int list"

definition ns_new :: "nat \<Rightarrow> NumericSampleWindow" where
  "ns_new n = \<lparr>ns_maxSamples = n, ns_samples = []\<rparr>"

definition ns_add :: "int \<Rightarrow> NumericSampleWindow \<Rightarrow> NumericSampleWindow" where
  "ns_add v w =
     (let s = ns_samples w @ [v] in
      w\<lparr>ns_samples := (if length s > ns_maxSamples w then tl s else s)\<rparr>)"

text \<open>\<^verbatim>\<open>quantile\<close> for a quotient \<open>p / q\<close>: \<^verbatim>\<open>Math.ceil(q * n) - 1\<close>, clamped to the indices.\<close>

definition ns_quantile :: "nat \<Rightarrow> nat \<Rightarrow> NumericSampleWindow \<Rightarrow> int" where
  "ns_quantile p q w =
     (if ns_samples w = [] then 0
      else
       let sorted = sort (ns_samples w);
           n = length sorted;
           index = min (n - 1) ((p * n + q - 1) div q - 1)
       in sorted ! index)"

record WsSendMetrics =
  wm_sentCount :: int
  wm_durationMsSum :: int
  wm_bytesSum :: int
  wm_recipientsSum :: int
  wm_rejected :: "(WsSendError \<times> int) list"
  wm_durationMs :: NumericSampleWindow
  wm_recipients :: NumericSampleWindow
  wm_bytes :: NumericSampleWindow
  wm_bufferedAmount :: NumericSampleWindow

definition wm_new :: WsSendMetrics where
  "wm_new = \<lparr>wm_sentCount = 0, wm_durationMsSum = 0, wm_bytesSum = 0, wm_recipientsSum = 0, wm_rejected = [],
     wm_durationMs = ns_new 2000, wm_recipients = ns_new 2000, wm_bytes = ns_new 2000,
     wm_bufferedAmount = ns_new 2000\<rparr>"

definition recordSent :: "int \<Rightarrow> int \<Rightarrow> int \<Rightarrow> int \<Rightarrow> WsSendMetrics \<Rightarrow> WsSendMetrics" where
  "recordSent durationMs recipients bytes maxBufferedAmount m =
     m\<lparr>wm_sentCount := wm_sentCount m + 1,
       wm_durationMsSum := wm_durationMsSum m + durationMs,
       wm_bytesSum := wm_bytesSum m + bytes,
       wm_recipientsSum := wm_recipientsSum m + recipients,
       wm_durationMs := ns_add durationMs (wm_durationMs m),
       wm_recipients := ns_add recipients (wm_recipients m),
       wm_bytes := ns_add bytes (wm_bytes m),
       wm_bufferedAmount := ns_add maxBufferedAmount (wm_bufferedAmount m)\<rparr>"

definition recordRejected :: "WsSendError \<Rightarrow> WsSendMetrics \<Rightarrow> WsSendMetrics" where
  "recordRejected e m =
     m\<lparr>wm_rejected := map_set e (default 0 (map_get (wm_rejected m) e) + 1) (wm_rejected m)\<rparr>"

definition maxNumber :: "int list \<Rightarrow> int" where
  "maxNumber vs = (if vs = [] then 0 else Max (set vs))"

definition sumMapValues :: "int js_map \<Rightarrow> int" where
  "sumMapValues m = fold (\<lambda>(k, v) total. total + v) m 0"

lemma sumMapValues: "sumMapValues m = sum_values m"
proof -
  have "fold (\<lambda>(k, v) total. total + v) m t = t + sum_values m" for t
    by (induction m arbitrary: t) auto
  then show ?thesis by (simp add: sumMapValues_def)
qed

section \<open>Properties\<close>

text \<open>
  The rate limits hold over every window: if additions are made at non-decreasing times and
  only while the counter's total plus the addition is within the limit, then at each admitted
  addition everything added during the last window, it included, sums to at most the limit.
\<close>

theorem sliding_window_limit:
  assumes "sw_covers c w latest log" and "latest \<le> now" and "0 \<le> w"
    and "fst (sw_sum now c) + v \<le> limit"
  shows "window_sum w now (log @ [(now, v)]) \<le> limit
    \<and> sw_covers (sw_add v now (snd (sw_sum now c))) w now (log @ [(now, v)])"
proof -
  have "sw.admit limit v now c = (True, sw_add v now (snd (sw_sum now c)))"
    using assms(4) by (auto simp: sw.admit_def split: prod.splits)
  from sw.admit_within [OF assms(1-3) this] show ?thesis by simp
qed

theorem sliding_window_limit_witness:
  "window_sum 1000 1500 ([(400, 3), (900, 2)] @ [(1500, 5)]) \<le> 7"
proof -
  have "sw_covers \<lparr>sw_windowMs = 1000, sw_samples = [(400, 3), (900, 2)]\<rparr> 1000 900 [(400, 3), (900, 2)]"
    by (simp add: sw_covers_def)
  from sliding_window_limit [OF this, of 1500 5 7] show ?thesis by (simp add: sw_sum_def sw_prune_def)
qed

lemma ns_samples_bound: "length (ns_samples w) \<le> ns_maxSamples w \<Longrightarrow> length (ns_samples (ns_add v w)) \<le> ns_maxSamples w"
  by (auto simp: ns_add_def Let_def)

text \<open>
  A quantile of the metric windows is one of the recorded samples, at least the requested
  share of the samples is at most it, and it grows with the requested share.
\<close>

theorem quantile_sound:
  assumes "ns_samples w \<noteq> []" and "0 < q" and "p \<le> q" and "p' \<le> p"
  shows "ns_quantile p q w \<in> set (ns_samples w)
    \<and> p * length (ns_samples w) \<le> q * length (filter (\<lambda>x. x \<le> ns_quantile p q w) (ns_samples w))
    \<and> ns_quantile p' q w \<le> ns_quantile p q w"
proof -
  let ?s = "sort (ns_samples w)" and ?n = "length (ns_samples w)"
  define i where "i p = min (?n - 1) ((p * ?n + q - 1) div q - 1)" for p
  have q: "ns_quantile p q w = ?s ! i p" for p
    using assms(1) by (simp add: ns_quantile_def Let_def i_def)
  have n: "0 < ?n" using assms(1) by simp
  have i: "i p < ?n" for p
    using n min.cobounded1 [of "?n - 1" "(p * ?n + q - 1) div q - 1"] unfolding i_def by linarith
  have "?s ! i p \<in> set ?s" using i by (intro nth_mem) simp
  then have mem: "ns_quantile p q w \<in> set (ns_samples w)" by (simp add: q)
  have mono: "i p' \<le> i p"
    unfolding i_def using assms(4) by (intro min.mono diff_le_mono div_le_mono add_le_mono mult_le_mono) simp_all
  then have le: "ns_quantile p' q w \<le> ns_quantile p q w"
    using i [of p] by (simp add: q sorted_nth_mono)
  have "(p * ?n + q - 1) div q \<le> ?n"
  proof -
    have "p * ?n + q - 1 < q * ?n + q"
      using assms(2,3) mult_le_mono1 [of p q ?n] by linarith
    then have "(p * ?n + q - 1) div q < ?n + 1"
      using assms(2) by (simp add: div_less_iff_less_mult algebra_simps)
    then show ?thesis by simp
  qed
  then have "(p * ?n + q - 1) div q \<le> Suc (i p)" using n by (auto simp: i_def)
  moreover have "p * ?n \<le> q * ((p * ?n + q - 1) div q)"
  proof -
    have "p * ?n + q - 1 = q * ((p * ?n + q - 1) div q) + (p * ?n + q - 1) mod q" by simp
    moreover have "(p * ?n + q - 1) mod q < q" using assms(2) by simp
    ultimately show ?thesis by linarith
  qed
  ultimately have a: "p * ?n \<le> q * Suc (i p)" by (meson le_trans mult_le_mono2)
  have "take (Suc (i p)) ?s = filter (\<lambda>x. x \<le> ?s ! i p) (take (Suc (i p)) ?s)"
    using i [of p] by (auto simp: filter_id_conv in_set_conv_nth sorted_nth_mono intro!: filter_id_conv [THEN iffD2, symmetric])
  then have "Suc (i p) \<le> length (filter (\<lambda>x. x \<le> ?s ! i p) ?s)"
    using i [of p] by (metis (no_types, lifting) Suc_leI append_take_drop_id filter_append le_add1 length_append length_sort length_take min.absorb2)
  moreover have "length (filter (\<lambda>x. x \<le> ?s ! i p) ?s) = length (filter (\<lambda>x. x \<le> ?s ! i p) (ns_samples w))"
    by (metis filter_sort length_sort)
  ultimately have "Suc (i p) \<le> length (filter (\<lambda>x. x \<le> ns_quantile p q w) (ns_samples w))"
    by (simp add: q)
  then have "p * ?n \<le> q * length (filter (\<lambda>x. x \<le> ns_quantile p q w) (ns_samples w))"
    by (rule order_trans [OF a mult_le_mono2])
  then show ?thesis using mem le by simp
qed

theorem quantile_sound_witness:
  "ns_quantile 95 100 \<lparr>ns_maxSamples = 4, ns_samples = [5, 1, 9]\<rparr> \<in> {5, 1, 9}"
  using quantile_sound [of "\<lparr>ns_maxSamples = 4, ns_samples = [5, 1, 9]\<rparr>" 100 95 50] by simp

end
