(* ===== verification/BrokerWs.thy ===== *)
theory BrokerWs
  imports BrokerBudget
begin

text \<open>
  The outbound WebSocket path of the Broker that needs no Broker state: frames
  (\<^verbatim>\<open>prepareWsFramePlan\<close>), recipients (\<^verbatim>\<open>resolveWsSendTargets\<close>), and the JSON codecs of the stored
  state. The frame builder assembles the text of a frame by hand, once for all recipients;
  it is shown to give the text of the object it stands for.
\<close>

record BrokerSession =
  se_sessionId :: string
  se_gameId :: string
  se_playerId :: string
  se_jwtClaims :: "js js_map"
  se_connectedAt :: int
  se_seq :: int
  se_ws :: nat

section \<open>Frames\<close>

text \<open>What \<^verbatim>\<open>prepareWsFramePlan\<close> returns: the closure \<^verbatim>\<open>serialize\<close> by its captured text.\<close>

datatype WsFramePlan = RecordFrame string | MessageFrame string | NoFrame WsSendError js

fun frame_parts :: "js js_map \<Rightarrow> string + string list" where
  "frame_parts [] = Inr []"
| "frame_parts ((k, v) # fs) =
     (if k = ''sessionId'' then frame_parts fs
      else case stringify v of
        Inl e \<Rightarrow> Inl e
      | Inr None \<Rightarrow> frame_parts fs
      | Inr (Some encoded) \<Rightarrow>
         (case frame_parts fs of Inl e \<Rightarrow> Inl e | Inr ps \<Rightarrow> Inr ((quote k @ '':'' @ encoded) # ps)))"

definition serializationFailed :: "string \<Rightarrow> WsFramePlan" where
  "serializationFailed message = NoFrame SerializationFailed (JObj [(''message'', JStr message)])"

definition session_key :: string where
  "session_key = quote ''sessionId'' @ '':''"

definition prepareWsFramePlan :: "js \<Rightarrow> WsFramePlan" where
  "prepareWsFramePlan body =
     (case body of
        JObj fs \<Rightarrow>
          (case frame_parts fs of
             Inl e \<Rightarrow> serializationFailed e
           | Inr parts \<Rightarrow>
               RecordFrame (if parts \<noteq> [] then ''{'' @ join '','' parts @ '','' @ session_key
                            else ''{'' @ session_key))
      | _ \<Rightarrow>
          (case stringify body of
             Inl e \<Rightarrow> serializationFailed e
           | Inr None \<Rightarrow> serializationFailed ''body is not JSON-serializable''
           | Inr (Some encodedBody) \<Rightarrow> MessageFrame encodedBody))"

fun serialize :: "WsFramePlan \<Rightarrow> string \<Rightarrow> string" where
  "serialize (RecordFrame pre) sessionId = pre @ quote sessionId @ ''}''"
| "serialize (MessageFrame encodedBody) sessionId =
     ''{'' @ quote ''type'' @ '':'' @ quote ''message'' @ '','' @ session_key @ quote sessionId
       @ '','' @ quote ''body'' @ '':'' @ encodedBody @ ''}''"
| "serialize (NoFrame e d) sessionId = []"

text \<open>The object a frame stands for.\<close>

definition frame_object :: "js \<Rightarrow> string \<Rightarrow> js" where
  "frame_object body sessionId =
     (case body of
        JObj fs \<Rightarrow> JObj (filter (\<lambda>(k, v). k \<noteq> ''sessionId'') fs @ [(''sessionId'', JStr sessionId)])
      | _ \<Rightarrow> JObj [(''type'', JStr ''message''), (''sessionId'', JStr sessionId), (''body'', body)])"

lemma frame_parts_fields:
  "frame_parts fs = stringify_fields (filter (\<lambda>(k, v). k \<noteq> ''sessionId'') fs)"
  by (induction fs rule: frame_parts.induct) (auto split: sum.splits option.splits)

lemma stringify_fields_append:
  "stringify_fields (xs @ ys) =
     (case stringify_fields xs of
        Inl e \<Rightarrow> Inl e
      | Inr ts \<Rightarrow> (case stringify_fields ys of Inl e \<Rightarrow> Inl e | Inr us \<Rightarrow> Inr (ts @ us)))"
  by (induction xs) (auto split: sum.splits option.splits)

lemma join_snoc: "join sep (xs @ [x]) = (if xs = [] then x else join sep xs @ sep @ x)"
proof (induction xs)
  case (Cons a xs)
  then show ?case by (cases xs) auto
qed simp

lemma stringify_session_field: "stringify_fields [(''sessionId'', JStr s)] = Inr [session_key @ quote s]"
  by (simp add: session_key_def)

lemma frame_text:
  "case prepareWsFramePlan body of
     NoFrame e d \<Rightarrow> e = SerializationFailed \<and> (body = JUndef \<or> (\<exists>m. stringify (frame_object body sessionId) = Inl m))
   | plan \<Rightarrow> stringify (frame_object body sessionId) = Inr (Some (serialize plan sessionId))"
proof (cases "\<exists>fs. body = JObj fs")
  case True
  then obtain fs where body: "body = JObj fs" by blast
  show ?thesis
  proof (cases "frame_parts fs")
    case (Inl e)
    then show ?thesis
      by (simp add: body prepareWsFramePlan_def serializationFailed_def frame_object_def
          stringify_fields_append flip: frame_parts_fields)
  next
    case (Inr parts)
    then show ?thesis
      by (simp add: body prepareWsFramePlan_def frame_object_def stringify_fields_append
          stringify_session_field join_snoc del: stringify_fields.simps(2) flip: frame_parts_fields)
  qed
next
  case False
  then have obj: "frame_object body sessionId
      = JObj [(''type'', JStr ''message''), (''sessionId'', JStr sessionId), (''body'', body)]"
    by (simp add: frame_object_def split: js.splits)
  have plan: "prepareWsFramePlan body = (case stringify body of
      Inl e \<Rightarrow> serializationFailed e
    | Inr None \<Rightarrow> serializationFailed ''body is not JSON-serializable''
    | Inr (Some encodedBody) \<Rightarrow> MessageFrame encodedBody)"
    using False by (simp add: prepareWsFramePlan_def split: js.splits)
  show ?thesis
  proof (cases "stringify body")
    case (Inl e)
    then show ?thesis by (simp add: plan obj serializationFailed_def)
  next
    case (Inr t)
    show ?thesis
    proof (cases t)
      case None
      have "body = JUndef" using Inr None by (cases body) (auto split: sum.splits)
      then show ?thesis by (simp add: prepareWsFramePlan_def serializationFailed_def)
    next
      case (Some s)
      then show ?thesis using Inr by (simp add: plan obj session_key_def)
    qed
  qed
qed

section \<open>Recipients\<close>

definition targetNotConnected :: "js list \<Rightarrow> (string \<times> js) list \<Rightarrow> WsSendResponse" where
  "targetNotConnected missing pre =
     WsErr TargetNotConnected (Some (JObj (pre @ [(''missingTargets'', JArr missing)])))"

definition resolveWsSendTargets :: "js \<Rightarrow> BrokerSession list \<Rightarrow> WsSendResponse + BrokerSession list" where
  "resolveWsSendTargets target sessions =
     (case target of
        JStr t \<Rightarrow>
          if t = ''all'' then Inr sessions
          else
           let matched = filter (\<lambda>s. se_playerId s = t) sessions in
           if matched \<noteq> [] then Inr matched
           else Inl (targetNotConnected [JStr t] [(''target'', JStr t)])
      | JArr ts \<Rightarrow>
          let requested = fold set_add ts [];
              missing = filter (\<lambda>p. \<not> (\<exists>s \<in> set sessions. JStr (se_playerId s) = p)) requested
          in if missing \<noteq> [] then Inl (targetNotConnected missing [(''missing'', JArr missing)])
             else Inr (filter (\<lambda>s. JStr (se_playerId s) \<in> set requested) sessions)
      | _ \<Rightarrow> Inl (WsErr TargetInvalid None))"

text \<open>Which players a target names.\<close>

definition targets :: "js \<Rightarrow> string \<Rightarrow> bool" where
  "targets target p = (case target of JStr t \<Rightarrow> t = ''all'' \<or> t = p | JArr ts \<Rightarrow> JStr p \<in> set ts | _ \<Rightarrow> False)"

lemma resolve_exact:
  "case resolveWsSendTargets target sessions of
     Inr ss \<Rightarrow> ss = filter (\<lambda>s. targets target (se_playerId s)) sessions
       \<and> (\<forall>ts. target = JArr ts \<longrightarrow> (\<forall>p \<in> set ts. \<exists>s \<in> set ss. JStr (se_playerId s) = p))
   | Inl (WsErr TargetNotConnected d) \<Rightarrow>
       (\<exists>p. (target = p \<or> (\<exists>ts. target = JArr ts \<and> p \<in> set ts))
          \<and> (\<forall>s \<in> set sessions. JStr (se_playerId s) \<noteq> p))
   | Inl (WsErr TargetInvalid d) \<Rightarrow> \<not> (\<exists>t. target = JStr t) \<and> \<not> (\<exists>ts. target = JArr ts)
   | _ \<Rightarrow> False"
proof (cases target)
  case (JStr t)
  then show ?thesis
    by (auto simp: resolveWsSendTargets_def targets_def targetNotConnected_def Let_def filter_empty_conv
        filter_id_conv eq_commute [of t])
next
  case (JArr ts)
  let ?req = "fold set_add ts []"
  let ?missing = "filter (\<lambda>p. \<not> (\<exists>s \<in> set sessions. JStr (se_playerId s) = p)) ?req"
  have req: "set ?req = set ts" by (simp add: set_foldr_set_add)
  show ?thesis
  proof (cases "?missing = []")
    case True
    then have "\<forall>p \<in> set ts. \<exists>s \<in> set sessions. JStr (se_playerId s) = p"
      using req by (auto simp: filter_empty_conv)
    then show ?thesis
      using True by (auto simp: JArr resolveWsSendTargets_def targets_def Let_def req)
  next
    case False
    then have "hd ?missing \<in> set ?missing" by (rule hd_in_set)
    then obtain p where "p \<in> set ?missing" by blast
    then have "p \<in> set ts" "\<forall>s \<in> set sessions. JStr (se_playerId s) \<noteq> p" using req by auto
    then show ?thesis
      using False by (auto simp: JArr resolveWsSendTargets_def targetNotConnected_def Let_def)
  qed
qed (simp_all add: resolveWsSendTargets_def)

lemma resolve_Inl: "resolveWsSendTargets target ss = Inl x \<Longrightarrow> \<exists>e d. x = WsErr e d"
  by (auto simp: resolveWsSendTargets_def targetNotConnected_def Let_def split: js.splits if_splits)

lemma resolve_Inr:
  "resolveWsSendTargets target ss = Inr xs \<Longrightarrow> xs = filter (\<lambda>s. targets target (se_playerId s)) ss"
  using resolve_exact [of target ss] by simp

section \<open>State codecs\<close>

definition encodeJsonState :: "js \<Rightarrow> StorageWriteResponse + bytes" where
  "encodeJsonState value =
     (case stringify value of
        Inl e \<Rightarrow> Inl (StorageErr StorageUnavailable (Some (JObj [(''message'', JStr e)])))
      | Inr None \<Rightarrow>
          Inl (StorageErr StorageUnavailable (Some (JObj [(''message'', JStr ''state must be JSON-serializable'')])))
      | Inr (Some json) \<Rightarrow> Inr json)"

text \<open>\<^verbatim>\<open>decodeJsonState\<close>: \<open>Inl\<close> when \<^verbatim>\<open>JSON.parse\<close> throws.\<close>

definition decodeJsonState :: "host \<Rightarrow> bytes \<Rightarrow> string + js" where
  "decodeJsonState H b =
     (if b = [] then Inr JNull
      else case host_parse H b of None \<Rightarrow> Inl ''SyntaxError'' | Some v \<Rightarrow> Inr v)"

definition validateBlobKey :: "string \<Rightarrow> StorageWriteResponse" where
  "validateBlobKey key =
     (if key = [] then StorageErr StorageUnavailable (Some (JObj [(''message'', JStr ''blob key is empty'')]))
      else if length key > 256
      then StorageErr StorageUnavailable (Some (JObj [(''message'', JStr ''blob key exceeds 256 bytes'')]))
      else StorageOk)"

definition isFenceConflictResponse :: "StorageWriteResponse \<Rightarrow> bool" where
  "isFenceConflictResponse r =
     (case r of
        StorageErr StorageUnavailable (Some d) \<Rightarrow>
          isRecord d \<and> js_get d ''code'' = JStr ''conditionalPutConflict''
      | _ \<Rightarrow> False)"

definition stringOrNull :: "js \<Rightarrow> string option" where
  "stringOrNull v = js_string v"

definition safe_machine_char :: "char \<Rightarrow> bool" where
  "safe_machine_char c \<longleftrightarrow> (65 \<le> byte c \<and> byte c \<le> 90) \<or> (97 \<le> byte c \<and> byte c \<le> 122)
     \<or> is_digit c \<or> c = CHR ''_'' \<or> c = CHR ''-''"

definition isSafeFlyMachineId :: "string \<Rightarrow> bool" where
  "isSafeFlyMachineId v \<longleftrightarrow> v \<noteq> [] \<and> list_all safe_machine_char v"

lemma json_text_nonempty: "is_json v \<Longrightarrow> json_text v \<noteq> []"
  by (cases v) (auto simp: quote_def dec_int_def)

lemma decode_encode_state:
  assumes "host_env H" and "is_json v"
  shows "\<exists>b. encodeJsonState v = Inr b \<and> b \<noteq> [] \<and> decodeJsonState H b = Inr v"
  using assms(2) json_codec.parse_text [OF host_env.axioms(1) [OF assms(1)]]
  by (simp add: encodeJsonState_def decodeJsonState_def stringify_json json_text_nonempty)

section \<open>Properties\<close>

text \<open>
  The frame text built by hand for a recipient is exactly \<^verbatim>\<open>JSON.stringify\<close> of the object
  with the body's fields, any \<^verbatim>\<open>sessionId\<close> replaced by the recipient's and put last, or of the
  \<^verbatim>\<open>{type, sessionId, body}\<close> wrapper when the body is no object; and it is refused exactly
  when that object cannot be serialised or the body is \<^verbatim>\<open>undefined\<close>.
\<close>

theorem frame_is_stringify:
  "case prepareWsFramePlan body of
     NoFrame e d \<Rightarrow> e = SerializationFailed \<and> (body = JUndef \<or> (\<exists>m. stringify (frame_object body sessionId) = Inl m))
   | plan \<Rightarrow> stringify (frame_object body sessionId) = Inr (Some (serialize plan sessionId))"
  by (rule frame_text)

text \<open>
  A \<^verbatim>\<open>ws.send\<close> reaches exactly the sessions of the players its target names, in session
  order; if any named player has no session, nothing is resolved and the missing players
  are reported.
\<close>

theorem targets_exact:
  "case resolveWsSendTargets target sessions of
     Inr ss \<Rightarrow> ss = filter (\<lambda>s. targets target (se_playerId s)) sessions
       \<and> (\<forall>ts. target = JArr ts \<longrightarrow> (\<forall>p \<in> set ts. \<exists>s \<in> set ss. JStr (se_playerId s) = p))
   | Inl (WsErr TargetNotConnected d) \<Rightarrow>
       (\<exists>p. (target = p \<or> (\<exists>ts. target = JArr ts \<and> p \<in> set ts))
          \<and> (\<forall>s \<in> set sessions. JStr (se_playerId s) \<noteq> p))
   | Inl (WsErr TargetInvalid d) \<Rightarrow> \<not> (\<exists>t. target = JStr t) \<and> \<not> (\<exists>ts. target = JArr ts)
   | _ \<Rightarrow> False"
  by (rule resolve_exact)

theorem targets_exact_witness:
  "case resolveWsSendTargets (JArr [JStr ''p1'']) [] of Inr ss \<Rightarrow> False | Inl r \<Rightarrow> True"
  using targets_exact [of "JArr [JStr ''p1'']" "[]"] by (auto split: sum.splits)

end
