(* ===== verification/BrokerState.thy ===== *)
theory BrokerState
  imports BrokerWs Complex_Main
begin

text \<open>
  The state of the Broker (\<^verbatim>\<open>runtime/broker/src/index.mts\<close>), what it reads from its
  dependencies, the effects it has on them, and the small private methods the handlers share.

  A handler is a function from the Broker to its result and the Broker after it. The effects
  on the outside (history rows, frames and closes of sockets, messages to runners, rows of the
  directory) are appended to \<open>b_out\<close> in the order the code performs them. What the
  dependencies answer during one handler is given by \<open>deps\<close>: the clock (one reading before and
  one after the awaited calls), the token verifier, the directory of allowed players, the bundle
  resolver, the runner pool, the gateway, the claim of an active game (which another shard may
  hold). History, capacity rows, releases and socket writes do not fail.
  The object store itself is part of the state, so checkpoints of successive handlers interact.

  \<open>Inl\<close> is a thrown error's message. A flush that never returns is the special message \<open>hang\<close>.
\<close>

section \<open>Data\<close>

record PartialBudgets =
  pb_cpuMsPerTick :: "int option"
  pb_memoryBytes :: "int option"
  pb_bandwidthBytesPerSec :: "int option"
  pb_wsMessagesPerSec :: "int option"
  pb_stateBytes :: "int option"
  pb_blobBytes :: "int option"
  pb_blobKeys :: "int option"
  pb_apiInvocationsPerMin :: "int option"

record BrokerConfig =
  cf_shardId :: string
  cf_publicUrl :: string
  cf_runtimeContractsSupported :: "int \<times> int"
  cf_maxActiveGames :: int
  cf_softWatermarkPct :: rat
  cf_hardWatermarkPct :: rat
  cf_budgets :: "PartialBudgets option"
  cf_defaultMemoryLimitMb :: "int option"
  cf_handlerTimeoutMs :: "int option"
  cf_sleepGraceMs :: "int option"
  cf_sleepDeadlineMs :: "int option"
  cf_maxInboundFrameBytes :: "int option"
  cf_capacityHeartbeatMs :: "int option"
  cf_checkpointIntervalMs :: "int option"
  cf_tickMinIntervalMs :: "int option"

record BrokerWakeInput =
  wi_gameId :: string
  wi_bundleName :: string
  wi_bundleSource :: string
  wi_bundleCompatTag :: string
  wi_runtimeContractRequired :: int
  wi_runId :: "string option"
  wi_blobCompatTag :: "string option"
  wi_memoryLimitMb :: "int option"
  wi_handlerTimeoutMs :: "int option"
  wi_testSeed :: "TestSeed option"
  wi_generation :: "int option"
  wi_wakeReason :: "WakeReason option"
  wi_wakeErrorClass :: "WakeErrorClass option"

record BrokerActiveGameClaim =
  ac_gameId :: string
  ac_shardId :: string
  ac_generation :: int
  ac_placedAt :: int
  ac_refreshedAt :: int

record BrokerCapacityRow =
  cr_shardId :: string
  cr_url :: string
  cr_status :: ShardStatus
  cr_healthy :: bool
  cr_acceptingWakes :: bool
  cr_runtimeContractsSupported :: "int \<times> int"
  cr_activeGames :: int
  cr_currentGameCount :: int
  cr_maxGames :: int
  cr_lastSeenAt :: int

record BrokerHealthSnapshot =
  hs_shardId :: string
  hs_started :: bool
  hs_acceptingWakes :: bool
  hs_activeGames :: int
  hs_connectedSessions :: int
  hs_capacity :: BrokerCapacityRow

record BrokerWebSocketReplay =
  wp_gameId :: string
  wp_targetShardId :: string
  wp_flyMachineId :: string

record VerifiedPlacementClaims =
  vc_gameId :: string
  vc_playerId :: string
  vc_shardId :: string
  vc_all :: "js js_map"

record DispatchContext =
  dc_sessionId :: "string option"
  dc_traceId :: "string option"

record GameBudgetState =
  gb_wsBytes :: SlidingWindowCounter
  gb_wsMessages :: SlidingWindowCounter
  gb_apiInvocations :: SlidingWindowCounter
  gb_stateBytes :: int
  gb_blobBytes :: int
  gb_blobKeys :: int
  gb_cpuMs :: int
  gb_memoryBytes :: int

text \<open>\<open>bg_ref\<close> is the identity of the object, which the code compares with \<^verbatim>\<open>===\<close>.\<close>

record BrokerGame =
  bg_ref :: nat
  bg_gameId :: string
  bg_generation :: int
  bg_runnerId :: string
  bg_state :: GameStateSession
  bg_bundleName :: string
  bg_bundleCompatTag :: string
  bg_blobCompatTag :: "string option"
  bg_runId :: "string option"
  bg_sessions :: "BrokerSession js_map"
  bg_blobSizes :: "int js_map"
  bg_budgets :: GameBudgetState
  bg_sleepTimer :: "int option"
  bg_currentDispatch :: "DispatchContext option"
  bg_tickTimer :: "int option"
  bg_tickIntervalMs :: "int option"
  bg_tickNextDeadlineMs :: "int option"
  bg_tickSeq :: "int option"
  bg_tickRunning :: bool

datatype effect =
    History "js js_map"
  | WsSendFrame nat string
  | WsClose nat int string
  | RunnerSend string BrokerToRunnerEnvelope
  | RunnerInvoked string RunnerInvoke
  | RunnerReleased string string
  | RunnersStopped
  | CapacityPublished BrokerCapacityRow
  | ShardRemoved string
  | ActiveGameClaimed BrokerActiveGameClaim
  | ActiveGameReleased string int
  | HostEventsDrained string "HostEventRecord list"

record 's Broker =
  b_started :: bool
  b_acceptingWakes :: bool
  b_drainRequested :: bool
  b_drainCompleted :: bool
  b_games :: "BrokerGame js_map"
  b_wakingGames :: js_set
  b_checkpointTimers :: "nat js_map"
  b_wsSendMetrics :: WsSendMetrics
  b_capacityHeartbeat :: bool
  b_nextRef :: nat
  b_store :: 's
  b_out :: "effect list"

record 's deps =
  dp_env :: env
  dp_ops :: "'s StateObjectStore"
  dp_options :: StateStoreOptions
  dp_now :: int
  dp_later :: int
  dp_iso :: "int \<Rightarrow> string"
  dp_errText :: "state_error \<Rightarrow> string"
  dp_version :: string
  dp_verify :: "string \<Rightarrow> string + js"
  dp_allowedHas :: "string \<Rightarrow> string \<Rightarrow> bool"
  dp_allowedList :: "string \<Rightarrow> string list"
  dp_resolve :: "string \<Rightarrow> BrokerWakeInput option"
  dp_lookupActive :: "(string \<Rightarrow> ActiveGamePlacement option) option"
  dp_claim :: "BrokerActiveGameClaim \<Rightarrow> string option"
  dp_hostEvents :: "string \<Rightarrow> HostEventRecord list"
  dp_assign :: "RunnerAssignment \<Rightarrow> string + string"
  dp_invoke :: "RunnerInvoke \<Rightarrow> string option"
  dp_crash :: "string \<Rightarrow> bool"
  dp_gateway :: "ApiGatewayDispatchInput \<Rightarrow> string + ApiGatewayInvokeResult"
  dp_sessionId :: string
  dp_wsOpen :: "nat \<Rightarrow> bool"
  dp_wsBuffered :: "nat \<Rightarrow> int"

type_synonym ('s, 'a) brk = "'s Broker \<Rightarrow> (string + 'a) \<times> 's Broker"

definition brk_bind :: "('s, 'a) brk \<Rightarrow> ('a \<Rightarrow> ('s, 'b) brk) \<Rightarrow> ('s, 'b) brk" where
  "brk_bind m f B = (case m B of (Inl e, B') \<Rightarrow> (Inl e, B') | (Inr a, B') \<Rightarrow> f a B')"

definition hang :: string where
  "hang = ''never returns''"

section \<open>Texts\<close>

fun wakeReason :: "WakeReason \<Rightarrow> string" where
  "wakeReason ColdStart = ''cold-start''"
| "wakeReason Reconnect = ''reconnect''"
| "wakeReason ColdRestartAfterCrash = ''cold-restart-after-crash''"
| "wakeReason ColdRestartAfterEviction = ''cold-restart-after-eviction''"
| "wakeReason ColdRestartFromStorage = ''cold-restart-from-storage''"
| "wakeReason WakeUpgrade = ''upgrade''"

fun wakeErrorClass :: "WakeErrorClass \<Rightarrow> string" where
  "wakeErrorClass Oom = ''oom''"
| "wakeErrorClass Crash = ''crash''"
| "wakeErrorClass CpuTimeout = ''cpuTimeout''"
| "wakeErrorClass UnknownClass = ''unknown''"

fun sleepReason :: "SleepReason \<Rightarrow> string" where
  "sleepReason Idle = ''idle''"
| "sleepReason RequestedBySleep = ''requestedBySleep''"
| "sleepReason Evicted = ''evicted''"
| "sleepReason SleepShardEvicted = ''shardEvicted''"
| "sleepReason Shutdown = ''shutdown''"
| "sleepReason SleepUpgrade = ''upgrade''"

fun storageError :: "StorageError \<Rightarrow> string" where
  "storageError SizeExceeded = ''sizeExceeded''"
| "storageError KeyCountExceeded = ''keyCountExceeded''"
| "storageError StorageUnavailable = ''storageUnavailable''"

fun wsSendError :: "WsSendError \<Rightarrow> string" where
  "wsSendError BandwidthExceeded = ''bandwidthExceeded''"
| "wsSendError RateExceeded = ''rateExceeded''"
| "wsSendError SerializationFailed = ''serializationFailed''"
| "wsSendError TargetInvalid = ''targetInvalid''"
| "wsSendError TargetNotConnected = ''targetNotConnected''"

fun apiInvokeError :: "ApiInvokeError \<Rightarrow> string" where
  "apiInvokeError KindUnknown = ''kindUnknown''"
| "apiInvokeError ProviderError = ''providerError''"
| "apiInvokeError ApiRateExceeded = ''apiRateExceeded''"
| "apiInvokeError ReplayCoverageGap = ''replayCoverageGap''"

fun stateCodec :: "StateCodec \<Rightarrow> string" where
  "stateCodec Whole = ''whole''"
| "stateCodec JsonDelta = ''json-delta''"
| "stateCodec Cdc = ''cdc''"

fun handlerName :: "RuntimeHandlerName \<Rightarrow> string" where
  "handlerName H_onWake = ''onWake''"
| "handlerName H_onSleep = ''onSleep''"
| "handlerName H_onPlayerConnect = ''onPlayerConnect''"
| "handlerName H_onPlayerDisconnect = ''onPlayerDisconnect''"
| "handlerName H_onPlayerMessage = ''onPlayerMessage''"
| "handlerName H_onCapacityWarning = ''onCapacityWarning''"
| "handlerName H_onHostEvent = ''onHostEvent''"
| "handlerName H_onTick = ''onTick''"

fun wireMode :: "WireMode \<Rightarrow> string" where
  "wireMode Live = ''live''"
| "wireMode Replay = ''replay''"

fun runnerKind :: "RunnerKind \<Rightarrow> string" where
  "runnerKind Ivm = ''ivm''"
| "runnerKind Noivm = ''noivm''"

section \<open>Construction\<close>

definition budgetLimits :: "BrokerConfig \<Rightarrow> BrokerBudgetLimits" where
  "budgetLimits C =
     (case cf_budgets C of
        None \<Rightarrow> DEFAULT_BROKER_BUDGETS
      | Some p \<Rightarrow>
         \<lparr>li_cpuMsPerTick = default (li_cpuMsPerTick DEFAULT_BROKER_BUDGETS) (pb_cpuMsPerTick p),
          li_memoryBytes = default (li_memoryBytes DEFAULT_BROKER_BUDGETS) (pb_memoryBytes p),
          li_bandwidthBytesPerSec =
            default (li_bandwidthBytesPerSec DEFAULT_BROKER_BUDGETS) (pb_bandwidthBytesPerSec p),
          li_wsMessagesPerSec = default (li_wsMessagesPerSec DEFAULT_BROKER_BUDGETS) (pb_wsMessagesPerSec p),
          li_stateBytes = default (li_stateBytes DEFAULT_BROKER_BUDGETS) (pb_stateBytes p),
          li_blobBytes = default (li_blobBytes DEFAULT_BROKER_BUDGETS) (pb_blobBytes p),
          li_blobKeys = default (li_blobKeys DEFAULT_BROKER_BUDGETS) (pb_blobKeys p),
          li_apiInvocationsPerMin =
            default (li_apiInvocationsPerMin DEFAULT_BROKER_BUDGETS) (pb_apiInvocationsPerMin p)\<rparr>)"

definition new_broker :: "'s \<Rightarrow> 's Broker" where
  "new_broker s =
     \<lparr>b_started = False, b_acceptingWakes = True, b_drainRequested = False, b_drainCompleted = False,
      b_games = [], b_wakingGames = [], b_checkpointTimers = [], b_wsSendMetrics = wm_new,
      b_capacityHeartbeat = False, b_nextRef = 0, b_store = s, b_out = []\<rparr>"

section \<open>Effects\<close>

definition emit :: "effect \<Rightarrow> 's Broker \<Rightarrow> 's Broker" where
  "emit e B = B\<lparr>b_out := b_out B @ [e]\<rparr>"

definition history_row :: "BrokerConfig \<Rightarrow> 's deps \<Rightarrow> string \<Rightarrow> js js_map \<Rightarrow> js js_map" where
  "history_row C D event fs = fold (\<lambda>(k, v). map_set k v) ((''event'', JStr event) # fs)
     [(''ts'', JStr (dp_iso D (dp_now D))), (''shardId'', JStr (cf_shardId C))]"

definition writeHistory :: "BrokerConfig \<Rightarrow> 's deps \<Rightarrow> string \<Rightarrow> js js_map \<Rightarrow> 's Broker \<Rightarrow> 's Broker" where
  "writeHistory C D event fs = emit (History (history_row C D event fs))"

definition sendJson :: "'s deps \<Rightarrow> nat \<Rightarrow> js \<Rightarrow> 's Broker \<Rightarrow> 's Broker" where
  "sendJson D ws value B =
     (if \<not> dp_wsOpen D ws then B
      else case stringify value of Inr (Some t) \<Rightarrow> emit (WsSendFrame ws t) B | _ \<Rightarrow> B)"

definition put_game :: "BrokerGame \<Rightarrow> 's Broker \<Rightarrow> 's Broker" where
  "put_game G B = B\<lparr>b_games := map_set (bg_gameId G) G (b_games B)\<rparr>"

definition ensureStarted :: "('s, unit) brk" where
  "ensureStarted B = (if \<not> b_started B then (Inl ''broker is not started'', B) else (Inr (), B))"

section \<open>Capacity\<close>

definition snapshotCapacity :: "BrokerConfig \<Rightarrow> 's deps \<Rightarrow> 's Broker \<Rightarrow> BrokerCapacityRow" where
  "snapshotCapacity C D B =
     (let activeGames = int (length (b_games B));
          hardLimit = \<lfloor>rat_of_int (cf_maxActiveGames C) * cf_hardWatermarkPct C\<rfloor>;
          status = (if \<not> b_started B then ShardUnhealthy
                    else if b_drainRequested B
                    then if activeGames = 0 then ShardDrained else ShardDraining
                    else ShardHealthy)
      in \<lparr>cr_shardId = cf_shardId C, cr_url = cf_publicUrl C, cr_status = status,
          cr_healthy = b_started B, cr_acceptingWakes = b_acceptingWakes B \<and> activeGames < hardLimit,
          cr_runtimeContractsSupported = cf_runtimeContractsSupported C,
          cr_activeGames = activeGames, cr_currentGameCount = activeGames,
          cr_maxGames = cf_maxActiveGames C, cr_lastSeenAt = dp_now D\<rparr>)"

definition healthSnapshot :: "BrokerConfig \<Rightarrow> 's deps \<Rightarrow> 's Broker \<Rightarrow> BrokerHealthSnapshot" where
  "healthSnapshot C D B =
     \<lparr>hs_shardId = cf_shardId C, hs_started = b_started B, hs_acceptingWakes = b_acceptingWakes B,
      hs_activeGames = int (length (b_games B)),
      hs_connectedSessions = fold (\<lambda>(k, G) total. total + int (length (bg_sessions G))) (b_games B) 0,
      hs_capacity = snapshotCapacity C D B\<rparr>"

definition publishCapacity :: "BrokerConfig \<Rightarrow> 's deps \<Rightarrow> 's Broker \<Rightarrow> 's Broker" where
  "publishCapacity C D B = emit (CapacityPublished (snapshotCapacity C D B)) B"

definition maybeWriteDrainCompleted :: "BrokerConfig \<Rightarrow> 's deps \<Rightarrow> string \<Rightarrow> 's Broker \<Rightarrow> 's Broker" where
  "maybeWriteDrainCompleted C D reason B =
     (if \<not> b_drainRequested B \<or> b_drainCompleted B \<or> b_games B \<noteq> [] then B
      else writeHistory C D ''broker.drain.completed''
        [(''reason'', JStr reason), (''activeGames'', JNum 0)] (B\<lparr>b_drainCompleted := True\<rparr>))"

definition ensureRuntimeContract :: "BrokerConfig \<Rightarrow> int \<Rightarrow> ('s, unit) brk" where
  "ensureRuntimeContract C required B =
     (let (mn, mx) = cf_runtimeContractsSupported C in
      if required < mn \<or> required > mx
      then (Inl (''runtime contract '' @ dec_int required @ '' outside shard range ['' @ dec_int mn
              @ '', '' @ dec_int mx @ '']''), B)
      else (Inr (), B))"

definition ensureCapacity :: "BrokerConfig \<Rightarrow> ('s, unit) brk" where
  "ensureCapacity C B =
     (if \<not> b_acceptingWakes B then (Inl ''broker is not accepting wakes'', B)
      else if int (length (b_games B)) \<ge> cf_maxActiveGames C then (Inl ''broker capacity exhausted'', B)
      else (Inr (), B))"

section \<open>Timers\<close>

definition clearSleepTimer :: "BrokerConfig \<Rightarrow> 's deps \<Rightarrow> string \<Rightarrow> BrokerGame \<times> 's Broker \<Rightarrow> BrokerGame \<times> 's Broker" where
  "clearSleepTimer C D cause = (\<lambda>(G, B).
     (case bg_sleepTimer G of
        None \<Rightarrow> (G, B)
      | Some t \<Rightarrow>
         (G\<lparr>bg_sleepTimer := None\<rparr>,
          writeHistory C D ''lifecycle.sleepGrace.cancelled''
            [(''gameId'', JStr (bg_gameId G)), (''cause'', JStr cause)] B)))"

definition scheduleSleep :: "BrokerConfig \<Rightarrow> 's deps \<Rightarrow> BrokerGame \<times> 's Broker \<Rightarrow> BrokerGame \<times> 's Broker" where
  "scheduleSleep C D gb =
     (let (G, B) = clearSleepTimer C D ''cancelled'' gb;
          delay = default 60000 (cf_sleepGraceMs C);
          deadline = dp_now D + delay
      in (G\<lparr>bg_sleepTimer := Some deadline\<rparr>,
          writeHistory C D ''lifecycle.sleepGrace.started''
            [(''gameId'', JStr (bg_gameId G)), (''delayMs'', JNum delay), (''deadline'', JNum deadline)] B))"

definition scheduleCheckpoint :: "BrokerConfig \<Rightarrow> BrokerGame \<Rightarrow> 's Broker \<Rightarrow> 's Broker" where
  "scheduleCheckpoint C G B =
     (if default 0 (cf_checkpointIntervalMs C) \<le> 0 \<or> map_has (b_checkpointTimers B) (bg_gameId G) then B
      else B\<lparr>b_checkpointTimers := map_set (bg_gameId G) (bg_ref G) (b_checkpointTimers B)\<rparr>)"

definition cancelCheckpointTimer :: "string \<Rightarrow> 's Broker \<Rightarrow> 's Broker" where
  "cancelCheckpointTimer gameId B = B\<lparr>b_checkpointTimers := map_delete gameId (b_checkpointTimers B)\<rparr>"

definition armTick :: "int \<Rightarrow> BrokerGame \<Rightarrow> BrokerGame" where
  "armTick now G =
     (case bg_tickIntervalMs G of
        None \<Rightarrow> G
      | Some interval \<Rightarrow>
         let deadline = default (now + interval) (bg_tickNextDeadlineMs G);
             delay = max 0 (deadline - now)
         in G\<lparr>bg_tickNextDeadlineMs := Some deadline, bg_tickTimer := Some (now + delay)\<rparr>)"

text \<open>The requested interval is the number that arrived: \<open>None\<close> when it is not finite.\<close>

definition scheduleTick :: "BrokerConfig \<Rightarrow> int \<Rightarrow> int option \<Rightarrow> BrokerGame \<Rightarrow> BrokerGame" where
  "scheduleTick C now intervalMs G =
     (let floorMs = default 15 (cf_tickMinIntervalMs C);
          requested = default floorMs intervalMs;
          interval = max floorMs requested;
          G1 = G\<lparr>bg_tickIntervalMs := Some interval,
                 bg_tickNextDeadlineMs := Some (default (now + interval) (bg_tickNextDeadlineMs G))\<rparr>
      in if bg_tickTimer G1 \<noteq> None \<or> bg_tickRunning G1 then G1 else armTick now G1)"

text \<open>The timer fires: the tick to run, if the game is still the resident one.\<close>

definition tick_fire :: "bool \<Rightarrow> BrokerGame \<Rightarrow> int option \<times> BrokerGame" where
  "tick_fire resident G =
     (let G1 = G\<lparr>bg_tickTimer := None\<rparr> in
      if \<not> resident \<or> bg_tickIntervalMs G1 = None then (None, G1)
      else
       let tickSeq = default 0 (bg_tickSeq G1)
       in (Some tickSeq, G1\<lparr>bg_tickRunning := True, bg_tickSeq := Some (tickSeq + 1)\<rparr>))"

text \<open>\<^verbatim>\<open>while (nextDeadline <= now) nextDeadline += nextInterval\<close>\<close>

partial_function (option) advance :: "int \<Rightarrow> int \<Rightarrow> int \<Rightarrow> int option" where
  "advance now interval deadline =
     (if deadline \<le> now then advance now interval (deadline + interval) else Some deadline)"

text \<open>The \<^verbatim>\<open>finally\<close> of a tick; \<open>None\<close> when its loop never ends.\<close>

definition tick_done :: "bool \<Rightarrow> int \<Rightarrow> BrokerGame \<Rightarrow> BrokerGame option" where
  "tick_done resident now G =
     (let G1 = G\<lparr>bg_tickRunning := False\<rparr> in
      case (resident, bg_tickIntervalMs G1) of
        (True, Some nextInterval) \<Rightarrow>
          (case advance now nextInterval (default now (bg_tickNextDeadlineMs G1) + nextInterval) of
             None \<Rightarrow> None
           | Some nextDeadline \<Rightarrow> Some (armTick now (G1\<lparr>bg_tickNextDeadlineMs := Some nextDeadline\<rparr>)))
      | _ \<Rightarrow> Some G1)"

definition cancelTickTimer :: "BrokerGame \<Rightarrow> BrokerGame" where
  "cancelTickTimer G = G\<lparr>bg_tickIntervalMs := None, bg_tickNextDeadlineMs := None, bg_tickTimer := None\<rparr>"

section \<open>Sessions and dispatch\<close>

definition closeSessions :: "'s deps \<Rightarrow> string \<Rightarrow> BrokerGame \<times> 's Broker \<Rightarrow> BrokerGame \<times> 's Broker" where
  "closeSessions D reason = (\<lambda>(G, B).
     (G\<lparr>bg_sessions := []\<rparr>,
      fold (\<lambda>(k, s) B. emit (WsClose (se_ws s) 1001 reason)
          (sendJson D (se_ws s) (JObj [(''type'', JStr ''disconnect''), (''sessionId'', JStr (se_sessionId s)),
             (''reason'', JStr reason)]) B)) (bg_sessions G) B))"

definition connectedSessions :: "BrokerGame \<Rightarrow> ConnectedSessionSnapshot list" where
  "connectedSessions G = map (\<lambda>(k, s). \<lparr>ss_sessionId = se_sessionId s, ss_playerId = se_playerId s,
     ss_connectedAt = se_connectedAt s\<rparr>) (bg_sessions G)"

text \<open>
  \<^verbatim>\<open>invokeGameHandler\<close> in two halves, between which messages of other handlers are processed:
  \<open>dispatch_begin\<close> remembers the previous context and installs the new one, \<open>dispatch_end\<close> puts
  the remembered one back.
\<close>

definition dispatch_begin :: "DispatchContext \<Rightarrow> BrokerGame \<Rightarrow> DispatchContext option \<times> BrokerGame" where
  "dispatch_begin ctx G = (bg_currentDispatch G, G\<lparr>bg_currentDispatch := Some ctx\<rparr>)"

definition dispatch_end :: "DispatchContext option \<Rightarrow> BrokerGame \<Rightarrow> BrokerGame" where
  "dispatch_end previous G = G\<lparr>bg_currentDispatch := previous\<rparr>"

definition no_context :: DispatchContext where
  "no_context = \<lparr>dc_sessionId = None, dc_traceId = None\<rparr>"

definition invokeGameHandler ::
  "BrokerConfig \<Rightarrow> 's deps \<Rightarrow> RuntimeHandlerName \<Rightarrow> js \<Rightarrow> DispatchContext \<Rightarrow> BrokerGame
   \<Rightarrow> 's Broker \<Rightarrow> (string + unit) \<times> BrokerGame \<times> 's Broker" where
  "invokeGameHandler C D handler payload ctx G B =
     (let (previous, G1) = dispatch_begin ctx G;
          call = \<lparr>ri_gameId = bg_gameId G, ri_handler = handler, ri_payload = payload,
                  ri_timeoutMs = default (li_cpuMsPerTick (budgetLimits C)) (cf_handlerTimeoutMs C),
                  ri_traceId = dc_traceId ctx\<rparr>
      in (case dp_invoke D call of None \<Rightarrow> Inr () | Some e \<Rightarrow> Inl e,
          dispatch_end previous G1, emit (RunnerInvoked (bg_runnerId G) call) B))"

definition respond :: "BrokerToRunner \<Rightarrow> string option \<Rightarrow> BrokerGame \<Rightarrow> 's Broker \<Rightarrow> 's Broker" where
  "respond payload requestId G B =
     (case truthy requestId of
        None \<Rightarrow> B
      | Some r \<Rightarrow> emit (RunnerSend (bg_runnerId G)
          (bridgeEnvelope (bg_gameId G) payload (no_options\<lparr>eo_requestId := Some r\<rparr>))) B)"

definition validateAssignedRunner ::
  "BrokerConfig \<Rightarrow> 's deps \<Rightarrow> string \<Rightarrow> string \<Rightarrow> string \<Rightarrow> 's Broker \<Rightarrow> BrokerGame option \<times> 's Broker" where
  "validateAssignedRunner C D runnerId gameId type B =
     (case map_get (b_games B) gameId of
        Some G \<Rightarrow>
          if bg_runnerId G = runnerId then (Some G, B)
          else (None, writeHistory C D ''runner.assignmentRejected''
            [(''runnerId'', JStr runnerId), (''gameId'', JStr gameId), (''type'', JStr type)] B)
      | None \<Rightarrow> (None, writeHistory C D ''runner.assignmentRejected''
            [(''runnerId'', JStr runnerId), (''gameId'', JStr gameId), (''type'', JStr type)] B))"

definition verifyPlacementToken :: "'s deps \<Rightarrow> string \<Rightarrow> string + VerifiedPlacementClaims" where
  "verifyPlacementToken D token =
     (case dp_verify D token of
        Inl e \<Rightarrow> Inl e
      | Inr decoded \<Rightarrow>
         (case decoded of
            JObj claims \<Rightarrow>
              (case js_string (js_get decoded ''gameId'') of
                 None \<Rightarrow> Inl ''placement token missing gameId''
               | Some g \<Rightarrow>
              (case js_string (js_get decoded ''playerId'') of
                 None \<Rightarrow> Inl ''placement token missing playerId''
               | Some p \<Rightarrow>
              (case js_string (js_get decoded ''shardId'') of
                 None \<Rightarrow> Inl ''placement token missing shardId''
               | Some s \<Rightarrow> Inr \<lparr>vc_gameId = g, vc_playerId = p, vc_shardId = s, vc_all = claims\<rparr>)))
          | _ \<Rightarrow> Inl ''placement token payload is not an object''))"

section \<open>Frame lemmas\<close>

lemmas broker_effects = emit_def writeHistory_def publishCapacity_def respond_def

lemma emit_fields [simp]:
  "b_games (emit e B) = b_games B" "b_store (emit e B) = b_store B" "b_started (emit e B) = b_started B"
  "b_acceptingWakes (emit e B) = b_acceptingWakes B" "b_wakingGames (emit e B) = b_wakingGames B"
  "b_checkpointTimers (emit e B) = b_checkpointTimers B" "b_drainRequested (emit e B) = b_drainRequested B"
  "b_drainCompleted (emit e B) = b_drainCompleted B" "b_nextRef (emit e B) = b_nextRef B"
  "b_out (emit e B) = b_out B @ [e]" "b_wsSendMetrics (emit e B) = b_wsSendMetrics B"
  by (simp_all add: emit_def)

lemma writeHistory_fields [simp]:
  "b_games (writeHistory C D ev fs B) = b_games B" "b_store (writeHistory C D ev fs B) = b_store B"
  "b_started (writeHistory C D ev fs B) = b_started B"
  "b_acceptingWakes (writeHistory C D ev fs B) = b_acceptingWakes B"
  "b_wakingGames (writeHistory C D ev fs B) = b_wakingGames B"
  "b_checkpointTimers (writeHistory C D ev fs B) = b_checkpointTimers B"
  "b_drainRequested (writeHistory C D ev fs B) = b_drainRequested B"
  "b_drainCompleted (writeHistory C D ev fs B) = b_drainCompleted B"
  "b_nextRef (writeHistory C D ev fs B) = b_nextRef B"
  "b_wsSendMetrics (writeHistory C D ev fs B) = b_wsSendMetrics B"
  "b_out (writeHistory C D ev fs B) = b_out B @ [History (history_row C D ev fs)]"
  by (simp_all add: writeHistory_def)

lemma respond_fields [simp]:
  "b_games (respond p r G B) = b_games B" "b_store (respond p r G B) = b_store B"
  "b_started (respond p r G B) = b_started B"
  "b_checkpointTimers (respond p r G B) = b_checkpointTimers B"
  by (simp_all add: respond_def split: option.splits)

lemma sendJson_fields [simp]:
  "b_games (sendJson D w v B) = b_games B" "b_store (sendJson D w v B) = b_store B"
  "b_started (sendJson D w v B) = b_started B" "b_wakingGames (sendJson D w v B) = b_wakingGames B"
  "b_acceptingWakes (sendJson D w v B) = b_acceptingWakes B"
  "b_checkpointTimers (sendJson D w v B) = b_checkpointTimers B"
  "b_drainRequested (sendJson D w v B) = b_drainRequested B"
  "b_drainCompleted (sendJson D w v B) = b_drainCompleted B"
  "b_nextRef (sendJson D w v B) = b_nextRef B"
  by (simp_all add: sendJson_def split: sum.splits option.splits)

lemma publishCapacity_fields [simp]:
  "b_games (publishCapacity C D B) = b_games B" "b_store (publishCapacity C D B) = b_store B"
  "b_started (publishCapacity C D B) = b_started B"
  "b_acceptingWakes (publishCapacity C D B) = b_acceptingWakes B"
  "b_wakingGames (publishCapacity C D B) = b_wakingGames B"
  "b_checkpointTimers (publishCapacity C D B) = b_checkpointTimers B"
  "b_drainRequested (publishCapacity C D B) = b_drainRequested B"
  "b_drainCompleted (publishCapacity C D B) = b_drainCompleted B"
  by (simp_all add: publishCapacity_def)

section \<open>Ticks\<close>

lemma advance_spec:
  assumes "0 < interval"
  shows "\<exists>n. advance now interval deadline = Some (deadline + int n * interval)
    \<and> now < deadline + int n * interval \<and> (n = 0 \<or> deadline + int n * interval \<le> now + interval)"
proof (induction "nat (now + 1 - deadline)" arbitrary: deadline rule: less_induct)
  case less
  show ?case
  proof (cases "deadline \<le> now")
    case False
    then show ?thesis by (intro exI [of _ 0]) (simp add: advance.simps)
  next
    case True
    then have "nat (now + 1 - (deadline + interval)) < nat (now + 1 - deadline)" using assms by simp
    from less [OF this] obtain n where n: "advance now interval (deadline + interval)
        = Some (deadline + interval + int n * interval)"
      "now < deadline + interval + int n * interval"
      "n = 0 \<or> deadline + interval + int n * interval \<le> now + interval" by blast
    show ?thesis
      using n True by (intro exI [of _ "Suc n"]) (auto simp: advance.simps [of now interval deadline] algebra_simps)
  qed
qed

lemma advance_stuck:
  assumes "interval \<le> 0" and "deadline \<le> now"
  shows "advance now interval deadline = None"
proof (rule ccontr)
  assume "advance now interval deadline \<noteq> None"
  then obtain r where run: "advance now interval deadline = Some r" by auto
  let ?P = "\<lambda>n i d (r :: int). i \<le> 0 \<longrightarrow> n < d"
  have "?P now interval deadline r"
  proof (rule advance.raw_induct [where P = ?P, OF _ run])
    fix f n i d r
    assume IH: "\<And>n i d r. f n i d = Some r \<Longrightarrow> ?P n i d r"
      and eq: "(if d \<le> n then f n i (d + i) else Some d) = Some r"
    show "?P n i d r" using IH [of n i "d + i" r] eq by (auto split: if_splits)
  qed
  then show False using assms by simp
qed

end
