(* ===== verification/BrokerOps.thy ===== *)
theory BrokerOps
  imports BrokerState
begin

text \<open>
  What a game may ask of its Broker: state and blobs within the budgets, \<^verbatim>\<open>ws.send\<close>, players,
  budgets and the API gateway. Each operation takes the game and the Broker and returns its
  answer with both. The invariant \<open>game_ok\<close> ties the accounting in the game's budgets to what
  its session really holds; every operation keeps it.
\<close>

section \<open>Storage\<close>

definition br_readState ::
  "BrokerConfig \<Rightarrow> 's deps \<Rightarrow> string option \<Rightarrow> BrokerGame \<Rightarrow> 's Broker
   \<Rightarrow> (string + StorageReadResponsePayload) \<times> 's Broker" where
  "br_readState C D requestId G B =
     (let b = readState (bg_state G);
          B1 = writeHistory C D ''state.read''
            [(''gameId'', JStr (bg_gameId G)), (''requestId'', opt_str requestId),
             (''found'', JBool (length b > 0)), (''byteSize'', JNum (int (length b)))] B
      in (case decodeJsonState (ev_host (dp_env D)) b of
            Inl e \<Rightarrow> Inl e
          | Inr v \<Rightarrow> Inr \<lparr>sp_value = Some v, sp_found = Some (length b > 0), sp_bytes = Some (int (length b))\<rparr>,
          B1))"

definition br_writeState ::
  "BrokerConfig \<Rightarrow> 's deps \<Rightarrow> js \<Rightarrow> string option \<Rightarrow> BrokerGame \<times> 's Broker
   \<Rightarrow> StorageWriteResponse \<times> BrokerGame \<times> 's Broker" where
  "br_writeState C D value requestId = (\<lambda>(G, B).
     (case encodeJsonState value of
        Inl response \<Rightarrow>
          (response, G, writeHistory C D ''state.write.rejected''
             [(''gameId'', JStr (bg_gameId G)), (''requestId'', opt_str requestId),
              (''error'', JStr (case response of StorageOk \<Rightarrow> ''storageUnavailable''
                                | StorageErr e d \<Rightarrow> storageError e))] B)
      | Inr b \<Rightarrow>
          let limit = li_stateBytes (budgetLimits C) in
          if int (length b) > limit
          then (StorageErr SizeExceeded (Some (JObj [(''limit'', JNum limit)])), G,
                writeHistory C D ''state.write.rejected''
                  [(''gameId'', JStr (bg_gameId G)), (''requestId'', opt_str requestId),
                   (''error'', JStr ''sizeExceeded''), (''limit'', JNum limit)] B)
          else
           let G1 = G\<lparr>bg_state := writeState b (bg_state G),
                      bg_budgets := (bg_budgets G)\<lparr>gb_stateBytes := int (length b)\<rparr>\<rparr>;
               B1 = writeHistory C D ''state.write''
                 [(''gameId'', JStr (bg_gameId G)), (''requestId'', opt_str requestId),
                  (''ok'', JBool True), (''byteSize'', JNum (int (length b)))] B
           in (StorageOk, G1, scheduleCheckpoint C G1 B1)))"

definition br_flushState ::
  "BrokerConfig \<Rightarrow> 's deps \<Rightarrow> string \<Rightarrow> string option \<Rightarrow> string option \<Rightarrow> BrokerGame \<times> 's Broker
   \<Rightarrow> (string + StorageWriteResponse) \<times> BrokerGame \<times> 's Broker" where
  "br_flushState C D event requestId trigger = (\<lambda>(G, B0).
     let B = cancelCheckpointTimer (bg_gameId G) B0;
         (r, g', s') = flush (dp_env D) (dp_ops D) (bg_state G) (b_store B);
         G1 = G\<lparr>bg_state := g'\<rparr>; B1 = B\<lparr>b_store := s'\<rparr>
     in case r of
        Inr rt0 \<Rightarrow>
          if rt0 = None \<and> event = ''state.checkpoint'' then (Inr StorageOk, G1, B1)
          else
           (Inr StorageOk, G1, writeHistory C D event
              [(''gameId'', JStr (bg_gameId G)), (''requestId'', opt_str requestId), (''ok'', JBool True),
               (''checkpointSeq'', opt_int (map_option rt_checkpointSeq rt0)),
               (''codec'', opt_str (map_option (\<lambda>r. stateCodec (rt_codec r)) rt0)),
               (''byteSize'', JNum (default 0 (map_option (\<lambda>r. sr_size (rt_stateRef r)) rt0))),
               (''trigger'', opt_str trigger), (''durationMs'', JNum (dp_later D - dp_now D))] B1)
      | Inl Diverges \<Rightarrow> (Inl hang, G1, B1)
      | Inl (StoreErr (ConditionalPutConflict k)) \<Rightarrow>
          (Inr (StorageErr StorageUnavailable
                 (Some (JObj [(''code'', JStr ''conditionalPutConflict''), (''operation'', JStr event)]))),
           G1, writeHistory C D ''state.fence.conflict''
              [(''gameId'', JStr (bg_gameId G)), (''requestId'', opt_str requestId),
               (''operation'', JStr event), (''trigger'', opt_str trigger),
               (''error'', JStr (dp_errText D (StoreErr (ConditionalPutConflict k))))] B1)
      | Inl e \<Rightarrow>
          (Inr (StorageErr StorageUnavailable None), G1, writeHistory C D ''storage.unavailable''
              [(''gameId'', JStr (bg_gameId G)), (''operation'', JStr event),
               (''error'', JStr (dp_errText D e))] B1))"

definition blob_rejected ::
  "BrokerConfig \<Rightarrow> 's deps \<Rightarrow> BrokerGame \<Rightarrow> string option \<Rightarrow> string \<Rightarrow> StorageError \<Rightarrow> int option
   \<Rightarrow> 's Broker \<Rightarrow> 's Broker" where
  "blob_rejected C D G requestId key e limit =
     writeHistory C D ''blob.put.rejected''
       ([(''gameId'', JStr (bg_gameId G)), (''requestId'', opt_str requestId), (''key'', JStr key),
         (''error'', JStr (storageError e))]
        @ (case limit of None \<Rightarrow> [] | Some l \<Rightarrow> [(''limit'', JNum l)]))"

definition br_putBlob ::
  "BrokerConfig \<Rightarrow> 's deps \<Rightarrow> BlobPutIpcPayload \<Rightarrow> string option \<Rightarrow> BrokerGame \<times> 's Broker
   \<Rightarrow> StorageWriteResponse \<times> BrokerGame \<times> 's Broker" where
  "br_putBlob C D payload requestId = (\<lambda>(G, B).
     (case validateBlobKey (bp_key payload) of
        StorageErr e d \<Rightarrow> (StorageErr e d, G, blob_rejected C D G requestId (bp_key payload) e None B)
      | StorageOk \<Rightarrow>
        let key = bp_key payload;
            b = b64_decode (bp_bytesBase64 payload);
            bud = bg_budgets G; lim = budgetLimits C;
            previousSize = default 0 (map_get (bg_blobSizes G) key);
            nextBlobBytes = gb_blobBytes bud - previousSize + int (length b);
            nextBlobKeys = (if map_has (bg_blobSizes G) key then gb_blobKeys bud else gb_blobKeys bud + 1)
        in if nextBlobBytes > li_blobBytes lim
           then (StorageErr SizeExceeded (Some (JObj [(''limit'', JNum (li_blobBytes lim))])), G,
                 blob_rejected C D G requestId key SizeExceeded (Some (li_blobBytes lim)) B)
           else if nextBlobKeys > li_blobKeys lim
           then (StorageErr KeyCountExceeded (Some (JObj [(''limit'', JNum (li_blobKeys lim))])), G,
                 blob_rejected C D G requestId key KeyCountExceeded (Some (li_blobKeys lim)) B)
           else
            let G1 = G\<lparr>bg_blobSizes := map_set key (int (length b)) (bg_blobSizes G),
                       bg_budgets := bud\<lparr>gb_blobBytes := nextBlobBytes, gb_blobKeys := nextBlobKeys\<rparr>,
                       bg_state := putBlob key b (bg_state G)\<rparr>;
                B1 = writeHistory C D ''blob.put''
                  [(''gameId'', JStr (bg_gameId G)), (''requestId'', opt_str requestId), (''key'', JStr key),
                   (''ok'', JBool True), (''byteSize'', JNum (int (length b)))] B
            in (StorageOk, G1, scheduleCheckpoint C G1 B1)))"

definition br_getBlob ::
  "BrokerConfig \<Rightarrow> 's deps \<Rightarrow> string \<Rightarrow> string option \<Rightarrow> BrokerGame \<Rightarrow> 's Broker
   \<Rightarrow> (string + BlobGetResponsePayload) \<times> 's Broker" where
  "br_getBlob C D key requestId G B =
     (case getBlob (dp_ops D) (b_store B) (bg_state G) key of
        Inl e \<Rightarrow> (Inl (dp_errText D e), B)
      | Inr b \<Rightarrow>
         (Inr (case b of
                 Some bs \<Rightarrow> \<lparr>bg_valueBase64 = None, bg_found = Some True, bg_bytesBase64 = Some (b64_encode bs),
                            bg_bytes = Some (int (length bs))\<rparr>
               | None \<Rightarrow> \<lparr>bg_valueBase64 = None, bg_found = Some False, bg_bytesBase64 = None, bg_bytes = Some 0\<rparr>),
          writeHistory C D ''blob.get''
            [(''gameId'', JStr (bg_gameId G)), (''requestId'', opt_str requestId), (''key'', JStr key),
             (''found'', JBool (b \<noteq> None)),
             (''byteSize'', JNum (case b of None \<Rightarrow> 0 | Some bs \<Rightarrow> int (length bs)))] B))"

definition br_deleteBlob ::
  "BrokerConfig \<Rightarrow> 's deps \<Rightarrow> string \<Rightarrow> string option \<Rightarrow> BrokerGame \<times> 's Broker \<Rightarrow> BrokerGame \<times> 's Broker" where
  "br_deleteBlob C D key requestId = (\<lambda>(G, B).
     let G1 = G\<lparr>bg_state := deleteBlob key (bg_state G)\<rparr>;
         G2 = (case map_get (bg_blobSizes G) key of
                 None \<Rightarrow> G1
               | Some previousSize \<Rightarrow>
                   let sizes = map_delete key (bg_blobSizes G1) in
                   G1\<lparr>bg_blobSizes := sizes,
                      bg_budgets := (bg_budgets G1)\<lparr>
                        gb_blobBytes := max 0 (gb_blobBytes (bg_budgets G1) - previousSize),
                        gb_blobKeys := int (length sizes)\<rparr>\<rparr>);
         B1 = writeHistory C D ''blob.delete''
           [(''gameId'', JStr (bg_gameId G)), (''requestId'', opt_str requestId), (''key'', JStr key)] B
     in (G2, scheduleCheckpoint C G2 B1))"

definition br_listBlobs ::
  "BrokerConfig \<Rightarrow> 's deps \<Rightarrow> string option \<Rightarrow> string option \<Rightarrow> BrokerGame \<Rightarrow> 's Broker
   \<Rightarrow> BlobListItem list \<times> 's Broker" where
  "br_listBlobs C D pre requestId G B =
     (let items = map (\<lambda>key. \<lparr>bl_key = key, bl_size = default 0 (map_get (bg_blobSizes G) key)\<rparr>)
            (listBlobs (default [] pre) (bg_state G))
      in (items, writeHistory C D ''blob.list''
            [(''gameId'', JStr (bg_gameId G)), (''requestId'', opt_str requestId), (''prefix'', opt_str pre),
             (''keyCount'', JNum (int (length items)))] B))"

fun blob_sizes_loop :: "'s StateObjectStore \<Rightarrow> 's \<Rightarrow> GameStateSession \<Rightarrow> string list \<Rightarrow> int js_map
   \<Rightarrow> state_error + int js_map" where
  "blob_sizes_loop ops s g [] sizes = Inr sizes"
| "blob_sizes_loop ops s g (k # ks) sizes =
     (case getBlob ops s g k of
        Inl e \<Rightarrow> Inl e
      | Inr b \<Rightarrow> blob_sizes_loop ops s g ks
          (map_set k (case b of None \<Rightarrow> 0 | Some bs \<Rightarrow> int (length bs)) sizes))"

definition materializeBlobSizes :: "'s StateObjectStore \<Rightarrow> 's \<Rightarrow> GameStateSession \<Rightarrow> state_error + int js_map" where
  "materializeBlobSizes ops s g = blob_sizes_loop ops s g (listBlobs [] g) []"

section \<open>Outbound frames\<close>

definition ws_rejected ::
  "BrokerConfig \<Rightarrow> 's deps \<Rightarrow> BrokerGame \<Rightarrow> string option \<Rightarrow> js \<Rightarrow> WsSendError \<Rightarrow> js js_map \<Rightarrow> 's Broker \<Rightarrow> 's Broker" where
  "ws_rejected C D G requestId target e extra B =
     writeHistory C D ''ws.send.rejected''
       ([(''gameId'', JStr (bg_gameId G)), (''requestId'', opt_str requestId), (''target'', target),
         (''error'', JStr (wsSendError e))] @ extra)
       (B\<lparr>b_wsSendMetrics := recordRejected e (b_wsSendMetrics B)\<rparr>)"

definition ws_frames :: "WsFramePlan \<Rightarrow> BrokerSession list \<Rightarrow> (BrokerSession \<times> string) list" where
  "ws_frames plan ss = map (\<lambda>s. (s, serialize plan (se_sessionId s))) ss"

definition frames_bytes :: "(BrokerSession \<times> string) list \<Rightarrow> int" where
  "frames_bytes fs = fold (\<lambda>(s, t) total. total + int (length t)) fs 0"

definition open_frames :: "'s deps \<Rightarrow> (BrokerSession \<times> string) list \<Rightarrow> (BrokerSession \<times> string) list" where
  "open_frames D = filter (\<lambda>(s, t). dp_wsOpen D (se_ws s))"

definition handleWsSend ::
  "BrokerConfig \<Rightarrow> 's deps \<Rightarrow> js \<Rightarrow> js \<Rightarrow> string option \<Rightarrow> BrokerGame \<times> 's Broker
   \<Rightarrow> WsSendResponse \<times> BrokerGame \<times> 's Broker" where
  "handleWsSend C D target body requestId = (\<lambda>(G, B).
     (case prepareWsFramePlan body of
        NoFrame e d \<Rightarrow> (WsErr e (Some d), G, ws_rejected C D G requestId target e [] B)
      | plan \<Rightarrow>
     (case resolveWsSendTargets target (map snd (bg_sessions G)) of
        Inl (WsErr e d) \<Rightarrow>
          (WsErr e d, G, ws_rejected C D G requestId target e [(''detail'', default JUndef d)] B)
      | Inl r \<Rightarrow> (r, G, B)
      | Inr ss \<Rightarrow>
        let frames = ws_frames plan ss;
            n = frames_bytes frames;
            now = dp_now D; bud = bg_budgets G; lim = budgetLimits C;
            (usedBytes, wsBytes1) = sw_sum now (gb_wsBytes bud);
            G1 = G\<lparr>bg_budgets := bud\<lparr>gb_wsBytes := wsBytes1\<rparr>\<rparr>
        in if usedBytes + n > li_bandwidthBytesPerSec lim
           then (WsErr BandwidthExceeded (Some (JObj [(''limit'', JNum (li_bandwidthBytesPerSec lim))])), G1,
                 ws_rejected C D G requestId target BandwidthExceeded
                   [(''limit'', JNum (li_bandwidthBytesPerSec lim))] B)
           else
            let (usedMessages, wsMessages1) = sw_sum now (gb_wsMessages bud);
                G2 = G1\<lparr>bg_budgets := (bg_budgets G1)\<lparr>gb_wsMessages := wsMessages1\<rparr>\<rparr>
            in if usedMessages + 1 > li_wsMessagesPerSec lim
               then (WsErr RateExceeded (Some (JObj [(''limit'', JNum (li_wsMessagesPerSec lim))])), G2,
                     ws_rejected C D G requestId target RateExceeded
                       [(''limit'', JNum (li_wsMessagesPerSec lim))] B)
               else
                let G3 = G2\<lparr>bg_budgets := (bg_budgets G2)\<lparr>gb_wsBytes := sw_add n now wsBytes1,
                                gb_wsMessages := sw_add 1 now wsMessages1\<rparr>\<rparr>;
                    opened = open_frames D frames;
                    sent = int (length opened);
                    sentBytes = frames_bytes opened;
                    B1 = fold (\<lambda>(s, t). emit (WsSendFrame (se_ws s) t)) opened B;
                    B2 = writeHistory C D ''ws.send''
                      ([(''gameId'', JStr (bg_gameId G)), (''requestId'', opt_str requestId),
                        (''target'', target), (''recipientCount'', JNum sent), (''bytes'', JNum sentBytes)]
                       @ (case opened of
                            [(s, t)] \<Rightarrow> [(''sessionId'', JStr (se_sessionId s)), (''playerId'', JStr (se_playerId s))]
                          | _ \<Rightarrow> [])) B1;
                    B3 = B2\<lparr>b_wsSendMetrics := recordSent (dp_later D - dp_now D) sent sentBytes
                           (maxNumber (map (\<lambda>(s, t). dp_wsBuffered D (se_ws s)) opened)) (b_wsSendMetrics B2)\<rparr>
                in (WsSent sent sentBytes, G3, B3))))"

section \<open>Players, budgets and the gateway\<close>

definition playersAllowed :: "BrokerConfig \<Rightarrow> 's deps \<Rightarrow> string option \<Rightarrow> BrokerGame \<Rightarrow> 's Broker \<Rightarrow> string list \<times> 's Broker" where
  "playersAllowed C D requestId G B =
     (let players = dp_allowedList D (bg_gameId G) in
      (players, writeHistory C D ''players.allowed''
         [(''gameId'', JStr (bg_gameId G)), (''requestId'', opt_str requestId),
          (''playerCount'', JNum (int (length players)))] B))"

definition playersConnected ::
  "BrokerConfig \<Rightarrow> 's deps \<Rightarrow> string option \<Rightarrow> BrokerGame \<Rightarrow> 's Broker \<Rightarrow> ConnectedSessionSnapshot list \<times> 's Broker" where
  "playersConnected C D requestId G B =
     (let players = connectedSessions G in
      (players, writeHistory C D ''players.connected''
         [(''gameId'', JStr (bg_gameId G)), (''requestId'', opt_str requestId),
          (''playerCount'', JNum (int (length players)))] B))"

fun computeBudgetSnapshot :: "BrokerConfig \<Rightarrow> int \<Rightarrow> BrokerGame \<Rightarrow> ComputeBudgetSnapshot" where
  "computeBudgetSnapshot C now G CpuMsPerTick =
     \<lparr>bu_currentUsage = gb_cpuMs (bg_budgets G), bu_limit = li_cpuMsPerTick (budgetLimits C), bu_windowMs = None\<rparr>"
| "computeBudgetSnapshot C now G MemoryBytes =
     \<lparr>bu_currentUsage = gb_memoryBytes (bg_budgets G), bu_limit = li_memoryBytes (budgetLimits C), bu_windowMs = None\<rparr>"
| "computeBudgetSnapshot C now G BandwidthBytesPerSec =
     \<lparr>bu_currentUsage = fst (sw_sum now (gb_wsBytes (bg_budgets G))),
      bu_limit = li_bandwidthBytesPerSec (budgetLimits C), bu_windowMs = Some 1000\<rparr>"
| "computeBudgetSnapshot C now G WsMessagesPerSec =
     \<lparr>bu_currentUsage = fst (sw_sum now (gb_wsMessages (bg_budgets G))),
      bu_limit = li_wsMessagesPerSec (budgetLimits C), bu_windowMs = Some 1000\<rparr>"
| "computeBudgetSnapshot C now G StateBytes =
     \<lparr>bu_currentUsage = gb_stateBytes (bg_budgets G), bu_limit = li_stateBytes (budgetLimits C), bu_windowMs = None\<rparr>"
| "computeBudgetSnapshot C now G BlobBytes =
     \<lparr>bu_currentUsage = gb_blobBytes (bg_budgets G), bu_limit = li_blobBytes (budgetLimits C), bu_windowMs = None\<rparr>"
| "computeBudgetSnapshot C now G BlobKeys =
     \<lparr>bu_currentUsage = gb_blobKeys (bg_budgets G), bu_limit = li_blobKeys (budgetLimits C), bu_windowMs = None\<rparr>"
| "computeBudgetSnapshot C now G ApiInvocationsPerMin =
     \<lparr>bu_currentUsage = fst (sw_sum now (gb_apiInvocations (bg_budgets G))),
      bu_limit = li_apiInvocationsPerMin (budgetLimits C), bu_windowMs = Some 60000\<rparr>"

text \<open>Taking the snapshot also prunes the three counters of the game.\<close>

definition snapshot_prunes :: "int \<Rightarrow> BrokerGame \<Rightarrow> BrokerGame" where
  "snapshot_prunes now G =
     G\<lparr>bg_budgets := (bg_budgets G)\<lparr>gb_wsBytes := sw_prune now (gb_wsBytes (bg_budgets G)),
         gb_wsMessages := sw_prune now (gb_wsMessages (bg_budgets G)),
         gb_apiInvocations := sw_prune now (gb_apiInvocations (bg_budgets G))\<rparr>\<rparr>"

fun budgetName :: "ComputeBudgetName \<Rightarrow> string" where
  "budgetName CpuMsPerTick = ''cpu-ms-per-tick''"
| "budgetName MemoryBytes = ''memory-bytes''"
| "budgetName BandwidthBytesPerSec = ''bandwidth-bytes-per-sec''"
| "budgetName WsMessagesPerSec = ''ws-messages-per-sec''"
| "budgetName StateBytes = ''state-bytes''"
| "budgetName BlobBytes = ''blob-bytes''"
| "budgetName BlobKeys = ''blob-keys''"
| "budgetName ApiInvocationsPerMin = ''api-invocations-per-min''"

definition usage_js :: "ComputeBudgetUsage \<Rightarrow> js" where
  "usage_js u = JObj ([(''currentUsage'', JNum (bu_currentUsage u)), (''limit'', JNum (bu_limit u))]
     @ (case bu_windowMs u of None \<Rightarrow> [] | Some w \<Rightarrow> [(''windowMs'', JNum w)]))"

definition computeBudget ::
  "BrokerConfig \<Rightarrow> 's deps \<Rightarrow> string option \<Rightarrow> BrokerGame \<times> 's Broker
   \<Rightarrow> ComputeBudgetSnapshot \<times> BrokerGame \<times> 's Broker" where
  "computeBudget C D requestId = (\<lambda>(G, B).
     let budget = computeBudgetSnapshot C (dp_now D) G in
     (budget, snapshot_prunes (dp_now D) G, writeHistory C D ''compute.budget''
        [(''gameId'', JStr (bg_gameId G)), (''requestId'', opt_str requestId),
         (''snapshot'', JObj (map (\<lambda>n. (budgetName n, usage_js (budget n)))
            [CpuMsPerTick, MemoryBytes, BandwidthBytesPerSec, WsMessagesPerSec, StateBytes, BlobBytes,
             BlobKeys, ApiInvocationsPerMin]))] B))"

text \<open>The session whose message is being dispatched.\<close>

definition triggering_session :: "BrokerGame \<Rightarrow> BrokerSession option" where
  "triggering_session G =
     Option.bind (Option.bind (bg_currentDispatch G) (\<lambda>d. truthy (dc_sessionId d))) (map_get (bg_sessions G))"

definition gateway_input :: "ApiInvokeRequest \<Rightarrow> BrokerGame \<Rightarrow> ApiGatewayDispatchInput" where
  "gateway_input payload G =
     \<lparr>ai_kind = ai_kind payload, ai_args = ai_args payload, ai_idempotencyKey = ai_idempotencyKey payload,
      di_gameId = bg_gameId G,
      di_triggeringSessionId = map_option se_sessionId (triggering_session G),
      di_triggeringJwtClaims = map_option se_jwtClaims (triggering_session G),
      di_connectedSessions = connectedSessions G, di_bundleName = bg_bundleName G,
      di_bundleCompatTag = bg_bundleCompatTag G, di_runId = bg_runId G,
      di_traceId = Option.bind (bg_currentDispatch G) dc_traceId, di_replayMode = None\<rparr>"

definition wire_history ::
  "BrokerConfig \<Rightarrow> 's deps \<Rightarrow> ApiInvokeRequest \<Rightarrow> string option \<Rightarrow> BrokerGame \<Rightarrow> js \<Rightarrow> ApiInvokeWireRecord \<Rightarrow> 's Broker \<Rightarrow> 's Broker" where
  "wire_history C D payload requestId G trace w =
     writeHistory C D ''api.invoke.wire''
       [(''gameId'', JStr (bg_gameId G)), (''requestId'', opt_str requestId), (''kind'', JStr (ai_kind payload)),
        (''gatewayRequestId'', JStr (wr_requestId w)), (''runId'', str_or_null (bg_runId G)), (''traceId'', trace),
        (''fingerprint'', JStr (wr_fingerprint w)), (''mode'', JStr (wireMode (wr_mode w))),
        (''statusCode'', JNum (wr_statusCode w)), (''error'', opt_str (map_option apiInvokeError (wr_error w))),
        (''rawOutbound'', JStr (wr_rawOutbound w)), (''rawInbound'', JStr (wr_rawInbound w)),
        (''recordedAt'', JStr (wr_recordedAt w))]"

definition invokeGateway ::
  "BrokerConfig \<Rightarrow> 's deps \<Rightarrow> ApiInvokeRequest \<Rightarrow> string option \<Rightarrow> BrokerGame \<times> 's Broker
   \<Rightarrow> ApiInvokeResponse \<times> BrokerGame \<times> 's Broker" where
  "invokeGateway C D payload requestId = (\<lambda>(G0, B).
     let G = G0\<lparr>bg_budgets := (bg_budgets G0)\<lparr>gb_apiInvocations :=
                  sw_add 1 (dp_now D) (gb_apiInvocations (bg_budgets G0))\<rparr>\<rparr>;
         trace = str_or_null (Option.bind (bg_currentDispatch G) dc_traceId);
         B1 = writeHistory C D ''api.invoke.request''
           [(''gameId'', JStr (bg_gameId G)), (''requestId'', opt_str requestId), (''kind'', JStr (ai_kind payload)),
            (''triggeringSessionId'', str_or_null (map_option se_sessionId (triggering_session G))),
            (''traceId'', trace), (''connectedSessionCount'', JNum (int (length (bg_sessions G)))),
            (''idempotencyKey'', opt_str (ai_idempotencyKey payload))] B
     in (case dp_gateway D (gateway_input payload G) of
           Inr result \<Rightarrow>
             let w = gr_wireRecord result;
                 B2 = (case w of None \<Rightarrow> B1 | Some r \<Rightarrow> wire_history C D payload requestId G trace r B1);
                 B3 = writeHistory C D ''api.invoke.response''
                   [(''gameId'', JStr (bg_gameId G)), (''requestId'', opt_str requestId),
                    (''kind'', JStr (ai_kind payload)), (''traceId'', trace),
                    (''ok'', JBool (case gr_response result of ApiOk v \<Rightarrow> True | ApiErr e d \<Rightarrow> False)),
                    (''error'', (case gr_response result of ApiOk v \<Rightarrow> JUndef | ApiErr e d \<Rightarrow> JStr (apiInvokeError e))),
                    (''fingerprint'', opt_str (map_option wr_fingerprint w)),
                    (''mode'', opt_str (map_option (\<lambda>r. wireMode (wr_mode r)) w)),
                    (''statusCode'', opt_int (map_option wr_statusCode w)),
                    (''durationMs'', JNum (dp_later D - dp_now D))] B2
             in (gr_response result, G, B3)
         | Inl e \<Rightarrow>
             let B2 = writeHistory C D ''api.invoke.response''
                   [(''gameId'', JStr (bg_gameId G)), (''requestId'', opt_str requestId),
                    (''kind'', JStr (ai_kind payload)), (''traceId'', trace), (''ok'', JBool False),
                    (''error'', JStr ''providerError''), (''durationMs'', JNum (dp_later D - dp_now D))] B1;
                 B3 = writeHistory C D ''api.invoke.error''
                   [(''gameId'', JStr (bg_gameId G)), (''requestId'', opt_str requestId),
                    (''kind'', JStr (ai_kind payload)), (''error'', JStr e)] B2
             in (ApiErr ProviderError None, G, B3)))"

end
