(* ===== verification/BrokerLife.thy ===== *)
theory BrokerLife
  imports BrokerOps
begin

text \<open>
  The life of a game on a Broker: waking, connections, messages, ticks, checkpoints, sleep,
  eviction, runner crashes, hand-over to a newer shard, drain and shutdown, and the dispatch of
  every message a runner can send.

  Each handler runs as one step. Two of them are also given in two halves, at the point where
  the code awaits between reading and writing shared state: \<open>wake_begin\<close> and
  \<open>wake_finish\<close> here, \<open>dispatch_begin\<close> and \<open>dispatch_end\<close> in \<open>BrokerState\<close>.
\<close>

section \<open>Objects and identity\<close>

text \<open>The resident object of a game, and an update of an object that may no longer be it.\<close>

definition is_resident :: "BrokerGame \<Rightarrow> 's Broker \<Rightarrow> bool" where
  "is_resident G B \<longleftrightarrow> (case map_get (b_games B) (bg_gameId G) of None \<Rightarrow> False | Some G' \<Rightarrow> bg_ref G' = bg_ref G)"

definition sync_game :: "BrokerGame \<Rightarrow> 's Broker \<Rightarrow> 's Broker" where
  "sync_game G B = (if is_resident G B then put_game G B else B)"

text \<open>The steps every departure shares: out of the table, timers off, sockets closed.\<close>

definition detach :: "BrokerConfig \<Rightarrow> 's deps \<Rightarrow> string \<Rightarrow> BrokerGame \<times> 's Broker \<Rightarrow> BrokerGame \<times> 's Broker" where
  "detach C D reason = (\<lambda>(G, B).
     let B1 = B\<lparr>b_games := map_delete (bg_gameId G) (b_games B)\<rparr>;
         (G2, B2) = clearSleepTimer C D reason (G, B1);
         B3 = cancelCheckpointTimer (bg_gameId G) B2;
         G3 = cancelTickTimer G2
     in closeSessions D reason (G3, B3))"

section \<open>Release, stand-down and sleep\<close>

text \<open>\<open>Some\<close> is whether the checkpoint was written; \<open>None\<close> when the game was not here.\<close>

definition releaseGame ::
  "BrokerConfig \<Rightarrow> 's deps \<Rightarrow> string \<Rightarrow> BrokerGame \<times> 's Broker \<Rightarrow> (string + bool option) \<times> 's Broker" where
  "releaseGame C D reason = (\<lambda>(G, B).
     if \<not> map_has (b_games B) (bg_gameId G) then (Inr None, B)
     else
      let (G1, B1) = detach C D reason (G, B);
          (r, G2, B2) = br_flushState C D ''state.flush.plannedTransition'' None (Some ''sleep'') (G1, B1)
      in case r of
         Inl e \<Rightarrow> (Inl e, B2)
       | Inr response \<Rightarrow>
          let ok = (response = StorageOk);
              B3 = emit (RunnerReleased (bg_runnerId G2) (bg_gameId G2)) B2;
              B4 = emit (ActiveGameReleased (bg_gameId G2) (bg_generation G2)) B3;
              B5 = writeHistory C D ''game.released''
                [(''gameId'', JStr (bg_gameId G2)), (''runnerId'', JStr (bg_runnerId G2)),
                 (''reason'', JStr reason), (''checkpointOk'', JBool ok)] B4;
              B6 = publishCapacity C D B5
          in (Inr (Some ok), maybeWriteDrainCompleted C D reason B6))"

definition superseded :: string where
  "superseded = ''supersededByCheckpointConflict''"

definition standDownSupersededGame ::
  "BrokerConfig \<Rightarrow> 's deps \<Rightarrow> string \<Rightarrow> BrokerGame \<Rightarrow> 's Broker \<Rightarrow> 's Broker" where
  "standDownSupersededGame C D operation G B =
     (if \<not> is_resident G B then B
      else
       let (G1, B1) = detach C D superseded (G, B);
           B2 = emit (RunnerReleased (bg_runnerId G1) (bg_gameId G1)) B1;
           B3 = emit (ActiveGameReleased (bg_gameId G1) (bg_generation G1)) B2;
           B4 = writeHistory C D ''game.stoodDown''
             [(''gameId'', JStr (bg_gameId G1)), (''runnerId'', JStr (bg_runnerId G1)),
              (''reason'', JStr superseded), (''operation'', JStr operation)] B3
       in publishCapacity C D B4)"

definition sleepGame ::
  "BrokerConfig \<Rightarrow> 's deps \<Rightarrow> SleepReason \<Rightarrow> BrokerGame \<times> 's Broker \<Rightarrow> (string + unit) \<times> 's Broker" where
  "sleepGame C D reason = (\<lambda>(G, B).
     if \<not> map_has (b_games B) (bg_gameId G) then (Inr (), B)
     else
      let why = sleepReason reason;
          (G1, B1) = clearSleepTimer C D why (G, B);
          budgetMs = default 30000 (cf_sleepDeadlineMs C);
          deadline = dp_now D + budgetMs;
          B2 = writeHistory C D ''onSleep.sent''
            [(''gameId'', JStr (bg_gameId G)), (''reason'', JStr why), (''deadline'', JNum deadline),
             (''budgetMs'', JNum budgetMs)] B1;
          (r, G3, B3) = invokeGameHandler C D H_onSleep
            (JObj [(''reason'', JStr why), (''deadline'', JNum deadline)]) no_context G1 B2
      in case r of
         Inl e \<Rightarrow> (Inl e, sync_game G3 B3)
       | Inr u \<Rightarrow>
         (case releaseGame C D why (G3, sync_game G3 B3) of
            (Inl e, B4) \<Rightarrow> (Inl e, B4)
          | (Inr None, B4) \<Rightarrow> (Inr (), B4)
          | (Inr (Some checkpointOk), B4) \<Rightarrow>
             (Inr (), writeHistory C D ''lifecycle.sleepComplete''
               [(''gameId'', JStr (bg_gameId G3)), (''reason'', JStr why), (''deadline'', JNum deadline),
                (''bundleName'', JStr (bg_bundleName G3)),
                (''bundleCompatTag'', JStr (bg_bundleCompatTag G3)),
                (''runnerId'', JStr (bg_runnerId G3)), (''checkpointOk'', JBool checkpointOk)] B4)))"

definition evictGame ::
  "BrokerConfig \<Rightarrow> 's deps \<Rightarrow> string \<Rightarrow> SleepReason \<Rightarrow> 's Broker \<Rightarrow> (string + bool) \<times> 's Broker" where
  "evictGame C D gameId reason B =
     (case map_get (b_games B) gameId of
        None \<Rightarrow> (Inr False, B)
      | Some G \<Rightarrow>
         (case sleepGame C D reason (G, B) of (Inl e, B1) \<Rightarrow> (Inl e, B1) | (Inr u, B1) \<Rightarrow> (Inr True, B1)))"

section \<open>Host events\<close>

definition deliverHostEventRecord ::
  "BrokerConfig \<Rightarrow> 's deps \<Rightarrow> HostEventRecord \<Rightarrow> BrokerGame \<times> 's Broker \<Rightarrow> (string + unit) \<times> BrokerGame \<times> 's Broker" where
  "deliverHostEventRecord C D rec = (\<lambda>(G, B).
     (case invokeGameHandler C D H_onHostEvent
        (JObj [(''eventType'', JStr (he_eventType rec)), (''payload'', he_payload rec),
           (''receivedAt'', JNum (he_receivedAt rec)), (''eventId'', JStr (he_eventId rec)),
           (''deliveryAttempts'', JNum (he_deliveryAttempts rec))]) no_context G B of
        (Inl e, G1, B1) \<Rightarrow> (Inl e, G1, B1)
      | (Inr u, G1, B1) \<Rightarrow>
         (Inr (), G1, writeHistory C D ''onHostEvent.delivered''
           [(''gameId'', JStr (bg_gameId G)), (''eventId'', JStr (he_eventId rec)),
            (''eventType'', JStr (he_eventType rec)), (''wakeOnDelivery'', JBool (he_wakeOnDelivery rec)),
            (''deliveryAttempts'', JNum (he_deliveryAttempts rec))] B1)))"

fun deliver_loop ::
  "BrokerConfig \<Rightarrow> 's deps \<Rightarrow> HostEventRecord list \<Rightarrow> BrokerGame \<times> 's Broker \<Rightarrow> (string + unit) \<times> BrokerGame \<times> 's Broker" where
  "deliver_loop C D [] gb = (Inr (), gb)"
| "deliver_loop C D (r # rs) gb =
     (case deliverHostEventRecord C D r gb of
        (Inl e, gb1) \<Rightarrow> (Inl e, gb1)
      | (Inr u, gb1) \<Rightarrow> deliver_loop C D rs gb1)"

definition deliverQueuedHostEvents ::
  "BrokerConfig \<Rightarrow> 's deps \<Rightarrow> BrokerGame \<times> 's Broker \<Rightarrow> (string + int) \<times> BrokerGame \<times> 's Broker" where
  "deliverQueuedHostEvents C D = (\<lambda>(G, B).
     let records = dp_hostEvents D (bg_gameId G);
         B1 = emit (HostEventsDrained (bg_gameId G) records) B
     in case deliver_loop C D records (G, B1) of
          (Inl e, gb) \<Rightarrow> (Inl e, gb)
        | (Inr u, gb) \<Rightarrow> (Inr (int (length records)), gb))"

section \<open>Waking\<close>

text \<open>
  The synchronous part of \<^verbatim>\<open>wakeGame\<close>. \<open>True\<close>: this call performs the wake, which is now in
  flight. \<open>False\<close>: the game is here, or the wake of another call is awaited.
\<close>

definition wake_begin :: "BrokerConfig \<Rightarrow> BrokerWakeInput \<Rightarrow> ('s, bool) brk" where
  "wake_begin C input B =
     (if \<not> b_started B then (Inl ''broker is not started'', B)
      else if map_has (b_games B) (wi_gameId input) then (Inr False, B)
      else if wi_gameId input \<in> set (b_wakingGames B) then (Inr False, B)
      else brk_bind (ensureRuntimeContract C (wi_runtimeContractRequired input)) (\<lambda>_.
           brk_bind (ensureCapacity C) (\<lambda>_ B.
             (Inr True, B\<lparr>b_wakingGames := set_add (wi_gameId input) (b_wakingGames B)\<rparr>))) B)"

definition wake_assignment :: "BrokerConfig \<Rightarrow> BrokerWakeInput \<Rightarrow> RunnerAssignment" where
  "wake_assignment C input =
     \<lparr>as_bundleName = wi_bundleName input, as_bundleSource = wi_bundleSource input,
      as_bundleCompatTag = wi_bundleCompatTag input, as_runId = wi_runId input,
      as_memoryLimitMb = default (default 256 (cf_defaultMemoryLimitMb C)) (wi_memoryLimitMb input),
      as_handlerTimeoutMs = default (default 1000 (cf_handlerTimeoutMs C)) (wi_handlerTimeoutMs input),
      as_testSeed = wi_testSeed input,
      ra_gameId = wi_gameId input, ra_runtimeContractRequired = wi_runtimeContractRequired input,
      ra_generation = wi_generation input\<rparr>"

definition new_game ::
  "nat \<Rightarrow> int \<Rightarrow> string \<Rightarrow> BrokerWakeInput \<Rightarrow> GameStateSession \<Rightarrow> int js_map \<Rightarrow> BrokerGame" where
  "new_game ref generation runner input state blobSizes =
     \<lparr>bg_ref = ref, bg_gameId = wi_gameId input, bg_generation = generation, bg_runnerId = runner,
      bg_state = state, bg_bundleName = wi_bundleName input, bg_bundleCompatTag = wi_bundleCompatTag input,
      bg_blobCompatTag = wi_blobCompatTag input, bg_runId = wi_runId input, bg_sessions = [],
      bg_blobSizes = blobSizes,
      bg_budgets =
        \<lparr>gb_wsBytes = sw_new 1000, gb_wsMessages = sw_new 1000, gb_apiInvocations = sw_new 60000,
         gb_stateBytes = int (length (readState state)), gb_blobBytes = sumMapValues blobSizes,
         gb_blobKeys = int (length blobSizes), gb_cpuMs = 0, gb_memoryBytes = 0\<rparr>,
      bg_sleepTimer = None, bg_currentDispatch = None, bg_tickTimer = None, bg_tickIntervalMs = None,
      bg_tickNextDeadlineMs = None, bg_tickSeq = None, bg_tickRunning = False\<rparr>"

text \<open>After the game is in the table: claim, history, \<^verbatim>\<open>onWake\<close>, queued host events, capacity.\<close>

definition wake_announce :: "BrokerConfig \<Rightarrow> 's deps \<Rightarrow> BrokerWakeInput \<Rightarrow> BrokerGame \<Rightarrow> ('s, unit) brk" where
  "wake_announce C D input G B =
     (let now = dp_now D;
          claim = \<lparr>ac_gameId = bg_gameId G, ac_shardId = cf_shardId C, ac_generation = bg_generation G,
                   ac_placedAt = now, ac_refreshedAt = now\<rparr>
      in case dp_claim D claim of
         Some e \<Rightarrow> (Inl e, B)
       | None \<Rightarrow>
          let B1 = emit (ActiveGameClaimed claim) B;
              B2 = writeHistory C D ''game.woke''
                [(''gameId'', JStr (bg_gameId G)), (''shardId'', JStr (cf_shardId C)),
                 (''runnerId'', JStr (bg_runnerId G)), (''bundleName'', JStr (bg_bundleName G)),
                 (''bundleCompatTag'', JStr (bg_bundleCompatTag G)),
                 (''generation'', JNum (bg_generation G))] B1;
              stateBytes = readState (bg_state G);
              reason = default (if stateBytes = [] then ColdStart else ColdRestartFromStorage) (wi_wakeReason input)
          in case decodeJsonState (ev_host (dp_env D)) stateBytes of
             Inl e \<Rightarrow> (Inl e, B2)
           | Inr v \<Rightarrow>
             (case invokeGameHandler C D H_onWake
                (JObj [(''reason'', JStr (wakeReason reason)),
                   (''errorClass'', opt_str (map_option wakeErrorClass (wi_wakeErrorClass input))),
                   (''runId'', str_or_null (bg_runId G)), (''bundleName'', JStr (bg_bundleName G)),
                   (''bundleCompatTag'', JStr (bg_bundleCompatTag G)),
                   (''blobCompatTag'', opt_str (bg_blobCompatTag G)), (''state'', v)]) no_context G B2 of
                (Inl e, G3, B3) \<Rightarrow> (Inl e, sync_game G3 B3)
              | (Inr u, G3, B3) \<Rightarrow>
                 (case deliverQueuedHostEvents C D (G3, B3) of
                    (Inl e, G4, B4) \<Rightarrow> (Inl e, sync_game G4 B4)
                  | (Inr n, G4, B4) \<Rightarrow> (Inr (), publishCapacity C D (sync_game G4 B4)))))"

definition wake_body :: "BrokerConfig \<Rightarrow> 's deps \<Rightarrow> BrokerWakeInput \<Rightarrow> ('s, unit) brk" where
  "wake_body C D input B =
     (case openSession (dp_env D) (dp_options D) (dp_ops D) (b_store B)
        \<lparr>sn_gameId = wi_gameId input, sn_bundleCompatTag = Some (wi_bundleCompatTag input),
         sn_blobCompatTag = wi_blobCompatTag input, sn_enableTimeTravel = None, sn_retainCheckpoints = None\<rparr> of
        Inl e \<Rightarrow> (Inl (dp_errText D e), B)
      | Inr state \<Rightarrow>
     (case materializeBlobSizes (dp_ops D) (b_store B) state of
        Inl e \<Rightarrow> (Inl (dp_errText D e), B)
      | Inr blobSizes \<Rightarrow>
     (case dp_assign D (wake_assignment C input) of
        Inl e \<Rightarrow> (Inl e, B)
      | Inr runner \<Rightarrow>
         let G = new_game (b_nextRef B) (default (dp_now D) (wi_generation input)) runner input state blobSizes
         in wake_announce C D input G (put_game G (B\<lparr>b_nextRef := b_nextRef B + 1\<rparr>)))))"

text \<open>The rest of an in-flight wake, and its \<^verbatim>\<open>finally\<close>.\<close>

definition wake_finish :: "BrokerConfig \<Rightarrow> 's deps \<Rightarrow> BrokerWakeInput \<Rightarrow> ('s, unit) brk" where
  "wake_finish C D input B =
     (let (r, B1) = wake_body C D input B
      in (r, B1\<lparr>b_wakingGames := set_delete (wi_gameId input) (b_wakingGames B1)\<rparr>))"

definition wakeGame :: "BrokerConfig \<Rightarrow> 's deps \<Rightarrow> BrokerWakeInput \<Rightarrow> ('s, unit) brk" where
  "wakeGame C D input =
     brk_bind (wake_begin C input) (\<lambda>mine. if mine then wake_finish C D input else (\<lambda>B. (Inr (), B)))"

definition ensureGameForConnection ::
  "BrokerConfig \<Rightarrow> 's deps \<Rightarrow> string \<Rightarrow> ('s, BrokerGame option) brk" where
  "ensureGameForConnection C D gameId B =
     (case map_get (b_games B) gameId of
        Some G \<Rightarrow> (Inr (Some G), B)
      | None \<Rightarrow>
         (case dp_resolve D gameId of
            None \<Rightarrow> (Inr None, B)
          | Some wake \<Rightarrow>
             brk_bind (wakeGame C D wake) (\<lambda>_ B1. (Inr (map_get (b_games B1) gameId), B1)) B))"

definition deliverQueuedHostEventsForGame :: "BrokerConfig \<Rightarrow> 's deps \<Rightarrow> string \<Rightarrow> ('s, int) brk" where
  "deliverQueuedHostEventsForGame C D gameId =
     brk_bind ensureStarted (\<lambda>_.
     brk_bind (ensureGameForConnection C D gameId) (\<lambda>g B.
       (case g of
          None \<Rightarrow> (Inr 0, B)
        | Some G \<Rightarrow>
           (case deliverQueuedHostEvents C D (G, B) of (r, G1, B1) \<Rightarrow> (r, sync_game G1 B1)))))"

end
