(* ===== verification/BrokerConn.thy ===== *)
theory BrokerConn
  imports BrokerLife
begin

text \<open>
  The entry points of a Broker: start, stop, drain, connections and their messages, timers that
  fire, the messages of runners, crashes, reload and the admin routes.
\<close>

section \<open>Start, stop and drain\<close>

text \<open>
  \<^verbatim>\<open>startCapacityHeartbeat\<close> and \<^verbatim>\<open>stopCapacityHeartbeat\<close>: whether the interval is armed, and what
  it does when it fires.
\<close>

definition startCapacityHeartbeat :: "'s Broker \<Rightarrow> 's Broker" where
  "startCapacityHeartbeat B = B\<lparr>b_capacityHeartbeat := True\<rparr>"

definition stopCapacityHeartbeat :: "'s Broker \<Rightarrow> 's Broker" where
  "stopCapacityHeartbeat B = B\<lparr>b_capacityHeartbeat := False\<rparr>"

definition heartbeat_fire :: "BrokerConfig \<Rightarrow> 's deps \<Rightarrow> 's Broker \<Rightarrow> 's Broker" where
  "heartbeat_fire C D B = (if b_capacityHeartbeat B then publishCapacity C D B else B)"

definition start :: "BrokerConfig \<Rightarrow> 's deps \<Rightarrow> 's Broker \<Rightarrow> 's Broker" where
  "start C D B =
     (let B1 = B\<lparr>b_started := True, b_acceptingWakes := True, b_drainRequested := False, b_drainCompleted := False\<rparr>;
          B2 = startCapacityHeartbeat (publishCapacity C D B1)
      in writeHistory C D ''broker.start''
           [(''version'', JStr (dp_version D)),
            (''runtimeContractsSupported'', JArr [JNum (fst (cf_runtimeContractsSupported C)),
               JNum (snd (cf_runtimeContractsSupported C))])] B2)"

text \<open>The releases of \<^verbatim>\<open>stop\<close> all run; one that never returns keeps \<^verbatim>\<open>stop\<close> from returning.\<close>

fun release_all :: "BrokerConfig \<Rightarrow> 's deps \<Rightarrow> BrokerGame list \<Rightarrow> 's Broker \<Rightarrow> (string + unit) \<times> 's Broker" where
  "release_all C D [] B = (Inr (), B)"
| "release_all C D (G # Gs) B =
     (let (r, B1) = releaseGame C D ''shutdown'' (G, B);
          (rs, B2) = release_all C D Gs B1
      in (case r of Inl e \<Rightarrow> Inl e | Inr u \<Rightarrow> rs, B2))"

definition stop :: "BrokerConfig \<Rightarrow> 's deps \<Rightarrow> ('s, unit) brk" where
  "stop C D B =
     (let B1 = stopCapacityHeartbeat
            (B\<lparr>b_acceptingWakes := False, b_drainRequested := False, b_drainCompleted := False\<rparr>);
          B2 = publishCapacity C D B1
      in case release_all C D (map snd (b_games B2)) B2 of
         (Inl e, B3) \<Rightarrow> (Inl e, B3)
       | (Inr u, B3) \<Rightarrow>
          (Inr (), writeHistory C D ''broker.stop'' [(''intentional'', JBool True), (''reason'', JStr ''shutdown'')]
             ((emit (ShardRemoved (cf_shardId C)) (emit RunnersStopped B3))\<lparr>b_started := False\<rparr>)))"

definition requestDrain :: "BrokerConfig \<Rightarrow> 's deps \<Rightarrow> string \<Rightarrow> 's Broker \<Rightarrow> 's Broker" where
  "requestDrain C D reason B =
     (let B1 = publishCapacity C D
            (B\<lparr>b_acceptingWakes := False, b_drainRequested := True, b_drainCompleted := False\<rparr>);
          B2 = writeHistory C D ''broker.drain.started''
            [(''reason'', JStr reason), (''activeGames'', JNum (int (length (b_games B1))))] B1
      in maybeWriteDrainCompleted C D reason B2)"

definition resumeWakes :: "BrokerConfig \<Rightarrow> 's deps \<Rightarrow> string \<Rightarrow> ('s, unit) brk" where
  "resumeWakes C D reason =
     brk_bind ensureStarted (\<lambda>_ B.
       (Inr (), writeHistory C D ''broker.drain.cancelled'' [(''reason'', JStr reason)]
          (publishCapacity C D
            (B\<lparr>b_acceptingWakes := True, b_drainRequested := False, b_drainCompleted := False\<rparr>))))"

section \<open>Connections\<close>

text \<open>The query of the request, in order: \<^verbatim>\<open>searchParams.get\<close> is the first value.\<close>

definition placement_token :: "(string \<times> string) list \<Rightarrow> string option" where
  "placement_token query =
     truthy (case map_get query ''placementToken'' of Some t \<Rightarrow> Some t | None \<Rightarrow> map_get query ''token'')"

definition refuse ::
  "BrokerConfig \<Rightarrow> 's deps \<Rightarrow> nat \<Rightarrow> int \<Rightarrow> string \<Rightarrow> js js_map \<Rightarrow> 's Broker \<Rightarrow> 's Broker" where
  "refuse C D ws code message fs B =
     emit (WsClose ws code message) (writeHistory C D ''connection.refused'' fs B)"

definition claims_trace :: "js js_map \<Rightarrow> string option" where
  "claims_trace claims = stringOrNull (js_get (JObj claims) ''traceId'')"

text \<open>The connection is admitted: the session, its \<^verbatim>\<open>ready\<close> frame and \<^verbatim>\<open>onPlayerConnect\<close>.\<close>

definition open_session ::
  "BrokerConfig \<Rightarrow> 's deps \<Rightarrow> nat \<Rightarrow> VerifiedPlacementClaims \<Rightarrow> BrokerGame \<Rightarrow> ('s, unit) brk" where
  "open_session C D ws claims G B =
     (let connectedAt = dp_now D;
          sessionId = dp_sessionId D;
          trace = claims_trace (vc_all claims);
          session = \<lparr>se_sessionId = sessionId, se_gameId = vc_gameId claims, se_playerId = vc_playerId claims,
                     se_jwtClaims = vc_all claims, se_connectedAt = connectedAt, se_seq = 0, se_ws = ws\<rparr>;
          (G1, B1) = clearSleepTimer C D ''cancelled''
            (G\<lparr>bg_sessions := map_set sessionId session (bg_sessions G)\<rparr>, B);
          B2 = sendJson D ws (JObj [(''type'', JStr ''ready''), (''sessionId'', JStr sessionId),
                 (''connectedAt'', JStr (dp_iso D connectedAt)), (''playerId'', JStr (vc_playerId claims)),
                 (''gameId'', JStr (vc_gameId claims))]) B1;
          B3 = writeHistory C D ''session.opened''
            [(''shardId'', JStr (cf_shardId C)), (''gameId'', JStr (vc_gameId claims)),
             (''playerId'', JStr (vc_playerId claims)), (''sessionId'', JStr sessionId),
             (''connectedAt'', JNum connectedAt), (''traceId'', str_or_null trace)] B2;
          (r, G2, B4) = invokeGameHandler C D H_onPlayerConnect
            (JObj [(''playerId'', JStr (vc_playerId claims)), (''sessionId'', JStr sessionId),
               (''jwtClaims'', JObj (vc_all claims)), (''connectedAt'', JNum connectedAt)])
            \<lparr>dc_sessionId = Some sessionId, dc_traceId = trace\<rparr> G1 B3
      in (r, sync_game G2 B4))"

definition wrong_game :: "(string \<times> string) list \<Rightarrow> VerifiedPlacementClaims \<Rightarrow> bool" where
  "wrong_game query claims =
     (case truthy (map_get query ''gameId'') of
        Some routedGameId \<Rightarrow> routedGameId \<noteq> vc_gameId claims
      | None \<Rightarrow> False)"

definition acceptWebSocket ::
  "BrokerConfig \<Rightarrow> 's deps \<Rightarrow> nat \<Rightarrow> (string \<times> string) list \<Rightarrow> ('s, unit) brk" where
  "acceptWebSocket C D ws query =
     brk_bind ensureStarted (\<lambda>_ B.
       (case placement_token query of
          None \<Rightarrow> (Inr (), emit (WsClose ws 4401 ''missing placement token'') B)
        | Some token \<Rightarrow>
       (case verifyPlacementToken D token of
          Inl e \<Rightarrow> (Inr (), refuse C D ws 4401 ''unauthorized''
                     [(''reason'', JStr ''unauthorized''), (''error'', JStr e)] B)
        | Inr claims \<Rightarrow>
          let who = [(''gameId'', JStr (vc_gameId claims)), (''playerId'', JStr (vc_playerId claims))] in
          if vc_shardId claims \<noteq> cf_shardId C
          then (Inr (), refuse C D ws 4403 ''wrong shard''
                  (who @ [(''reason'', JStr ''wrongShard''), (''tokenShardId'', JStr (vc_shardId claims)),
                     (''shardId'', JStr (cf_shardId C))]) B)
          else if wrong_game query claims
           then (Inr (), refuse C D ws 4403 ''wrong game''
                  [(''gameId'', JStr (vc_gameId claims)),
                   (''routedGameId'', opt_str (map_get query ''gameId'')),
                   (''playerId'', JStr (vc_playerId claims)), (''reason'', JStr ''wrongGame'')] B)
           else if \<not> dp_allowedHas D (vc_gameId claims) (vc_playerId claims)
           then (Inr (), refuse C D ws 4403 ''player not allowed''
                  (who @ [(''reason'', JStr ''playerNotAllowed'')]) B)
           else
            brk_bind (ensureGameForConnection C D (vc_gameId claims)) (\<lambda>g B.
              (case g of
                 None \<Rightarrow> (Inr (), refuse C D ws 4503 ''game not available''
                            (who @ [(''reason'', JStr ''gameNotAvailable'')]) B)
               | Some G \<Rightarrow> open_session C D ws claims G B)) B)))"

definition resolveWebSocketReplay ::
  "BrokerConfig \<Rightarrow> 's deps \<Rightarrow> (string \<times> string) list \<Rightarrow> ('s, BrokerWebSocketReplay option) brk" where
  "resolveWebSocketReplay C D query =
     brk_bind ensureStarted (\<lambda>_ B.
       (case dp_lookupActive D of
          None \<Rightarrow> (Inr None, B)
        | Some lookup \<Rightarrow>
       (case placement_token query of
          None \<Rightarrow> (Inr None, B)
        | Some token \<Rightarrow>
       (case verifyPlacementToken D token of
          Inl e \<Rightarrow> (Inr None, B)
        | Inr claims \<Rightarrow>
          if vc_shardId claims = cf_shardId C then (Inr None, B)
          else (case lookup (vc_gameId claims) of
             None \<Rightarrow> (Inr None, B)
           | Some active \<Rightarrow>
              (case ap_flyMachineId active of
                 None \<Rightarrow> (Inr None, B)
               | Some m \<Rightarrow>
                  if ap_shardId active \<noteq> vc_shardId claims \<or> \<not> isSafeFlyMachineId m then (Inr None, B)
                  else
                   (Inr (Some \<lparr>wp_gameId = vc_gameId claims, wp_targetShardId = vc_shardId claims,
                               wp_flyMachineId = m\<rparr>),
                    writeHistory C D ''connection.replay''
                      [(''gameId'', JStr (vc_gameId claims)), (''playerId'', JStr (vc_playerId claims)),
                       (''tokenShardId'', JStr (vc_shardId claims)), (''shardId'', JStr (cf_shardId C)),
                       (''flyMachineId'', JStr m)] B)))))))"

section \<open>Messages and disconnects of players\<close>

datatype RawData = RawText string | RawBuffer bytes | RawFragments "bytes list" | RawArrayBuffer bytes

fun rawDataToString :: "RawData \<Rightarrow> string" where
  "rawDataToString (RawText t) = t"
| "rawDataToString (RawBuffer b) = b"
| "rawDataToString (RawFragments bs) = concat bs"
| "rawDataToString (RawArrayBuffer b) = b"

text \<open>
  The session object is the one of the table as long as its id is there; \<^verbatim>\<open>seq\<close> is its own.
\<close>

definition handlePlayerMessage ::
  "BrokerConfig \<Rightarrow> 's deps \<Rightarrow> BrokerSession \<Rightarrow> RawData \<Rightarrow> ('s, unit) brk" where
  "handlePlayerMessage C D session data B =
     (case map_get (b_games B) (se_gameId session) of
        None \<Rightarrow> (Inr (), B)
      | Some G \<Rightarrow>
     (case map_get (bg_sessions G) (se_sessionId session) of
        None \<Rightarrow> (Inr (), B)
      | Some s \<Rightarrow>
        let t = rawDataToString data;
            who = [(''gameId'', JStr (se_gameId s)), (''sessionId'', JStr (se_sessionId s)),
                   (''playerId'', JStr (se_playerId s))]
        in if int (length t) > default (1024 * 1024) (cf_maxInboundFrameBytes C)
           then (Inr (), writeHistory C D ''ws.recv.oversized'' who B)
           else case host_parse (ev_host (dp_env D)) t of
             None \<Rightarrow> (Inr (), writeHistory C D ''ws.recv.malformed'' who B)
           | Some body \<Rightarrow>
              let seq = se_seq s;
                  G1 = G\<lparr>bg_sessions := map_set (se_sessionId s) (s\<lparr>se_seq := seq + 1\<rparr>) (bg_sessions G)\<rparr>;
                  B1 = writeHistory C D ''onPlayerMessage'' (who @ [(''seq'', JNum seq), (''body'', body)]) B;
                  (r, G2, B2) = invokeGameHandler C D H_onPlayerMessage
                    (JObj [(''playerId'', JStr (se_playerId s)), (''sessionId'', JStr (se_sessionId s)),
                       (''seq'', JNum seq), (''body'', body)])
                    \<lparr>dc_sessionId = Some (se_sessionId s), dc_traceId = claims_trace (se_jwtClaims s)\<rparr> G1 B1;
                  B3 = sync_game G2 B2
              in (case r of
                    Inr u \<Rightarrow> (Inr (), B3)
                  | Inl e \<Rightarrow>
                     if \<not> map_has (b_games B3) (se_gameId s)
                        \<and> e = ''game '' @ se_gameId s @ '' was released''
                     then (Inr (), B3) else (Inl e, B3))))"

definition handleSessionClosed ::
  "BrokerConfig \<Rightarrow> 's deps \<Rightarrow> BrokerSession \<Rightarrow> string \<Rightarrow> ('s, unit) brk" where
  "handleSessionClosed C D s reason B =
     (case map_get (b_games B) (se_gameId s) of
        None \<Rightarrow> (Inr (), B)
      | Some G \<Rightarrow>
        if \<not> map_has (bg_sessions G) (se_sessionId s) then (Inr (), B)
        else
         let G1 = G\<lparr>bg_sessions := map_delete (se_sessionId s) (bg_sessions G)\<rparr>;
             B1 = writeHistory C D ''session.closed''
               [(''gameId'', JStr (se_gameId s)), (''sessionId'', JStr (se_sessionId s)),
                (''playerId'', JStr (se_playerId s)), (''connectedAt'', JNum (se_connectedAt s)),
                (''disconnectedAt'', JNum (dp_now D)), (''reason'', JStr reason),
                (''traceId'', str_or_null (claims_trace (se_jwtClaims s)))] B;
             (r, G2, B2) = invokeGameHandler C D H_onPlayerDisconnect
               (JObj [(''playerId'', JStr (se_playerId s)), (''sessionId'', JStr (se_sessionId s)),
                  (''reason'', JStr reason)]) no_context G1 B1
         in (case r of
               Inl e \<Rightarrow> (Inl e, sync_game G2 B2)
             | Inr u \<Rightarrow>
                if bg_sessions G2 = [] then (let (G3, B3) = scheduleSleep C D (G2, B2) in (Inr (), sync_game G3 B3))
                else (Inr (), sync_game G2 B2)))"

section \<open>Timers that fire\<close>

definition sleep_fire :: "BrokerConfig \<Rightarrow> 's deps \<Rightarrow> BrokerGame \<Rightarrow> ('s, unit) brk" where
  "sleep_fire C D G B =
     (case bg_sleepTimer G of
        None \<Rightarrow> (Inr (), B)
      | Some deadline \<Rightarrow>
         let G1 = G\<lparr>bg_sleepTimer := None\<rparr>;
             B1 = writeHistory C D ''lifecycle.sleepGrace.expired''
               [(''gameId'', JStr (bg_gameId G)), (''deadline'', JNum deadline)] (sync_game G1 B)
         in sleepGame C D Idle (G1, B1))"

text \<open>The timer of \<^verbatim>\<open>scheduleCheckpoint\<close>, armed for the object with identity \<open>ref\<close>.\<close>

definition checkpoint_fire :: "BrokerConfig \<Rightarrow> 's deps \<Rightarrow> string \<Rightarrow> nat \<Rightarrow> ('s, unit) brk" where
  "checkpoint_fire C D gameId ref B0 =
     (let B = B0\<lparr>b_checkpointTimers := map_delete gameId (b_checkpointTimers B0)\<rparr> in
      case map_get (b_games B) gameId of
        None \<Rightarrow> (Inr (), B)
      | Some current \<Rightarrow>
         if bg_ref current \<noteq> ref then (Inr (), B)
         else
          let (r, G1, B1) = br_flushState C D ''state.checkpoint'' None (Some ''interval'') (current, B);
              B2 = sync_game G1 B1
          in (case r of
                Inl e \<Rightarrow> (Inl e, B2)
              | Inr response \<Rightarrow>
                 (Inr (), if isFenceConflictResponse response
                          then standDownSupersededGame C D ''state.checkpoint'' G1 B2 else B2)))"

text \<open>
  A tick: \<open>interval\<close> is the one the timer was armed with. A failing handler is logged; the result
  is \<open>Inl\<close> only when the deadline loop never ends.
\<close>

definition tick :: "BrokerConfig \<Rightarrow> 's deps \<Rightarrow> int \<Rightarrow> BrokerGame \<Rightarrow> ('s, unit) brk" where
  "tick C D interval G B =
     (case tick_fire (is_resident G B) G of
        (None, G1) \<Rightarrow> (Inr (), sync_game G1 B)
      | (Some tickSeq, G1) \<Rightarrow>
         let (r, G2, B2) = invokeGameHandler C D H_onTick
               (JObj [(''tickSeq'', JNum tickSeq), (''intervalMs'', JNum interval)]) no_context G1 B
         in (case tick_done (is_resident G2 B2) (dp_later D) G2 of
               None \<Rightarrow> (Inl hang, sync_game G2 B2)
             | Some G3 \<Rightarrow> (Inr (), sync_game G3 B2)))"

end
