(* ===== verification/BrokerDispatch.thy ===== *)
theory BrokerDispatch
  imports BrokerConn
begin

text \<open>
  Every message a runner can send (\<^verbatim>\<open>handleRunnerEnvelope\<close>), the crash of a runner, the reload of a
  game from storage and the test hook that writes a rival checkpoint.
\<close>

section \<open>History rows of runner messages\<close>

fun metricKind :: "MetricKind \<Rightarrow> string" where
  "metricKind Counter = ''counter''"
| "metricKind Gauge = ''gauge''"
| "metricKind Histogram = ''histogram''"

fun handlerErrorCode :: "HandlerErrorCode \<Rightarrow> string" where
  "handlerErrorCode HandlerError = ''handlerError''"
| "handlerErrorCode HandlerTimeout = ''handlerTimeout''"
| "handlerErrorCode HandlerException = ''handlerException''"

definition metrics_fields :: "MetricsEmitPayload \<Rightarrow> js js_map" where
  "metrics_fields p =
     [(''name'', JStr (me_name p)), (''kind'', JStr (metricKind (me_kind p))), (''value'', JNum (me_value p)),
      (''tags'', case me_tags p of None \<Rightarrow> JUndef | Some ts \<Rightarrow> JObj (map (\<lambda>(k, v). (k, JStr v)) ts))]"

definition complete_fields :: "'a HandlerCompletePayload_scheme \<Rightarrow> js js_map" where
  "complete_fields p =
     [(''handler'', JStr (handlerName (hc_handler p))), (''durationMs'', JNum (hc_durationMs p)),
      (''timeoutMs'', JNum (hc_timeoutMs p))]"

definition error_fields :: "HandlerErrorPayload \<Rightarrow> js js_map" where
  "error_fields p =
     complete_fields p @ [(''error'', JStr (hr_error p)), (''code'', JStr (handlerErrorCode (hr_code p)))]"

definition fatal_fields :: "IsolateFatalPayload \<Rightarrow> js js_map" where
  "fatal_fields p =
     [(''runnerId'', opt_str (if_runnerId p)), (''message'', JStr (if_message p)), (''error'', JStr (if_error p)),
      (''errorClass'', opt_str (map_option wakeErrorClass (if_errorClass p)))]"

definition counters_fields :: "IsolateCountersPayload \<Rightarrow> js js_map" where
  "counters_fields p =
     [(''gameId'', JStr (te_gameId p)), (''runnerId'', JStr (te_runnerId p)), (''memoryBytes'', JNum (te_memoryBytes p)),
      (''cpuMs'', JNum (te_cpuMs p)), (''isolateCount'', JNum (te_isolateCount p)),
      (''heapUsedBytes'', JNum (ic_heapUsedBytes p)), (''heapLimitBytes'', JNum (ic_heapLimitBytes p)),
      (''wallTimeMs'', JNum (ic_wallTimeMs p))]"

section \<open>Messages for a game\<close>

text \<open>The answer of an operation that changed the game: store the game, then answer its runner.\<close>

definition answer ::
  "BrokerToRunner \<Rightarrow> string option \<Rightarrow> BrokerGame \<times> 's Broker \<Rightarrow> (string + unit) \<times> 's Broker" where
  "answer payload requestId = (\<lambda>(G, B). (Inr (), respond payload requestId G (put_game G B)))"

definition handle_game_message ::
  "BrokerConfig \<Rightarrow> 's deps \<Rightarrow> string \<Rightarrow> RunnerToBroker \<Rightarrow> string option \<Rightarrow> BrokerGame
   \<Rightarrow> 's Broker \<Rightarrow> (string + unit) \<times> 's Broker" where
  "handle_game_message C D runnerId msg req G B =
     (let game = (''gameId'', JStr (bg_gameId G)) in
      case msg of
        IsolateReady p \<Rightarrow>
          (Inr (), writeHistory C D ''isolate.ready''
             [game, (''runnerId'', JStr runnerId), (''bundleName'', JStr (ir_bundleName p)),
              (''bundleCompatTag'', JStr (ir_bundleCompatTag p))] B)
      | StateRead \<Rightarrow>
          (case br_readState C D req G B of
             (Inl e, B1) \<Rightarrow> (Inl e, B1)
           | (Inr p, B1) \<Rightarrow> (Inr (), respond (StateReadResponse p) req G B1))
      | StateWrite v \<Rightarrow> (case br_writeState C D v req (G, B) of (r, gb) \<Rightarrow> answer (StateWriteResponse r) req gb)
      | StateFlush \<Rightarrow>
          (case br_flushState C D ''state.flush'' req (Some ''flush'') (G, B) of
             (Inl e, G1, B1) \<Rightarrow> (Inl e, put_game G1 B1)
           | (Inr response, G1, B1) \<Rightarrow>
              let B2 = respond (StateFlushResponse response) req G1 (put_game G1 B1) in
              (Inr (), if isFenceConflictResponse response
                       then standDownSupersededGame C D ''state.flush'' G1 B2 else B2))
      | BlobPut p \<Rightarrow> (case br_putBlob C D p req (G, B) of (r, gb) \<Rightarrow> answer (BlobPutResponse r) req gb)
      | BlobGet k \<Rightarrow>
          (case br_getBlob C D k req G B of
             (Inl e, B1) \<Rightarrow> (Inl e, B1)
           | (Inr p, B1) \<Rightarrow> (Inr (), respond (BlobGetResponse p) req G B1))
      | BlobDelete k \<Rightarrow> answer BlobDeleteResponse req (br_deleteBlob C D k req (G, B))
      | BlobList pre \<Rightarrow>
          (case br_listBlobs C D pre req G B of
             (items, B1) \<Rightarrow> (Inr (), respond (BlobListResponse items) req G B1))
      | WsSend target body \<Rightarrow>
          (case handleWsSend C D target body req (G, B) of (r, gb) \<Rightarrow> answer (WsSendResponseMsg r) req gb)
      | PlayersAllowed \<Rightarrow>
          (case playersAllowed C D req G B of
             (ps, B1) \<Rightarrow> (Inr (), respond (PlayersAllowedResponse ps) req G B1))
      | PlayersConnected \<Rightarrow>
          (case playersConnected C D req G B of
             (ps, B1) \<Rightarrow> (Inr (), respond (PlayersConnectedResponse ps) req G B1))
      | ComputeBudget \<Rightarrow>
          (case computeBudget C D req (G, B) of (b, gb) \<Rightarrow> answer (ComputeBudgetResponse b) req gb)
      | ApiInvoke p \<Rightarrow>
          (case invokeGateway C D p req (G, B) of (r, gb) \<Rightarrow> answer (ApiInvokeResponseMsg r) req gb)
      | LogEmit payload \<Rightarrow>
          (Inr (), writeHistory C D ''log.emit''
             [game, (''runId'', str_or_null (bg_runId G)), (''bundleName'', JStr (bg_bundleName G)),
              (''bundleCompatTag'', JStr (bg_bundleCompatTag G)), (''payload'', payload)] B)
      | MetricsEmit p \<Rightarrow> (Inr (), writeHistory C D ''metrics.emit'' (game # metrics_fields p) B)
      | LifecycleRequestSleep \<Rightarrow>
          (Inr (), snd (sleepGame C D RequestedBySleep (G, writeHistory C D ''lifecycle.requestSleep''
             [game, (''reason'', JStr ''requestedBySleep'')] B)))
      | LifecycleRequestTick intervalMs \<Rightarrow>
          (Inr (), put_game (scheduleTick C (dp_now D) (Some intervalMs) G) B)
      | LifecycleSleepComplete reason n \<Rightarrow>
          (case releaseGame C D (sleepReason reason) (G, writeHistory C D ''lifecycle.sleepComplete''
             [game, (''reason'', JStr (sleepReason reason)), (''bundleName'', JStr (bg_bundleName G)),
              (''bundleCompatTag'', JStr (bg_bundleCompatTag G)), (''runnerId'', JStr (bg_runnerId G))] B) of
             (Inl e, B1) \<Rightarrow> (Inl e, B1)
           | (Inr r, B1) \<Rightarrow> (Inr (), B1))
      | HandlerCompleteMsg p \<Rightarrow>
          (Inr (), writeHistory C D ''handler.complete''
             (game # complete_fields p @ [(''handlerName'', JStr (handlerName (hc_handler p)))]) B)
      | HandlerErrorMsg p \<Rightarrow>
          let B1 = writeHistory C D ''handler.error''
                (game # error_fields p @ [(''handlerName'', JStr (handlerName (hc_handler p)))]) B
          in (Inr (), if hr_code p = HandlerTimeout
                      then writeHistory C D ''compute.budget.rejected''
                        [game, (''requestId'', opt_str req), (''budget'', JStr ''cpu-ms-per-tick''),
                         (''reason'', JStr ''handlerTimeout''), (''used'', JNum (hc_durationMs p)),
                         (''limit'', JNum (hc_timeoutMs p))] B1
                      else B1)
      | IsolateFatal p \<Rightarrow>
          (case releaseGame C D ''shutdown'' (G, writeHistory C D ''isolate.fatal'' (game # fatal_fields p) B) of
             (Inl e, B1) \<Rightarrow> (Inl e, B1)
           | (Inr r, B1) \<Rightarrow> (Inr (), B1))
      | IsolateCounters p \<Rightarrow>
          (Inr (), writeHistory C D ''isolate.counters'' (counters_fields p @ [game])
             (put_game (G\<lparr>bg_budgets := (bg_budgets G)\<lparr>gb_cpuMs := te_cpuMs p, gb_memoryBytes := te_memoryBytes p\<rparr>\<rparr>) B))
      | WsSendRejected e d \<Rightarrow>
          (Inr (), writeHistory C D ''ws.send.rejected''
             [game, (''error'', JStr (wsSendError e)), (''detail'', default JUndef d)] B)
      | RunnerReady p \<Rightarrow> (Inl ''unhandled runner envelope'', B)
      | RunnerUnknownMessage p \<Rightarrow> (Inl ''unhandled runner envelope'', B))"

definition handleRunnerEnvelope ::
  "BrokerConfig \<Rightarrow> 's deps \<Rightarrow> string \<Rightarrow> RunnerToBrokerEnvelope \<Rightarrow> ('s, unit) brk" where
  "handleRunnerEnvelope C D runnerId env B =
     (case be_payload env of
        RunnerReady p \<Rightarrow>
          (Inr (), writeHistory C D ''runner.ready''
             [(''runnerId'', JStr runnerId), (''kind'', JStr (runnerKind (rr_kind p))),
              (''maxAssignedGames'', JNum (rr_maxAssignedGames p)), (''pid'', opt_int (rr_pid p))] B)
      | RunnerUnknownMessage p \<Rightarrow>
          (Inr (), writeHistory C D ''runner.unknownMessage''
             [(''runnerId'', JStr runnerId), (''type'', JStr (ru_type p)), (''detail'', default JUndef (ru_detail p))] B)
      | msg \<Rightarrow>
         (case validateAssignedRunner C D runnerId (be_gameId env) (rtb_type msg) B of
            (None, B1) \<Rightarrow> (Inr (), B1)
          | (Some G, B1) \<Rightarrow> handle_game_message C D runnerId msg (eo_requestId (be_options env)) G B1))"

section \<open>Crashes and reloads\<close>

record RunnerCrashEvent =
  ce_runnerId :: string
  ce_affectedGameIds :: "string list"
  ce_maxAssignedGames :: int
  ce_code :: "int option"
  ce_signal :: "string option"

definition restart_failed ::
  "BrokerConfig \<Rightarrow> 's deps \<Rightarrow> string \<Rightarrow> string \<Rightarrow> string \<Rightarrow> string \<Rightarrow> 's Broker \<Rightarrow> 's Broker" where
  "restart_failed C D gameId runnerId cause e =
     writeHistory C D ''isolate.restart.failed''
       [(''gameId'', JStr gameId), (''runnerId'', JStr runnerId), (''cause'', JStr cause), (''error'', JStr e)]"

definition restarted ::
  "BrokerConfig \<Rightarrow> 's deps \<Rightarrow> string \<Rightarrow> string \<Rightarrow> string \<Rightarrow> 's Broker \<Rightarrow> 's Broker" where
  "restarted C D gameId previousRunnerId cause B =
     writeHistory C D ''isolate.restart''
       [(''gameId'', JStr gameId),
        (''runnerId'', opt_str (map_option bg_runnerId (map_get (b_games B) gameId))),
        (''previousRunnerId'', JStr previousRunnerId), (''cause'', JStr cause)] B"

definition disposed ::
  "BrokerConfig \<Rightarrow> 's deps \<Rightarrow> string \<Rightarrow> string \<Rightarrow> bool \<Rightarrow> string \<Rightarrow> 's Broker \<Rightarrow> 's Broker" where
  "disposed C D gameId runnerId intentional reason =
     writeHistory C D ''isolate.disposed''
       [(''gameId'', JStr gameId), (''runnerId'', JStr runnerId), (''intentional'', JBool intentional),
        (''reason'', JStr reason)]"

definition restartGameAfterRunnerCrash ::
  "BrokerConfig \<Rightarrow> 's deps \<Rightarrow> string \<Rightarrow> string \<Rightarrow> 's Broker \<Rightarrow> 's Broker" where
  "restartGameAfterRunnerCrash C D runnerId gameId B =
     (case map_get (b_games B) gameId of
        None \<Rightarrow> B
      | Some G \<Rightarrow>
        if bg_runnerId G \<noteq> runnerId then B
        else
         let (G1, B1) = detach C D ''runnerCrash'' (G, B);
             B2 = emit (ActiveGameReleased gameId (bg_generation G)) B1;
             B3 = disposed C D gameId runnerId False ''runnerCrash'' B2
         in case dp_resolve D gameId of
              None \<Rightarrow> restart_failed C D gameId runnerId ''runnerCrash'' ''bundleUnavailable'' B3
            | Some wake \<Rightarrow>
               (case wakeGame C D (wake\<lparr>wi_runId := bg_runId G, wi_wakeReason := Some ColdRestartAfterCrash,
                       wi_wakeErrorClass := Some Crash, wi_generation := Some (dp_now D)\<rparr>) B3 of
                  (Inr u, B4) \<Rightarrow> restarted C D gameId runnerId ''runnerCrash'' B4
                | (Inl e, B4) \<Rightarrow> restart_failed C D gameId runnerId ''runnerCrash'' e B4))"

definition handleRunnerCrash :: "BrokerConfig \<Rightarrow> 's deps \<Rightarrow> RunnerCrashEvent \<Rightarrow> ('s, unit) brk" where
  "handleRunnerCrash C D input =
     brk_bind ensureStarted (\<lambda>_ B.
       let affected = sort (filter (\<lambda>g. map_option bg_runnerId (map_get (b_games B) g) = Some (ce_runnerId input))
             (ce_affectedGameIds input));
           B1 = writeHistory C D ''runner.crash''
             [(''runnerId'', JStr (ce_runnerId input)), (''affectedGameIds'', JArr (map JStr affected)),
              (''maxAssignedGames'', JNum (ce_maxAssignedGames input)),
              (''code'', case ce_code input of None \<Rightarrow> JNull | Some c \<Rightarrow> JNum c),
              (''signal'', str_or_null (ce_signal input))] B;
           B2 = fold (restartGameAfterRunnerCrash C D (ce_runnerId input)) affected B1
       in (Inr (), publishCapacity C D B2))"

definition crashRunnerForTest :: "'s deps \<Rightarrow> string \<Rightarrow> ('s, bool) brk" where
  "crashRunnerForTest D runnerId = brk_bind ensureStarted (\<lambda>_ B. (Inr (dp_crash D runnerId), B))"

definition reloadGameFromStorage ::
  "BrokerConfig \<Rightarrow> 's deps \<Rightarrow> string \<Rightarrow> string \<Rightarrow> 's Broker \<Rightarrow> bool \<times> 's Broker" where
  "reloadGameFromStorage C D gameId reason B =
     (case map_get (b_games B) gameId of
        None \<Rightarrow> (False, B)
      | Some G \<Rightarrow>
        let previousRunnerId = bg_runnerId G;
            (G1, B1) = detach C D reason (G, B);
            B2 = emit (RunnerReleased previousRunnerId gameId) B1;
            B3 = emit (ActiveGameReleased gameId (bg_generation G)) B2;
            B4 = disposed C D gameId previousRunnerId True reason B3
        in (True,
            case dp_resolve D gameId of
              None \<Rightarrow> publishCapacity C D
                (restart_failed C D gameId previousRunnerId reason ''bundleUnavailable'' B4)
            | Some wake \<Rightarrow>
               (case wakeGame C D (wake\<lparr>wi_runId := bg_runId G, wi_wakeReason := Some ColdRestartFromStorage,
                       wi_generation := Some (dp_now D)\<rparr>) B4 of
                  (Inr u, B5) \<Rightarrow> restarted C D gameId previousRunnerId reason B5
                | (Inl e, B5) \<Rightarrow> publishCapacity C D (restart_failed C D gameId previousRunnerId reason e B5))))"

definition writeFenceWinnerForTest ::
  "BrokerConfig \<Rightarrow> 's deps \<Rightarrow> string \<Rightarrow> string \<Rightarrow> ('s, StateRoot option) brk" where
  "writeFenceWinnerForTest C D gameId marker =
     brk_bind ensureStarted (\<lambda>_ B.
       let active = map_get (b_games B) gameId in
       case openSession (dp_env D) (dp_options D) (dp_ops D) (b_store B)
          \<lparr>sn_gameId = gameId, sn_bundleCompatTag = map_option bg_bundleCompatTag active,
           sn_blobCompatTag = Option.bind active bg_blobCompatTag, sn_enableTimeTravel = None,
           sn_retainCheckpoints = None\<rparr> of
         Inl e \<Rightarrow> (Inl (dp_errText D e), B)
       | Inr session \<Rightarrow>
       (case encodeJsonState (JObj [(''version'', JNum 1), (''marker'', JStr marker), (''writes'', JNum 10000)]) of
          Inl response \<Rightarrow> (Inl ''fence winner snapshot was not JSON-serializable'', B)
        | Inr b \<Rightarrow>
          (case flush (dp_env D) (dp_ops D) (putBlob ''snapshot.json'' b (writeState b session)) (b_store B) of
             (Inl Diverges, g, s) \<Rightarrow> (Inl hang, B\<lparr>b_store := s\<rparr>)
           | (Inl e, g, s) \<Rightarrow> (Inl (dp_errText D e), B\<lparr>b_store := s\<rparr>)
           | (Inr rt0, g, s) \<Rightarrow>
              (Inr rt0, writeHistory C D ''state.fence.winner''
                 [(''gameId'', JStr gameId), (''marker'', JStr marker),
                  (''checkpointSeq'', opt_int (map_option rt_checkpointSeq rt0)),
                  (''codec'', opt_str (map_option (\<lambda>r. stateCodec (rt_codec r)) rt0)),
                  (''byteSize'', JNum (default 0 (map_option (\<lambda>r. sr_size (rt_stateRef r)) rt0)))]
                 (B\<lparr>b_store := s\<rparr>)))))"

end
