(* ===== verification/BrokerOpsProps.thy ===== *)
theory BrokerOpsProps
  imports BrokerOps
begin

text \<open>
  Properties of what games ask of the Broker. The Broker keeps, beside each session, the sizes
  of its blobs and their totals, and decides the budgets from them alone. The locale
  \<open>blob_accounting\<close> shows once that this bookkeeping follows the session's contents, from the
  laws of the session's operations; it is interpreted on the session of the state store.
\<close>

section \<open>Accounting\<close>

definition tracks :: "(string \<Rightarrow> bytes option) \<Rightarrow> int js_map \<Rightarrow> int \<Rightarrow> int \<Rightarrow> bool" where
  "tracks view sizes n keys \<longleftrightarrow> map_wf sizes
     \<and> (\<forall>k. map_of sizes k = map_option (\<lambda>b. int (length b)) (view k))
     \<and> n = sum_values sizes \<and> keys = int (length sizes)"

locale blob_accounting =
  fixes put :: "string \<Rightarrow> bytes \<Rightarrow> 'g \<Rightarrow> 'g"
    and del :: "string \<Rightarrow> 'g \<Rightarrow> 'g"
    and view :: "'g \<Rightarrow> string \<Rightarrow> bytes option"
  assumes view_put: "view (put k b g) = (view g)(k \<mapsto> b)"
    and view_del: "view (del k g) = (view g)(k := None)"
begin

lemma tracks_put:
  assumes "tracks (view g) sizes n keys"
  shows "tracks (view (put k b g)) (map_set k (int (length b)) sizes)
    (n - default 0 (map_of sizes k) + int (length b)) (if map_has sizes k then keys else keys + 1)"
proof -
  have wf: "map_wf sizes" and n: "n = sum_values sizes" and ks: "keys = int (length sizes)"
    using assms by (auto simp: tracks_def)
  have "sum_values (map_set k (int (length b)) sizes) = n - default 0 (map_of sizes k) + int (length b)"
    using sum_values_update [OF wf, of k "int (length b)"] n by (simp add: default_def split: option.splits)
  moreover have "int (length (map_set k (int (length b)) sizes)) = (if map_has sizes k then keys else keys + 1)"
    using length_update_keys [of k "int (length b)" sizes] ks by (simp add: map_has_iff)
  ultimately show ?thesis
    using assms distinct_update [OF wf] by (simp add: tracks_def view_put update_conv')
qed

lemma tracks_del:
  assumes "tracks (view g) sizes n keys"
  shows "case map_of sizes k of
      None \<Rightarrow> tracks (view (del k g)) sizes n keys
    | Some m \<Rightarrow> tracks (view (del k g)) (map_delete k sizes) (max 0 (n - m)) (int (length (map_delete k sizes)))"
proof (cases "map_of sizes k")
  case None
  then have "view g k = None" using assms by (auto simp: tracks_def)
  then have "(view g)(k := None) = view g" by auto
  then show ?thesis using None assms by (simp add: tracks_def view_del)
next
  case (Some m)
  have wf: "map_wf sizes" and n: "n = sum_values sizes" using assms by (auto simp: tracks_def)
  have pos: "\<forall>(k, v) \<in> set sizes. 0 \<le> v"
  proof safe
    fix k v assume "(k, v) \<in> set sizes"
    then have "map_of sizes k = Some v" using wf by simp
    then show "0 \<le> v" using assms by (auto simp: tracks_def)
  qed
  have "sum_values (map_delete k sizes) = n - m"
    using sum_values_delete [OF wf, of k] Some n by simp
  moreover have "0 \<le> sum_values (map_delete k sizes)"
    using pos by (intro sum_values_nonneg) (auto simp: AList.delete_eq)
  ultimately have "sum_values (map_delete k sizes) = max 0 (n - m)" by simp
  moreover have "map_wf (map_delete k sizes)" using distinct_delete [OF wf] .
  moreover have "map_of (map_delete k sizes) k' = map_option (\<lambda>b. int (length b)) (((view g)(k := None)) k')" for k'
    using assms by (simp add: tracks_def delete_conv')
  ultimately have "tracks (view (del k g)) (map_delete k sizes) (max 0 (n - m)) (int (length (map_delete k sizes)))"
    by (simp add: tracks_def view_del)
  then show ?thesis using Some by simp
qed

end

interpretation acct: blob_accounting putBlob deleteBlob "blob_view ops s" for ops :: "'s StateObjectStore" and s
  by unfold_locales (simp_all add: view_putBlob view_deleteBlob)

definition game_ok :: "host \<Rightarrow> 's StateObjectStore \<Rightarrow> 's \<Rightarrow> BrokerGame \<Rightarrow> bool" where
  "game_ok H ops s G \<longleftrightarrow> session_ok H ops s (bg_state G) \<and> gs_gameId (bg_state G) = bg_gameId G
     \<and> tracks (blob_view ops s (bg_state G)) (bg_blobSizes G) (gb_blobBytes (bg_budgets G)) (gb_blobKeys (bg_budgets G))
     \<and> gb_stateBytes (bg_budgets G) = int (length (readState (bg_state G)))"

lemma sum_values_sum: "map_wf m \<Longrightarrow> sum_values m = (\<Sum>k \<in> fst ` set m. the (map_of m k))"
proof (induction m)
  case (Cons p m)
  obtain k v where p: "p = (k, v)" by (cases p)
  have "(\<Sum>k' \<in> fst ` set m. the (map_of (p # m) k')) = (\<Sum>k' \<in> fst ` set m. the (map_of m k'))"
    using Cons.prems p by (intro sum.cong) auto
  then show ?case using Cons p by simp
qed simp

text \<open>What the accounting means: the budgets are the totals over the blobs the session holds.\<close>

lemma game_ok_totals:
  assumes "game_ok H ops s G"
  shows "gb_blobKeys (bg_budgets G) = int (card (dom (blob_view ops s (bg_state G))))"
    and "gb_blobBytes (bg_budgets G)
      = (\<Sum>k \<in> dom (blob_view ops s (bg_state G)). int (length (the (blob_view ops s (bg_state G) k))))"
proof -
  let ?m = "bg_blobSizes G" and ?v = "blob_view ops s (bg_state G)"
  have wf: "map_wf ?m" and m: "\<And>k. map_of ?m k = map_option (\<lambda>b. int (length b)) (?v k)"
    and t: "gb_blobBytes (bg_budgets G) = sum_values ?m" "gb_blobKeys (bg_budgets G) = int (length ?m)"
    using assms by (auto simp: game_ok_def tracks_def)
  have "dom (map_of ?m) = dom ?v" by (simp add: dom_def m)
  then have dom: "dom ?v = fst ` set ?m" by (simp add: dom_map_of_conv_image_fst)
  show "gb_blobKeys (bg_budgets G) = int (card (dom ?v))"
    unfolding dom t(2) using distinct_card [OF wf] by (simp only: set_map length_map)
  have "sum_values ?m = (\<Sum>k \<in> fst ` set ?m. the (map_of ?m k))" using wf by (rule sum_values_sum)
  moreover have "the (map_of ?m k) = int (length (the (?v k)))" if "k \<in> fst ` set ?m" for k
    using that [folded dom] m [of k] by (cases "?v k") (simp_all add: dom_def)
  ultimately show "gb_blobBytes (bg_budgets G) = (\<Sum>k \<in> dom ?v. int (length (the (?v k))))"
    unfolding t(1) dom by simp
qed

section \<open>Operations keep the accounting\<close>

lemma scheduleCheckpoint_fields [simp]:
  "b_games (scheduleCheckpoint C G B) = b_games B" "b_store (scheduleCheckpoint C G B) = b_store B"
  "b_started (scheduleCheckpoint C G B) = b_started B" "b_out (scheduleCheckpoint C G B) = b_out B"
  by (simp_all add: scheduleCheckpoint_def)

lemma br_writeState_ok:
  assumes "game_ok H ops s G" and "br_writeState C D v r (G, B) = (resp, G', B')"
  shows "game_ok H ops s G' \<and> bg_gameId G' = bg_gameId G \<and> b_store B' = b_store B \<and> b_games B' = b_games B"
proof (cases "encodeJsonState v")
  case (Inl x)
  then show ?thesis using assms by (auto simp: br_writeState_def)
next
  case (Inr b)
  then show ?thesis
    using assms session_ok_ops(1) [of H ops s "bg_state G" b]
    by (auto simp: br_writeState_def Let_def game_ok_def view_writeState readState_def session_state
        split: if_splits)
qed

lemma br_putBlob_cases:
  assumes "br_putBlob C D p r (G, B) = (resp, G', B')"
  obtains (refused) e d where "resp = StorageErr e d" "G' = G" "b_store B' = b_store B" "b_games B' = b_games B"
  | (stored) "resp = StorageOk" "b_store B' = b_store B" "b_games B' = b_games B"
      "bg_state G' = putBlob (bp_key p) (b64_decode (bp_bytesBase64 p)) (bg_state G)" "bg_gameId G' = bg_gameId G"
      "bg_blobSizes G' = map_set (bp_key p) (int (length (b64_decode (bp_bytesBase64 p)))) (bg_blobSizes G)"
      "gb_blobBytes (bg_budgets G') = gb_blobBytes (bg_budgets G) - default 0 (map_of (bg_blobSizes G) (bp_key p))
        + int (length (b64_decode (bp_bytesBase64 p)))"
      "gb_blobKeys (bg_budgets G') = (if map_has (bg_blobSizes G) (bp_key p) then gb_blobKeys (bg_budgets G)
        else gb_blobKeys (bg_budgets G) + 1)"
      "gb_stateBytes (bg_budgets G') = gb_stateBytes (bg_budgets G)"
      "gb_blobBytes (bg_budgets G') \<le> li_blobBytes (budgetLimits C)"
      "gb_blobKeys (bg_budgets G') \<le> li_blobKeys (budgetLimits C)"
      "bp_key p \<noteq> []" "length (bp_key p) \<le> 256"
proof (cases "validateBlobKey (bp_key p)")
  case StorageOk
  then have key: "bp_key p \<noteq> []" "length (bp_key p) \<le> 256"
    by (auto simp: validateBlobKey_def split: if_splits)
  show ?thesis
    using assms StorageOk key refused stored
    by (auto simp: br_putBlob_def blob_rejected_def Let_def split: if_splits)
next
  case (StorageErr e d)
  then show ?thesis using assms by (intro refused [of e d]) (auto simp: br_putBlob_def blob_rejected_def)
qed

lemma br_putBlob_ok:
  assumes ok: "game_ok H ops s G" and run: "br_putBlob C D p r (G, B) = (resp, G', B')"
  shows "game_ok H ops s G' \<and> bg_gameId G' = bg_gameId G \<and> b_store B' = b_store B \<and> b_games B' = b_games B"
  using run
proof (cases rule: br_putBlob_cases)
  case refused
  then show ?thesis using ok by simp
next
  case stored
  have t: "tracks (blob_view ops s (bg_state G)) (bg_blobSizes G) (gb_blobBytes (bg_budgets G)) (gb_blobKeys (bg_budgets G))"
    using ok by (simp add: game_ok_def)
  have "tracks (blob_view ops s (bg_state G')) (bg_blobSizes G') (gb_blobBytes (bg_budgets G')) (gb_blobKeys (bg_budgets G'))"
    using acct.tracks_put [OF t, of "bp_key p" "b64_decode (bp_bytesBase64 p)"] stored by simp
  then show ?thesis
    using ok stored by (auto simp: game_ok_def readState_def session_state intro: session_ok_ops(2))
qed

lemma br_deleteBlob_ok:
  assumes ok: "game_ok H ops s G" and run: "br_deleteBlob C D k r (G, B) = (G', B')"
  shows "game_ok H ops s G' \<and> bg_gameId G' = bg_gameId G \<and> b_store B' = b_store B \<and> b_games B' = b_games B"
proof -
  have t: "tracks (blob_view ops s (bg_state G)) (bg_blobSizes G) (gb_blobBytes (bg_budgets G)) (gb_blobKeys (bg_budgets G))"
    using ok by (simp add: game_ok_def)
  note d = acct.tracks_del [OF t, of k]
  have s: "session_ok H ops s (deleteBlob k (bg_state G))"
    using ok by (auto simp: game_ok_def intro: session_ok_ops(3))
  show ?thesis
  proof (cases "map_of (bg_blobSizes G) k")
    case None
    then have "G' = G\<lparr>bg_state := deleteBlob k (bg_state G)\<rparr>" "b_store B' = b_store B" "b_games B' = b_games B"
      using run by (auto simp: br_deleteBlob_def Let_def)
    then show ?thesis using ok d s None by (simp add: game_ok_def readState_def session_state)
  next
    case (Some m)
    then show ?thesis
      using ok d s run by (auto simp: br_deleteBlob_def Let_def game_ok_def readState_def session_state)
  qed
qed

section \<open>Properties\<close>

text \<open>
  The blob budget. A put that is accepted stores exactly the decoded bytes under the key and
  leaves the total size and the number of all blobs the session holds within the limits; a put
  that is refused changes nothing of the game.
\<close>

theorem blob_put_within_budget:
  assumes "game_ok H ops s G" and "br_putBlob C D p r (G, B) = (resp, G', B')"
  shows "case resp of
      StorageOk \<Rightarrow>
        blob_view ops s (bg_state G') = (blob_view ops s (bg_state G))(bp_key p \<mapsto> b64_decode (bp_bytesBase64 p))
        \<and> (\<Sum>k \<in> dom (blob_view ops s (bg_state G')). int (length (the (blob_view ops s (bg_state G') k))))
            \<le> li_blobBytes (budgetLimits C)
        \<and> int (card (dom (blob_view ops s (bg_state G')))) \<le> li_blobKeys (budgetLimits C)
    | StorageErr e d \<Rightarrow> G' = G \<and> b_store B' = b_store B"
  using assms(2)
proof (cases rule: br_putBlob_cases)
  case stored
  have "game_ok H ops s G'" using br_putBlob_ok [OF assms] by simp
  from game_ok_totals [OF this] stored show ?thesis by (simp add: view_putBlob)
qed simp

text \<open>A concrete game for the witnesses, over the session of the state store's examples.\<close>

definition deps0 :: "mem_store deps" where
  "deps0 = \<lparr>dp_env = env0, dp_ops = mem_ops env0, dp_options = options0, dp_now = 1000, dp_later = 1001,
     dp_iso = (\<lambda>t. dec_int t), dp_errText = (\<lambda>e. ''error''), dp_version = ''dev'',
     dp_verify = (\<lambda>t. Inr (JObj [(''gameId'', JStr ''g1''), (''playerId'', JStr ''p1''), (''shardId'', JStr ''s1'')])),
     dp_allowedHas = (\<lambda>g p. p = ''p1''), dp_allowedList = (\<lambda>g. [''p1'']), dp_resolve = (\<lambda>g. None),
     dp_lookupActive = None, dp_claim = (\<lambda>c. None), dp_hostEvents = (\<lambda>g. []), dp_assign = (\<lambda>a. Inr ''r1''), dp_invoke = (\<lambda>i. None),
     dp_crash = (\<lambda>r. False), dp_gateway = (\<lambda>i. Inr \<lparr>gr_response = ApiOk JNull, gr_wireRecord = None\<rparr>),
     dp_sessionId = ''ses_1'', dp_wsOpen = (\<lambda>w. True), dp_wsBuffered = (\<lambda>w. 0)\<rparr>"

definition config0 :: BrokerConfig where
  "config0 = \<lparr>cf_shardId = ''s1'', cf_publicUrl = ''http://s1'', cf_runtimeContractsSupported = (1, 1),
     cf_maxActiveGames = 1, cf_softWatermarkPct = 3 / 4, cf_hardWatermarkPct = 1, cf_budgets = None,
     cf_defaultMemoryLimitMb = None, cf_handlerTimeoutMs = None, cf_sleepGraceMs = None,
     cf_sleepDeadlineMs = None, cf_maxInboundFrameBytes = None, cf_capacityHeartbeatMs = None,
     cf_checkpointIntervalMs = None, cf_tickMinIntervalMs = None\<rparr>"

definition player0 :: BrokerSession where
  "player0 = \<lparr>se_sessionId = ''ses_1'', se_gameId = ''g1'', se_playerId = ''p1'', se_jwtClaims = [],
     se_connectedAt = 0, se_seq = 0, se_ws = 7\<rparr>"

definition game0 :: BrokerGame where
  "game0 = \<lparr>bg_ref = 0, bg_gameId = ''g1'', bg_generation = 1, bg_runnerId = ''r1'', bg_state = session0,
     bg_bundleName = ''b'', bg_bundleCompatTag = ''t'', bg_blobCompatTag = None, bg_runId = None,
     bg_sessions = [(''ses_1'', player0)], bg_blobSizes = [(''map'', 10)],
     bg_budgets = \<lparr>gb_wsBytes = sw_new 1000, gb_wsMessages = sw_new 1000, gb_apiInvocations = sw_new 60000,
       gb_stateBytes = 11, gb_blobBytes = 10, gb_blobKeys = 1, gb_cpuMs = 0, gb_memoryBytes = 0\<rparr>,
     bg_sleepTimer = None, bg_currentDispatch = None, bg_tickTimer = None, bg_tickIntervalMs = None,
     bg_tickNextDeadlineMs = None, bg_tickSeq = None, bg_tickRunning = False\<rparr>"

lemma game0_ok: "game_ok (ev_host env0) (mem_ops env0) mem_empty game0"
proof -
  have v: "blob_view (mem_ops env0) mem_empty session0 = [''map'' \<mapsto> ''blob bytes'']"
    by (simp add: session0_def view_putBlob view_writeState)
      (simp add: blob_view_def getBlob_def new_session_def emptyMaterialized_def fun_eq_iff)
  have "tracks [''map'' \<mapsto> ''blob bytes''] [(''map'', 10)] 10 1"
    by (simp add: tracks_def)
  then show ?thesis
    using session0_ok session0_facts by (simp add: game_ok_def game0_def v readState_def)
qed

theorem blob_put_within_budget_witness:
  "\<exists>G' B'. br_putBlob config0 deps0 \<lparr>bp_key = ''k'', bp_bytesBase64 = ''QUI=''\<rparr> None (game0, new_broker mem_empty)
      = (StorageOk, G', B')
    \<and> blob_view (mem_ops env0) mem_empty (bg_state G')
      = (blob_view (mem_ops env0) mem_empty session0)(''k'' \<mapsto> b64_decode ''QUI='')"
proof -
  have d: "b64_decode ''QUI='' = ''AB''" using b64_roundtrip [of "''AB''"] by code_simp
  obtain resp G' B' where run: "br_putBlob config0 deps0 \<lparr>bp_key = ''k'', bp_bytesBase64 = ''QUI=''\<rparr> None
      (game0, new_broker mem_empty) = (resp, G', B')" by (metis prod_cases3)
  have "resp = StorageOk"
    using run by (simp add: br_putBlob_def validateBlobKey_def d game0_def config0_def budgetLimits_def
        DEFAULT_BROKER_BUDGETS_def DEFAULT_BLOB_BYTES_LIMIT_def DEFAULT_BLOB_KEYS_LIMIT_def map_has_def Let_def)
  with blob_put_within_budget [OF game0_ok run] run show ?thesis by (auto simp: game0_def)
qed

text \<open>
  C21: what a game writes is what it reads: after an accepted state write a state read answers
  the same JSON value, and a blob read answers the same text that was put, for text that
  encodes bytes; and a write is accepted exactly when its JSON text fits the limit.
\<close>

theorem storage_roundtrip:
  assumes "host_env (ev_host (dp_env D))" and "is_json v"
    and "br_writeState C D v r (G, B) = (resp, G', B')"
    and "br_putBlob C D \<lparr>bp_key = k, bp_bytesBase64 = b64_encode b\<rparr> r (G, B) = (StorageOk, G2, B2)"
  shows "(resp = StorageOk \<longleftrightarrow> int (length (json_text v)) \<le> li_stateBytes (budgetLimits C))
    \<and> (resp = StorageOk \<longrightarrow> (\<exists>bs. fst (br_readState C D r' G' B3)
        = Inr \<lparr>sp_value = Some v, sp_found = Some True, sp_bytes = Some bs\<rparr>))
    \<and> fst (br_getBlob C D k r' G2 B3)
        = Inr \<lparr>bg_valueBase64 = None, bg_found = Some True, bg_bytesBase64 = Some (b64_encode b),
               bg_bytes = Some (int (length b))\<rparr>"
proof -
  have enc: "encodeJsonState v = Inr (json_text v)" and dec: "decodeJsonState (ev_host (dp_env D)) (json_text v) = Inr v"
    using decode_encode_state [OF assms(1,2)] assms(2) by (auto simp: encodeJsonState_def stringify_json)
  have "resp = StorageOk \<longleftrightarrow> int (length (json_text v)) \<le> li_stateBytes (budgetLimits C)"
    using assms(3) enc by (auto simp: br_writeState_def Let_def split: if_splits)
  moreover have "resp = StorageOk \<Longrightarrow> readState (bg_state G') = json_text v"
    using assms(3) enc by (auto simp: br_writeState_def Let_def readState_def session_state split: if_splits)
  moreover have "json_text v \<noteq> []" by (rule json_text_nonempty [OF assms(2)])
  moreover have "bg_state G2 = putBlob k b (bg_state G)"
    using assms(4) by (cases rule: br_putBlob_cases) (simp_all add: b64_roundtrip)
  ultimately show ?thesis
    using dec by (simp add: br_readState_def br_getBlob_def Let_def getBlob_putBlob)
qed

theorem storage_roundtrip_witness:
  "\<exists>G' B' bs. br_writeState config0 deps0 (JNum 5) None (game0, new_broker mem_empty) = (StorageOk, G', B')
    \<and> fst (br_readState config0 deps0 None G' B') = Inr \<lparr>sp_value = Some (JNum 5), sp_found = Some True, sp_bytes = Some bs\<rparr>"
proof -
  have H: "host_env (ev_host (dp_env deps0))" by (simp add: deps0_def host_env0)
  obtain resp G' B' where w: "br_writeState config0 deps0 (JNum 5) None (game0, new_broker mem_empty) = (resp, G', B')"
    by (metis prod_cases3)
  obtain resp2 G2 B2 where p: "br_putBlob config0 deps0 \<lparr>bp_key = ''k'', bp_bytesBase64 = b64_encode []\<rparr> None
      (game0, new_broker mem_empty) = (resp2, G2, B2)" by (metis prod_cases3)
  have "resp2 = StorageOk"
    using p b64_roundtrip [of "[]"] by (simp add: br_putBlob_def validateBlobKey_def game0_def config0_def budgetLimits_def
        DEFAULT_BROKER_BUDGETS_def DEFAULT_BLOB_BYTES_LIMIT_def DEFAULT_BLOB_KEYS_LIMIT_def map_has_def Let_def)
  moreover have "json_text (JNum 5) = ''5''" by code_simp
  ultimately show ?thesis
    using storage_roundtrip [OF H _ w, of "''k''" "[]" G2 B2 None B'] w p
    by (auto simp: config0_def budgetLimits_def DEFAULT_BROKER_BUDGETS_def DEFAULT_STATE_BYTES_LIMIT_def)
qed

section \<open>Outbound messages\<close>

lemma sessions_of_fold: "b_games (fold (\<lambda>(s, t). emit (WsSendFrame (se_ws s) t)) fs B) = b_games B"
  and out_of_fold: "b_out (fold (\<lambda>(s, t). emit (WsSendFrame (se_ws s) t)) fs B)
    = b_out B @ map (\<lambda>(s, t). WsSendFrame (se_ws s) t) fs"
  by (induction fs arbitrary: B) (auto split: prod.splits)

lemma frames_bytes: "frames_bytes fs = sum_list (map (\<lambda>(s, t). int (length t)) fs)"
proof -
  have "fold (\<lambda>(s, t) total. total + int (length t)) fs n = n + sum_list (map (\<lambda>(s, t). int (length t)) fs)" for n
    by (induction fs arbitrary: n) auto
  then show ?thesis by (simp add: frames_bytes_def)
qed

lemma frames_bytes_open: "frames_bytes (open_frames D fs) \<le> frames_bytes fs"
  unfolding frames_bytes open_frames_def by (induction fs) auto

text \<open>An accepted send, taken apart.\<close>

lemma handleWsSend_sent:
  assumes "handleWsSend C D target body r (G, B) = (WsSent sent n, G', B')"
  obtains plan ss where "prepareWsFramePlan body = plan" "\<forall>e d. plan \<noteq> NoFrame e d"
    "resolveWsSendTargets target (map snd (bg_sessions G)) = Inr ss"
    "fst (sw_sum (dp_now D) (gb_wsBytes (bg_budgets G))) + frames_bytes (ws_frames plan ss)
       \<le> li_bandwidthBytesPerSec (budgetLimits C)"
    "fst (sw_sum (dp_now D) (gb_wsMessages (bg_budgets G))) + 1 \<le> li_wsMessagesPerSec (budgetLimits C)"
    "gb_wsBytes (bg_budgets G') = sw_add (frames_bytes (ws_frames plan ss)) (dp_now D)
       (snd (sw_sum (dp_now D) (gb_wsBytes (bg_budgets G))))"
    "gb_wsMessages (bg_budgets G') = sw_add 1 (dp_now D) (snd (sw_sum (dp_now D) (gb_wsMessages (bg_budgets G))))"
    "\<exists>h. b_out B' = b_out B @ map (\<lambda>(s, t). WsSendFrame (se_ws s) t) (open_frames D (ws_frames plan ss)) @ [History h]"
    "sent = int (length (open_frames D (ws_frames plan ss)))"
    "n = frames_bytes (open_frames D (ws_frames plan ss))"
proof -
  obtain plan where plan: "prepareWsFramePlan body = plan" "\<forall>e d. plan \<noteq> NoFrame e d"
    using assms by (cases "prepareWsFramePlan body") (auto simp: handleWsSend_def)
  obtain ss where ss: "resolveWsSendTargets target (map snd (bg_sessions G)) = Inr ss"
    using assms plan resolve_Inl [of target "map snd (bg_sessions G)"]
    by (cases "resolveWsSendTargets target (map snd (bg_sessions G))"; cases plan)
      (auto simp: handleWsSend_def)
  obtain u1 c1 u2 c2 where s: "sw_sum (dp_now D) (gb_wsBytes (bg_budgets G)) = (u1, c1)"
    "sw_sum (dp_now D) (gb_wsMessages (bg_budgets G)) = (u2, c2)" by (metis surj_pair)
  have le: "u1 + frames_bytes (ws_frames plan ss) \<le> li_bandwidthBytesPerSec (budgetLimits C)"
    "u2 + 1 \<le> li_wsMessagesPerSec (budgetLimits C)"
    using assms plan ss s by (cases plan; auto simp: handleWsSend_def Let_def split: if_splits)+
  show ?thesis
    using assms plan ss s le
    by (cases plan; intro that [OF plan ss]) (auto simp: handleWsSend_def Let_def out_of_fold)
qed

text \<open>
  An accepted \<^verbatim>\<open>ws.send\<close> writes exactly one frame to each open socket of the players its
  target names, each frame the JSON text of the body for that recipient, and the bytes and
  messages it accounts for stay, together with all of the last second, within the limits.
\<close>

theorem ws_send_accepted:
  assumes run: "handleWsSend C D target body r (G, B) = (WsSent sent n, G', B')"
    and bytes: "sw_covers (gb_wsBytes (bg_budgets G)) 1000 t0 logB"
    and messages: "sw_covers (gb_wsMessages (bg_budgets G)) 1000 t0 logM" and "t0 \<le> dp_now D"
  shows "\<exists>frames h total.
      b_out B' = b_out B @ map (\<lambda>(s, t). WsSendFrame (se_ws s) t) frames @ [History h]
    \<and> map fst frames = filter (\<lambda>s. targets target (se_playerId s) \<and> dp_wsOpen D (se_ws s)) (map snd (bg_sessions G))
    \<and> (\<forall>(s, t) \<in> set frames. stringify (frame_object body (se_sessionId s)) = Inr (Some t))
    \<and> sent = int (length frames) \<and> n \<le> total
    \<and> window_sum 1000 (dp_now D) (logB @ [(dp_now D, total)]) \<le> li_bandwidthBytesPerSec (budgetLimits C)
    \<and> window_sum 1000 (dp_now D) (logM @ [(dp_now D, 1)]) \<le> li_wsMessagesPerSec (budgetLimits C)
    \<and> sw_covers (gb_wsBytes (bg_budgets G')) 1000 (dp_now D) (logB @ [(dp_now D, total)])
    \<and> sw_covers (gb_wsMessages (bg_budgets G')) 1000 (dp_now D) (logM @ [(dp_now D, 1)])"
  using run
proof (cases rule: handleWsSend_sent)
  case (1 plan ss)
  let ?fs = "open_frames D (ws_frames plan ss)" and ?n = "frames_bytes (ws_frames plan ss)"
  have ss: "ss = filter (\<lambda>s. targets target (se_playerId s)) (map snd (bg_sessions G))"
    by (rule resolve_Inr [OF 1(3)])
  have fst_fs: "map fst ?fs = filter (\<lambda>s. dp_wsOpen D (se_ws s)) ss"
    by (simp add: open_frames_def ws_frames_def filter_map comp_def case_prod_beta)
  have frame: "stringify (frame_object body sid) = Inr (Some (serialize plan sid))" for sid
    using frame_text [of body sid] 1(1,2) by (cases plan) auto
  have adm: "sw.admit (li_bandwidthBytesPerSec (budgetLimits C)) ?n (dp_now D) (gb_wsBytes (bg_budgets G))
      = (True, gb_wsBytes (bg_budgets G'))"
    "sw.admit (li_wsMessagesPerSec (budgetLimits C)) 1 (dp_now D) (gb_wsMessages (bg_budgets G))
      = (True, gb_wsMessages (bg_budgets G'))"
    using 1(4-7) by (auto simp: sw.admit_def split: prod.splits)
  note b = sw.admit_within [OF bytes assms(4) _ adm(1)] and m = sw.admit_within [OF messages assms(4) _ adm(2)]
  obtain h where h: "b_out B' = b_out B @ map (\<lambda>(s, t). WsSendFrame (se_ws s) t) ?fs @ [History h]"
    using 1(8) by blast
  show ?thesis
  proof (intro exI conjI)
    show "b_out B' = b_out B @ map (\<lambda>(s, t). WsSendFrame (se_ws s) t) ?fs @ [History h]" by (rule h)
    show "map fst ?fs = filter (\<lambda>s. targets target (se_playerId s) \<and> dp_wsOpen D (se_ws s)) (map snd (bg_sessions G))"
      using fst_fs by (simp add: ss conj_commute)
    show "\<forall>(s, t) \<in> set ?fs. stringify (frame_object body (se_sessionId s)) = Inr (Some t)"
      by (auto simp: open_frames_def ws_frames_def frame)
    show "sent = int (length ?fs)" "n \<le> ?n" using 1(9,10) frames_bytes_open by simp_all
  qed (use b m in simp_all)
qed

lemma game0_send:
  obtains n G' B' where "handleWsSend config0 deps0 (JStr ''all'') (JNum 5) None (game0, new_broker mem_empty)
    = (WsSent 1 n, G', B')"
proof -
  have "stringify (JNum 5) = Inr (Some ''5'')" by code_simp
  then have p: "prepareWsFramePlan (JNum 5) = MessageFrame ''5''" by (simp add: prepareWsFramePlan_def)
  let ?fs = "[(player0, serialize (MessageFrame ''5'') ''ses_1'')]"
  have "length (serialize (MessageFrame ''5'') ''ses_1'') \<le> 1000" by code_simp
  then have b: "frames_bytes ?fs \<le> 1000" by (simp add: frames_bytes)
  have s: "sw_sum 1000 (sw_new 1000) = (0, sw_new 1000)" by (simp add: sw_sum_def sw_prune_def sw_new_def)
  have "handleWsSend config0 deps0 (JStr ''all'') (JNum 5) None (game0, new_broker mem_empty)
      = (case handleWsSend config0 deps0 (JStr ''all'') (JNum 5) None (game0, new_broker mem_empty) of
          (w, G', B') \<Rightarrow> (WsSent 1 (frames_bytes ?fs), G', B'))"
    using b by (simp add: handleWsSend_def p resolveWsSendTargets_def game0_def ws_frames_def player0_def s Let_def
        deps0_def config0_def budgetLimits_def DEFAULT_BROKER_BUDGETS_def open_frames_def)
  with that show ?thesis by (cases "handleWsSend config0 deps0 (JStr ''all'') (JNum 5) None (game0, new_broker mem_empty)") auto
qed

theorem ws_send_accepted_witness:
  "\<exists>n G' B'. handleWsSend config0 deps0 (JStr ''all'') (JNum 5) None (game0, new_broker mem_empty) = (WsSent 1 n, G', B')
    \<and> window_sum 1000 1000 ([] @ [(1000, 1)]) \<le> li_wsMessagesPerSec (budgetLimits config0)"
proof -
  obtain n G' B' where r: "handleWsSend config0 deps0 (JStr ''all'') (JNum 5) None (game0, new_broker mem_empty)
      = (WsSent 1 n, G', B')" by (rule game0_send)
  have now: "dp_now deps0 = 1000" by (simp add: deps0_def)
  have c: "sw_covers (gb_wsBytes (bg_budgets game0)) 1000 0 []" "sw_covers (gb_wsMessages (bg_budgets game0)) 1000 0 []"
    by (simp_all add: game0_def sw_new_covers)
  from ws_send_accepted [OF r c] r show ?thesis by (auto simp: now)
qed

lemma ws_rejected_frame:
  "b_games (ws_rejected C D G r t e x B) = b_games B" "b_store (ws_rejected C D G r t e x B) = b_store B"
  "\<exists>h. b_out (ws_rejected C D G r t e x B) = b_out B @ [History h]"
  by (simp_all add: ws_rejected_def)

text \<open>The counters of a game with other windows.\<close>

definition with_windows :: "SlidingWindowCounter \<Rightarrow> SlidingWindowCounter \<Rightarrow> BrokerGame \<Rightarrow> BrokerGame" where
  "with_windows w m G = G\<lparr>bg_budgets := (bg_budgets G)\<lparr>gb_wsBytes := w, gb_wsMessages := m\<rparr>\<rparr>"

lemma with_windows_id: "\<exists>w m. G = with_windows w m G"
  by (intro exI [of _ "gb_wsBytes (bg_budgets G)"] exI [of _ "gb_wsMessages (bg_budgets G)"])
    (simp add: with_windows_def)

lemma windows_some:
  "\<exists>w m. G\<lparr>bg_budgets := (bg_budgets G)\<lparr>gb_wsBytes := c\<rparr>\<rparr> = with_windows w m G"
  "\<exists>w m. G\<lparr>bg_budgets := (bg_budgets G)\<lparr>gb_wsBytes := c, gb_wsMessages := c'\<rparr>\<rparr> = with_windows w m G"
  by (intro exI [of _ c] exI [of _ "gb_wsMessages (bg_budgets G)"], simp add: with_windows_def)
    (auto simp: with_windows_def)

lemma handleWsSend_err:
  assumes "handleWsSend C D target body r (G, B) = (WsErr e d, G', B')"
  shows "(\<exists>e x. B' = ws_rejected C D G r target e x B) \<and> (\<exists>w m. G' = with_windows w m G)"
proof (cases "\<exists>e d. prepareWsFramePlan body = NoFrame e d")
  case True
  then show ?thesis using assms with_windows_id [of G] by (fastforce simp: handleWsSend_def)
next
  case False
  show ?thesis
  proof (cases "resolveWsSendTargets target (map snd (bg_sessions G))")
    case (Inl x)
    obtain e' d' where "x = WsErr e' d'" using resolve_Inl [OF Inl] by blast
    then show ?thesis
      using assms False Inl with_windows_id [of G]
      by (cases "prepareWsFramePlan body") (fastforce simp: handleWsSend_def)+
  next
    case (Inr ss)
    obtain u1 c1 u2 c2 where s: "sw_sum (dp_now D) (gb_wsBytes (bg_budgets G)) = (u1, c1)"
      "sw_sum (dp_now D) (gb_wsMessages (bg_budgets G)) = (u2, c2)" by (metis surj_pair)
    show ?thesis
      using assms False Inr s
      by (cases "prepareWsFramePlan body") (auto simp: handleWsSend_def Let_def windows_some split: if_splits)
  qed
qed

text \<open>
  A refused \<^verbatim>\<open>ws.send\<close> writes no frame to any socket, whatever the reason, and changes
  nothing of the game but its two rate windows.
\<close>

theorem ws_send_refused:
  assumes "handleWsSend C D target body r (G, B) = (WsErr e d, G', B')"
  shows "(\<exists>h. b_out B' = b_out B @ [History h]) \<and> b_games B' = b_games B \<and> b_store B' = b_store B
    \<and> (\<exists>w m. G' = with_windows w m G)"
  using handleWsSend_err [OF assms] ws_rejected_frame by metis

theorem ws_send_refused_witness:
  "\<exists>d G' B' h. handleWsSend config0 deps0 JNull (JNum 5) None (game0, new_broker mem_empty)
     = (WsErr TargetInvalid d, G', B') \<and> b_out B' = [History h]"
proof -
  have "stringify (JNum 5) = Inr (Some ''5'')" by code_simp
  then obtain G' B' where r: "handleWsSend config0 deps0 JNull (JNum 5) None (game0, new_broker mem_empty)
      = (WsErr TargetInvalid None, G', B')"
    by (simp add: handleWsSend_def prepareWsFramePlan_def resolveWsSendTargets_def)
  from ws_send_refused [OF r] r show ?thesis by (auto simp: new_broker_def)
qed

end
