(* ===== verification/BrokerEvolve.thy ===== *)
theory BrokerEvolve
  imports BrokerDispatch BrokerOpsProps
begin

text \<open>
  What a handler may do to the table of games. \<open>evolves B B'\<close>: every game of \<open>B'\<close> was one of
  \<open>B\<close>, under the same key and the same object; the wake and drain switches are the same, and the
  drain may only have completed with an empty table. All handlers but those that wake a game or
  turn a switch evolve the Broker in this sense; this is shown once per operation here and used
  by the invariants of the reachable Brokers.
\<close>

section \<open>Handlers return the object they were given\<close>

definition handler_call :: "BrokerConfig \<Rightarrow> RuntimeHandlerName \<Rightarrow> js \<Rightarrow> DispatchContext \<Rightarrow> BrokerGame \<Rightarrow> RunnerInvoke" where
  "handler_call C h payload ctx G =
     \<lparr>ri_gameId = bg_gameId G, ri_handler = h, ri_payload = payload,
      ri_timeoutMs = default (li_cpuMsPerTick (budgetLimits C)) (cf_handlerTimeoutMs C), ri_traceId = dc_traceId ctx\<rparr>"

lemma invokeGameHandler_eq:
  "invokeGameHandler C D h payload ctx G B =
     (case dp_invoke D (handler_call C h payload ctx G) of None \<Rightarrow> Inr () | Some e \<Rightarrow> Inl e,
      G, emit (RunnerInvoked (bg_runnerId G) (handler_call C h payload ctx G)) B)"
  by (simp add: invokeGameHandler_def dispatch_begin_def dispatch_end_def handler_call_def Let_def)

definition same_object :: "BrokerGame \<Rightarrow> BrokerGame \<Rightarrow> bool" where
  "same_object G G' \<longleftrightarrow> bg_gameId G' = bg_gameId G \<and> bg_ref G' = bg_ref G"

lemma same_object_refl [simp]: "same_object G G"
  by (simp add: same_object_def)

section \<open>Evolution of the table\<close>

definition evolves :: "'s Broker \<Rightarrow> 's Broker \<Rightarrow> bool" where
  "evolves B B' \<longleftrightarrow>
     b_nextRef B' = b_nextRef B \<and> b_acceptingWakes B' = b_acceptingWakes B \<and> b_started B' = b_started B
     \<and> b_drainRequested B' = b_drainRequested B
     \<and> (b_drainCompleted B' \<longrightarrow> b_drainCompleted B \<or> b_drainRequested B \<and> b_games B' = [])
     \<and> (map_wf (b_games B) \<longrightarrow> map_wf (b_games B'))
     \<and> length (b_games B') \<le> length (b_games B)
     \<and> (\<forall>(k, G') \<in> set (b_games B'). \<exists>G. (k, G) \<in> set (b_games B) \<and> bg_ref G' = bg_ref G
          \<and> (bg_gameId G = k \<longrightarrow> bg_gameId G' = k))"

lemma evolves_refl [simp]: "evolves B B"
  by (auto simp: evolves_def)

lemma evolves_trans [trans]:
  assumes "evolves A B" and "evolves B C"
  shows "evolves A C"
proof -
  have "b_games C = []" if "b_games B = []" using assms(2) that by (simp add: evolves_def)
  moreover have "\<exists>G. (k, G) \<in> set (b_games A) \<and> bg_ref G'' = bg_ref G \<and> (bg_gameId G = k \<longrightarrow> bg_gameId G'' = k)"
    if "(k, G'') \<in> set (b_games C)" for k G''
    using assms that unfolding evolves_def by fastforce
  ultimately show ?thesis using assms unfolding evolves_def by auto
qed

lemma evolves_fields:
  assumes "b_games B' = b_games B" "b_nextRef B' = b_nextRef B" "b_acceptingWakes B' = b_acceptingWakes B"
    "b_drainRequested B' = b_drainRequested B" "b_drainCompleted B' = b_drainCompleted B" "b_started B' = b_started B"
  shows "evolves B B'"
  using assms by (auto simp: evolves_def)

lemma publishCapacity_nextRef [simp]: "b_nextRef (publishCapacity C D B) = b_nextRef B"
  by (simp add: publishCapacity_def)

lemma respond_switches [simp]:
  "b_nextRef (respond p r G B) = b_nextRef B" "b_acceptingWakes (respond p r G B) = b_acceptingWakes B"
  "b_drainRequested (respond p r G B) = b_drainRequested B" "b_drainCompleted (respond p r G B) = b_drainCompleted B"
  by (simp_all add: respond_def split: option.splits)

lemma cancelCheckpointTimer_fields [simp]:
  "b_games (cancelCheckpointTimer g B) = b_games B" "b_store (cancelCheckpointTimer g B) = b_store B"
  by (simp_all add: cancelCheckpointTimer_def)

lemma evolves_step [simp]:
  assumes "evolves A B"
  shows "evolves A (emit e B)" "evolves A (writeHistory C D ev fs B)" "evolves A (publishCapacity C D B)"
    "evolves A (respond p r G B)" "evolves A (sendJson D w v B)" "evolves A (B\<lparr>b_store := s\<rparr>)"
    "evolves A (B\<lparr>b_checkpointTimers := t\<rparr>)" "evolves A (B\<lparr>b_wsSendMetrics := m\<rparr>)"
    "evolves A (B\<lparr>b_wakingGames := w'\<rparr>)" "evolves A (scheduleCheckpoint C G B)"
    "evolves A (cancelCheckpointTimer g B)" "evolves A (B\<lparr>b_capacityHeartbeat := h\<rparr>)"
  by (auto intro!: evolves_trans [OF assms] evolves_fields simp: scheduleCheckpoint_def cancelCheckpointTimer_def)

lemma evolves_delete [simp]:
  "evolves A B \<Longrightarrow> evolves A (B\<lparr>b_games := map_delete k (b_games B)\<rparr>)"
  by (erule evolves_trans)
    (auto simp: evolves_def AList.delete_eq length_filter_le intro: distinct_delete [unfolded AList.delete_eq])

lemma set_update_entries:
  "(k', v') \<in> set (map_set k v m) \<Longrightarrow> (k' = k \<and> v' = v) \<or> ((k', v') \<in> set m)"
  by (induction m) (auto split: if_splits)

lemma evolves_put:
  assumes "evolves A B" and "map_get (b_games B) (bg_gameId G) = Some G0" and "bg_ref G = bg_ref G0"
  shows "evolves A (put_game G B)"
proof (rule evolves_trans [OF assms(1)])
  have "(bg_gameId G, G0) \<in> set (b_games B)" using assms(2) by (rule map_of_SomeD)
  moreover from this have "length (map_set (bg_gameId G) G (b_games B)) = length (b_games B)"
    by (subst length_update_keys) (force simp: map_has_iff)
  ultimately show "evolves B (put_game G B)"
    using assms(3)
    by (auto simp: evolves_def put_game_def distinct_update dest!: set_update_entries)
qed

lemma evolves_sync [simp]: "evolves A B \<Longrightarrow> evolves A (sync_game G B)"
  by (auto simp: sync_game_def is_resident_def intro: evolves_put split: option.splits)

lemma evolves_drain [simp]: "evolves A B \<Longrightarrow> evolves A (maybeWriteDrainCompleted C D r B)"
  by (erule evolves_trans) (auto simp: maybeWriteDrainCompleted_def evolves_def)

section \<open>Timers, sessions and release\<close>

lemma clearSleepTimer_evolves:
  "clearSleepTimer C D c (G, B) = (G', B') \<Longrightarrow> evolves B B' \<and> same_object G G' \<and> b_games B' = b_games B \<and> b_store B' = b_store B
    \<and> bg_state G' = bg_state G \<and> bg_sessions G' = bg_sessions G"
  by (auto simp: clearSleepTimer_def same_object_def split: option.splits)

lemma scheduleSleep_evolves:
  "scheduleSleep C D (G, B) = (G', B') \<Longrightarrow> evolves B B' \<and> same_object G G'"
  using clearSleepTimer_evolves [of C D "''cancelled''" G B]
  by (cases "clearSleepTimer C D ''cancelled'' (G, B)") (auto simp: scheduleSleep_def Let_def same_object_def)

lemma close_fold:
  "evolves A B \<Longrightarrow> evolves A (fold (\<lambda>(k, s) B. emit (WsClose (se_ws s) 1001 reason) (sendJson D (se_ws s) (m s) B)) ss B)"
  "b_games (fold (\<lambda>(k, s) B. emit (WsClose (se_ws s) 1001 reason) (sendJson D (se_ws s) (m s) B)) ss B) = b_games B"
  "b_store (fold (\<lambda>(k, s) B. emit (WsClose (se_ws s) 1001 reason) (sendJson D (se_ws s) (m s) B)) ss B) = b_store B"
  by (induction ss arbitrary: B) (simp_all add: evolves_step case_prod_beta)

lemma detach_run:
  assumes "detach C D reason (G, B) = (G', B')"
  shows "evolves B B'" and "b_games B' = map_delete (bg_gameId G) (b_games B)" and "b_store B' = b_store B"
    and "bg_state G' = bg_state G" and "bg_gameId G' = bg_gameId G" and "bg_ref G' = bg_ref G"
    and "bg_sessions G' = []" and "bg_runnerId G' = bg_runnerId G" and "bg_generation G' = bg_generation G"
proof -
  let ?B1 = "B\<lparr>b_games := map_delete (bg_gameId G) (b_games B)\<rparr>"
  obtain G2 B2 where c: "clearSleepTimer C D reason (G, ?B1) = (G2, B2)" by fastforce
  note e = clearSleepTimer_evolves [OF c]
  have B2: "evolves B B2" using e by (blast intro: evolves_trans [OF evolves_delete [OF evolves_refl]])
  have G': "G' = (cancelTickTimer G2)\<lparr>bg_sessions := []\<rparr>"
    and B': "B' = snd (closeSessions D reason (cancelTickTimer G2, cancelCheckpointTimer (bg_gameId G) B2))"
    using assms by (auto simp: detach_def c Let_def closeSessions_def)
  show "evolves B B'"
    unfolding B' closeSessions_def prod.case snd_conv by (intro close_fold(1) evolves_step B2)
  show "b_games B' = map_delete (bg_gameId G) (b_games B)" "b_store B' = b_store B"
    unfolding B' closeSessions_def prod.case snd_conv close_fold using e by (simp_all add: cancelCheckpointTimer_def)
  show "bg_state G' = bg_state G" "bg_gameId G' = bg_gameId G" "bg_ref G' = bg_ref G" "bg_sessions G' = []"
    using e by (simp_all add: G' cancelTickTimer_def same_object_def)
  show "bg_runnerId G' = bg_runnerId G" "bg_generation G' = bg_generation G"
    using c by (auto simp: G' cancelTickTimer_def clearSleepTimer_def split: option.splits)
qed

lemma br_flushState_run:
  assumes "br_flushState C D event r t (G, B) = (res, G', B')"
  shows "evolves B B'" and "b_games B' = b_games B" and "same_object G G'"
    and "\<exists>x. flush (dp_env D) (dp_ops D) (bg_state G) (b_store B) = (x, bg_state G', b_store B')
      \<and> (res = Inr StorageOk \<longleftrightarrow> (\<exists>rt0. x = Inr rt0))
      \<and> (\<forall>k. x = Inl (StoreErr (ConditionalPutConflict k)) \<longrightarrow> (\<exists>resp. res = Inr resp \<and> isFenceConflictResponse resp))"
    and "G' = G\<lparr>bg_state := bg_state G'\<rparr>"
proof -
  obtain x g s where f: "flush (dp_env D) (dp_ops D) (bg_state G) (b_store B) = (x, g, s)" by (metis prod_cases3)
  show "evolves B B'"
    using assms by (auto simp: br_flushState_def f Let_def split: sum.splits state_error.splits store_error.splits if_splits)
  show "b_games B' = b_games B" "same_object G G'" "G' = G\<lparr>bg_state := bg_state G'\<rparr>"
    using assms by (auto simp: br_flushState_def f Let_def same_object_def
        split: sum.splits state_error.splits store_error.splits if_splits)
  show "\<exists>x. flush (dp_env D) (dp_ops D) (bg_state G) (b_store B) = (x, bg_state G', b_store B')
      \<and> (res = Inr StorageOk \<longleftrightarrow> (\<exists>rt0. x = Inr rt0))
      \<and> (\<forall>k. x = Inl (StoreErr (ConditionalPutConflict k)) \<longrightarrow> (\<exists>resp. res = Inr resp \<and> isFenceConflictResponse resp))"
    using assms by (auto simp: br_flushState_def f Let_def isFenceConflictResponse_def
        split: sum.splits state_error.splits store_error.splits if_splits)
qed

lemma releaseGame_evolves:
  assumes "releaseGame C D reason (G, B) = (r, B')"
  shows "evolves B B'" and "map_wf (b_games B) \<Longrightarrow> map_get (b_games B') (bg_gameId G) = None"
proof -
  obtain G1 B1 where d: "detach C D reason (G, B) = (G1, B1)" by fastforce
  obtain res G2 B2 where f: "br_flushState C D ''state.flush.plannedTransition'' None (Some ''sleep'') (G1, B1) = (res, G2, B2)"
    by (metis prod_cases3)
  note dr = detach_run [OF d] and fr = br_flushState_run [OF f]
  have e: "evolves B B2" using evolves_trans [OF dr(1) fr(1)] .
  show "evolves B B'"
    using assms e by (auto simp: releaseGame_def d f Let_def split: if_splits sum.splits)
  assume "map_wf (b_games B)"
  then have "map_get (map_delete (bg_gameId G) (b_games B)) (bg_gameId G) = None" by (simp add: delete_conv')
  then show "map_get (b_games B') (bg_gameId G) = None"
    using assms dr(2) fr(2)
    by (auto simp: releaseGame_def d f Let_def maybeWriteDrainCompleted_def map_has_def split: if_splits sum.splits)
qed

lemma standDown_evolves: "evolves A B \<Longrightarrow> evolves A (standDownSupersededGame C D op G B)"
  using detach_run(1) [of C D superseded G B]
  by (cases "detach C D superseded (G, B)")
    (auto simp: standDownSupersededGame_def Let_def intro!: evolves_step intro: evolves_trans)

lemma sleepGame_evolves:
  assumes "sleepGame C D reason (G, B) = (r, B')"
  shows "evolves B B'"
proof -
  obtain G1 B1 where c: "clearSleepTimer C D (sleepReason reason) (G, B) = (G1, B1)" by fastforce
  have e1: "evolves B B1" using clearSleepTimer_evolves [OF c] by blast
  show ?thesis
    using assms e1
    by (auto simp: sleepGame_def c Let_def invokeGameHandler_eq split: if_splits option.splits sum.splits prod.splits
        intro!: evolves_step evolves_sync
        dest!: releaseGame_evolves(1) elim!: evolves_trans [rotated])
qed

end
