(* ===== verification/BrokerReach.thy ===== *)
theory BrokerReach
  imports BrokerEvolve
begin

text \<open>
  The Broker as a state machine: its handlers are the steps, the Brokers that handlers can reach
  from construction are the reachable ones, and the invariant of the table of games holds in all
  of them. Handlers do not overlap in this machine; what happens when they do is in
  \<open>BrokerRaces\<close>.
\<close>

section \<open>Host events and waking\<close>

lemma deliverHostEventRecord_eq:
  "\<exists>x es. deliverHostEventRecord C D rec (G, B) = (x, G, B\<lparr>b_out := b_out B @ es\<rparr>)"
  by (auto simp: deliverHostEventRecord_def invokeGameHandler_eq emit_def writeHistory_def split: option.splits)

lemma deliver_loop_eq: "\<exists>x es. deliver_loop C D rs (G, B) = (x, G, B\<lparr>b_out := b_out B @ es\<rparr>)"
proof (induction rs arbitrary: B)
  case Nil
  show ?case by (auto intro: exI [of _ "[]"])
next
  case (Cons rec rs)
  obtain x es where one: "deliverHostEventRecord C D rec (G, B) = (x, G, B\<lparr>b_out := b_out B @ es\<rparr>)"
    using deliverHostEventRecord_eq [of C D rec G B] by blast
  show ?case
  proof (cases x)
    case (Inl e)
    then show ?thesis using one by auto
  next
    case (Inr u)
    then show ?thesis using one Cons.IH [of "B\<lparr>b_out := b_out B @ es\<rparr>"] by auto
  qed
qed

lemma deliverQueued_eq: "\<exists>x es. deliverQueuedHostEvents C D (G, B) = (x, G, B\<lparr>b_out := b_out B @ es\<rparr>)"
proof -
  obtain x es where "deliver_loop C D (dp_hostEvents D (bg_gameId G))
      (G, emit (HostEventsDrained (bg_gameId G) (dp_hostEvents D (bg_gameId G))) B)
      = (x, G, B\<lparr>b_out := b_out B @ es\<rparr>)"
    using deliver_loop_eq [of C D "dp_hostEvents D (bg_gameId G)" G "emit (HostEventsDrained (bg_gameId G) (dp_hostEvents D (bg_gameId G))) B"]
    by (auto simp: emit_def)
  then show ?thesis by (cases x) (auto simp: deliverQueuedHostEvents_def Let_def)
qed

lemma evolves_out [simp]: "evolves A B \<Longrightarrow> evolves A (B\<lparr>b_out := es\<rparr>)"
  by (erule evolves_trans) (auto intro: evolves_fields)

lemma update_same: "map_get m k = Some v \<Longrightarrow> map_set k v m = m"
  by (induction m) auto

lemma sync_same: "map_get (b_games B) (bg_gameId G) = Some G \<Longrightarrow> sync_game G B = B"
  by (simp add: sync_game_def is_resident_def put_game_def update_same)

text \<open>The part of a wake after the game is in the table leaves the table alone, error or not.\<close>

lemma wake_announce_run:
  assumes "map_get (b_games B) (bg_gameId G) = Some G"
  shows "\<exists>x es. wake_announce C D input G B = (x, B\<lparr>b_out := b_out B @ es\<rparr>)"
proof -
  have q: "\<exists>x es. (case deliverQueuedHostEvents C D (G, B1) of
        (Inl e, G4, B4) \<Rightarrow> (Inl e, sync_game G4 B4)
      | (Inr n, G4, B4) \<Rightarrow> (Inr (), publishCapacity C D (sync_game G4 B4))) = (x, B\<lparr>b_out := b_out B @ es\<rparr>)"
    if "B1 = B\<lparr>b_out := b_out B @ es1\<rparr>" for B1 es1
  proof -
    obtain x es where "deliverQueuedHostEvents C D (G, B1) = (x, G, B1\<lparr>b_out := b_out B1 @ es\<rparr>)"
      using deliverQueued_eq by blast
    then show ?thesis
      using that assms by (cases x) (auto simp: sync_same publishCapacity_def emit_def)
  qed
  let ?claim = "\<lparr>ac_gameId = bg_gameId G, ac_shardId = cf_shardId C, ac_generation = bg_generation G,
                   ac_placedAt = dp_now D, ac_refreshedAt = dp_now D\<rparr>"
  show ?thesis
  proof (cases "dp_claim D ?claim")
    case (Some e)
    then show ?thesis by (auto simp: wake_announce_def Let_def intro!: exI [of _ "[]"])
  next
    case claimed: None
    show ?thesis
    proof (cases "decodeJsonState (ev_host (dp_env D)) (readState (bg_state G))")
      case (Inl e)
      then show ?thesis using claimed by (auto simp: wake_announce_def Let_def emit_def writeHistory_def)
    next
      case (Inr v)
      define call where "call = handler_call C H_onWake
        (JObj [(''reason'', JStr (wakeReason (default (if readState (bg_state G) = [] then ColdStart
             else ColdRestartFromStorage) (wi_wakeReason input)))),
           (''errorClass'', opt_str (map_option wakeErrorClass (wi_wakeErrorClass input))),
           (''runId'', str_or_null (bg_runId G)), (''bundleName'', JStr (bg_bundleName G)),
           (''bundleCompatTag'', JStr (bg_bundleCompatTag G)),
           (''blobCompatTag'', opt_str (bg_blobCompatTag G)), (''state'', v)]) no_context G"
      obtain es1 where B1: "emit (RunnerInvoked (bg_runnerId G) call) (writeHistory C D ''game.woke''
                [(''gameId'', JStr (bg_gameId G)), (''shardId'', JStr (cf_shardId C)),
                 (''runnerId'', JStr (bg_runnerId G)), (''bundleName'', JStr (bg_bundleName G)),
                 (''bundleCompatTag'', JStr (bg_bundleCompatTag G)),
                 (''generation'', JNum (bg_generation G))] (emit (ActiveGameClaimed ?claim) B))
          = B\<lparr>b_out := b_out B @ es1\<rparr>" (is "?B1 = _")
        by (simp add: emit_def writeHistory_def)
      show ?thesis
      proof (cases "dp_invoke D call")
        case None
        then have "wake_announce C D input G B = (case deliverQueuedHostEvents C D (G, ?B1) of
            (Inl e, G4, B4) \<Rightarrow> (Inl e, sync_game G4 B4)
          | (Inr n, G4, B4) \<Rightarrow> (Inr (), publishCapacity C D (sync_game G4 B4)))"
          using claimed Inr by (simp add: wake_announce_def Let_def invokeGameHandler_eq call_def)
        then show ?thesis using q [OF B1] by simp
      next
        case (Some e)
        then have "wake_announce C D input G B = (Inl e, sync_game G ?B1)"
          using claimed Inr by (simp add: wake_announce_def Let_def invokeGameHandler_eq call_def)
        then show ?thesis using assms by (auto simp: B1 sync_same)
      qed
    qed
  qed
qed

section \<open>The invariant\<close>

definition table_ok :: "BrokerConfig \<Rightarrow> 's Broker \<Rightarrow> bool" where
  "table_ok C B \<longleftrightarrow>
     map_wf (b_games B)
     \<and> (\<forall>(k, G) \<in> set (b_games B). bg_gameId G = k \<and> bg_ref G < b_nextRef B)
     \<and> distinct (map (\<lambda>(k, G). bg_ref G) (b_games B))
     \<and> int (length (b_games B)) \<le> max 0 (cf_maxActiveGames C)
     \<and> (b_drainRequested B \<longrightarrow> \<not> b_acceptingWakes B)
     \<and> (b_drainCompleted B \<longrightarrow> b_drainRequested B \<and> b_games B = [])"

lemma distinct_refs:
  assumes "map_wf m'" and "distinct (map (\<lambda>(k, G). bg_ref G) m)"
    and sub: "\<forall>(k, G') \<in> set m'. \<exists>G. (k, G) \<in> set m \<and> bg_ref G' = bg_ref G"
  shows "distinct (map (\<lambda>(k, G). bg_ref G) m')"
  unfolding distinct_map
proof
  show "distinct m'" using assms(1) by (simp add: distinct_map)
  show "inj_on (\<lambda>(k, G). bg_ref G) (set m')"
  proof (rule inj_onI, clarify)
    fix k1 G1 k2 G2
    assume in1: "(k1, G1) \<in> set m'" and in2: "(k2, G2) \<in> set m'" and eq: "bg_ref G1 = bg_ref G2"
    obtain H1 where 1: "(k1, H1) \<in> set m" "bg_ref G1 = bg_ref H1" using sub in1 by fastforce
    obtain H2 where 2: "(k2, H2) \<in> set m" "bg_ref G2 = bg_ref H2" using sub in2 by fastforce
    have "inj_on (\<lambda>(k, G). bg_ref G) (set m)" using assms(2) by (simp add: distinct_map)
    from inj_onD [OF this, of "(k1, H1)" "(k2, H2)"] 1 2 eq have "k1 = k2" by simp
    then show "k1 = k2 \<and> G1 = G2"
      using in1 in2 map_of_is_SomeI [OF assms(1)] by (metis option.inject)
  qed
qed

lemma evolves_entry:
  assumes "evolves B B'" and "(k, G') \<in> set (b_games B')"
  obtains G where "(k, G) \<in> set (b_games B)" "bg_ref G' = bg_ref G" "bg_gameId G = k \<Longrightarrow> bg_gameId G' = k"
proof -
  have "\<forall>(k, G') \<in> set (b_games B'). \<exists>G. (k, G) \<in> set (b_games B) \<and> bg_ref G' = bg_ref G
      \<and> (bg_gameId G = k \<longrightarrow> bg_gameId G' = k)"
    using assms(1) unfolding evolves_def by (elim conjE)
  from bspec [OF this assms(2)] that show ?thesis by auto
qed

lemma table_ok_evolves:
  assumes "table_ok C B" and "evolves B B'"
  shows "table_ok C B'"
proof -
  have refs: "distinct (map (\<lambda>(k, G). bg_ref G) (b_games B'))"
  proof (rule distinct_refs)
    show "map_wf (b_games B')" "distinct (map (\<lambda>(k, G). bg_ref G) (b_games B))"
      using assms by (auto simp: table_ok_def evolves_def)
    show "\<forall>(k, G') \<in> set (b_games B'). \<exists>G. (k, G) \<in> set (b_games B) \<and> bg_ref G' = bg_ref G"
      by (auto elim: evolves_entry [OF assms(2)])
  qed
  have entries: "bg_gameId G' = k \<and> bg_ref G' < b_nextRef B'" if entry: "(k, G') \<in> set (b_games B')" for k G'
  proof -
    obtain G where "(k, G) \<in> set (b_games B)" "bg_ref G' = bg_ref G" "bg_gameId G = k \<Longrightarrow> bg_gameId G' = k"
      using evolves_entry [OF assms(2) entry] by metis
    moreover have "b_nextRef B' = b_nextRef B" using assms(2) by (simp add: evolves_def)
    ultimately show ?thesis using assms(1) unfolding table_ok_def by auto
  qed
  have empty: "b_games B' = []" if "b_games B = []" using assms(2) that by (simp add: evolves_def)
  have new: "map_wf (b_games B')" "length (b_games B') \<le> length (b_games B)"
    "b_drainRequested B' = b_drainRequested B" "b_acceptingWakes B' = b_acceptingWakes B"
    "b_drainCompleted B' \<longrightarrow> b_drainCompleted B \<or> b_drainRequested B \<and> b_games B' = []"
    using assms by (simp_all add: table_ok_def evolves_def)
  have old: "int (length (b_games B)) \<le> max 0 (cf_maxActiveGames C)"
    "b_drainRequested B \<longrightarrow> \<not> b_acceptingWakes B" "b_drainCompleted B \<longrightarrow> b_drainRequested B \<and> b_games B = []"
    using assms(1) by (simp_all add: table_ok_def)
  show ?thesis
    unfolding table_ok_def
  proof (intro conjI)
    show "\<forall>(k, G) \<in> set (b_games B'). bg_gameId G = k \<and> bg_ref G < b_nextRef B'" using entries by blast
    show "b_drainCompleted B' \<longrightarrow> b_drainRequested B' \<and> b_games B' = []" using new(3,5) old(3) empty by blast
  qed (use refs new old in simp_all)
qed

lemma table_ok_switches:
  "table_ok C B \<Longrightarrow> \<not> (r \<and> a)
    \<Longrightarrow> table_ok C (B\<lparr>b_acceptingWakes := a, b_drainRequested := r, b_drainCompleted := False\<rparr>)"
  "table_ok C B \<Longrightarrow> table_ok C (B\<lparr>b_started := x\<rparr>)"
  by (auto simp: table_ok_def)

lemma wake_begin_cases:
  assumes "wake_begin C input B = (x, B1)"
  obtains (skip) "x \<noteq> Inr True" "B1 = B"
  | (mine) "x = Inr True" "B1 = B\<lparr>b_wakingGames := set_add (wi_gameId input) (b_wakingGames B)\<rparr>"
      "b_started B" "\<not> map_has (b_games B) (wi_gameId input)" "b_acceptingWakes B"
      "int (length (b_games B)) < cf_maxActiveGames C"
      "fst (cf_runtimeContractsSupported C) \<le> wi_runtimeContractRequired input"
      "wi_runtimeContractRequired input \<le> snd (cf_runtimeContractsSupported C)"
  using assms
  by (auto simp: wake_begin_def brk_bind_def ensureRuntimeContract_def ensureCapacity_def split: if_splits prod.splits)

text \<open>The options a wake opens the session of a game with.\<close>

abbreviation wake_options :: "BrokerWakeInput \<Rightarrow> GameStateSessionOptions" where
  "wake_options input \<equiv>
     \<lparr>sn_gameId = wi_gameId input, sn_bundleCompatTag = Some (wi_bundleCompatTag input),
      sn_blobCompatTag = wi_blobCompatTag input, sn_enableTimeTravel = None, sn_retainCheckpoints = None\<rparr>"

text \<open>A wake that reaches the table adds exactly one game, clean of sessions, over the opened session.\<close>

lemma wake_body_cases:
  assumes "wake_body C D input B = (r, B')"
  obtains (failed) e where "B' = B" "r = Inl e"
  | (added) G rn es where "G = new_game (b_nextRef B) (default (dp_now D) (wi_generation input)) rn input
        (bg_state G) (bg_blobSizes G)"
      "B' = (put_game G (B\<lparr>b_nextRef := b_nextRef B + 1\<rparr>))\<lparr>b_out := es\<rparr>"
      "openSession (dp_env D) (dp_options D) (dp_ops D) (b_store B) (wake_options input) = Inr (bg_state G)"
      "materializeBlobSizes (dp_ops D) (b_store B) (bg_state G) = Inr (bg_blobSizes G)"
      "dp_assign D (wake_assignment C input) = Inr rn"
proof (cases "\<exists>st sz rn. openSession (dp_env D) (dp_options D) (dp_ops D) (b_store B) (wake_options input) = Inr st
      \<and> materializeBlobSizes (dp_ops D) (b_store B) st = Inr sz \<and> dp_assign D (wake_assignment C input) = Inr rn")
  case False
  then have "B' = B \<and> (\<exists>e. r = Inl e)" using assms by (auto simp: wake_body_def split: sum.splits)
  then show ?thesis using failed by blast
next
  case True
  then obtain st sz rn where o: "openSession (dp_env D) (dp_options D) (dp_ops D) (b_store B) (wake_options input) = Inr st"
      "materializeBlobSizes (dp_ops D) (b_store B) st = Inr sz" "dp_assign D (wake_assignment C input) = Inr rn" by blast
  define G where "G = new_game (b_nextRef B) (default (dp_now D) (wi_generation input)) rn input st sz"
  define B1 where "B1 = put_game G (B\<lparr>b_nextRef := b_nextRef B + 1\<rparr>)"
  have "wake_body C D input B = wake_announce C D input G B1"
    by (simp add: wake_body_def o G_def B1_def Let_def)
  then have w: "wake_announce C D input G B1 = (r, B')" using assms by simp
  have "map_get (b_games B1) (bg_gameId G) = Some G" by (simp add: B1_def put_game_def update_conv')
  then obtain x es where "wake_announce C D input G B1 = (x, B1\<lparr>b_out := es\<rparr>)"
    using wake_announce_run by blast
  then have B': "B' = B1\<lparr>b_out := es\<rparr>" using w by simp
  show ?thesis
    by (rule added [of G rn es]) (simp_all add: o B' B1_def, simp_all add: G_def new_game_def o)
qed

lemma wakeGame_cases:
  assumes "wakeGame C D input B = (r, B')"
  obtains (same) "evolves B B'" "b_games B' = b_games B" "b_store B' = b_store B"
  | (woke) B0 where "\<not> map_has (b_games B) (wi_gameId input)" "b_acceptingWakes B"
      "int (length (b_games B)) < cf_maxActiveGames C"
      "wake_body C D input (B\<lparr>b_wakingGames := set_add (wi_gameId input) (b_wakingGames B)\<rparr>) = (r, B0)"
      "B' = B0\<lparr>b_wakingGames := set_delete (wi_gameId input) (b_wakingGames B0)\<rparr>"
proof -
  obtain x B1 where b: "wake_begin C input B = (x, B1)" by fastforce
  then show ?thesis
  proof (cases rule: wake_begin_cases)
    case skip
    then have "B' = B" using assms b by (auto simp: wakeGame_def brk_bind_def split: sum.splits if_splits)
    then show ?thesis using same by simp
  next
    case mine
    obtain B0 where "wake_body C D input B1 = (r, B0)" "B' = B0\<lparr>b_wakingGames := set_delete (wi_gameId input) (b_wakingGames B0)\<rparr>"
      using assms b mine(1) by (auto simp: wakeGame_def brk_bind_def wake_finish_def Let_def split: prod.splits)
    then show ?thesis using mine by (intro woke) simp_all
  qed
qed

lemma table_ok_insert:
  assumes "table_ok C B" and "bg_ref G = b_nextRef B" and "\<not> map_has (b_games B) (bg_gameId G)"
    and "b_acceptingWakes B" and "int (length (b_games B)) < cf_maxActiveGames C"
  shows "table_ok C (put_game G (B\<lparr>b_nextRef := b_nextRef B + 1\<rparr>))"
proof -
  have "map_set (bg_gameId G) G (b_games B) = b_games B @ [(bg_gameId G, G)]"
    using assms(3) by (intro map_set_absent) (simp add: map_has_iff)
  moreover have "bg_ref G \<notin> set (map (\<lambda>(k, G). bg_ref G) (b_games B))"
    using assms(1,2) by (fastforce simp: table_ok_def)
  moreover have "\<not> b_drainCompleted B" using assms(1,4) by (auto simp: table_ok_def)
  ultimately show ?thesis using assms by (auto simp: table_ok_def put_game_def map_has_iff)
qed

lemma wakeGame_table:
  assumes "table_ok C B" and "wakeGame C D input B = (r, B')"
  shows "table_ok C B'"
  using assms(2)
proof (cases rule: wakeGame_cases)
  case same
  then show ?thesis using assms(1) table_ok_evolves by blast
next
  case (woke B0)
  let ?B = "B\<lparr>b_wakingGames := set_add (wi_gameId input) (b_wakingGames B)\<rparr>"
  have ok: "table_ok C ?B" by (rule table_ok_evolves [OF assms(1)]) simp
  have "table_ok C B0"
    using woke(4)
  proof (cases rule: wake_body_cases)
    case (failed e)
    then show ?thesis using ok by simp
  next
    case (added G rn es)
    have "bg_ref G = b_nextRef ?B" "bg_gameId G = wi_gameId input"
      by (subst added(1), simp add: new_game_def)+
    then have "table_ok C (put_game G (?B\<lparr>b_nextRef := b_nextRef ?B + 1\<rparr>))"
      using woke(1-3) by (intro table_ok_insert ok) simp_all
    then show ?thesis unfolding added(2) by (rule table_ok_evolves) simp
  qed
  then show ?thesis unfolding woke(5) by (rule table_ok_evolves) simp
qed

section \<open>What a game asks keeps the table\<close>

definition op_ok :: "BrokerGame \<Rightarrow> 's Broker \<Rightarrow> BrokerGame \<Rightarrow> 's Broker \<Rightarrow> bool" where
  "op_ok G B G' B' \<longleftrightarrow> evolves B B' \<and> b_games B' = b_games B \<and> same_object G G'"

lemma op_ok_put:
  assumes "op_ok G B G' B'" and "map_get (b_games B) (bg_gameId G) = Some G"
  shows "evolves B (put_game G' B')"
  using assms by (intro evolves_put [of _ _ _ G]) (auto simp: op_ok_def same_object_def)

lemma answer_evolves:
  "op_ok G B G' B' \<Longrightarrow> map_get (b_games B) (bg_gameId G) = Some G \<Longrightarrow> answer p r (G', B') = (x, B'') \<Longrightarrow> evolves B B''"
  by (auto simp: answer_def op_ok_put)

lemma evolves_sends: "evolves A B \<Longrightarrow> evolves A (fold (\<lambda>(s, t). emit (WsSendFrame (se_ws s) t)) fs B)"
  by (induction fs arbitrary: B) (simp_all add: case_prod_beta)

lemma br_writeState_op: "br_writeState C D v r (G, B) = (x, G', B') \<Longrightarrow> op_ok G B G' B'"
  by (auto simp: br_writeState_def op_ok_def same_object_def Let_def split: sum.splits if_splits)

lemma br_putBlob_op: "br_putBlob C D p r (G, B) = (x, G', B') \<Longrightarrow> op_ok G B G' B'"
  by (auto simp: br_putBlob_def blob_rejected_def op_ok_def same_object_def Let_def
      split: StorageWriteResponse.splits if_splits)

lemma br_deleteBlob_op: "br_deleteBlob C D k r (G, B) = (G', B') \<Longrightarrow> op_ok G B G' B'"
  by (auto simp: br_deleteBlob_def op_ok_def same_object_def Let_def split: option.splits)

lemma computeBudget_op: "computeBudget C D r (G, B) = (x, G', B') \<Longrightarrow> op_ok G B G' B'"
  by (auto simp: computeBudget_def snapshot_prunes_def op_ok_def same_object_def Let_def)

lemma invokeGateway_op: "invokeGateway C D p r (G, B) = (x, G', B') \<Longrightarrow> op_ok G B G' B'"
  by (auto simp: invokeGateway_def wire_history_def op_ok_def same_object_def Let_def split: sum.splits option.splits)

lemma handleWsSend_op:
  assumes "handleWsSend C D target body r (G, B) = (x, G', B')"
  shows "op_ok G B G' B'"
proof (cases x)
  case (WsErr e d)
  then obtain e x w m where "B' = ws_rejected C D G r target e x B" "G' = with_windows w m G"
    using handleWsSend_err [of C D target body r G B e d G' B'] assms by blast
  then show ?thesis by (auto simp: op_ok_def ws_rejected_def same_object_def with_windows_def)
next
  case (WsSent sent n)
  then show ?thesis
    using assms
    by (auto simp: handleWsSend_def op_ok_def same_object_def Let_def sessions_of_fold ws_rejected_def
        split: WsFramePlan.splits sum.splits prod.splits if_splits WsSendResponse.splits intro!: evolves_step evolves_sends)
qed

lemma read_ops_evolve:
  "br_readState C D r G B = (x, B') \<Longrightarrow> evolves B B'" "br_getBlob C D k r G B = (y, B') \<Longrightarrow> evolves B B'"
  "br_listBlobs C D pre r G B = (is, B') \<Longrightarrow> evolves B B'" "playersAllowed C D r G B = (ps, B') \<Longrightarrow> evolves B B'"
  "playersConnected C D r G B = (qs, B') \<Longrightarrow> evolves B B'"
  by (auto simp: br_readState_def br_getBlob_def br_listBlobs_def playersAllowed_def playersConnected_def Let_def
      split: sum.splits)

text \<open>Every message of the assigned runner, for the resident object.\<close>

lemma handle_game_message_evolves:
  assumes res: "map_get (b_games B) (bg_gameId G) = Some G"
    and run: "handle_game_message C D rid msg req G B = (r, B')"
  shows "evolves B B'"
proof -
  note defs = handle_game_message_def Let_def
  show ?thesis
  proof (cases msg)
    case (StateWrite v)
    obtain x G1 B1 where o: "br_writeState C D v req (G, B) = (x, G1, B1)" by (metis prod_cases3)
    have "answer (StateWriteResponse x) req (G1, B1) = (r, B')" using run by (simp add: StateWrite defs o)
    then show ?thesis by (rule answer_evolves [OF br_writeState_op [OF o] res])
  next
    case (BlobPut p)
    obtain x G1 B1 where o: "br_putBlob C D p req (G, B) = (x, G1, B1)" by (metis prod_cases3)
    have "answer (BlobPutResponse x) req (G1, B1) = (r, B')" using run by (simp add: BlobPut defs o)
    then show ?thesis by (rule answer_evolves [OF br_putBlob_op [OF o] res])
  next
    case (BlobDelete k)
    obtain G1 B1 where o: "br_deleteBlob C D k req (G, B) = (G1, B1)" by fastforce
    have "answer BlobDeleteResponse req (G1, B1) = (r, B')" using run by (simp add: BlobDelete defs o)
    then show ?thesis by (rule answer_evolves [OF br_deleteBlob_op [OF o] res])
  next
    case (WsSend t b)
    obtain x G1 B1 where o: "handleWsSend C D t b req (G, B) = (x, G1, B1)" by (metis prod_cases3)
    have "answer (WsSendResponseMsg x) req (G1, B1) = (r, B')" using run by (simp add: WsSend defs o)
    then show ?thesis by (rule answer_evolves [OF handleWsSend_op [OF o] res])
  next
    case ComputeBudget
    obtain x G1 B1 where o: "computeBudget C D req (G, B) = (x, G1, B1)" by (metis prod_cases3)
    have "answer (ComputeBudgetResponse x) req (G1, B1) = (r, B')" using run by (simp add: ComputeBudget defs o)
    then show ?thesis by (rule answer_evolves [OF computeBudget_op [OF o] res])
  next
    case (ApiInvoke p)
    obtain x G1 B1 where o: "invokeGateway C D p req (G, B) = (x, G1, B1)" by (metis prod_cases3)
    have "answer (ApiInvokeResponseMsg x) req (G1, B1) = (r, B')" using run by (simp add: ApiInvoke defs o)
    then show ?thesis by (rule answer_evolves [OF invokeGateway_op [OF o] res])
  next
    case StateFlush
    obtain x G1 B1 where o: "br_flushState C D ''state.flush'' req (Some ''flush'') (G, B) = (x, G1, B1)"
      by (metis prod_cases3)
    have "op_ok G B G1 B1" using br_flushState_run [OF o] by (simp add: op_ok_def)
    from op_ok_put [OF this res] have "evolves B (put_game G1 B1)" .
    then show ?thesis using run by (auto simp: StateFlush defs o standDown_evolves split: sum.splits if_splits)
  next
    case (LifecycleRequestTick i)
    have "op_ok G B (scheduleTick C (dp_now D) (Some i) G) B"
      by (simp add: op_ok_def same_object_def scheduleTick_def armTick_def Let_def split: option.splits)
    from op_ok_put [OF this res] run show ?thesis by (auto simp: LifecycleRequestTick defs)
  next
    case (IsolateCounters p)
    have "op_ok G B (G\<lparr>bg_budgets := (bg_budgets G)\<lparr>gb_cpuMs := te_cpuMs p, gb_memoryBytes := te_memoryBytes p\<rparr>\<rparr>) B"
      by (simp add: op_ok_def same_object_def)
    from op_ok_put [OF this res] run show ?thesis by (auto simp: IsolateCounters defs)
  next
    case LifecycleRequestSleep
    let ?B = "writeHistory C D ''lifecycle.requestSleep'' [(''gameId'', JStr (bg_gameId G)), (''reason'', JStr ''requestedBySleep'')] B"
    obtain x B1 where s: "sleepGame C D RequestedBySleep (G, ?B) = (x, B1)" by fastforce
    have "evolves B B1" by (rule evolves_trans [OF _ sleepGame_evolves [OF s]]) simp
    then show ?thesis using run s by (simp add: LifecycleRequestSleep defs)
  next
    case (LifecycleSleepComplete reason n)
    then show ?thesis
      using run by (auto simp: defs split: prod.splits sum.splits
          dest!: releaseGame_evolves(1) intro: evolves_trans [OF evolves_step(2) [OF evolves_refl]])
  next
    case (IsolateFatal p)
    then show ?thesis
      using run by (auto simp: defs split: prod.splits sum.splits
          dest!: releaseGame_evolves(1) intro: evolves_trans [OF evolves_step(2) [OF evolves_refl]])
  next
    case StateRead
    then show ?thesis using run by (auto simp: defs split: prod.splits sum.splits dest!: read_ops_evolve(1))
  next
    case (BlobGet k)
    then show ?thesis using run by (auto simp: defs split: prod.splits sum.splits dest!: read_ops_evolve(2))
  next
    case (BlobList pre)
    then show ?thesis using run by (auto simp: defs split: prod.splits dest!: read_ops_evolve(3))
  next
    case PlayersAllowed
    then show ?thesis using run by (auto simp: defs split: prod.splits dest!: read_ops_evolve(4))
  next
    case PlayersConnected
    then show ?thesis using run by (auto simp: defs split: prod.splits dest!: read_ops_evolve(5))
  qed (use run in \<open>auto simp: defs\<close>)
qed

section \<open>Every other handler\<close>

lemma validateAssignedRunner_cases:
  assumes "validateAssignedRunner C D rid gid t B = (g, B')"
  obtains (assigned) G where "g = Some G" "B' = B" "map_get (b_games B) gid = Some G" "bg_runnerId G = rid"
  | (rejected) "g = None" "B' = writeHistory C D ''runner.assignmentRejected''
      [(''runnerId'', JStr rid), (''gameId'', JStr gid), (''type'', JStr t)] B"
      "\<And>G. map_get (b_games B) gid = Some G \<Longrightarrow> bg_runnerId G \<noteq> rid"
proof (cases "map_get (b_games B) gid")
  case None
  then show ?thesis using assms rejected by (auto simp: validateAssignedRunner_def)
next
  case (Some G)
  then show ?thesis
    using assms assigned [of G] rejected by (cases "bg_runnerId G = rid") (auto simp: validateAssignedRunner_def)
qed

lemma table_key: "table_ok C B \<Longrightarrow> map_get (b_games B) k = Some G \<Longrightarrow> bg_gameId G = k"
  by (auto simp: table_ok_def dest: map_of_SomeD)

lemma handleRunnerEnvelope_cases:
  assumes "handleRunnerEnvelope C D rid env B = (r, B')"
  obtains (control) ev fs where "r = Inr ()" "B' = writeHistory C D ev fs B"
  | (game) G where "map_get (b_games B) (be_gameId env) = Some G" "bg_runnerId G = rid"
      "handle_game_message C D rid (be_payload env) (eo_requestId (be_options env)) G B = (r, B')"
proof -
  have game_msg: thesis
    if "handleRunnerEnvelope C D rid env B =
      (case validateAssignedRunner C D rid (be_gameId env) (rtb_type (be_payload env)) B of
         (None, B1) \<Rightarrow> (Inr (), B1)
       | (Some G, B1) \<Rightarrow> handle_game_message C D rid (be_payload env) (eo_requestId (be_options env)) G B1)"
  proof -
    obtain g B1 where v: "validateAssignedRunner C D rid (be_gameId env) (rtb_type (be_payload env)) B = (g, B1)" by fastforce
    then show thesis
    proof (cases rule: validateAssignedRunner_cases)
      case (assigned G)
      then show thesis using assms that v game by simp
    next
      case rejected
      then have "r = Inr ()" "B' = B1" using assms that v by simp_all
      then show thesis using rejected(2) control by blast
    qed
  qed
  show thesis
  proof (cases "be_payload env")
    case (RunnerReady p)
    then have "r = Inr ()" "B' = writeHistory C D ''runner.ready''
             [(''runnerId'', JStr rid), (''kind'', JStr (runnerKind (rr_kind p))),
              (''maxAssignedGames'', JNum (rr_maxAssignedGames p)), (''pid'', opt_int (rr_pid p))] B"
      using assms by (simp_all add: handleRunnerEnvelope_def)
    then show thesis by (rule control)
  next
    case (RunnerUnknownMessage p)
    then have "r = Inr ()" "B' = writeHistory C D ''runner.unknownMessage''
             [(''runnerId'', JStr rid), (''type'', JStr (ru_type p)), (''detail'', default JUndef (ru_detail p))] B"
      using assms by (simp_all add: handleRunnerEnvelope_def)
    then show thesis by (rule control)
  qed (rule game_msg, simp add: handleRunnerEnvelope_def cong: prod.case_cong option.case_cong)+
qed

lemma handleRunnerEnvelope_evolves:
  assumes "table_ok C B" and "handleRunnerEnvelope C D rid env B = (r, B')"
  shows "evolves B B'"
  using assms(2)
proof (cases rule: handleRunnerEnvelope_cases)
  case (game G)
  have "map_get (b_games B) (bg_gameId G) = Some G" using game(1) table_key [OF assms(1) game(1)] by simp
  then show ?thesis using game(3) by (rule handle_game_message_evolves)
qed simp

lemma open_session_evolves: "open_session C D ws claims G B = (r, B') \<Longrightarrow> evolves B B'"
  using clearSleepTimer_evolves [of C D "''cancelled''" _ B]
  by (auto simp: open_session_def Let_def invokeGameHandler_eq split: prod.splits)

lemma handlePlayerMessage_evolves: "handlePlayerMessage C D s d B = (r, B') \<Longrightarrow> evolves B B'"
  by (auto simp: handlePlayerMessage_def Let_def invokeGameHandler_eq split: option.splits if_splits)

lemma handleSessionClosed_evolves:
  assumes "handleSessionClosed C D s why B = (r, B')"
  shows "evolves B B'"
proof (cases "map_get (b_games B) (se_gameId s)")
  case None
  then show ?thesis using assms by (simp add: handleSessionClosed_def)
next
  case (Some G)
  have s: "evolves B B3" if "scheduleSleep C D (G1, B2) = (G3, B3)" "evolves B B2" for G1 B2 G3 B3
    using scheduleSleep_evolves [OF that(1)] that(2) evolves_trans by blast
  show ?thesis
    using assms Some
    by (auto simp: handleSessionClosed_def Let_def invokeGameHandler_eq split: option.splits if_splits prod.splits dest!: s)
qed

lemma sleep_fire_evolves:
  assumes "sleep_fire C D G B = (r, B')"
  shows "evolves B B'"
proof (cases "bg_sleepTimer G")
  case None
  then show ?thesis using assms by (simp add: sleep_fire_def)
next
  case (Some t)
  let ?G = "G\<lparr>bg_sleepTimer := None\<rparr>"
  let ?B = "writeHistory C D ''lifecycle.sleepGrace.expired'' [(''gameId'', JStr (bg_gameId G)), (''deadline'', JNum t)]
      (sync_game ?G B)"
  have "sleepGame C D Idle (?G, ?B) = (r, B')" using assms Some by (simp add: sleep_fire_def Let_def)
  from sleepGame_evolves [OF this] show ?thesis by (rule evolves_trans [rotated]) simp
qed

lemma checkpoint_fire_evolves:
  assumes "checkpoint_fire C D gid ref B = (r, B')"
  shows "evolves B B'"
proof -
  let ?B = "B\<lparr>b_checkpointTimers := map_delete gid (b_checkpointTimers B)\<rparr>"
  have "evolves B B1" if "br_flushState C D ''state.checkpoint'' None (Some ''interval'') (G, ?B) = (x, G1, B1)" for G x G1 B1
    by (rule evolves_trans [OF _ br_flushState_run(1) [OF that]]) simp
  then show ?thesis
    using assms by (auto simp: checkpoint_fire_def Let_def standDown_evolves split: option.splits if_splits prod.splits sum.splits)
qed

lemma tick_evolves: "tick C D i G B = (r, B') \<Longrightarrow> evolves B B'"
  by (auto simp: tick_def invokeGameHandler_eq Let_def split: prod.splits option.splits)

lemma evictGame_evolves: "evictGame C D gid why B = (r, B') \<Longrightarrow> evolves B B'"
  by (auto simp: evictGame_def split: option.splits prod.splits sum.splits dest: sleepGame_evolves)

lemma replay_evolves: "resolveWebSocketReplay C D q B = (r, B') \<Longrightarrow> evolves B B'"
  by (auto simp: resolveWebSocketReplay_def brk_bind_def ensureStarted_def split: option.splits sum.splits if_splits)

lemma fence_winner_evolves: "writeFenceWinnerForTest C D gid m B = (r, B') \<Longrightarrow> evolves B B'"
  by (auto simp: writeFenceWinnerForTest_def brk_bind_def ensureStarted_def Let_def
      split: sum.splits prod.splits if_splits state_error.splits)

subsection \<open>Handlers that may wake a game\<close>

lemma ensureGame_table:
  assumes "table_ok C B" and "ensureGameForConnection C D gid B = (r, B')"
  shows "table_ok C B'"
  using assms wakeGame_table [OF assms(1)]
  by (auto simp: ensureGameForConnection_def brk_bind_def split: option.splits prod.splits sum.splits)

lemma hostEvents_table:
  assumes "table_ok C B" and "deliverQueuedHostEventsForGame C D gid B = (r, B')"
  shows "table_ok C B'"
proof (cases "b_started B")
  case True
  obtain x B1 where e: "ensureGameForConnection C D gid B = (x, B1)" by fastforce
  have ok: "table_ok C B1" by (rule ensureGame_table [OF assms(1) e])
  show ?thesis
  proof (cases x)
    case (Inl msg)
    then show ?thesis using assms True e ok
      by (auto simp: deliverQueuedHostEventsForGame_def brk_bind_def ensureStarted_def)
  next
    case (Inr g)
    show ?thesis
    proof (cases g)
      case None
      then show ?thesis using assms True e ok Inr
        by (auto simp: deliverQueuedHostEventsForGame_def brk_bind_def ensureStarted_def)
    next
      case (Some G)
      obtain y es where q: "deliverQueuedHostEvents C D (G, B1) = (y, G, B1\<lparr>b_out := b_out B1 @ es\<rparr>)"
        using deliverQueued_eq by blast
      have "B' = sync_game G (B1\<lparr>b_out := b_out B1 @ es\<rparr>)"
        using assms(2) True e Inr Some q
        by (simp add: deliverQueuedHostEventsForGame_def brk_bind_def ensureStarted_def)
      moreover have "evolves B1 (sync_game G (B1\<lparr>b_out := b_out B1 @ es\<rparr>))" by simp
      ultimately show ?thesis using table_ok_evolves [OF ok] by simp
    qed
  qed
qed (use assms in \<open>simp add: deliverQueuedHostEventsForGame_def brk_bind_def ensureStarted_def\<close>)

lemma refuse_evolves: "evolves A B \<Longrightarrow> evolves A (refuse C D ws c m fs B)"
  by (simp add: refuse_def)

lemma acceptWebSocket_table:
  assumes ok: "table_ok C B" and run: "acceptWebSocket C D ws q B = (r, B')"
  shows "table_ok C B'"
proof -
  have ev: "table_ok C B1" if "evolves B B1" for B1 using table_ok_evolves [OF ok that] .
  have opened: "table_ok C B2"
    if "brk_bind (ensureGameForConnection C D (vc_gameId claims)) (\<lambda>g B.
          (case g of None \<Rightarrow> (Inr (), refuse C D ws 4503 ''game not available'' fs B)
           | Some G \<Rightarrow> open_session C D ws claims G B)) B = (r, B2)" for claims fs B2
  proof -
    obtain x B1 where e: "ensureGameForConnection C D (vc_gameId claims) B = (x, B1)" by fastforce
    have "table_ok C B1" by (rule ensureGame_table [OF ok e])
    moreover have "evolves B1 B2"
      using that e by (auto simp: brk_bind_def refuse_evolves split: sum.splits option.splits dest: open_session_evolves)
    ultimately show ?thesis by (rule table_ok_evolves)
  qed
  show ?thesis
    using run
    by (auto simp: acceptWebSocket_def brk_bind_def [of ensureStarted] ensureStarted_def Let_def ok
        split: option.splits sum.splits if_splits intro!: ev refuse_evolves dest!: opened)
qed

lemma restart_table:
  assumes "table_ok C B"
  shows "table_ok C (restartGameAfterRunnerCrash C D rid gid B)"
proof (cases "map_get (b_games B) gid")
  case None
  then show ?thesis using assms by (simp add: restartGameAfterRunnerCrash_def)
next
  case (Some G)
  obtain G1 B1 where d: "detach C D ''runnerCrash'' (G, B) = (G1, B1)" by fastforce
  define B3 where "B3 = disposed C D gid rid False ''runnerCrash'' (emit (ActiveGameReleased gid (bg_generation G)) B1)"
  have ok: "table_ok C B3"
    by (rule table_ok_evolves [OF assms]) (simp add: B3_def disposed_def detach_run(1) [OF d])
  have "table_ok C (restarted C D gid rid ''runnerCrash'' B4)" "table_ok C (restart_failed C D gid rid ''runnerCrash'' e B4)"
    if "table_ok C B4" for B4 e
    using table_ok_evolves [OF that] by (simp_all add: restarted_def restart_failed_def)
  then show ?thesis
    using assms Some d ok wakeGame_table [OF ok]
    by (auto simp: restartGameAfterRunnerCrash_def Let_def B3_def [symmetric] split: option.splits prod.splits sum.splits)
qed

lemma handleRunnerCrash_table:
  assumes "table_ok C B" and "handleRunnerCrash C D ev B = (r, B')"
  shows "table_ok C B'"
proof -
  have f: "table_ok C (fold (restartGameAfterRunnerCrash C D rid) gs B1)" if "table_ok C B1" for gs rid B1
    using that by (induction gs arbitrary: B1) (simp_all add: restart_table)
  have h: "table_ok C (writeHistory C D e fs B)" for e fs by (rule table_ok_evolves [OF assms(1)]) simp
  have "table_ok C (publishCapacity C D (fold (restartGameAfterRunnerCrash C D rid) gs (writeHistory C D e fs B)))"
    for gs rid e fs by (rule table_ok_evolves [OF f [OF h, of rid gs e fs]]) simp
  then show ?thesis
    using assms by (auto simp: handleRunnerCrash_def brk_bind_def ensureStarted_def Let_def split: if_splits)
qed

lemma reload_table:
  assumes "table_ok C B" and "reloadGameFromStorage C D gid why B = (r, B')"
  shows "table_ok C B'"
proof (cases "map_get (b_games B) gid")
  case None
  then show ?thesis using assms by (simp add: reloadGameFromStorage_def)
next
  case (Some G)
  obtain G1 B1 where d: "detach C D why (G, B) = (G1, B1)" by fastforce
  define B4 where "B4 = disposed C D gid (bg_runnerId G) True why
    (emit (ActiveGameReleased gid (bg_generation G)) (emit (RunnerReleased (bg_runnerId G) gid) B1))"
  have ok: "table_ok C B4"
    by (rule table_ok_evolves [OF assms(1)]) (simp add: B4_def disposed_def detach_run(1) [OF d])
  have "table_ok C (restarted C D gid rid why B5)" "table_ok C (publishCapacity C D (restart_failed C D gid rid why e B5))"
    if "table_ok C B5" for B5 e rid
    using table_ok_evolves [OF that] by (simp_all add: restarted_def restart_failed_def)
  then show ?thesis
    using assms Some d ok wakeGame_table [OF ok]
    by (auto simp: reloadGameFromStorage_def Let_def B4_def [symmetric] split: option.splits prod.splits sum.splits)
qed

subsection \<open>Switches\<close>

lemma release_all_evolves: "release_all C D Gs B = (r, B') \<Longrightarrow> evolves B B'"
proof (induction Gs arbitrary: B r B')
  case (Cons G Gs)
  obtain x B1 where g: "releaseGame C D ''shutdown'' (G, B) = (x, B1)" by fastforce
  obtain y B2 where gs: "release_all C D Gs B1 = (y, B2)" by fastforce
  have "B' = B2" using Cons.prems g gs by (auto simp: Let_def)
  then show ?case using evolves_trans [OF releaseGame_evolves(1) [OF g] Cons.IH [OF gs]] by simp
qed simp

lemma switches_table:
  assumes "table_ok C B"
  shows "table_ok C (start C D B)" "table_ok C (requestDrain C D why B)" "table_ok C (snd (resumeWakes C D why B))"
    "table_ok C (snd (stop C D B))" "table_ok C (heartbeat_fire C D B)"
proof -
  note sw = table_ok_switches(1) [OF assms]
  show "table_ok C (start C D B)"
  proof -
    have "table_ok C (B\<lparr>b_started := True, b_acceptingWakes := True, b_drainRequested := False, b_drainCompleted := False\<rparr>)"
      using assms by (simp add: table_ok_def)
    then show ?thesis
      unfolding start_def Let_def startCapacityHeartbeat_def by (rule table_ok_evolves) simp
  qed
  show "table_ok C (requestDrain C D why B)"
    using sw [of True False] by (auto simp: requestDrain_def Let_def elim!: table_ok_evolves)
  show "table_ok C (snd (resumeWakes C D why B))"
    using assms table_ok_evolves [OF sw [of False True]]
    by (simp add: resumeWakes_def brk_bind_def ensureStarted_def)
  show "table_ok C (heartbeat_fire C D B)"
    using assms by (auto simp: heartbeat_fire_def elim!: table_ok_evolves)
  let ?B2 = "publishCapacity C D (stopCapacityHeartbeat
      (B\<lparr>b_acceptingWakes := False, b_drainRequested := False, b_drainCompleted := False\<rparr>))"
  obtain x B3 where r: "release_all C D (map snd (b_games ?B2)) ?B2 = (x, B3)" by fastforce
  have "table_ok C ?B2" using sw [of False False] by (auto simp: stopCapacityHeartbeat_def elim!: table_ok_evolves)
  from table_ok_evolves [OF this release_all_evolves [OF r]] have ok: "table_ok C B3" .
  have "table_ok C (writeHistory C D e fs ((emit e1 (emit e2 B3))\<lparr>b_started := False\<rparr>))" for e fs e1 e2
  proof -
    have "table_ok C (emit e1 (emit e2 B3))" by (rule table_ok_evolves [OF ok]) simp
    from table_ok_switches(2) [OF this, of False] show ?thesis by (rule table_ok_evolves) simp
  qed
  then show "table_ok C (snd (stop C D B))" using r ok by (auto simp: stop_def Let_def split: sum.splits)
qed

section \<open>Reachable Brokers\<close>

inductive broker_step :: "BrokerConfig \<Rightarrow> 's Broker \<Rightarrow> 's Broker \<Rightarrow> bool" for C where
  start: "broker_step C B (start C D B)"
| stop: "broker_step C B (snd (stop C D B))"
| drain: "broker_step C B (requestDrain C D why B)"
| resume: "broker_step C B (snd (resumeWakes C D why B))"
| heartbeat: "broker_step C B (heartbeat_fire C D B)"
| wake: "broker_step C B (snd (wakeGame C D input B))"
| connect: "broker_step C B (snd (acceptWebSocket C D ws q B))"
| replay: "broker_step C B (snd (resolveWebSocketReplay C D q B))"
| message: "broker_step C B (snd (handlePlayerMessage C D s d B))"
| closed: "broker_step C B (snd (handleSessionClosed C D s left B))"
| sleep: "broker_step C B (snd (sleep_fire C D G B))" if "map_get (b_games B) k = Some G"
| checkpoint: "broker_step C B (snd (checkpoint_fire C D gid ref B))"
| ticked: "broker_step C B (snd (tick C D i G B))" if "map_get (b_games B) k = Some G"
| envelope: "broker_step C B (snd (handleRunnerEnvelope C D rid env B))"
| crash: "broker_step C B (snd (handleRunnerCrash C D ev B))"
| reload: "broker_step C B (snd (reloadGameFromStorage C D gid cause B))"
| evict: "broker_step C B (snd (evictGame C D gid reason B))"
| host_events: "broker_step C B (snd (deliverQueuedHostEventsForGame C D gid B))"
| fence_winner: "broker_step C B (snd (writeFenceWinnerForTest C D gid marker B))"

inductive reachable :: "BrokerConfig \<Rightarrow> 's \<Rightarrow> 's Broker \<Rightarrow> bool" for C s where
  init: "reachable C s (new_broker s)"
| step: "reachable C s B \<Longrightarrow> broker_step C B B' \<Longrightarrow> reachable C s B'"

lemma new_broker_table: "table_ok C (new_broker s)"
  by (simp add: table_ok_def new_broker_def)

lemma broker_step_table: "broker_step C B B' \<Longrightarrow> table_ok C B \<Longrightarrow> table_ok C B'"
proof (induction rule: broker_step.induct)
  case (wake B D input)
  then show ?case using wakeGame_table [of C B D input] by (cases "wakeGame C D input B") simp
next
  case (connect B D ws q)
  then show ?case using acceptWebSocket_table [of C B D ws q] by (cases "acceptWebSocket C D ws q B") simp
next
  case (replay B D q)
  then show ?case using replay_evolves [of C D q B] table_ok_evolves by (cases "resolveWebSocketReplay C D q B") auto
next
  case (message B D s d)
  then show ?case using handlePlayerMessage_evolves [of C D s d B] table_ok_evolves by (cases "handlePlayerMessage C D s d B") auto
next
  case (closed B D s left)
  then show ?case using handleSessionClosed_evolves [of C D s left B] table_ok_evolves by (cases "handleSessionClosed C D s left B") auto
next
  case (sleep B k G D)
  then show ?case using sleep_fire_evolves [of C D G B] table_ok_evolves by (cases "sleep_fire C D G B") auto
next
  case (checkpoint B D gid ref)
  then show ?case using checkpoint_fire_evolves [of C D gid ref B] table_ok_evolves by (cases "checkpoint_fire C D gid ref B") auto
next
  case (ticked B k G D i)
  then show ?case using tick_evolves [of C D i G B] table_ok_evolves by (cases "tick C D i G B") auto
next
  case (envelope B D rid env)
  then show ?case using handleRunnerEnvelope_evolves [of C B D rid env] table_ok_evolves by (cases "handleRunnerEnvelope C D rid env B") auto
next
  case (crash B D ev)
  then show ?case using handleRunnerCrash_table [of C B D ev] by (cases "handleRunnerCrash C D ev B") auto
next
  case (reload B D gid cause)
  then show ?case using reload_table [of C B D gid cause] by (cases "reloadGameFromStorage C D gid cause B") auto
next
  case (evict B D gid reason)
  then show ?case using evictGame_evolves [of C D gid reason B] table_ok_evolves by (cases "evictGame C D gid reason B") auto
next
  case (host_events B D gid)
  then show ?case using hostEvents_table [of C B D gid] by (cases "deliverQueuedHostEventsForGame C D gid B") auto
next
  case (fence_winner B D gid marker)
  then show ?case using fence_winner_evolves [of C D gid marker B] table_ok_evolves by (cases "writeFenceWinnerForTest C D gid marker B") auto
qed (simp_all add: switches_table)

lemma reachable_table: "reachable C s B \<Longrightarrow> table_ok C B"
  by (induction rule: reachable.induct) (auto intro: new_broker_table broker_step_table)

end
