(* ===== verification/Redis.thy ===== *)
theory Redis
  imports Ipc StateStore
begin

text \<open>
  The Redis commands the program issues, as an interface: \<open>redis\<close> is the record of the commands
  over a database of type \<open>'d\<close>, and the locale \<open>redis_db\<close> the documented behaviour the program
  relies on. Commands do not fail. Keys of strings, lists and sets are distinct, since the
  program uses a prefix of its own for each.

  Expiry is not a command: a key with a time to live is removed by the server at a later moment,
  and no law here speaks of a later moment.
\<close>

record 'd redis =
  rd_get :: "'d \<Rightarrow> string \<Rightarrow> string option"
  rd_set :: "string \<Rightarrow> string \<Rightarrow> 'd \<Rightarrow> 'd"
  rd_setEx :: "string \<Rightarrow> string \<Rightarrow> int \<Rightarrow> 'd \<Rightarrow> 'd"
  rd_setNx :: "string \<Rightarrow> string \<Rightarrow> int option \<Rightarrow> 'd \<Rightarrow> bool \<times> 'd"
  rd_setXx :: "string \<Rightarrow> string \<Rightarrow> int \<Rightarrow> 'd \<Rightarrow> bool \<times> 'd"
  rd_del :: "string list \<Rightarrow> 'd \<Rightarrow> int \<times> 'd"
  rd_keys :: "'d \<Rightarrow> string \<Rightarrow> string list"
  rd_smembers :: "'d \<Rightarrow> string \<Rightarrow> string list"
  rd_sadd :: "string \<Rightarrow> string \<Rightarrow> 'd \<Rightarrow> 'd"
  rd_srem :: "string \<Rightarrow> string \<Rightarrow> 'd \<Rightarrow> int \<times> 'd"
  rd_lrange :: "'d \<Rightarrow> string \<Rightarrow> string list"
  rd_rpush :: "string \<Rightarrow> string \<Rightarrow> 'd \<Rightarrow> 'd"
  rd_ltrim :: "string \<Rightarrow> nat \<Rightarrow> 'd \<Rightarrow> 'd"
  rd_expire :: "string \<Rightarrow> int \<Rightarrow> 'd \<Rightarrow> 'd"
  rd_setKeys :: "'d \<Rightarrow> string \<Rightarrow> string list"

text \<open>
  \<open>rd_keys d p\<close> is what a complete \<^verbatim>\<open>SCAN\<close> for the keys with prefix \<open>p\<close> returns where they hold strings,
  \<open>rd_setKeys d p\<close> where they hold sets; a key may come more than once. \<open>rd_lrange\<close> is a whole list, and
  \<open>rd_ltrim k n\<close> drops its first \<open>n\<close> elements.
\<close>

locale redis_db =
  fixes R :: "'d redis"
  assumes get_set: "rd_get R (rd_set R k v d) = (rd_get R d)(k \<mapsto> v)"
    and get_setEx: "rd_get R (rd_setEx R k v t d) = (rd_get R d)(k \<mapsto> v)"
    and get_setNx: "rd_setNx R k v t1 d = (b, d') \<Longrightarrow>
      b = (rd_get R d k = None) \<and> rd_get R d' = (if b then (rd_get R d)(k \<mapsto> v) else rd_get R d)"
    and get_setXx: "rd_setXx R k v t d = (b, d') \<Longrightarrow>
      b = (rd_get R d k \<noteq> None) \<and> rd_get R d' = (if b then (rd_get R d)(k \<mapsto> v) else rd_get R d)"
    and get_del: "rd_del R ks d = (n, d') \<Longrightarrow> rd_get R d' = (rd_get R d) |` (- set ks)"
    and keys: "set (rd_keys R d p) = {k. prefix p k \<and> rd_get R d k \<noteq> None}"
    and lrange_rpush: "rd_lrange R (rd_rpush R k v d) = (rd_lrange R d)(k := rd_lrange R d k @ [v])"
    and lrange_ltrim: "rd_lrange R (rd_ltrim R k m d) = (rd_lrange R d)(k := drop m (rd_lrange R d k))"
    and smembers_sadd: "set (rd_smembers R (rd_sadd R k v d) k') = set (rd_smembers R d k') \<union> (if k' = k then {v} else {})"
    and smembers_srem: "rd_srem R k v d = (n, d') \<Longrightarrow>
      set (rd_smembers R d' k') = set (rd_smembers R d k') - (if k' = k then {v} else {}) \<and> (0 < n \<longleftrightarrow> v \<in> set (rd_smembers R d k))"

text \<open>A command leaves the keys it does not name alone, whatever they hold.\<close>

locale redis_frames = redis_db +
  assumes setKeys: "set (rd_setKeys R d p) = {k. prefix p k \<and> rd_smembers R d k \<noteq> []}"
    and smembers_set: "k' \<noteq> k \<Longrightarrow> rd_smembers R (rd_set R k v d) k' = rd_smembers R d k'"
    and smembers_setNx: "k' \<noteq> k \<Longrightarrow> rd_setNx R k v t1 d = (b, d') \<Longrightarrow> rd_smembers R d' k' = rd_smembers R d k'"
    and smembers_del: "rd_del R ks d = (n, d') \<Longrightarrow> rd_smembers R d' k' = (if k' \<in> set ks then [] else rd_smembers R d k')"
    and del_count: "rd_del R [k] d = (n, d') \<Longrightarrow> 0 \<le> n \<and> (rd_get R d k \<noteq> None \<longrightarrow> 0 < n)"
    and get_sadd: "k' \<noteq> k \<Longrightarrow> rd_get R (rd_sadd R k v d) k' = rd_get R d k'"
    and get_srem: "k' \<noteq> k \<Longrightarrow> rd_srem R k v d = (n, d') \<Longrightarrow> rd_get R d' k' = rd_get R d k'"
    and get_rpush: "k' \<noteq> k \<Longrightarrow> rd_get R (rd_rpush R k v d) k' = rd_get R d k'"
    and get_expire: "rd_get R (rd_expire R k t d) = rd_get R d"
    and lrange_expire: "rd_lrange R (rd_expire R k t d) = rd_lrange R d"
    and lrange_del: "rd_del R ks d = (n, d') \<Longrightarrow> k' \<notin> set ks \<Longrightarrow> rd_lrange R d' k' = rd_lrange R d k'"
    and lrange_set: "k' \<noteq> k \<Longrightarrow> rd_lrange R (rd_set R k v d) k' = rd_lrange R d k'"

section \<open>A database in memory\<close>

record mem_redis =
  mr_strings :: "string js_map"
  mr_sets :: "string list js_map"
  mr_lists :: "string list js_map"

definition mr_empty :: mem_redis where
  "mr_empty = \<lparr>mr_strings = [], mr_sets = [], mr_lists = []\<rparr>"

definition mr_list :: "string list js_map \<Rightarrow> string \<Rightarrow> string list" where
  "mr_list m k = default [] (map_get m k)"

definition mr_put :: "string \<Rightarrow> string \<Rightarrow> mem_redis \<Rightarrow> mem_redis" where
  "mr_put k v d = d\<lparr>mr_strings := map_set k v (mr_strings d)\<rparr>"

definition mr_drop :: "string list \<Rightarrow> mem_redis \<Rightarrow> mem_redis" where
  "mr_drop ks d = d\<lparr>mr_strings := fold map_delete ks (mr_strings d), mr_sets := fold map_delete ks (mr_sets d),
     mr_lists := fold map_delete ks (mr_lists d)\<rparr>"

definition mr_ops :: "mem_redis redis" where
  "mr_ops =
     \<lparr>rd_get = (\<lambda>d. map_of (mr_strings d)), rd_set = mr_put, rd_setEx = (\<lambda>k v t. mr_put k v),
      rd_setNx = (\<lambda>k v t d. if map_has (mr_strings d) k then (False, d) else (True, mr_put k v d)),
      rd_setXx = (\<lambda>k v t d. if map_has (mr_strings d) k then (True, mr_put k v d) else (False, d)),
      rd_del = (\<lambda>ks d. (int (length (filter (\<lambda>k. map_has (mr_strings d) k \<or> map_has (mr_sets d) k \<or> map_has (mr_lists d) k) ks)), mr_drop ks d)),
      rd_keys = (\<lambda>d p. filter (prefix p) (remdups (map fst (mr_strings d)))),
      rd_smembers = (\<lambda>d. mr_list (mr_sets d)),
      rd_sadd = (\<lambda>k v d. d\<lparr>mr_sets := map_set k (set_add v (mr_list (mr_sets d) k)) (mr_sets d)\<rparr>),
      rd_srem = (\<lambda>k v d. (if v \<in> set (mr_list (mr_sets d) k) then 1 else 0,
         d\<lparr>mr_sets := map_set k (set_delete v (mr_list (mr_sets d) k)) (mr_sets d)\<rparr>)),
      rd_lrange = (\<lambda>d. mr_list (mr_lists d)),
      rd_rpush = (\<lambda>k v d. d\<lparr>mr_lists := map_set k (mr_list (mr_lists d) k @ [v]) (mr_lists d)\<rparr>),
      rd_ltrim = (\<lambda>k n d. d\<lparr>mr_lists := map_set k (drop n (mr_list (mr_lists d) k)) (mr_lists d)\<rparr>),
      rd_expire = (\<lambda>k t d. d),
      rd_setKeys = (\<lambda>d p. filter (\<lambda>k. prefix p k \<and> mr_list (mr_sets d) k \<noteq> []) (remdups (map fst (mr_sets d))))\<rparr>"

lemma map_of_delete_all: "map_of (fold map_delete ks m) = (map_of m) |` (- set ks)"
proof (induction ks arbitrary: m)
  case (Cons k ks)
  then show ?case by (auto simp: delete_conv' restrict_map_def fun_eq_iff)
qed (simp add: restrict_map_def)

interpretation mr: redis_db mr_ops
proof
  show "rd_get mr_ops (rd_set mr_ops k v d) = (rd_get mr_ops d)(k \<mapsto> v)" for k v d
    by (simp add: mr_ops_def mr_put_def update_conv')
  show "rd_get mr_ops (rd_setEx mr_ops k v t d) = (rd_get mr_ops d)(k \<mapsto> v)" for k v t d
    by (simp add: mr_ops_def mr_put_def update_conv')
  show "b = (rd_get mr_ops d k = None) \<and> rd_get mr_ops d' = (if b then (rd_get mr_ops d)(k \<mapsto> v) else rd_get mr_ops d)"
    if "rd_setNx mr_ops k v t1 d = (b, d')" for k v t1 d b d'
    using that by (auto simp: mr_ops_def mr_put_def update_conv' map_has_def split: if_splits)
  show "b = (rd_get mr_ops d k \<noteq> None) \<and> rd_get mr_ops d' = (if b then (rd_get mr_ops d)(k \<mapsto> v) else rd_get mr_ops d)"
    if "rd_setXx mr_ops k v t d = (b, d')" for k v t d b d'
    using that by (auto simp: mr_ops_def mr_put_def update_conv' map_has_def split: if_splits)
  show "rd_get mr_ops d' = (rd_get mr_ops d) |` (- set ks)" if "rd_del mr_ops ks d = (n, d')" for ks d n d'
    using that by (auto simp: mr_ops_def mr_drop_def map_of_delete_all)
  show "set (rd_keys mr_ops d p) = {k. prefix p k \<and> rd_get mr_ops d k \<noteq> None}" for d p
    by (auto simp: mr_ops_def map_of_eq_None_iff)
  show "rd_lrange mr_ops (rd_rpush mr_ops k v d) = (rd_lrange mr_ops d)(k := rd_lrange mr_ops d k @ [v])" for k v d
    by (auto simp: mr_ops_def mr_list_def update_conv' fun_eq_iff)
  show "rd_lrange mr_ops (rd_ltrim mr_ops k n d) = (rd_lrange mr_ops d)(k := drop n (rd_lrange mr_ops d k))" for k n d
    by (auto simp: mr_ops_def mr_list_def update_conv' fun_eq_iff)
  show "set (rd_smembers mr_ops (rd_sadd mr_ops k v d) k') = set (rd_smembers mr_ops d k') \<union> (if k' = k then {v} else {})" for k v d k'
    by (auto simp: mr_ops_def mr_list_def update_conv')
  show "set (rd_smembers mr_ops d' k') = set (rd_smembers mr_ops d k') - (if k' = k then {v} else {})
      \<and> (0 < n \<longleftrightarrow> v \<in> set (rd_smembers mr_ops d k))" if "rd_srem mr_ops k v d = (n, d')" for k v d n d' k'
    using that by (auto simp: mr_ops_def mr_list_def update_conv' split: if_splits)
qed

interpretation mr: redis_frames mr_ops
proof unfold_locales
  show "set (rd_setKeys mr_ops d p) = {k. prefix p k \<and> rd_smembers mr_ops d k \<noteq> []}" for d p
  proof -
    have "mr_list (mr_sets d) k \<noteq> [] \<Longrightarrow> k \<in> fst ` set (mr_sets d)" for k
      by (cases "map_of (mr_sets d) k") (auto simp: mr_list_def map_of_eq_None_iff weak_map_of_SomeI dest: map_of_SomeD intro: rev_image_eqI)
    then show ?thesis by (auto simp: mr_ops_def)
  qed
  show "rd_smembers mr_ops d' k' = (if k' \<in> set ks then [] else rd_smembers mr_ops d k')" if "rd_del mr_ops ks d = (n, d')" for ks d n d' k'
    using that by (auto simp: mr_ops_def mr_drop_def mr_list_def map_of_delete_all)
  show "rd_lrange mr_ops d' k' = rd_lrange mr_ops d k'" if "rd_del mr_ops ks d = (n, d')" "k' \<notin> set ks" for ks d n d' k'
    using that by (auto simp: mr_ops_def mr_drop_def mr_list_def map_of_delete_all)
qed (auto simp: mr_ops_def mr_put_def mr_list_def map_has_def split: if_splits)

section \<open>JSON values in Redis\<close>

text \<open>\<^verbatim>\<open>getJson\<close>: \<open>Inl\<close> when the text under the key does not parse; the empty string reads as absent.\<close>

definition getJson :: "host \<Rightarrow> 'd redis \<Rightarrow> 'd \<Rightarrow> string \<Rightarrow> string + js option" where
  "getJson H R d key =
     (case truthy (rd_get R d key) of
        None \<Rightarrow> Inr None
      | Some raw \<Rightarrow> (case host_parse H raw of None \<Rightarrow> Inl ''SyntaxError'' | Some v \<Rightarrow> Inr (Some v)))"

text \<open>A field of a record the program wrote itself; a field of another type reads as empty.\<close>

definition js_text :: "js \<Rightarrow> string" where
  "js_text v = (case v of JStr s \<Rightarrow> s | _ \<Rightarrow> [])"

definition js_number :: "js \<Rightarrow> int" where
  "js_number v = (case v of JNum n \<Rightarrow> n | _ \<Rightarrow> 0)"

text \<open>\<^verbatim>\<open>mget\<close> of the scanned keys, and the JSON of those that are still there.\<close>

fun parse_all :: "host \<Rightarrow> string option list \<Rightarrow> string + js list" where
  "parse_all H [] = Inr []"
| "parse_all H (raw # raws) =
     (case truthy raw of
        None \<Rightarrow> parse_all H raws
      | Some t \<Rightarrow>
         (case host_parse H t of
            None \<Rightarrow> Inl ''SyntaxError''
          | Some v \<Rightarrow> (case parse_all H raws of Inl e \<Rightarrow> Inl e | Inr vs \<Rightarrow> Inr (v # vs))))"

definition scan_json :: "host \<Rightarrow> 'd redis \<Rightarrow> 'd \<Rightarrow> string \<Rightarrow> string + js list" where
  "scan_json H R d p = parse_all H (map (rd_get R d) (rd_keys R d p))"

lemma truthy_json_text: "is_json v \<Longrightarrow> truthy (Some (json_text v)) = Some (json_text v)"
  using json_text_head [of v] by (simp add: truthy_Some)

lemma getJson_text:
  assumes "host_env H" and "is_json v" and "rd_get R d k = Some (json_text v)"
  shows "getJson H R d k = Inr (Some v)"
  using json_codec.parse_text [OF host_env.axioms(1) [OF assms(1)] assms(2)] truthy_json_text [OF assms(2)] assms(3)
  by (simp add: getJson_def)

end
