(* ===== verification/GatewayRegistry.thy ===== *)
theory GatewayRegistry
  imports Redis
begin

text \<open>
  Which URL serves an API kind (\<^verbatim>\<open>orchestration/api-gateway/src/registry.mts\<close>): the registrations a
  gateway is built with, and those an operator keeps in Redis, which come first.

  \<open>protocol\<close> stands for \<^verbatim>\<open>new URL(u).protocol\<close>: the protocol of a URL, or the message of the error
  the constructor throws.
\<close>

section \<open>Names and registrations\<close>

definition is_lower :: "char \<Rightarrow> bool" where
  "is_lower c \<longleftrightarrow> 97 \<le> byte c \<and> byte c \<le> 122"

definition is_lower_alnum :: "char \<Rightarrow> bool" where
  "is_lower_alnum c \<longleftrightarrow> is_lower c \<or> is_digit c"

text \<open>A name cut at the characters \<^verbatim>\<open>.\<close>, \<^verbatim>\<open>_\<close> and \<^verbatim>\<open>-\<close>: the first segment, and each separator with the segment after it.\<close>

fun kind_segments :: "string \<Rightarrow> string \<times> (char \<times> string) list" where
  "kind_segments [] = ([], [])"
| "kind_segments (c # s) =
     (let (x, r) = kind_segments s in if c \<in> set ''._-'' then ([], (c, x) # r) else (c # x, r))"

text \<open>\<^verbatim>\<open>/^[a-z][a-z0-9]*(?:[._-][a-z0-9]+)*\.v[0-9]+$/\<close>\<close>

definition isApiKindName :: "string \<Rightarrow> bool" where
  "isApiKindName s =
     (let (x, r) = kind_segments s in
      x \<noteq> [] \<and> is_lower (hd x) \<and> list_all is_lower_alnum x
      \<and> r \<noteq> [] \<and> list_all (\<lambda>(c, y). y \<noteq> [] \<and> list_all is_lower_alnum y) r
      \<and> fst (last r) = CHR ''.''
      \<and> hd (snd (last r)) = CHR ''v'' \<and> tl (snd (last r)) \<noteq> [] \<and> list_all is_digit (tl (snd (last r))))"

definition assertApiKindRegistration :: "(string \<Rightarrow> string + string) \<Rightarrow> ApiKindRegistration \<Rightarrow> string + unit" where
  "assertApiKindRegistration protocol r =
     (if \<not> isApiKindName (ak_kindName r) then Inl (''invalid API kind name: '' @ ak_kindName r)
      else
       let fail = (\<lambda>m. Inl (''invalid URL for API kind '' @ ak_kindName r @ '': '' @ m))
       in case protocol (ak_url r) of
            Inl m \<Rightarrow> fail m
          | Inr p \<Rightarrow> if p \<noteq> ''http:'' \<and> p \<noteq> ''https:'' then fail ''URL must be http or https'' else Inr ())"

definition registration_js :: "ApiKindRegistration \<Rightarrow> js" where
  "registration_js r = JObj ([(''kindName'', JStr (ak_kindName r)), (''url'', JStr (ak_url r))]
     @ (case ak_registeredAt r of None \<Rightarrow> [] | Some t \<Rightarrow> [(''registeredAt'', JNum t)]))"

definition kind_of_js :: "js \<Rightarrow> ApiKindRegistration" where
  "kind_of_js v = \<lparr>ak_kindName = (case js_get v ''kindName'' of JStr s \<Rightarrow> s | _ \<Rightarrow> []),
     ak_url = (case js_get v ''url'' of JStr s \<Rightarrow> s | _ \<Rightarrow> []), ak_registeredAt = js_int (js_get v ''registeredAt'')\<rparr>"

section \<open>In memory\<close>

type_synonym InMemoryApiKindRegistry = "string js_map"

fun memory_registry ::
  "(string \<Rightarrow> string + string) \<Rightarrow> ApiKindRegistration list \<Rightarrow> InMemoryApiKindRegistry \<Rightarrow> string + InMemoryApiKindRegistry" where
  "memory_registry protocol [] m = Inr m"
| "memory_registry protocol (r # rs) m =
     (case assertApiKindRegistration protocol r of
        Inl e \<Rightarrow> Inl e
      | Inr u \<Rightarrow> memory_registry protocol rs (map_set (ak_kindName r) (ak_url r) m))"

definition memory_get :: "InMemoryApiKindRegistry \<Rightarrow> string \<Rightarrow> string option" where
  "memory_get m k = map_get m k"

definition memory_list :: "host \<Rightarrow> InMemoryApiKindRegistry \<Rightarrow> ApiKindRegistration list" where
  "memory_list H m =
     map (\<lambda>(k, u). \<lparr>ak_kindName = k, ak_url = u, ak_registeredAt = None\<rparr>)
       (sort_by (\<lambda>a b. host_localeLe H (fst a) (fst b)) m)"

definition memory_set ::
  "(string \<Rightarrow> string + string) \<Rightarrow> ApiKindRegistration \<Rightarrow> InMemoryApiKindRegistry \<Rightarrow> (string + unit) \<times> InMemoryApiKindRegistry" where
  "memory_set protocol r m =
     (case assertApiKindRegistration protocol r of
        Inl e \<Rightarrow> (Inl e, m) | Inr u \<Rightarrow> (Inr (), map_set (ak_kindName r) (ak_url r) m))"

definition memory_delete :: "string \<Rightarrow> InMemoryApiKindRegistry \<Rightarrow> bool \<times> InMemoryApiKindRegistry" where
  "memory_delete k m = (map_has m k, map_delete k m)"

section \<open>In Redis, in front of the registrations in memory\<close>

definition kind_key :: "string \<Rightarrow> string" where
  "kind_key k = API_KIND_KEY_PREFIX @ k"

definition registry_get :: "host \<Rightarrow> 'd redis \<Rightarrow> InMemoryApiKindRegistry \<Rightarrow> 'd \<Rightarrow> string \<Rightarrow> string + string option" where
  "registry_get H R fallback d k =
     (case getJson H R d (kind_key k) of
        Inl e \<Rightarrow> Inl e
      | Inr (Some v) \<Rightarrow> Inr (Some (ak_url (kind_of_js v)))
      | Inr None \<Rightarrow> Inr (memory_get fallback k))"

definition registry_list :: "host \<Rightarrow> 'd redis \<Rightarrow> InMemoryApiKindRegistry \<Rightarrow> 'd \<Rightarrow> string + ApiKindRegistration list" where
  "registry_list H R fallback d =
     (case scan_json H R d API_KIND_KEY_PREFIX of
        Inl e \<Rightarrow> Inl e
      | Inr vs \<Rightarrow>
         let merged = fold (\<lambda>r. map_set (ak_kindName r) r) (memory_list H fallback @ map kind_of_js vs) []
         in Inr (sort_by (\<lambda>a b. host_localeLe H (ak_kindName a) (ak_kindName b)) (map snd merged)))"

definition registry_set ::
  "(string \<Rightarrow> string + string) \<Rightarrow> 'd redis \<Rightarrow> int \<Rightarrow> ApiKindRegistration \<Rightarrow> 'd \<Rightarrow> (string + unit) \<times> 'd" where
  "registry_set protocol R now r d =
     (case assertApiKindRegistration protocol r of
        Inl e \<Rightarrow> (Inl e, d)
      | Inr u \<Rightarrow>
         (Inr (), rd_set R (kind_key (ak_kindName r))
            (json_text (registration_js (r\<lparr>ak_registeredAt := Some (default now (ak_registeredAt r))\<rparr>))) d))"

definition registry_delete :: "'d redis \<Rightarrow> string \<Rightarrow> 'd \<Rightarrow> bool \<times> 'd" where
  "registry_delete R k d = (let (n, d') = rd_del R [kind_key k] d in (n > 0, d'))"

section \<open>Configuration\<close>

text \<open>\<^verbatim>\<open>String(x)\<close> of a JSON value.\<close>

fun js_String :: "js \<Rightarrow> string" where
  "js_String (JStr s) = s"
| "js_String (JNum n) = dec_int n"
| "js_String (JBool b) = (if b then ''true'' else ''false'')"
| "js_String JNull = ''null''"
| "js_String JUndef = ''undefined''"
| "js_String (JBig n) = dec_int n"
| "js_String (JArr xs) = join '','' (map (\<lambda>x. if x = JUndef \<or> x = JNull then [] else js_String x) xs)"
| "js_String (JObj fs) = ''[object Object]''"

definition text_or_empty :: "js \<Rightarrow> string" where
  "text_or_empty v = (if v = JUndef \<or> v = JNull then [] else js_String v)"

fun parse_entries :: "(string \<Rightarrow> string + string) \<Rightarrow> js list \<Rightarrow> string + ApiKindRegistration list" where
  "parse_entries protocol [] = Inr []"
| "parse_entries protocol (v # vs) =
     (case v of
        JObj fs \<Rightarrow>
          let r = \<lparr>ak_kindName = text_or_empty (js_get v ''kindName''), ak_url = text_or_empty (js_get v ''url''),
                   ak_registeredAt = None\<rparr>
          in (case assertApiKindRegistration protocol r of
                Inl e \<Rightarrow> Inl e
              | Inr u \<Rightarrow> (case parse_entries protocol vs of Inl e \<Rightarrow> Inl e | Inr rs \<Rightarrow> Inr (r # rs)))
      | JArr xs \<Rightarrow> Inl ''invalid API kind name: ''
      | _ \<Rightarrow> Inl ''PAX_API_KIND_REGISTRY entry must be an object'')"

fun parse_map :: "(string \<Rightarrow> string + string) \<Rightarrow> (string \<times> js) list \<Rightarrow> string + ApiKindRegistration list" where
  "parse_map protocol [] = Inr []"
| "parse_map protocol ((k, v) # fs) =
     (let r = \<lparr>ak_kindName = k, ak_url = js_String v, ak_registeredAt = None\<rparr>
      in case assertApiKindRegistration protocol r of
           Inl e \<Rightarrow> Inl e
         | Inr u \<Rightarrow> (case parse_map protocol fs of Inl e \<Rightarrow> Inl e | Inr rs \<Rightarrow> Inr (r # rs)))"

definition parseRegistryConfig :: "(string \<Rightarrow> string + string) \<Rightarrow> js \<Rightarrow> string + ApiKindRegistration list" where
  "parseRegistryConfig protocol raw =
     (case raw of
        JArr vs \<Rightarrow> parse_entries protocol vs
      | JObj fs \<Rightarrow> parse_map protocol fs
      | _ \<Rightarrow> Inl ''PAX_API_KIND_REGISTRY must be an object map or array'')"

section \<open>What is listed is what is served\<close>

lemma registration_js_json [simp]: "is_json (registration_js r)"
  by (simp add: registration_js_def split: option.splits)

lemma kind_of_kind_js [simp]: "kind_of_js (registration_js r) = r"
  by (simp add: kind_of_js_def registration_js_def split: option.splits)

lemma registration_js_inject [simp]: "registration_js r = registration_js r' \<longleftrightarrow> r = r'"
  by (metis kind_of_kind_js)

lemma kind_key_inject [simp]: "kind_key k = kind_key k' \<longleftrightarrow> k = k'"
  by (simp add: kind_key_def)

text \<open>Under each key of a kind there is a registration of that kind.\<close>

definition registry_ok :: "'d redis \<Rightarrow> 'd \<Rightarrow> bool" where
  "registry_ok R d \<longleftrightarrow> (\<forall>k raw. rd_get R d (kind_key k) = Some raw \<longrightarrow> (\<exists>r. ak_kindName r = k \<and> raw = json_text (registration_js r)))"

lemma find_append: "find P (xs @ ys) = (case find P xs of None \<Rightarrow> find P ys | Some x \<Rightarrow> Some x)"
  by (induction xs) auto

lemma find_in_set: "find P xs = Some x \<Longrightarrow> x \<in> set xs \<and> P x"
  by (auto simp: find_Some_iff)

lemma map_of_fold_set:
  "map_of (fold (\<lambda>r. map_set (f r) r) rs m) k =
     (case find (\<lambda>r. f r = k) (rev rs) of None \<Rightarrow> map_of m k | Some r \<Rightarrow> Some r)"
  by (induction rs arbitrary: m) (auto simp: find_append update_conv' split: option.splits)

lemma fold_set_keys:
  "\<forall>(k, r) \<in> set m. f r = k \<Longrightarrow> \<forall>(k, r) \<in> set (fold (\<lambda>r. map_set (f r) r) rs m). f r = k"
proof (induction rs arbitrary: m)
  case (Cons x rs)
  have "\<forall>(k, r) \<in> set (map_set (f x) x m). f r = k"
    using Cons.prems by (induction m) (auto split: if_splits)
  from Cons.IH [OF this] show ?case by simp
qed simp

lemma fold_set_wf: "map_wf m \<Longrightarrow> map_wf (fold (\<lambda>r. map_set (f r) r) rs m)"
  by (induction rs arbitrary: m) (simp_all add: distinct_update)

lemma values_by_name:
  assumes "map_wf m" and "\<forall>(k, r) \<in> set m. f r = k"
  shows "r \<in> snd ` set m \<longleftrightarrow> map_of m (f r) = Some r"
proof
  assume "r \<in> snd ` set m"
  then obtain k where k: "(k, r) \<in> set m" by auto
  then have "f r = k" using assms(2) by auto
  then show "map_of m (f r) = Some r" using k assms(1) by simp
qed (force dest: map_of_SomeD)

context redis_db
begin

lemma parse_all_texts:
  assumes "host_env H" and "\<forall>k \<in> set ks. \<exists>v. rd_get R d k = Some (json_text v) \<and> is_json v"
  shows "\<exists>vs. parse_all H (map (rd_get R d) ks) = Inr vs
    \<and> list_all2 (\<lambda>k v. rd_get R d k = Some (json_text v) \<and> is_json v) ks vs"
  using assms(2)
proof (induction ks)
  case (Cons k ks)
  then obtain v vs where v: "rd_get R d k = Some (json_text v)" "is_json v"
    and vs: "parse_all H (map (rd_get R d) ks) = Inr vs"
      "list_all2 (\<lambda>k v. rd_get R d k = Some (json_text v) \<and> is_json v) ks vs" by auto
  have "parse_all H (map (rd_get R d) (k # ks)) = Inr (v # vs)"
    using v vs(1) truthy_json_text [OF v(2)] json_codec.parse_text [OF host_env.axioms(1) [OF assms(1)] v(2)] by simp
  then show ?case using v vs(2) by auto
qed simp

lemma scan_kinds:
  assumes "host_env H" and ok: "registry_ok R d"
  obtains vs where "scan_json H R d API_KIND_KEY_PREFIX = Inr vs"
    "\<And>r. r \<in> kind_of_js ` set vs \<longleftrightarrow> rd_get R d (kind_key (ak_kindName r)) = Some (json_text (registration_js r))"
proof -
  let ?ks = "rd_keys R d API_KIND_KEY_PREFIX"
  have key: "\<exists>r. k = kind_key (ak_kindName r) \<and> rd_get R d k = Some (json_text (registration_js r))" if "k \<in> set ?ks" for k
  proof -
    have "prefix API_KIND_KEY_PREFIX k" "rd_get R d k \<noteq> None" using that keys by auto
    then obtain n raw where "k = kind_key n" "rd_get R d k = Some raw"
      unfolding kind_key_def by (metis prefixE option.exhaust)
    then show ?thesis using ok by (auto simp: registry_ok_def)
  qed
  then have "\<forall>k \<in> set ?ks. \<exists>v. rd_get R d k = Some (json_text v) \<and> is_json v" by (metis registration_js_json)
  from parse_all_texts [OF assms(1) this] obtain vs where vs: "scan_json H R d API_KIND_KEY_PREFIX = Inr vs"
    and l: "list_all2 (\<lambda>k v. rd_get R d k = Some (json_text v) \<and> is_json v) ?ks vs" by (auto simp: scan_json_def)
  have inj: "v = w" if "is_json v" "is_json w" "json_text v = json_text w" for v w
    using that json_codec.json_text_inject [OF host_env.axioms(1) [OF assms(1)]] by blast
  have "r \<in> kind_of_js ` set vs \<longleftrightarrow> rd_get R d (kind_key (ak_kindName r)) = Some (json_text (registration_js r))" for r
  proof
    assume "r \<in> kind_of_js ` set vs"
    then obtain i where i: "i < length vs" "r = kind_of_js (vs ! i)" by (auto simp: in_set_conv_nth)
    then have k: "rd_get R d (?ks ! i) = Some (json_text (vs ! i))" "is_json (vs ! i)" "?ks ! i \<in> set ?ks"
      using l by (auto simp: list_all2_conv_all_nth)
    then obtain r' where r': "?ks ! i = kind_key (ak_kindName r')" "json_text (vs ! i) = json_text (registration_js r')"
      using key by fastforce
    then have "vs ! i = registration_js r'" using inj k(2) by simp
    then show "rd_get R d (kind_key (ak_kindName r)) = Some (json_text (registration_js r))" using k(1) r' i(2) by simp
  next
    assume g: "rd_get R d (kind_key (ak_kindName r)) = Some (json_text (registration_js r))"
    then have "kind_key (ak_kindName r) \<in> set ?ks" unfolding keys by (simp add: kind_key_def)
    then obtain i where "i < length ?ks" "?ks ! i = kind_key (ak_kindName r)" by (auto simp: in_set_conv_nth)
    then have "i < length vs" "json_text (vs ! i) = json_text (registration_js r)" "is_json (vs ! i)"
      using l g by (auto simp: list_all2_conv_all_nth)
    then have "vs ! i = registration_js r" "vs ! i \<in> set vs" using inj by auto
    then show "r \<in> kind_of_js ` set vs" by (metis kind_of_kind_js imageI)
  qed
  then show ?thesis using that vs by blast
qed

lemma list_agrees:
  assumes H: "host_env H" and ok: "registry_ok R d" and wf: "map_wf fallback"
  shows "\<exists>rs. registry_list H R fallback d = Inr rs \<and> distinct (map ak_kindName rs)
    \<and> (\<forall>k u. registry_get H R fallback d k = Inr (Some u) \<longleftrightarrow> (\<exists>r \<in> set rs. ak_kindName r = k \<and> ak_url r = u))"
proof -
  obtain vs where vs: "scan_json H R d API_KIND_KEY_PREFIX = Inr vs"
    "\<And>r. r \<in> kind_of_js ` set vs \<longleftrightarrow> rd_get R d (kind_key (ak_kindName r)) = Some (json_text (registration_js r))"
    by (rule scan_kinds [OF H ok]) blast
  let ?m = "fold (\<lambda>r. map_set (ak_kindName r) r) (memory_list H fallback @ map kind_of_js vs) []"
  have wfm: "map_wf ?m" by (rule fold_set_wf) simp
  have names: "\<forall>(k, r) \<in> set ?m. ak_kindName r = k" by (rule fold_set_keys) simp
  define rs where "rs = sort_by (\<lambda>a b. host_localeLe H (ak_kindName a) (ak_kindName b)) (map snd ?m)"
  have l: "registry_list H R fallback d = Inr rs" by (simp add: registry_list_def vs(1) rs_def)
  have "map ak_kindName (map snd ?m) = map fst ?m" using names by (auto simp: map_eq_conv)
  then have "distinct (map ak_kindName (map snd ?m))" using wfm by (rule ssubst)
  then have d: "distinct (map ak_kindName rs)" unfolding rs_def by (rule distinct_map_sort_by)
  have mem: "r \<in> set rs \<longleftrightarrow> map_of ?m (ak_kindName r) = Some r" for r
    unfolding rs_def set_sort_by set_map by (rule values_by_name [OF wfm names])
  have "(\<exists>r \<in> set rs. ak_kindName r = k \<and> ak_url r = u) \<longleftrightarrow> registry_get H R fallback d k = Inr (Some u)" for k u
  proof -
    have iff: "(\<exists>r \<in> set rs. ak_kindName r = k \<and> ak_url r = u) \<longleftrightarrow> (\<exists>r. map_of ?m k = Some r \<and> ak_url r = u)"
    proof
      assume "\<exists>r. map_of ?m k = Some r \<and> ak_url r = u"
      then obtain r where r: "map_of ?m k = Some r" "ak_url r = u" by blast
      then have "ak_kindName r = k" using names map_of_SomeD by fastforce
      then show "\<exists>r \<in> set rs. ak_kindName r = k \<and> ak_url r = u" using r mem by blast
    qed (use mem in blast)
    show ?thesis
    proof (cases "rd_get R d (kind_key k)")
      case (Some raw)
      then obtain r where r: "ak_kindName r = k" "raw = json_text (registration_js r)" using ok by (auto simp: registry_ok_def)
      have in_vs: "r' \<in> kind_of_js ` set vs \<longleftrightarrow> r' = r" if "ak_kindName r' = k" for r'
      proof -
        have "r' \<in> kind_of_js ` set vs \<longleftrightarrow> json_text (registration_js r) = json_text (registration_js r')"
          unfolding vs(2) that using Some r(2) by simp
        also have "\<dots> \<longleftrightarrow> r' = r"
          using json_codec.json_text_inject [OF host_env.axioms(1) [OF H], of "registration_js r" "registration_js r'"] by auto
        finally show ?thesis .
      qed
      have "find (\<lambda>r. ak_kindName r = k) (rev (map kind_of_js vs)) = Some r"
      proof (cases "find (\<lambda>r. ak_kindName r = k) (rev (map kind_of_js vs))")
        case None
        then show ?thesis using in_vs [OF r(1)] r(1) by (auto simp: find_None_iff)
      next
        case (Some r')
        then have "r' \<in> kind_of_js ` set vs" "ak_kindName r' = k" by (auto dest!: find_in_set)
        then show ?thesis using in_vs Some by simp
      qed
      then have "map_of ?m k = Some r" by (simp add: map_of_fold_set find_append)
      moreover have "registry_get H R fallback d k = Inr (Some (ak_url r))"
        using getJson_text [OF H _ Some [unfolded r(2)]] by (simp add: registry_get_def)
      ultimately show ?thesis unfolding iff by auto
    next
      case None
      have "find (\<lambda>r. ak_kindName r = k) (rev (map kind_of_js vs)) = None"
        using vs(2) None by (fastforce simp: find_None_iff)
      then have "map_of ?m k = find (\<lambda>r. ak_kindName r = k) (rev (memory_list H fallback))"
        by (simp add: map_of_fold_set find_append split: option.splits)
      also have "\<dots> = map_option (\<lambda>u. \<lparr>ak_kindName = k, ak_url = u, ak_registeredAt = None\<rparr>) (map_of fallback k)"
      proof (cases "find (\<lambda>r. ak_kindName r = k) (rev (memory_list H fallback))")
        case None
        then have "map_of fallback k = None" by (force simp: find_None_iff memory_list_def map_of_eq_None_iff)
        then show ?thesis using None by simp
      next
        case (Some r)
        then have "r \<in> set (memory_list H fallback)" "ak_kindName r = k" by (auto dest!: find_in_set)
        then obtain u where "(k, u) \<in> set fallback" "r = \<lparr>ak_kindName = k, ak_url = u, ak_registeredAt = None\<rparr>"
          by (auto simp: memory_list_def)
        then show ?thesis using Some wf by simp
      qed
      finally show ?thesis unfolding iff using None by (auto simp: registry_get_def getJson_def memory_get_def)
    qed
  qed
  then show ?thesis using l d by blast
qed

lemma registry_set_ok:
  assumes "registry_set protocol R now r d = (x, d')" and "registry_ok R d"
  shows "registry_ok R d'"
proof (cases "assertApiKindRegistration protocol r")
  case (Inr u)
  let ?r = "r\<lparr>ak_registeredAt := Some (default now (ak_registeredAt r))\<rparr>"
  have d': "rd_get R d' = (rd_get R d)(kind_key (ak_kindName r) \<mapsto> json_text (registration_js ?r))"
    using assms(1) Inr by (auto simp: registry_set_def get_set)
  then show ?thesis using assms(2) unfolding registry_ok_def d' by (auto intro: exI [of _ ?r])
qed (use assms in \<open>auto simp: registry_set_def\<close>)

end

end
