(* ===== verification/RunnerFrames.thy ===== *)
theory RunnerFrames
  imports GatewayRegistry
begin

text \<open>
  The messages between a Broker and a runner process as they are on the channel, and the helpers
  of \<^verbatim>\<open>runtime/runner/src/child-process.mts\<close> that build and recognise them. A message is a JSON
  value; an error is its text, so \<^verbatim>\<open>coerceError\<close> and \<^verbatim>\<open>errorText\<close> are identities.
\<close>

record frame =
  fr_type :: string
  fr_gameId :: "string option"
  fr_payload :: js
  fr_requestId :: "string option"
  fr_traceId :: "string option"
  fr_timeoutMs :: "int option"

definition str_field :: "string \<Rightarrow> string option \<Rightarrow> js js_map" where
  "str_field k v = (case v of None \<Rightarrow> [] | Some s \<Rightarrow> [(k, JStr s)])"

definition num_field :: "string \<Rightarrow> int option \<Rightarrow> js js_map" where
  "num_field k v = (case v of None \<Rightarrow> [] | Some n \<Rightarrow> [(k, JNum n)])"

definition frame_js :: "frame \<Rightarrow> js" where
  "frame_js f =
     JObj ([(''version'', JNum RUNTIME_CONTRACT_VERSION), (''type'', JStr (fr_type f))]
       @ str_field ''gameId'' (fr_gameId f) @ [(''payload'', fr_payload f)]
       @ str_field ''requestId'' (fr_requestId f) @ str_field ''traceId'' (fr_traceId f)
       @ num_field ''timeoutMs'' (fr_timeoutMs f))"

definition bridge_frame :: "string \<Rightarrow> string \<Rightarrow> js \<Rightarrow> string option \<Rightarrow> frame" where
  "bridge_frame gameId type payload requestId =
     \<lparr>fr_type = type, fr_gameId = Some gameId, fr_payload = payload, fr_requestId = requestId, fr_traceId = None,
      fr_timeoutMs = None\<rparr>"

definition control_frame :: "string \<Rightarrow> js \<Rightarrow> frame" where
  "control_frame type payload =
     \<lparr>fr_type = type, fr_gameId = None, fr_payload = payload, fr_requestId = None, fr_traceId = None, fr_timeoutMs = None\<rparr>"

text \<open>What a receiver reads from a message that has passed its check.\<close>

definition frame_of :: "js \<Rightarrow> frame" where
  "frame_of v =
     \<lparr>fr_type = js_text (js_get v ''type''), fr_gameId = js_string (js_get v ''gameId''), fr_payload = js_get v ''payload'',
      fr_requestId = js_string (js_get v ''requestId''), fr_traceId = js_string (js_get v ''traceId''),
      fr_timeoutMs = js_int (js_get v ''timeoutMs'')\<rparr>"

fun js_in :: "string \<Rightarrow> js \<Rightarrow> bool" where
  "js_in k (JObj fs) = map_has fs k"
| "js_in k v = False"

definition isObject :: "js \<Rightarrow> bool" where
  "isObject v = (case v of JObj fs \<Rightarrow> True | JArr xs \<Rightarrow> True | _ \<Rightarrow> False)"

definition is_text :: "js \<Rightarrow> bool" where
  "is_text v \<longleftrightarrow> js_string v \<noteq> None"

definition isBrokerToRunnerEnvelope :: "js \<Rightarrow> bool" where
  "isBrokerToRunnerEnvelope v \<longleftrightarrow>
     isObject v \<and> js_get v ''version'' = JNum RUNTIME_CONTRACT_VERSION \<and> is_text (js_get v ''type'')
     \<and> is_text (js_get v ''gameId'') \<and> js_in ''payload'' v"

definition isRunnerToBrokerEnvelope :: "js \<Rightarrow> bool" where
  "isRunnerToBrokerEnvelope v =
     (if \<not> isObject v \<or> js_get v ''version'' \<noteq> JNum RUNTIME_CONTRACT_VERSION \<or> \<not> is_text (js_get v ''type'') then False
      else if js_get v ''type'' \<in> {JStr ''runner.ready'', JStr ''runner.unknownMessage''} then js_in ''payload'' v
      else is_text (js_get v ''gameId'') \<and> js_in ''payload'' v)"

fun js_typeof :: "js \<Rightarrow> string" where
  "js_typeof JUndef = ''undefined''"
| "js_typeof (JBool b) = ''boolean''"
| "js_typeof (JNum n) = ''number''"
| "js_typeof (JBig n) = ''bigint''"
| "js_typeof (JStr s) = ''string''"
| "js_typeof v = ''object''"

definition messageType :: "js \<Rightarrow> string" where
  "messageType v = (case js_string (js_get v ''type'') of Some t \<Rightarrow> t | None \<Rightarrow> js_typeof v)"

definition safeDetail :: "host \<Rightarrow> js \<Rightarrow> js" where
  "safeDetail H v =
     (case stringify v of
        Inr (Some t) \<Rightarrow> (case host_parse H t of Some w \<Rightarrow> w | None \<Rightarrow> JStr (js_String v))
      | _ \<Rightarrow> JStr (js_String v))"

definition unknown_frame :: "js \<Rightarrow> js \<Rightarrow> frame" where
  "unknown_frame v detail =
     control_frame ''runner.unknownMessage'' (JObj [(''type'', JStr (messageType v)), (''detail'', detail)])"

section \<open>Lemmas\<close>

lemma frame_js_get [simp]:
  "js_get (frame_js f) ''version'' = JNum RUNTIME_CONTRACT_VERSION"
  "js_get (frame_js f) ''type'' = JStr (fr_type f)"
  "js_get (frame_js f) ''payload'' = fr_payload f"
  "js_in ''payload'' (frame_js f)" "isObject (frame_js f)"
  by (simp_all add: frame_js_def str_field_def num_field_def isObject_def map_has_def split: option.split)

lemma frame_js_opt [simp]:
  "js_string (js_get (frame_js f) ''gameId'') = fr_gameId f"
  "js_string (js_get (frame_js f) ''requestId'') = fr_requestId f"
  "js_string (js_get (frame_js f) ''traceId'') = fr_traceId f"
  "js_int (js_get (frame_js f) ''timeoutMs'') = fr_timeoutMs f"
  by (simp_all add: frame_js_def str_field_def num_field_def split: option.split)

text \<open>A message that was built as a frame is read back as that frame.\<close>

lemma frame_of_js [simp]: "frame_of (frame_js f) = f"
  by (simp add: frame_of_def js_text_def)

lemma frame_passes:
  "isRunnerToBrokerEnvelope (frame_js f)
     \<longleftrightarrow> fr_gameId f \<noteq> None \<or> fr_type f \<in> {''runner.ready'', ''runner.unknownMessage''}"
  "isBrokerToRunnerEnvelope (frame_js f) \<longleftrightarrow> fr_gameId f \<noteq> None"
  by (auto simp: isRunnerToBrokerEnvelope_def isBrokerToRunnerEnvelope_def is_text_def)

end
