(* ===== verification/RunnerChild.thy ===== *)
theory RunnerChild
  imports RunnerFrames BrokerDispatch
begin

text \<open>
  The Broker's side of a runner process (\<^verbatim>\<open>ChildProcessRunnerProcess\<close> of
  \<^verbatim>\<open>runtime/runner/src/child-process.mts\<close>): the table of requests that wait for an answer, the
  games the runner holds, and the events of the process. An asynchronous method is given up to
  its first await, and what follows is the operation of the event that it waits for. What
  happens outside is a log: frames sent, promises settled, signals, crash reports.
\<close>

section \<open>State\<close>

text \<open>\<open>po_assigns\<close>: the waiting method is \<^verbatim>\<open>assign\<close>, which adds the game once the wait is resolved.\<close>

record PendingOperation =
  po_label :: string
  po_gameId :: "string option"
  po_assigns :: bool

datatype child_event =
    Waits string
  | SentFrame frame
  | Settled string "string + unit"
  | Delivered frame
  | Killed string
  | CrashReported RunnerCrashEvent

record ChildProcessRunnerProcess =
  ch_id :: string
  ch_kind :: RunnerKind
  ch_maxAssignedGames :: int
  ch_assignedGames :: js_set
  ch_pending :: "PendingOperation js_map"
  ch_exited :: bool
  ch_stopping :: bool
  ch_connected :: bool
  ch_log :: "child_event list"

definition new_child :: "string \<Rightarrow> RunnerKind \<Rightarrow> int \<Rightarrow> ChildProcessRunnerProcess" where
  "new_child i k n =
     \<lparr>ch_id = i, ch_kind = k, ch_maxAssignedGames = n, ch_assignedGames = [], ch_pending = [], ch_exited = False,
      ch_stopping = False, ch_connected = True, ch_log = []\<rparr>"

definition child_log :: "child_event \<Rightarrow> ChildProcessRunnerProcess \<Rightarrow> ChildProcessRunnerProcess" where
  "child_log e c = c\<lparr>ch_log := ch_log c @ [e]\<rparr>"

section \<open>The table of waiting requests\<close>

definition waitFor :: "string \<Rightarrow> PendingOperation \<Rightarrow> ChildProcessRunnerProcess \<Rightarrow> ChildProcessRunnerProcess" where
  "waitFor requestId p c = child_log (Waits requestId) (c\<lparr>ch_pending := map_set requestId p (ch_pending c)\<rparr>)"

definition resolvePending :: "string \<Rightarrow> ChildProcessRunnerProcess \<Rightarrow> ChildProcessRunnerProcess" where
  "resolvePending requestId c =
     (case map_get (ch_pending c) requestId of
        None \<Rightarrow> c
      | Some p \<Rightarrow>
         let c1 = child_log (Settled requestId (Inr ())) (c\<lparr>ch_pending := map_delete requestId (ch_pending c)\<rparr>)
         in (case (po_assigns p, po_gameId p) of
               (True, Some g) \<Rightarrow> c1\<lparr>ch_assignedGames := set_add g (ch_assignedGames c1)\<rparr>
             | _ \<Rightarrow> c1))"

definition child_rejectPending :: "string \<Rightarrow> string \<Rightarrow> ChildProcessRunnerProcess \<Rightarrow> ChildProcessRunnerProcess" where
  "child_rejectPending err requestId c =
     (case map_get (ch_pending c) requestId of
        None \<Rightarrow> c
      | Some p \<Rightarrow> child_log (Settled requestId (Inl err)) (c\<lparr>ch_pending := map_delete requestId (ch_pending c)\<rparr>))"

definition rejectGamePending :: "string \<Rightarrow> string \<Rightarrow> ChildProcessRunnerProcess \<Rightarrow> ChildProcessRunnerProcess" where
  "rejectGamePending gameId err c =
     fold (child_rejectPending err) (map fst (filter (\<lambda>(r, p). po_gameId p = Some gameId) (ch_pending c))) c"

definition failAll :: "string \<Rightarrow> ChildProcessRunnerProcess \<Rightarrow> ChildProcessRunnerProcess" where
  "failAll err c = fold (child_rejectPending err) (map fst (ch_pending c)) c"

text \<open>The timer of a request.\<close>

definition wait_timeout :: "string \<Rightarrow> ChildProcessRunnerProcess \<Rightarrow> ChildProcessRunnerProcess" where
  "wait_timeout requestId c =
     (case map_get (ch_pending c) requestId of
        None \<Rightarrow> c
      | Some p \<Rightarrow> child_rejectPending (''runner child '' @ ch_id c @ '' timed out waiting for '' @ po_label p) requestId c)"

section \<open>Methods\<close>

text \<open>\<^verbatim>\<open>sendToChild\<close>: \<open>Inl\<close> when it throws at once; the callback of \<^verbatim>\<open>child.send\<close> comes later.\<close>

definition sendToChild :: "frame \<Rightarrow> ChildProcessRunnerProcess \<Rightarrow> (string + unit) \<times> ChildProcessRunnerProcess" where
  "sendToChild f c =
     (if ch_exited c \<or> \<not> ch_connected c then (Inl (''runner child '' @ ch_id c @ '' is not connected''), c)
      else (Inr (), child_log (SentFrame f) c))"

definition request_child ::
  "string \<Rightarrow> PendingOperation \<Rightarrow> frame \<Rightarrow> ChildProcessRunnerProcess \<Rightarrow> ChildProcessRunnerProcess" where
  "request_child requestId p f c =
     (case sendToChild f (waitFor requestId p c) of
        (Inr u, c1) \<Rightarrow> c1
      | (Inl e, c1) \<Rightarrow> child_rejectPending e requestId c1)"

definition assignment_js :: "RunnerAssignment \<Rightarrow> js" where
  "assignment_js a =
     JObj ([(''gameId'', JStr (ra_gameId a)), (''bundleName'', JStr (as_bundleName a)), (''bundleSource'', JStr (as_bundleSource a)),
        (''bundleCompatTag'', JStr (as_bundleCompatTag a)), (''runtimeContractRequired'', JNum (ra_runtimeContractRequired a))]
       @ str_field ''runId'' (as_runId a)
       @ [(''memoryLimitMb'', JNum (as_memoryLimitMb a)), (''handlerTimeoutMs'', JNum (as_handlerTimeoutMs a))]
       @ (case as_testSeed a of None \<Rightarrow> [] | Some (SeedNum n) \<Rightarrow> [(''testSeed'', JNum n)] | Some (SeedStr s) \<Rightarrow> [(''testSeed'', JStr s)])
       @ num_field ''generation'' (ra_generation a))"

text \<open>\<open>Inl\<close>: the method throws before it waits; otherwise the caller waits for \<open>requestId\<close>.\<close>

definition child_assign ::
  "string \<Rightarrow> RunnerAssignment \<Rightarrow> ChildProcessRunnerProcess \<Rightarrow> (string + unit) \<times> ChildProcessRunnerProcess" where
  "child_assign requestId a c =
     (if ra_gameId a \<in> set (ch_assignedGames c) then (Inl (''game '' @ ra_gameId a @ '' is already assigned''), c)
      else (Inr (), request_child requestId
             \<lparr>po_label = ''assign '' @ ra_gameId a, po_gameId = Some (ra_gameId a), po_assigns = True\<rparr>
             (bridge_frame (ra_gameId a) ''assign'' (assignment_js a) (Some requestId)) c))"

definition child_invoke ::
  "string \<Rightarrow> RunnerInvoke \<Rightarrow> ChildProcessRunnerProcess \<Rightarrow> (string + unit) \<times> ChildProcessRunnerProcess" where
  "child_invoke requestId i c =
     (if ri_gameId i \<notin> set (ch_assignedGames c)
      then (Inl (''game '' @ ri_gameId i @ '' is not assigned to runner child '' @ ch_id c), c)
      else (Inr (), request_child requestId
             \<lparr>po_label = handlerName (ri_handler i) @ '' '' @ ri_gameId i, po_gameId = Some (ri_gameId i), po_assigns = False\<rparr>
             ((bridge_frame (ri_gameId i) (handlerName (ri_handler i)) (ri_payload i) (Some requestId))
                \<lparr>fr_traceId := ri_traceId i, fr_timeoutMs := Some (ri_timeoutMs i)\<rparr>) c))"

text \<open>The limit of the wait for an invocation.\<close>

definition invoke_wait :: "RunnerInvoke \<Rightarrow> int" where
  "invoke_wait i = ri_timeoutMs i + 5000"

definition child_send :: "frame \<Rightarrow> ChildProcessRunnerProcess \<Rightarrow> (string + unit) \<times> ChildProcessRunnerProcess" where
  "child_send f c = sendToChild f c"

text \<open>\<^verbatim>\<open>release\<close> up to the callback of its send (\<open>Inr True\<close>: it is awaited), and after it.\<close>

definition release_begin :: "string \<Rightarrow> ChildProcessRunnerProcess \<Rightarrow> (string + bool) \<times> ChildProcessRunnerProcess" where
  "release_begin gameId c =
     (if gameId \<notin> set (ch_assignedGames c) then (Inr False, c)
      else case sendToChild (bridge_frame gameId ''release'' (JObj []) None) c of
             (Inl e, c1) \<Rightarrow> (Inl e, c1)
           | (Inr u, c1) \<Rightarrow> (Inr True, c1))"

definition release_end :: "string \<Rightarrow> ChildProcessRunnerProcess \<Rightarrow> ChildProcessRunnerProcess" where
  "release_end gameId c =
     rejectGamePending gameId (''game '' @ gameId @ '' was released'')
       (c\<lparr>ch_assignedGames := set_delete gameId (ch_assignedGames c)\<rparr>)"

definition child_stop :: "ChildProcessRunnerProcess \<Rightarrow> ChildProcessRunnerProcess" where
  "child_stop c =
     (if ch_exited c then c
      else child_log (Killed ''SIGTERM'')
             (failAll (''runner child '' @ ch_id c @ '' is stopping'') (c\<lparr>ch_stopping := True\<rparr>)))"

definition stop_timeout :: "ChildProcessRunnerProcess \<Rightarrow> ChildProcessRunnerProcess" where
  "stop_timeout c = (if ch_exited c then c else child_log (Killed ''SIGKILL'') c)"

definition crashForTest :: "ChildProcessRunnerProcess \<Rightarrow> bool \<times> ChildProcessRunnerProcess" where
  "crashForTest c = (if ch_exited c then (False, c) else (True, child_log (Killed ''SIGKILL'') c))"

section \<open>Events\<close>

text \<open>
  \<^verbatim>\<open>handleMessage\<close>: the frame is handed to the Broker, and once the Broker has handled it
  (\<open>Some e\<close>: it threw) the request it answers is settled.
\<close>

definition received_frame :: "host \<Rightarrow> js \<Rightarrow> frame" where
  "received_frame H v = (if isRunnerToBrokerEnvelope v then frame_of v else unknown_frame v (safeDetail H v))"

definition message_begin :: "host \<Rightarrow> js \<Rightarrow> ChildProcessRunnerProcess \<Rightarrow> ChildProcessRunnerProcess" where
  "message_begin H v c = child_log (Delivered (received_frame H v)) c"

definition completePendingForEnvelope :: "frame \<Rightarrow> ChildProcessRunnerProcess \<Rightarrow> ChildProcessRunnerProcess" where
  "completePendingForEnvelope f c =
     (case truthy (fr_requestId f) of
        None \<Rightarrow> c
      | Some r \<Rightarrow>
         if fr_type f = ''handler.error'' \<or> fr_type f = ''isolate.fatal''
         then child_rejectPending (js_text (js_get (fr_payload f) ''error'')) r c
         else if fr_type f = ''handler.complete'' \<or> fr_type f = ''isolate.ready'' then resolvePending r c
         else c)"

definition message_end :: "frame \<Rightarrow> string option \<Rightarrow> ChildProcessRunnerProcess \<Rightarrow> ChildProcessRunnerProcess" where
  "message_end f failed c =
     (case failed of
        None \<Rightarrow> completePendingForEnvelope f c
      | Some e \<Rightarrow> (case truthy (fr_requestId f) of None \<Rightarrow> c | Some r \<Rightarrow> child_rejectPending e r c))"

definition send_failed :: "string \<Rightarrow> string \<Rightarrow> ChildProcessRunnerProcess \<Rightarrow> ChildProcessRunnerProcess" where
  "send_failed requestId e c = child_rejectPending e requestId c"

definition child_error :: "string \<Rightarrow> ChildProcessRunnerProcess \<Rightarrow> ChildProcessRunnerProcess" where
  "child_error message c = failAll (''runner child '' @ ch_id c @ '' failed: '' @ message) c"

definition code_text :: "int option \<Rightarrow> string" where
  "code_text n = (case n of None \<Rightarrow> ''null'' | Some k \<Rightarrow> dec_int k)"

definition child_exit :: "int option \<Rightarrow> string option \<Rightarrow> ChildProcessRunnerProcess \<Rightarrow> ChildProcessRunnerProcess" where
  "child_exit code signal c =
     (let affected = sort (ch_assignedGames c);
          c1 = failAll (''runner child '' @ ch_id c @ '' exited code='' @ code_text code @ '' signal='' @ default ''null'' signal)
                 (c\<lparr>ch_exited := True, ch_connected := False, ch_assignedGames := []\<rparr>)
      in if \<not> ch_stopping c1 \<and> affected \<noteq> []
         then child_log (CrashReported \<lparr>ce_runnerId = ch_id c1, ce_affectedGameIds = affected,
                ce_maxAssignedGames = ch_maxAssignedGames c1, ce_code = code, ce_signal = signal\<rparr>) c1
         else c1)"

end
