(* ===== verification/IpcIds.thy ===== *)
theory IpcIds
  imports Ipc "HOL-Library.Word"
begin

text \<open>
  The identifier generators at the end of \<^verbatim>\<open>shared/ipc-protocol/src/index.mts\<close>. The seeded
  generator runs on 32-bit words: \<^verbatim>\<open>Math.imul\<close>, the bitwise operators and \<^verbatim>\<open>>>> 0\<close> all wrap at
  32 bits. A random number is kept as its numerator over \<open>2^32\<close>. Characters stand for code
  units below 256.

  The theory also settles how the message tags relate to the channel catalogs.
\<close>

unbundle bit_operations_syntax

section \<open>Digits in a base\<close>

definition digit36 :: "nat \<Rightarrow> char" where
  "digit36 d = (if d < 10 then char_of (48 + d) else char_of (87 + d))"

fun radix :: "nat \<Rightarrow> nat \<Rightarrow> string" where
  "radix b n = (if n < b \<or> b < 2 then [digit36 n] else radix b (n div b) @ [digit36 (n mod b)])"

declare radix.simps [simp del]

definition value36 :: "char \<Rightarrow> nat" where
  "value36 c = (if byte c < 58 then byte c - 48 else byte c - 87)"

definition read_radix :: "nat \<Rightarrow> string \<Rightarrow> nat" where
  "read_radix b s = foldl (\<lambda>n c. n * b + value36 c) 0 s"

lemma value36_digit36 [simp]: "d < 36 \<Longrightarrow> value36 (digit36 d) = d"
  by (simp add: value36_def digit36_def)

lemma read_radix [simp]: "2 \<le> b \<Longrightarrow> b \<le> 36 \<Longrightarrow> read_radix b (radix b n) = n"
proof (induction b n rule: radix.induct)
  case (1 b n)
  show ?case
  proof (cases "n < b")
    case True
    then show ?thesis using 1 by (simp add: radix.simps [of b n] read_radix_def)
  next
    case False
    then have "read_radix b (radix b (n div b)) = n div b" using 1 by simp
    moreover have "n mod b < 36" using "1.prems" mod_less_divisor [of b n] by linarith
    ultimately show ?thesis
      using False 1 by (simp add: radix.simps [of b n] read_radix_def)
  qed
qed

lemma read_radix_zeros: "read_radix b (replicate k (CHR ''0'') @ s) = read_radix b s"
proof -
  have "foldl (\<lambda>n c. n * b + value36 c) 0 (replicate k (CHR ''0'')) = 0"
    by (induction k) (simp_all add: value36_def)
  then show ?thesis by (simp add: read_radix_def)
qed

lemma pad_radix_inject:
  assumes "pad_start0 w (radix b m) = pad_start0 w (radix b n)" and "2 \<le> b" and "b \<le> 36"
  shows "m = n"
proof -
  have "read_radix b (pad_start0 w (radix b k)) = k" for k
    using assms by (simp add: pad_start0_def read_radix_zeros)
  then show ?thesis using assms(1) by metis
qed

section \<open>The seeded generator\<close>

type_synonym u32 = "32 word"

definition hash_step :: "u32 \<Rightarrow> char \<Rightarrow> u32" where
  "hash_step hash c = (hash XOR word_of_nat (byte c)) * 0x01000193"

definition hashSeed :: "string \<Rightarrow> u32" where
  "hashSeed input = foldl hash_step 0x811c9dc5 input"

text \<open>One call of the closure \<^verbatim>\<open>makeMulberry32\<close> returns: the numerator and the next state.\<close>

definition makeMulberry32 :: "u32 \<Rightarrow> u32 \<times> u32" where
  "makeMulberry32 state0 =
     (let state = state0 + 0x6d2b79f5;
          m0 = state;
          m1 = (m0 XOR drop_bit 15 m0) * (m0 OR 1);
          m2 = m1 XOR (m1 + (m1 XOR drop_bit 7 m1) * (m1 OR 61))
      in (m2 XOR drop_bit 14 m2, state))"

text \<open>\<^verbatim>\<open>Math.floor(nextRandom() * 256)\<close>\<close>

definition random_byte :: "u32 \<Rightarrow> nat" where
  "random_byte r = unat r * 256 div 4294967296"

fun deterministicHex :: "nat \<Rightarrow> u32 \<Rightarrow> string \<times> u32" where
  "deterministicHex 0 s = ([], s)"
| "deterministicHex (Suc n) s =
     (let (r, s1) = makeMulberry32 s; (rest, s2) = deterministicHex n s1
      in (pad_start0 2 (radix 16 (random_byte r)) @ rest, s2))"

definition slug_char :: "char \<Rightarrow> bool" where
  "slug_char c = (48 \<le> byte c \<and> byte c \<le> 57 \<or> 97 \<le> byte c \<and> byte c \<le> 122)"

definition toLower :: "char \<Rightarrow> char" where
  "toLower c = (if 65 \<le> byte c \<and> byte c \<le> 90 then char_of (byte c + 32) else c)"

text \<open>\<^verbatim>\<open>.replace(/[^a-z0-9]+/g, "-")\<close>: one dash for each maximal run of other characters.\<close>

fun dash_runs :: "bool \<Rightarrow> string \<Rightarrow> string" where
  "dash_runs inrun [] = []"
| "dash_runs inrun (c # cs) =
     (if slug_char c then c # dash_runs False cs
      else if inrun then dash_runs True cs else CHR ''-'' # dash_runs True cs)"

definition strip_dashes :: "string \<Rightarrow> string" where
  "strip_dashes s = rev (dropWhile (\<lambda>c. c = CHR ''-'') (rev (dropWhile (\<lambda>c. c = CHR ''-'') s)))"

definition slugSeed :: "string \<Rightarrow> string" where
  "slugSeed seedText =
     (let slug = take 32 (strip_dashes (dash_runs False (map toLower seedText)))
      in if slug \<noteq> [] then slug else radix 36 (unat (hashSeed seedText)))"

record IdGenerator =
  ig_random :: u32
  ig_slug :: string
  ig_runCounter :: nat

definition createDeterministicIdGenerator :: "string \<Rightarrow> IdGenerator" where
  "createDeterministicIdGenerator seedText =
     \<lparr>ig_random = hashSeed seedText, ig_slug = slugSeed seedText, ig_runCounter = 0\<rparr>"

definition det_generateSessionId :: "IdGenerator \<Rightarrow> string \<times> IdGenerator" where
  "det_generateSessionId g =
     (let (h, s) = deterministicHex 16 (ig_random g) in (''ses_'' @ h, g\<lparr>ig_random := s\<rparr>))"

definition det_generateRunId :: "IdGenerator \<Rightarrow> string \<times> IdGenerator" where
  "det_generateRunId g =
     (let n = ig_runCounter g + 1 in
      (''run_'' @ ig_slug g @ ''_'' @ pad_start0 4 (radix 36 n), g\<lparr>ig_runCounter := n\<rparr>))"

text \<open>The default generator, on the random bytes, clock and random number it is given.\<close>

definition generateSessionId :: "bytes \<Rightarrow> string" where
  "generateSessionId random = ''ses_'' @ concat (map (\<lambda>b. pad_start0 2 (radix 16 (byte b))) random)"

definition generateRunId :: "nat \<Rightarrow> nat \<Rightarrow> string" where
  "generateRunId now random = ''run_'' @ radix 36 now @ ''_'' @ pad_start0 4 (radix 36 random)"

section \<open>Facts\<close>

lemma random_byte_bound: "random_byte r < 256"
  using unsigned_less [of r, where 'a = nat] by (simp add: random_byte_def less_mult_imp_div_less)

definition is_hex :: "char \<Rightarrow> bool" where
  "is_hex c = (48 \<le> byte c \<and> byte c \<le> 57 \<or> 97 \<le> byte c \<and> byte c \<le> 102)"

lemma is_hex_digit36: "d < 16 \<Longrightarrow> is_hex (digit36 d)"
  by (simp add: is_hex_def digit36_def)

lemma radix16_byte:
  assumes "n < 256"
  shows "length (pad_start0 2 (radix 16 n)) = 2 \<and> (\<forall>c \<in> set (pad_start0 2 (radix 16 n)). is_hex c)"
proof (cases "n < 16")
  case True
  then show ?thesis
    using is_hex_digit36 [of n] by (simp add: radix.simps [of 16 n] pad_start0_def is_hex_def)
next
  case False
  then have "n div 16 < 16" using assms by simp
  then show ?thesis
    using False is_hex_digit36 [of "n div 16"] is_hex_digit36 [of "n mod 16"]
    by (simp add: radix.simps [of 16 n] radix.simps [of 16 "n div 16"] pad_start0_def)
qed

lemma deterministicHex_shape:
  "length (fst (deterministicHex n s)) = 2 * n \<and> (\<forall>c \<in> set (fst (deterministicHex n s)). is_hex c)"
proof (induction n arbitrary: s)
  case (Suc n)
  obtain r s1 where m: "makeMulberry32 s = (r, s1)" by (cases "makeMulberry32 s")
  have "fst (deterministicHex (Suc n) s)
      = pad_start0 2 (radix 16 (random_byte r)) @ fst (deterministicHex n s1)"
    by (simp add: m Let_def split: prod.split)
  then show ?case using Suc [of s1] radix16_byte [OF random_byte_bound [of r]] by auto
qed simp

lemma map_radix16_inject:
  "concat (map (\<lambda>b. pad_start0 2 (radix 16 (byte b))) xs) = concat (map (\<lambda>b. pad_start0 2 (radix 16 (byte b))) ys)
   \<Longrightarrow> xs = ys"
proof (induction xs arbitrary: ys)
  case Nil
  then show ?case using radix16_byte [of "byte (hd ys)"] by (cases ys) auto
next
  case (Cons x xs)
  have len: "length (pad_start0 2 (radix 16 (byte b))) = 2" for b using radix16_byte [of "byte b"] by simp
  obtain y ys' where ys: "ys = y # ys'" using Cons.prems len [of x] by (cases ys) auto
  have "pad_start0 2 (radix 16 (byte x)) = pad_start0 2 (radix 16 (byte y))"
    and "concat (map (\<lambda>b. pad_start0 2 (radix 16 (byte b))) xs)
      = concat (map (\<lambda>b. pad_start0 2 (radix 16 (byte b))) ys')"
    using Cons.prems by (simp_all add: ys len append_eq_append_conv)
  then show ?case using Cons.IH ys pad_radix_inject [of 2 16 "byte x" "byte y"] by auto
qed

fun run_ids :: "nat \<Rightarrow> IdGenerator \<Rightarrow> string list" where
  "run_ids 0 g = []"
| "run_ids (Suc n) g = (let (i, g') = det_generateRunId g in i # run_ids n g')"

lemma set_run_ids:
  "set (run_ids n g) = (\<lambda>k. ''run_'' @ ig_slug g @ ''_'' @ pad_start0 4 (radix 36 k))
     ` {ig_runCounter g <.. ig_runCounter g + n}"
proof (induction n arbitrary: g)
  case (Suc n)
  have "{ig_runCounter g <.. ig_runCounter g + Suc n}
      = insert (ig_runCounter g + 1) {ig_runCounter g + 1 <.. ig_runCounter g + 1 + n}" by auto
  then show ?case using Suc [of "g\<lparr>ig_runCounter := ig_runCounter g + 1\<rparr>"]
    by (simp add: det_generateRunId_def Let_def)
qed simp

text \<open>
  The seeded generator never repeats a run id, and each session id is \<^verbatim>\<open>ses_\<close> followed by
  32 hexadecimal digits, whatever the seed.
\<close>

theorem deterministic_ids:
  "distinct (run_ids n (createDeterministicIdGenerator seed))
   \<and> (\<exists>h. fst (det_generateSessionId g) = ''ses_'' @ h \<and> length h = 32 \<and> list_all is_hex h)"
proof -
  have "distinct (run_ids n g)" for g
  proof (induction n arbitrary: g)
    case (Suc n)
    let ?g = "g\<lparr>ig_runCounter := ig_runCounter g + 1\<rparr>"
    have "''run_'' @ ig_slug g @ ''_'' @ pad_start0 4 (radix 36 (ig_runCounter g + 1)) \<notin> set (run_ids n ?g)"
      using pad_radix_inject [of 4 36] by (fastforce simp: set_run_ids)
    then show ?case using Suc [of ?g] by (simp add: det_generateRunId_def Let_def)
  qed simp
  moreover have "\<exists>h. fst (det_generateSessionId g) = ''ses_'' @ h \<and> length h = 32 \<and> list_all is_hex h"
    using deterministicHex_shape [of 16 "ig_random g"]
    by (auto simp: det_generateSessionId_def list_all_iff split: prod.split)
  ultimately show ?thesis by blast
qed


end
