(* ===== verification/RunnerHost.thy ===== *)
theory RunnerHost
  imports RunnerChild IpcIds
begin

text \<open>
  The runner process itself: the bridge to the Broker and the host of
  \<^verbatim>\<open>runtime/runner/src/child-process.mts\<close> (\<^verbatim>\<open>ProcessBrokerBridge\<close>, \<^verbatim>\<open>RunnerChildHost\<close>) and the
  runner without isolates of \<^verbatim>\<open>noivm.mts\<close>, with the context a bundle sees.

  The JavaScript of bundles is a parameter: what loading it gives, which members it has, and how
  a call of a handler settles. The process has its IPC channel, which \<^verbatim>\<open>fork\<close> gives it. What the
  process sends is \<open>pb_sent\<close>. The operations of a game wait in a queue whose head runs.
\<close>

section \<open>The bridge\<close>

record ResponseRequestContext =
  rx_ref :: nat
  rx_gameId :: string
  rx_requestId :: string
  rx_responseTypes :: "string list"

record ProcessBrokerBridge =
  pb_pending :: "PendingOperation js_map"
  pb_responseContexts :: "ResponseRequestContext list"
  pb_emittedRequestIds :: js_set
  pb_telemetryFallbacks :: "js js_map"
  pb_sent :: "frame list"
  pb_settled :: "(string \<times> (string + js)) list"
  pb_nextRef :: nat

definition sendRunnerEnvelope :: "frame \<Rightarrow> ProcessBrokerBridge \<Rightarrow> ProcessBrokerBridge" where
  "sendRunnerEnvelope f b = b\<lparr>pb_sent := pb_sent b @ [f]\<rparr>"

definition sendBridgeEnvelope :: "string \<Rightarrow> string \<Rightarrow> js \<Rightarrow> string option \<Rightarrow> ProcessBrokerBridge \<Rightarrow> ProcessBrokerBridge" where
  "sendBridgeEnvelope gameId channel payload requestId b =
     sendRunnerEnvelope (bridge_frame gameId channel payload requestId)
       (case truthy requestId of
          None \<Rightarrow> b
        | Some r \<Rightarrow> b\<lparr>pb_emittedRequestIds := set_add r (pb_emittedRequestIds b)\<rparr>)"

definition currentResponseRequestId :: "string \<Rightarrow> string \<Rightarrow> ProcessBrokerBridge \<Rightarrow> string option" where
  "currentResponseRequestId gameId channel b =
     map_option rx_requestId (List.find (\<lambda>x. rx_gameId x = gameId \<and> channel \<in> set (rx_responseTypes x)) (rev (pb_responseContexts b)))"

definition telemetryKey :: "string \<Rightarrow> string \<Rightarrow> string" where
  "telemetryKey gameId runnerId = gameId @ '':'' @ runnerId"

definition cancelTelemetryFallback :: "string \<Rightarrow> ProcessBrokerBridge \<Rightarrow> ProcessBrokerBridge" where
  "cancelTelemetryFallback gameId b =
     b\<lparr>pb_telemetryFallbacks := filter (\<lambda>(k, p). \<not> prefix (gameId @ '':'') k) (pb_telemetryFallbacks b)\<rparr>"

definition bridge_emit :: "string \<Rightarrow> string \<Rightarrow> js \<Rightarrow> ProcessBrokerBridge \<Rightarrow> ProcessBrokerBridge" where
  "bridge_emit gameId channel payload b =
     (let b1 = (if channel = ''isolate.counters'' then cancelTelemetryFallback gameId b else b)
      in sendBridgeEnvelope gameId channel payload (currentResponseRequestId gameId channel b1) b1)"

definition bridge_request :: "string \<Rightarrow> string \<Rightarrow> string \<Rightarrow> js \<Rightarrow> ProcessBrokerBridge \<Rightarrow> ProcessBrokerBridge" where
  "bridge_request uuid gameId channel payload b =
     sendBridgeEnvelope gameId channel payload (Some uuid)
       (b\<lparr>pb_pending := map_set uuid \<lparr>po_label = channel @ '' response'', po_gameId = Some gameId, po_assigns = False\<rparr>
            (pb_pending b)\<rparr>)"

text \<open>The timer of a request to the Broker.\<close>

definition bridge_timeout :: "string \<Rightarrow> ProcessBrokerBridge \<Rightarrow> ProcessBrokerBridge" where
  "bridge_timeout requestId b =
     (case map_get (pb_pending b) requestId of
        None \<Rightarrow> b
      | Some p \<Rightarrow> b\<lparr>pb_pending := map_delete requestId (pb_pending b),
          pb_settled := pb_settled b @ [(requestId, Inl (''runner child timed out waiting for '' @ po_label p))]\<rparr>)"

text \<open>\<^verbatim>\<open>emitTelemetry\<close> schedules the counters; \<open>telemetry_fire\<close> is the immediate that sends them.\<close>

definition counters_js :: "RunnerTelemetry \<Rightarrow> js" where
  "counters_js t =
     JObj [(''gameId'', JStr (te_gameId t)), (''runnerId'', JStr (te_runnerId t)), (''memoryBytes'', JNum (te_memoryBytes t)),
       (''cpuMs'', JNum (te_cpuMs t)), (''isolateCount'', JNum (te_isolateCount t)), (''heapUsedBytes'', JNum (te_memoryBytes t)),
       (''heapLimitBytes'', JNum (te_memoryBytes t)), (''wallTimeMs'', JNum 0)]"

definition emitTelemetry :: "RunnerTelemetry \<Rightarrow> ProcessBrokerBridge \<Rightarrow> ProcessBrokerBridge" where
  "emitTelemetry t b =
     b\<lparr>pb_telemetryFallbacks := map_set (telemetryKey (te_gameId t) (te_runnerId t)) (counters_js t) (pb_telemetryFallbacks b)\<rparr>"

definition telemetry_fire :: "string \<Rightarrow> ProcessBrokerBridge \<Rightarrow> ProcessBrokerBridge" where
  "telemetry_fire key b =
     (case map_get (pb_telemetryFallbacks b) key of
        None \<Rightarrow> b
      | Some payload \<Rightarrow>
          sendBridgeEnvelope (js_text (js_get payload ''gameId'')) ''isolate.counters'' payload None
            (b\<lparr>pb_telemetryFallbacks := map_delete key (pb_telemetryFallbacks b)\<rparr>))"

definition isBrokerResponseEnvelope :: "frame \<Rightarrow> bool" where
  "isBrokerResponseEnvelope f \<longleftrightarrow> suffix ''.response'' (fr_type f)"

definition resolveBrokerResponse :: "frame \<Rightarrow> ProcessBrokerBridge \<Rightarrow> bool \<times> ProcessBrokerBridge" where
  "resolveBrokerResponse f b =
     (if \<not> isBrokerResponseEnvelope f then (False, b)
      else case truthy (fr_requestId f) of
        None \<Rightarrow> (True, b)
      | Some r \<Rightarrow>
         (case map_get (pb_pending b) r of
            None \<Rightarrow> (True, b)
          | Some p \<Rightarrow> (True, b\<lparr>pb_pending := map_delete r (pb_pending b), pb_settled := pb_settled b @ [(r, Inr (fr_payload f))]\<rparr>)))"

text \<open>\<^verbatim>\<open>withResponseRequestId\<close>: what it does before its callback and in its \<^verbatim>\<open>finally\<close>.\<close>

definition with_enter :: "string \<Rightarrow> string option \<Rightarrow> string list \<Rightarrow> ProcessBrokerBridge \<Rightarrow> nat option \<times> ProcessBrokerBridge" where
  "with_enter gameId requestId types b =
     (case truthy requestId of
        None \<Rightarrow> (None, b)
      | Some r \<Rightarrow> (Some (pb_nextRef b),
          b\<lparr>pb_responseContexts := pb_responseContexts b @
               [\<lparr>rx_ref = pb_nextRef b, rx_gameId = gameId, rx_requestId = r, rx_responseTypes = types\<rparr>],
             pb_nextRef := pb_nextRef b + 1\<rparr>))"

definition with_leave :: "nat option \<Rightarrow> ProcessBrokerBridge \<Rightarrow> ProcessBrokerBridge" where
  "with_leave ref b =
     (case ref of
        None \<Rightarrow> b
      | Some n \<Rightarrow> b\<lparr>pb_responseContexts := filter (\<lambda>x. rx_ref x \<noteq> n) (pb_responseContexts b)\<rparr>)"

definition hasEmittedRequestId :: "string option \<Rightarrow> ProcessBrokerBridge \<Rightarrow> bool" where
  "hasEmittedRequestId requestId b =
     (case truthy requestId of None \<Rightarrow> False | Some r \<Rightarrow> r \<in> set (pb_emittedRequestIds b))"

section \<open>The context of a bundle\<close>

definition jsonClone :: "host \<Rightarrow> js \<Rightarrow> string + js" where
  "jsonClone H v =
     (if v = JUndef then Inr JUndef
      else case stringify v of
        Inl e \<Rightarrow> Inl e
      | Inr None \<Rightarrow> Inl ''SyntaxError''
      | Inr (Some t) \<Rightarrow> (case host_parse H t of None \<Rightarrow> Inl ''SyntaxError'' | Some w \<Rightarrow> Inr w))"

fun clone_all :: "host \<Rightarrow> js list \<Rightarrow> string + js list" where
  "clone_all H [] = Inr []"
| "clone_all H (v # vs) =
     (case jsonClone H v of
        Inl e \<Rightarrow> Inl e
      | Inr w \<Rightarrow> (case clone_all H vs of Inl e \<Rightarrow> Inl e | Inr ws \<Rightarrow> Inr (w # ws)))"

datatype sdk_call =
    C_ws_send js js
  | C_log_emit js
  | C_metrics_emit js
  | C_requestSleep
  | C_requestTick int
  | C_api_invoke string js "string option"
  | C_players_allowed
  | C_players_connected
  | C_compute_budget
  | C_state_read
  | C_state_write js
  | C_state_flush
  | C_blob_put string bytes
  | C_blob_get string
  | C_blob_delete string
  | C_blob_list "string option"
  | C_console string "js list"

definition sum_map :: "('a \<Rightarrow> 'b) \<Rightarrow> 'e + 'a \<Rightarrow> 'e + 'b" where
  "sum_map f x = (case x of Inl e \<Rightarrow> Inl e | Inr a \<Rightarrow> Inr (f a))"

text \<open>The message of a call: whether it waits for an answer, its channel and its payload.\<close>

definition sdk_message :: "host \<Rightarrow> sdk_call \<Rightarrow> string + bool \<times> string \<times> js" where
  "sdk_message H c =
     (case c of
        C_ws_send target body \<Rightarrow>
          (case clone_all H [target, body] of
             Inl e \<Rightarrow> Inl e
           | Inr vs \<Rightarrow> Inr (True, ''ws.send'', JObj [(''target'', vs ! 0), (''body'', vs ! 1)]))
      | C_log_emit p \<Rightarrow> sum_map (\<lambda>w. (False, ''log.emit'', w)) (jsonClone H p)
      | C_metrics_emit p \<Rightarrow> sum_map (\<lambda>w. (False, ''metrics.emit'', w)) (jsonClone H p)
      | C_requestSleep \<Rightarrow> Inr (False, ''lifecycle.requestSleep'', JObj [])
      | C_requestTick n \<Rightarrow> Inr (False, ''lifecycle.requestTick'', JObj [(''intervalMs'', JNum n)])
      | C_api_invoke kind args key \<Rightarrow>
          sum_map (\<lambda>w. (True, ''api.invoke'', JObj ([(''kind'', JStr kind), (''args'', w)] @ str_field ''idempotencyKey'' key))) (jsonClone H args)
      | C_players_allowed \<Rightarrow> Inr (True, ''players.allowed'', JObj [])
      | C_players_connected \<Rightarrow> Inr (True, ''players.connected'', JObj [])
      | C_compute_budget \<Rightarrow> Inr (True, ''compute.budget'', JObj [])
      | C_state_read \<Rightarrow> Inr (True, ''state.read'', JObj [])
      | C_state_write v \<Rightarrow> sum_map (\<lambda>w. (True, ''state.write'', JObj [(''value'', w)])) (jsonClone H v)
      | C_state_flush \<Rightarrow> Inr (True, ''state.flush'', JObj [])
      | C_blob_put k bs \<Rightarrow> Inr (True, ''blob.put'', JObj [(''key'', JStr k), (''bytesBase64'', JStr (b64_encode bs))])
      | C_blob_get k \<Rightarrow> Inr (True, ''blob.get'', JObj [(''key'', JStr k)])
      | C_blob_delete k \<Rightarrow> Inr (True, ''blob.delete'', JObj [(''key'', JStr k)])
      | C_blob_list p \<Rightarrow> Inr (True, ''blob.list'', JObj (str_field ''prefix'' p))
      | C_console level args \<Rightarrow>
          sum_map (\<lambda>ws. (False, ''log.emit'', JObj [(''event'', JStr ''console''), (''source'', JStr ''console''), (''level'', JStr level),
             (''message'', JStr (join '' '' (map js_String args))), (''args'', JArr ws)])) (clone_all H args))"

definition sdk_perform :: "host \<Rightarrow> string \<Rightarrow> string \<Rightarrow> sdk_call \<Rightarrow> ProcessBrokerBridge \<Rightarrow> (string + unit) \<times> ProcessBrokerBridge" where
  "sdk_perform H uuid gameId c b =
     (case sdk_message H c of
        Inl e \<Rightarrow> (Inl e, b)
      | Inr (request, channel, payload) \<Rightarrow>
          (Inr (), if request then bridge_request uuid gameId channel payload b else bridge_emit gameId channel payload b))"

text \<open>What a bundle gets from the payload of an answer.\<close>

definition unwrapResponse :: "js \<Rightarrow> js" where
  "unwrapResponse v = (if js_in ''response'' v then js_get v ''response'' else v)"

definition nullish :: "js \<Rightarrow> bool" where
  "nullish v \<longleftrightarrow> v = JUndef \<or> v = JNull"

definition unwrapPlayers :: "js \<Rightarrow> js" where
  "unwrapPlayers v =
     (if \<not> nullish (js_get v ''players'') then js_get v ''players''
      else if \<not> nullish (js_get v ''items'') then js_get v ''items'' else JArr [])"

definition unwrapBudget :: "js \<Rightarrow> js" where
  "unwrapBudget v = js_get v ''budget''"

definition state_read_value :: "js \<Rightarrow> js" where
  "state_read_value v = (if js_get v ''found'' = JBool False then JUndef else js_get v ''value'')"

definition blob_get_bytes :: "js \<Rightarrow> bytes option" where
  "blob_get_bytes v =
     (if js_get v ''found'' = JBool True then map_option b64_decode (truthy (js_string (js_get v ''bytesBase64''))) else None)"

text \<open>The seeded random numbers (numerators over \<open>2^32\<close>) and the clock of a bundle.\<close>

record bundle_clock =
  bc_rngState :: u32
  bc_now :: int

definition seed_text :: "RunnerAssignment \<Rightarrow> string" where
  "seed_text a =
     (case as_testSeed a of None \<Rightarrow> ''runtime'' | Some (SeedNum n) \<Rightarrow> dec_int n | Some (SeedStr s) \<Rightarrow> s)
     @ '':'' @ ra_gameId a @ '':'' @ as_bundleName a @ '':'' @ as_bundleCompatTag a"

definition makeContext :: "RunnerAssignment \<Rightarrow> bundle_clock" where
  "makeContext a =
     (let s = hashSeed (seed_text a)
      in \<lparr>bc_rngState = s, bc_now = 1700000000000 + int (unat s mod 1000000000)\<rparr>)"

definition c_rng :: "bundle_clock \<Rightarrow> u32 \<times> bundle_clock" where
  "c_rng k = (let (r, s) = makeMulberry32 (bc_rngState k) in (r, k\<lparr>bc_rngState := s\<rparr>))"

definition c_now :: "bundle_clock \<Rightarrow> int \<times> bundle_clock" where
  "c_now k = (bc_now k + 1, k\<lparr>bc_now := bc_now k + 1\<rparr>)"

section \<open>The runner without isolates\<close>

definition map_adjust :: "('k \<times> 'v) list \<Rightarrow> 'k \<Rightarrow> ('v \<Rightarrow> 'v) \<Rightarrow> ('k \<times> 'v) list" where
  "map_adjust m k f = (case map_get m k of None \<Rightarrow> m | Some v \<Rightarrow> map_set k (f v) m)"

record 'b NoIvmGame =
  ng_assignment :: RunnerAssignment
  ng_bundle :: 'b
  ng_startedAt :: int
  ng_cpuMs :: int
  ng_memoryBytes :: int

record 'b NoIvmRunnerProcess =
  nv_id :: string
  nv_assignedGames :: js_set
  nv_games :: "'b NoIvmGame js_map"

text \<open>\<open>loaded\<close>: the script threw, installed no bundle, or installed one.\<close>

definition noivm_assign ::
  "int \<Rightarrow> string + 'b option \<Rightarrow> RunnerAssignment \<Rightarrow> 'b NoIvmRunnerProcess \<times> ProcessBrokerBridge
   \<Rightarrow> (string + unit) \<times> 'b NoIvmRunnerProcess \<times> ProcessBrokerBridge" where
  "noivm_assign now loaded a = (\<lambda>(R, b).
     if map_has (nv_games R) (ra_gameId a) then (Inl (''game '' @ ra_gameId a @ '' is already assigned''), R, b)
     else case loaded of
       Inl e \<Rightarrow> (Inl e, R, b)
     | Inr None \<Rightarrow> (Inl (''bundle '' @ as_bundleName a @ '' did not call __pax_install''), R, b)
     | Inr (Some bundle) \<Rightarrow>
         (Inr (),
          R\<lparr>nv_games := map_set (ra_gameId a)
               \<lparr>ng_assignment = a, ng_bundle = bundle, ng_startedAt = now, ng_cpuMs = 0, ng_memoryBytes = 0\<rparr> (nv_games R),
            nv_assignedGames := set_add (ra_gameId a) (nv_assignedGames R)\<rparr>,
          bridge_emit (ra_gameId a) ''isolate.ready''
            (JObj ([(''runnerId'', JStr (nv_id R)), (''bundleName'', JStr (as_bundleName a)),
               (''bundleCompatTag'', JStr (as_bundleCompatTag a))] @ str_field ''runId'' (as_runId a))) b))"

definition noivm_release :: "string \<Rightarrow> 'b NoIvmRunnerProcess \<Rightarrow> 'b NoIvmRunnerProcess" where
  "noivm_release gameId R =
     R\<lparr>nv_games := map_delete gameId (nv_games R), nv_assignedGames := set_delete gameId (nv_assignedGames R)\<rparr>"

definition noivm_stop :: "'b NoIvmRunnerProcess \<Rightarrow> 'b NoIvmRunnerProcess" where
  "noivm_stop R = R\<lparr>nv_games := [], nv_assignedGames := []\<rparr>"

datatype handler_member = Missing | NotAFunction | AFunction

text \<open>
  How the promise of a handler settles: never, or with a result at a time; \<open>hn_blocking\<close>: the
  handler ran to its end before the timer could fire.
\<close>

record handler_run =
  hn_result :: "(string + unit) option"
  hn_settledAt :: int
  hn_blocking :: bool

definition timed_out :: "string \<Rightarrow> int \<Rightarrow> string" where
  "timed_out label timeoutMs = label @ '' timed out after '' @ dec_int timeoutMs @ ''ms''"

definition withTimeout :: "handler_run \<Rightarrow> int \<Rightarrow> string \<Rightarrow> (string + unit) \<times> int" where
  "withTimeout run timeoutMs label =
     (case hn_result run of
        Some r \<Rightarrow> if hn_blocking run \<or> hn_settledAt run < timeoutMs then (r, hn_settledAt run)
                 else (Inl (timed_out label timeoutMs), timeoutMs)
      | None \<Rightarrow> (Inl (timed_out label timeoutMs), timeoutMs))"

definition complete_js :: "RunnerInvoke \<Rightarrow> int \<Rightarrow> js" where
  "complete_js i durationMs =
     JObj [(''handler'', JStr (handlerName (ri_handler i))), (''durationMs'', JNum durationMs), (''timeoutMs'', JNum (ri_timeoutMs i))]"

definition error_js :: "RunnerInvoke \<Rightarrow> string \<Rightarrow> string \<Rightarrow> int \<Rightarrow> js" where
  "error_js i e code durationMs =
     JObj [(''handler'', JStr (handlerName (ri_handler i))), (''error'', JStr e), (''code'', JStr code),
       (''durationMs'', JNum durationMs), (''timeoutMs'', JNum (ri_timeoutMs i))]"

definition noivm_emitTelemetry ::
  "int \<Rightarrow> string \<Rightarrow> 'b NoIvmRunnerProcess \<times> ProcessBrokerBridge \<Rightarrow> 'b NoIvmRunnerProcess \<times> ProcessBrokerBridge" where
  "noivm_emitTelemetry heapUsed gameId = (\<lambda>(R, b).
     case map_get (nv_games R) gameId of
       None \<Rightarrow> (R, b)
     | Some G \<Rightarrow>
        (R\<lparr>nv_games := map_set gameId (G\<lparr>ng_memoryBytes := heapUsed\<rparr>) (nv_games R)\<rparr>,
         emitTelemetry \<lparr>te_gameId = gameId, te_runnerId = nv_id R, te_memoryBytes = heapUsed, te_cpuMs = ng_cpuMs G,
           te_isolateCount = int (length (nv_games R))\<rparr> b))"

text \<open>
  \<^verbatim>\<open>invoke\<close> up to the await of the handler: \<open>Inr False\<close> when it is done, \<open>Inr True\<close> when the handler
  runs, \<open>Inl\<close> when it throws. \<open>noivm_invoke_end\<close> is the rest. \<open>heapUsed\<close> and \<open>elapsed\<close> are read outside.
\<close>

definition noivm_invoke_begin ::
  "('b \<Rightarrow> RuntimeHandlerName \<Rightarrow> handler_member) \<Rightarrow> int \<Rightarrow> int \<Rightarrow> RunnerInvoke \<Rightarrow> 'b NoIvmRunnerProcess \<times> ProcessBrokerBridge
   \<Rightarrow> (string + bool) \<times> 'b NoIvmRunnerProcess \<times> ProcessBrokerBridge" where
  "noivm_invoke_begin members heapUsed elapsed i = (\<lambda>(R, b).
     case map_get (nv_games R) (ri_gameId i) of
       None \<Rightarrow> (Inl (''game '' @ ri_gameId i @ '' is not assigned to no-ivm runner '' @ nv_id R), R, b)
     | Some G \<Rightarrow>
        (case members (ng_bundle G) (ri_handler i) of
           Missing \<Rightarrow> (Inr False, noivm_emitTelemetry heapUsed (ri_gameId i)
              (R, bridge_emit (ri_gameId i) ''handler.complete'' (complete_js i elapsed) b))
         | NotAFunction \<Rightarrow> (Inl (handlerName (ri_handler i) @ '' is not a function''), R, b)
         | AFunction \<Rightarrow> (Inr True, R, b)))"

definition noivm_invoke_end ::
  "int \<Rightarrow> handler_run \<Rightarrow> RunnerInvoke \<Rightarrow> 'b NoIvmRunnerProcess \<times> ProcessBrokerBridge
   \<Rightarrow> (string + unit) \<times> 'b NoIvmRunnerProcess \<times> ProcessBrokerBridge" where
  "noivm_invoke_end heapUsed run i = (\<lambda>(R, b).
     let label = handlerName (ri_handler i);
         (settled, durationMs) = withTimeout run (ri_timeoutMs i) label;
         result = (case settled of Inr u \<Rightarrow> if durationMs \<ge> ri_timeoutMs i then Inl (timed_out label (ri_timeoutMs i)) else Inr u
                   | Inl e \<Rightarrow> Inl e)
     in case result of
          Inr u \<Rightarrow>
            (Inr (), noivm_emitTelemetry heapUsed (ri_gameId i)
               (R\<lparr>nv_games := map_adjust (nv_games R) (ri_gameId i) (\<lambda>G. G\<lparr>ng_cpuMs := ng_cpuMs G + durationMs\<rparr>)\<rparr>,
                bridge_emit (ri_gameId i) ''handler.complete'' (complete_js i durationMs) b))
        | Inl e \<Rightarrow>
            (Inl e, R, bridge_emit (ri_gameId i) ''handler.error''
               (error_js i e (if durationMs \<ge> ri_timeoutMs i then ''handlerTimeout'' else ''handlerException'') durationMs) b))"

text \<open>The answer for a blob of no bytes is read as for a blob that is not there.\<close>

lemma empty_blob_reads_absent:
  "blob_get_bytes (JObj [(''found'', JBool True), (''bytesBase64'', JStr (b64_encode []))]) = None"
  by code_simp

end
