(* ===== verification/RunnerProcess.thy ===== *)
theory RunnerProcess
  imports RunnerHost
begin

text \<open>
  \<^verbatim>\<open>RunnerChildHost\<close> of \<^verbatim>\<open>runtime/runner/src/child-process.mts\<close>: the loop of a runner process. Its
  runner is the one without isolates. \<open>hs_chains\<close> has for each game its operations in order, the
  one that runs first; \<open>hs_running\<close> has the handlers that are being awaited; \<open>hs_done\<close> the
  operations that have ended.
\<close>

record HostAssignment = RunnerAssignment +
  ha_handlerTimeoutMs :: "int option"

record running_handler =
  rn_frame :: frame
  rn_context :: "nat option"
  rn_invoke :: RunnerInvoke

record 'b RunnerChildHost =
  hs_id :: string
  hs_kind :: RunnerKind
  hs_maxAssignedGames :: int
  hs_runtimeContractsSupported :: "int \<times> int"
  hs_defaultHandlerTimeoutMs :: int
  hs_pid :: int
  hs_started :: bool
  hs_bridge :: ProcessBrokerBridge
  hs_runner :: "'b NoIvmRunnerProcess"
  hs_assignments :: "HostAssignment js_map"
  hs_chains :: "frame list js_map"
  hs_running :: "running_handler js_map"
  hs_done :: "frame list"
  hs_exitCode :: "int option"

definition new_bridge :: ProcessBrokerBridge where
  "new_bridge = \<lparr>pb_pending = [], pb_responseContexts = [], pb_emittedRequestIds = [], pb_telemetryFallbacks = [],
     pb_sent = [], pb_settled = [], pb_nextRef = 0\<rparr>"

definition new_host :: "string \<Rightarrow> int \<Rightarrow> int \<times> int \<Rightarrow> int \<Rightarrow> int \<Rightarrow> 'b RunnerChildHost" where
  "new_host i maxGames contracts timeoutMs pid =
     \<lparr>hs_id = i, hs_kind = Noivm, hs_maxAssignedGames = maxGames, hs_runtimeContractsSupported = contracts,
      hs_defaultHandlerTimeoutMs = timeoutMs, hs_pid = pid, hs_started = False, hs_bridge = new_bridge,
      hs_runner = \<lparr>nv_id = i, nv_assignedGames = [], nv_games = []\<rparr>, hs_assignments = [], hs_chains = [], hs_running = [],
      hs_done = [], hs_exitCode = None\<rparr>"

section \<open>Messages of the host\<close>

definition on_bridge :: "(ProcessBrokerBridge \<Rightarrow> ProcessBrokerBridge) \<Rightarrow> 'b RunnerChildHost \<Rightarrow> 'b RunnerChildHost" where
  "on_bridge f h = h\<lparr>hs_bridge := f (hs_bridge h)\<rparr>"

definition sendRunnerReady :: "'b RunnerChildHost \<Rightarrow> 'b RunnerChildHost" where
  "sendRunnerReady h =
     on_bridge (sendRunnerEnvelope (control_frame ''runner.ready''
       (JObj [(''runnerId'', JStr (hs_id h)), (''kind'', JStr (runnerKind (hs_kind h))),
          (''maxAssignedGames'', JNum (hs_maxAssignedGames h)),
          (''runtimeContractsSupported'', JArr [JNum (fst (hs_runtimeContractsSupported h)), JNum (snd (hs_runtimeContractsSupported h))]),
          (''pid'', JNum (hs_pid h))]))) h"

definition sendFatal :: "string \<Rightarrow> string \<Rightarrow> string option \<Rightarrow> 'b RunnerChildHost \<Rightarrow> 'b RunnerChildHost" where
  "sendFatal gameId err requestId h =
     on_bridge (sendRunnerEnvelope (bridge_frame gameId ''isolate.fatal''
       (JObj [(''runnerId'', JStr (hs_id h)), (''message'', JStr ''runner child operation failed''), (''error'', JStr err),
          (''errorClass'', JStr ''unknown'')]) requestId)) h"

definition sendHandlerError :: "string \<Rightarrow> RunnerInvoke \<Rightarrow> string \<Rightarrow> string option \<Rightarrow> 'b RunnerChildHost \<Rightarrow> 'b RunnerChildHost" where
  "sendHandlerError gameId i err requestId h =
     on_bridge (sendRunnerEnvelope (bridge_frame gameId ''handler.error'' (error_js i err ''handlerException'' 0) requestId)) h"

definition sendUnknown :: "host \<Rightarrow> js \<Rightarrow> 'b RunnerChildHost \<Rightarrow> 'b RunnerChildHost" where
  "sendUnknown H v h = on_bridge (sendRunnerEnvelope (unknown_frame v (safeDetail H v))) h"

definition host_start :: "'b RunnerChildHost \<Rightarrow> 'b RunnerChildHost" where
  "host_start h = (if hs_started h then h else sendRunnerReady (h\<lparr>hs_started := True\<rparr>))"

definition shutdown :: "int \<Rightarrow> 'b RunnerChildHost \<Rightarrow> 'b RunnerChildHost" where
  "shutdown exitCode h = h\<lparr>hs_runner := noivm_stop (hs_runner h), hs_exitCode := Some exitCode\<rparr>"

section \<open>Receiving\<close>

definition handler_of :: "string \<Rightarrow> RuntimeHandlerName option" where
  "handler_of type =
     List.find (\<lambda>n. handlerName n = type)
       [H_onWake, H_onSleep, H_onPlayerConnect, H_onPlayerDisconnect, H_onPlayerMessage, H_onCapacityWarning, H_onHostEvent, H_onTick]"

definition isRuntimeHandler :: "string \<Rightarrow> bool" where
  "isRuntimeHandler type \<longleftrightarrow> handler_of type \<noteq> None"

definition toRunnerAssignment :: "frame \<Rightarrow> HostAssignment" where
  "toRunnerAssignment f =
     (let p = fr_payload f in
      \<lparr>as_bundleName = js_text (js_get p ''bundleName''), as_bundleSource = js_text (js_get p ''bundleSource''),
       as_bundleCompatTag = js_text (js_get p ''bundleCompatTag''), as_runId = js_string (js_get p ''runId''),
       as_memoryLimitMb = js_number (js_get p ''memoryLimitMb''), as_handlerTimeoutMs = js_number (js_get p ''handlerTimeoutMs''),
       as_testSeed = (case js_get p ''testSeed'' of JNum n \<Rightarrow> Some (SeedNum n) | JStr s \<Rightarrow> Some (SeedStr s) | _ \<Rightarrow> None),
       ra_gameId = default [] (fr_gameId f),
       ra_runtimeContractRequired = default RUNTIME_CONTRACT_VERSION (js_int (js_get p ''runtimeContractRequired'')),
       ra_generation = js_int (js_get p ''generation''), ha_handlerTimeoutMs = js_int (js_get p ''handlerTimeoutMs'')\<rparr>)"

definition enqueueGameOperation :: "string \<Rightarrow> frame \<Rightarrow> 'b RunnerChildHost \<Rightarrow> 'b RunnerChildHost" where
  "enqueueGameOperation gameId f h =
     h\<lparr>hs_chains := map_set gameId (default [] (map_get (hs_chains h) gameId) @ [f]) (hs_chains h)\<rparr>"

definition is_operation :: "frame \<Rightarrow> bool" where
  "is_operation f \<longleftrightarrow> fr_type f = ''assign'' \<or> fr_type f = ''release'' \<or> isRuntimeHandler (fr_type f)"

definition handleBrokerMessage :: "host \<Rightarrow> js \<Rightarrow> 'b RunnerChildHost \<Rightarrow> 'b RunnerChildHost" where
  "handleBrokerMessage H v h =
     (if \<not> isBrokerToRunnerEnvelope v then sendUnknown H v h
      else
        let f = frame_of v; (answered, b) = resolveBrokerResponse f (hs_bridge h)
        in if answered then h\<lparr>hs_bridge := b\<rparr>
           else if is_operation f then enqueueGameOperation (default [] (fr_gameId f)) f h
           else sendUnknown H v h)"

section \<open>Operations\<close>

text \<open>The end of the operation at the head of a game's chain.\<close>

definition finish_op :: "string \<Rightarrow> 'b RunnerChildHost \<Rightarrow> 'b RunnerChildHost" where
  "finish_op gameId h =
     (case map_get (hs_chains h) gameId of
        Some (f # fs) \<Rightarrow>
          h\<lparr>hs_chains := (if fs = [] then map_delete gameId (hs_chains h) else map_set gameId fs (hs_chains h)),
            hs_running := map_delete gameId (hs_running h), hs_done := hs_done h @ [f]\<rparr>
      | _ \<Rightarrow> h)"

definition head_op :: "string \<Rightarrow> 'b RunnerChildHost \<Rightarrow> frame option" where
  "head_op gameId h =
     (case map_get (hs_chains h) gameId of
        Some (f # fs) \<Rightarrow> if map_has (hs_running h) gameId then None else Some f
      | _ \<Rightarrow> None)"

definition host_assign :: "int \<Rightarrow> string + 'b option \<Rightarrow> string \<Rightarrow> frame \<Rightarrow> 'b RunnerChildHost \<Rightarrow> 'b RunnerChildHost" where
  "host_assign now loaded gameId f h =
     (let a = toRunnerAssignment f;
          failed = (\<lambda>e h. finish_op gameId (sendFatal gameId e (fr_requestId f)
                      (h\<lparr>hs_assignments := map_delete gameId (hs_assignments h)\<rparr>)))
      in if int (length (hs_assignments h)) \<ge> hs_maxAssignedGames h
         then failed (''runner '' @ hs_id h @ '' assignment capacity exceeded'') h
         else
           let (ref, b1) = with_enter gameId (fr_requestId f) [''isolate.ready'', ''isolate.fatal''] (hs_bridge h);
               (result, R, b2) = noivm_assign now loaded (RunnerAssignment.truncate a) (hs_runner h, b1);
               h1 = h\<lparr>hs_runner := R, hs_bridge := with_leave ref b2\<rparr>
           in case result of
                Inl e \<Rightarrow> failed e h1
              | Inr u \<Rightarrow> finish_op gameId (h1\<lparr>hs_assignments := map_set gameId a (hs_assignments h1)\<rparr>))"

definition host_release :: "string \<Rightarrow> 'b RunnerChildHost \<Rightarrow> 'b RunnerChildHost" where
  "host_release gameId h =
     finish_op gameId (h\<lparr>hs_runner := noivm_release gameId (hs_runner h), hs_assignments := map_delete gameId (hs_assignments h)\<rparr>)"

definition invoke_timeout :: "frame \<Rightarrow> HostAssignment \<Rightarrow> 'b RunnerChildHost \<Rightarrow> int" where
  "invoke_timeout f a h =
     (case fr_timeoutMs f of
        Some n \<Rightarrow> n
      | None \<Rightarrow> (case ha_handlerTimeoutMs a of Some n \<Rightarrow> n | None \<Rightarrow> hs_defaultHandlerTimeoutMs h))"

text \<open>The end of \<^verbatim>\<open>invoke\<close>, after its \<^verbatim>\<open>withResponseRequestId\<close>.\<close>

definition invoke_result :: "string \<Rightarrow> frame \<Rightarrow> RunnerInvoke \<Rightarrow> string + unit \<Rightarrow> 'b RunnerChildHost \<Rightarrow> 'b RunnerChildHost" where
  "invoke_result gameId f i result h =
     finish_op gameId
       (case result of
          Inr u \<Rightarrow> h
        | Inl e \<Rightarrow> if hasEmittedRequestId (fr_requestId f) (hs_bridge h) then h
                  else sendHandlerError gameId i e (fr_requestId f) h)"

definition host_invoke_begin ::
  "('b \<Rightarrow> RuntimeHandlerName \<Rightarrow> handler_member) \<Rightarrow> int \<Rightarrow> int \<Rightarrow> string \<Rightarrow> frame \<Rightarrow> RuntimeHandlerName \<Rightarrow> 'b RunnerChildHost \<Rightarrow> 'b RunnerChildHost" where
  "host_invoke_begin members heapUsed elapsed gameId f handler h =
     (case map_get (hs_assignments h) gameId of
        None \<Rightarrow> finish_op gameId (sendFatal gameId (''game '' @ gameId @ '' is not assigned'') (fr_requestId f) h)
      | Some a \<Rightarrow>
         let i = \<lparr>ri_gameId = gameId, ri_handler = handler, ri_payload = fr_payload f, ri_timeoutMs = invoke_timeout f a h,
                  ri_traceId = fr_traceId f\<rparr>;
             (ref, b1) = with_enter gameId (fr_requestId f) [''handler.complete'', ''handler.error''] (hs_bridge h);
             (result, R, b2) = noivm_invoke_begin members heapUsed elapsed i (hs_runner h, b1);
             left = h\<lparr>hs_runner := R, hs_bridge := with_leave ref b2\<rparr>
         in case result of
              Inl e \<Rightarrow> invoke_result gameId f i (Inl e) left
            | Inr False \<Rightarrow> invoke_result gameId f i (Inr ()) left
            | Inr True \<Rightarrow> h\<lparr>hs_runner := R, hs_bridge := b2,
                 hs_running := map_set gameId \<lparr>rn_frame = f, rn_context = ref, rn_invoke = i\<rparr> (hs_running h)\<rparr>)"

definition host_invoke_end :: "int \<Rightarrow> handler_run \<Rightarrow> string \<Rightarrow> running_handler \<Rightarrow> 'b RunnerChildHost \<Rightarrow> 'b RunnerChildHost" where
  "host_invoke_end heapUsed run gameId rn h =
     (let (result, R, b) = noivm_invoke_end heapUsed run (rn_invoke rn) (hs_runner h, hs_bridge h)
      in invoke_result gameId (rn_frame rn) (rn_invoke rn) result
           (h\<lparr>hs_runner := R, hs_bridge := with_leave (rn_context rn) b\<rparr>))"

end
