(* ===== verification/RunnerChildProps.thy ===== *)
theory RunnerChildProps
  imports RunnerChild
begin

text \<open>
  The runs of a runner process seen from the Broker, and what they keep: every request is settled
  once, and after the exit nothing waits and no game is assigned.
\<close>

section \<open>Runs\<close>

definition fresh_id :: "string \<Rightarrow> ChildProcessRunnerProcess \<Rightarrow> bool" where
  "fresh_id r c \<longleftrightarrow> r \<noteq> [] \<and> Waits r \<notin> set (ch_log c)"

inductive child_step :: "ChildProcessRunnerProcess \<Rightarrow> ChildProcessRunnerProcess \<Rightarrow> bool" where
  step_assign: "fresh_id r c \<Longrightarrow> child_assign r a c = (x, c') \<Longrightarrow> child_step c c'"
| step_invoke: "fresh_id r c \<Longrightarrow> child_invoke r i c = (x, c') \<Longrightarrow> child_step c c'"
| step_send: "child_send f c = (x, c') \<Longrightarrow> child_step c c'"
| step_release: "release_begin g c = (y, c') \<Longrightarrow> child_step c c'"
| step_released: "child_step c (release_end g c)"
| step_stop: "child_step c (child_stop c)"
| step_stop_timeout: "child_step c (stop_timeout c)"
| step_crash: "crashForTest c = (b, c') \<Longrightarrow> child_step c c'"
| step_message: "child_step c (message_begin H v c)"
| step_handled: "child_step c (message_end f failed c)"
| step_send_failed: "child_step c (send_failed r e c)"
| step_timeout: "child_step c (wait_timeout r c)"
| step_error: "child_step c (child_error m c)"
| step_disconnect: "child_step c (c\<lparr>ch_connected := False\<rparr>)"
| step_exit: "\<not> ch_exited c \<Longrightarrow> child_step c (child_exit code signal c)"

inductive child_run :: "ChildProcessRunnerProcess \<Rightarrow> ChildProcessRunnerProcess \<Rightarrow> bool" where
  run_refl: "child_run c c"
| run_step: "child_run c c' \<Longrightarrow> child_step c' c'' \<Longrightarrow> child_run c c''"

section \<open>The books\<close>

definition waits :: "ChildProcessRunnerProcess \<Rightarrow> string \<Rightarrow> nat" where
  "waits c r = length (filter (\<lambda>e. e = Waits r) (ch_log c))"

definition settles :: "ChildProcessRunnerProcess \<Rightarrow> string \<Rightarrow> nat" where
  "settles c r = length (filter (\<lambda>e. \<exists>x. e = Settled r x) (ch_log c))"

definition waiting :: "ChildProcessRunnerProcess \<Rightarrow> string \<Rightarrow> bool" where
  "waiting c r \<longleftrightarrow> map_get (ch_pending c) r \<noteq> None"

text \<open>A request was never made, or waits, or has been settled once.\<close>

definition book :: "nat \<Rightarrow> nat \<Rightarrow> bool \<Rightarrow> bool" where
  "book w n p \<longleftrightarrow> (w, n, p) \<in> {(0, 0, False), (1, 0, True), (1, 1, False)}"

lemma book_steps:
  "book w n True \<Longrightarrow> book w (Suc n) False" "book 0 n p \<Longrightarrow> book (Suc 0) n True" "book 0 n p \<Longrightarrow> book (Suc 0) (Suc n) False"
  by (auto simp: book_def)

definition child_ok :: "ChildProcessRunnerProcess \<Rightarrow> bool" where
  "child_ok c \<longleftrightarrow>
     (\<forall>r. book (waits c r) (settles c r) (waiting c r))
     \<and> (ch_exited c \<longrightarrow> ch_pending c = [] \<and> ch_assignedGames c = [])"

text \<open>Changes of a process that touch neither the table nor the entries of the log that count.\<close>

definition books_same :: "ChildProcessRunnerProcess \<Rightarrow> ChildProcessRunnerProcess \<Rightarrow> bool" where
  "books_same c c' \<longleftrightarrow> waits c' = waits c \<and> settles c' = settles c \<and> ch_pending c' = ch_pending c
     \<and> ch_exited c' = ch_exited c \<and> (ch_exited c \<longrightarrow> ch_assignedGames c = [] \<longrightarrow> ch_assignedGames c' = [])"

lemma books_same_ok: "books_same c c' \<Longrightarrow> child_ok c \<Longrightarrow> child_ok c'"
  by (auto simp: books_same_def child_ok_def waiting_def)

lemma books_log:
  "e \<notin> range Waits \<Longrightarrow> e \<notin> {Settled r x |r x. True} \<Longrightarrow> books_same c (child_log e c)"
  by (auto simp: books_same_def child_log_def waits_def settles_def fun_eq_iff)

lemma log_ok:
  assumes "child_ok c" and "\<And>r. e \<noteq> Waits r" and "\<And>r x. e \<noteq> Settled r x"
  shows "child_ok (child_log e c)"
  by (rule books_same_ok [OF books_log assms(1)]) (use assms(2,3) in auto)

lemma books_connected: "books_same c (c\<lparr>ch_connected := b\<rparr>)" "books_same c (c\<lparr>ch_stopping := b\<rparr>)"
  "books_same c (c\<lparr>ch_assignedGames := set_delete g (ch_assignedGames c)\<rparr>)"
  by (simp_all add: books_same_def waits_def settles_def fun_eq_iff set_delete_def)

lemma reject_fields [simp]:
  "ch_exited (child_rejectPending e r c) = ch_exited c" "ch_assignedGames (child_rejectPending e r c) = ch_assignedGames c"
  "ch_pending (child_rejectPending e r c) = map_delete r (ch_pending c)" "ch_stopping (child_rejectPending e r c) = ch_stopping c"
  "ch_connected (child_rejectPending e r c) = ch_connected c" "ch_id (child_rejectPending e r c) = ch_id c"
  "ch_maxAssignedGames (child_rejectPending e r c) = ch_maxAssignedGames c"
  by (auto simp: child_rejectPending_def child_log_def map_delete_absent map_of_eq_None_iff split: option.split)

lemma settle_books:
  assumes "waiting c r" and "c' = child_log (Settled r x) (c\<lparr>ch_pending := map_delete r (ch_pending c)\<rparr>)"
  shows "waits c' = waits c" and "settles c' = (settles c)(r := settles c r + 1)" and "waiting c' r' \<longleftrightarrow> waiting c r' \<and> r' \<noteq> r"
  using assms by (auto simp: waits_def settles_def waiting_def child_log_def fun_eq_iff delete_conv')

lemma settle_ok:
  assumes "child_ok c" and "waiting c r"
  shows "child_ok (child_log (Settled r x) (c\<lparr>ch_pending := map_delete r (ch_pending c)\<rparr>))" (is "child_ok ?c")
proof -
  have "book (waits ?c r') (settles ?c r') (waiting ?c r')" for r'
  proof -
    have "book (waits c r) (settles c r) True" using assms by (metis child_ok_def)
    then have "book (waits c r) (Suc (settles c r)) False" by (rule book_steps(1))
    then show ?thesis using assms(1) settle_books [OF assms(2) refl, of x] by (simp add: child_ok_def)
  qed
  moreover have "\<not> ch_exited c" using assms by (auto simp: child_ok_def waiting_def)
  ultimately show ?thesis by (simp add: child_ok_def child_log_def)
qed

lemma reject_ok: "child_ok c \<Longrightarrow> child_ok (child_rejectPending e r c)"
  using settle_ok [of c r] by (auto simp: child_rejectPending_def waiting_def split: option.split)

lemma fold_reject_ok: "child_ok c \<Longrightarrow> child_ok (fold (child_rejectPending e) rs c)"
  by (induction rs arbitrary: c) (simp_all add: reject_ok)

lemma fold_reject_fields [simp]:
  "ch_exited (fold (child_rejectPending e) rs c) = ch_exited c"
  "ch_assignedGames (fold (child_rejectPending e) rs c) = ch_assignedGames c"
  "ch_pending (fold (child_rejectPending e) rs c) = fold map_delete rs (ch_pending c)"
  "ch_stopping (fold (child_rejectPending e) rs c) = ch_stopping c"
  "ch_id (fold (child_rejectPending e) rs c) = ch_id c"
  "ch_maxAssignedGames (fold (child_rejectPending e) rs c) = ch_maxAssignedGames c"
  by (induction rs arbitrary: c) simp_all

lemma reject_frame:
  "child_rejectPending e r (c\<lparr>ch_exited := x, ch_connected := y, ch_assignedGames := z\<rparr>)
     = (child_rejectPending e r c)\<lparr>ch_exited := x, ch_connected := y, ch_assignedGames := z\<rparr>"
  by (simp add: child_rejectPending_def child_log_def split: option.split)

lemma failAll_frame:
  "failAll e (c\<lparr>ch_exited := x, ch_connected := y, ch_assignedGames := z\<rparr>)
     = (failAll e c)\<lparr>ch_exited := x, ch_connected := y, ch_assignedGames := z\<rparr>"
proof -
  have "fold (child_rejectPending e) rs (c\<lparr>ch_exited := x, ch_connected := y, ch_assignedGames := z\<rparr>)
      = (fold (child_rejectPending e) rs c)\<lparr>ch_exited := x, ch_connected := y, ch_assignedGames := z\<rparr>" for rs
    by (induction rs arbitrary: c) (simp_all add: reject_frame)
  then show ?thesis by (simp add: failAll_def)
qed

lemma fold_delete_subset: "set (map fst m) \<subseteq> set rs \<Longrightarrow> fold map_delete rs m = []"
proof (induction rs arbitrary: m)
  case (Cons r rs)
  have "set (map fst (map_delete r m)) \<subseteq> set rs" using Cons.prems by (auto simp: delete_keys)
  then show ?case using Cons.IH by simp
qed simp

lemma failAll_pending [simp]: "ch_pending (failAll e c) = []"
  by (simp add: failAll_def fold_delete_subset)

lemma failAll_fields [simp]:
  "ch_exited (failAll e c) = ch_exited c" "ch_assignedGames (failAll e c) = ch_assignedGames c"
  "ch_stopping (failAll e c) = ch_stopping c" "ch_id (failAll e c) = ch_id c" "ch_maxAssignedGames (failAll e c) = ch_maxAssignedGames c"
  by (simp_all add: failAll_def)

lemma failAll_ok: "child_ok c \<Longrightarrow> child_ok (failAll e c)"
  by (simp add: failAll_def fold_reject_ok)

lemma resolve_ok:
  assumes "child_ok c"
  shows "child_ok (resolvePending r c)"
proof (cases "map_get (ch_pending c) r")
  case (Some p)
  then have w: "waiting c r" by (simp add: waiting_def)
  have x: "\<not> ch_exited c" using assms w by (auto simp: child_ok_def waiting_def)
  have "child_ok (c1\<lparr>ch_assignedGames := gs\<rparr>)" if "child_ok c1" "\<not> ch_exited c1" for c1 gs
    using that by (simp add: child_ok_def waits_def settles_def waiting_def cong: if_cong)
  then show ?thesis
    using settle_ok [OF assms w, of "Inr ()"] x Some by (auto simp: resolvePending_def Let_def child_log_def split: bool.split option.split)
qed (simp add: resolvePending_def assms)

lemma wait_ok:
  assumes "child_ok c" and "fresh_id r c" and "\<not> ch_exited c"
  shows "child_ok (waitFor r p c)"
proof -
  have 0: "waits c r = 0" using assms(2) by (auto simp: fresh_id_def waits_def filter_empty_conv)
  have "waits (waitFor r p c) = (waits c)(r := waits c r + 1)" "settles (waitFor r p c) = settles c"
    "waiting (waitFor r p c) r' \<longleftrightarrow> waiting c r' \<or> r' = r" for r'
    by (auto simp: waits_def settles_def waiting_def waitFor_def child_log_def update_conv' fun_eq_iff)
  moreover have "book 0 (settles c r) (waiting c r)" using assms(1) 0 unfolding child_ok_def by metis
  ultimately have "book (waits (waitFor r p c) r') (settles (waitFor r p c) r') (waiting (waitFor r p c) r')" for r'
    using assms(1) 0 book_steps(2) by (simp add: child_ok_def)
  then show ?thesis using assms(3) by (simp add: child_ok_def) (simp add: waitFor_def child_log_def)
qed

text \<open>Opening a request on a process that cannot be sent to settles it at once.\<close>

lemma request_ok:
  assumes "child_ok c" and "fresh_id r c"
  shows "child_ok (request_child r p f c)"
proof (cases "ch_exited c")
  case False
  then have w: "child_ok (waitFor r p c)" by (rule wait_ok [OF assms])
  show ?thesis
    using w reject_ok [OF w] by (auto simp: log_ok request_child_def sendToChild_def)
next
  case True
  have p: "ch_pending c = []" "ch_assignedGames c = []" using assms(1) True by (simp_all add: child_ok_def)
  let ?e = "Inl (''runner child '' @ ch_id c @ '' is not connected'')"
  have r: "request_child r p f c = c\<lparr>ch_log := ch_log c @ [Waits r, Settled r ?e]\<rparr>"
    using True p by (simp add: request_child_def sendToChild_def waitFor_def child_log_def child_rejectPending_def)
  have 0: "waits c r = 0" using assms(2) by (auto simp: fresh_id_def waits_def filter_empty_conv)
  have n: "waits (request_child r p f c) r' = waits c r' + (if r' = r then 1 else 0)"
    "settles (request_child r p f c) r' = settles c r' + (if r' = r then 1 else 0)" for r'
    unfolding r by (simp_all add: waits_def settles_def)
  have "book 0 (settles c r) (waiting c r)" using assms(1) 0 unfolding child_ok_def by metis
  moreover have "\<not> waiting (request_child r p f c) r'" "\<not> waiting c r'" for r' using p unfolding r by (simp_all add: waiting_def)
  ultimately have "book (waits (request_child r p f c) r') (settles (request_child r p f c) r') (waiting (request_child r p f c) r')" for r'
    using assms(1) 0 book_steps(3) by (simp add: n child_ok_def)
  moreover have "ch_pending (request_child r p f c) = []" "ch_assignedGames (request_child r p f c) = []" using p unfolding r by simp_all
  ultimately show ?thesis by (simp add: child_ok_def)
qed

lemmas child_books = reject_ok fold_reject_ok failAll_ok resolve_ok request_ok

lemma message_ok: "child_ok c \<Longrightarrow> child_ok (message_end f failed c)"
  by (auto simp: message_end_def completePendingForEnvelope_def child_books split: option.split)

lemma child_step_ok:
  assumes "child_step c c'" and "child_ok c"
  shows "child_ok c'"
  using assms
proof (cases rule: child_step.cases)
  case (step_send f x)
  show ?thesis using step_send assms(2) by (auto simp: log_ok child_send_def sendToChild_def split: if_splits)
next
  case (step_release g y)
  show ?thesis
    using step_release assms(2) by (auto simp: log_ok release_begin_def sendToChild_def split: if_splits)
next
  case (step_released g)
  have "child_ok (c\<lparr>ch_assignedGames := set_delete g (ch_assignedGames c)\<rparr>)"
    by (rule books_same_ok [OF books_connected(3) assms(2)])
  then show ?thesis using step_released by (simp add: release_end_def rejectGamePending_def fold_reject_ok)
next
  case step_stop
  have "child_ok (failAll m (c\<lparr>ch_stopping := True\<rparr>))" for m
    by (rule failAll_ok [OF books_same_ok [OF books_connected(2) assms(2)]])
  then show ?thesis using step_stop assms(2) by (auto simp: log_ok child_stop_def)
next
  case step_stop_timeout
  show ?thesis using step_stop_timeout assms(2) by (auto simp: log_ok stop_timeout_def)
next
  case (step_crash b)
  show ?thesis using step_crash assms(2) by (auto simp: log_ok crashForTest_def split: if_splits)
next
  case (step_message H v)
  show ?thesis using step_message assms(2) by (auto simp: log_ok message_begin_def)
next
  case step_disconnect
  then show ?thesis using books_same_ok [OF books_connected(1) assms(2)] by simp
next
  case (step_exit code signal)
  let ?c = "c\<lparr>ch_exited := True, ch_connected := False, ch_assignedGames := []\<rparr>"
  have f: "child_ok (failAll m ?c)" for m
    using failAll_ok [OF assms(2), of m] unfolding failAll_frame by (simp add: child_ok_def waits_def settles_def waiting_def)
  show ?thesis using step_exit f by (auto simp: log_ok child_exit_def Let_def)
qed (auto simp: child_assign_def child_invoke_def send_failed_def wait_timeout_def child_error_def child_books message_ok
       split: if_splits option.split)

lemma child_run_ok: "child_run c c' \<Longrightarrow> child_ok c \<Longrightarrow> child_ok c'"
  by (induction rule: child_run.induct) (auto intro: child_step_ok)

lemma new_child_ok: "child_ok (new_child i k n)"
  by (simp add: child_ok_def new_child_def waits_def settles_def waiting_def book_def)

section \<open>Properties\<close>

text \<open>
  C27: in every run of a runner process, a request made to it is settled exactly once, or still
  waits with its timer; nothing that was not asked for is settled; and once the process has
  exited nothing waits and no game is assigned to it, also for requests made after the exit.
\<close>

theorem requests_settled_once:
  assumes "child_run (new_child i k n) c"
  shows "(\<forall>r. settles c r = (if Waits r \<in> set (ch_log c) \<and> \<not> waiting c r then 1 else 0))
    \<and> (\<forall>r. waiting c r \<longrightarrow> Waits r \<in> set (ch_log c))
    \<and> (ch_exited c \<longrightarrow> (\<forall>r. \<not> waiting c r) \<and> ch_assignedGames c = [])"
proof -
  have ok: "child_ok c" by (rule child_run_ok [OF assms new_child_ok])
  have w: "Waits r \<in> set (ch_log c) \<longleftrightarrow> waits c r \<noteq> 0" for r by (auto simp: waits_def filter_empty_conv)
  have b: "book (waits c r) (settles c r) (waiting c r)" for r using ok by (simp add: child_ok_def)
  have "settles c r = (if waits c r \<noteq> 0 \<and> \<not> waiting c r then 1 else 0) \<and> (waiting c r \<longrightarrow> waits c r \<noteq> 0)" for r
    using b [of r] by (auto simp: book_def)
  then show ?thesis using ok w by (simp add: child_ok_def waiting_def)
qed

definition assignment0 :: RunnerAssignment where
  "assignment0 = \<lparr>as_bundleName = ''b'', as_bundleSource = ''s'', as_bundleCompatTag = ''t'', as_runId = None,
     as_memoryLimitMb = 1, as_handlerTimeoutMs = 1, as_testSeed = None, ra_gameId = ''g'', ra_runtimeContractRequired = 1,
     ra_generation = None\<rparr>"

definition crashed_child :: ChildProcessRunnerProcess where
  "crashed_child = child_exit (Some 1) None
     (message_end (bridge_frame ''g'' ''isolate.ready'' (JObj []) (Some ''r'')) None (snd (child_assign ''r'' assignment0 (new_child ''c'' Noivm 4))))"

lemma crashed_child_run: "child_run (new_child ''c'' Noivm 4) crashed_child"
proof -
  let ?c0 = "new_child ''c'' Noivm 4" and ?c1 = "snd (child_assign ''r'' assignment0 (new_child ''c'' Noivm 4))"
  let ?c2 = "message_end (bridge_frame ''g'' ''isolate.ready'' (JObj []) (Some ''r'')) None ?c1"
  have 1: "child_step ?c0 ?c1"
    by (rule step_assign [where r = "''r''" and a = assignment0 and x = "fst (child_assign ''r'' assignment0 ?c0)"])
       (simp_all add: fresh_id_def new_child_def)
  have 2: "child_step ?c1 ?c2" by (rule step_handled)
  have "\<not> ch_exited ?c2" by code_simp
  then have 3: "child_step ?c2 crashed_child" unfolding crashed_child_def by (rule step_exit)
  show ?thesis by (rule run_step [OF run_step [OF run_step [OF run_refl 1] 2] 3])
qed

lemma crashed_child_facts:
  "ch_exited crashed_child" "Waits ''r'' \<in> set (ch_log crashed_child)"
  "CrashReported \<lparr>ce_runnerId = ''c'', ce_affectedGameIds = [''g''], ce_maxAssignedGames = 4, ce_code = Some 1, ce_signal = None\<rparr>
     \<in> set (ch_log crashed_child)"
  by code_simp+

theorem requests_settled_once_witness:
  "child_run (new_child ''c'' Noivm 4) crashed_child \<and> settles crashed_child ''r'' = 1 \<and> ch_assignedGames crashed_child = []"
  using requests_settled_once [OF crashed_child_run] crashed_child_run crashed_child_facts by auto

end
