(* ===== verification/RunnerProcessProps.thy ===== *)
theory RunnerProcessProps
  imports RunnerProcess RunnerChildProps
begin

text \<open>
  The runs of a runner process: whatever the bundles do and however the operations of different
  games interleave, every operation that the Broker asks for is answered exactly once, under its
  request id, and no other message carries that id.
\<close>

section \<open>Views of the state\<close>

definition op_id :: "frame \<Rightarrow> string option" where
  "op_id f = truthy (fr_requestId f)"

definition ids :: "frame list \<Rightarrow> string list" where
  "ids fs = List.map_filter op_id fs"

definition chain :: "'b RunnerChildHost \<Rightarrow> string \<Rightarrow> frame list" where
  "chain h g = default [] (map_get (hs_chains h) g)"

definition replies :: "ProcessBrokerBridge \<Rightarrow> string \<Rightarrow> frame list" where
  "replies b r = filter (\<lambda>x. fr_requestId x = Some r) (pb_sent b)"

definition answers :: "frame \<Rightarrow> frame \<Rightarrow> bool" where
  "answers f x \<longleftrightarrow> fr_gameId x = fr_gameId f
     \<and> fr_type x \<in> (if fr_type f = ''assign'' then {''isolate.ready'', ''isolate.fatal''}
                     else {''handler.complete'', ''handler.error'', ''isolate.fatal''})"

definition used_ids :: "'b RunnerChildHost \<Rightarrow> string set" where
  "used_ids h = {r. replies (hs_bridge h) r \<noteq> []} \<union> (\<Union>g. set (ids (chain h g))) \<union> set (ids (hs_done h))"

section \<open>Runs\<close>

definition fresh_message :: "js \<Rightarrow> 'b RunnerChildHost \<Rightarrow> bool" where
  "fresh_message v h = (case op_id (frame_of v) of None \<Rightarrow> True | Some r \<Rightarrow> r \<notin> used_ids h)"

inductive host_step :: "'b RunnerChildHost \<Rightarrow> 'b RunnerChildHost \<Rightarrow> bool" where
  h_start: "host_step h (host_start h)"
| h_receive: "fresh_message v h \<Longrightarrow> host_step h (handleBrokerMessage H v h)"
| h_assign: "head_op g h = Some f \<Longrightarrow> fr_type f = ''assign'' \<Longrightarrow> host_step h (host_assign now loaded g f h)"
| h_release: "head_op g h = Some f \<Longrightarrow> fr_type f = ''release'' \<Longrightarrow> host_step h (host_release g h)"
| h_invoke: "head_op g h = Some f \<Longrightarrow> handler_of (fr_type f) = Some n \<Longrightarrow>
    host_step h (host_invoke_begin members heapUsed elapsed g f n h)"
| h_settled: "map_get (hs_running h) g = Some rn \<Longrightarrow> host_step h (host_invoke_end heapUsed run g rn h)"
| h_sdk: "uuid \<noteq> [] \<Longrightarrow> uuid \<notin> used_ids h \<Longrightarrow> sdk_perform H uuid g call (hs_bridge h) = (x, b) \<Longrightarrow> host_step h (h\<lparr>hs_bridge := b\<rparr>)"
| h_telemetry: "host_step h (on_bridge (telemetry_fire key) h)"
| h_timeout: "host_step h (on_bridge (bridge_timeout r) h)"

inductive host_run :: "'b RunnerChildHost \<Rightarrow> 'b RunnerChildHost \<Rightarrow> bool" where
  hrun_refl: "host_run h h"
| hrun_step: "host_run h h' \<Longrightarrow> host_step h' h'' \<Longrightarrow> host_run h h''"

section \<open>The invariant\<close>

abbreviation handler_types :: "string list" where
  "handler_types \<equiv> [''handler.complete'', ''handler.error'']"

definition running_ctx :: "ResponseRequestContext list \<Rightarrow> string \<Rightarrow> running_handler \<Rightarrow> bool" where
  "running_ctx cs g rn =
     (case op_id (rn_frame rn) of
        None \<Rightarrow> rn_context rn = None
      | Some r \<Rightarrow> \<exists>n. rn_context rn = Some n
          \<and> \<lparr>rx_ref = n, rx_gameId = g, rx_requestId = r, rx_responseTypes = handler_types\<rparr> \<in> set cs)"

lemma running_ctx_mono:
  "running_ctx cs g rn \<Longrightarrow> (\<And>x. x \<in> set cs \<Longrightarrow> rx_gameId x = g \<Longrightarrow> x \<in> set cs') \<Longrightarrow> running_ctx cs' g rn"
  by (force simp: running_ctx_def split: option.splits)

definition contexts_ok :: "'b RunnerChildHost \<Rightarrow> bool" where
  "contexts_ok h \<longleftrightarrow>
     (\<forall>x \<in> set (pb_responseContexts (hs_bridge h)). rx_ref x < pb_nextRef (hs_bridge h) \<and> rx_responseTypes x = handler_types
        \<and> (\<exists>rn. map_get (hs_running h) (rx_gameId x) = Some rn \<and> rn_context rn = Some (rx_ref x)
             \<and> op_id (rn_frame rn) = Some (rx_requestId x)))
     \<and> (\<forall>x \<in> set (pb_responseContexts (hs_bridge h)). \<forall>y \<in> set (pb_responseContexts (hs_bridge h)). rx_ref x = rx_ref y \<longrightarrow> x = y)
     \<and> (\<forall>g rn. map_get (hs_running h) g = Some rn \<longrightarrow> running_ctx (pb_responseContexts (hs_bridge h)) g rn)"

definition chains_ok :: "'b RunnerChildHost \<Rightarrow> bool" where
  "chains_ok h \<longleftrightarrow>
     (\<forall>g. (\<forall>f \<in> set (chain h g). fr_gameId f = Some g) \<and> distinct (ids (chain h g))
        \<and> set (ids (chain h g)) \<inter> set (ids (hs_done h)) = {}
        \<and> (\<forall>g'. g \<noteq> g' \<longrightarrow> set (ids (chain h g)) \<inter> set (ids (chain h g')) = {}))
     \<and> (\<forall>g rn. map_get (hs_running h) g = Some rn \<longrightarrow>
          (\<exists>fs. chain h g = rn_frame rn # fs) \<and> ri_gameId (rn_invoke rn) = g \<and> fr_type (rn_frame rn) \<notin> {''assign'', ''release''})"

definition replies_ok :: "'b RunnerChildHost \<Rightarrow> bool" where
  "replies_ok h \<longleftrightarrow>
     (\<forall>g. \<forall>r \<in> set (ids (chain h g)). replies (hs_bridge h) r = [])
     \<and> (\<forall>f \<in> set (hs_done h). fr_type f \<noteq> ''release'' \<longrightarrow>
          (\<forall>r. op_id f = Some r \<longrightarrow> (\<exists>x. replies (hs_bridge h) r = [x] \<and> answers f x)))
     \<and> (\<forall>r \<in> set (pb_emittedRequestIds (hs_bridge h)). r \<noteq> [] \<and> replies (hs_bridge h) r \<noteq> [])"

definition host_inv :: "'b RunnerChildHost \<Rightarrow> bool" where
  "host_inv h \<longleftrightarrow> chains_ok h \<and> contexts_ok h \<and> replies_ok h"

section \<open>The pieces\<close>

lemma ids_simps [simp]:
  "ids [] = []" "ids (f # fs) = (case op_id f of None \<Rightarrow> ids fs | Some r \<Rightarrow> r # ids fs)" "ids (fs @ fs') = ids fs @ ids fs'"
  by (simp_all add: ids_def map_filter_simps List.map_filter_def split: option.split)

lemma op_id_nonempty: "op_id f = Some r \<Longrightarrow> fr_requestId f = Some r \<and> r \<noteq> []"
  by (simp add: op_id_def truthy_Some)

lemma in_ids: "r \<in> set (ids fs) \<longleftrightarrow> (\<exists>f \<in> set fs. op_id f = Some r)"
  by (induction fs) (auto split: option.splits)

lemma ids_nonempty: "r \<in> set (ids fs) \<Longrightarrow> r \<noteq> []"
  using op_id_nonempty by (auto simp: in_ids)

lemma chain_finish:
  assumes "chain h g = f # fs"
  shows "chain (finish_op g h) = (chain h)(g := fs)" "hs_done (finish_op g h) = hs_done h @ [f]"
    "map_get (hs_running (finish_op g h)) = (map_get (hs_running h))(g := None)" "hs_bridge (finish_op g h) = hs_bridge h"
proof -
  have "map_get (hs_chains h) g = Some (f # fs)" using assms by (simp add: chain_def default_def split: option.splits)
  then show "chain (finish_op g h) = (chain h)(g := fs)" "hs_done (finish_op g h) = hs_done h @ [f]"
    "map_get (hs_running (finish_op g h)) = (map_get (hs_running h))(g := None)" "hs_bridge (finish_op g h) = hs_bridge h"
    by (auto simp: finish_op_def chain_def fun_eq_iff delete_conv' update_conv')
qed

lemma chain_enqueue: "chain (enqueueGameOperation g f h) = (chain h)(g := chain h g @ [f])"
  by (auto simp: enqueueGameOperation_def chain_def fun_eq_iff update_conv')

lemma head_op_chain: "head_op g h = Some f \<Longrightarrow> (\<exists>fs. chain h g = f # fs) \<and> map_get (hs_running h) g = None"
  by (auto simp: head_op_def chain_def map_has_def split: option.splits list.splits if_splits)

text \<open>The operation at the head of a chain has been answered by \<open>x\<close>, or was a release, and ends.\<close>

definition op_ends :: "string \<Rightarrow> frame \<Rightarrow> frame \<Rightarrow> 'b RunnerChildHost \<Rightarrow> 'b RunnerChildHost \<Rightarrow> bool" where
  "op_ends g f x h h' \<longleftrightarrow>
     chain h' = (chain h)(g := tl (chain h g)) \<and> hs_done h' = hs_done h @ [f]
     \<and> map_get (hs_running h') = (map_get (hs_running h))(g := None)
     \<and> pb_responseContexts (hs_bridge h') = filter (\<lambda>x. rx_gameId x \<noteq> g) (pb_responseContexts (hs_bridge h))
     \<and> pb_nextRef (hs_bridge h) \<le> pb_nextRef (hs_bridge h')
     \<and> (\<forall>r. r \<noteq> [] \<longrightarrow> replies (hs_bridge h') r
           = replies (hs_bridge h) r @ (if fr_type f \<noteq> ''release'' \<and> fr_requestId f = Some r then [x] else []))
     \<and> set (pb_emittedRequestIds (hs_bridge h')) \<subseteq> set (pb_emittedRequestIds (hs_bridge h)) \<union> {r. fr_type f \<noteq> ''release'' \<and> op_id f = Some r}
     \<and> (fr_type f \<noteq> ''release'' \<longrightarrow> answers f x)"

lemma chains_finish:
  assumes "chains_ok h" and "chain h g = f # fs" and "op_ends g f x h h'"
  shows "chains_ok h'"
proof -
  have c: "chain h' = (chain h)(g := fs)" "hs_done h' = hs_done h @ [f]" "map_get (hs_running h') = (map_get (hs_running h))(g := None)"
    using assms(2,3) by (simp_all add: op_ends_def fun_upd_def)
  note i = assms(1) [unfolded chains_ok_def, THEN conjunct1, rule_format]
  have "(\<forall>f \<in> set (chain h' g'). fr_gameId f = Some g') \<and> distinct (ids (chain h' g'))" for g'
    using i [of g'] assms(2) by (auto simp: c split: option.splits)
  moreover have sub: "set (ids (chain h' g')) \<subseteq> set (ids (chain h g'))" for g'
    using assms(2) by (auto simp: c split: option.splits)
  moreover have "set (ids (chain h' g')) \<inter> set (ids (hs_done h')) = {}" for g'
  proof (cases "g' = g")
    case True
    then show ?thesis using i [of g] assms(2) by (auto simp: c split: option.splits)
  next
    case False
    have "r \<notin> set (ids (chain h g'))" if "op_id f = Some r" for r
      using i [of g] False that assms(2) by auto
    then show ?thesis using False i [of g'] by (auto simp: c split: option.splits)
  qed
  moreover have "set (ids (chain h' g')) \<inter> set (ids (chain h' g'')) = {}" if "g' \<noteq> g''" for g' g''
    using i [of g'] that sub [of g'] sub [of g''] by blast
  ultimately show ?thesis
    using assms(1) unfolding chains_ok_def by (simp add: c)
qed

lemma contexts_finish:
  assumes "contexts_ok h" and "op_ends g f x h h'"
  shows "contexts_ok h'"
proof -
  have c: "map_get (hs_running h') = (map_get (hs_running h))(g := None)" "pb_nextRef (hs_bridge h) \<le> pb_nextRef (hs_bridge h')"
    "pb_responseContexts (hs_bridge h') = filter (\<lambda>x. rx_gameId x \<noteq> g) (pb_responseContexts (hs_bridge h))"
    using assms(2) by (simp_all add: op_ends_def fun_upd_def)
  have "running_ctx (pb_responseContexts (hs_bridge h')) ga rn" if "map_get (hs_running h') ga = Some rn" for ga rn
  proof -
    have ga: "ga \<noteq> g" "map_get (hs_running h) ga = Some rn" using that by (simp_all add: c(1) split: if_splits)
    then have "running_ctx (pb_responseContexts (hs_bridge h)) ga rn" using assms(1) unfolding contexts_ok_def by blast
    then show ?thesis by (rule running_ctx_mono) (use ga in \<open>auto simp: c(3)\<close>)
  qed
  then show ?thesis
    using assms(1) c(2) unfolding contexts_ok_def c(3) by (auto dest: less_le_trans simp: c(1))
qed

lemma replies_finish:
  assumes "chains_ok h" and "replies_ok h" and "chain h g = f # fs" and "op_ends g f x h h'"
  shows "replies_ok h'"
proof -
  let ?R = "replies (hs_bridge h)" and ?R' = "replies (hs_bridge h')"
  have c: "chain h' = (chain h)(g := fs)" "hs_done h' = hs_done h @ [f]"
    and r': "\<And>r. r \<noteq> [] \<Longrightarrow> ?R' r = ?R r @ (if fr_type f \<noteq> ''release'' \<and> fr_requestId f = Some r then [x] else [])"
    and em: "set (pb_emittedRequestIds (hs_bridge h')) \<subseteq> set (pb_emittedRequestIds (hs_bridge h)) \<union> {r. fr_type f \<noteq> ''release'' \<and> op_id f = Some r}"
    and a: "fr_type f \<noteq> ''release'' \<Longrightarrow> answers f x"
    using assms(3,4) by (simp_all add: op_ends_def fun_upd_def)
  note i = assms(1) [unfolded chains_ok_def, THEN conjunct1, rule_format]
  have other: "op_id f \<noteq> Some r" if "r \<in> set (ids (chain h' g'))" for r g'
    using i [of g] i [of g'] that assms(3) by (cases "g' = g") (auto simp: c)
  have "?R' r = []" if "r \<in> set (ids (chain h' g'))" for r g'
  proof -
    have "r \<in> set (ids (chain h g'))" using that assms(3) by (auto simp: c split: if_splits option.splits)
    moreover have "fr_requestId f \<noteq> Some r" using other [OF that] ids_nonempty [OF that] by (auto simp: op_id_def truthy_Some)
    ultimately show ?thesis using assms(2) r' [of r] ids_nonempty [OF that] by (simp add: replies_ok_def)
  qed
  moreover have "\<exists>y. ?R' r = [y] \<and> answers f' y"
    if "f' \<in> set (hs_done h')" "fr_type f' \<noteq> ''release''" "op_id f' = Some r" for f' r
  proof (cases "f' \<in> set (hs_done h)")
    case True
    then have "r \<in> set (ids (hs_done h))" using that(3) by (auto simp: in_ids)
    then have "op_id f \<noteq> Some r" using i [of g] assms(3) by auto
    then have "?R' r = ?R r" using r' [of r] op_id_nonempty [OF that(3)] by (auto simp: op_id_def truthy_Some)
    then show ?thesis using assms(2) True that(2,3) by (simp add: replies_ok_def)
  next
    case False
    then have f: "f' = f" using that(1) by (simp add: c)
    have "r \<in> set (ids (chain h g))" using that(3) f assms(3) by simp
    then have "?R r = []" using assms(2) by (auto simp: replies_ok_def)
    then show ?thesis using r' [of r] op_id_nonempty [OF that(3)] that(2) f a by auto
  qed
  moreover have "r \<noteq> [] \<and> ?R' r \<noteq> []" if "r \<in> set (pb_emittedRequestIds (hs_bridge h'))" for r
    using em that assms(2) r' [of r] op_id_nonempty [of f r] by (auto simp: replies_ok_def)
  ultimately show ?thesis by (simp add: replies_ok_def)
qed

lemma finish_inv:
  assumes "host_inv h" and "chain h g = f # fs" and "op_ends g f x h h'"
  shows "host_inv h'"
  using assms chains_finish contexts_finish replies_finish unfolding host_inv_def by blast

section \<open>What the bridge sends\<close>

text \<open>\<open>bridge_adds id x b b'\<close>: from \<open>b\<close> to \<open>b'\<close>, of the frames with a request id only \<open>x\<close> was sent, under \<open>id\<close>.\<close>

definition bridge_adds :: "string option \<Rightarrow> frame \<Rightarrow> ProcessBrokerBridge \<Rightarrow> ProcessBrokerBridge \<Rightarrow> bool" where
  "bridge_adds i x b b' \<longleftrightarrow>
     pb_nextRef b \<le> pb_nextRef b' \<and> pb_responseContexts b' = pb_responseContexts b
     \<and> (\<forall>r. r \<noteq> [] \<longrightarrow> replies b' r = replies b r @ (if i = Some r then [x] else []))
     \<and> set (pb_emittedRequestIds b') \<subseteq> set (pb_emittedRequestIds b) \<union> {r. truthy i = Some r}"

lemma adds_refl: "bridge_adds None x b b"
  by (simp add: bridge_adds_def)

lemma adds_send: "bridge_adds (fr_requestId f) f b (sendRunnerEnvelope f b)"
  by (simp add: bridge_adds_def sendRunnerEnvelope_def replies_def)

lemma adds_trans_none: "bridge_adds None y b b' \<Longrightarrow> bridge_adds i x b' b'' \<Longrightarrow> bridge_adds i x b b''"
  "bridge_adds i x b b' \<Longrightarrow> bridge_adds None y b' b'' \<Longrightarrow> bridge_adds i x b b''"
  by (auto simp: bridge_adds_def)

lemma adds_sendBridge:
  "bridge_adds i (bridge_frame g ch p i) b (sendBridgeEnvelope g ch p i b)"
  by (auto simp: bridge_adds_def sendBridgeEnvelope_def sendRunnerEnvelope_def replies_def bridge_frame_def split: option.splits)

lemma emit_simple: "ch \<noteq> ''isolate.counters'' \<Longrightarrow>
  bridge_emit g ch p b = sendBridgeEnvelope g ch p (currentResponseRequestId g ch b) b"
  by (simp add: bridge_emit_def)

lemma sendBridge_contexts [simp]:
  "pb_responseContexts (sendBridgeEnvelope g ch p i b) = pb_responseContexts b" "pb_nextRef (sendBridgeEnvelope g ch p i b) = pb_nextRef b"
  by (simp_all add: sendBridgeEnvelope_def sendRunnerEnvelope_def split: option.split)

lemma leave_replies [simp]:
  "replies (with_leave ref b) = replies b" "pb_emittedRequestIds (with_leave ref b) = pb_emittedRequestIds b"
  "pb_nextRef (with_leave ref b) = pb_nextRef b"
  by (simp_all add: with_leave_def replies_def fun_eq_iff split: option.split)

definition idle_contexts :: "string \<Rightarrow> ProcessBrokerBridge \<Rightarrow> bool" where
  "idle_contexts g b \<longleftrightarrow> (\<forall>x \<in> set (pb_responseContexts b). rx_ref x < pb_nextRef b \<and> rx_gameId x \<noteq> g)"

lemma idle_game:
  assumes "contexts_ok h" and "map_get (hs_running h) g = None"
  shows "idle_contexts g (hs_bridge h)"
  using assms by (auto simp: contexts_ok_def idle_contexts_def)

lemma leave_enter:
  assumes "with_enter g i types b = (ref, b1)" and "idle_contexts g b" and "pb_responseContexts b2 = pb_responseContexts b1"
  shows "pb_responseContexts (with_leave ref b2) = pb_responseContexts b"
  using assms by (fastforce simp: with_enter_def with_leave_def idle_contexts_def filter_id_conv split: option.splits)

lemma enter_fields:
  assumes "with_enter g i types b = (ref, b1)"
  shows "replies b1 = replies b" "pb_emittedRequestIds b1 = pb_emittedRequestIds b" "pb_nextRef b \<le> pb_nextRef b1"
  using assms by (auto simp: with_enter_def replies_def fun_eq_iff split: option.splits)

lemma enter_current:
  assumes "with_enter g i types b = (ref, b1)" and "idle_contexts g b" and "ch \<in> set types"
  shows "currentResponseRequestId g ch b1 = truthy i"
proof -
  have none: "List.find (\<lambda>x. rx_gameId x = g \<and> ch \<in> set (rx_responseTypes x)) (rev (pb_responseContexts b)) = None"
    using assms(2) by (auto simp: find_None_iff idle_contexts_def)
  show ?thesis using assms(1,3) none by (auto simp: with_enter_def currentResponseRequestId_def split: option.splits)
qed

lemma truthy_replies: "r \<noteq> [] \<Longrightarrow> truthy i = Some r \<longleftrightarrow> i = Some r"
  by (auto simp: truthy_Some)

lemma truthy_truthy [simp]: "truthy (truthy i) = truthy i"
  by (auto simp: truthy_def split: option.splits)

text \<open>An answer sent inside \<^verbatim>\<open>withResponseRequestId\<close>, and a throw inside it without an answer.\<close>

lemma enter_emit_leave:
  assumes "with_enter g i types b = (ref, b1)" and "idle_contexts g b" and "ch \<in> set types" and "ch \<noteq> ''isolate.counters''"
  shows "bridge_adds i (bridge_frame g ch p (truthy i)) b (with_leave ref (bridge_emit g ch p b1))"
proof -
  have e: "bridge_emit g ch p b1 = sendBridgeEnvelope g ch p (truthy i) b1"
    using emit_simple [OF assms(4)] enter_current [OF assms(1-3)] by simp
  have "bridge_adds (truthy i) (bridge_frame g ch p (truthy i)) b1 (bridge_emit g ch p b1)"
    unfolding e by (rule adds_sendBridge)
  moreover have "pb_responseContexts (with_leave ref (bridge_emit g ch p b1)) = pb_responseContexts b"
    by (rule leave_enter [OF assms(1,2)]) (simp add: e)
  ultimately show ?thesis
    using enter_fields [OF assms(1)] by (auto simp: bridge_adds_def truthy_replies)
qed

lemma enter_leave:
  assumes "with_enter g i types b = (ref, b1)" and "idle_contexts g b"
  shows "bridge_adds None x b (with_leave ref b1)"
  using leave_enter [OF assms, of b1] enter_fields [OF assms(1)] by (simp add: bridge_adds_def)

lemma adds_telemetry: "bridge_adds None x b (emitTelemetry t b)"
  by (simp add: bridge_adds_def emitTelemetry_def replies_def)

lemma leave_telemetry: "with_leave ref (emitTelemetry t b) = emitTelemetry t (with_leave ref b)"
  by (simp add: with_leave_def emitTelemetry_def split: option.split)

text \<open>Ending the operation at the head after the bridge has sent its answer.\<close>

lemma finish_after:
  fixes h h1 :: "'b RunnerChildHost"
  assumes "host_inv h" and "chain h g = f # fs" and "map_get (hs_running h) g = None"
    and "hs_chains h1 = hs_chains h" "hs_done h1 = hs_done h" "hs_running h1 = hs_running h"
    and "bridge_adds (if fr_type f = ''release'' then None else fr_requestId f) x (hs_bridge h) (hs_bridge h1)"
    and "fr_type f \<noteq> ''release'' \<Longrightarrow> answers f x"
  shows "host_inv (finish_op g h1)"
proof (rule finish_inv [OF assms(1,2), of x])
  have ch: "chain h1 = chain h" using assms(4) by (simp add: chain_def fun_eq_iff)
  then have c: "chain h1 g = f # fs" using assms(2) by simp
  have "filter (\<lambda>x. rx_gameId x \<noteq> g) (pb_responseContexts (hs_bridge h)) = pb_responseContexts (hs_bridge h)"
    using idle_game [of h g] assms(1,3) by (auto simp: host_inv_def idle_contexts_def filter_id_conv)
  then show "op_ends g f x h (finish_op g h1)"
    using chain_finish [OF c] ch assms by (auto simp: op_ends_def bridge_adds_def op_id_def split: if_splits)
qed

section \<open>The operations\<close>

lemma answers_frames:
  assumes "fr_gameId f = Some g"
  shows "fr_type f = ''assign'' \<Longrightarrow> answers f (bridge_frame g ''isolate.ready'' p i)"
    "fr_type f \<noteq> ''assign'' \<Longrightarrow> answers f (bridge_frame g ''handler.complete'' p i)"
    "fr_type f \<noteq> ''assign'' \<Longrightarrow> answers f (bridge_frame g ''handler.error'' p i)"
    "answers f (bridge_frame g ''isolate.fatal'' p i)"
  using assms by (simp_all add: answers_def bridge_frame_def)

lemma adds_sent: "bridge_adds i (bridge_frame g ch p i) b (sendRunnerEnvelope (bridge_frame g ch p i) b)"
  using adds_send [of "bridge_frame g ch p i" b] by (simp add: bridge_frame_def)

lemma fatal_inv:
  fixes h h1 :: "'b RunnerChildHost"
  assumes "host_inv h" and c: "chain h g = f # fs" and "map_get (hs_running h) g = None" and "fr_type f \<noteq> ''release''"
    and "hs_chains h1 = hs_chains h" "hs_done h1 = hs_done h" "hs_running h1 = hs_running h" "bridge_adds None f (hs_bridge h) (hs_bridge h1)"
  shows "host_inv (finish_op g (sendFatal g m (fr_requestId f) h1))"
proof -
  have fg: "fr_gameId f = Some g" using assms(1) c by (auto simp: host_inv_def chains_ok_def)
  show ?thesis
    by (rule finish_after [OF assms(1-3) _ _ _ _ answers_frames(4) [OF fg]])
       (use assms in \<open>auto simp: sendFatal_def on_bridge_def intro: adds_trans_none(1) [OF _ adds_sent]\<close>)
qed

lemma assign_inv:
  fixes h :: "'b RunnerChildHost"
  assumes "host_inv h" and "head_op g h = Some f" and "fr_type f = ''assign''"
  shows "host_inv (host_assign now loaded g f h)"
proof -
  obtain fs where c: "chain h g = f # fs" and idle: "map_get (hs_running h) g = None" using head_op_chain [OF assms(2)] by blast
  have fg: "fr_gameId f = Some g" using assms(1) c by (auto simp: host_inv_def chains_ok_def)
  have ic: "idle_contexts g (hs_bridge h)" using assms(1) idle idle_game by (auto simp: host_inv_def)
  obtain ref b1 where e: "with_enter g (fr_requestId f) [''isolate.ready'', ''isolate.fatal''] (hs_bridge h) = (ref, b1)" by fastforce
  note fin = finish_after [OF assms(1) c idle]
  have fatal: "host_inv (finish_op g (sendFatal g m (fr_requestId f) (h1\<lparr>hs_assignments := as1\<rparr>)))"
    if "hs_chains h1 = hs_chains h" "hs_done h1 = hs_done h" "hs_running h1 = hs_running h" "bridge_adds None f (hs_bridge h) (hs_bridge h1)"
    for h1 :: "'b RunnerChildHost" and m as1
    by (rule fatal_inv [OF assms(1) c idle]) (simp_all add: that assms(3))
  obtain res R b2 where n: "noivm_assign now loaded (RunnerAssignment.truncate (toRunnerAssignment f)) (hs_runner h, b1) = (res, R, b2)"
    by (metis prod_cases3)
  have g: "ra_gameId (RunnerAssignment.truncate (toRunnerAssignment f)) = g"
    using fg by (simp add: RunnerAssignment.truncate_def toRunnerAssignment_def Let_def)
  show ?thesis
  proof (cases res)
    case (Inl m)
    then have "b2 = b1" using n by (auto simp: noivm_assign_def split: if_splits sum.splits option.splits)
    then have "bridge_adds None f (hs_bridge h) (with_leave ref b2)" using enter_leave [OF e ic] by simp
    then show ?thesis
      using fatal adds_refl Inl n e by (simp add: host_assign_def Let_def)
  next
    case (Inr u)
    then obtain p where "b2 = bridge_emit g ''isolate.ready'' p b1"
      using n g by (auto simp: noivm_assign_def split: if_splits sum.splits option.splits)
    then have "bridge_adds (fr_requestId f) (bridge_frame g ''isolate.ready'' p (truthy (fr_requestId f))) (hs_bridge h) (with_leave ref b2)"
      using enter_emit_leave [OF e ic, of "''isolate.ready''" p] by simp
    then have "host_inv (finish_op g (h\<lparr>hs_runner := R, hs_bridge := with_leave ref b2, hs_assignments := as1\<rparr>))" for as1
      by (intro fin [OF _ _ _ _ answers_frames(1) [OF fg assms(3)]]) (simp_all add: assms(3))
    then show ?thesis
      using fatal [of h] adds_refl Inr n e by (simp add: host_assign_def Let_def)
  qed
qed

lemma release_inv:
  assumes "host_inv h" and "head_op g h = Some f" and "fr_type f = ''release''"
  shows "host_inv (host_release g h)"
proof -
  obtain fs where c: "chain h g = f # fs" and idle: "map_get (hs_running h) g = None" using head_op_chain [OF assms(2)] by blast
  show ?thesis
    unfolding host_release_def by (rule finish_after [OF assms(1) c idle, where x = f]) (simp_all add: assms(3) adds_refl)
qed

lemma emitTelemetry_adds:
  "noivm_emitTelemetry u g (R, b) = (R', b') \<Longrightarrow> bridge_adds None x b b' \<and> (\<forall>ref. bridge_adds None x (with_leave ref b) (with_leave ref b'))"
  by (auto simp: noivm_emitTelemetry_def adds_refl adds_telemetry leave_telemetry split: option.splits)

lemma id_not_emitted:
  assumes "host_inv h" and "chain h g = f # fs" and "pb_emittedRequestIds b = pb_emittedRequestIds (hs_bridge h)"
  shows "\<not> hasEmittedRequestId (fr_requestId f) b"
proof (cases "op_id f")
  case (Some r)
  have "r \<in> set (ids (chain h g))" using Some assms(2) by simp
  then have "replies (hs_bridge h) r = []" using assms(1) by (auto simp: host_inv_def replies_ok_def)
  then have "r \<notin> set (pb_emittedRequestIds (hs_bridge h))" using assms(1) by (auto simp: host_inv_def replies_ok_def)
  then show ?thesis using Some assms(3) by (simp add: hasEmittedRequestId_def op_id_def)
qed (simp add: hasEmittedRequestId_def op_id_def)

text \<open>The head of an idle game starts to run.\<close>

lemma running_inv:
  assumes i: "host_inv h" and c: "chain h g = f # fs" and idle: "map_get (hs_running h) g = None"
    and f: "fr_type f \<notin> {''assign'', ''release''}" and e: "with_enter g (fr_requestId f) handler_types (hs_bridge h) = (ref, b1)" and "ri_gameId j = g"
  shows "host_inv (h\<lparr>hs_runner := R, hs_bridge := b1, hs_running := map_set g \<lparr>rn_frame = f, rn_context = ref, rn_invoke = j\<rparr> (hs_running h)\<rparr>)"
    (is "host_inv ?h")
proof -
  let ?rn = "\<lparr>rn_frame = f, rn_context = ref, rn_invoke = j\<rparr>"
  have r: "map_get (hs_running ?h) = (map_get (hs_running h))(g \<mapsto> ?rn)" by (simp add: update_conv' fun_eq_iff)
  have ch: "chain ?h = chain h" by (simp add: chain_def fun_eq_iff)
  have "chains_ok ?h" using i c f assms(6) unfolding host_inv_def chains_ok_def ch r by auto
  moreover have "replies_ok ?h"
    using i enter_fields [OF e] unfolding host_inv_def replies_ok_def ch by simp
  moreover have "contexts_ok ?h"
  proof (cases "op_id f")
    case None
    then have "ref = None" "b1 = hs_bridge h" using e by (simp_all add: with_enter_def op_id_def)
    then have "running_ctx (pb_responseContexts b1) g ?rn" using None by (simp add: running_ctx_def)
    then show ?thesis
      using i idle \<open>b1 = hs_bridge h\<close> unfolding host_inv_def contexts_ok_def r by auto
  next
    case (Some q)
    let ?x = "\<lparr>rx_ref = pb_nextRef (hs_bridge h), rx_gameId = g, rx_requestId = q, rx_responseTypes = handler_types\<rparr>"
    have b: "ref = Some (pb_nextRef (hs_bridge h))" "pb_responseContexts b1 = pb_responseContexts (hs_bridge h) @ [?x]"
      "pb_nextRef b1 = Suc (pb_nextRef (hs_bridge h))"
      using e Some by (auto simp: with_enter_def op_id_def)
    have ic: "idle_contexts g (hs_bridge h)" using i idle idle_game by (auto simp: host_inv_def)
    have k: "contexts_ok h" using i by (simp add: host_inv_def)
    have "running_ctx (pb_responseContexts b1) g' rn" if "map_get (hs_running ?h) g' = Some rn" for g' rn
    proof (cases "g' = g")
      case True
      then have "rn = ?rn" using that unfolding r by simp
      then show ?thesis using True Some b by (simp add: running_ctx_def)
    next
      case False
      then have "running_ctx (pb_responseContexts (hs_bridge h)) g' rn" using that k unfolding r contexts_ok_def by simp
      then show ?thesis by (rule running_ctx_mono) (simp add: b)
    qed
    moreover have "rx_ref x < pb_nextRef b1 \<and> rx_responseTypes x = handler_types
        \<and> (\<exists>rn. map_get (hs_running ?h) (rx_gameId x) = Some rn \<and> rn_context rn = Some (rx_ref x) \<and> op_id (rn_frame rn) = Some (rx_requestId x))"
      if "x \<in> set (pb_responseContexts b1)" for x
    proof (cases "x = ?x")
      case True
      then show ?thesis using Some b by (simp add: update_conv')
    next
      case False
      then have x: "x \<in> set (pb_responseContexts (hs_bridge h))" using that b by simp
      then have "rx_gameId x \<noteq> g" using ic by (simp add: idle_contexts_def)
      then show ?thesis using k x b unfolding contexts_ok_def r by fastforce
    qed
    moreover have "x = y" if "x \<in> set (pb_responseContexts b1)" "y \<in> set (pb_responseContexts b1)" "rx_ref x = rx_ref y" for x y
      using that k ic unfolding b contexts_ok_def idle_contexts_def by fastforce
    ultimately show ?thesis unfolding contexts_ok_def by simp
  qed
  ultimately show ?thesis by (simp add: host_inv_def)
qed

lemma handler_of_type: "handler_of t = Some n \<Longrightarrow> t \<notin> {''assign'', ''release''}"
  by (auto simp: handler_of_def split: if_splits)

lemma invoke_begin_inv:
  fixes h :: "'b RunnerChildHost"
  assumes i: "host_inv h" and "head_op g h = Some f" and "handler_of (fr_type f) = Some n"
  shows "host_inv (host_invoke_begin members u el g f n h)"
proof -
  obtain fs where c: "chain h g = f # fs" and idle: "map_get (hs_running h) g = None" using head_op_chain [OF assms(2)] by blast
  have t: "fr_type f \<notin> {''assign'', ''release''}" by (rule handler_of_type [OF assms(3)])
  have fg: "fr_gameId f = Some g" using i c by (auto simp: host_inv_def chains_ok_def)
  have ic: "idle_contexts g (hs_bridge h)" using i idle idle_game by (auto simp: host_inv_def)
  obtain ref b1 where e: "with_enter g (fr_requestId f) handler_types (hs_bridge h) = (ref, b1)" by fastforce
  show ?thesis
  proof (cases "map_get (hs_assignments h) g")
    case None
    then show ?thesis using fatal_inv [OF i c idle _ refl refl refl adds_refl] t by (simp add: host_invoke_begin_def)
  next
    case (Some a)
    let ?j = "\<lparr>ri_gameId = g, ri_handler = n, ri_payload = fr_payload f, ri_timeoutMs = invoke_timeout f a h, ri_traceId = fr_traceId f\<rparr>"
    obtain res R b2 where nv: "noivm_invoke_begin members u el ?j (hs_runner h, b1) = (res, R, b2)" by (metis prod_cases3)
    let ?left = "h\<lparr>hs_runner := R, hs_bridge := with_leave ref b2\<rparr>"
    have run: "host_invoke_begin members u el g f n h =
       (case res of Inl m \<Rightarrow> invoke_result g f ?j (Inl m) ?left | Inr False \<Rightarrow> invoke_result g f ?j (Inr ()) ?left
        | Inr True \<Rightarrow> h\<lparr>hs_runner := R, hs_bridge := b2, hs_running := map_set g \<lparr>rn_frame = f, rn_context = ref, rn_invoke = ?j\<rparr> (hs_running h)\<rparr>)"
      using Some e nv by (simp add: host_invoke_begin_def Let_def)
    consider (threw) m where "res = Inl m" "b2 = b1" | (runs) "res = Inr True" "b2 = b1"
      | (missing) R0 p where "res = Inr False" "noivm_emitTelemetry u g (R0, bridge_emit g ''handler.complete'' p b1) = (R, b2)"
      using nv by (auto simp: noivm_invoke_begin_def split: option.splits handler_member.splits)
    then show ?thesis
    proof cases
      case threw
      have "bridge_adds None f (hs_bridge h) (with_leave ref b1)" by (rule enter_leave [OF e ic])
      moreover have "\<not> hasEmittedRequestId (fr_requestId f) (with_leave ref b1)"
        by (rule id_not_emitted [OF i c]) (simp add: enter_fields [OF e])
      ultimately have r: "host_invoke_begin members u el g f n h
          = finish_op g (sendHandlerError g ?j m (fr_requestId f) (h\<lparr>hs_runner := R, hs_bridge := with_leave ref b1\<rparr>))"
        unfolding run using threw by (simp add: invoke_result_def)
      show ?thesis
        unfolding r by (rule finish_after [OF i c idle _ _ _ _ answers_frames(3) [OF fg]])
           (use t enter_leave [OF e ic] in \<open>auto simp: sendHandlerError_def on_bridge_def intro: adds_trans_none(1) [OF _ adds_sent]\<close>)
    next
      case runs
      then show ?thesis unfolding run using running_inv [OF i c idle t e] by simp
    next
      case missing
      have "bridge_adds (fr_requestId f) (bridge_frame g ''handler.complete'' p (truthy (fr_requestId f))) (hs_bridge h) (with_leave ref b2)"
        using enter_emit_leave [OF e ic, of "''handler.complete''" p] emitTelemetry_adds [OF missing(2)] adds_trans_none(2) by fastforce
      then show ?thesis
        unfolding run missing(1) invoke_result_def
        by (simp, intro finish_after [OF i c idle _ _ _ _ answers_frames(2) [OF fg]]) (use t in simp_all)
    qed
  qed
qed

text \<open>The context of a running handler is the only one of its game.\<close>

lemma running_contexts:
  assumes "contexts_ok h" and "map_get (hs_running h) g = Some rn"
  shows "ch \<in> set handler_types \<Longrightarrow> currentResponseRequestId g ch (hs_bridge h) = op_id (rn_frame rn)"
    and "pb_responseContexts (with_leave (rn_context rn) (hs_bridge h)) = filter (\<lambda>x. rx_gameId x \<noteq> g) (pb_responseContexts (hs_bridge h))"
proof -
  let ?C = "pb_responseContexts (hs_bridge h)"
  have own: "rn_context rn = Some (rx_ref x) \<and> op_id (rn_frame rn) = Some (rx_requestId x) \<and> rx_responseTypes x = handler_types"
    if "x \<in> set ?C" "rx_gameId x = g" for x
    using assms that unfolding contexts_ok_def by fastforce
  have rc: "running_ctx ?C g rn" using assms by (simp add: contexts_ok_def)
  have uniq: "rx_ref x = rx_ref y \<longrightarrow> x = y" if "x \<in> set ?C" "y \<in> set ?C" for x y
    using assms(1) that unfolding contexts_ok_def by blast
  show "pb_responseContexts (with_leave (rn_context rn) (hs_bridge h)) = filter (\<lambda>x. rx_gameId x \<noteq> g) ?C"
  proof (cases "op_id (rn_frame rn)")
    case None
    then have "filter (\<lambda>x. rx_gameId x \<noteq> g) ?C = ?C" using own by (fastforce simp: filter_id_conv)
    then show ?thesis using rc None by (simp add: running_ctx_def with_leave_def)
  next
    case (Some r)
    then obtain m where m: "rn_context rn = Some m" "\<lparr>rx_ref = m, rx_gameId = g, rx_requestId = r, rx_responseTypes = handler_types\<rparr> \<in> set ?C"
      using rc by (auto simp: running_ctx_def)
    have "rx_ref x \<noteq> m \<longleftrightarrow> rx_gameId x \<noteq> g" if "x \<in> set ?C" for x
      using own [OF that] uniq [OF that m(2)] m(1) by auto
    then show ?thesis using m(1) by (simp add: with_leave_def cong: filter_cong)
  qed
  show "currentResponseRequestId g ch (hs_bridge h) = op_id (rn_frame rn)" if ch: "ch \<in> set handler_types"
  proof (cases "List.find (\<lambda>x. rx_gameId x = g \<and> ch \<in> set (rx_responseTypes x)) (rev ?C)")
    case None
    have "op_id (rn_frame rn) = None"
    proof (rule ccontr)
      assume "op_id (rn_frame rn) \<noteq> None"
      then obtain x where "x \<in> set ?C" "rx_gameId x = g" "rx_responseTypes x = handler_types"
        using rc by (force simp: running_ctx_def split: option.splits)
      then show False using None ch unfolding find_None_iff set_rev by metis
    qed
    then show ?thesis using None by (simp add: currentResponseRequestId_def)
  next
    case (Some x)
    then have "x \<in> set ?C" "rx_gameId x = g" using find_in_set [OF Some] by simp_all
    then show ?thesis using own Some by (simp add: currentResponseRequestId_def)
  qed
qed

lemma invoke_end_bridge:
  assumes "noivm_invoke_end u run j (R, b) = (res, R', b')"
  obtains ch p where "ch \<in> set handler_types" and "bridge_adds None f (bridge_emit (ri_gameId j) ch p b) b'"
    and "\<And>ref. bridge_adds None f (with_leave ref (bridge_emit (ri_gameId j) ch p b)) (with_leave ref b')"
    and "pb_emittedRequestIds b' = pb_emittedRequestIds (bridge_emit (ri_gameId j) ch p b)"
proof -
  obtain st d where w: "withTimeout run (ri_timeoutMs j) (handlerName (ri_handler j)) = (st, d)" by fastforce
  consider (err) p where "b' = bridge_emit (ri_gameId j) ''handler.error'' p b"
    | (ok) p R1 where "noivm_emitTelemetry u (ri_gameId j) (R1, bridge_emit (ri_gameId j) ''handler.complete'' p b) = (R', b')"
    using assms w by (auto simp: noivm_invoke_end_def Let_def split: sum.splits if_splits)
  then show thesis
  proof cases
    case err
    then show ?thesis using that [of "''handler.error''" p] adds_refl by simp
  next
    case ok
    have "pb_emittedRequestIds b' = pb_emittedRequestIds (bridge_emit (ri_gameId j) ''handler.complete'' p b)"
      using ok by (auto simp: noivm_emitTelemetry_def emitTelemetry_def split: option.splits)
    then show ?thesis using that [of "''handler.complete''" p] emitTelemetry_adds [OF ok, of f] by simp
  qed
qed

lemma handler_not_counters: "ch \<in> set handler_types \<Longrightarrow> ch \<noteq> ''isolate.counters''"
  by auto

lemma invoke_end_inv:
  fixes h :: "'b RunnerChildHost"
  assumes i: "host_inv h" and r: "map_get (hs_running h) g = Some rn"
  shows "host_inv (host_invoke_end u run g rn h)"
proof -
  let ?f = "rn_frame rn" and ?j = "rn_invoke rn" and ?b = "hs_bridge h"
  have ck: "contexts_ok h" using i by (simp add: host_inv_def)
  have "chains_ok h" using i by (simp add: host_inv_def)
  from this [unfolded chains_ok_def, THEN conjunct2, rule_format, OF r]
  obtain fs where c: "chain h g = ?f # fs" and j: "ri_gameId ?j = g" and t: "fr_type ?f \<notin> {''assign'', ''release''}" by blast
  have fg: "fr_gameId ?f = Some g" using i c by (auto simp: host_inv_def chains_ok_def)
  obtain res R b where n: "noivm_invoke_end u run ?j (hs_runner h, ?b) = (res, R, b)" by (metis prod_cases3)
  obtain ch p where ch: "ch \<in> set handler_types" and a1: "bridge_adds None ?f (bridge_emit g ch p ?b) b"
    and a2: "\<And>ref. bridge_adds None ?f (with_leave ref (bridge_emit g ch p ?b)) (with_leave ref b)"
    and em: "pb_emittedRequestIds b = pb_emittedRequestIds (bridge_emit g ch p ?b)"
    using invoke_end_bridge [OF n, of ?f] j by blast
  let ?x = "bridge_frame g ch p (op_id ?f)"
  have e: "bridge_emit g ch p ?b = sendBridgeEnvelope g ch p (op_id ?f) ?b"
    using emit_simple [OF handler_not_counters [OF ch]] running_contexts(1) [OF ck r ch] by simp
  have add: "bridge_adds (op_id ?f) ?x ?b (bridge_emit g ch p ?b)" unfolding e by (rule adds_sendBridge)
  let ?B = "with_leave (rn_context rn) b"
  have cx: "pb_responseContexts ?B = filter (\<lambda>x. rx_gameId x \<noteq> g) (pb_responseContexts ?b)"
    using running_contexts(2) [OF ck r] a1 add by (auto simp: bridge_adds_def with_leave_def split: option.splits)
  have rp: "replies ?B q = replies ?b q @ (if fr_requestId ?f = Some q then [?x] else [])" if "q \<noteq> []" for q
    using a1 add that by (simp add: bridge_adds_def op_id_def truthy_replies)
  have ms: "set (pb_emittedRequestIds ?B) \<subseteq> set (pb_emittedRequestIds ?b) \<union> {q. op_id ?f = Some q}" "pb_nextRef ?b \<le> pb_nextRef ?B"
    using a1 add by (auto simp: bridge_adds_def op_id_def)
  have sent: "op_id ?f = Some q \<Longrightarrow> q \<in> set (pb_emittedRequestIds ?B)" for q
    using em op_id_nonempty [of ?f q] by (simp add: e sendBridgeEnvelope_def sendRunnerEnvelope_def truthy_def)
  let ?left = "h\<lparr>hs_runner := R, hs_bridge := ?B\<rparr>"
  have "answers ?f ?x" using answers_frames(2,3) [OF fg] ch t by auto
  then have ends: "op_ends g ?f ?x h (finish_op g h1)"
    if "hs_chains h1 = hs_chains h" "hs_done h1 = hs_done h" "hs_running h1 = hs_running h"
      "pb_responseContexts (hs_bridge h1) = pb_responseContexts ?B" "pb_nextRef (hs_bridge h1) = pb_nextRef ?B"
      "pb_emittedRequestIds (hs_bridge h1) = pb_emittedRequestIds ?B" "\<And>q. q \<noteq> [] \<Longrightarrow> replies (hs_bridge h1) q = replies ?B q"
    for h1 :: "'b RunnerChildHost"
  proof -
    have ch1: "chain h1 = chain h" using that(1) by (simp add: chain_def fun_eq_iff)
    then have "chain h1 g = ?f # fs" using c by simp
    from chain_finish [OF this] show ?thesis
      using c ch1 that cx rp ms t \<open>answers ?f ?x\<close> by (auto simp: op_ends_def)
  qed
  have run: "host_invoke_end u run g rn h = invoke_result g ?f ?j res ?left" using n by (simp add: host_invoke_end_def)
  show ?thesis
  proof (cases "\<exists>m. res = Inl m \<and> \<not> hasEmittedRequestId (fr_requestId ?f) ?B")
    case False
    then have "host_invoke_end u run g rn h = finish_op g ?left"
      unfolding run by (auto simp: invoke_result_def split: sum.splits)
    then show ?thesis using finish_inv [OF i c ends [of ?left]] by simp
  next
    case True
    then obtain m where m: "res = Inl m" by blast
    have none: "op_id ?f = None" using True sent by (auto simp: hasEmittedRequestId_def op_id_def split: option.splits)
    let ?h1 = "sendHandlerError g ?j m (fr_requestId ?f) ?left"
    have "host_invoke_end u run g rn h = finish_op g ?h1"
      unfolding run using True m by (simp add: invoke_result_def)
    moreover have "op_ends g ?f ?x h (finish_op g ?h1)"
      by (rule ends) (use none in \<open>auto simp: sendHandlerError_def on_bridge_def sendRunnerEnvelope_def replies_def bridge_frame_def op_id_def truthy_def with_leave_def split: option.splits if_splits\<close>)
    ultimately show ?thesis using finish_inv [OF i c] by simp
  qed
qed

section \<open>The other steps\<close>

text \<open>Nothing but messages under a fresh id, or under none, was sent.\<close>

lemma quiet_inv:
  fixes h h' :: "'b RunnerChildHost"
  assumes i: "host_inv h" and s: "hs_chains h' = hs_chains h" "hs_done h' = hs_done h" "hs_running h' = hs_running h"
    and b: "bridge_adds q x (hs_bridge h) (hs_bridge h')" and new: "\<And>r. q = Some r \<Longrightarrow> r \<noteq> [] \<and> r \<notin> used_ids h"
  shows "host_inv h'"
proof -
  let ?R = "replies (hs_bridge h)" and ?R' = "replies (hs_bridge h')"
  have ch: "chain h' = chain h" using s(1) by (simp add: chain_def fun_eq_iff)
  have same: "?R' r = ?R r" if "r \<noteq> []" "r \<in> used_ids h" for r
    using b that new by (auto simp: bridge_adds_def)
  have use: "r \<in> used_ids h" if "r \<in> set (ids (chain h g)) \<or> r \<in> set (ids (hs_done h))" for r g
    using that by (auto simp: used_ids_def)
  have k: "chains_ok h" "contexts_ok h" "replies_ok h" using i by (simp_all add: host_inv_def)
  have "chains_ok h'" using k(1) by (simp add: chains_ok_def ch s)
  moreover have "contexts_ok h'" using k(2) b by (fastforce simp: contexts_ok_def bridge_adds_def s)
  moreover have "replies_ok h'"
    unfolding replies_ok_def
  proof (intro conjI allI ballI impI)
    fix g r assume r: "r \<in> set (ids (chain h' g))"
    then show "?R' r = []" using same [OF ids_nonempty [OF r] use] k(3) by (auto simp: replies_ok_def ch)
  next
    fix f r assume f: "f \<in> set (hs_done h')" "fr_type f \<noteq> ''release''" "op_id f = Some r"
    then have "r \<in> set (ids (hs_done h))" by (auto simp: in_ids s)
    then have "?R' r = ?R r" using same ids_nonempty use by blast
    then show "\<exists>x. ?R' r = [x] \<and> answers f x" using f k(3) by (simp add: replies_ok_def s)
  next
    fix r assume r: "r \<in> set (pb_emittedRequestIds (hs_bridge h'))"
    consider "r \<in> set (pb_emittedRequestIds (hs_bridge h))" | "q = Some r" "r \<noteq> []"
      using r b by (auto simp: bridge_adds_def truthy_Some)
    then have *: "r \<noteq> [] \<and> (?R r \<noteq> [] \<or> q = Some r)" using k(3) by cases (auto simp: replies_ok_def)
    then show "r \<noteq> []" by simp
    show "?R' r \<noteq> []" using * b by (auto simp: bridge_adds_def)
  qed
  ultimately show ?thesis by (simp add: host_inv_def)
qed

lemma enqueue_inv:
  fixes h :: "'b RunnerChildHost"
  assumes i: "host_inv h" and fg: "fr_gameId f = Some g" and new: "\<And>r. op_id f = Some r \<Longrightarrow> r \<notin> used_ids h"
  shows "host_inv (enqueueGameOperation g f h)" (is "host_inv ?h")
proof -
  have k: "chains_ok h" "contexts_ok h" "replies_ok h" using i by (simp_all add: host_inv_def)
  have s: "hs_done ?h = hs_done h" "hs_running ?h = hs_running h" "hs_bridge ?h = hs_bridge h"
    by (simp_all add: enqueueGameOperation_def)
  have ids': "ids (chain ?h g') = ids (chain h g') @ (if g' = g then ids [f] else [])" for g'
    by (simp add: chain_enqueue)
  have fresh: "r \<notin> set (ids (chain h g'))" "r \<notin> set (ids (hs_done h))" "replies (hs_bridge h) r = []" if "r \<in> set (ids [f])" for r g'
    using new that by (auto simp: used_ids_def split: option.splits)
  have "chains_ok ?h"
    unfolding chains_ok_def
  proof (intro conjI allI impI)
    fix g'
    show "\<forall>f \<in> set (chain ?h g'). fr_gameId f = Some g'"
      using k(1) fg by (auto simp: chain_enqueue chains_ok_def split: if_splits)
    show "distinct (ids (chain ?h g'))"
      using k(1) fresh(1) [of _ g'] unfolding ids' by (auto simp: chains_ok_def split: option.splits)
    show "set (ids (chain ?h g')) \<inter> set (ids (hs_done ?h)) = {}"
      using k(1) fresh(2) unfolding ids' s chains_ok_def by auto
    show "set (ids (chain ?h g')) \<inter> set (ids (chain ?h g'')) = {}" if "g' \<noteq> g''" for g''
    proof -
      have "set (ids (chain h g')) \<inter> set (ids (chain h g'')) = {}"
        using k(1) [unfolded chains_ok_def, THEN conjunct1, rule_format] that by blast
      then show ?thesis using fresh(1) that unfolding ids' by auto
    qed
  next
    fix g' rn assume r: "map_get (hs_running ?h) g' = Some rn"
    have *: "(\<exists>fs. chain h g' = rn_frame rn # fs) \<and> ri_gameId (rn_invoke rn) = g' \<and> fr_type (rn_frame rn) \<notin> {''assign'', ''release''}"
      using k(1) [unfolded chains_ok_def, THEN conjunct2, rule_format, of g' rn] r by (simp add: s)
    then show "\<exists>fs. chain ?h g' = rn_frame rn # fs" by (auto simp: chain_enqueue)
    show "ri_gameId (rn_invoke rn) = g'" "fr_type (rn_frame rn) \<notin> {''assign'', ''release''}" using * by simp_all
  qed
  moreover have "contexts_ok ?h" using k(2) by (simp add: contexts_ok_def s)
  moreover have "replies_ok ?h"
    using k(3) fresh(3) unfolding replies_ok_def s ids' by auto
  ultimately show ?thesis by (simp add: host_inv_def)
qed

lemma receive_inv:
  assumes i: "host_inv h" and "fresh_message v h"
  shows "host_inv (handleBrokerMessage H v h)"
proof -
  have unknown: "host_inv (sendUnknown H v h)"
    by (rule quiet_inv [OF i, where q = None])
       (use adds_send [of "unknown_frame v (safeDetail H v)" "hs_bridge h"] in \<open>simp_all add: sendUnknown_def on_bridge_def unknown_frame_def control_frame_def\<close>)
  obtain a b where r: "resolveBrokerResponse (frame_of v) (hs_bridge h) = (a, b)" by fastforce
  have "bridge_adds None x (hs_bridge h) b" for x
    using r by (auto simp: resolveBrokerResponse_def adds_refl bridge_adds_def replies_def split: if_splits option.splits)
  then have answered: "host_inv (h\<lparr>hs_bridge := b\<rparr>)" by (intro quiet_inv [OF i, where q = None]) simp_all
  have "host_inv (enqueueGameOperation (default [] (fr_gameId (frame_of v))) (frame_of v) h)" if e: "isBrokerToRunnerEnvelope v"
  proof -
    have "fr_gameId (frame_of v) \<noteq> None" using e by (simp add: frame_of_def isBrokerToRunnerEnvelope_def is_text_def)
    then obtain g where "fr_gameId (frame_of v) = Some g" by auto
    moreover have "r \<notin> used_ids h" if "op_id (frame_of v) = Some r" for r using assms(2) that by (simp add: fresh_message_def)
    ultimately show ?thesis using enqueue_inv [OF i, of "frame_of v" g] by simp
  qed
  then show ?thesis
    using unknown answered r by (auto simp: handleBrokerMessage_def Let_def)
qed

lemma sdk_channel:
  "sdk_message H c = Inr (False, ch, p) \<Longrightarrow> ch \<notin> set handler_types \<and> ch \<noteq> ''isolate.counters''"
  by (cases c) (auto simp: sdk_message_def sum_map_def split: sum.splits)

lemma other_channel:
  assumes "contexts_ok h" and "ch \<notin> set handler_types"
  shows "currentResponseRequestId g ch (hs_bridge h) = None"
  using assms by (auto simp: currentResponseRequestId_def contexts_ok_def find_None_iff)

lemma sdk_inv:
  fixes h :: "'b RunnerChildHost"
  assumes i: "host_inv h" and u: "uuid \<noteq> []" "uuid \<notin> used_ids h" and p: "sdk_perform H uuid g c (hs_bridge h) = (x, b)"
  shows "host_inv (h\<lparr>hs_bridge := b\<rparr>)"
proof (cases "sdk_message H c")
  case (Inl e)
  then have "b = hs_bridge h" using p by (simp add: sdk_perform_def)
  then show ?thesis using i by simp
next
  case (Inr m)
  obtain req ch pl where m: "m = (req, ch, pl)" by (metis prod_cases3)
  show ?thesis
  proof (cases req)
    case True
    let ?b = "(hs_bridge h)\<lparr>pb_pending := map_set uuid \<lparr>po_label = ch @ '' response'', po_gameId = Some g, po_assigns = False\<rparr> (pb_pending (hs_bridge h))\<rparr>"
    have "bridge_adds None undefined (hs_bridge h) ?b" by (simp add: bridge_adds_def replies_def)
    from adds_trans_none(1) [OF this adds_sendBridge, of "Some uuid" g ch pl]
    have "bridge_adds (Some uuid) (bridge_frame g ch pl (Some uuid)) (hs_bridge h) b"
      using p Inr m True by (simp add: sdk_perform_def bridge_request_def)
    then show ?thesis by (intro quiet_inv [OF i]) (use u in auto)
  next
    case False
    have ch: "ch \<notin> set handler_types" "ch \<noteq> ''isolate.counters''" using sdk_channel [of H c ch pl] Inr m False by simp_all
    then have "currentResponseRequestId g ch (hs_bridge h) = None" using i other_channel by (auto simp: host_inv_def)
    then have "b = sendBridgeEnvelope g ch pl None (hs_bridge h)"
      using p Inr m False emit_simple [OF ch(2), of g pl "hs_bridge h"] by (simp add: sdk_perform_def)
    then show ?thesis
      using adds_sendBridge [of None g ch pl "hs_bridge h"] by (intro quiet_inv [OF i, where q = None]) simp_all
  qed
qed

lemma telemetry_inv: "host_inv h \<Longrightarrow> host_inv (on_bridge (telemetry_fire key) h)"
proof (rule quiet_inv [where q = None and x = undefined])
  show "bridge_adds None undefined (hs_bridge h) (hs_bridge (on_bridge (telemetry_fire key) h))"
    by (auto simp: on_bridge_def telemetry_fire_def sendBridgeEnvelope_def sendRunnerEnvelope_def bridge_adds_def replies_def bridge_frame_def
        split: option.splits)
qed (simp_all add: on_bridge_def)

lemma timeout_inv: "host_inv h \<Longrightarrow> host_inv (on_bridge (bridge_timeout r) h)"
proof (rule quiet_inv [where q = None and x = undefined])
  show "bridge_adds None undefined (hs_bridge h) (hs_bridge (on_bridge (bridge_timeout r) h))"
    by (auto simp: on_bridge_def bridge_timeout_def bridge_adds_def replies_def split: option.splits)
qed (simp_all add: on_bridge_def)

lemma start_inv: "host_inv h \<Longrightarrow> host_inv (host_start h)"
proof (rule quiet_inv [where q = None and x = undefined])
  show "bridge_adds None undefined (hs_bridge h) (hs_bridge (host_start h))"
    by (auto simp: host_start_def sendRunnerReady_def on_bridge_def sendRunnerEnvelope_def bridge_adds_def replies_def control_frame_def)
qed (simp_all add: host_start_def sendRunnerReady_def on_bridge_def)

lemma host_step_inv: "host_step h h' \<Longrightarrow> host_inv h \<Longrightarrow> host_inv h'"
proof (induction rule: host_step.induct)
  case (h_sdk uuid h H g call x b)
  then show ?case using sdk_inv by blast
qed (simp_all add: start_inv receive_inv assign_inv release_inv invoke_begin_inv invoke_end_inv telemetry_inv timeout_inv)

lemma host_run_inv: "host_run h h' \<Longrightarrow> host_inv h \<Longrightarrow> host_inv h'"
  by (induction rule: host_run.induct) (auto intro: host_step_inv)

lemma new_host_inv: "host_inv (new_host i n cs t pid)"
  by (simp add: host_inv_def chains_ok_def contexts_ok_def replies_ok_def new_host_def new_bridge_def chain_def)

section \<open>Properties\<close>

text \<open>What the Broker does with the answer of an operation it waits for.\<close>

lemma answer_settles:
  assumes "child_ok c" and "waiting c r" and "op_id f = Some r" and "answers f x" and "fr_requestId x = Some r"
  shows "\<not> waiting (message_end x None c) r \<and> settles (message_end x None c) r = 1"
proof -
  have b: "book (waits c r) (settles c r) True" using assms(1,2) by (metis child_ok_def)
  then have s: "settles c r = 0" by (simp add: book_def)
  have r: "truthy (fr_requestId x) = Some r" using assms(5) op_id_nonempty [OF assms(3)] by (simp add: truthy_Some)
  obtain p where p: "map_get (ch_pending c) r = Some p" using assms(2) by (auto simp: waiting_def)
  have set1: "settles (c1\<lparr>ch_assignedGames := gs\<rparr>) r = settles c1 r" "waiting (c1\<lparr>ch_assignedGames := gs\<rparr>) r = waiting c1 r" for c1 gs
    by (simp_all add: settles_def waiting_def)
  have t: "fr_type x \<in> {''handler.error'', ''isolate.fatal'', ''handler.complete'', ''isolate.ready''}"
    using assms(4) by (auto simp: answers_def split: if_splits)
  note z = settle_books(2,3) [OF assms(2) refl]
  show ?thesis
    using t by (auto simp: message_end_def completePendingForEnvelope_def r resolvePending_def child_rejectPending_def p Let_def set1 z s
        split: bool.splits option.splits)
qed


definition assign_frame :: frame where
  "assign_frame = bridge_frame ''g'' ''assign'' (assignment_js assignment0) (Some ''r'')"

definition assigned_host :: "nat RunnerChildHost" where
  "assigned_host = host_assign 5 (Inr (Some 7)) ''g'' assign_frame
     (handleBrokerMessage plain_host (frame_js assign_frame) (new_host ''c'' 4 (1, 1) 1000 1))"

lemma assigned_host_run: "host_run (new_host ''c'' 4 (1, 1) 1000 1) assigned_host"
proof -
  let ?h0 = "new_host ''c'' 4 (1, 1) 1000 1 :: nat RunnerChildHost"
  let ?h1 = "handleBrokerMessage plain_host (frame_js assign_frame) ?h0"
  have "fresh_message (frame_js assign_frame) ?h0"
    by (simp add: fresh_message_def used_ids_def new_host_def new_bridge_def chain_def replies_def split: option.split)
  then have 1: "host_step ?h0 ?h1" by (rule h_receive)
  have e: "isBrokerToRunnerEnvelope (frame_js assign_frame)" by (simp add: frame_passes assign_frame_def bridge_frame_def)
  have "?h1 = enqueueGameOperation ''g'' assign_frame ?h0"
    using e by (simp add: handleBrokerMessage_def Let_def resolveBrokerResponse_def isBrokerResponseEnvelope_def is_operation_def
        assign_frame_def bridge_frame_def suffix_def)
  then have "head_op ''g'' ?h1 = Some assign_frame"
    by (simp add: head_op_def enqueueGameOperation_def new_host_def map_has_def)
  then have "host_step ?h1 assigned_host"
    unfolding assigned_host_def by (rule h_assign) (simp add: assign_frame_def bridge_frame_def)
  then show ?thesis by (rule hrun_step [OF hrun_step [OF hrun_refl 1]])
qed

lemma assigned_host_done: "hs_done assigned_host = [assign_frame]"
  by code_simp


text \<open>
  A second \<^verbatim>\<open>assign\<close> for a game that the runner holds is refused, and the host forgets the first one: the
  game stays loaded, but no call reaches it any more.
\<close>

lemma duplicate_assign_orphans:
  assumes "fr_gameId f = Some g" and "map_has (nv_games (hs_runner h)) g"
  shows "\<not> map_has (hs_assignments (host_assign now loaded g f h)) g"
    and "nv_games (hs_runner (host_assign now loaded g f h)) = nv_games (hs_runner h)"
proof -
  have keep: "hs_assignments (finish_op g k) = hs_assignments k" "hs_runner (finish_op g k) = hs_runner k" for k :: "'a RunnerChildHost"
    by (simp_all add: finish_op_def split: option.splits list.splits)
  have fatal: "hs_assignments (sendFatal g e r k) = hs_assignments k" "hs_runner (sendFatal g e r k) = hs_runner k" for e r and k :: "'a RunnerChildHost"
    by (simp_all add: sendFatal_def on_bridge_def)
  show "\<not> map_has (hs_assignments (host_assign now loaded g f h)) g"
    and "nv_games (hs_runner (host_assign now loaded g f h)) = nv_games (hs_runner h)"
    using assms by (simp_all add: host_assign_def noivm_assign_def toRunnerAssignment_def RunnerAssignment.defs keep fatal map_has_def
        delete_conv' Let_def split: prod.splits)
qed

end
