(* ===== verification/RunnerPool.thy ===== *)
theory RunnerPool
  imports RunnerProcessProps
begin

text \<open>
  The pool of runner processes (\<^verbatim>\<open>RunnerPool\<close> of \<^verbatim>\<open>runtime/runner/src/index.mts\<close>) over any runner: a
  runner process seen from the Broker, or the runner without isolates. Runners are objects that
  the list of runners and the table of assignments share, so they are kept in a store and named
  by their address.
\<close>

section \<open>The interface of a runner\<close>

record 'r runner_ops =
  ro_id :: "'r \<Rightarrow> string"
  ro_assignedGames :: "'r \<Rightarrow> js_set"
  ro_maxAssignedGames :: "'r \<Rightarrow> int option"

record 'r RunnerPool =
  pl_objects :: "'r list"
  pl_runners :: "nat list"
  pl_assignments :: "nat js_map"

definition new_pool :: "'r list \<Rightarrow> string + 'r RunnerPool" where
  "new_pool runners =
     (if runners = [] then Inl ''RunnerPool requires at least one runner''
      else Inr \<lparr>pl_objects = runners, pl_runners = [0..<length runners], pl_assignments = []\<rparr>)"

definition pool_load :: "'r runner_ops \<Rightarrow> 'r RunnerPool \<Rightarrow> nat \<Rightarrow> nat" where
  "pool_load R P n = length (ro_assignedGames R (pl_objects P ! n))"

definition has_capacity :: "'r runner_ops \<Rightarrow> 'r RunnerPool \<Rightarrow> nat \<Rightarrow> bool" where
  "has_capacity R P n =
     (case ro_maxAssignedGames R (pl_objects P ! n) of None \<Rightarrow> True | Some m \<Rightarrow> int (pool_load R P n) < m)"

definition pickRunner :: "'r runner_ops \<Rightarrow> 'r RunnerPool \<Rightarrow> string + nat" where
  "pickRunner R P =
     (case sort_key (pool_load R P) (filter (has_capacity R P) (pl_runners P)) of
        [] \<Rightarrow> Inl ''no Runner has assignment capacity''
      | n # ns \<Rightarrow> Inr n)"

text \<open>
  \<^verbatim>\<open>assign\<close>: the runner is picked, its own \<^verbatim>\<open>assign\<close> runs (\<open>result\<close> is the runner after it, \<open>Inl\<close> when it
  failed), and the game is entered.
\<close>

definition pool_assigned :: "string \<Rightarrow> nat \<Rightarrow> 'r RunnerPool \<Rightarrow> 'r RunnerPool" where
  "pool_assigned gameId n P = P\<lparr>pl_assignments := map_set gameId n (pl_assignments P)\<rparr>"

definition pool_assign ::
  "'r runner_ops \<Rightarrow> (RunnerAssignment \<Rightarrow> 'r \<Rightarrow> (string + unit) \<times> 'r) \<Rightarrow> RunnerAssignment \<Rightarrow> 'r RunnerPool \<Rightarrow> (string + nat) \<times> 'r RunnerPool" where
  "pool_assign R assign1 a P =
     (case pickRunner R P of
        Inl e \<Rightarrow> (Inl e, P)
      | Inr n \<Rightarrow>
         (case assign1 a (pl_objects P ! n) of
            (Inl e, r) \<Rightarrow> (Inl e, P\<lparr>pl_objects := (pl_objects P)[n := r]\<rparr>)
          | (Inr u, r) \<Rightarrow> (Inr n, pool_assigned (ra_gameId a) n (P\<lparr>pl_objects := (pl_objects P)[n := r]\<rparr>))))"

definition pool_invoke :: "string \<Rightarrow> 'r RunnerPool \<Rightarrow> string + nat" where
  "pool_invoke gameId P =
     (case map_get (pl_assignments P) gameId of
        None \<Rightarrow> Inl (''game '' @ gameId @ '' is not assigned to a runner'')
      | Some n \<Rightarrow> Inr n)"

definition pool_release ::
  "(string \<Rightarrow> 'r \<Rightarrow> (string + unit) \<times> 'r) \<Rightarrow> string \<Rightarrow> 'r RunnerPool \<Rightarrow> (string + unit) \<times> 'r RunnerPool" where
  "pool_release release1 gameId P =
     (case map_get (pl_assignments P) gameId of
        None \<Rightarrow> (Inr (), P)
      | Some n \<Rightarrow>
         (case release1 gameId (pl_objects P ! n) of
            (Inl e, r) \<Rightarrow> (Inl e, P\<lparr>pl_objects := (pl_objects P)[n := r]\<rparr>)
          | (Inr u, r) \<Rightarrow> (Inr (), P\<lparr>pl_objects := (pl_objects P)[n := r],
                                   pl_assignments := map_delete gameId (pl_assignments P)\<rparr>)))"

definition pool_stop :: "('r \<Rightarrow> 'r) \<Rightarrow> 'r RunnerPool \<Rightarrow> 'r RunnerPool" where
  "pool_stop stop1 P =
     P\<lparr>pl_objects := fold (\<lambda>n rs. rs[n := stop1 (rs ! n)]) (pl_runners P) (pl_objects P), pl_assignments := []\<rparr>"

definition crashRunnerForTest :: "'r runner_ops \<Rightarrow> ('r \<Rightarrow> bool \<times> 'r) option \<Rightarrow> string \<Rightarrow> 'r RunnerPool \<Rightarrow> bool \<times> 'r RunnerPool" where
  "crashRunnerForTest R crash runnerId P =
     (case (List.find (\<lambda>n. ro_id R (pl_objects P ! n) = runnerId) (pl_runners P), crash) of
        (Some n, Some f) \<Rightarrow> (let (b, r) = f (pl_objects P ! n) in (b, P\<lparr>pl_objects := (pl_objects P)[n := r]\<rparr>))
      | _ \<Rightarrow> (False, P))"

fun index_of :: "('a \<Rightarrow> bool) \<Rightarrow> 'a list \<Rightarrow> nat option" where
  "index_of p [] = None"
| "index_of p (x # xs) = (if p x then Some 0 else map_option Suc (index_of p xs))"

definition replaceRunner :: "'r runner_ops \<Rightarrow> string \<Rightarrow> 'r \<Rightarrow> 'r RunnerPool \<Rightarrow> (string + unit) \<times> 'r RunnerPool" where
  "replaceRunner R runnerId replacement P =
     (case index_of (\<lambda>n. ro_id R (pl_objects P ! n) = runnerId) (pl_runners P) of
        None \<Rightarrow> (Inl (''runner '' @ runnerId @ '' is not in the pool''), P)
      | Some k \<Rightarrow>
         (Inr (), P\<lparr>pl_objects := pl_objects P @ [replacement], pl_runners := (pl_runners P)[k := length (pl_objects P)],
            pl_assignments := filter (\<lambda>(g, n). ro_id R (pl_objects P ! n) \<noteq> runnerId) (pl_assignments P)\<rparr>))"

section \<open>The contract of a runner\<close>

text \<open>What the pool relies on: an assignment that succeeds adds its game, a release takes one away, a failure changes nothing.\<close>

text \<open>The calls of a pool, each of which has settled before the next; \<open>'x\<close>: what the world answers to an assignment.\<close>

datatype 'x pool_call = PoolAssign 'x RunnerAssignment | PoolRelease string

fun is_assign :: "'x pool_call \<Rightarrow> bool" where
  "is_assign (PoolAssign x a) = True"
| "is_assign (PoolRelease g) = False"

fun pool_do ::
  "'r runner_ops \<Rightarrow> ('x \<Rightarrow> RunnerAssignment \<Rightarrow> 'r \<Rightarrow> (string + unit) \<times> 'r) \<Rightarrow> (string \<Rightarrow> 'r \<Rightarrow> (string + unit) \<times> 'r)
   \<Rightarrow> 'x pool_call \<Rightarrow> 'r RunnerPool \<Rightarrow> 'r RunnerPool" where
  "pool_do R assign1 release1 (PoolAssign x a) P = snd (pool_assign R (assign1 x) a P)"
| "pool_do R assign1 release1 (PoolRelease g) P = snd (pool_release release1 g P)"

definition pool_calls ::
  "'r runner_ops \<Rightarrow> ('x \<Rightarrow> RunnerAssignment \<Rightarrow> 'r \<Rightarrow> (string + unit) \<times> 'r) \<Rightarrow> (string \<Rightarrow> 'r \<Rightarrow> (string + unit) \<times> 'r)
   \<Rightarrow> 'x pool_call list \<Rightarrow> 'r RunnerPool \<Rightarrow> 'r RunnerPool" where
  "pool_calls R assign1 release1 = fold (pool_do R assign1 release1)"

lemma pool_calls_simps [simp]:
  "pool_calls R assign1 release1 [] P = P"
  "pool_calls R assign1 release1 (c # cs) P = pool_calls R assign1 release1 cs (pool_do R assign1 release1 c P)"
  by (simp_all add: pool_calls_def)

locale runner_process =
  fixes R :: "'r runner_ops" and ok :: "'r \<Rightarrow> bool"
    and assign1 :: "'x \<Rightarrow> RunnerAssignment \<Rightarrow> 'r \<Rightarrow> (string + unit) \<times> 'r"
    and release1 :: "string \<Rightarrow> 'r \<Rightarrow> (string + unit) \<times> 'r"
  assumes assign_ok: "ok r \<Longrightarrow> assign1 x a r = (Inr u, r') \<Longrightarrow>
      ok r' \<and> ra_gameId a \<notin> set (ro_assignedGames R r) \<and> ro_assignedGames R r' = ro_assignedGames R r @ [ra_gameId a]"
    and assign_fails: "ok r \<Longrightarrow> assign1 x a r = (Inl e, r') \<Longrightarrow> ok r' \<and> ro_assignedGames R r' = ro_assignedGames R r"
    and assign_static: "assign1 x a r = (y, r') \<Longrightarrow> ro_id R r' = ro_id R r \<and> ro_maxAssignedGames R r' = ro_maxAssignedGames R r"
    and release_ok: "ok r \<Longrightarrow> release1 g r = (Inr u, r') \<Longrightarrow>
      ok r' \<and> ro_assignedGames R r' = set_delete g (ro_assignedGames R r)"
    and release_fails: "ok r \<Longrightarrow> release1 g r = (Inl e, r') \<Longrightarrow> ok r' \<and> ro_assignedGames R r' = ro_assignedGames R r"
    and release_static: "release1 g r = (y, r') \<Longrightarrow> ro_id R r' = ro_id R r \<and> ro_maxAssignedGames R r' = ro_maxAssignedGames R r"

definition pool_ok :: "('r \<Rightarrow> bool) \<Rightarrow> 'r RunnerPool \<Rightarrow> bool" where
  "pool_ok ok P \<longleftrightarrow> (\<forall>n \<in> set (pl_runners P). n < length (pl_objects P)) \<and> list_all ok (pl_objects P)"

definition fits :: "'r runner_ops \<Rightarrow> 'r RunnerPool \<Rightarrow> bool" where
  "fits R P \<longleftrightarrow> (\<forall>n \<in> set (pl_runners P).
     case ro_maxAssignedGames R (pl_objects P ! n) of None \<Rightarrow> True | Some m \<Rightarrow> int (pool_load R P n) \<le> max 0 m)"

text \<open>Loads that differ by one at most, but for runners that are full.\<close>

definition even_pool :: "'r runner_ops \<Rightarrow> 'r RunnerPool \<Rightarrow> bool" where
  "even_pool R P \<longleftrightarrow>
     (\<forall>m \<in> set (pl_runners P). \<forall>n \<in> set (pl_runners P). pool_load R P m \<le> pool_load R P n + 1 \<or> \<not> has_capacity R P n)"

text \<open>A game is on the runner to which its calls go, and on no other.\<close>

definition routed :: "'r runner_ops \<Rightarrow> 'r RunnerPool \<Rightarrow> bool" where
  "routed R P \<longleftrightarrow> (\<forall>g n. map_get (pl_assignments P) g = Some n \<longrightarrow>
     n \<in> set (pl_runners P) \<and> g \<in> set (ro_assignedGames R (pl_objects P ! n)))"

lemma pick_spec:
  assumes "pickRunner R P = Inr n"
  shows "n \<in> set (pl_runners P)" and "has_capacity R P n"
    and "m \<in> set (pl_runners P) \<Longrightarrow> has_capacity R P m \<Longrightarrow> pool_load R P n \<le> pool_load R P m"
proof -
  let ?A = "filter (has_capacity R P) (pl_runners P)"
  obtain ns where s: "sort_key (pool_load R P) ?A = n # ns"
    using assms by (auto simp: pickRunner_def split: list.splits)
  have eq: "set (n # ns) = set ?A" using s by (metis set_sort)
  then show "n \<in> set (pl_runners P)" and "has_capacity R P n" by (auto simp: set_eq_iff)
  have "sorted (map (pool_load R P) (n # ns))" using s by (metis sorted_sort_key)
  then show "m \<in> set (pl_runners P) \<Longrightarrow> has_capacity R P m \<Longrightarrow> pool_load R P n \<le> pool_load R P m"
    using eq by (auto simp: set_eq_iff)
qed

lemma pick_refused:
  "pickRunner R P = Inl e \<longleftrightarrow> e = ''no Runner has assignment capacity'' \<and> (\<forall>n \<in> set (pl_runners P). \<not> has_capacity R P n)"
proof -
  let ?A = "filter (has_capacity R P) (pl_runners P)"
  have e: "sort_key (pool_load R P) ?A = [] \<longleftrightarrow> ?A = []" by (metis length_0_conv length_sort)
  show ?thesis
  proof (cases "sort_key (pool_load R P) ?A")
    case Nil
    with e have "\<forall>n \<in> set (pl_runners P). \<not> has_capacity R P n" by (simp add: filter_empty_conv)
    with Nil show ?thesis by (auto simp: pickRunner_def)
  next
    case (Cons n ns)
    with e have "?A \<noteq> []" by simp
    with Cons show ?thesis by (auto simp: pickRunner_def filter_empty_conv)
  qed
qed

lemma pool_load_other: "m \<noteq> n \<Longrightarrow> pool_load R (P\<lparr>pl_objects := (pl_objects P)[n := r], pl_assignments := x\<rparr>) m = pool_load R P m"
  by (simp add: pool_load_def)

context runner_process
begin

text \<open>One assignment on the runner at address \<open>n\<close>: what every reader of the pool sees of it.\<close>

lemma assigned_at:
  assumes P: "pool_ok ok P" and n: "n \<in> set (pl_runners P)" and a: "assign1 x a (pl_objects P ! n) = (Inr u, r)"
    and P': "P' = pool_assigned (ra_gameId a) n (P\<lparr>pl_objects := (pl_objects P)[n := r]\<rparr>)"
  shows "pool_ok ok P'" and "pl_runners P' = pl_runners P"
    and "pool_load R P' m = (if m = n then pool_load R P m + 1 else pool_load R P m)"
    and "ro_maxAssignedGames R (pl_objects P' ! m) = ro_maxAssignedGames R (pl_objects P ! m)"
    and "ro_assignedGames R (pl_objects P' ! m)
         = ro_assignedGames R (pl_objects P ! m) @ (if m = n then [ra_gameId a] else [])"
proof -
  have b: "n < length (pl_objects P)" "ok (pl_objects P ! n)" using P n by (auto simp: pool_ok_def list_all_length)
  note k = assign_ok [OF b(2) a] assign_static [OF a]
  show "pool_ok ok P'" using P k b by (auto simp: P' pool_ok_def pool_assigned_def list_all_length nth_list_update)
  show "pl_runners P' = pl_runners P" by (simp add: P' pool_assigned_def)
  show "pool_load R P' m = (if m = n then pool_load R P m + 1 else pool_load R P m)"
    using k b by (simp add: P' pool_load_def pool_assigned_def)
  show "ro_maxAssignedGames R (pl_objects P' ! m) = ro_maxAssignedGames R (pl_objects P ! m)"
    using k b by (cases "m = n") (simp_all add: P' pool_assigned_def)
  show "ro_assignedGames R (pl_objects P' ! m)
         = ro_assignedGames R (pl_objects P ! m) @ (if m = n then [ra_gameId a] else [])"
    using k b by (simp add: P' pool_assigned_def)
qed

lemma even_after:
  assumes "pool_ok ok P" and "even_pool R P" and p: "pickRunner R P = Inr n"
    and "assign1 x a (pl_objects P ! n) = (Inr u, r)"
    and "P' = pool_assigned (ra_gameId a) n (P\<lparr>pl_objects := (pl_objects P)[n := r]\<rparr>)"
  shows "even_pool R P'"
proof -
  note p = pick_spec [OF p]
  note o = assigned_at [OF assms(1) p(1) assms(4,5)]
  have cap: "has_capacity R P' m \<Longrightarrow> has_capacity R P m" for m
    using o(3) [of m] by (auto simp: has_capacity_def o(4) split: option.splits if_splits)
  show ?thesis
    unfolding even_pool_def o(2)
  proof (intro ballI)
    fix m k
    assume mk: "m \<in> set (pl_runners P)" "k \<in> set (pl_runners P)"
    show "pool_load R P' m \<le> pool_load R P' k + 1 \<or> \<not> has_capacity R P' k"
    proof (cases "m = n \<and> has_capacity R P' k")
      case True
      then show ?thesis using p(3) [OF mk(2)] cap by (auto simp: o(3))
    next
      case False
      have "pool_load R P m \<le> pool_load R P k + 1 \<or> \<not> has_capacity R P k" using assms(2) mk by (simp add: even_pool_def)
      then show ?thesis using False cap [of k] by (auto simp: o(3))
    qed
  qed
qed

lemma fits_after:
  assumes "pool_ok ok P" and "fits R P" and p: "pickRunner R P = Inr n"
    and "assign1 x a (pl_objects P ! n) = (Inr u, r)"
    and "P' = pool_assigned (ra_gameId a) n (P\<lparr>pl_objects := (pl_objects P)[n := r]\<rparr>)"
  shows "fits R P'"
proof -
  note p = pick_spec [OF p]
  note o = assigned_at [OF assms(1) p(1) assms(4,5)]
  show ?thesis
    using assms(2) p(2) unfolding fits_def o(2) by (auto simp: o(3,4) has_capacity_def split: option.splits)
qed

lemma routed_after:
  assumes "pool_ok ok P" and "routed R P" and p: "n \<in> set (pl_runners P)"
    and "assign1 x a (pl_objects P ! n) = (Inr u, r)"
    and P': "P' = pool_assigned (ra_gameId a) n (P\<lparr>pl_objects := (pl_objects P)[n := r]\<rparr>)"
  shows "routed R P'"
proof -
  note o = assigned_at [OF assms(1) p assms(4,5)]
  have "pl_assignments P' = map_set (ra_gameId a) n (pl_assignments P)" by (simp add: P' pool_assigned_def)
  then show ?thesis using assms(2) p by (auto simp: routed_def o(2,5) update_conv' split: if_splits)
qed

text \<open>A call that failed left its runner as full as it was.\<close>

lemma ok_at: "pool_ok ok P \<Longrightarrow> n \<in> set (pl_runners P) \<Longrightarrow> ok (pl_objects P ! n)"
  by (auto simp: pool_ok_def list_all_length)

lemma unchanged_at:
  assumes P: "pool_ok ok P" and n: "n \<in> set (pl_runners P)" and r: "ok r"
    and same: "ro_assignedGames R r = ro_assignedGames R (pl_objects P ! n)"
      "ro_maxAssignedGames R r = ro_maxAssignedGames R (pl_objects P ! n)"
    and P': "P' = P\<lparr>pl_objects := (pl_objects P)[n := r]\<rparr>"
  shows "pool_ok ok P'" and "even_pool R P' = even_pool R P" and "fits R P' = fits R P" and "routed R P' = routed R P"
proof -
  have b: "n < length (pl_objects P)" using P n by (auto simp: pool_ok_def)
  show "pool_ok ok P'" using P r b by (auto simp: P' pool_ok_def list_all_length nth_list_update)
  have g: "ro_assignedGames R (pl_objects P' ! m) = ro_assignedGames R (pl_objects P ! m)"
    and x: "ro_maxAssignedGames R (pl_objects P' ! m) = ro_maxAssignedGames R (pl_objects P ! m)" for m
    using same b by (cases "m = n"; simp add: P')+
  have s: "pl_runners P' = pl_runners P" "pl_assignments P' = pl_assignments P" by (simp_all add: P')
  have l: "pool_load R P' m = pool_load R P m" for m by (simp add: pool_load_def g)
  have c: "has_capacity R P' m = has_capacity R P m" for m unfolding has_capacity_def l x ..
  show "even_pool R P' = even_pool R P" unfolding even_pool_def s l c ..
  show "fits R P' = fits R P" unfolding fits_def s l x ..
  show "routed R P' = routed R P" unfolding routed_def s g ..
qed

lemma assign_cases:
  assumes "pool_assign R (assign1 x) a P = (z, P')" and P: "pool_ok ok P"
  obtains (same) "pool_ok ok P'" "even_pool R P' = even_pool R P" "fits R P' = fits R P" "routed R P' = routed R P"
  | (ran) n u r where "pickRunner R P = Inr n" "assign1 x a (pl_objects P ! n) = (Inr u, r)"
      "P' = pool_assigned (ra_gameId a) n (P\<lparr>pl_objects := (pl_objects P)[n := r]\<rparr>)"
proof (cases "pickRunner R P")
  case (Inl e)
  then show ?thesis using assms same by (simp add: pool_assign_def)
next
  case (Inr n)
  obtain y r where y: "assign1 x a (pl_objects P ! n) = (y, r)" by fastforce
  note n = pick_spec(1) [OF Inr]
  show ?thesis
  proof (cases y)
    case (Inl e)
    with y have f: "assign1 x a (pl_objects P ! n) = (Inl e, r)" by simp
    with assms(1) Inr have "P' = P\<lparr>pl_objects := (pl_objects P)[n := r]\<rparr>" by (auto simp: pool_assign_def)
    from unchanged_at [OF P n _ _ _ this] assign_fails [OF ok_at [OF P n] f] assign_static [OF f]
    show ?thesis using same by simp
  next
    case (Inr u)
    with y \<open>pickRunner R P = Inr n\<close> assms(1) show ?thesis using ran [of n u r] by (auto simp: pool_assign_def)
  qed
qed

lemma assign_keeps:
  assumes "pool_assign R (assign1 x) a P = (z, P')" and P: "pool_ok ok P" "fits R P" "routed R P"
  shows "pool_ok ok P' \<and> fits R P' \<and> routed R P'"
  using assms(1) P(1)
proof (cases rule: assign_cases)
  case same
  then show ?thesis using P by simp
next
  case (ran n u r)
  note n = pick_spec(1) [OF ran(1)]
  show ?thesis
    using fits_after [OF P(1,2) ran] routed_after [OF P(1,3) n ran(2,3)] assigned_at(1) [OF P(1) n ran(2,3)] by simp
qed

lemma assign_even:
  assumes "pool_assign R (assign1 x) a P = (z, P')" and P: "pool_ok ok P" "even_pool R P"
  shows "even_pool R P'"
  using assms(1) P(1)
proof (cases rule: assign_cases)
  case same
  then show ?thesis using P by simp
next
  case (ran n u r)
  show ?thesis by (rule even_after [OF P ran])
qed

lemma released_at:
  assumes P: "pool_ok ok P" and n: "n \<in> set (pl_runners P)" and a: "release1 g (pl_objects P ! n) = (Inr u, r)"
    and P': "P' = P\<lparr>pl_objects := (pl_objects P)[n := r], pl_assignments := map_delete g (pl_assignments P)\<rparr>"
  shows "pool_ok ok P'" and "fits R P \<Longrightarrow> fits R P'" and "routed R P \<Longrightarrow> routed R P'"
proof -
  have b: "n < length (pl_objects P)" "ok (pl_objects P ! n)" using P n by (auto simp: pool_ok_def list_all_length)
  note k = release_ok [OF b(2) a] release_static [OF a]
  show "pool_ok ok P'" using P k b by (auto simp: P' pool_ok_def list_all_length nth_list_update)
  have g: "ro_assignedGames R (pl_objects P' ! m)
      = (if m = n then set_delete g (ro_assignedGames R (pl_objects P ! m)) else ro_assignedGames R (pl_objects P ! m))"
    and x: "ro_maxAssignedGames R (pl_objects P' ! m) = ro_maxAssignedGames R (pl_objects P ! m)" for m
    using k b by (cases "m = n"; simp add: P')+
  have "pool_load R P' m \<le> pool_load R P m" for m by (simp add: pool_load_def g set_delete_def)
  then have l: "int (pool_load R P m) \<le> z \<Longrightarrow> int (pool_load R P' m) \<le> z" for m z
    by (meson of_nat_le_iff order_trans)
  have s: "pl_runners P' = pl_runners P" "pl_assignments P' = map_delete g (pl_assignments P)" by (simp_all add: P')
  show "fits R P \<Longrightarrow> fits R P'" unfolding fits_def s x by (auto split: option.splits intro: l)
  show "routed R P \<Longrightarrow> routed R P'" unfolding routed_def s by (auto simp: g delete_conv' split: if_splits)
qed

lemma release_keeps:
  assumes "pool_release release1 g P = (z, P')" and P: "pool_ok ok P" "fits R P" "routed R P"
  shows "pool_ok ok P' \<and> fits R P' \<and> routed R P'"
proof (cases "map_get (pl_assignments P) g")
  case None
  then show ?thesis using assms by (simp add: pool_release_def)
next
  case (Some n)
  obtain y r where y: "release1 g (pl_objects P ! n) = (y, r)" by fastforce
  have n: "n \<in> set (pl_runners P)" using P(3) Some by (simp add: routed_def)
  show ?thesis
  proof (cases y)
    case (Inl e)
    with y have f: "release1 g (pl_objects P ! n) = (Inl e, r)" by simp
    with assms(1) Some have "P' = P\<lparr>pl_objects := (pl_objects P)[n := r]\<rparr>" by (auto simp: pool_release_def)
    from unchanged_at [OF P(1) n _ _ _ this] release_fails [OF _ f] release_static [OF f] ok_at [OF P(1) n] P
    show ?thesis by simp
  next
    case (Inr u)
    with y have f: "release1 g (pl_objects P ! n) = (Inr u, r)" by simp
    with assms(1) Some have "P' = P\<lparr>pl_objects := (pl_objects P)[n := r], pl_assignments := map_delete g (pl_assignments P)\<rparr>"
      by (auto simp: pool_release_def)
    from released_at [OF P(1) n f this] P show ?thesis by simp
  qed
qed

lemma calls_keep:
  assumes "pool_ok ok P" and "fits R P" and "routed R P"
  shows "pool_ok ok (pool_calls R assign1 release1 cs P) \<and> fits R (pool_calls R assign1 release1 cs P)
    \<and> routed R (pool_calls R assign1 release1 cs P)"
  using assms
proof (induction cs arbitrary: P)
  case Nil
  then show ?case by simp
next
  case (Cons c cs)
  have "pool_ok ok (pool_do R assign1 release1 c P) \<and> fits R (pool_do R assign1 release1 c P)
    \<and> routed R (pool_do R assign1 release1 c P)"
    using assign_keeps [OF prod.collapse [symmetric] Cons.prems] release_keeps [OF prod.collapse [symmetric] Cons.prems]
    by (cases c) simp_all
  then show ?case using Cons.IH by simp
qed

lemma assigns_keep_even:
  assumes "pool_ok ok P" and "fits R P" and "routed R P" and "even_pool R P" and "list_all is_assign cs"
  shows "even_pool R (pool_calls R assign1 release1 cs P)"
  using assms
proof (induction cs arbitrary: P)
  case Nil
  then show ?case by simp
next
  case (Cons c cs)
  then obtain x a where c: "c = PoolAssign x a" by (cases c) auto
  have "pool_ok ok (snd (pool_assign R (assign1 x) a P)) \<and> fits R (snd (pool_assign R (assign1 x) a P))
      \<and> routed R (snd (pool_assign R (assign1 x) a P))"
    using assign_keeps [OF prod.collapse [symmetric] Cons.prems(1-3)] by simp
  moreover have "even_pool R (snd (pool_assign R (assign1 x) a P))"
    using assign_even [OF prod.collapse [symmetric] Cons.prems(1,4)] by simp
  ultimately show ?case using Cons.IH Cons.prems(5) by (simp add: c)
qed

end

section \<open>A runner process as a runner\<close>

text \<open>An assignment and a release of a runner process that run to their end; the reply is the one that settles the request.\<close>

definition child_ops :: "ChildProcessRunnerProcess runner_ops" where
  "child_ops = \<lparr>ro_id = ch_id, ro_assignedGames = ch_assignedGames, ro_maxAssignedGames = \<lambda>c. Some (ch_maxAssignedGames c)\<rparr>"

definition child_assigned ::
  "string \<times> (string + unit) \<Rightarrow> RunnerAssignment \<Rightarrow> ChildProcessRunnerProcess \<Rightarrow> (string + unit) \<times> ChildProcessRunnerProcess" where
  "child_assigned x a c =
     (case child_assign (fst x) a c of
        (Inl e, c1) \<Rightarrow> (Inl e, c1)
      | (Inr u, c1) \<Rightarrow>
         if map_has (ch_pending c1) (fst x)
         then (snd x, case snd x of Inr v \<Rightarrow> resolvePending (fst x) c1 | Inl e \<Rightarrow> child_rejectPending e (fst x) c1)
         else (Inl (''runner child '' @ ch_id c @ '' is not connected''), c1))"

definition child_released :: "string \<Rightarrow> ChildProcessRunnerProcess \<Rightarrow> (string + unit) \<times> ChildProcessRunnerProcess" where
  "child_released g c =
     (case release_begin g c of
        (Inl e, c1) \<Rightarrow> (Inl e, c1)
      | (Inr b, c1) \<Rightarrow> (Inr (), if b then release_end g c1 else c1))"

lemma child_ops_simps [simp]:
  "ro_id child_ops = ch_id" "ro_assignedGames child_ops = ch_assignedGames"
  "ro_maxAssignedGames child_ops c = Some (ch_maxAssignedGames c)"
  by (simp_all add: child_ops_def)

lemma reject_keeps [simp]:
  "ch_assignedGames (child_rejectPending e r c) = ch_assignedGames c" "ch_id (child_rejectPending e r c) = ch_id c"
  "ch_maxAssignedGames (child_rejectPending e r c) = ch_maxAssignedGames c"
  by (simp_all add: child_rejectPending_def child_log_def split: option.splits)

lemma rejects_keep [simp]:
  "ch_assignedGames (fold (child_rejectPending e) rs c) = ch_assignedGames c" "ch_id (fold (child_rejectPending e) rs c) = ch_id c"
  "ch_maxAssignedGames (fold (child_rejectPending e) rs c) = ch_maxAssignedGames c"
  by (induction rs arbitrary: c) simp_all

lemma child_assigned_cases:
  "child_assigned x a c = (y, c') \<Longrightarrow> ch_id c' = ch_id c \<and> ch_maxAssignedGames c' = ch_maxAssignedGames c
    \<and> (case y of Inl e \<Rightarrow> ch_assignedGames c' = ch_assignedGames c
       | Inr u \<Rightarrow> ra_gameId a \<notin> set (ch_assignedGames c) \<and> ch_assignedGames c' = ch_assignedGames c @ [ra_gameId a])"
  by (auto simp: child_assigned_def child_assign_def request_child_def sendToChild_def waitFor_def child_rejectPending_def
      resolvePending_def child_log_def map_has_def update_conv' delete_conv' set_add_def Let_def
      split: if_splits sum.splits option.splits prod.splits)

lemma child_released_cases:
  "child_released g c = (y, c') \<Longrightarrow> ch_id c' = ch_id c \<and> ch_maxAssignedGames c' = ch_maxAssignedGames c
    \<and> ch_assignedGames c' = (case y of Inl e \<Rightarrow> ch_assignedGames c | Inr u \<Rightarrow> set_delete g (ch_assignedGames c))"
  by (auto simp: child_released_def release_begin_def release_end_def rejectGamePending_def sendToChild_def child_log_def set_delete_def
      intro!: filter_True [symmetric] split: if_splits sum.splits prod.splits)

interpretation child: runner_process child_ops "\<lambda>c. True" child_assigned child_released
  by unfold_locales (auto dest!: child_assigned_cases child_released_cases)

section \<open>The runner without isolates as a runner\<close>

definition noivm_ops :: "('b NoIvmRunnerProcess \<times> ProcessBrokerBridge) runner_ops" where
  "noivm_ops = \<lparr>ro_id = (\<lambda>p. nv_id (fst p)), ro_assignedGames = (\<lambda>p. nv_assignedGames (fst p)), ro_maxAssignedGames = \<lambda>p. None\<rparr>"

definition noivm_assigned ::
  "int \<times> (string + 'b option) \<Rightarrow> RunnerAssignment \<Rightarrow> 'b NoIvmRunnerProcess \<times> ProcessBrokerBridge
   \<Rightarrow> (string + unit) \<times> 'b NoIvmRunnerProcess \<times> ProcessBrokerBridge" where
  "noivm_assigned x a p = noivm_assign (fst x) (snd x) a p"

definition noivm_released ::
  "string \<Rightarrow> 'b NoIvmRunnerProcess \<times> ProcessBrokerBridge \<Rightarrow> (string + unit) \<times> 'b NoIvmRunnerProcess \<times> ProcessBrokerBridge" where
  "noivm_released g p = (Inr (), noivm_release g (fst p), snd p)"

definition noivm_ok :: "'b NoIvmRunnerProcess \<times> ProcessBrokerBridge \<Rightarrow> bool" where
  "noivm_ok p \<longleftrightarrow> (\<forall>g. g \<in> set (nv_assignedGames (fst p)) \<longleftrightarrow> map_has (nv_games (fst p)) g)"

lemma noivm_assigned_cases:
  "noivm_assigned x a p = (y, p') \<Longrightarrow> noivm_ok p \<Longrightarrow> noivm_ok p'
    \<and> (case y of Inl e \<Rightarrow> p' = p
       | Inr u \<Rightarrow> ra_gameId a \<notin> set (nv_assignedGames (fst p)) \<and> nv_id (fst p') = nv_id (fst p)
           \<and> nv_assignedGames (fst p') = nv_assignedGames (fst p) @ [ra_gameId a])"
  by (auto simp: noivm_assigned_def noivm_assign_def noivm_ok_def map_has_def set_add_def update_conv'
      split: if_splits sum.splits option.splits prod.splits)

interpretation noivm: runner_process noivm_ops noivm_ok noivm_assigned noivm_released
proof unfold_locales
  fix r :: "'b NoIvmRunnerProcess \<times> ProcessBrokerBridge" and r' x a y
  show "noivm_assigned x a r = (y, r') \<Longrightarrow>
    ro_id noivm_ops r' = ro_id noivm_ops r \<and> ro_maxAssignedGames noivm_ops r' = ro_maxAssignedGames noivm_ops r"
    by (auto simp: noivm_assigned_def noivm_assign_def noivm_ops_def split: if_splits sum.splits option.splits prod.splits)
qed (auto dest!: noivm_assigned_cases simp: noivm_ops_def noivm_released_def noivm_release_def noivm_ok_def map_has_def delete_conv' split: if_splits)

section \<open>Pools of runner processes\<close>

lemma new_pool_ok:
  assumes "new_pool rs = Inr P" and "list_all ok rs" and "\<forall>r \<in> set rs. ro_assignedGames R r = []"
  shows "pool_ok ok P" and "fits R P" and "routed R P" and "even_pool R P"
proof -
  have P: "P = \<lparr>pl_objects = rs, pl_runners = [0..<length rs], pl_assignments = []\<rparr>"
    using assms(1) by (auto simp: new_pool_def split: if_splits)
  then have l: "n \<in> set (pl_runners P) \<Longrightarrow> pool_load R P n = 0" for n using assms(3) by (simp add: pool_load_def)
  show "pool_ok ok P" using assms(2) by (simp add: P pool_ok_def)
  show "fits R P" using l by (auto simp: fits_def split: option.splits)
  show "routed R P" by (simp add: P routed_def)
  show "even_pool R P" using l by (simp add: even_pool_def)
qed

text \<open>
  C29: a pool of fresh runner processes, after any assignments and releases (each settled before the
  next, some of them failed): no runner holds more games than its limit, a call for a game goes to
  a runner that holds the game, and as long as nothing was released the loads of two runners differ
  by one at most, unless the emptier one is full.
\<close>

theorem pool_balanced:
  assumes "new_pool (map (\<lambda>i. new_child i kind limit) runnerIds) = Inr P"
    and P': "P' = pool_calls child_ops child_assigned child_released calls P"
  shows "(\<forall>n \<in> set (pl_runners P').
        int (length (ch_assignedGames (pl_objects P' ! n))) \<le> max 0 (ch_maxAssignedGames (pl_objects P' ! n)))
    \<and> (\<forall>g n. pool_invoke g P' = Inr n \<longrightarrow> n \<in> set (pl_runners P') \<and> g \<in> set (ch_assignedGames (pl_objects P' ! n)))
    \<and> (list_all is_assign calls \<longrightarrow> (\<forall>m \<in> set (pl_runners P'). \<forall>n \<in> set (pl_runners P').
        length (ch_assignedGames (pl_objects P' ! m)) \<le> length (ch_assignedGames (pl_objects P' ! n)) + 1
        \<or> ch_maxAssignedGames (pl_objects P' ! n) \<le> int (length (ch_assignedGames (pl_objects P' ! n)))))"
proof -
  have "list_all (\<lambda>c. True) (map (\<lambda>i. new_child i kind limit) runnerIds)"
    "\<forall>c \<in> set (map (\<lambda>i. new_child i kind limit) runnerIds). ro_assignedGames child_ops c = []"
    by (auto simp: new_child_def list_all_iff)
  note i = new_pool_ok [OF assms(1) this]
  note k = child.calls_keep [OF i(1-3), of calls, folded P'] child.assigns_keep_even [OF i, of calls, folded P']
  show ?thesis
    using k(1) k(2)
    by (auto simp: fits_def routed_def pool_invoke_def even_pool_def pool_load_def has_capacity_def not_less split: option.splits)
qed

theorem pool_balanced_witness:
  "let P = pool_calls child_ops child_assigned child_released
       [PoolAssign (''q1'', Inr ()) assignment0, PoolAssign (''q2'', Inr ()) (assignment0\<lparr>ra_gameId := ''h''\<rparr>)]
       \<lparr>pl_objects = [new_child ''r1'' Noivm 1, new_child ''r2'' Noivm 1], pl_runners = [0, 1], pl_assignments = []\<rparr>
   in length (ch_assignedGames (pl_objects P ! 0)) = 1 \<and> pl_assignments P = [(''g'', 0), (''h'', 1)]
     \<and> ''h'' \<in> set (ch_assignedGames (pl_objects P ! 1))"
  using pool_balanced [where runnerIds = "[''r1'', ''r2'']" and kind = Noivm and limit = 1
      and P = "\<lparr>pl_objects = [new_child ''r1'' Noivm 1, new_child ''r2'' Noivm 1], pl_runners = [0, 1], pl_assignments = []\<rparr>"
      and calls = "[PoolAssign (''q1'', Inr ()) assignment0, PoolAssign (''q2'', Inr ()) (assignment0\<lparr>ra_gameId := ''h''\<rparr>)]", OF _ refl]
  by (simp add: new_pool_def pool_assign_def pickRunner_def pool_load_def has_capacity_def child_ops_def new_child_def assignment0_def
      child_assigned_def child_assign_def request_child_def sendToChild_def waitFor_def resolvePending_def child_log_def
      pool_assigned_def map_has_def set_add_def upt_rec)

text \<open>
  Between the pick and the reply the assignment is not counted: the next pick takes the same runner,
  even when it had one place left.
\<close>

lemma nth_list_update_all: "xs[i := x] ! j = (if j = i \<and> i < length xs then x else xs ! j)"
  by (cases "i < length xs") (auto simp: nth_list_update list_update_beyond)

lemma pick_ignores_pending:
  assumes "pickRunner child_ops P = Inr n" and "child_assign r a (pl_objects P ! n) = (Inr u, c)"
  shows "pickRunner child_ops (P\<lparr>pl_objects := (pl_objects P)[n := c]\<rparr>) = Inr n"
proof -
  have c: "ch_assignedGames c = ch_assignedGames (pl_objects P ! n)" "ch_maxAssignedGames c = ch_maxAssignedGames (pl_objects P ! n)"
    using assms(2) by (auto simp: child_assign_def request_child_def sendToChild_def waitFor_def child_log_def split: if_splits)
  let ?P = "P\<lparr>pl_objects := (pl_objects P)[n := c]\<rparr>"
  have o: "ch_assignedGames ((pl_objects P)[n := c] ! m) = ch_assignedGames (pl_objects P ! m)"
    "ch_maxAssignedGames ((pl_objects P)[n := c] ! m) = ch_maxAssignedGames (pl_objects P ! m)" for m
    unfolding nth_list_update_all by (simp_all add: c)
  have l: "pool_load child_ops ?P = pool_load child_ops P" by (rule ext) (simp add: pool_load_def o)
  have h: "has_capacity child_ops ?P = has_capacity child_ops P" by (rule ext) (simp add: has_capacity_def l o)
  show ?thesis using assms(1) by (simp add: pickRunner_def l h)
qed

end
