(* ===== verification/GatewayEnvelope.thy ===== *)
theory GatewayEnvelope
  imports Ipc ObjectStore
begin

text \<open>
  What the API gateway sends and how often (\<^verbatim>\<open>orchestration/api-gateway/src/envelope.mts\<close> and
  \<^verbatim>\<open>budgets.mts\<close>): canonical JSON, the fingerprint of a call, the envelope of a request, and the
  sliding window that limits the calls of a game.
\<close>

section \<open>Canonical JSON\<close>

text \<open>
  The order in which JavaScript enumerates the own fields of an object: array indices first, in
  ascending order, then the other keys in the order in which they were added.
\<close>

definition is_array_index :: "string \<Rightarrow> bool" where
  "is_array_index k \<longleftrightarrow> k = dec_nat (read_nat k) \<and> read_nat k < 4294967295"

definition object_order :: "(string \<times> 'a) list \<Rightarrow> (string \<times> 'a) list" where
  "object_order fs =
     sort_key (\<lambda>(k, v). read_nat k) (filter (\<lambda>(k, v). is_array_index k) fs)
     @ filter (\<lambda>(k, v). \<not> is_array_index k) fs"

text \<open>
  \<^verbatim>\<open>canonicalize\<close>: the fields are assigned in the order of their keys. Fields that are
  \<^verbatim>\<open>undefined\<close> are skipped, and an assignment to \<^verbatim>\<open>__proto__\<close> sets no own field.
\<close>

definition proto :: string where
  "proto = ''__proto__''"

fun canonicalize :: "js \<Rightarrow> js" where
  "canonicalize (JArr xs) = JArr (map canonicalize xs)"
| "canonicalize (JObj fs) =
     JObj (object_order (filter (\<lambda>(k, x). x \<noteq> JUndef \<and> k \<noteq> proto)
       (sort_key fst (map (\<lambda>(k, x). (k, canonicalize x)) fs))))"
| "canonicalize v = v"

text \<open>\<^verbatim>\<open>JSON.stringify\<close> of an object or an array is never \<^verbatim>\<open>undefined\<close>.\<close>

definition default_text :: "string option \<Rightarrow> string" where
  "default_text t = (case t of None \<Rightarrow> [] | Some s \<Rightarrow> s)"

definition stableSerialize :: "js \<Rightarrow> string + string option" where
  "stableSerialize v = stringify (canonicalize v)"

section \<open>The envelope\<close>

definition sha256Hex :: "host \<Rightarrow> string \<Rightarrow> string" where
  "sha256Hex H v = host_sha256 H v"

definition spanIdFromRequestId :: "host \<Rightarrow> string \<Rightarrow> string" where
  "spanIdFromRequestId H requestId = take 16 (sha256Hex H requestId)"

definition is_lower_hex :: "char \<Rightarrow> bool" where
  "is_lower_hex c \<longleftrightarrow> is_digit c \<or> (97 \<le> byte c \<and> byte c \<le> 102)"

definition isTraceId :: "string option \<Rightarrow> bool" where
  "isTraceId v = (case v of None \<Rightarrow> False | Some t \<Rightarrow> length t = 32 \<and> list_all is_lower_hex t)"

definition session_js :: "ConnectedSessionSnapshot \<Rightarrow> js" where
  "session_js s = JObj [(''sessionId'', JStr (ss_sessionId s)), (''playerId'', JStr (ss_playerId s)),
     (''connectedAt'', JNum (ss_connectedAt s))]"

definition context_js :: "GatewayInvokeContext \<Rightarrow> js" where
  "context_js c =
     JObj [(''gameId'', JStr (gc_gameId c)), (''traceId'', str_or_null (gc_traceId c)),
       (''triggeringSessionId'', str_or_null (gc_triggeringSessionId c)),
       (''triggeringJwtClaims'', case gc_triggeringJwtClaims c of None \<Rightarrow> JNull | Some fs \<Rightarrow> JObj fs),
       (''connectedSessions'', JArr (map session_js (gc_connectedSessions c))),
       (''bundleName'', JStr (gc_bundleName c)), (''bundleCompatTag'', JStr (gc_bundleCompatTag c)),
       (''runId'', str_or_null (gc_runId c)), (''idempotencyKey'', str_or_null (gc_idempotencyKey c))]"

definition body_js :: "GatewayHttpRequestBody \<Rightarrow> js" where
  "body_js b = JObj [(''args'', gb_args b), (''context'', context_js (gb_context b))]"

record BuiltGatewayEnvelope =
  ge_requestId :: string
  ge_body :: GatewayHttpRequestBody
  ge_rawOutbound :: string
  ge_fingerprint :: string
  ge_headers :: "string js_map"

definition wire_mode :: "WireMode \<Rightarrow> string" where
  "wire_mode m = (case m of Live \<Rightarrow> ''live'' | Replay \<Rightarrow> ''replay'')"

definition fingerprint_js :: "ApiGatewayDispatchInput \<Rightarrow> js" where
  "fingerprint_js i = JObj [(''kind'', JStr (ai_kind i)), (''args'', ai_args i)]"

definition gateway_headers :: "host \<Rightarrow> string \<Rightarrow> ApiGatewayDispatchInput \<Rightarrow> WireMode \<Rightarrow> string option \<Rightarrow> string js_map" where
  "gateway_headers H requestId i mode traceId =
     [(''content-type'', ''application/json''),
      (''x-gateway-envelope-version'', dec_int GATEWAY_ENVELOPE_VERSION),
      (''x-gateway-request-id'', requestId), (''x-gateway-game-id'', di_gameId i),
      (''x-gateway-kind'', ai_kind i), (''x-gateway-mode'', wire_mode mode)]
     @ (case di_runId i of None \<Rightarrow> [] | Some r \<Rightarrow> [(''x-gateway-run-id'', r)])
     @ (case traceId of None \<Rightarrow> []
        | Some t \<Rightarrow> [(''traceparent'', ''00-'' @ t @ ''-'' @ spanIdFromRequestId H requestId @ ''-01''),
                    (''x-gateway-trace-id'', t)])"

text \<open>\<open>uuid\<close> is the fresh \<^verbatim>\<open>randomUUID()\<close>. An object always has a text; \<open>Inl\<close> is what \<^verbatim>\<open>stringify\<close> throws.\<close>

definition buildGatewayEnvelope ::
  "host \<Rightarrow> string \<Rightarrow> ApiGatewayDispatchInput \<Rightarrow> WireMode \<Rightarrow> string + BuiltGatewayEnvelope" where
  "buildGatewayEnvelope H uuid i mode =
     (let traceId = (if isTraceId (di_traceId i) then di_traceId i else None);
          body = \<lparr>gb_args = ai_args i, gb_context =
            \<lparr>gc_gameId = di_gameId i, gc_traceId = traceId, gc_triggeringSessionId = di_triggeringSessionId i,
             gc_triggeringJwtClaims = di_triggeringJwtClaims i, gc_connectedSessions = di_connectedSessions i,
             gc_bundleName = di_bundleName i, gc_bundleCompatTag = di_bundleCompatTag i,
             gc_runId = di_runId i, gc_idempotencyKey = ai_idempotencyKey i\<rparr>\<rparr>
      in case stableSerialize (body_js body) of
           Inl e \<Rightarrow> Inl e
         | Inr rawOutbound \<Rightarrow>
        (case stableSerialize (fingerprint_js i) of
           Inl e \<Rightarrow> Inl e
         | Inr rawFingerprint \<Rightarrow>
            Inr \<lparr>ge_requestId = uuid, ge_body = body, ge_rawOutbound = default_text rawOutbound,
                 ge_fingerprint = sha256Hex H (default_text rawFingerprint),
                 ge_headers = gateway_headers H uuid i mode traceId\<rparr>))"

section \<open>The rate limit\<close>

record ApiRateDecision =
  rd_ok :: bool
  rd_currentUsage :: int
  rd_limit :: int
  rd_windowMs :: int

record SlidingWindowApiInvocationBudget =
  ab_hitsByGameId :: "int list js_map"
  ab_limitPerMinute :: int
  ab_windowMs :: int

definition new_api_budget :: "int \<Rightarrow> int \<Rightarrow> string + SlidingWindowApiInvocationBudget" where
  "new_api_budget limitPerMinute windowMs =
     (if limitPerMinute < 1 then Inl ''api-invocations-per-min limit must be a positive integer''
      else Inr \<lparr>ab_hitsByGameId = [], ab_limitPerMinute = limitPerMinute, ab_windowMs = windowMs\<rparr>)"

definition checkAndRecord ::
  "string \<Rightarrow> int \<Rightarrow> SlidingWindowApiInvocationBudget \<Rightarrow> ApiRateDecision \<times> SlidingWindowApiInvocationBudget" where
  "checkAndRecord gameId nowMs b =
     (let cutoff = nowMs - ab_windowMs b;
          existing = (case map_get (ab_hitsByGameId b) gameId of None \<Rightarrow> [] | Some hs \<Rightarrow> hs);
          kept = filter (\<lambda>ts. ts > cutoff) existing;
          allowed = int (length kept) < ab_limitPerMinute b;
          kept' = (if allowed then kept @ [nowMs] else kept)
      in (\<lparr>rd_ok = allowed, rd_currentUsage = int (length kept'), rd_limit = ab_limitPerMinute b,
           rd_windowMs = ab_windowMs b\<rparr>,
          b\<lparr>ab_hitsByGameId := map_set gameId kept' (ab_hitsByGameId b)\<rparr>))"

section \<open>Canonical forms\<close>

text \<open>
  Two values that differ only in the order of the fields of their objects, and the values for
  which that is all that \<^verbatim>\<open>canonicalize\<close> forgets: JSON whose objects have no field twice and no
  field \<^verbatim>\<open>__proto__\<close>.
\<close>

fun js_eq :: "js \<Rightarrow> js \<Rightarrow> bool" where
  "js_eq (JArr xs) w = (case w of JArr ys \<Rightarrow> list_all2 js_eq xs ys | _ \<Rightarrow> False)"
| "js_eq (JObj fs) w =
     (case w of
        JObj gs \<Rightarrow> fst ` set fs = fst ` set gs \<and> (\<forall>(k, x) \<in> set fs. \<forall>(k', y) \<in> set gs. k = k' \<longrightarrow> js_eq x y)
      | _ \<Rightarrow> False)"
| "js_eq v w = (v = w)"

fun plain_json :: "js \<Rightarrow> bool" where
  "plain_json JUndef = False"
| "plain_json (JBig n) = False"
| "plain_json (JArr xs) = list_all plain_json xs"
| "plain_json (JObj fs) = (distinct (map fst fs) \<and> proto \<notin> fst ` set fs \<and> list_all (\<lambda>(k, x). plain_json x) fs)"
| "plain_json v = True"

definition normal_fields :: "(string \<times> 'a) list \<Rightarrow> (string \<times> 'a) list" where
  "normal_fields fs = object_order (sort_key fst fs)"

lemma set_normal_fields [simp]: "set (normal_fields fs) = set fs"
  by (auto simp: normal_fields_def object_order_def)

lemma sort_key_set_unique:
  assumes "distinct (map f xs)" and "distinct (map f ys)" and "set xs = set ys"
  shows "sort_key f xs = sort_key f ys"
proof (rule map_sorted_distinct_set_unique [of f])
  show "inj_on f (set (sort_key f xs) \<union> set (sort_key f ys))"
    using assms by (simp add: distinct_map)
  show "distinct (map f (sort_key f xs))" "distinct (map f (sort_key f ys))"
    using assms by (simp_all add: distinct_map)
qed (use assms in simp_all)

lemma normal_fields_eq:
  assumes "distinct (map fst fs)" and "distinct (map fst gs)"
  shows "normal_fields fs = normal_fields gs \<longleftrightarrow> set fs = set gs"
  using sort_key_set_unique [OF assms] by (metis normal_fields_def set_normal_fields)

lemma canonicalize_undef [simp]: "canonicalize v = JUndef \<longleftrightarrow> v = JUndef"
  by (cases v) simp_all

lemma canonicalize_atom:
  "JNull = canonicalize w \<longleftrightarrow> w = JNull" "JBool b = canonicalize w \<longleftrightarrow> w = JBool b"
  "JNum n = canonicalize w \<longleftrightarrow> w = JNum n" "JStr s = canonicalize w \<longleftrightarrow> w = JStr s"
  by (cases w; auto)+

lemma canonicalize_obj:
  assumes "plain_json (JObj fs)"
  shows "canonicalize (JObj fs) = JObj (normal_fields (map (\<lambda>(k, x). (k, canonicalize x)) fs))"
proof -
  have "filter (\<lambda>(k, x). x \<noteq> JUndef \<and> k \<noteq> proto) (sort_key fst (map (\<lambda>(k, x). (k, canonicalize x)) fs))
      = sort_key fst (map (\<lambda>(k, x). (k, canonicalize x)) fs)"
  proof (rule filter_True, clarsimp)
    fix k x assume x: "(k, x) \<in> set fs"
    have "plain_json x" using assms x by (auto simp: list_all_iff)
    then have "x \<noteq> JUndef" by auto
    moreover have "k \<noteq> proto" using assms x by force
    ultimately show "x \<noteq> JUndef \<and> k \<noteq> proto" by simp
  qed
  then show ?thesis by (simp add: normal_fields_def)
qed

lemma plain_is_json: "plain_json v \<Longrightarrow> is_json v"
  by (induction v) (auto simp: list_all_iff)

lemma canonicalize_json: "plain_json v \<Longrightarrow> is_json (canonicalize v)"
proof (induction v)
  case (JObj fs)
  then show ?case unfolding canonicalize_obj [OF JObj.prems] by (fastforce simp: list_all_iff)
qed (auto simp: list_all_iff)

lemma fields_set_eq:
  assumes d: "distinct (map fst fs)" "distinct (map fst gs)"
    and eq: "\<And>k x y. (k, x) \<in> set fs \<Longrightarrow> (k, y) \<in> set gs \<Longrightarrow> c x = c y \<longleftrightarrow> R x y"
  shows "(\<lambda>(k, x). (k, c x)) ` set fs = (\<lambda>(k, x). (k, c x)) ` set gs \<longleftrightarrow>
    fst ` set fs = fst ` set gs \<and> (\<forall>(k, x) \<in> set fs. \<forall>(k', y) \<in> set gs. k = k' \<longrightarrow> R x y)"
    (is "?A = ?B \<longleftrightarrow> ?K \<and> ?R")
proof
  assume ab: "?A = ?B"
  have "fst ` ?A = fst ` set fs" "fst ` ?B = fst ` set gs" by (simp_all add: image_image split_def)
  then have "?K" using ab by simp
  moreover have ?R
  proof clarify
    fix k x y assume x: "(k, x) \<in> set fs" and y: "(k, y) \<in> set gs"
    have "(k, c x) \<in> ?A" using x by force
    then have "(k, c x) \<in> ?B" using ab by simp
    then obtain z where "(k, z) \<in> set gs" "c x = c z" by auto
    moreover have "z = y"
      using map_of_is_SomeI [OF d(2) y] map_of_is_SomeI [OF d(2) calculation(1)] by simp
    ultimately show "R x y" using eq [OF x y] by simp
  qed
  ultimately show "?K \<and> ?R" by simp
next
  assume kr: "?K \<and> ?R"
  have sub: "(k, c x) \<in> ?B" if "(k, x) \<in> set fs" for k x
  proof -
    have "k \<in> fst ` set fs" using that by force
    then have "k \<in> fst ` set gs" using kr by simp
    then obtain y where y: "(k, y) \<in> set gs" by auto
    have "R x y" using kr that y by blast
    then have "c x = c y" using eq [OF that y] by simp
    then show ?thesis using y by force
  qed
  have sub': "(k, c y) \<in> ?A" if "(k, y) \<in> set gs" for k y
  proof -
    have "k \<in> fst ` set gs" using that by force
    then have "k \<in> fst ` set fs" using kr by simp
    then obtain x where x: "(k, x) \<in> set fs" by auto
    have "R x y" using kr that x by blast
    then have "c x = c y" using eq [OF x that] by simp
    then show ?thesis using x by force
  qed
  show "?A = ?B" using sub sub' by auto
qed

lemma canonicalize_eq:
  "plain_json v \<Longrightarrow> plain_json w \<Longrightarrow> canonicalize v = canonicalize w \<longleftrightarrow> js_eq v w"
proof (induction v arbitrary: w)
  case (JArr xs)
  show ?case
  proof (cases w)
    case ys: (JArr ys)
    have "map canonicalize xs = map canonicalize ys \<longleftrightarrow> list_all2 js_eq xs ys"
      using JArr ys by (fastforce simp: list_eq_iff_nth_eq list_all2_conv_all_nth list_all_length)
    then show ?thesis using ys by simp
  qed simp_all
next
  case (JObj fs)
  show ?case
  proof (cases w)
    case gs: (JObj gs)
    have w: "plain_json (JObj gs)" using JObj.prems(2) gs by simp
    have d: "distinct (map fst (map (\<lambda>(k, x). (k, canonicalize x)) fs))" "distinct (map fst (map (\<lambda>(k, x). (k, canonicalize x)) gs))"
      using JObj.prems(1) w by (simp_all add: comp_def split_def)
    have eq: "canonicalize x = canonicalize y \<longleftrightarrow> js_eq x y" if x: "(k, x) \<in> set fs" and y: "(k, y) \<in> set gs" for k x y
    proof (rule JObj.IH [OF x])
      show "plain_json x" using JObj.prems(1) x by (auto simp: list_all_iff)
      show "plain_json y" using w y by (auto simp: list_all_iff)
    qed (simp add: snds.simps)
    have "set (map (\<lambda>(k, x). (k, canonicalize x)) fs) = set (map (\<lambda>(k, x). (k, canonicalize x)) gs) \<longleftrightarrow> js_eq (JObj fs) w"
      using fields_set_eq [of fs gs canonicalize js_eq, OF _ _ eq] JObj.prems(1) w gs by simp
    then show ?thesis
      unfolding gs canonicalize_obj [OF JObj.prems(1)] canonicalize_obj [OF w] js.inject normal_fields_eq [OF d] .
  qed (use JObj.prems in \<open>simp_all\<close>)
qed (auto simp: canonicalize_atom)

lemma plain_fingerprint: "plain_json (ai_args i) \<Longrightarrow> plain_json (fingerprint_js i)"
  by (simp add: fingerprint_js_def proto_def)

lemma build_fingerprint:
  assumes "buildGatewayEnvelope H uuid i mode = Inr e" and "plain_json (ai_args i)"
  shows "ge_fingerprint e = host_sha256 H (json_text (canonicalize (fingerprint_js i)))"
  using assms stringify_json [OF canonicalize_json [OF plain_fingerprint [OF assms(2)]]]
  by (auto simp: buildGatewayEnvelope_def Let_def stableSerialize_def sha256Hex_def default_text_def split: sum.splits)

lemma fingerprint_js_eq:
  "js_eq (fingerprint_js i) (fingerprint_js j) \<longleftrightarrow> ai_kind i = ai_kind j \<and> js_eq (ai_args i) (ai_args j)"
  by (auto simp: fingerprint_js_def)

context host_env
begin

lemma fingerprint_iff:
  assumes "buildGatewayEnvelope H u i m = Inr e" and "buildGatewayEnvelope H u' j m' = Inr e'"
    and "plain_json (ai_args i)" and "plain_json (ai_args j)"
  shows "ge_fingerprint e = ge_fingerprint e' \<longleftrightarrow> ai_kind i = ai_kind j \<and> js_eq (ai_args i) (ai_args j)"
proof -
  note p = plain_fingerprint [OF assms(3)] plain_fingerprint [OF assms(4)]
  have "ge_fingerprint e = ge_fingerprint e' \<longleftrightarrow> canonicalize (fingerprint_js i) = canonicalize (fingerprint_js j)"
    unfolding build_fingerprint [OF assms(1,3)] build_fingerprint [OF assms(2,4)]
    using sha256_inj json_text_inject [OF canonicalize_json [OF p(1)] canonicalize_json [OF p(2)]] by auto
  then show ?thesis using canonicalize_eq [OF p] fingerprint_js_eq by simp
qed

end

section \<open>Properties\<close>


definition call_of :: "js \<Rightarrow> ApiGatewayDispatchInput" where
  "call_of args = \<lparr>ai_kind = ''ai.v1'', ai_args = args, ai_idempotencyKey = None, di_gameId = ''g1'',
     di_triggeringSessionId = None, di_triggeringJwtClaims = None, di_connectedSessions = [], di_bundleName = ''b'',
     di_bundleCompatTag = ''t'', di_runId = None, di_traceId = None, di_replayMode = None\<rparr>"

lemma call_of_fields [simp]:
  "ai_args (call_of args) = args" "ai_kind (call_of args) = ''ai.v1''" "ai_idempotencyKey (call_of args) = None"
  "di_gameId (call_of args) = ''g1''" "di_triggeringSessionId (call_of args) = None" "di_triggeringJwtClaims (call_of args) = None"
  "di_connectedSessions (call_of args) = []" "di_bundleName (call_of args) = ''b''" "di_bundleCompatTag (call_of args) = ''t''"
  "di_runId (call_of args) = None" "di_traceId (call_of args) = None" "di_replayMode (call_of args) = None"
  by (simp_all add: call_of_def)

lemma build_call_of:
  assumes "plain_json args"
  obtains e where "buildGatewayEnvelope H u (call_of args) m = Inr e"
proof -
  let ?b = "\<lparr>gb_args = args, gb_context =
            \<lparr>gc_gameId = ''g1'', gc_traceId = None, gc_triggeringSessionId = None,
             gc_triggeringJwtClaims = None, gc_connectedSessions = [],
             gc_bundleName = ''b'', gc_bundleCompatTag = ''t'',
             gc_runId = None, gc_idempotencyKey = None\<rparr>\<rparr>"
  have "plain_json (body_js ?b)"
    using assms by (simp add: body_js_def context_js_def proto_def str_or_null_def)
  note 1 = stringify_json [OF canonicalize_json [OF this]]
  have "plain_json (fingerprint_js (call_of args))" by (rule plain_fingerprint) (simp add: assms)
  note 2 = stringify_json [OF canonicalize_json [OF this]]
  have "\<exists>e. buildGatewayEnvelope H u (call_of args) m = Inr e"
    by (simp add: buildGatewayEnvelope_def stableSerialize_def isTraceId_def Let_def 1 2)
  then show ?thesis using that by blast
qed


text \<open>
  The calls that a budget admits, in order: \<open>admitted\<close> runs it over the calls of a history and
  keeps the times of those of one game.
\<close>

fun admitted :: "string \<Rightarrow> (string \<times> int) list \<Rightarrow> SlidingWindowApiInvocationBudget \<Rightarrow> int list" where
  "admitted g [] b = []"
| "admitted g ((g', t) # cs) b =
     (let (d, b1) = checkAndRecord g' t b
      in (if rd_ok d \<and> g' = g then [t] else []) @ admitted g cs b1)"

definition hits :: "SlidingWindowApiInvocationBudget \<Rightarrow> string \<Rightarrow> int list" where
  "hits b g = (case map_get (ab_hitsByGameId b) g of None \<Rightarrow> [] | Some hs \<Rightarrow> hs)"

text \<open>The recorded hits are the admitted calls of the window that ends with the last call.\<close>

definition covers_hits :: "SlidingWindowApiInvocationBudget \<Rightarrow> string \<Rightarrow> int \<Rightarrow> int list \<Rightarrow> bool" where
  "covers_hits b g latest log \<longleftrightarrow> (\<forall>t \<in> set log. t \<le> latest)
     \<and> (\<forall>now \<ge> latest. filter (\<lambda>t. t > now - ab_windowMs b) (hits b g) = filter (\<lambda>t. t > now - ab_windowMs b) log)"

lemma checkAndRecord_other:
  "checkAndRecord g' t b = (d, b1) \<Longrightarrow> g \<noteq> g' \<Longrightarrow> hits b1 g = hits b g"
  "checkAndRecord g' t b = (d, b1) \<Longrightarrow> ab_windowMs b1 = ab_windowMs b \<and> ab_limitPerMinute b1 = ab_limitPerMinute b"
  by (auto simp: checkAndRecord_def Let_def hits_def update_conv')

lemma checkAndRecord_run:
  assumes "checkAndRecord g t b = (d, b1)"
  shows "rd_ok d \<longleftrightarrow> int (length (filter (\<lambda>s. s > t - ab_windowMs b) (hits b g))) < ab_limitPerMinute b"
    and "hits b1 g = filter (\<lambda>s. s > t - ab_windowMs b) (hits b g) @ (if rd_ok d then [t] else [])"
  using assms by (auto simp: checkAndRecord_def Let_def hits_def update_conv' split: if_splits)

lemma covers_step:
  assumes c: "covers_hits b g latest log" and t: "latest \<le> t" and run: "checkAndRecord g t b = (d, b1)"
  shows "covers_hits b1 g t (log @ (if rd_ok d then [t] else []))"
proof -
  let ?w = "ab_windowMs b"
  have w: "ab_windowMs b1 = ?w" using checkAndRecord_other(2) [OF run] by simp
  have f: "filter (\<lambda>s. s > now - ?w) (filter (\<lambda>s. s > t - ?w) (hits b g)) = filter (\<lambda>s. s > now - ?w) log" if "t \<le> now" for now
  proof -
    have 1: "filter (\<lambda>s. s > now - ?w) (filter (\<lambda>s. s > t - ?w) (hits b g)) = filter (\<lambda>s. s > now - ?w) (hits b g)"
      using that by (auto intro!: filter_cong)
    have 2: "filter (\<lambda>s. s > now - ?w) (hits b g) = filter (\<lambda>s. s > now - ?w) log"
      using c t that by (simp add: covers_hits_def)
    show ?thesis by (rule trans [OF 1 2])
  qed
  show ?thesis unfolding covers_hits_def w
  proof (intro conjI allI impI)
    show "\<forall>s \<in> set (log @ (if rd_ok d then [t] else [])). s \<le> t" using c t by (auto simp: covers_hits_def)
    show "filter (\<lambda>s. s > now - ?w) (hits b1 g) = filter (\<lambda>s. s > now - ?w) (log @ (if rd_ok d then [t] else []))"
      if "t \<le> now" for now
      by (simp only: filter_append checkAndRecord_run(2) [OF run] f [OF that])
  qed
qed

lemma length_filter_le_filter: "(\<And>x. P x \<Longrightarrow> Q x) \<Longrightarrow> length (filter P xs) \<le> length (filter Q xs)"
  by (induction xs) (auto simp: le_Suc_eq)

text \<open>With the log so far within the limit in every window, so is everything admitted later.\<close>

definition window_count :: "int \<Rightarrow> int \<Rightarrow> int list \<Rightarrow> int" where
  "window_count w now log = int (length (filter (\<lambda>t. now - w < t \<and> t \<le> now) log))"

lemma admitted_window:
  assumes "covers_hits b g latest log" and "sorted (latest # map snd cs)"
    and "\<And>now. window_count (ab_windowMs b) now log \<le> max 0 (ab_limitPerMinute b)"
  shows "window_count (ab_windowMs b) now (log @ admitted g cs b) \<le> max 0 (ab_limitPerMinute b)"
  using assms
proof (induction g cs b arbitrary: latest log rule: admitted.induct)
  case (2 g g' t cs b)
  obtain d b1 where run: "checkAndRecord g' t b = (d, b1)" by fastforce
  have w: "ab_windowMs b1 = ab_windowMs b" "ab_limitPerMinute b1 = ab_limitPerMinute b"
    using checkAndRecord_other(2) [OF run] by simp_all
  have t: "latest \<le> t" and srt: "sorted (t # map snd cs)" using "2.prems"(2) by simp_all
  show ?case
  proof (cases "g' = g")
    case True
    let ?log = "log @ (if rd_ok d then [t] else [])"
    have c: "covers_hits b1 g t ?log" using covers_step [OF "2.prems"(1) t] run True by simp
    have old: "\<forall>s \<in> set log. s \<le> t" using "2.prems"(1) t by (auto simp: covers_hits_def)
    have ok: "window_count (ab_windowMs b) now ?log \<le> max 0 (ab_limitPerMinute b)" for now
    proof (cases "rd_ok d \<and> now - ab_windowMs b < t \<and> t \<le> now")
      case False
      then show ?thesis using "2.prems"(3) [of now] by (auto simp: window_count_def)
    next
      case now: True
      have lt: "int (length (filter (\<lambda>s. s > t - ab_windowMs b) log)) < ab_limitPerMinute b"
        using checkAndRecord_run(1) [of g t b d b1] run True now "2.prems"(1) t by (simp add: covers_hits_def)
      have "length (filter (\<lambda>s. now - ab_windowMs b < s \<and> s \<le> now) log)
          \<le> length (filter (\<lambda>s. s > t - ab_windowMs b) log)"
        using now by (intro length_filter_le_filter) auto
      then show ?thesis using lt now by (simp add: window_count_def)
    qed
    have "window_count (ab_windowMs b1) now (?log @ admitted g cs b1) \<le> max 0 (ab_limitPerMinute b1)"
      by (rule "2.IH" [OF run [symmetric] refl c srt]) (use ok w in simp)
    then show ?thesis using run True w by (auto simp: Let_def)
  next
    case False
    have "covers_hits b1 g t log"
      using "2.prems"(1) t checkAndRecord_other(1) [OF run, of g] False w by (auto simp: covers_hits_def)
    from "2.IH" [OF run [symmetric] refl this srt] have
      "window_count (ab_windowMs b1) now (log @ admitted g cs b1) \<le> max 0 (ab_limitPerMinute b1)"
      using "2.prems"(3) w by simp
    then show ?thesis using run False w by (auto simp: Let_def)
  qed
qed simp

text \<open>
  Whatever the calls of all games, at non-decreasing times, the gateway admits at most the
  limit of one game's calls in any window, wherever the window lies.
\<close>

theorem api_rate_limit:
  assumes "new_api_budget limit w = Inr b" and "sorted (map snd cs)"
  shows "window_count w now (admitted g cs b) \<le> limit"
proof (cases cs)
  case (Cons c cs')
  have b: "b = \<lparr>ab_hitsByGameId = [], ab_limitPerMinute = limit, ab_windowMs = w\<rparr>" "1 \<le> limit"
    using assms(1) by (auto simp: new_api_budget_def split: if_splits)
  have "covers_hits b g (snd c) []" by (simp add: covers_hits_def hits_def b)
  moreover have "sorted (snd c # map snd cs)" using assms(2) Cons by auto
  ultimately have "window_count (ab_windowMs b) now ([] @ admitted g cs b) \<le> max 0 (ab_limitPerMinute b)"
    by (rule admitted_window) (simp add: window_count_def)
  then show ?thesis using b by simp
next
  case Nil
  then show ?thesis using assms(1) by (auto simp: window_count_def new_api_budget_def split: if_splits)
qed

theorem api_rate_limit_witness:
  "\<exists>b. new_api_budget 2 100 = Inr b
    \<and> admitted ''g'' [(''g'', 0), (''h'', 1), (''g'', 5), (''g'', 6), (''g'', 100)] b = [0, 5, 100]
    \<and> window_count 100 100 (admitted ''g'' [(''g'', 0), (''h'', 1), (''g'', 5), (''g'', 6), (''g'', 100)] b) \<le> 2"
proof -
  let ?b = "\<lparr>ab_hitsByGameId = [], ab_limitPerMinute = 2, ab_windowMs = 100\<rparr>"
  have b: "new_api_budget 2 100 = Inr ?b" by (simp add: new_api_budget_def)
  have "admitted ''g'' [(''g'', 0), (''h'', 1), (''g'', 5), (''g'', 6), (''g'', 100)] ?b = [0, 5, 100]"
    by code_simp
  moreover have "window_count 100 100 (admitted ''g'' [(''g'', 0), (''h'', 1), (''g'', 5), (''g'', 6), (''g'', 100)] ?b) \<le> 2"
    by (rule api_rate_limit [OF b]) simp
  ultimately show ?thesis using b by blast
qed

end
