(* ===== verification/GatewayRecords.thy ===== *)
theory GatewayRecords
  imports GatewayEnvelope StateStore
begin

text \<open>
  The wire records of the API gateway (\<^verbatim>\<open>orchestration/api-gateway/src/record-replay.mts\<close>): what
  a call sent and received, by fingerprint, in memory, in a JSONL file, or in read-only fixtures.

  A store is a state with two operations, \<open>wo_record\<close> and \<open>wo_lookup\<close>; \<open>Inl\<close> is a rejected
  promise. The locale \<open>wire_store\<close> is what the gateway relies on, and every store of the source
  is an interpretation of it. Files are their texts; reading and appending do not fail.
\<close>

record 'r WireRecordStore =
  wo_record :: "ApiInvokeWireRecord \<Rightarrow> 'r \<Rightarrow> (string + unit) \<times> 'r"
  wo_lookup :: "string \<Rightarrow> 'r \<Rightarrow> (string + ApiInvokeWireRecord option) \<times> 'r"

section \<open>Records as JSON\<close>

definition invoke_error :: "ApiInvokeError \<Rightarrow> string" where
  "invoke_error e =
     (case e of KindUnknown \<Rightarrow> ''kindUnknown'' | ProviderError \<Rightarrow> ''providerError''
      | ApiRateExceeded \<Rightarrow> ''apiRateExceeded'' | ReplayCoverageGap \<Rightarrow> ''replayCoverageGap'')"

definition readApiInvokeError :: "js \<Rightarrow> ApiInvokeError option" where
  "readApiInvokeError v =
     (if v = JStr ''kindUnknown'' then Some KindUnknown
      else if v = JStr ''providerError'' then Some ProviderError
      else if v = JStr ''apiRateExceeded'' then Some ApiRateExceeded
      else if v = JStr ''replayCoverageGap'' then Some ReplayCoverageGap
      else None)"

text \<open>The fields that \<^verbatim>\<open>JSON.stringify\<close> writes: \<^verbatim>\<open>error\<close> only when it is set.\<close>

definition wire_js :: "ApiInvokeWireRecord \<Rightarrow> js" where
  "wire_js r =
     JObj ([(''event'', JStr ''api.invoke''), (''requestId'', JStr (wr_requestId r)),
        (''fingerprint'', JStr (wr_fingerprint r)), (''mode'', JStr (wire_mode (wr_mode r))),
        (''kind'', JStr (wr_kind r)), (''gameId'', JStr (wr_gameId r)), (''runId'', str_or_null (wr_runId r)),
        (''rawOutbound'', JStr (wr_rawOutbound r)), (''rawInbound'', JStr (wr_rawInbound r)),
        (''statusCode'', JNum (wr_statusCode r))]
       @ (case wr_error r of None \<Rightarrow> [] | Some e \<Rightarrow> [(''error'', JStr (invoke_error e))])
       @ [(''recordedAt'', JStr (wr_recordedAt r))])"

definition text_or :: "string \<Rightarrow> js \<Rightarrow> string" where
  "text_or d v = (case v of JStr s \<Rightarrow> s | _ \<Rightarrow> d)"

text \<open>
  A line of the JSONL file that passes the three checks is taken as a record. Its other fields
  are those that \<^verbatim>\<open>record\<close> wrote; a field that is missing reads as empty.
\<close>

definition wire_of_js :: "js \<Rightarrow> ApiInvokeWireRecord option" where
  "wire_of_js v =
     (if js_get v ''event'' = JStr ''api.invoke''
         \<and> js_string (js_get v ''fingerprint'') \<noteq> None \<and> js_string (js_get v ''rawInbound'') \<noteq> None
      then Some \<lparr>wr_requestId = text_or [] (js_get v ''requestId''),
             wr_fingerprint = text_or [] (js_get v ''fingerprint''),
             wr_mode = (if js_get v ''mode'' = JStr ''replay'' then Replay else Live),
             wr_kind = text_or [] (js_get v ''kind''), wr_gameId = text_or [] (js_get v ''gameId''),
             wr_runId = js_string (js_get v ''runId''), wr_rawOutbound = text_or [] (js_get v ''rawOutbound''),
             wr_rawInbound = text_or [] (js_get v ''rawInbound''),
             wr_statusCode = (case js_get v ''statusCode'' of JNum n \<Rightarrow> n | _ \<Rightarrow> 0),
             wr_error = readApiInvokeError (js_get v ''error''),
             wr_recordedAt = text_or [] (js_get v ''recordedAt'')\<rparr>
      else None)"

section \<open>In memory\<close>

type_synonym wire_map = "ApiInvokeWireRecord js_map"

definition mem_wire_ops :: "wire_map WireRecordStore" where
  "mem_wire_ops =
     \<lparr>wo_record = (\<lambda>r m. (Inr (), map_set (wr_fingerprint r) r m)),
      wo_lookup = (\<lambda>fp m. (Inr (map_get m fp), m))\<rparr>"

section \<open>A JSONL file\<close>

record JsonlWireRecordStore =
  jl_records :: wire_map
  jl_loaded :: bool
  jl_file :: "string option"

definition is_space :: "char \<Rightarrow> bool" where
  "is_space c \<longleftrightarrow> byte c = 32 \<or> (9 \<le> byte c \<and> byte c \<le> 13)"

definition js_trim :: "string \<Rightarrow> string" where
  "js_trim s = rev (dropWhile is_space (rev (dropWhile is_space s)))"

definition line_record :: "host \<Rightarrow> string \<Rightarrow> string + ApiInvokeWireRecord option" where
  "line_record H line =
     (let trimmed = js_trim line in
      if trimmed = [] then Inr None
      else case host_parse H trimmed of None \<Rightarrow> Inl ''SyntaxError'' | Some v \<Rightarrow> Inr (wire_of_js v))"

fun load_lines :: "host \<Rightarrow> string list \<Rightarrow> wire_map \<Rightarrow> (string + unit) \<times> wire_map" where
  "load_lines H [] m = (Inr (), m)"
| "load_lines H (l # ls) m =
     (case line_record H l of
        Inl e \<Rightarrow> (Inl e, m)
      | Inr None \<Rightarrow> load_lines H ls m
      | Inr (Some r) \<Rightarrow> load_lines H ls (map_set (wr_fingerprint r) r m))"

text \<open>
  \<^verbatim>\<open>loadOnce\<close> in two halves, at the \<^verbatim>\<open>await\<close> of \<^verbatim>\<open>readFile\<close>: the flag is set before the text arrives.
\<close>

definition load_begin :: "JsonlWireRecordStore \<Rightarrow> string option \<times> JsonlWireRecordStore" where
  "load_begin s = (if jl_loaded s then (None, s) else (jl_file s, s\<lparr>jl_loaded := True\<rparr>))"

definition load_end :: "host \<Rightarrow> string option \<Rightarrow> JsonlWireRecordStore \<Rightarrow> (string + unit) \<times> JsonlWireRecordStore" where
  "load_end H text s =
     (case text of
        None \<Rightarrow> (Inr (), s)
      | Some t \<Rightarrow> (case load_lines H (split_on (CHR 0x0A) t) (jl_records s) of (r, m) \<Rightarrow> (r, s\<lparr>jl_records := m\<rparr>)))"

definition jl_loadOnce :: "host \<Rightarrow> JsonlWireRecordStore \<Rightarrow> (string + unit) \<times> JsonlWireRecordStore" where
  "jl_loadOnce H s = (let (t, s1) = load_begin s in load_end H t s1)"

definition record_line :: "ApiInvokeWireRecord \<Rightarrow> string" where
  "record_line r = json_text (wire_js r)"

definition jl_record :: "ApiInvokeWireRecord \<Rightarrow> JsonlWireRecordStore \<Rightarrow> (string + unit) \<times> JsonlWireRecordStore" where
  "jl_record r s =
     (case stringify (wire_js r) of
        Inr (Some t) \<Rightarrow>
          (Inr (), s\<lparr>jl_records := map_set (wr_fingerprint r) r (jl_records s),
             jl_file := Some ((case jl_file s of None \<Rightarrow> [] | Some f \<Rightarrow> f) @ t @ [CHR 0x0A])\<rparr>)
      | _ \<Rightarrow> (Inl ''TypeError'', s\<lparr>jl_records := map_set (wr_fingerprint r) r (jl_records s)\<rparr>))"

definition jl_lookup ::
  "host \<Rightarrow> string \<Rightarrow> JsonlWireRecordStore \<Rightarrow> (string + ApiInvokeWireRecord option) \<times> JsonlWireRecordStore" where
  "jl_lookup H fp s =
     (case jl_loadOnce H s of
        (Inl e, s1) \<Rightarrow> (Inl e, s1)
      | (Inr u, s1) \<Rightarrow> (Inr (map_get (jl_records s1) fp), s1))"

definition jsonl_ops :: "host \<Rightarrow> JsonlWireRecordStore WireRecordStore" where
  "jsonl_ops H = \<lparr>wo_record = jl_record, wo_lookup = jl_lookup H\<rparr>"

section \<open>Fixtures\<close>

definition readString :: "js \<Rightarrow> string \<Rightarrow> string option" where
  "readString r field = truthy (js_string (js_get r field))"

definition readNumber :: "js \<Rightarrow> string \<Rightarrow> int option" where
  "readNumber r field = js_int (js_get r field)"

definition normalizeWireRecord :: "js \<Rightarrow> ApiInvokeWireRecord option" where
  "normalizeWireRecord raw =
     (if \<not> isRecord raw then None
      else if js_get raw ''event'' \<noteq> JUndef \<and> js_get raw ''event'' \<noteq> JStr ''api.invoke'' then None
      else case (readString raw ''fingerprint'', readString raw ''rawInbound'', readNumber raw ''statusCode'') of
        (Some fingerprint, Some rawInbound, Some statusCode) \<Rightarrow>
          Some \<lparr>wr_requestId = default ''fixture'' (readString raw ''requestId''),
            wr_fingerprint = fingerprint,
            wr_mode = (if js_get raw ''mode'' = JStr ''replay'' then Replay else Live),
            wr_kind = default ''fixture'' (readString raw ''kind''),
            wr_gameId = default ''fixture'' (readString raw ''gameId''),
            wr_runId = Some (default ''fixture'' (readString raw ''runId'')),
            wr_rawOutbound = default [] (readString raw ''rawOutbound''),
            wr_rawInbound = rawInbound, wr_statusCode = statusCode,
            wr_error = readApiInvokeError (js_get raw ''error''),
            wr_recordedAt = default ''1970-01-01T00:00:00.000Z'' (readString raw ''recordedAt'')\<rparr>
      | _ \<Rightarrow> None)"

text \<open>\<open>fx_files\<close>: the extension and the text of the files, in the order in which the walk visits them.\<close>

record FixtureWireRecordStore =
  fx_records :: wire_map
  fx_loaded :: bool
  fx_files :: "(string \<times> string) list"

definition fx_parseJson :: "host \<Rightarrow> string \<Rightarrow> js" where
  "fx_parseJson H raw = (if raw = [] then JUndef else case host_parse H raw of None \<Rightarrow> JUndef | Some v \<Rightarrow> v)"

definition maybeAddRecord :: "js \<Rightarrow> wire_map \<Rightarrow> wire_map" where
  "maybeAddRecord raw m =
     (case normalizeWireRecord raw of None \<Rightarrow> m | Some r \<Rightarrow> map_set (wr_fingerprint r) r m)"

definition fx_loadFile :: "host \<Rightarrow> string \<times> string \<Rightarrow> wire_map \<Rightarrow> wire_map" where
  "fx_loadFile H = (\<lambda>(extension, raw) m.
     if extension \<noteq> ''.json'' \<and> extension \<noteq> ''.jsonl'' then m
     else if extension = ''.jsonl''
     then fold (\<lambda>line. maybeAddRecord (fx_parseJson H (js_trim line))) (split_on (CHR 0x0A) raw) m
     else case fx_parseJson H raw of
       JArr entries \<Rightarrow> fold maybeAddRecord entries m
     | parsed \<Rightarrow>
        (case js_get parsed ''records'' of
           JArr entries \<Rightarrow> if isRecord parsed then fold maybeAddRecord entries m else maybeAddRecord parsed m
         | _ \<Rightarrow> maybeAddRecord parsed m))"

definition fx_loadOnce :: "host \<Rightarrow> FixtureWireRecordStore \<Rightarrow> FixtureWireRecordStore" where
  "fx_loadOnce H s =
     (if fx_loaded s then s
      else s\<lparr>fx_loaded := True, fx_records := fold (fx_loadFile H) (fx_files s) (fx_records s)\<rparr>)"

definition fixture_ops :: "host \<Rightarrow> FixtureWireRecordStore WireRecordStore" where
  "fixture_ops H =
     \<lparr>wo_record = (\<lambda>r s. (Inr (), s)),
      wo_lookup = (\<lambda>fp s. let s1 = fx_loadOnce H s in (Inr (map_get (fx_records s1) fp), s1))\<rparr>"

section \<open>A composite store\<close>

text \<open>The stores of a composite are parts of one state; \<open>on_fst\<close> and \<open>on_snd\<close> are the two parts of a pair.\<close>

definition on_fst :: "('a \<Rightarrow> 'x \<times> 'a) \<Rightarrow> 'a \<times> 'b \<Rightarrow> 'x \<times> 'a \<times> 'b" where
  "on_fst f = (\<lambda>(a, b). case f a of (x, a') \<Rightarrow> (x, a', b))"

definition on_snd :: "('b \<Rightarrow> 'x \<times> 'b) \<Rightarrow> 'a \<times> 'b \<Rightarrow> 'x \<times> 'a \<times> 'b" where
  "on_snd f = (\<lambda>(a, b). case f b of (x, b') \<Rightarrow> (x, a, b'))"

fun composite_lookup ::
  "(string \<Rightarrow> 'r \<Rightarrow> (string + ApiInvokeWireRecord option) \<times> 'r) list \<Rightarrow> string \<Rightarrow> 'r
   \<Rightarrow> (string + ApiInvokeWireRecord option) \<times> 'r" where
  "composite_lookup [] fp s = (Inr None, s)"
| "composite_lookup (l # ls) fp s =
     (case l fp s of
        (Inl e, s1) \<Rightarrow> (Inl e, s1)
      | (Inr (Some r), s1) \<Rightarrow> (Inr (Some r), s1)
      | (Inr None, s1) \<Rightarrow> composite_lookup ls fp s1)"

definition composite_ops ::
  "(string \<Rightarrow> 'r \<Rightarrow> (string + ApiInvokeWireRecord option) \<times> 'r) list
   \<Rightarrow> (ApiInvokeWireRecord \<Rightarrow> 'r \<Rightarrow> (string + unit) \<times> 'r) \<Rightarrow> 'r WireRecordStore" where
  "composite_ops lookups record1 = \<lparr>wo_record = record1, wo_lookup = composite_lookup lookups\<rparr>"

text \<open>
  \<^verbatim>\<open>wireRecordStoreFromConfig\<close> with a fixtures path: the fixtures are asked first and never written.
  Without one it is \<open>jsonl_ops\<close>.
\<close>

definition fixtures_then_jsonl :: "host \<Rightarrow> (FixtureWireRecordStore \<times> JsonlWireRecordStore) WireRecordStore" where
  "fixtures_then_jsonl H =
     composite_ops [\<lambda>fp. on_fst (wo_lookup (fixture_ops H) fp), \<lambda>fp. on_snd (wo_lookup (jsonl_ops H) fp)]
       (\<lambda>r. on_snd (wo_record (jsonl_ops H) r))"

section \<open>The contract of a store\<close>

text \<open>
  \<open>view\<close> is what a lookup finds. Recording replaces the record of a fingerprint unless that is
  \<open>pinned\<close>, as the fingerprints of fixtures are.
\<close>

locale wire_store =
  fixes ops :: "'r WireRecordStore" and inv :: "'r \<Rightarrow> bool" and view :: "'r \<Rightarrow> string \<Rightarrow> ApiInvokeWireRecord option"
    and pinned :: "'r \<Rightarrow> string set"
  assumes lookup_view: "inv s \<Longrightarrow> wo_lookup ops fp s = (x, s') \<Longrightarrow> x = Inr (view s fp) \<and> inv s' \<and> view s' = view s \<and> pinned s' = pinned s"
    and record_view: "inv s \<Longrightarrow> wo_record ops r s = (y, s') \<Longrightarrow> y = Inr () \<and> inv s' \<and> pinned s' = pinned s
      \<and> view s' = (if wr_fingerprint r \<in> pinned s then view s else (view s)(wr_fingerprint r \<mapsto> r))"
begin

lemma lookup_after_record:
  assumes "inv s" and "wo_record ops r s = (x, s')" and "wr_fingerprint r \<notin> pinned s"
    and "wo_lookup ops (wr_fingerprint r) s' = (y, s'')"
  shows "y = Inr (Some r)"
  using record_view [OF assms(1,2)] lookup_view [OF _ assms(4)] assms(3) by simp

end

interpretation mem_wire: wire_store mem_wire_ops "\<lambda>m. True" map_of "\<lambda>m. {}"
  by unfold_locales (auto simp: mem_wire_ops_def update_conv')

section \<open>The JSONL file keeps what it is given\<close>

lemma invoke_error_roundtrip [simp]: "readApiInvokeError (JStr (invoke_error e)) = Some e"
  by (cases e) (simp_all add: invoke_error_def readApiInvokeError_def)

lemma wire_js_get:
  "js_get (wire_js r) ''event'' = JStr ''api.invoke''" "js_get (wire_js r) ''requestId'' = JStr (wr_requestId r)"
  "js_get (wire_js r) ''fingerprint'' = JStr (wr_fingerprint r)" "js_get (wire_js r) ''mode'' = JStr (wire_mode (wr_mode r))"
  "js_get (wire_js r) ''kind'' = JStr (wr_kind r)" "js_get (wire_js r) ''gameId'' = JStr (wr_gameId r)"
  "js_get (wire_js r) ''runId'' = str_or_null (wr_runId r)" "js_get (wire_js r) ''rawOutbound'' = JStr (wr_rawOutbound r)"
  "js_get (wire_js r) ''rawInbound'' = JStr (wr_rawInbound r)" "js_get (wire_js r) ''statusCode'' = JNum (wr_statusCode r)"
  "js_get (wire_js r) ''recordedAt'' = JStr (wr_recordedAt r)"
  by (simp_all add: wire_js_def split: option.splits)

lemma wire_js_error: "readApiInvokeError (js_get (wire_js r) ''error'') = wr_error r"
  by (cases "wr_error r") (simp_all add: wire_js_def, simp add: readApiInvokeError_def)

lemma wire_mode_replay: "(if wire_mode m = ''replay'' then Replay else Live) = m"
  by (cases m) (simp_all add: wire_mode_def)

lemma wire_of_wire_js [simp]: "wire_of_js (wire_js r) = Some r"
  by (simp add: wire_of_js_def wire_js_get wire_js_error wire_mode_replay text_or_def str_or_null_def split: option.splits)

lemma wire_js_json: "is_json (wire_js r)"
  by (simp add: wire_js_def str_or_null_def split: option.splits)

abbreviation newline :: char where
  "newline \<equiv> CHR 0x0A"

lemma join_chars: "set (join sep xs) \<subseteq> set sep \<union> \<Union> (set ` set xs)"
  by (induction sep xs rule: join.induct) auto

lemma hex_digit_no_newline: "d < 16 \<Longrightarrow> hex_digit d \<noteq> newline"
proof
  assume d: "d < 16" "hex_digit d = newline"
  have "hex_value newline = None" by (simp add: hex_value_def)
  then show False using hex_value_hex_digit [OF d(1)] d(2) by simp
qed

lemma escape_no_newline: "newline \<notin> set (escape_char c)"
  using hex_digit_no_newline [of "byte c div 16"] hex_digit_no_newline [of "byte c mod 16"] of_char_bound [of c]
  by (auto simp: escape_char_def hex_byte_def)

lemma quote_no_newline [simp]: "newline \<notin> set (quote s)"
  by (auto simp: quote_def escape_no_newline)

lemma dec_int_no_newline [simp]: "newline \<notin> set (dec_int n)"
  using dec_nat_digits [of "nat n"] dec_nat_digits [of "nat (- n)"] by (auto simp: dec_int_def is_digit_def)

lemma json_text_no_newline: "is_json v \<Longrightarrow> newline \<notin> set (json_text v)"
proof (induction v)
  case (JArr xs)
  then show ?case using join_chars [of "'',''" "map json_text xs"] by (auto simp: list_all_iff)
next
  case (JObj fs)
  have "newline \<notin> set (quote k @ '':'' @ json_text x)" if "(k, x) \<in> set fs" for k x
    using JObj.IH [OF that] JObj.prems that by (auto simp: list_all_iff)
  then show ?case using join_chars [of "'',''" "map (\<lambda>(k, x). quote k @ '':'' @ json_text x) fs"] by fastforce
qed simp_all

lemma trim_braces: "js_trim (CHR ''{'' # s @ ''}'') = CHR ''{'' # s @ ''}''"
  by (simp add: js_trim_def is_space_def)

lemma trim_obj: "js_trim (json_text (JObj fs)) = json_text (JObj fs)"
  using trim_braces [of "join '','' (map (\<lambda>(k, x). quote k @ '':'' @ json_text x) fs)"] by simp

lemma line_record_line:
  assumes "host_env H"
  shows "line_record H (json_text (wire_js r)) = Inr (Some r)"
proof -
  obtain fs where fs: "wire_js r = JObj fs" by (simp add: wire_js_def)
  have "host_parse H (json_text (wire_js r)) = Some (wire_js r)"
    by (rule json_codec.parse_text [OF host_env.axioms(1) [OF assms] wire_js_json])
  moreover have "js_trim (json_text (wire_js r)) = json_text (wire_js r)" unfolding fs by (rule trim_obj)
  moreover have "json_text (wire_js r) \<noteq> []" by (simp add: fs)
  ultimately show ?thesis by (simp add: line_record_def)
qed

definition good_line :: "host \<Rightarrow> string \<Rightarrow> bool" where
  "good_line H l \<longleftrightarrow> newline \<notin> set l \<and> (\<exists>x. line_record H l = Inr x)"

lemma split_on_line: "d \<notin> set l \<Longrightarrow> split_on d (l @ d # s) = l # split_on d s"
  by (induction l) auto

lemma split_on_lines:
  "\<forall>l \<in> set ls. newline \<notin> set l \<Longrightarrow> split_on newline (concat (map (\<lambda>l. l @ [newline]) ls)) = ls @ [[]]"
  by (induction ls) (auto simp: split_on_line)

lemma load_lines_append:
  "\<forall>l \<in> set ls. good_line H l \<Longrightarrow> load_lines H (ls @ ks) m = load_lines H ks (snd (load_lines H ls m))"
  by (induction ls arbitrary: m) (auto simp: good_line_def split: option.splits)

lemma load_lines_good: "\<forall>l \<in> set ls. good_line H l \<Longrightarrow> fst (load_lines H ls m) = Inr ()"
  by (induction ls arbitrary: m) (auto simp: good_line_def split: option.splits)

lemma load_lines_map:
  "\<forall>l \<in> set ls. good_line H l \<Longrightarrow> map_of (snd (load_lines H ls m)) = map_of m ++ map_of (snd (load_lines H ls []))"
proof (induction ls arbitrary: m)
  case (Cons l ls)
  then obtain x where x: "line_record H l = Inr x" by (auto simp: good_line_def)
  show ?case
  proof (cases x)
    case None
    then show ?thesis using Cons.IH [of m] Cons.prems x by simp
  next
    case (Some r)
    have "map_of (snd (load_lines H ls (map_set (wr_fingerprint r) r m)))
        = map_of (map_set (wr_fingerprint r) r m) ++ map_of (snd (load_lines H ls []))"
      "map_of (snd (load_lines H ls (map_set (wr_fingerprint r) r [])))
        = map_of (map_set (wr_fingerprint r) r []) ++ map_of (snd (load_lines H ls []))"
      by (rule Cons.IH, use Cons.prems in simp)+
    then show ?thesis using x Some by (simp add: update_conv' map_add_assoc)
  qed
qed simp

lemma line_record_Nil [simp]: "line_record H [] = Inr None"
  by (simp add: line_record_def js_trim_def)

text \<open>The file consists of whole lines that parse.\<close>

definition jl_inv :: "host \<Rightarrow> JsonlWireRecordStore \<Rightarrow> bool" where
  "jl_inv H s \<longleftrightarrow>
     (\<exists>ls. (case jl_file s of None \<Rightarrow> [] | Some f \<Rightarrow> f) = concat (map (\<lambda>l. l @ [newline]) ls)
        \<and> (\<forall>l \<in> set ls. good_line H l))"

definition jl_view :: "host \<Rightarrow> JsonlWireRecordStore \<Rightarrow> string \<Rightarrow> ApiInvokeWireRecord option" where
  "jl_view H s = map_of (jl_records (snd (jl_loadOnce H s)))"

lemma jl_loadOnce_loaded [simp]: "jl_loaded s \<Longrightarrow> jl_loadOnce H s = (Inr (), s)"
  by (simp add: jl_loadOnce_def load_begin_def load_end_def)

lemma jl_loadOnce_file:
  assumes "\<not> jl_loaded s" and "(case jl_file s of None \<Rightarrow> [] | Some f \<Rightarrow> f) = concat (map (\<lambda>l. l @ [newline]) ls)"
    and "\<forall>l \<in> set ls. good_line H l"
  shows "jl_loadOnce H s = (Inr (), s\<lparr>jl_loaded := True, jl_records := snd (load_lines H ls (jl_records s))\<rparr>)"
proof (cases "jl_file s")
  case None
  then have "ls = []" using assms(2) by (cases ls) auto
  then show ?thesis using None assms(1) by (simp add: jl_loadOnce_def load_begin_def load_end_def)
next
  case (Some f)
  have "\<forall>l \<in> set ls. newline \<notin> set l" using assms(3) by (auto simp: good_line_def)
  then have sp: "split_on newline f = ls @ [[]]" using split_on_lines [of ls] assms(2) Some by simp
  have "load_lines H (ls @ [[]]) (jl_records s) = (Inr (), snd (load_lines H ls (jl_records s)))"
    using load_lines_append [OF assms(3), of "[[]]" "jl_records s"] by simp
  then show ?thesis using Some assms(1) sp by (simp add: jl_loadOnce_def load_begin_def load_end_def)
qed

lemma jl_lookup_view:
  assumes inv: "jl_inv H s" and run: "wo_lookup (jsonl_ops H) fp s = (x, s')"
  shows "x = Inr (jl_view H s fp)" and "jl_inv H s'" and "jl_view H s' = jl_view H s"
proof -
  obtain ls where ls: "(case jl_file s of None \<Rightarrow> [] | Some f \<Rightarrow> f) = concat (map (\<lambda>l. l @ [newline]) ls)"
    "\<forall>l \<in> set ls. good_line H l" using inv by (auto simp: jl_inv_def)
  have "x = Inr (jl_view H s fp) \<and> jl_inv H s' \<and> jl_view H s' = jl_view H s"
  proof (cases "jl_loaded s")
    case True
    then show ?thesis using run inv by (auto simp: jsonl_ops_def jl_lookup_def jl_view_def)
  next
    case False
    note l = jl_loadOnce_file [OF False ls]
    have s': "s' = s\<lparr>jl_loaded := True, jl_records := snd (load_lines H ls (jl_records s))\<rparr>" and x: "x = Inr (jl_view H s fp)"
      using run by (auto simp: jsonl_ops_def jl_lookup_def l jl_view_def)
    then show ?thesis using ls by (auto simp: jl_inv_def jl_view_def l)
  qed
  then show "x = Inr (jl_view H s fp)" "jl_inv H s'" "jl_view H s' = jl_view H s" by simp_all
qed

lemma jl_record_view:
  assumes H: "host_env H" and inv: "jl_inv H s" and run: "wo_record (jsonl_ops H) r s = (x, s')"
  shows "x = Inr ()" and "jl_inv H s'" and "jl_view H s' = (jl_view H s)(wr_fingerprint r \<mapsto> r)"
proof -
  obtain ls where ls: "(case jl_file s of None \<Rightarrow> [] | Some f \<Rightarrow> f) = concat (map (\<lambda>l. l @ [newline]) ls)"
    "\<forall>l \<in> set ls. good_line H l" using inv by (auto simp: jl_inv_def)
  let ?l = "json_text (wire_js r)" let ?ls = "ls @ [?l]"
  have good: "\<forall>l \<in> set ?ls. good_line H l"
    using ls(2) line_record_line [OF H] json_text_no_newline [OF wire_js_json] by (auto simp: good_line_def)
  have s': "s' = s\<lparr>jl_records := map_set (wr_fingerprint r) r (jl_records s), jl_file := Some (concat (map (\<lambda>l. l @ [newline]) ?ls))\<rparr>"
    and x: "x = Inr ()"
    using run ls(1) by (simp_all add: jsonl_ops_def jl_record_def stringify_json [OF wire_js_json])
  show "x = Inr ()" by (rule x)
  show "jl_inv H s'" unfolding jl_inv_def s' using good by (intro exI [of _ ?ls]) simp
  show "jl_view H s' = (jl_view H s)(wr_fingerprint r \<mapsto> r)"
  proof (cases "jl_loaded s")
    case True
    then show ?thesis by (simp add: jl_view_def s' update_conv')
  next
    case False
    let ?m = "map_set (wr_fingerprint r) r (jl_records s)"
    have f': "(case jl_file s' of None \<Rightarrow> [] | Some f \<Rightarrow> f) = concat (map (\<lambda>l. l @ [newline]) ?ls)" "\<not> jl_loaded s'"
      using False by (simp_all add: s')
    have "load_lines H ?ls ?m = (Inr (), map_set (wr_fingerprint r) r (snd (load_lines H ls ?m)))"
      using load_lines_append [OF ls(2), of "[?l]" ?m] line_record_line [OF H, of r] by simp
    then have "jl_view H s' = (map_of (snd (load_lines H ls ?m)))(wr_fingerprint r \<mapsto> r)"
      using jl_loadOnce_file [OF f'(2,1) good] by (simp add: jl_view_def update_conv' s')
    moreover have "jl_view H s = map_of (snd (load_lines H ls (jl_records s)))"
      by (simp add: jl_view_def jl_loadOnce_file [OF False ls])
    ultimately show ?thesis
      using load_lines_map [OF ls(2), of ?m] load_lines_map [OF ls(2), of "jl_records s"]
      by (auto simp: fun_eq_iff update_conv' map_add_def split: option.splits)
  qed
qed

lemma jsonl_wire_store:
  assumes "host_env H"
  shows "wire_store (jsonl_ops H) (jl_inv H) (jl_view H) (\<lambda>s. {})"
proof
  fix s s' fp x
  assume "jl_inv H s" "wo_lookup (jsonl_ops H) fp s = (x, s')"
  from jl_lookup_view [OF this]
  show "x = Inr (jl_view H s fp) \<and> jl_inv H s' \<and> jl_view H s' = jl_view H s \<and> ({} :: string set) = {}" by blast
next
  fix s s' r y
  assume "jl_inv H s" "wo_record (jsonl_ops H) r s = (y, s')"
  from jl_record_view [OF assms this]
  show "y = Inr () \<and> jl_inv H s' \<and> ({} :: string set) = {}
    \<and> jl_view H s' = (if wr_fingerprint r \<in> {} then jl_view H s else (jl_view H s)(wr_fingerprint r \<mapsto> r))" by simp
qed

interpretation jsonl: wire_store "jsonl_ops plain_host" "jl_inv plain_host" "jl_view plain_host" "\<lambda>s. {}"
  by (rule jsonl_wire_store) (rule plain_host.host_env_axioms)

section \<open>Fixtures in front of the file\<close>

definition fx_view :: "host \<Rightarrow> FixtureWireRecordStore \<Rightarrow> string \<Rightarrow> ApiInvokeWireRecord option" where
  "fx_view H s = map_of (fx_records (fx_loadOnce H s))"

lemma fx_loadOnce_twice [simp]: "fx_loadOnce H (fx_loadOnce H s) = fx_loadOnce H s"
  by (simp add: fx_loadOnce_def)

lemma fixtures_wire_store:
  assumes "host_env H"
  shows "wire_store (fixtures_then_jsonl H) (\<lambda>(f, j). jl_inv H j)
    (\<lambda>(f, j) fp. case fx_view H f fp of None \<Rightarrow> jl_view H j fp | Some r \<Rightarrow> Some r) (\<lambda>(f, j). dom (fx_view H f))"
proof
  note defs = fixtures_then_jsonl_def composite_ops_def on_fst_def on_snd_def fixture_ops_def Let_def
  fix s s' :: "FixtureWireRecordStore \<times> JsonlWireRecordStore" and fp x
  obtain f j where s: "s = (f, j)" by fastforce
  assume "case s of (f, j) \<Rightarrow> jl_inv H j" and run: "wo_lookup (fixtures_then_jsonl H) fp s = (x, s')"
  then have inv: "jl_inv H j" by (simp add: s)
  obtain y j' where jl: "wo_lookup (jsonl_ops H) fp j = (y, j')" by fastforce
  note v = jl_lookup_view [OF inv jl]
  have "fx_view H (fx_loadOnce H f) = fx_view H f" by (simp add: fx_view_def)
  then show "x = Inr ((case s of (f, j) \<Rightarrow> \<lambda>fp. case fx_view H f fp of None \<Rightarrow> jl_view H j fp | Some r \<Rightarrow> Some r) fp)
    \<and> (case s' of (f, j) \<Rightarrow> jl_inv H j)
    \<and> (case s' of (f, j) \<Rightarrow> \<lambda>fp. case fx_view H f fp of None \<Rightarrow> jl_view H j fp | Some r \<Rightarrow> Some r)
      = (case s of (f, j) \<Rightarrow> \<lambda>fp. case fx_view H f fp of None \<Rightarrow> jl_view H j fp | Some r \<Rightarrow> Some r)
    \<and> (case s' of (f, j) \<Rightarrow> dom (fx_view H f)) = (case s of (f, j) \<Rightarrow> dom (fx_view H f))"
    using run v jl inv
    by (cases "fx_view H f fp") (auto simp: s defs fx_view_def split: option.splits)
next
  fix s s' :: "FixtureWireRecordStore \<times> JsonlWireRecordStore" and r y
  obtain f j where s: "s = (f, j)" by fastforce
  assume "case s of (f, j) \<Rightarrow> jl_inv H j" and run: "wo_record (fixtures_then_jsonl H) r s = (y, s')"
  then have inv: "jl_inv H j" by (simp add: s)
  obtain z j' where jl: "wo_record (jsonl_ops H) r j = (z, j')" by fastforce
  note v = jl_record_view [OF assms inv jl]
  have s': "s' = (f, j')" "y = z" using run jl by (simp_all add: s fixtures_then_jsonl_def composite_ops_def on_snd_def)
  show "y = Inr () \<and> (case s' of (f, j) \<Rightarrow> jl_inv H j) \<and> (case s' of (f, j) \<Rightarrow> dom (fx_view H f)) = (case s of (f, j) \<Rightarrow> dom (fx_view H f))
    \<and> (case s' of (f, j) \<Rightarrow> \<lambda>fp. case fx_view H f fp of None \<Rightarrow> jl_view H j fp | Some r \<Rightarrow> Some r)
      = (if wr_fingerprint r \<in> (case s of (f, j) \<Rightarrow> dom (fx_view H f))
         then case s of (f, j) \<Rightarrow> \<lambda>fp. case fx_view H f fp of None \<Rightarrow> jl_view H j fp | Some r \<Rightarrow> Some r
         else (case s of (f, j) \<Rightarrow> \<lambda>fp. case fx_view H f fp of None \<Rightarrow> jl_view H j fp | Some r \<Rightarrow> Some r)(wr_fingerprint r \<mapsto> r))"
    using v by (auto simp: s s' fun_eq_iff split: option.splits)
qed

interpretation fixtures: wire_store "fixtures_then_jsonl plain_host" "\<lambda>(f, j). jl_inv plain_host j"
  "\<lambda>(f, j) fp. case fx_view plain_host f fp of None \<Rightarrow> jl_view plain_host j fp | Some r \<Rightarrow> Some r"
  "\<lambda>(f, j). dom (fx_view plain_host f)"
  by (rule fixtures_wire_store) (rule plain_host.host_env_axioms)

end
