(* ===== verification/UrlServices.thy ===== *)
theory UrlServices
  imports GatewayEnvelope StateStore
begin

text \<open>
  The reference services behind the gateway (\<^verbatim>\<open>orchestration/url-services/src\<close>): \<^verbatim>\<open>echo.v1\<close>,
  \<^verbatim>\<open>delay.v1\<close>, \<^verbatim>\<open>http.fetch.v1\<close> and \<^verbatim>\<open>mock-ai.v1\<close>, their catalog, router and counters. The
  parser of URLs, the outbound \<^verbatim>\<open>fetch\<close> and the clock are parameters; spans are left out.
\<close>

section \<open>Results and helpers\<close>

record ReferenceServiceConfig =
  rc_httpFetchAllowlist :: "string list"
  rc_delayMaxMs :: int

record ReferenceServiceResult =
  rs_handled :: bool
  rs_statusCode :: int
  rs_body :: js

definition svc_ok :: "js \<Rightarrow> ReferenceServiceResult" where
  "svc_ok result = \<lparr>rs_handled = True, rs_statusCode = 200, rs_body = JObj [(''result'', result)]\<rparr>"

definition svc_badRequest :: "string \<Rightarrow> ReferenceServiceResult" where
  "svc_badRequest message = \<lparr>rs_handled = True, rs_statusCode = 400,
     rs_body = JObj [(''error'', JStr ''badRequest''), (''detail'', JObj [(''message'', JStr message)])]\<rparr>"

text \<open>A parsed \<^verbatim>\<open>URL\<close>, by the parts the services read.\<close>

record url =
  ur_protocol :: string
  ur_hostname :: string
  ur_port :: string
  ur_origin :: string
  ur_text :: string

definition target_matches :: "(string \<Rightarrow> url option) \<Rightarrow> url \<Rightarrow> string \<Rightarrow> bool" where
  "target_matches parse_url u entry =
     (case parse_url (if sublist ''://'' entry then entry else ''https://'' @ entry) of
        Some p \<Rightarrow> ur_hostname p = ur_hostname u \<and> (ur_port p = [] \<or> ur_port p = ur_port u)
      | None \<Rightarrow> entry = ur_hostname u \<or> entry = ur_origin u)"

definition isAllowedHttpFetchTarget :: "(string \<Rightarrow> url option) \<Rightarrow> url \<Rightarrow> string list \<Rightarrow> bool" where
  "isAllowedHttpFetchTarget parse_url u allowlist \<longleftrightarrow>
     ur_protocol u \<in> {''http:'', ''https:''}
     \<and> (''*'' \<in> set allowlist \<or> list_ex (target_matches parse_url u) allowlist)"

definition stringifyHeaders :: "js js_map \<Rightarrow> string js_map" where
  "stringifyHeaders headers = List.map_filter (\<lambda>(k, v). map_option (Pair k) (js_string v)) headers"

definition readObjectNumber :: "js \<Rightarrow> string \<Rightarrow> int option" where
  "readObjectNumber v k = (if isRecord v then js_int (js_get v k) else None)"

definition clampNumber :: "int \<Rightarrow> int \<Rightarrow> int \<Rightarrow> int" where
  "clampNumber v lo hi = min hi (max lo v)"

text \<open>\<^verbatim>\<open>stableSerialize\<close> of \<^verbatim>\<open>undefined\<close> is the text \<^verbatim>\<open>undefined\<close> here.\<close>

definition svc_serialize :: "js \<Rightarrow> string + string" where
  "svc_serialize v = (case stableSerialize v of Inl e \<Rightarrow> Inl e | Inr t \<Rightarrow> Inr (default ''undefined'' t))"

definition estimateTokenCount :: "string \<Rightarrow> int" where
  "estimateTokenCount serialized = max 1 ((int (length serialized) + 3) div 4)"

section \<open>The services\<close>

definition echo_handle :: "js \<Rightarrow> ReferenceServiceResult" where
  "echo_handle args = svc_ok args"

text \<open>\<^verbatim>\<open>delay.v1\<close>: the delay it sleeps for and its result.\<close>

fun has_own :: "js \<Rightarrow> string \<Rightarrow> bool" where
  "has_own (JObj fs) k = map_has fs k"
| "has_own v k = False"

definition delay_handle :: "ReferenceServiceConfig \<Rightarrow> js \<Rightarrow> int \<times> ReferenceServiceResult" where
  "delay_handle C args =
     (clampNumber (default 0 (readObjectNumber args ''delayMs'')) 0 (rc_delayMaxMs C),
      svc_ok (if has_own args ''result'' then js_get args ''result'' else args))"

definition ascii_upper :: "char \<Rightarrow> char" where
  "ascii_upper c = (if 97 \<le> byte c \<and> byte c \<le> 122 then char_of (byte c - 32) else c)"

record fetch_request =
  fq_url :: url
  fq_method :: string
  fq_headers :: "string js_map option"
  fq_body :: "string option"

definition fetch_body :: "string \<Rightarrow> js \<Rightarrow> string + string option" where
  "fetch_body method body =
     (if method = ''GET'' \<or> method = ''HEAD'' then Inr None
      else case body of JStr s \<Rightarrow> Inr (Some s) | JUndef \<Rightarrow> Inr None | v \<Rightarrow> stringify v)"

text \<open>
  \<^verbatim>\<open>httpFetch\<close> up to the call of \<^verbatim>\<open>fetch\<close>: an answer without a call, or the call. \<open>Inl\<close> is what
  the service throws.
\<close>

definition httpFetch_request :: "(string \<Rightarrow> url option) \<Rightarrow> string list \<Rightarrow> js \<Rightarrow> string + (ReferenceServiceResult + fetch_request)" where
  "httpFetch_request parse_url allowlist args =
     (case (isRecord args, js_string (js_get args ''url'')) of
        (True, Some text) \<Rightarrow>
          (case parse_url text of
             None \<Rightarrow> Inr (Inl (svc_badRequest ''http.fetch.v1 args.url must be an absolute URL''))
           | Some u \<Rightarrow>
              if \<not> isAllowedHttpFetchTarget parse_url u allowlist
              then Inr (Inl \<lparr>rs_handled = True, rs_statusCode = 403,
                     rs_body = JObj [(''error'', JStr ''targetNotAllowed''),
                       (''detail'', JObj [(''url'', JStr (ur_text u)), (''allowlist'', JArr (map JStr allowlist))])]\<rparr>)
              else
                let method = (case js_get args ''method'' of JStr m \<Rightarrow> map ascii_upper m | _ \<Rightarrow> ''GET'');
                    headers = (case js_get args ''headers'' of JObj hs \<Rightarrow> Some (stringifyHeaders hs) | _ \<Rightarrow> None)
                in (case fetch_body method (js_get args ''body'') of
                      Inl e \<Rightarrow> Inl e
                    | Inr body \<Rightarrow> Inr (Inr \<lparr>fq_url = u, fq_method = method, fq_headers = headers, fq_body = body\<rparr>)))
      | _ \<Rightarrow> Inr (Inl (svc_badRequest ''http.fetch.v1 requires args.url'')))"

definition httpFetch ::
  "(string \<Rightarrow> url option) \<Rightarrow> (fetch_request \<Rightarrow> string + int \<times> string js_map \<times> string) \<Rightarrow> string list \<Rightarrow> js \<Rightarrow> string + ReferenceServiceResult" where
  "httpFetch parse_url fetch allowlist args =
     (case httpFetch_request parse_url allowlist args of
        Inl e \<Rightarrow> Inl e
      | Inr (Inl result) \<Rightarrow> Inr result
      | Inr (Inr q) \<Rightarrow>
         (case fetch q of
            Inl e \<Rightarrow> Inl e
          | Inr (status, headers, body) \<Rightarrow>
              Inr (svc_ok (JObj [(''status'', JNum status), (''headers'', JObj (map (\<lambda>(k, v). (k, JStr v)) headers)),
                (''body'', JStr body)]))))"

definition mockAi_handle :: "host \<Rightarrow> js \<Rightarrow> string + ReferenceServiceResult" where
  "mockAi_handle H args =
     (case svc_serialize args of
        Inl e \<Rightarrow> Inl e
      | Inr serialized \<Rightarrow>
         let fingerprint = take 16 (sha256Hex H serialized)
         in Inr (svc_ok (JObj [(''id'', JStr (''mock-ai.v1:'' @ fingerprint)), (''model'', JStr ''mock-ai.v1''),
              (''choices'', JArr [JObj [(''index'', JNum 0),
                 (''message'', JObj [(''role'', JStr ''assistant''), (''content'', JStr (''mock-ai.v1 response '' @ fingerprint))]),
                 (''finishReason'', JStr ''stop'')]]),
              (''usage'', JObj [(''inputTokens'', JNum (estimateTokenCount serialized)), (''outputTokens'', JNum 4)])])))"

section \<open>Catalog and router\<close>

datatype service = EchoService | DelayService | HttpFetchService | MockAiV1Service

definition SERVICES :: "service list" where
  "SERVICES = [EchoService, DelayService, HttpFetchService, MockAiV1Service]"

definition svc_kindName :: "service \<Rightarrow> string" where
  "svc_kindName s =
     (case s of EchoService \<Rightarrow> ''echo.v1'' | DelayService \<Rightarrow> ''delay.v1'' | HttpFetchService \<Rightarrow> ''http.fetch.v1''
      | MockAiV1Service \<Rightarrow> ''mock-ai.v1'')"

definition svc_pathname :: "service \<Rightarrow> string" where
  "svc_pathname s =
     (case s of EchoService \<Rightarrow> ''/_url-services/echo/invoke'' | DelayService \<Rightarrow> ''/_url-services/delay/invoke''
      | HttpFetchService \<Rightarrow> ''/_url-services/http-fetch/invoke'' | MockAiV1Service \<Rightarrow> ''/_url-services/mock-ai.v1/invoke'')"

record ReferenceServiceMetrics =
  rm_invocationsTotal :: int
  rm_errorsTotal :: int
  rm_durationMsSum :: int

definition no_metrics :: ReferenceServiceMetrics where
  "no_metrics = \<lparr>rm_invocationsTotal = 0, rm_errorsTotal = 0, rm_durationMsSum = 0\<rparr>"

definition metricsByKindName :: "ReferenceServiceMetrics js_map" where
  "metricsByKindName = map (\<lambda>s. (svc_kindName s, no_metrics)) SERVICES"

definition metricsFor :: "ReferenceServiceMetrics js_map \<Rightarrow> string \<Rightarrow> ReferenceServiceMetrics" where
  "metricsFor m k = default no_metrics (map_get m k)"

record service_env =
  se_host :: host
  se_parse_url :: "string \<Rightarrow> url option"
  se_fetch :: "fetch_request \<Rightarrow> string + int \<times> string js_map \<times> string"
  se_elapsed :: int

definition service_handle :: "service_env \<Rightarrow> ReferenceServiceConfig \<Rightarrow> service \<Rightarrow> js \<Rightarrow> string + ReferenceServiceResult" where
  "service_handle E C s args =
     (case s of
        EchoService \<Rightarrow> Inr (echo_handle args)
      | DelayService \<Rightarrow> Inr (snd (delay_handle C args))
      | HttpFetchService \<Rightarrow> httpFetch (se_parse_url E) (se_fetch E) (rc_httpFetchAllowlist C) args
      | MockAiV1Service \<Rightarrow> mockAi_handle (se_host E) args)"

definition count_call :: "int \<Rightarrow> (string + ReferenceServiceResult) \<Rightarrow> ReferenceServiceMetrics \<Rightarrow> ReferenceServiceMetrics" where
  "count_call elapsed result m =
     m\<lparr>rm_invocationsTotal := rm_invocationsTotal m + 1,
       rm_errorsTotal := rm_errorsTotal m + (case result of Inl e \<Rightarrow> 1 | Inr r \<Rightarrow> if rs_statusCode r \<ge> 400 then 1 else 0),
       rm_durationMsSum := rm_durationMsSum m + max 0 elapsed\<rparr>"

definition handleReferenceService ::
  "service_env \<Rightarrow> ReferenceServiceConfig \<Rightarrow> string \<Rightarrow> js \<Rightarrow> ReferenceServiceMetrics js_map
   \<Rightarrow> (string + ReferenceServiceResult) \<times> ReferenceServiceMetrics js_map" where
  "handleReferenceService E C path args m =
     (case List.find (\<lambda>s. svc_pathname s = path) SERVICES of
        None \<Rightarrow> (Inr \<lparr>rs_handled = False, rs_statusCode = 404,
            rs_body = JObj [(''error'', JStr ''notFound''), (''detail'', JObj [(''pathname'', JStr path)])]\<rparr>, m)
      | Some s \<Rightarrow>
         let result = service_handle E C s args
         in (result, map_set (svc_kindName s) (count_call (se_elapsed E) result (metricsFor m (svc_kindName s))) m))"

text \<open>\<^verbatim>\<open>baseUrl.replace(/\/+$/, "")\<close> drops the slashes at the end.\<close>

definition strip_slashes :: "string \<Rightarrow> string" where
  "strip_slashes s = rev (dropWhile (\<lambda>c. c = CHR ''/'') (rev s))"

definition referenceKindRegistrations :: "string \<Rightarrow> ApiKindRegistration list" where
  "referenceKindRegistrations baseUrl =
     map (\<lambda>s. \<lparr>ak_kindName = svc_kindName s, ak_url = strip_slashes baseUrl @ svc_pathname s, ak_registeredAt = None\<rparr>) SERVICES"

record ReferenceServiceMetricsSnapshot = ReferenceServiceMetrics +
  rm_kindName :: string

definition referenceServiceMetricsSnapshot :: "ReferenceServiceMetrics js_map \<Rightarrow> ReferenceServiceMetricsSnapshot list" where
  "referenceServiceMetricsSnapshot m =
     map (\<lambda>s. ReferenceServiceMetrics.extend (metricsFor m (svc_kindName s)) \<lparr>rm_kindName = svc_kindName s\<rparr>) SERVICES"

section \<open>Lemmas\<close>

lemma services_distinct: "distinct (map svc_kindName SERVICES)" "distinct (map svc_pathname SERVICES)"
  by (simp_all add: SERVICES_def svc_kindName_def svc_pathname_def)

lemma find_service: "List.find (\<lambda>s'. svc_pathname s' = svc_pathname s) SERVICES = Some s"
  by (cases s) (simp_all add: SERVICES_def svc_pathname_def)

lemma handle_known:
  "handleReferenceService E C (svc_pathname s) args m
     = (service_handle E C s args,
        map_set (svc_kindName s) (count_call (se_elapsed E) (service_handle E C s args) (metricsFor m (svc_kindName s))) m)"
  by (simp add: handleReferenceService_def find_service Let_def)

lemma delay_bounded: "0 \<le> rc_delayMaxMs C \<Longrightarrow> 0 \<le> fst (delay_handle C args) \<and> fst (delay_handle C args) \<le> rc_delayMaxMs C"
  by (simp add: delay_handle_def clampNumber_def)

text \<open>What \<^verbatim>\<open>mock-ai.v1\<close> answers depends on its arguments up to the order of fields.\<close>

lemma mockAi_deterministic:
  assumes "plain_json a" and "plain_json b" and "js_eq a b"
  shows "mockAi_handle H a = mockAi_handle H b"
  using canonicalize_eq [OF assms(1,2)] assms(3) by (simp add: mockAi_handle_def svc_serialize_def stableSerialize_def)

text \<open>A request that reaches \<^verbatim>\<open>fetch\<close> is for a target that the allowlist admits.\<close>

lemma request_allowed:
  assumes "httpFetch_request parse_url allowlist args = Inr (Inr q)"
  shows "isAllowedHttpFetchTarget parse_url (fq_url q) allowlist"
  using assms by (auto simp: httpFetch_request_def Let_def split: bool.splits option.splits if_splits sum.splits)

text \<open>
  The services reach the network only for targets the allowlist admits. Two networks that
  agree on those requests are indistinguishable through the router, for every path, body and
  configuration, in the answer as in the counters; with an empty allowlist no call leaves.
\<close>

theorem fetch_confined:
  assumes "\<And>q. isAllowedHttpFetchTarget (se_parse_url E) (fq_url q) (rc_httpFetchAllowlist C) \<Longrightarrow> se_fetch E q = net q"
  shows "handleReferenceService (E\<lparr>se_fetch := net\<rparr>) C path args m = handleReferenceService E C path args m"
proof -
  have "httpFetch (se_parse_url E) net (rc_httpFetchAllowlist C) a
      = httpFetch (se_parse_url E) (se_fetch E) (rc_httpFetchAllowlist C) a" for a
    using assms request_allowed [of "se_parse_url E" "rc_httpFetchAllowlist C" a]
    by (auto simp: httpFetch_def split: sum.splits)
  then show ?thesis
    by (simp add: handleReferenceService_def service_handle_def Let_def cong: option.case_cong service.case_cong)
qed

definition no_network :: service_env where
  "no_network = \<lparr>se_host = plain_host, se_parse_url = (\<lambda>u. None), se_fetch = (\<lambda>q. Inl ''unreachable''), se_elapsed = 1\<rparr>"

theorem fetch_confined_witness:
  "handleReferenceService (no_network\<lparr>se_fetch := (\<lambda>q. Inr (200, [], ''leak''))\<rparr>)
     \<lparr>rc_httpFetchAllowlist = [], rc_delayMaxMs = 5\<rparr> ''/_url-services/http-fetch/invoke'' (JObj [(''url'', JStr ''http://h/'')]) metricsByKindName
   = handleReferenceService no_network \<lparr>rc_httpFetchAllowlist = [], rc_delayMaxMs = 5\<rparr> ''/_url-services/http-fetch/invoke'' (JObj [(''url'', JStr ''http://h/'')]) metricsByKindName"
  by (rule fetch_confined) (simp add: isAllowedHttpFetchTarget_def)

end
