(* ===== verification/Gateway.thy ===== *)
theory Gateway
  imports GatewayRecords GatewayRegistry UrlServices
begin

text \<open>
  The dispatch of \<^verbatim>\<open>c.api.invoke\<close> (\<^verbatim>\<open>orchestration/api-gateway/src/dispatch.mts\<close>) and the request
  bodies the gateway accepts (\<^verbatim>\<open>app.mts\<close>).

  An invocation is a function of the gateway's state: its rate budget, its wire records and its
  counters. What it reads from outside is in \<open>call_env\<close>: the clock, a fresh request id, the
  registry's answer, and the provider's answer to the POST, which is \<open>Inl\<close> for a network error or
  a timeout. Tracing spans are left out. \<open>Inl\<close> is a rejected promise.
\<close>

section \<open>Responses\<close>

definition response_js :: "ApiInvokeResponse \<Rightarrow> js" where
  "response_js r =
     (case r of
        ApiOk v \<Rightarrow> JObj [(''ok'', JBool True), (''result'', v)]
      | ApiErr e d \<Rightarrow> JObj [(''ok'', JBool False), (''error'', JStr (invoke_error e)), (''detail'', default JUndef d)])"

definition gw_parseJson :: "host \<Rightarrow> string \<Rightarrow> js" where
  "gw_parseJson H raw = (case host_parse H raw of None \<Rightarrow> JUndef | Some v \<Rightarrow> v)"

fun js_has :: "js \<Rightarrow> string \<Rightarrow> bool" where
  "js_has (JObj fs) k = map_has fs k"
| "js_has v k = False"

definition apiInvokeResponseFromHttp :: "host \<Rightarrow> int \<Rightarrow> string \<Rightarrow> ApiInvokeResponse" where
  "apiInvokeResponseFromHttp H statusCode rawInbound =
     (let parsed = gw_parseJson H rawInbound in
      if statusCode \<ge> 200 \<and> statusCode < 300
      then if isRecord parsed \<and> js_has parsed ''result'' then ApiOk (js_get parsed ''result'')
           else ApiErr ProviderError (Some (JObj [(''statusCode'', JNum statusCode), (''rawInbound'', JStr rawInbound),
                  (''message'', JStr ''2xx response missing result'')]))
      else ApiErr ProviderError (Some (if isRecord parsed then parsed
              else JObj [(''statusCode'', JNum statusCode), (''rawInbound'', JStr rawInbound),
                         (''message'', JStr ''provider returned non-json error'')])))"

section \<open>The gateway\<close>

record 'r ApiGateway =
  gw_budget :: SlidingWindowApiInvocationBudget
  gw_records :: 'r
  gw_defaultMode :: WireMode
  gw_providerTimeoutMs :: int
  gw_invocationsTotal :: int
  gw_okTotal :: int
  gw_errorsTotal :: "(ApiInvokeError \<times> int) list"

record call_env =
  ce_now :: int
  ce_uuid :: string
  ce_iso :: string
  ce_url :: "string + string option"
  ce_fetch :: "string \<Rightarrow> BuiltGatewayEnvelope \<Rightarrow> string + int \<times> string"

definition new_gateway :: "SlidingWindowApiInvocationBudget \<Rightarrow> 'r \<Rightarrow> WireMode \<Rightarrow> int option \<Rightarrow> 'r ApiGateway" where
  "new_gateway budget records mode timeout =
     \<lparr>gw_budget = budget, gw_records = records, gw_defaultMode = mode, gw_providerTimeoutMs = default 30000 timeout,
      gw_invocationsTotal = 0, gw_okTotal = 0, gw_errorsTotal = []\<rparr>"

definition metric_errors :: "'r ApiGateway \<Rightarrow> ApiInvokeError \<Rightarrow> int" where
  "metric_errors g e = default 0 (map_get (gw_errorsTotal g) e)"

record ApiGatewayMetricsSnapshot =
  ms_invocationsTotal :: int
  ms_okTotal :: int
  ms_errorsTotal :: "(ApiInvokeError \<times> int) list"

definition metricsSnapshot :: "'r ApiGateway \<Rightarrow> ApiGatewayMetricsSnapshot" where
  "metricsSnapshot g = \<lparr>ms_invocationsTotal = gw_invocationsTotal g, ms_okTotal = gw_okTotal g,
     ms_errorsTotal = map (\<lambda>e. (e, metric_errors g e)) [KindUnknown, ProviderError, ApiRateExceeded, ReplayCoverageGap]\<rparr>"

definition recordMetrics :: "ApiInvokeResponse \<Rightarrow> 'r ApiGateway \<Rightarrow> 'r ApiGateway" where
  "recordMetrics r g =
     (case r of
        ApiOk v \<Rightarrow> g\<lparr>gw_okTotal := gw_okTotal g + 1\<rparr>
      | ApiErr e d \<Rightarrow> g\<lparr>gw_errorsTotal := map_set e (metric_errors g e + 1) (gw_errorsTotal g)\<rparr>)"

definition do_record ::
  "'r WireRecordStore \<Rightarrow> ApiInvokeWireRecord \<Rightarrow> 'r ApiGateway \<Rightarrow> (string + unit) \<times> 'r ApiGateway" where
  "do_record W r g = (let (x, s) = wo_record W r (gw_records g) in (x, g\<lparr>gw_records := s\<rparr>))"

definition recordAndReturn ::
  "'r WireRecordStore \<Rightarrow> call_env \<Rightarrow> ApiGatewayDispatchInput \<Rightarrow> BuiltGatewayEnvelope \<Rightarrow> WireMode \<Rightarrow> int \<Rightarrow> ApiInvokeError \<Rightarrow> js
   \<Rightarrow> 'r ApiGateway \<Rightarrow> (string + ApiGatewayInvokeResult) \<times> 'r ApiGateway" where
  "recordAndReturn W E input env mode statusCode error detail g =
     (let response = ApiErr error (Some detail);
          g1 = recordMetrics response g
      in case stableSerialize (response_js response) of
           Inl e \<Rightarrow> (Inl e, g1)
         | Inr raw \<Rightarrow>
            let record = \<lparr>wr_requestId = ge_requestId env, wr_fingerprint = ge_fingerprint env, wr_mode = mode,
                  wr_kind = ai_kind input, wr_gameId = di_gameId input, wr_runId = di_runId input,
                  wr_rawOutbound = ge_rawOutbound env, wr_rawInbound = default_text raw, wr_statusCode = statusCode,
                  wr_error = Some error, wr_recordedAt = ce_iso E\<rparr>
            in (case do_record W record g1 of
                  (Inl e, g2) \<Rightarrow> (Inl e, g2)
                | (Inr u, g2) \<Rightarrow> (Inr \<lparr>gr_response = response, gr_wireRecord = Some record\<rparr>, g2)))"

definition error_of :: "ApiInvokeResponse \<Rightarrow> ApiInvokeError option" where
  "error_of r = (case r of ApiOk v \<Rightarrow> None | ApiErr e d \<Rightarrow> Some e)"

text \<open>The replay of a recorded call, and the live call of a provider.\<close>

definition invoke_replay ::
  "host \<Rightarrow> 'r WireRecordStore \<Rightarrow> call_env \<Rightarrow> ApiGatewayDispatchInput \<Rightarrow> BuiltGatewayEnvelope
   \<Rightarrow> 'r ApiGateway \<Rightarrow> (string + ApiGatewayInvokeResult) \<times> 'r ApiGateway" where
  "invoke_replay H W E input env g =
     (case wo_lookup W (ge_fingerprint env) (gw_records g) of
        (Inl e, s) \<Rightarrow> (Inl e, g\<lparr>gw_records := s\<rparr>)
      | (Inr None, s) \<Rightarrow>
          recordAndReturn W E input env Replay 0 ReplayCoverageGap
            (JObj [(''fingerprint'', JStr (ge_fingerprint env))]) (g\<lparr>gw_records := s\<rparr>)
      | (Inr (Some recorded), s) \<Rightarrow>
          let record = recorded\<lparr>wr_mode := Replay, wr_requestId := ge_requestId env, wr_kind := ai_kind input,
                wr_gameId := di_gameId input, wr_runId := di_runId input, wr_rawOutbound := ge_rawOutbound env,
                wr_recordedAt := ce_iso E\<rparr>
          in (case do_record W record (g\<lparr>gw_records := s\<rparr>) of
                (Inl e, g1) \<Rightarrow> (Inl e, g1)
              | (Inr u, g1) \<Rightarrow>
                 let response = apiInvokeResponseFromHttp H (wr_statusCode recorded) (wr_rawInbound recorded)
                 in (Inr \<lparr>gr_response = response, gr_wireRecord = Some record\<rparr>, recordMetrics response g1)))"

definition invoke_live ::
  "host \<Rightarrow> 'r WireRecordStore \<Rightarrow> call_env \<Rightarrow> string \<Rightarrow> ApiGatewayDispatchInput \<Rightarrow> BuiltGatewayEnvelope
   \<Rightarrow> 'r ApiGateway \<Rightarrow> (string + ApiGatewayInvokeResult) \<times> 'r ApiGateway" where
  "invoke_live H W E url input env g =
     (let failed = (\<lambda>message g. recordAndReturn W E input env Live 0 ProviderError
            (JObj [(''timeoutMs'', JNum (gw_providerTimeoutMs g)), (''message'', JStr message)]) g)
      in case ce_fetch E url env of
           Inl message \<Rightarrow> failed message g
         | Inr (status, rawInbound) \<Rightarrow>
            let response = apiInvokeResponseFromHttp H status rawInbound;
                record = \<lparr>wr_requestId = ge_requestId env, wr_fingerprint = ge_fingerprint env, wr_mode = Live,
                  wr_kind = ai_kind input, wr_gameId = di_gameId input, wr_runId = di_runId input,
                  wr_rawOutbound = ge_rawOutbound env, wr_rawInbound = rawInbound, wr_statusCode = status,
                  wr_error = error_of response, wr_recordedAt = ce_iso E\<rparr>
            in (case do_record W record g of
                  (Inl message, g1) \<Rightarrow> failed message g1
                | (Inr u, g1) \<Rightarrow>
                    (Inr \<lparr>gr_response = response, gr_wireRecord = Some record\<rparr>, recordMetrics response g1)))"

definition invoke_mode :: "ApiGatewayDispatchInput \<Rightarrow> 'r ApiGateway \<Rightarrow> WireMode" where
  "invoke_mode input g = (if di_replayMode input = Some True then Replay else gw_defaultMode g)"

definition invokeWithMetrics ::
  "host \<Rightarrow> 'r WireRecordStore \<Rightarrow> call_env \<Rightarrow> ApiGatewayDispatchInput
   \<Rightarrow> 'r ApiGateway \<Rightarrow> (string + ApiGatewayInvokeResult) \<times> 'r ApiGateway" where
  "invokeWithMetrics H W E input g0 =
     (let g1 = g0\<lparr>gw_invocationsTotal := gw_invocationsTotal g0 + 1\<rparr>;
          mode = invoke_mode input g1
      in case buildGatewayEnvelope H (ce_uuid E) input mode of
           Inl e \<Rightarrow> (Inl e, g1)
         | Inr env \<Rightarrow>
            let (decision, b) = checkAndRecord (di_gameId input) (ce_now E) (gw_budget g1);
                g = g1\<lparr>gw_budget := b\<rparr>
            in if \<not> rd_ok decision
               then recordAndReturn W E input env mode 0 ApiRateExceeded
                      (JObj [(''currentUsage'', JNum (rd_currentUsage decision)), (''limit'', JNum (rd_limit decision)),
                             (''windowMs'', JNum (rd_windowMs decision))]) g
               else
                case ce_url E of
                  Inl e \<Rightarrow> (Inl e, g)
                | Inr found \<Rightarrow>
                   (case truthy found of
                      None \<Rightarrow> recordAndReturn W E input env mode 0 KindUnknown
                                (JObj [(''kind'', JStr (ai_kind input))]) g
                    | Some url \<Rightarrow>
                        (case mode of
                           Replay \<Rightarrow> invoke_replay H W E input env g
                         | Live \<Rightarrow> invoke_live H W E url input env g)))"

section \<open>Request bodies\<close>

text \<open>An \<^verbatim>\<open>HttpError\<close>: status, code and detail.\<close>

record HttpError =
  ht_statusCode :: int
  ht_code :: string
  ht_detail :: js

definition badRequest :: "js js_map \<Rightarrow> HttpError" where
  "badRequest fs = \<lparr>ht_statusCode = 400, ht_code = ''badRequest'', ht_detail = JObj fs\<rparr>"

definition asRecord :: "js \<Rightarrow> string \<Rightarrow> HttpError + js js_map" where
  "asRecord raw label =
     (case raw of JObj fs \<Rightarrow> Inr fs | _ \<Rightarrow> Inl (badRequest [(''message'', JStr (label @ '' must be an object''))]))"

definition body_string :: "js js_map \<Rightarrow> string \<Rightarrow> HttpError + string" where
  "body_string r field =
     (case truthy (js_string (js_get (JObj r) field)) of
        None \<Rightarrow> Inl (badRequest [(''field'', JStr field), (''expected'', JStr ''non-empty string'')])
      | Some s \<Rightarrow> Inr s)"

text \<open>\<^verbatim>\<open>readNullableString\<close> and \<^verbatim>\<open>readOptionalNullableString\<close>: absent or null is \<open>None\<close>.\<close>

definition readNullableString :: "js js_map \<Rightarrow> string \<Rightarrow> HttpError + string option" where
  "readNullableString r field =
     (let v = js_get (JObj r) field in
      if v = JNull \<or> v = JUndef then Inr None
      else case truthy (js_string v) of
        None \<Rightarrow> Inl (badRequest [(''field'', JStr field), (''expected'', JStr ''string or null'')])
      | Some s \<Rightarrow> Inr (Some s))"

definition readNullableRecord :: "js js_map \<Rightarrow> string \<Rightarrow> HttpError + js js_map option" where
  "readNullableRecord r field =
     (let v = js_get (JObj r) field in
      if v = JNull \<or> v = JUndef then Inr None
      else case asRecord v field of Inl e \<Rightarrow> Inl e | Inr fs \<Rightarrow> Inr (Some fs))"

definition body_number :: "js js_map \<Rightarrow> string \<Rightarrow> HttpError + int" where
  "body_number r field =
     (case js_int (js_get (JObj r) field) of
        None \<Rightarrow> Inl (badRequest [(''field'', JStr field), (''expected'', JStr ''finite number'')])
      | Some n \<Rightarrow> Inr n)"

definition read_session :: "js \<Rightarrow> HttpError + ConnectedSessionSnapshot" where
  "read_session v =
     (case asRecord v ''connected session'' of
        Inl e \<Rightarrow> Inl e
      | Inr r \<Rightarrow>
     (case body_string r ''sessionId'' of
        Inl e \<Rightarrow> Inl e
      | Inr s \<Rightarrow>
     (case body_string r ''playerId'' of
        Inl e \<Rightarrow> Inl e
      | Inr p \<Rightarrow>
     (case body_number r ''connectedAt'' of
        Inl e \<Rightarrow> Inl e
      | Inr t \<Rightarrow> Inr \<lparr>ss_sessionId = s, ss_playerId = p, ss_connectedAt = t\<rparr>))))"

fun read_all :: "(js \<Rightarrow> 'e + 'a) \<Rightarrow> js list \<Rightarrow> 'e + 'a list" where
  "read_all f [] = Inr []"
| "read_all f (v # vs) =
     (case f v of
        Inl e \<Rightarrow> Inl e
      | Inr x \<Rightarrow> (case read_all f vs of Inl e \<Rightarrow> Inl e | Inr xs \<Rightarrow> Inr (x # xs)))"

definition readConnectedSessions :: "js \<Rightarrow> HttpError + ConnectedSessionSnapshot list" where
  "readConnectedSessions raw =
     (case raw of
        JArr vs \<Rightarrow> read_all read_session vs
      | _ \<Rightarrow> Inl (badRequest [(''field'', JStr ''connectedSessions'')]))"

definition sum_bind :: "'e + 'a \<Rightarrow> ('a \<Rightarrow> 'e + 'b) \<Rightarrow> 'e + 'b" where
  "sum_bind m f = (case m of Inl e \<Rightarrow> Inl e | Inr a \<Rightarrow> f a)"

definition asDispatchInput :: "js \<Rightarrow> HttpError + ApiGatewayDispatchInput" where
  "asDispatchInput raw =
     sum_bind (asRecord raw ''dispatch body'') (\<lambda>body.
     sum_bind (body_string body ''kind'') (\<lambda>kind.
     sum_bind (readNullableString body ''idempotencyKey'') (\<lambda>idempotencyKey.
     sum_bind (body_string body ''gameId'') (\<lambda>gameId.
     sum_bind (readNullableString body ''traceId'') (\<lambda>traceId.
     sum_bind (readNullableString body ''triggeringSessionId'') (\<lambda>triggeringSessionId.
     sum_bind (readNullableRecord body ''triggeringJwtClaims'') (\<lambda>triggeringJwtClaims.
     sum_bind (readConnectedSessions (js_get (JObj body) ''connectedSessions'')) (\<lambda>connectedSessions.
     sum_bind (body_string body ''bundleName'') (\<lambda>bundleName.
     sum_bind (body_string body ''bundleCompatTag'') (\<lambda>bundleCompatTag.
     sum_bind (readNullableString body ''runId'') (\<lambda>runId.
       Inr \<lparr>ai_kind = kind, ai_args = js_get (JObj body) ''args'', ai_idempotencyKey = idempotencyKey,
            di_gameId = gameId, di_triggeringSessionId = triggeringSessionId,
            di_triggeringJwtClaims = triggeringJwtClaims, di_connectedSessions = connectedSessions,
            di_bundleName = bundleName, di_bundleCompatTag = bundleCompatTag, di_runId = runId,
            di_traceId = traceId, di_replayMode = Some (js_get (JObj body) ''replayMode'' = JBool True)\<rparr>)))))))))))"

definition asApiKindRegistration :: "js \<Rightarrow> HttpError + ApiKindRegistration" where
  "asApiKindRegistration raw =
     sum_bind (asRecord raw ''api-kind registration'') (\<lambda>body.
     sum_bind (body_string body ''kindName'') (\<lambda>kindName.
     sum_bind (body_string body ''url'') (\<lambda>url.
       Inr \<lparr>ak_kindName = kindName, ak_url = url, ak_registeredAt = None\<rparr>)))"

text \<open>\<^verbatim>\<open>asGatewayHttpRequest\<close>: the arguments and the context of a request to a service.\<close>

definition asGatewayHttpRequest :: "js \<Rightarrow> HttpError + js \<times> js js_map" where
  "asGatewayHttpRequest raw =
     sum_bind (asRecord raw ''gateway HTTP body'') (\<lambda>body.
     sum_bind (asRecord (js_get (JObj body) ''context'') ''gateway HTTP context'') (\<lambda>context1.
       Inr (js_get (JObj body) ''args'', context1)))"

section \<open>Metrics\<close>

definition replace_char :: "char \<Rightarrow> string \<Rightarrow> string \<Rightarrow> string" where
  "replace_char c r s = concat (map (\<lambda>x. if x = c then r else [x]) s)"

definition prometheusLabel :: "string \<Rightarrow> string" where
  "prometheusLabel value =
     replace_char (CHR 0x22) [CHR 0x5C, CHR 0x22]
       (replace_char (CHR 0x0A) [CHR 0x5C, CHR ''n''] (replace_char (CHR 0x5C) [CHR 0x5C, CHR 0x5C] value))"

definition urlServiceLabels :: "string \<Rightarrow> string" where
  "urlServiceLabels kind = ''kind='' @ [CHR 0x22] @ prometheusLabel kind @ [CHR 0x22]"

definition service_lines :: "string \<Rightarrow> (ReferenceServiceMetricsSnapshot \<Rightarrow> int) \<Rightarrow> ReferenceServiceMetricsSnapshot list \<Rightarrow> string list" where
  "service_lines name f services =
     map (\<lambda>s. name @ [CHR 0x7B] @ urlServiceLabels (rm_kindName s) @ [CHR 0x7D, CHR '' ''] @ dec_int (f s)) services"

definition metricsText :: "ApiGatewayMetricsSnapshot \<Rightarrow> ReferenceServiceMetricsSnapshot list \<Rightarrow> string" where
  "metricsText snapshot services =
     join [CHR 0x0A]
      ([''# HELP pax_api_gateway_invocations_total Total c.api.invoke calls handled by the gateway.'',
        ''# TYPE pax_api_gateway_invocations_total counter'',
        ''pax_api_gateway_invocations_total '' @ dec_int (ms_invocationsTotal snapshot),
        ''# HELP pax_api_gateway_invocations_ok_total Total successful c.api.invoke responses.'',
        ''# TYPE pax_api_gateway_invocations_ok_total counter'',
        ''pax_api_gateway_invocations_ok_total '' @ dec_int (ms_okTotal snapshot),
        ''# HELP pax_api_gateway_invocations_error_total Total c.api.invoke failures by substrate error.'',
        ''# TYPE pax_api_gateway_invocations_error_total counter'']
       @ map (\<lambda>(e, n). ''pax_api_gateway_invocations_error_total'' @ [CHR 0x7B] @ ''error='' @ [CHR 0x22] @ invoke_error e
            @ [CHR 0x22, CHR 0x7D, CHR '' ''] @ dec_int n) (ms_errorsTotal snapshot)
       @ [''# HELP pax_url_service_invocations_total Total reference URL service invokes by kind.'',
          ''# TYPE pax_url_service_invocations_total counter'']
       @ service_lines ''pax_url_service_invocations_total'' rm_invocationsTotal services
       @ [''# HELP pax_url_service_errors_total Total reference URL service invokes that returned errors by kind.'',
          ''# TYPE pax_url_service_errors_total counter'']
       @ service_lines ''pax_url_service_errors_total'' rm_errorsTotal services
       @ [''# HELP pax_url_service_duration_ms_sum Total reference URL service handler duration in milliseconds by kind.'',
          ''# TYPE pax_url_service_duration_ms_sum counter'']
       @ service_lines ''pax_url_service_duration_ms_sum'' rm_durationMsSum services)
     @ [CHR 0x0A]"

section \<open>Routes\<close>

text \<open>\<^verbatim>\<open>decodeURIComponent\<close> on bytes; \<open>None\<close> is the \<^verbatim>\<open>URIError\<close> for a malformed escape.\<close>

fun decodeURIComponent :: "string \<Rightarrow> string option" where
  "decodeURIComponent [] = Some []"
| "decodeURIComponent (c # s) =
     (if c \<noteq> CHR ''%'' then map_option ((#) c) (decodeURIComponent s)
      else case s of
        a # b # r \<Rightarrow>
          (case (hex_value a, hex_value b) of
             (Some x, Some y) \<Rightarrow> map_option ((#) (char_of (16 * x + y))) (decodeURIComponent r)
           | _ \<Rightarrow> None)
      | _ \<Rightarrow> None)"

record 'd gateway_deps =
  gd_host :: host
  gd_redis :: "'d redis"
  gd_protocol :: "string \<Rightarrow> string + string"
  gd_fallback :: InMemoryApiKindRegistry
  gd_env :: call_env
  gd_services :: service_env
  gd_referenceServices :: ReferenceServiceConfig

record http_request =
  rq_method :: string
  rq_path :: string
  rq_body :: string
  rq_envelopeVersion :: "string option"

text \<open>The answer: status and body; \<open>\<^verbatim>\<open>/metrics\<close>\<close> answers with text.\<close>

datatype http_response = JsonResponse int js | TextResponse int string

definition readJson :: "host \<Rightarrow> string \<Rightarrow> HttpError + js" where
  "readJson H raw =
     (if js_trim raw = [] then Inr (JObj [])
      else case host_parse H raw of
        None \<Rightarrow> Inl \<lparr>ht_statusCode = 400, ht_code = ''badJson'',
                     ht_detail = JObj [(''message'', JStr ''request body is not valid JSON'')]\<rparr>
      | Some v \<Rightarrow> Inr v)"

definition assertGatewayEnvelopeVersion :: "http_request \<Rightarrow> HttpError + unit" where
  "assertGatewayEnvelopeVersion rq =
     (if rq_envelopeVersion rq = Some (dec_int GATEWAY_ENVELOPE_VERSION) then Inr ()
      else Inl \<lparr>ht_statusCode = 400, ht_code = ''unsupportedGatewayEnvelopeVersion'',
        ht_detail = JObj [(''expected'', JStr (dec_int GATEWAY_ENVELOPE_VERSION)),
          (''received'', str_or_null (rq_envelopeVersion rq))]\<rparr>)"

definition http_error :: "HttpError \<Rightarrow> http_response" where
  "http_error e = JsonResponse (ht_statusCode e)
     (JObj [(''ok'', JBool False), (''error'', JStr (ht_code e)), (''detail'', ht_detail e)])"

definition internal_error :: "string \<Rightarrow> http_response" where
  "internal_error m = JsonResponse 500
     (JObj [(''ok'', JBool False), (''error'', JStr ''internal''), (''detail'', JStr m)])"

definition result_js :: "ApiGatewayInvokeResult \<Rightarrow> js" where
  "result_js r = JObj ((''response'', response_js (gr_response r))
     # (case gr_wireRecord r of None \<Rightarrow> [] | Some w \<Rightarrow> [(''wireRecord'', wire_js w)]))"

definition kinds_path :: string where
  "kinds_path = ''/admin/api-kinds/''"

definition services_path :: string where
  "services_path = ''/_url-services/''"

definition handleRequest ::
  "'r WireRecordStore \<Rightarrow> 'd gateway_deps \<Rightarrow> http_request \<Rightarrow> ReferenceServiceMetrics js_map \<Rightarrow> 'd \<times> 'r ApiGateway
   \<Rightarrow> http_response \<times> ReferenceServiceMetrics js_map \<times> 'd \<times> 'r ApiGateway" where
  "handleRequest W D rq m = (\<lambda>(d, g).
     let H = gd_host D; is = (\<lambda>m p. rq_method rq = m \<and> rq_path rq = p);
         under = (\<lambda>m p. rq_method rq = m \<and> prefix p (rq_path rq))
     in if is ''GET'' ''/health''
        then (JsonResponse 200 (JObj [(''status'', JStr ''ok''), (''runtime'', JStr ''api-gateway''),
                (''mode'', JStr (wire_mode (gw_defaultMode g)))]), m, d, g)
        else if is ''GET'' ''/metrics'' then (TextResponse 200 (metricsText (metricsSnapshot g) (referenceServiceMetricsSnapshot m)), m, d, g)
        else if is ''GET'' ''/admin/api-kinds''
        then (case registry_list H (gd_redis D) (gd_fallback D) d of
                Inl e \<Rightarrow> (internal_error e, m, d, g)
              | Inr rs \<Rightarrow> (JsonResponse 200 (JObj [(''ok'', JBool True), (''kinds'', JArr (map registration_js rs))]), m, d, g))
        else if is ''POST'' ''/admin/api-kinds''
        then (case sum_bind (readJson H (rq_body rq)) asApiKindRegistration of
                Inl e \<Rightarrow> (http_error e, m, d, g)
              | Inr r \<Rightarrow>
                 (case registry_set (gd_protocol D) (gd_redis D) (ce_now (gd_env D)) r d of
                    (Inl message, d') \<Rightarrow> (http_error (badRequest [(''message'', JStr message)]), m, d', g)
                  | (Inr u, d') \<Rightarrow>
                      (JsonResponse 201 (JObj [(''ok'', JBool True), (''registration'', registration_js r)]), m, d', g)))
        else if under ''DELETE'' kinds_path
        then (case decodeURIComponent (drop (length kinds_path) (rq_path rq)) of
                None \<Rightarrow> (internal_error ''URI malformed'', m, d, g)
              | Some kindName \<Rightarrow>
                 (case registry_delete (gd_redis D) kindName d of
                    (deleted, d') \<Rightarrow> (JsonResponse (if deleted then 200 else 404) (JObj [(''ok'', JBool deleted)]), m, d', g)))
        else if is ''POST'' ''/invoke''
        then (case sum_bind (readJson H (rq_body rq)) asDispatchInput of
                Inl e \<Rightarrow> (http_error e, m, d, g)
              | Inr input \<Rightarrow>
                 (case invokeWithMetrics H W
                     ((gd_env D)\<lparr>ce_url := registry_get H (gd_redis D) (gd_fallback D) d (ai_kind input)\<rparr>) input g of
                    (Inl message, g') \<Rightarrow> (internal_error message, m, d, g')
                  | (Inr res, g') \<Rightarrow> (JsonResponse 200 (result_js res), m, d, g')))
        else if under ''POST'' services_path
        then (case sum_bind (assertGatewayEnvelopeVersion rq) (\<lambda>_. sum_bind (readJson H (rq_body rq)) asGatewayHttpRequest) of
                Inl e \<Rightarrow> (http_error e, m, d, g)
              | Inr (args, context1) \<Rightarrow>
                 (case handleReferenceService (gd_services D) (gd_referenceServices D) (rq_path rq) args m of
                    (Inl message, m') \<Rightarrow> (internal_error message, m', d, g)
                  | (Inr result, m') \<Rightarrow>
                      (JsonResponse (if rs_handled result then rs_statusCode result else 404) (rs_body result), m', d, g)))
        else (JsonResponse 404 (JObj [(''ok'', JBool False), (''error'', JStr ''notFound'')]), m, d, g))"

end
