(* ===== verification/ControlHistory.thy ===== *)
theory ControlHistory
  imports Gateway
begin

text \<open>
  Reading the history file (\<^verbatim>\<open>orchestration/control-plane/src/history.mts\<close>): rows, pages, sessions and API calls.
  A row is the value its line parses to. \<open>dateParse\<close> is \<^verbatim>\<open>Date.parse\<close>, \<open>None\<close> for \<^verbatim>\<open>NaN\<close>; a file is \<open>None\<close> when
  it does not exist.

  The main results: the pages of a query are the matching rows, once each and in order; a player is
  listed as connected exactly when the last row of the session is the one that opened it.
\<close>

section \<open>Rows\<close>

definition is_str :: "js \<Rightarrow> bool" where
  "is_str v \<longleftrightarrow> js_string v \<noteq> None"

definition history_line :: "host \<Rightarrow> string \<Rightarrow> js list" where
  "history_line H line =
     (let trimmed = js_trim line in
      if trimmed = [] then []
      else case host_parse H trimmed of
        None \<Rightarrow> []
      | Some parsed \<Rightarrow>
          if is_str (js_get parsed ''ts'') \<and> is_str (js_get parsed ''shardId'') \<and> is_str (js_get parsed ''event'') then [parsed] else [])"

definition readHistory :: "host \<Rightarrow> string option \<Rightarrow> js list" where
  "readHistory H file = (case file of None \<Rightarrow> [] | Some raw \<Rightarrow> concat (map (history_line H) (split_on (CHR 0x0A) raw)))"

record HistoryQuery =
  hq_event :: "string option"
  hq_gameId :: "string option"
  hq_playerId :: "string option"
  hq_sessionId :: "string option"
  hq_shardId :: "string option"
  hq_from :: "string option"
  hq_to :: "string option"
  hq_cursor :: "int option"
  hq_limit :: int

text \<open>A comparison in which \<^verbatim>\<open>undefined\<close> was ruled out and \<^verbatim>\<open>NaN\<close> is on either side is false.\<close>

definition ms_less :: "int option \<Rightarrow> int option \<Rightarrow> bool" where
  "ms_less x y = (case (x, y) of (Some a, Some b) \<Rightarrow> a < b | _ \<Rightarrow> False)"

definition bound_ms :: "(string \<Rightarrow> int option) \<Rightarrow> string option \<Rightarrow> int option" where
  "bound_ms dateParse s = (case truthy s of None \<Rightarrow> None | Some t \<Rightarrow> dateParse t)"

definition field_is :: "js \<Rightarrow> string \<Rightarrow> string option \<Rightarrow> bool" where
  "field_is e k q = (case truthy q of None \<Rightarrow> True | Some s \<Rightarrow> js_get e k = JStr s)"

definition event_ms :: "(string \<Rightarrow> int option) \<Rightarrow> js \<Rightarrow> int option" where
  "event_ms dateParse e = (case js_string (js_get e ''ts'') of None \<Rightarrow> None | Some s \<Rightarrow> dateParse s)"

definition matchesHistory :: "(string \<Rightarrow> int option) \<Rightarrow> HistoryQuery \<Rightarrow> int option \<Rightarrow> int option \<Rightarrow> js \<Rightarrow> bool" where
  "matchesHistory dateParse q fromMs toMs e \<longleftrightarrow>
     field_is e ''event'' (hq_event q) \<and> field_is e ''gameId'' (hq_gameId q) \<and> field_is e ''playerId'' (hq_playerId q)
     \<and> field_is e ''sessionId'' (hq_sessionId q) \<and> field_is e ''shardId'' (hq_shardId q)
     \<and> \<not> ms_less (event_ms dateParse e) fromMs \<and> \<not> ms_less toMs (event_ms dateParse e)"

text \<open>The loop of \<^verbatim>\<open>queryHistory\<close> from row \<open>index\<close> on.\<close>

fun history_scan :: "(js \<Rightarrow> bool) \<Rightarrow> int \<Rightarrow> nat \<Rightarrow> js list \<Rightarrow> js list \<Rightarrow> js list \<times> nat option" where
  "history_scan matches limit index [] out = (out, None)"
| "history_scan matches limit index (e # es) out =
     (if \<not> matches e then history_scan matches limit (Suc index) es out
      else if int (length out) \<ge> limit then (out, Some index)
      else history_scan matches limit (Suc index) es (out @ [e]))"

definition queryHistory :: "host \<Rightarrow> (string \<Rightarrow> int option) \<Rightarrow> string option \<Rightarrow> HistoryQuery \<Rightarrow> js list \<times> nat option" where
  "queryHistory H dateParse file q =
     (let events = readHistory H file;
          start = nat (max 0 (default 0 (hq_cursor q)))
      in history_scan (matchesHistory dateParse q (bound_ms dateParse (hq_from q)) (bound_ms dateParse (hq_to q)))
           (hq_limit q) start (drop start events) [])"

section \<open>Sessions\<close>

text \<open>\<open>sv_disconnectedAt\<close> is \<open>None\<close> for a session that is open.\<close>

record SessionRecordView =
  sv_sessionId :: string
  sv_playerId :: string
  sv_gameId :: string
  sv_connectedAt :: "int option"
  sv_disconnectedAt :: "int option option"
  sv_reason :: "string option"
  sv_shardId :: string
  sv_jwtClaims :: js

definition session_step :: "(string \<Rightarrow> int option) \<Rightarrow> js \<Rightarrow> SessionRecordView js_map \<Rightarrow> SessionRecordView js_map" where
  "session_step dateParse e sessions =
     (case (js_string (js_get e ''sessionId''), js_string (js_get e ''playerId''), js_string (js_get e ''gameId'')) of
        (Some sid, Some pid, Some gid) \<Rightarrow>
          if js_get e ''event'' = JStr ''session.opened''
          then map_set sid \<lparr>sv_sessionId = sid, sv_playerId = pid, sv_gameId = gid,
                 sv_connectedAt = (case js_int (js_get e ''connectedAt'') of Some n \<Rightarrow> Some n | None \<Rightarrow> event_ms dateParse e),
                 sv_disconnectedAt = None, sv_reason = None, sv_shardId = default [] (js_string (js_get e ''shardId'')),
                 sv_jwtClaims = js_get e ''jwtClaims''\<rparr> sessions
          else if js_get e ''event'' = JStr ''session.closed''
          then let existing = map_get sessions sid in
               map_set sid \<lparr>sv_sessionId = sid, sv_playerId = pid, sv_gameId = gid,
                 sv_connectedAt = (case existing of Some s \<Rightarrow> sv_connectedAt s | None \<Rightarrow> event_ms dateParse e),
                 sv_disconnectedAt = Some (event_ms dateParse e), sv_reason = js_string (js_get e ''reason''),
                 sv_shardId = (case existing of Some s \<Rightarrow> sv_shardId s | None \<Rightarrow> default [] (js_string (js_get e ''shardId''))),
                 sv_jwtClaims = (case existing of Some s \<Rightarrow> sv_jwtClaims s | None \<Rightarrow> JUndef)\<rparr> sessions
          else sessions
      | _ \<Rightarrow> sessions)"

definition sessionMap :: "(string \<Rightarrow> int option) \<Rightarrow> js list \<Rightarrow> SessionRecordView js_map" where
  "sessionMap dateParse events = fold (session_step dateParse) events []"

record SessionQuery =
  sq_from :: "string option"
  sq_to :: "string option"
  sq_playerId :: "string option"

definition matchesSession :: "(string \<Rightarrow> int option) \<Rightarrow> SessionQuery \<Rightarrow> SessionRecordView \<Rightarrow> bool" where
  "matchesSession dateParse q s \<longleftrightarrow>
     (case truthy (sq_playerId q) of None \<Rightarrow> True | Some p \<Rightarrow> sv_playerId s = p)
     \<and> \<not> (case sv_disconnectedAt s of None \<Rightarrow> False | Some d \<Rightarrow> ms_less d (bound_ms dateParse (sq_from q)))
     \<and> \<not> ms_less (bound_ms dateParse (sq_to q)) (sv_connectedAt s)"

text \<open>
  Sessions in the order of their start. When a start is no number the comparison is inconsistent and
  the order up to the engine; here such a session comes first.
\<close>

definition no_session_query :: SessionQuery where
  "no_session_query = \<lparr>sq_from = None, sq_to = None, sq_playerId = None\<rparr>"

definition by_start :: "SessionRecordView list \<Rightarrow> SessionRecordView list" where
  "by_start ss = filter (\<lambda>s. sv_connectedAt s = None) ss
     @ sort_key (\<lambda>s. default 0 (sv_connectedAt s)) (filter (\<lambda>s. sv_connectedAt s \<noteq> None) ss)"

definition sessionsForGame ::
  "host \<Rightarrow> (string \<Rightarrow> int option) \<Rightarrow> string option \<Rightarrow> string \<Rightarrow> SessionQuery \<Rightarrow> SessionRecordView list" where
  "sessionsForGame H dateParse file gameId q =
     by_start (filter (matchesSession dateParse q)
       (filter (\<lambda>s. sv_gameId s = gameId) (map snd (sessionMap dateParse (readHistory H file)))))"

definition connectedPlayersForGame ::
  "host \<Rightarrow> (string \<Rightarrow> int option) \<Rightarrow> string option \<Rightarrow> string \<Rightarrow> SessionRecordView list" where
  "connectedPlayersForGame H dateParse file gameId =
     filter (\<lambda>s. sv_disconnectedAt s = None) (sessionsForGame H dateParse file gameId no_session_query)"

definition sessionById :: "host \<Rightarrow> (string \<Rightarrow> int option) \<Rightarrow> string option \<Rightarrow> string \<Rightarrow> SessionRecordView option" where
  "sessionById H dateParse file sessionId = map_get (sessionMap dateParse (readHistory H file)) sessionId"

definition lastActivityAtForGame :: "host \<Rightarrow> (string \<Rightarrow> int option) \<Rightarrow> string option \<Rightarrow> string \<Rightarrow> int option" where
  "lastActivityAtForGame H dateParse file gameId =
     fold (\<lambda>e last. if js_get e ''gameId'' \<noteq> JStr gameId then last
                    else case event_ms dateParse e of None \<Rightarrow> last | Some at \<Rightarrow> Some at)
       (readHistory H file) None"

section \<open>API calls\<close>

definition stringValue :: "js \<Rightarrow> string option" where
  "stringValue v = truthy (js_string v)"

definition numberValue :: "js \<Rightarrow> int option" where
  "numberValue v = js_int v"

definition apiInvokeErrorValue :: "js \<Rightarrow> js" where
  "apiInvokeErrorValue v =
     (if v \<in> {JStr ''kindUnknown'', JStr ''providerError'', JStr ''apiRateExceeded'', JStr ''replayCoverageGap''} then v else JUndef)"

definition wire_row :: "string \<Rightarrow> js \<Rightarrow> js list" where
  "wire_row gameId e =
     (case (stringValue (js_get e ''fingerprint''), stringValue (js_get e ''rawOutbound''), stringValue (js_get e ''rawInbound''),
            numberValue (js_get e ''statusCode'')) of
        (Some fingerprint, Some rawOutbound, Some rawInbound, Some statusCode) \<Rightarrow>
          [JObj [(''event'', JStr ''api.invoke''),
             (''requestId'', JStr (default (default ''history'' (stringValue (js_get e ''requestId'')))
                (stringValue (js_get e ''gatewayRequestId'')))),
             (''parentRequestId'', opt_str (stringValue (js_get e ''requestId''))), (''fingerprint'', JStr fingerprint),
             (''mode'', JStr (if js_get e ''mode'' = JStr ''replay'' then ''replay'' else ''live'')),
             (''kind'', JStr (default ''unknown'' (stringValue (js_get e ''kind'')))), (''gameId'', JStr gameId),
             (''runId'', JStr (default ''unknown'' (stringValue (js_get e ''runId'')))),
             (''traceId'', opt_str (stringValue (js_get e ''traceId''))), (''rawOutbound'', JStr rawOutbound),
             (''rawInbound'', JStr rawInbound), (''statusCode'', JNum statusCode),
             (''error'', apiInvokeErrorValue (js_get e ''error'')),
             (''recordedAt'', (case stringValue (js_get e ''recordedAt'') of Some s \<Rightarrow> JStr s | None \<Rightarrow> js_get e ''ts''))]]
      | _ \<Rightarrow> [])"

text \<open>\<^verbatim>\<open>slice(-limit)\<close> for a positive limit.\<close>

definition last_n :: "int \<Rightarrow> 'a list \<Rightarrow> 'a list" where
  "last_n limit xs = drop (length xs - nat limit) xs"

definition apiWireRecordsFromHistory :: "host \<Rightarrow> string option \<Rightarrow> string \<Rightarrow> int \<Rightarrow> js list" where
  "apiWireRecordsFromHistory H file gameId limit =
     (if limit \<le> 0 then []
      else last_n limit (concat (map (wire_row gameId)
        (filter (\<lambda>e. js_get e ''event'' = JStr ''api.invoke.wire'' \<and> js_get e ''gameId'' = JStr gameId) (readHistory H file)))))"

definition jsonl_row :: "host \<Rightarrow> string \<Rightarrow> string \<Rightarrow> js list" where
  "jsonl_row H gameId line =
     (let trimmed = js_trim line in
      if trimmed = [] then []
      else case host_parse H trimmed of
        None \<Rightarrow> []
      | Some parsed \<Rightarrow>
          if js_get parsed ''event'' = JStr ''api.invoke'' \<and> js_get parsed ''gameId'' = JStr gameId
             \<and> is_str (js_get parsed ''fingerprint'') \<and> is_str (js_get parsed ''rawOutbound'') \<and> is_str (js_get parsed ''rawInbound'')
          then [parsed] else [])"

definition apiWireRecordsFromJsonl :: "host \<Rightarrow> string option \<Rightarrow> string \<Rightarrow> int \<Rightarrow> js list" where
  "apiWireRecordsFromJsonl H file gameId limit =
     (if limit \<le> 0 then []
      else case file of
        None \<Rightarrow> []
      | Some raw \<Rightarrow> last_n limit (concat (map (jsonl_row H gameId) (split_on (CHR 0x0A) raw))))"

definition apiWireRecordsForGame :: "host \<Rightarrow> string option \<Rightarrow> string option \<Rightarrow> string \<Rightarrow> int \<Rightarrow> js list" where
  "apiWireRecordsForGame H recordsFile historyFile gameId limit =
     (let historyRecords = apiWireRecordsFromHistory H historyFile gameId limit
      in if historyRecords \<noteq> [] then historyRecords else apiWireRecordsFromJsonl H recordsFile gameId limit)"

section \<open>Pages\<close>

text \<open>A client that follows \<^verbatim>\<open>nextCursor\<close>: the pages it gets, until there is no next one.\<close>

fun history_pages :: "nat \<Rightarrow> host \<Rightarrow> (string \<Rightarrow> int option) \<Rightarrow> string option \<Rightarrow> HistoryQuery \<Rightarrow> js list list option" where
  "history_pages 0 H dateParse file q = None"
| "history_pages (Suc n) H dateParse file q =
     (case queryHistory H dateParse file q of
        (page, None) \<Rightarrow> Some [page]
      | (page, Some c) \<Rightarrow> map_option ((#) page) (history_pages n H dateParse file (q\<lparr>hq_cursor := Some (int c)\<rparr>)))"

lemma scan_spec:
  assumes "int (length out) \<le> limit" and "history_scan matches limit index es out = (page, next)"
  shows "(next = None \<longrightarrow> page = out @ filter matches es)
    \<and> (\<forall>c. next = Some c \<longrightarrow> index \<le> c \<and> c < index + length es
        \<and> out @ filter matches es = page @ filter matches (drop (c - index) es)
        \<and> (int (length out) < limit \<longrightarrow> index < c))
    \<and> int (length page) \<le> limit"
  using assms
proof (induction es arbitrary: index out)
  case (Cons e es)
  show ?case
  proof (cases "matches e")
    case False
    then have "history_scan matches limit (Suc index) es out = (page, next)" using Cons.prems(2) by simp
    from Cons.IH [OF Cons.prems(1) this] False show ?thesis by (auto simp: Suc_diff_le drop_Cons' Suc_le_eq)
  next
    case True
    show ?thesis
    proof (cases "int (length out) \<ge> limit")
      case True
      then show ?thesis using Cons.prems \<open>matches e\<close> by auto
    next
      case False
      then have "history_scan matches limit (Suc index) es (out @ [e]) = (page, next)" using Cons.prems(2) \<open>matches e\<close> by simp
      from Cons.IH [OF _ this] False \<open>matches e\<close> show ?thesis by (auto simp: drop_Cons' Suc_le_eq)
    qed
  qed
qed auto

lemma pages_from:
  assumes "0 < hq_limit q" and "hq_cursor q = Some (int c) \<or> hq_cursor q = None \<and> c = 0"
    and "length (readHistory H file) - c < n"
  shows "\<exists>ps. history_pages n H dateParse file q = Some ps
    \<and> concat ps = filter (matchesHistory dateParse q (bound_ms dateParse (hq_from q)) (bound_ms dateParse (hq_to q)))
        (drop c (readHistory H file))
    \<and> (\<forall>p \<in> set ps. int (length p) \<le> hq_limit q)"
  using assms
proof (induction n arbitrary: q c)
  case (Suc n)
  let ?m = "matchesHistory dateParse q (bound_ms dateParse (hq_from q)) (bound_ms dateParse (hq_to q))"
  let ?es = "drop c (readHistory H file)"
  obtain page nxt where r: "history_scan ?m (hq_limit q) c ?es [] = (page, nxt)" by fastforce
  have q: "queryHistory H dateParse file q = (page, nxt)"
    using Suc.prems(2) r by (auto simp: queryHistory_def)
  note s = scan_spec [OF _ r, simplified]
  show ?case
  proof (cases nxt)
    case None
    then show ?thesis using s Suc.prems(1) q by auto
  next
    case (Some k)
    have k: "c < k" "k < c + length ?es" "filter ?m ?es = page @ filter ?m (drop (k - c) ?es)"
      using s Some Suc.prems(1) by auto
    have "\<exists>ps. history_pages n H dateParse file (q\<lparr>hq_cursor := Some (int k)\<rparr>) = Some ps
      \<and> concat ps = filter (matchesHistory dateParse (q\<lparr>hq_cursor := Some (int k)\<rparr>) (bound_ms dateParse (hq_from q)) (bound_ms dateParse (hq_to q)))
          (drop k (readHistory H file)) \<and> (\<forall>p \<in> set ps. int (length p) \<le> hq_limit q)"
      using Suc.IH [of "q\<lparr>hq_cursor := Some (int k)\<rparr>" k] Suc.prems k by auto
    moreover have "matchesHistory dateParse (q\<lparr>hq_cursor := Some (int k)\<rparr>) = matchesHistory dateParse q"
      by (simp add: matchesHistory_def fun_eq_iff)
    ultimately show ?thesis using k s q Some Suc.prems(1) by auto
  qed
qed simp

text \<open>
  C35: a client that asks for the history page by page, following \<^verbatim>\<open>nextCursor\<close>, gets to the end after at most
  one request per row and one more; its pages, in order, are exactly the rows that match the query, each
  once and none left out, and no page is longer than the limit.
\<close>

theorem history_pages_complete:
  assumes "0 < hq_limit q" and "hq_cursor q = None"
  shows "\<exists>ps. history_pages (Suc (length (readHistory H file))) H dateParse file q = Some ps
    \<and> concat ps = filter (matchesHistory dateParse q (bound_ms dateParse (hq_from q)) (bound_ms dateParse (hq_to q))) (readHistory H file)
    \<and> (\<forall>p \<in> set ps. int (length p) \<le> hq_limit q)"
  using pages_from [OF assms(1), where c = 0 and n = "Suc (length (readHistory H file))"] assms(2) by simp

definition game_query :: HistoryQuery where
  "game_query = \<lparr>hq_event = None, hq_gameId = Some ''g'', hq_playerId = None, hq_sessionId = None, hq_shardId = None,
     hq_from = None, hq_to = None, hq_cursor = None, hq_limit = 1\<rparr>"

definition game_row :: "string \<Rightarrow> string \<Rightarrow> js" where
  "game_row event g = JObj [(''gameId'', JStr g), (''ts'', JStr ''t''), (''shardId'', JStr ''s''), (''event'', JStr event)]"

definition three_rows :: string where
  "three_rows = concat (map (\<lambda>e. json_text e @ [CHR 0x0A]) [game_row ''a'' ''g'', game_row ''b'' ''h'', game_row ''c'' ''g''])"

lemma three_rows_read: "readHistory plain_host (Some three_rows) = [game_row ''a'' ''g'', game_row ''b'' ''h'', game_row ''c'' ''g'']"
  by code_simp

theorem history_pages_complete_witness:
  "\<exists>ps. history_pages 4 plain_host (\<lambda>t. None) (Some three_rows) game_query = Some ps
    \<and> concat ps = [game_row ''a'' ''g'', game_row ''c'' ''g''] \<and> (\<forall>p \<in> set ps. length p \<le> 1)"
proof -
  have q: "0 < hq_limit game_query" "hq_cursor game_query = None" by (simp_all add: game_query_def)
  have l: "Suc (length (readHistory plain_host (Some three_rows))) = 4" by (simp add: three_rows_read)
  have f: "filter (matchesHistory (\<lambda>t. None) game_query x y) (readHistory plain_host (Some three_rows)) = [game_row ''a'' ''g'', game_row ''c'' ''g'']" for x y
    unfolding three_rows_read
    by (simp add: matchesHistory_def game_query_def field_is_def game_row_def event_ms_def ms_less_def split: option.splits)
  show ?thesis
    using history_pages_complete [OF q, of plain_host "Some three_rows" "\<lambda>t. None"] unfolding l f
    by (auto simp: game_query_def)
qed

section \<open>Connected players\<close>

text \<open>The rows of a session: those that open or close it and name its player and game.\<close>

definition session_row :: "js \<Rightarrow> string \<Rightarrow> bool" where
  "session_row e sid \<longleftrightarrow> js_get e ''sessionId'' = JStr sid \<and> is_str (js_get e ''playerId'') \<and> is_str (js_get e ''gameId'')
     \<and> (js_get e ''event'' = JStr ''session.opened'' \<or> js_get e ''event'' = JStr ''session.closed'')"

definition last_row :: "js list \<Rightarrow> string \<Rightarrow> js option" where
  "last_row rows sid = List.find (\<lambda>e. session_row e sid) (rev rows)"

lemma js_string_Some: "js_string v = Some s \<longleftrightarrow> v = JStr s"
  by (cases v) auto

lemma is_str_JStr: "is_str v \<longleftrightarrow> (\<exists>s. v = JStr s)"
  by (auto simp: is_str_def js_string_Some)

lemma last_row_snoc: "last_row (rows @ [e]) sid = (if session_row e sid then Some e else last_row rows sid)"
  by (simp add: last_row_def)

lemma sessionMap_snoc: "sessionMap dp (rows @ [e]) = session_step dp e (sessionMap dp rows)"
  by (simp add: sessionMap_def)

lemma session_step_other: "\<not> session_row e sid \<Longrightarrow> map_get (session_step dp e m) sid = map_get m sid"
  by (auto simp: session_step_def session_row_def is_str_def js_string_Some update_conv' Let_def split: option.splits)

lemma session_step_row:
  "session_row e sid \<Longrightarrow> \<exists>s. map_get (session_step dp e m) sid = Some s \<and> sv_sessionId s = sid
    \<and> js_get e ''gameId'' = JStr (sv_gameId s) \<and> (sv_disconnectedAt s = None \<longleftrightarrow> js_get e ''event'' = JStr ''session.opened'')"
  by (auto simp: session_step_def session_row_def is_str_JStr update_conv' Let_def)

lemma sessionMap_last:
  "(\<forall>s. map_get (sessionMap dp rows) sid = Some s \<longrightarrow> sv_sessionId s = sid \<and>
      (\<exists>e. last_row rows sid = Some e \<and> js_get e ''gameId'' = JStr (sv_gameId s)
        \<and> (sv_disconnectedAt s = None \<longleftrightarrow> js_get e ''event'' = JStr ''session.opened'')))
   \<and> (last_row rows sid \<noteq> None \<longrightarrow> map_get (sessionMap dp rows) sid \<noteq> None)"
proof (induction rows rule: rev_induct)
  case Nil
  then show ?case by (simp add: sessionMap_def last_row_def)
next
  case (snoc e rows)
  show ?case
  proof (cases "session_row e sid")
    case True
    then show ?thesis using session_step_row [OF True, of dp "sessionMap dp rows"] by (auto simp: sessionMap_snoc last_row_snoc)
  next
    case False
    then show ?thesis using snoc.IH by (simp add: sessionMap_snoc last_row_snoc session_step_other)
  qed
qed

lemma sessionMap_wf: "map_wf (sessionMap dp rows)"
proof (induction rows rule: rev_induct)
  case (snoc e rows)
  then show ?case by (auto simp: sessionMap_snoc session_step_def Let_def distinct_update split: option.splits)
qed (simp add: sessionMap_def)

lemma set_by_start [simp]: "set (by_start ss) = set ss"
  by (auto simp: by_start_def)

lemma no_query_matches [simp]: "matchesSession dp no_session_query s"
  by (simp add: matchesSession_def no_session_query_def bound_ms_def ms_less_def split: option.splits)

text \<open>
  C36: a session is listed among the connected players of a game exactly when the last row of the
  history that opens or closes this session opens it, and names this game.
\<close>

theorem connected_players_exact:
  "(\<exists>s \<in> set (connectedPlayersForGame H dateParse file gameId). sv_sessionId s = sid)
    \<longleftrightarrow> (\<exists>e. last_row (readHistory H file) sid = Some e \<and> js_get e ''event'' = JStr ''session.opened''
           \<and> js_get e ''gameId'' = JStr gameId)"
proof -
  let ?m = "sessionMap dateParse (readHistory H file)"
  note last = sessionMap_last [of dateParse "readHistory H file"]
  have mem: "s \<in> set (map snd ?m) \<longleftrightarrow> map_get ?m (sv_sessionId s) = Some s" for s
  proof
    assume "s \<in> set (map snd ?m)"
    then obtain k where "(k, s) \<in> set ?m" by auto
    then have k: "map_get ?m k = Some s" using sessionMap_wf by (simp add: map_of_is_SomeI)
    then have "sv_sessionId s = k" using last by blast
    with k show "map_get ?m (sv_sessionId s) = Some s" by simp
  next
    assume "map_get ?m (sv_sessionId s) = Some s"
    then show "s \<in> set (map snd ?m)" by (force dest: map_of_SomeD)
  qed
  have "(\<exists>s \<in> set (connectedPlayersForGame H dateParse file gameId). sv_sessionId s = sid)
      \<longleftrightarrow> (\<exists>s. map_get ?m sid = Some s \<and> sv_gameId s = gameId \<and> sv_disconnectedAt s = None)"
    using mem last by (auto simp: connectedPlayersForGame_def sessionsForGame_def) blast+
  also have "\<dots> \<longleftrightarrow> (\<exists>e. last_row (readHistory H file) sid = Some e \<and> js_get e ''event'' = JStr ''session.opened''
           \<and> js_get e ''gameId'' = JStr gameId)"
    using last [of sid] by (cases "map_get ?m sid") auto
  finally show ?thesis .
qed

end
