(* ===== verification/BrokerAdapters.thy ===== *)
theory BrokerAdapters
  imports Redis BrokerState
begin

text \<open>
  The adapters that connect a Broker to Redis and to the API gateway
  (\<^verbatim>\<open>runtime/broker/src/adapters.mts\<close>): the directory of shards and active games, the allowed
  players, the queue of host events, the resolver of bundles, the gateway's client and the
  history file. Redis is the interface of \<open>Redis\<close>; the object store of bundle sources and the
  HTTP client are parameters.
\<close>

section \<open>The directory\<close>

record RedisBrokerDirectoryOptions =
  do_flyMachineId :: "string option"
  do_publicUrl :: "string option"
  do_wsPath :: "string option"

definition shard_status :: "ShardStatus \<Rightarrow> string" where
  "shard_status s =
     (case s of ShardHealthy \<Rightarrow> ''healthy'' | ShardDraining \<Rightarrow> ''draining'' | ShardDrained \<Rightarrow> ''drained''
      | ShardUnhealthy \<Rightarrow> ''unhealthy'')"

definition opt_field :: "string \<Rightarrow> string option \<Rightarrow> js js_map" where
  "opt_field k v = (case v of None \<Rightarrow> [] | Some s \<Rightarrow> [(k, JStr s)])"

text \<open>The text of a shard's registration; \<open>machine\<close> is the option or the environment's \<^verbatim>\<open>FLY_MACHINE_ID\<close>.\<close>

definition capacity_js :: "RedisBrokerDirectoryOptions \<Rightarrow> string option \<Rightarrow> BrokerCapacityRow \<Rightarrow> js" where
  "capacity_js O1 machine row =
     JObj [(''shardId'', JStr (cr_shardId row)), (''url'', JStr (cr_url row)),
       (''status'', JStr (shard_status (cr_status row))), (''healthy'', JBool (cr_healthy row)),
       (''acceptingWakes'', JBool (cr_acceptingWakes row)),
       (''runtimeContractsSupported'', JArr [JNum (fst (cr_runtimeContractsSupported row)), JNum (snd (cr_runtimeContractsSupported row))]),
       (''activeGames'', JNum (cr_activeGames row)), (''currentGameCount'', JNum (cr_currentGameCount row)),
       (''maxGames'', JNum (cr_maxGames row)), (''lastSeenAt'', JNum (cr_lastSeenAt row)),
       (''broker'', JObj ((''wsPath'', JStr (default ''/gateway'' (do_wsPath O1)))
          # opt_field ''flyMachineId'' machine @ opt_field ''publicUrl'' (do_publicUrl O1)))]"

definition dir_publishCapacity ::
  "'d redis \<Rightarrow> RedisBrokerDirectoryOptions \<Rightarrow> string option \<Rightarrow> BrokerCapacityRow \<Rightarrow> 'd \<Rightarrow> 'd" where
  "dir_publishCapacity R O1 environment row d =
     rd_setEx R (SHARD_REGISTRY_KEY_PREFIX @ cr_shardId row)
       (json_text (capacity_js O1 (case do_flyMachineId O1 of None \<Rightarrow> environment | Some m \<Rightarrow> Some m) row))
       SHARD_REGISTRY_TTL_SECONDS d"

definition dir_removeShard :: "'d redis \<Rightarrow> string \<Rightarrow> 'd \<Rightarrow> 'd" where
  "dir_removeShard R shardId d = snd (rd_del R [SHARD_REGISTRY_KEY_PREFIX @ shardId] d)"

definition active_key :: "string \<Rightarrow> string" where
  "active_key gameId = ACTIVE_GAMES_KEY_PREFIX @ gameId"

definition claim_js :: "RedisBrokerDirectoryOptions \<Rightarrow> BrokerActiveGameClaim \<Rightarrow> js" where
  "claim_js O1 c =
     JObj ([(''gameId'', JStr (ac_gameId c)), (''shardId'', JStr (ac_shardId c)), (''placedAt'', JNum (ac_placedAt c)),
        (''refreshedAt'', JNum (ac_refreshedAt c)), (''generation'', JNum (ac_generation c)),
        (''brokerId'', JStr (ac_shardId c))] @ opt_field ''flyMachineId'' (do_flyMachineId O1))"

definition claimActiveGame ::
  "host \<Rightarrow> 'd redis \<Rightarrow> RedisBrokerDirectoryOptions \<Rightarrow> BrokerActiveGameClaim \<Rightarrow> 'd \<Rightarrow> (string + unit) \<times> 'd" where
  "claimActiveGame H R O1 c d =
     (let key = active_key (ac_gameId c); placement = json_text (claim_js O1 c);
          (created, d1) = rd_setNx R key placement (Some ACTIVE_GAME_TTL_SECONDS) d
      in if created then (Inr (), d1)
         else case getJson H R d1 key of
           Inl e \<Rightarrow> (Inl e, d1)
         | Inr existing \<Rightarrow>
            let holder = (case existing of None \<Rightarrow> JUndef | Some v \<Rightarrow> js_get v ''shardId'') in
            if existing \<noteq> None \<and> holder = JStr (ac_shardId c)
               \<and> js_get (the existing) ''generation'' = JNum (ac_generation c)
            then (Inr (), snd (rd_setXx R key placement ACTIVE_GAME_TTL_SECONDS d1))
            else (Inl (''game '' @ ac_gameId c @ '' is already claimed by ''
                    @ (case holder of JStr s \<Rightarrow> s | _ \<Rightarrow> ''unknown shard'')), d1))"

text \<open>\<^verbatim>\<open>releaseActiveGame\<close> in two halves: what it reads decides, and the deletion follows later.\<close>

definition release_check :: "host \<Rightarrow> 'd redis \<Rightarrow> string \<Rightarrow> int option \<Rightarrow> 'd \<Rightarrow> string + bool" where
  "release_check H R gameId generation d =
     (case getJson H R d (active_key gameId) of
        Inl e \<Rightarrow> Inl e
      | Inr None \<Rightarrow> Inr False
      | Inr (Some v) \<Rightarrow>
         Inr (v \<noteq> JNull \<and> (case generation of None \<Rightarrow> True | Some n \<Rightarrow> js_get v ''generation'' = JNum n)))"

definition releaseActiveGame :: "host \<Rightarrow> 'd redis \<Rightarrow> string \<Rightarrow> int option \<Rightarrow> 'd \<Rightarrow> (string + unit) \<times> 'd" where
  "releaseActiveGame H R gameId generation d =
     (case release_check H R gameId generation d of
        Inl e \<Rightarrow> (Inl e, d)
      | Inr mine \<Rightarrow> (Inr (), if mine then snd (rd_del R [active_key gameId] d) else d))"

definition placement_of_js :: "js \<Rightarrow> ActiveGamePlacement" where
  "placement_of_js v =
     \<lparr>ap_gameId = js_text (js_get v ''gameId''), ap_shardId = js_text (js_get v ''shardId''),
      ap_placedAt = js_number (js_get v ''placedAt''), ap_refreshedAt = js_number (js_get v ''refreshedAt''),
      ap_generation = js_number (js_get v ''generation''), ap_brokerId = js_string (js_get v ''brokerId''),
      ap_flyMachineId = js_string (js_get v ''flyMachineId'')\<rparr>"

definition lookupActiveGame :: "host \<Rightarrow> 'd redis \<Rightarrow> string \<Rightarrow> 'd \<Rightarrow> string + ActiveGamePlacement option" where
  "lookupActiveGame H R gameId d =
     (case getJson H R d (active_key gameId) of Inl e \<Rightarrow> Inl e | Inr v \<Rightarrow> Inr (map_option placement_of_js v))"

section \<open>Players and host events\<close>

definition allowed_has :: "'d redis \<Rightarrow> string \<Rightarrow> string \<Rightarrow> 'd \<Rightarrow> bool" where
  "allowed_has R gameId playerId d \<longleftrightarrow> playerId \<in> set (rd_smembers R d (ALLOWED_PLAYERS_KEY_PREFIX @ gameId))"

definition allowed_list :: "'d redis \<Rightarrow> string \<Rightarrow> 'd \<Rightarrow> string list" where
  "allowed_list R gameId d = sort (rd_smembers R d (ALLOWED_PLAYERS_KEY_PREFIX @ gameId))"

definition event_js :: "HostEventRecord \<Rightarrow> js" where
  "event_js r =
     JObj [(''eventId'', JStr (he_eventId r)), (''gameId'', JStr (he_gameId r)), (''eventType'', JStr (he_eventType r)),
       (''payload'', he_payload r), (''wakeOnDelivery'', JBool (he_wakeOnDelivery r)),
       (''receivedAt'', JNum (he_receivedAt r)), (''deliveryAttempts'', JNum (he_deliveryAttempts r)),
       (''expiresAt'', JNum (he_expiresAt r))]"

definition event_of_js :: "js \<Rightarrow> HostEventRecord" where
  "event_of_js v =
     \<lparr>he_gameId = js_text (js_get v ''gameId''), he_eventId = js_text (js_get v ''eventId''),
      he_eventType = js_text (js_get v ''eventType''), he_payload = js_get v ''payload'',
      he_receivedAt = js_number (js_get v ''receivedAt''), he_deliveryAttempts = js_number (js_get v ''deliveryAttempts''),
      he_wakeOnDelivery = (js_get v ''wakeOnDelivery'' = JBool True), he_expiresAt = js_number (js_get v ''expiresAt'')\<rparr>"

definition drained :: "host \<Rightarrow> string \<Rightarrow> HostEventRecord option" where
  "drained H raw =
     (case host_parse H raw of
        None \<Rightarrow> None
      | Some JNull \<Rightarrow> None
      | Some v \<Rightarrow> (let r = event_of_js v in Some (r\<lparr>he_deliveryAttempts := he_deliveryAttempts r + 1\<rparr>)))"

definition drain :: "host \<Rightarrow> 'd redis \<Rightarrow> nat \<Rightarrow> string \<Rightarrow> 'd \<Rightarrow> HostEventRecord list \<times> 'd" where
  "drain H R maxDrainBatch gameId d =
     (let key = HOST_EVENT_QUEUE_KEY_PREFIX @ gameId;
          raws = take maxDrainBatch (rd_lrange R d key)
      in if raws = [] then ([], d)
         else
          (List.map_filter (drained H) raws,
           rd_ltrim R key (length raws) d))"

section \<open>Bundles\<close>

definition readSourceObject :: "(string \<Rightarrow> string + string option) option \<Rightarrow> js \<Rightarrow> string + string option" where
  "readSourceObject sourceStore bundle =
     (case (truthy (js_string (js_get bundle ''sourceObjectKey'')), sourceStore) of
        (Some key, Some get) \<Rightarrow> get key
      | _ \<Rightarrow> Inr None)"

definition resolve_with :: "host \<Rightarrow> 'd redis \<Rightarrow> string \<Rightarrow> (string \<Rightarrow> string + string option) option \<Rightarrow> string \<Rightarrow> js \<Rightarrow> js \<Rightarrow> 'd
    \<Rightarrow> string + BrokerWakeInput option" where
  "resolve_with H R shardId sourceStore gameId game bundle d =
     (let source = (case js_get bundle ''source'' of JStr s \<Rightarrow> Inr (Some s) | _ \<Rightarrow> readSourceObject sourceStore bundle)
      in case source of
         Inl e \<Rightarrow> Inl e
       | Inr o1 \<Rightarrow>
          (case truthy o1 of
             None \<Rightarrow> Inr None
           | Some bundleSource \<Rightarrow>
              (case getJson H R d (active_key gameId) of
                 Inl e \<Rightarrow> Inl e
               | Inr active \<Rightarrow>
                  Inr (Some \<lparr>wi_gameId = gameId, wi_bundleName = js_text (js_get bundle ''bundleName''),
                    wi_bundleSource = bundleSource,
                    wi_bundleCompatTag = js_text (js_get (js_get bundle ''manifest'') ''compatTagProduced''),
                    wi_runtimeContractRequired = js_number (js_get (js_get bundle ''manifest'') ''runtimeContractRequired''),
                    wi_runId = None, wi_blobCompatTag = js_string (js_get game ''blobCompatTag''),
                    wi_memoryLimitMb = None, wi_handlerTimeoutMs = None, wi_testSeed = None,
                    wi_generation = (case active of None \<Rightarrow> None
                       | Some v \<Rightarrow> if js_get v ''shardId'' = JStr shardId then js_int (js_get v ''generation'') else None),
                    wi_wakeReason = None, wi_wakeErrorClass = None\<rparr>))))"

definition resolveForGame ::
  "host \<Rightarrow> 'd redis \<Rightarrow> string \<Rightarrow> (string \<Rightarrow> string + string option) option \<Rightarrow> string \<Rightarrow> 'd \<Rightarrow> string + BrokerWakeInput option" where
  "resolveForGame H R shardId sourceStore gameId d =
     (case getJson H R d (GAME_KEY_PREFIX @ gameId) of
        Inl e \<Rightarrow> Inl e
      | Inr None \<Rightarrow> Inr None
      | Inr (Some JNull) \<Rightarrow> Inr None
      | Inr (Some game) \<Rightarrow>
         (case getJson H R d (BUNDLE_KEY_PREFIX @ js_text (js_get game ''bundleName'')) of
            Inl e \<Rightarrow> Inl e
          | Inr None \<Rightarrow> Inr None
          | Inr (Some JNull) \<Rightarrow> Inr None
          | Inr (Some bundle) \<Rightarrow> resolve_with H R shardId sourceStore gameId game bundle d))"

section \<open>The gateway's client and the history file\<close>

text \<open>\<open>post\<close> is the answer to the POST: whether it is a success, its status and its text.\<close>

definition client_invoke ::
  "host \<Rightarrow> (string + bool \<times> int \<times> string) \<Rightarrow> (js \<Rightarrow> ApiGatewayInvokeResult) \<Rightarrow> string + ApiGatewayInvokeResult" where
  "client_invoke H post decode =
     (case post of
        Inl e \<Rightarrow> Inl e
      | Inr (success, status, raw) \<Rightarrow>
         if \<not> success
         then Inr \<lparr>gr_response = ApiErr ProviderError (Some (JObj [(''statusCode'', JNum status), (''body'', JStr raw)])),
                   gr_wireRecord = None\<rparr>
         else case host_parse H raw of None \<Rightarrow> Inl ''SyntaxError'' | Some v \<Rightarrow> Inr (decode v))"

record JsonlHistoryWriter =
  hw_paxSeq :: int
  hw_file :: string

text \<open>\<^verbatim>\<open>write\<close>: the writes are chained, so they happen one after the other.\<close>

definition history_write :: "js js_map \<Rightarrow> JsonlHistoryWriter \<Rightarrow> (string + unit) \<times> JsonlHistoryWriter" where
  "history_write event w =
     (let w1 = w\<lparr>hw_paxSeq := hw_paxSeq w + 1\<rparr>;
          row = fold (\<lambda>(k, v). map_set k v) event [(''pax_seq'', JNum (hw_paxSeq w1))]
      in case stringify (JObj row) of
           Inr (Some t) \<Rightarrow> (Inr (), w1\<lparr>hw_file := hw_file w1 @ t @ [CHR 0x0A]\<rparr>)
         | Inr None \<Rightarrow> (Inr (), w1)
         | Inl e \<Rightarrow> (Inl e, w1))"

end
