(* ===== verification/ControlStore.thy ===== *)
theory ControlStore
  imports ControlHistory BrokerAdapters
begin

text \<open>
  The control plane's records in Redis (\<^verbatim>\<open>orchestration/control-plane/src/store.mts\<close>) and bundle manifests
  (\<^verbatim>\<open>manifest.mts\<close>). A stored record is the JSON value it parses to, as in the code, which casts
  what it parses; \<open>Inl\<close> is the exception of \<^verbatim>\<open>JSON.parse\<close>.
\<close>

section \<open>Manifests\<close>

datatype CompatCheckResult =
    CompatOk
  | CompatRefused string "string list"

definition include_str :: "js list \<Rightarrow> js \<Rightarrow> bool" where
  "include_str xs v \<longleftrightarrow> v \<in> set xs"

definition assertBundleManifest :: "js \<Rightarrow> string + BundleManifest" where
  "assertBundleManifest v =
     (if \<not> isRecord v then Inl ''manifest must be an object''
      else case truthy (js_string (js_get v ''compatTagProduced'')) of
        None \<Rightarrow> Inl ''manifest.compatTagProduced must be a non-empty string''
      | Some produced \<Rightarrow>
         (case js_get v ''compatTagsAccepted'' of
            JArr tags \<Rightarrow>
              if tags = [] \<or> \<not> list_all (\<lambda>t. truthy (js_string t) \<noteq> None) tags
              then Inl ''manifest.compatTagsAccepted must be a non-empty string array''
              else if \<not> include_str tags (JStr produced) then Inl ''compatTagProduced must appear in compatTagsAccepted''
              else (case js_get v ''runtimeContractRequired'' of
                      JNum n \<Rightarrow> if n < 1 then Inl ''manifest.runtimeContractRequired must be a positive integer''
                               else Inr \<lparr>bm_compatTagProduced = produced, bm_compatTagsAccepted = map js_text tags,
                                         bm_runtimeContractRequired = n\<rparr>
                    | _ \<Rightarrow> Inl ''manifest.runtimeContractRequired must be a positive integer'')
          | _ \<Rightarrow> Inl ''manifest.compatTagsAccepted must be a non-empty string array''))"

definition bundle_manifest_js :: "BundleManifest \<Rightarrow> js" where
  "bundle_manifest_js m =
     JObj [(''compatTagProduced'', JStr (bm_compatTagProduced m)), (''compatTagsAccepted'', JArr (map JStr (bm_compatTagsAccepted m))),
       (''runtimeContractRequired'', JNum (bm_runtimeContractRequired m))]"

text \<open>The tags a stored manifest accepts.\<close>

fun accepted_tags :: "js \<Rightarrow> js list" where
  "accepted_tags (JArr tags) = tags"
| "accepted_tags v = []"

definition checkBundleCompat :: "js \<Rightarrow> js \<Rightarrow> CompatCheckResult" where
  "checkBundleCompat blobCompatTag manifest =
     (let tags = accepted_tags (js_get manifest ''compatTagsAccepted'')
      in if blobCompatTag = JUndef \<or> include_str tags blobCompatTag then CompatOk
         else CompatRefused (js_text blobCompatTag) (map js_text tags))"

section \<open>Bundles\<close>

definition getBundle :: "host \<Rightarrow> 'd redis \<Rightarrow> string \<Rightarrow> 'd \<Rightarrow> string + js option" where
  "getBundle H R bundleName d = getJson H R d (BUNDLE_KEY_PREFIX @ bundleName)"

definition putBundleWriteOnce :: "'d redis \<Rightarrow> js \<Rightarrow> 'd \<Rightarrow> bool \<times> 'd" where
  "putBundleWriteOnce R record1 d =
     rd_setNx R (BUNDLE_KEY_PREFIX @ js_text (js_get record1 ''bundleName'')) (json_text record1) None d"

definition listGames :: "host \<Rightarrow> 'd redis \<Rightarrow> 'd \<Rightarrow> string + js list" where
  "listGames H R d = scan_json H R d GAME_KEY_PREFIX"

datatype bundle_deletion = Deleted | MissingBundle | InUse "string list"

definition deleteBundleIfUnused :: "host \<Rightarrow> 'd redis \<Rightarrow> string \<Rightarrow> 'd \<Rightarrow> (string + bundle_deletion) \<times> 'd" where
  "deleteBundleIfUnused H R bundleName d =
     (case listGames H R d of
        Inl e \<Rightarrow> (Inl e, d)
      | Inr games \<Rightarrow>
         let referencing = sort (map (\<lambda>g. js_text (js_get g ''gameId'')) (filter (\<lambda>g. js_get g ''bundleName'' = JStr bundleName) games))
         in if referencing \<noteq> [] then (Inr (InUse referencing), d)
            else (case rd_del R [BUNDLE_KEY_PREFIX @ bundleName] d of
                    (n, d') \<Rightarrow> (Inr (if n > 0 then Deleted else MissingBundle), d')))"

section \<open>Games\<close>

definition getGame :: "host \<Rightarrow> 'd redis \<Rightarrow> string \<Rightarrow> 'd \<Rightarrow> string + js option" where
  "getGame H R gameId d = getJson H R d (GAME_KEY_PREFIX @ gameId)"

definition getActiveGame :: "host \<Rightarrow> 'd redis \<Rightarrow> string \<Rightarrow> 'd \<Rightarrow> string + js option" where
  "getActiveGame H R gameId d = getJson H R d (ACTIVE_GAMES_KEY_PREFIX @ gameId)"

definition putGame :: "'d redis \<Rightarrow> js \<Rightarrow> 'd \<Rightarrow> 'd" where
  "putGame R record1 d = rd_set R (GAME_KEY_PREFIX @ js_text (js_get record1 ''gameId'')) (json_text record1) d"

definition putGameWriteOnce :: "'d redis \<Rightarrow> js \<Rightarrow> 'd \<Rightarrow> bool \<times> 'd" where
  "putGameWriteOnce R record1 d = rd_setNx R (GAME_KEY_PREFIX @ js_text (js_get record1 ''gameId'')) (json_text record1) None d"

datatype storage_tier = StateTier | BlobTier

definition storageKey :: "string \<Rightarrow> storage_tier \<Rightarrow> string" where
  "storageKey gameId tier = (case tier of StateTier \<Rightarrow> STATE_KEY_PREFIX | BlobTier \<Rightarrow> BLOB_KEY_PREFIX) @ gameId"

definition deleteGame :: "'d redis \<Rightarrow> string \<Rightarrow> 'd \<Rightarrow> bool \<times> 'd" where
  "deleteGame R gameId d =
     (case rd_del R [GAME_KEY_PREFIX @ gameId] d of
        (deletedGame, d1) \<Rightarrow>
          if deletedGame = 0 then (False, d1)
          else (True, snd (rd_del R [ACTIVE_GAMES_KEY_PREFIX @ gameId, ALLOWED_PLAYERS_KEY_PREFIX @ gameId,
                        storageKey gameId StateTier, storageKey gameId BlobTier] d1)))"

definition putStorageRaw :: "'d redis \<Rightarrow> string \<Rightarrow> storage_tier \<Rightarrow> string \<Rightarrow> 'd \<Rightarrow> 'd" where
  "putStorageRaw R gameId tier raw d = rd_set R (storageKey gameId tier) raw d"

definition getStorageRaw :: "'d redis \<Rightarrow> string \<Rightarrow> storage_tier \<Rightarrow> 'd \<Rightarrow> string option" where
  "getStorageRaw R gameId tier d = rd_get R d (storageKey gameId tier)"

section \<open>Allowed players\<close>

definition addAllowedPlayer :: "'d redis \<Rightarrow> string \<Rightarrow> string \<Rightarrow> 'd \<Rightarrow> 'd" where
  "addAllowedPlayer R gameId playerId d = rd_sadd R (ALLOWED_PLAYERS_KEY_PREFIX @ gameId) playerId d"

definition removeAllowedPlayer :: "'d redis \<Rightarrow> string \<Rightarrow> string \<Rightarrow> 'd \<Rightarrow> bool \<times> 'd" where
  "removeAllowedPlayer R gameId playerId d =
     (case rd_srem R (ALLOWED_PLAYERS_KEY_PREFIX @ gameId) playerId d of (n, d') \<Rightarrow> (n > 0, d'))"

definition listAllowedPlayers :: "'d redis \<Rightarrow> string \<Rightarrow> 'd \<Rightarrow> string list" where
  "listAllowedPlayers R gameId d = sort (rd_smembers R d (ALLOWED_PLAYERS_KEY_PREFIX @ gameId))"

definition listGamesForAllowedPlayer :: "host \<Rightarrow> 'd redis \<Rightarrow> string \<Rightarrow> 'd \<Rightarrow> string + js list" where
  "listGamesForAllowedPlayer H R playerId d =
     (let keys = rd_setKeys R d ALLOWED_PLAYERS_KEY_PREFIX;
          gameIds = sort (map (drop (length ALLOWED_PLAYERS_KEY_PREFIX)) (filter (\<lambda>k. playerId \<in> set (rd_smembers R d k)) keys))
      in case parse_all H (map (\<lambda>g. rd_get R d (GAME_KEY_PREFIX @ g)) gameIds) of
           Inl e \<Rightarrow> Inl e
         | Inr games \<Rightarrow> Inr (sort_by (\<lambda>a b. host_localeLe H (js_text (js_get a ''gameId'')) (js_text (js_get b ''gameId''))) games))"

text \<open>The transaction removes the player from every list; the keys whose removal counted are reported.\<close>

fun srem_all :: "'d redis \<Rightarrow> string \<Rightarrow> string list \<Rightarrow> 'd \<Rightarrow> string list \<times> 'd" where
  "srem_all R playerId [] d = ([], d)"
| "srem_all R playerId (k # ks) d =
     (case rd_srem R k playerId d of
        (n, d1) \<Rightarrow> (case srem_all R playerId ks d1 of (ks', d2) \<Rightarrow> (if n > 0 then k # ks' else ks', d2)))"

definition removePlayerFromAllAllowedLists :: "'d redis \<Rightarrow> string \<Rightarrow> 'd \<Rightarrow> string list \<times> 'd" where
  "removePlayerFromAllAllowedLists R playerId d =
     (case srem_all R playerId (rd_setKeys R d ALLOWED_PLAYERS_KEY_PREFIX) d of
        (ks, d') \<Rightarrow> (sort (map (drop (length ALLOWED_PLAYERS_KEY_PREFIX)) ks), d'))"

section \<open>API kinds\<close>

definition listApiKinds :: "host \<Rightarrow> 'd redis \<Rightarrow> 'd \<Rightarrow> string + js list" where
  "listApiKinds H R d =
     (case scan_json H R d API_KIND_KEY_PREFIX of
        Inl e \<Rightarrow> Inl e
      | Inr ks \<Rightarrow> Inr (sort_by (\<lambda>a b. host_localeLe H (js_text (js_get a ''kindName'')) (js_text (js_get b ''kindName''))) ks))"

definition getApiKind :: "host \<Rightarrow> 'd redis \<Rightarrow> string \<Rightarrow> 'd \<Rightarrow> string + js option" where
  "getApiKind H R kindName d = getJson H R d (API_KIND_KEY_PREFIX @ kindName)"

definition putApiKind :: "'d redis \<Rightarrow> ApiKindRegistration \<Rightarrow> 'd \<Rightarrow> 'd" where
  "putApiKind R r d = rd_set R (API_KIND_KEY_PREFIX @ ak_kindName r) (json_text (registration_js r)) d"

definition deleteApiKind :: "'d redis \<Rightarrow> string \<Rightarrow> 'd \<Rightarrow> bool \<times> 'd" where
  "deleteApiKind R kindName d = (case rd_del R [API_KIND_KEY_PREFIX @ kindName] d of (n, d') \<Rightarrow> (n > 0, d'))"

section \<open>Shards\<close>

definition SHARD_DRAIN_COMPLETED_KEY_PREFIX :: string where
  "SHARD_DRAIN_COMPLETED_KEY_PREFIX = ''shard_drain_completed:''"

definition listShards :: "host \<Rightarrow> 'd redis \<Rightarrow> 'd \<Rightarrow> string + js list" where
  "listShards H R d = scan_json H R d SHARD_REGISTRY_KEY_PREFIX"

definition getShard :: "host \<Rightarrow> 'd redis \<Rightarrow> string \<Rightarrow> 'd \<Rightarrow> string + js option" where
  "getShard H R shardId d = getJson H R d (SHARD_REGISTRY_KEY_PREFIX @ shardId)"

text \<open>\<^verbatim>\<open>{ ...value, ...fields }\<close>\<close>

fun js_spread :: "js \<Rightarrow> js js_map \<Rightarrow> js" where
  "js_spread (JObj fs) gs = JObj (fold (\<lambda>(k, v). map_set k v) gs fs)"
| "js_spread v gs = JObj gs"

definition setShardDrain :: "host \<Rightarrow> 'd redis \<Rightarrow> int \<Rightarrow> string \<Rightarrow> bool \<Rightarrow> 'd \<Rightarrow> (string + js option) \<times> 'd" where
  "setShardDrain H R now shardId draining d =
     (case getShard H R shardId d of
        Inl e \<Rightarrow> (Inl e, d)
      | Inr None \<Rightarrow> (Inr None, d)
      | Inr (Some shard) \<Rightarrow>
         let d1 = (if draining then rd_set R (SHARD_DRAIN_KEY_PREFIX @ shardId) ''true'' d
                   else snd (rd_del R [SHARD_DRAIN_KEY_PREFIX @ shardId] d));
             d2 = snd (rd_del R [SHARD_DRAIN_COMPLETED_KEY_PREFIX @ shardId] d1);
             updated = js_spread shard
               [(''status'', JStr (if draining then if js_get shard ''activeGames'' = JNum 0 then ''drained'' else ''draining'' else ''healthy'')),
                (''acceptingWakes'', JBool (\<not> draining)), (''lastSeenAt'', JNum now)]
         in (Inr (Some updated),
             rd_setEx R (SHARD_REGISTRY_KEY_PREFIX @ shardId) (json_text updated) SHARD_REGISTRY_TTL_SECONDS d2))"

definition markShardDrainCompletedOnce :: "'d redis \<Rightarrow> int \<Rightarrow> string \<Rightarrow> 'd \<Rightarrow> bool \<times> 'd" where
  "markShardDrainCompletedOnce R now shardId d = rd_setNx R (SHARD_DRAIN_COMPLETED_KEY_PREFIX @ shardId) (dec_int now) None d"

section \<open>Host events\<close>

definition enqueueHostEvent :: "'d redis \<Rightarrow> HostEventRecord \<Rightarrow> int \<Rightarrow> 'd \<Rightarrow> 'd" where
  "enqueueHostEvent R record1 ttlSeconds d =
     (let key = HOST_EVENT_QUEUE_KEY_PREFIX @ he_gameId record1
      in rd_expire R key ttlSeconds (rd_rpush R key (json_text (event_js record1)) d))"

end
