(* ===== verification/Control.thy ===== *)
theory Control
  imports ControlStore
begin

text \<open>
  The control plane (\<^verbatim>\<open>orchestration/control-plane/src/app.mts\<close>), first part: its state and surroundings, the
  history it appends to, the validation of bodies and queries, and the handlers for bundles, games, API
  kinds and players. A handler takes the control plane and returns an answer or an exception, with the
  control plane after it: what was written before an exception stays.
\<close>

section \<open>State and surroundings\<close>

text \<open>\<^verbatim>\<open>BundleObjectStore\<close>; \<open>Inl\<close>: the exception of the store.\<close>

record 'o BundleObjectStore =
  bo_put :: "string \<Rightarrow> string \<Rightarrow> string \<Rightarrow> 'o \<Rightarrow> (string + unit) \<times> 'o"
  bo_get :: "string \<Rightarrow> 'o \<Rightarrow> string + string option"

record ('d, 'o, 's) ControlPlane =
  cp_db :: 'd
  cp_objects :: 'o
  cp_state :: 's
  cp_history :: "string option"
  cp_nextSeq :: "int js_map"
  cp_requestsTotal :: int
  cp_errorsTotal :: int

text \<open>A request to another service, and its reply. The service may change the database.\<close>

record fetch_call =
  fc_method :: string
  fc_url :: string
  fc_body :: "string option"

record fetch_reply =
  fp_status :: int
  fp_contentLength :: "string option"
  fp_text :: string

definition fp_ok :: "fetch_reply \<Rightarrow> bool" where
  "fp_ok r \<longleftrightarrow> 200 \<le> fp_status r \<and> fp_status r \<le> 299"

record ('d, 'o, 's) control_env =
  cc_host :: host
  cc_R :: "'d redis"
  cc_B :: "'o BundleObjectStore"
  cc_ops :: "'s StateObjectStore"
  cc_E :: env
  cc_now :: int
  cc_iso :: string
  cc_uuid :: string
  cc_dateParse :: "string \<Rightarrow> int option"
  cc_fetch :: "fetch_call \<Rightarrow> 'd \<Rightarrow> (string + fetch_reply) \<times> 'd"
  cc_URL :: "string \<Rightarrow> string \<Rightarrow> string + string"
  cc_protocol :: "string \<Rightarrow> string + string"
  cc_href :: "string \<Rightarrow> string"
  cc_wireFile :: "string option"
  cc_routerUrl :: string
  cc_historyPath :: string
  cc_stateLimit :: int
  cc_blobLimit :: int
  cc_rollbackMs :: int

datatype control_error = Http HttpError | Thrown string

type_synonym ('d, 'o, 's, 'a) cp =
  "('d, 'o, 's) ControlPlane \<Rightarrow> (control_error + 'a) \<times> ('d, 'o, 's) ControlPlane"

definition cp_return :: "'a \<Rightarrow> ('d, 'o, 's, 'a) cp" where
  "cp_return a w = (Inr a, w)"

definition cp_bind :: "('d, 'o, 's, 'a) cp \<Rightarrow> ('a \<Rightarrow> ('d, 'o, 's, 'b) cp) \<Rightarrow> ('d, 'o, 's, 'b) cp" where
  "cp_bind m f w = (case m w of (Inl e, w') \<Rightarrow> (Inl e, w') | (Inr a, w') \<Rightarrow> f a w')"

definition cp_throw :: "int \<Rightarrow> string \<Rightarrow> js js_map \<Rightarrow> ('d, 'o, 's, 'a) cp" where
  "cp_throw status code detail w = (Inl (Http \<lparr>ht_statusCode = status, ht_code = code, ht_detail = JObj detail\<rparr>), w)"

text \<open>A pure step that may fail: with an \<^verbatim>\<open>HttpError\<close>, or with another exception.\<close>

definition cp_http :: "HttpError + 'a \<Rightarrow> ('d, 'o, 's, 'a) cp" where
  "cp_http x w = (case x of Inl e \<Rightarrow> (Inl (Http e), w) | Inr a \<Rightarrow> (Inr a, w))"

definition cp_lift :: "string + 'a \<Rightarrow> ('d, 'o, 's, 'a) cp" where
  "cp_lift x w = (case x of Inl e \<Rightarrow> (Inl (Thrown e), w) | Inr a \<Rightarrow> (Inr a, w))"

text \<open>A read of the database, and a command on it.\<close>

definition cp_read :: "('d \<Rightarrow> string + 'a) \<Rightarrow> ('d, 'o, 's, 'a) cp" where
  "cp_read f w = cp_lift (f (cp_db w)) w"

definition cp_do :: "('d \<Rightarrow> 'a \<times> 'd) \<Rightarrow> ('d, 'o, 's, 'a) cp" where
  "cp_do f w = (case f (cp_db w) of (a, d) \<Rightarrow> (Inr a, w\<lparr>cp_db := d\<rparr>))"

definition cp_try :: "('d \<Rightarrow> (string + 'a) \<times> 'd) \<Rightarrow> ('d, 'o, 's, 'a) cp" where
  "cp_try f w = (case f (cp_db w) of (x, d) \<Rightarrow> cp_lift x (w\<lparr>cp_db := d\<rparr>))"

definition cp_fetch :: "('d, 'o, 's) control_env \<Rightarrow> string \<Rightarrow> string \<Rightarrow> string option \<Rightarrow> ('d, 'o, 's, fetch_reply) cp" where
  "cp_fetch C method url body = cp_try (cc_fetch C \<lparr>fc_method = method, fc_url = url, fc_body = body\<rparr>)"

named_theorems cp_simps \<open>the steps of handlers\<close>

lemmas cp_defs [cp_simps] = cp_return_def cp_bind_def cp_throw_def cp_http_def cp_lift_def cp_read_def cp_do_def cp_try_def cp_fetch_def

text \<open>
  \<open>cc_URL path base\<close> is the text of \<^verbatim>\<open>new URL(path, base)\<close>, \<open>cc_protocol\<close> and \<open>cc_href\<close> are the protocol and the
  text of \<^verbatim>\<open>new URL(raw)\<close>.
\<close>

section \<open>The local bundle store\<close>

fun resolve_segments :: "string list \<Rightarrow> string list \<Rightarrow> string list" where
  "resolve_segments base [] = base"
| "resolve_segments base (s # ss) =
     resolve_segments (if s = ''.'' then base else if s = ''..'' then butlast base else base @ [s]) ss"

definition localObjectPath :: "string list \<Rightarrow> string \<Rightarrow> string + string list" where
  "localObjectPath root1 key =
     (let path = resolve_segments root1 (filter (\<lambda>part. part \<noteq> []) (split_on (CHR ''/'') key))
      in if prefix root1 path then Inr path else Inl (''object key escapes local object store root: '' @ key))"

type_synonym files = "(string list \<times> string) list"

definition LocalBundleObjectStore :: "string list \<Rightarrow> files BundleObjectStore" where
  "LocalBundleObjectStore root1 =
     \<lparr>bo_put = (\<lambda>key body contentType fs.
        case localObjectPath root1 key of
          Inl e \<Rightarrow> (Inl e, fs)
        | Inr path \<Rightarrow>
           if \<exists>q \<in> set (map fst fs). strict_prefix q path then (Inl ''ENOTDIR'', fs)
           else if \<exists>q \<in> set (map fst fs). strict_prefix path q then (Inl ''EISDIR'', fs)
           else (Inr (), map_set path body fs)),
      bo_get = (\<lambda>key fs.
        case localObjectPath root1 key of
          Inl e \<Rightarrow> Inl e
        | Inr path \<Rightarrow>
           (case map_get fs path of
              Some body \<Rightarrow> Inr (Some body)
            | None \<Rightarrow> if \<exists>q \<in> set (map fst fs). strict_prefix path q then Inl ''EISDIR''
                     else if \<exists>q \<in> set (map fst fs). strict_prefix q path then Inl ''ENOTDIR''
                     else Inr None))\<rparr>"

section \<open>History rows of the control plane\<close>

definition CONTROL_PLANE_SHARD_ID :: string where
  "CONTROL_PLANE_SHARD_ID = ''control-plane''"

fun last_seq :: "host \<Rightarrow> string \<Rightarrow> string list \<Rightarrow> int" where
  "last_seq H shardId [] = 0"
| "last_seq H shardId (line # lines) =
     (if line = [] then last_seq H shardId lines
      else case host_parse H line of
        None \<Rightarrow> last_seq H shardId lines
      | Some parsed \<Rightarrow>
         (if js_get parsed ''shardId'' = JStr shardId
          then (case js_get parsed ''pax_seq'' of JNum n \<Rightarrow> n | _ \<Rightarrow> last_seq H shardId lines)
          else last_seq H shardId lines))"

definition trimEnd :: "string \<Rightarrow> string" where
  "trimEnd s = rev (dropWhile is_space (rev s))"

definition loadLastPaxSeqForShard :: "host \<Rightarrow> string option \<Rightarrow> string \<Rightarrow> int" where
  "loadLastPaxSeqForShard H file shardId =
     (case file of None \<Rightarrow> 0 | Some raw \<Rightarrow> last_seq H shardId (rev (split_on (CHR 0x0A) (trimEnd raw))))"

definition nextControlPaxSeq :: "('d, 'o, 's) control_env \<Rightarrow> ('d, 'o, 's) ControlPlane \<Rightarrow> int \<times> ('d, 'o, 's) ControlPlane" where
  "nextControlPaxSeq C w =
     (case map_get (cp_nextSeq w) (cc_historyPath C) of
        Some existing \<Rightarrow> (existing, w\<lparr>cp_nextSeq := map_set (cc_historyPath C) (existing + 1) (cp_nextSeq w)\<rparr>)
      | None \<Rightarrow>
         let next1 = loadLastPaxSeqForShard (cc_host C) (cp_history w) CONTROL_PLANE_SHARD_ID + 1
         in (next1, w\<lparr>cp_nextSeq := map_set (cc_historyPath C) (next1 + 1) (cp_nextSeq w)\<rparr>))"

text \<open>The row: the fields that are defined, then the four of every row, which win.\<close>

definition control_row :: "('d, 'o, 's) control_env \<Rightarrow> int \<Rightarrow> string \<Rightarrow> js js_map \<Rightarrow> js" where
  "control_row C paxSeq event entries =
     js_spread (JObj (filter (\<lambda>(k, v). v \<noteq> JUndef) entries))
       [(''ts'', JStr (cc_iso C)), (''shardId'', JStr CONTROL_PLANE_SHARD_ID), (''pax_seq'', JNum paxSeq), (''event'', JStr event)]"

definition appendControlHistory :: "('d, 'o, 's) control_env \<Rightarrow> string \<Rightarrow> js js_map \<Rightarrow> ('d, 'o, 's, unit) cp" where
  "appendControlHistory C event entries w =
     (case nextControlPaxSeq C w of
        (paxSeq, w1) \<Rightarrow>
          (Inr (), w1\<lparr>cp_history := Some (default [] (cp_history w1) @ json_text (control_row C paxSeq event entries) @ [CHR 0x0A])\<rparr>))"

section \<open>Bodies and queries\<close>

definition readPositiveInteger :: "js js_map \<Rightarrow> string \<Rightarrow> HttpError + int" where
  "readPositiveInteger r field =
     (case js_get (JObj r) field of
        JNum n \<Rightarrow> if n \<le> 0 then Inl (badRequest [(''field'', JStr field), (''expected'', JStr ''positive integer'')]) else Inr n
      | _ \<Rightarrow> Inl (badRequest [(''field'', JStr field), (''expected'', JStr ''positive integer'')]))"

definition bundle_name_char :: "char \<Rightarrow> bool" where
  "bundle_name_char c \<longleftrightarrow> (65 \<le> byte c \<and> byte c \<le> 90) \<or> (97 \<le> byte c \<and> byte c \<le> 122) \<or> is_digit c
     \<or> c \<in> {CHR ''.'', CHR ''_'', CHR ''-''}"

definition assertBundleName :: "string \<Rightarrow> HttpError + unit" where
  "assertBundleName bundleName =
     (if 1 \<le> length bundleName \<and> length bundleName \<le> 256 \<and> list_all bundle_name_char bundleName then Inr ()
      else Inl (badRequest [(''field'', JStr ''bundleName''),
        (''expected'', JStr ''1-256 characters: letters, numbers, dots, underscores, or hyphens'')]))"

definition readOptionalString :: "js js_map \<Rightarrow> string \<Rightarrow> HttpError + string option" where
  "readOptionalString r field =
     (case js_get (JObj r) field of
        JUndef \<Rightarrow> Inr None
      | v \<Rightarrow> (case truthy (js_string v) of
                None \<Rightarrow> Inl (badRequest [(''field'', JStr field), (''expected'', JStr ''non-empty string'')])
              | Some s \<Rightarrow> Inr (Some s)))"

definition readOptionalStringArray :: "js js_map \<Rightarrow> string \<Rightarrow> HttpError + string list" where
  "readOptionalStringArray r field =
     (let bad = Inl (badRequest [(''field'', JStr field), (''expected'', JStr ''string array'')]) in
      case js_get (JObj r) field of
        JUndef \<Rightarrow> Inr []
      | JArr xs \<Rightarrow> if list_all (\<lambda>x. truthy (js_string x) \<noteq> None) xs then Inr (map js_text xs) else bad
      | _ \<Rightarrow> bad)"

text \<open>\<^verbatim>\<open>Number.parseInt(s, 10)\<close>, \<open>None\<close> for \<^verbatim>\<open>NaN\<close>.\<close>

definition parseInt :: "string \<Rightarrow> int option" where
  "parseInt s =
     (let t = dropWhile is_space s;
          negative = (case t of c # _ \<Rightarrow> c = CHR ''-'' | [] \<Rightarrow> False);
          u = (case t of c # r \<Rightarrow> if c = CHR ''-'' \<or> c = CHR ''+'' then r else t | [] \<Rightarrow> []);
          ds = takeWhile is_digit u;
          n = int (foldl (\<lambda>v c. 10 * v + (byte c - 48)) 0 ds)
      in if ds = [] then None else Some (if negative then - n else n))"

definition optionalInt :: "string option \<Rightarrow> int option" where
  "optionalInt v = (case truthy v of None \<Rightarrow> None
     | Some s \<Rightarrow> (case parseInt s of None \<Rightarrow> None | Some n \<Rightarrow> if 0 \<le> n then Some n else None))"

definition readOptionalIntegerQuery :: "string option \<Rightarrow> string \<Rightarrow> HttpError + int option" where
  "readOptionalIntegerQuery v field =
     (let bad = Inl (badRequest [(''field'', JStr field), (''expected'', JStr ''non-negative integer'')]) in
      case truthy v of
        None \<Rightarrow> Inr None
      | Some s \<Rightarrow>
         (case parseInt s of
            None \<Rightarrow> bad
          | Some n \<Rightarrow> if n < 0 \<or> dec_int n \<noteq> s then bad else Inr (Some n)))"

definition clampInt :: "string option \<Rightarrow> int \<Rightarrow> int \<Rightarrow> int \<Rightarrow> int" where
  "clampInt v lo hi fallback =
     (case truthy v of
        None \<Rightarrow> fallback
      | Some s \<Rightarrow> (case parseInt s of None \<Rightarrow> fallback | Some n \<Rightarrow> min hi (max lo n)))"

section \<open>Initial values\<close>

definition encodeStoredValue :: "js \<Rightarrow> string \<Rightarrow> int \<Rightarrow> HttpError + string \<times> int" where
  "encodeStoredValue value field limit =
     (case stringify (JObj [(''value'', value)]) of
        Inl m \<Rightarrow> Inl (badRequest [(''field'', JStr field), (''expected'', JStr ''JSON-serializable value''), (''message'', JStr m)])
      | Inr t \<Rightarrow>
         let raw = default [] t; bytes = int (length raw)
         in if bytes > limit
            then Inl \<lparr>ht_statusCode = 413, ht_code = ''sizeExceeded'',
                      ht_detail = JObj [(''field'', JStr field), (''bytes'', JNum bytes), (''limit'', JNum limit)]\<rparr>
            else Inr (raw, bytes))"

definition fetch_failed :: "js js_map \<Rightarrow> HttpError" where
  "fetch_failed fs = \<lparr>ht_statusCode = 502, ht_code = ''initialValueFetchFailed'', ht_detail = JObj fs\<rparr>"

definition fetched_value ::
  "('d, 'o, 's) control_env \<Rightarrow> string \<Rightarrow> string \<Rightarrow> int \<Rightarrow> string + fetch_reply \<Rightarrow> HttpError + string \<times> int" where
  "fetched_value C url field limit reply =
     (case reply of
        Inl m \<Rightarrow> Inl (fetch_failed [(''field'', JStr field), (''url'', JStr url), (''message'', JStr m)])
      | Inr r \<Rightarrow>
         if \<not> fp_ok r then Inl (fetch_failed [(''field'', JStr field), (''url'', JStr url), (''status'', JNum (fp_status r))])
         else
           let contentLength = parseInt (default [] (fp_contentLength r)) in
           if (case contentLength of None \<Rightarrow> False | Some n \<Rightarrow> n > limit)
           then Inl \<lparr>ht_statusCode = 413, ht_code = ''sizeExceeded'',
                     ht_detail = JObj [(''field'', JStr field), (''bytes'', opt_int contentLength), (''limit'', JNum limit)]\<rparr>
           else (case host_parse (cc_host C) (fp_text r) of
                   None \<Rightarrow> Inl (fetch_failed [(''field'', JStr field), (''url'', JStr url),
                              (''expected'', JStr ''JSON response body''), (''message'', JStr ''SyntaxError'')])
                 | Some value \<Rightarrow> encodeStoredValue value field limit))"

definition fetchStoredValueFromUrl ::
  "('d, 'o, 's) control_env \<Rightarrow> string \<Rightarrow> string \<Rightarrow> int \<Rightarrow> ('d, 'o, 's, string \<times> int) cp" where
  "fetchStoredValueFromUrl C rawUrl field limit w =
     (case cc_protocol C rawUrl of
        Inl m \<Rightarrow> (Inl (Http (badRequest [(''field'', JStr (field @ ''Url'')), (''expected'', JStr ''absolute URL'')])), w)
      | Inr p \<Rightarrow>
         if p \<noteq> ''http:'' \<and> p \<noteq> ''https:''
         then (Inl (Http (badRequest [(''field'', JStr (field @ ''Url'')), (''expected'', JStr ''http or https URL'')])), w)
         else (case cc_fetch C \<lparr>fc_method = ''GET'', fc_url = cc_href C rawUrl, fc_body = None\<rparr> (cp_db w) of
                 (reply, d) \<Rightarrow> cp_http (fetched_value C (cc_href C rawUrl) field limit reply) (w\<lparr>cp_db := d\<rparr>)))"

definition readOptionalStoredValue ::
  "('d, 'o, 's) control_env \<Rightarrow> js js_map \<Rightarrow> string \<Rightarrow> string \<Rightarrow> int \<Rightarrow> ('d, 'o, 's, (string \<times> int) option) cp" where
  "readOptionalStoredValue C r field urlField limit =
     (let hasInline = map_has r field; hasUrl = map_has r urlField in
      if hasInline \<and> hasUrl
      then cp_throw 400 ''badRequest'' [(''fields'', JArr [JStr field, JStr urlField]),
             (''expected'', JStr ''provide either inline value or URL, not both'')]
      else if hasUrl
      then cp_bind (cp_http (body_string r urlField)) (\<lambda>u. cp_bind (fetchStoredValueFromUrl C u field limit) (\<lambda>x. cp_return (Some x)))
      else if \<not> hasInline then cp_return None
      else cp_bind (cp_http (encodeStoredValue (js_get (JObj r) field) field limit)) (\<lambda>x. cp_return (Some x)))"

end
