(* ===== verification/ControlHandlers.thy ===== *)
theory ControlHandlers
  imports Control
begin

text \<open>
  The control plane, second part: the handlers of \<^verbatim>\<open>app.mts\<close> for bundles, games, API kinds and players, and
  the change of a game's bundle. The upload of a bundle is given in its steps (checks, three puts, the
  read back, the entry in Redis), since uploads may interleave between them.
\<close>

record control_request =
  cq_method :: string
  cq_url :: "string + string \<times> string js_map"
  cq_body :: string
  cq_uploadedBy :: "string option"

definition cp_body :: "('d, 'o, 's) control_env \<Rightarrow> control_request \<Rightarrow> string \<Rightarrow> ('d, 'o, 's, js js_map) cp" where
  "cp_body C rq label = cp_bind (cp_http (readJson (cc_host C) (cq_body rq))) (\<lambda>v. cp_http (asRecord v label))"

definition methodNotAllowed :: "control_request \<Rightarrow> ('d, 'o, 's, 'a) cp" where
  "methodNotAllowed rq = cp_throw 405 ''methodNotAllowed'' [(''method'', JStr (cq_method rq))]"

definition requireGame :: "('d, 'o, 's) control_env \<Rightarrow> string \<Rightarrow> ('d, 'o, 's, js) cp" where
  "requireGame C gameId =
     cp_bind (cp_read (getGame (cc_host C) (cc_R C) gameId))
       (\<lambda>g. case g of None \<Rightarrow> cp_throw 404 ''gameNotFound'' [(''gameId'', JStr gameId)] | Some game \<Rightarrow> cp_return game)"

definition requireBundle :: "('d, 'o, 's) control_env \<Rightarrow> string \<Rightarrow> ('d, 'o, 's, js) cp" where
  "requireBundle C bundleName =
     cp_bind (cp_read (getBundle (cc_host C) (cc_R C) bundleName))
       (\<lambda>b. case b of None \<Rightarrow> cp_throw 404 ''bundleNotFound'' [(''bundleName'', JStr bundleName)] | Some bundle \<Rightarrow> cp_return bundle)"

section \<open>Bundles\<close>

text \<open>\<^verbatim>\<open>JSON.stringify(value, null, 2)\<close>\<close>

definition newline_in :: "nat \<Rightarrow> string" where
  "newline_in i = CHR 0x0A # replicate i (CHR '' '')"

fun json_pretty :: "nat \<Rightarrow> js \<Rightarrow> string" where
  "json_pretty i (JArr xs) =
     (if xs = [] then ''[]''
      else ''['' @ join '','' (map (\<lambda>x. newline_in (i + 2) @ json_pretty (i + 2) x) xs) @ newline_in i @ '']'')"
| "json_pretty i (JObj fs) =
     (if fs = [] then [CHR 0x7B, CHR 0x7D]
      else [CHR 0x7B] @ join '','' (map (\<lambda>(k, x). newline_in (i + 2) @ quote k @ '': '' @ json_pretty (i + 2) x) fs) @ newline_in i @ [CHR 0x7D])"
| "json_pretty i v = json_text v"

definition sha256String :: "host \<Rightarrow> string \<Rightarrow> string" where
  "sha256String H source = ''sha256:'' @ host_sha256 H source"

record bundle_upload =
  bu_bundleName :: string
  bu_manifest :: BundleManifest
  bu_source :: string
  bu_uploadedAt :: string
  bu_uploadedBy :: string

definition tigrisPath :: "string \<Rightarrow> string" where
  "tigrisPath bundleName = ''bundles/'' @ bundleName @ ''/''"

definition sourceObjectKey :: "string \<Rightarrow> string" where
  "sourceObjectKey bundleName = tigrisPath bundleName @ ''source.js''"

definition manifestObjectKey :: "string \<Rightarrow> string" where
  "manifestObjectKey bundleName = tigrisPath bundleName @ ''manifest.json''"

definition metadataObjectKey :: "string \<Rightarrow> string" where
  "metadataObjectKey bundleName = tigrisPath bundleName @ ''metadata.json''"

definition upload_fields :: "host \<Rightarrow> bundle_upload \<Rightarrow> js js_map" where
  "upload_fields H u =
     [(''uploadedAt'', JStr (bu_uploadedAt u)), (''uploadedBy'', JStr (bu_uploadedBy u)),
      (''tigrisPath'', JStr (tigrisPath (bu_bundleName u))), (''sourceObjectKey'', JStr (sourceObjectKey (bu_bundleName u))),
      (''manifestObjectKey'', JStr (manifestObjectKey (bu_bundleName u))),
      (''metadataObjectKey'', JStr (metadataObjectKey (bu_bundleName u))),
      (''contentSha256'', JStr (sha256String H (bu_source u))), (''sizeBytes'', JNum (int (length (bu_source u))))]"

definition metadata_js :: "host \<Rightarrow> bundle_upload \<Rightarrow> js" where
  "metadata_js H u = JObj ((''bundleName'', JStr (bu_bundleName u)) # upload_fields H u)"

definition bundle_js :: "host \<Rightarrow> bundle_upload \<Rightarrow> js" where
  "bundle_js H u = JObj ([(''bundleName'', JStr (bu_bundleName u)), (''manifest'', bundle_manifest_js (bu_manifest u))] @ upload_fields H u)"

definition upload_check :: "('d, 'o, 's) control_env \<Rightarrow> control_request \<Rightarrow> string \<Rightarrow> ('d, 'o, 's, bundle_upload) cp" where
  "upload_check C rq bundleName =
     cp_bind (cp_http (assertBundleName bundleName)) (\<lambda>_.
     cp_bind (cp_body C rq ''bundle upload body'') (\<lambda>body.
     cp_bind (cp_lift (assertBundleManifest (let m = js_get (JObj body) ''manifest'' in if m = JUndef \<or> m = JNull then JObj body else m))) (\<lambda>manifest.
     cp_bind (cp_http (body_string body ''source'')) (\<lambda>source.
     cp_bind (cp_read (getBundle (cc_host C) (cc_R C) bundleName)) (\<lambda>existing.
     if existing \<noteq> None then cp_throw 409 ''bundleAlreadyExists'' [(''bundleName'', JStr bundleName)]
     else cp_return \<lparr>bu_bundleName = bundleName, bu_manifest = manifest, bu_source = source, bu_uploadedAt = cc_iso C,
            bu_uploadedBy = default ''vercel-backend'' (cq_uploadedBy rq)\<rparr>)))))"

definition cp_put :: "('d, 'o, 's) control_env \<Rightarrow> string \<Rightarrow> string \<Rightarrow> string \<Rightarrow> ('d, 'o, 's, unit) cp" where
  "cp_put C key body contentType w =
     (case bo_put (cc_B C) key body contentType (cp_objects w) of (x, o1) \<Rightarrow> cp_lift x (w\<lparr>cp_objects := o1\<rparr>))"

definition upload_objects :: "('d, 'o, 's) control_env \<Rightarrow> bundle_upload \<Rightarrow> ('d, 'o, 's, unit) cp" where
  "upload_objects C u =
     cp_bind (cp_put C (sourceObjectKey (bu_bundleName u)) (bu_source u) ''application/javascript; charset=utf-8'') (\<lambda>_.
     cp_bind (cp_put C (manifestObjectKey (bu_bundleName u)) (json_pretty 0 (bundle_manifest_js (bu_manifest u))) ''application/json'') (\<lambda>_.
     cp_put C (metadataObjectKey (bu_bundleName u)) (json_pretty 0 (metadata_js (cc_host C) u)) ''application/json''))"

definition upload_verify :: "('d, 'o, 's) control_env \<Rightarrow> bundle_upload \<Rightarrow> ('d, 'o, 's, unit) cp" where
  "upload_verify C u w =
     cp_bind (cp_lift (bo_get (cc_B C) (sourceObjectKey (bu_bundleName u)) (cp_objects w))) (\<lambda>stored.
       if map_option (sha256String (cc_host C)) stored = Some (sha256String (cc_host C) (bu_source u)) then cp_return ()
       else cp_throw 503 ''bundleStorageVerificationFailed''
              [(''bundleName'', JStr (bu_bundleName u)), (''sourceObjectKey'', JStr (sourceObjectKey (bu_bundleName u))),
               (''contentSha256'', JStr (sha256String (cc_host C) (bu_source u)))]) w"

definition upload_commit :: "('d, 'o, 's) control_env \<Rightarrow> bundle_upload \<Rightarrow> ('d, 'o, 's, http_response) cp" where
  "upload_commit C u =
     cp_bind (cp_do (putBundleWriteOnce (cc_R C) (bundle_js (cc_host C) u))) (\<lambda>created.
       if \<not> created then cp_throw 409 ''bundleAlreadyExists'' [(''bundleName'', JStr (bu_bundleName u))]
       else cp_return (JsonResponse 201 (JObj [(''ok'', JBool True), (''bundle'', bundle_js (cc_host C) u),
              (''contentSha256'', JStr (sha256String (cc_host C) (bu_source u))), (''sizeBytes'', JNum (int (length (bu_source u))))])))"

definition upload_bundle :: "('d, 'o, 's) control_env \<Rightarrow> control_request \<Rightarrow> string \<Rightarrow> ('d, 'o, 's, http_response) cp" where
  "upload_bundle C rq bundleName =
     cp_bind (upload_check C rq bundleName) (\<lambda>u.
     cp_bind (upload_objects C u) (\<lambda>_. cp_bind (upload_verify C u) (\<lambda>_. upload_commit C u)))"

definition handleBundle :: "('d, 'o, 's) control_env \<Rightarrow> control_request \<Rightarrow> string \<Rightarrow> ('d, 'o, 's, http_response) cp" where
  "handleBundle C rq bundleName =
     (if cq_method rq = ''GET''
      then cp_bind (requireBundle C bundleName) (\<lambda>bundle. cp_return (JsonResponse 200 (JObj [(''ok'', JBool True), (''bundle'', bundle)])))
      else if cq_method rq = ''DELETE''
      then cp_bind (cp_try (deleteBundleIfUnused (cc_host C) (cc_R C) bundleName)) (\<lambda>r.
             case r of
               InUse gameIds \<Rightarrow> cp_throw 409 ''bundleInUse'' [(''bundleName'', JStr bundleName), (''gameIds'', JArr (map JStr gameIds))]
             | Deleted \<Rightarrow> cp_return (JsonResponse 200 (JObj [(''ok'', JBool True), (''status'', JStr ''deleted'')]))
             | MissingBundle \<Rightarrow> cp_return (JsonResponse 404 (JObj [(''ok'', JBool False), (''status'', JStr ''missing'')])))
      else if cq_method rq \<noteq> ''POST'' then methodNotAllowed rq
      else upload_bundle C rq bundleName)"

section \<open>Games\<close>

definition game_js :: "string \<Rightarrow> string \<Rightarrow> string option \<Rightarrow> int \<Rightarrow> js" where
  "game_js gameId bundleName blobCompatTag createdAt =
     JObj ([(''gameId'', JStr gameId), (''bundleName'', JStr bundleName)]
       @ (case blobCompatTag of None \<Rightarrow> [] | Some t \<Rightarrow> [(''blobCompatTag'', JStr t)]) @ [(''createdAt'', JNum createdAt)])"

definition put_initial :: "('d, 'o, 's) control_env \<Rightarrow> string \<Rightarrow> storage_tier \<Rightarrow> (string \<times> int) option \<Rightarrow> ('d, 'o, 's, unit) cp" where
  "put_initial C gameId tier v =
     (case v of None \<Rightarrow> cp_return () | Some (raw, bytes) \<Rightarrow> cp_do (\<lambda>d. ((), putStorageRaw (cc_R C) gameId tier raw d)))"

definition add_players :: "('d, 'o, 's) control_env \<Rightarrow> string \<Rightarrow> string list \<Rightarrow> ('d, 'o, 's, unit) cp" where
  "add_players C gameId ps = cp_do (\<lambda>d. ((), fold (addAllowedPlayer (cc_R C) gameId) ps d))"

definition handleGamesCollection :: "('d, 'o, 's) control_env \<Rightarrow> control_request \<Rightarrow> ('d, 'o, 's, http_response) cp" where
  "handleGamesCollection C rq =
     (if cq_method rq \<noteq> ''POST'' then methodNotAllowed rq
      else
        cp_bind (cp_body C rq ''game create body'') (\<lambda>body.
        cp_bind (cp_http (body_string body ''gameId'')) (\<lambda>gameId.
        cp_bind (cp_http (body_string body ''bundleName'')) (\<lambda>bundleName.
        cp_bind (requireBundle C bundleName) (\<lambda>_.
        cp_bind (readOptionalStoredValue C body ''initialState'' ''initialStateUrl'' (cc_stateLimit C)) (\<lambda>initialState.
        cp_bind (readOptionalStoredValue C body ''initialBlob'' ''initialBlobUrl'' (cc_blobLimit C)) (\<lambda>initialBlob.
        cp_bind (cp_http (readOptionalString body ''blobCompatTag'')) (\<lambda>blobCompatTag.
        let game = game_js gameId bundleName blobCompatTag (cc_now C) in
        cp_bind (cp_do (putGameWriteOnce (cc_R C) game)) (\<lambda>created.
        if \<not> created then cp_throw 409 ''gameAlreadyExists'' [(''gameId'', JStr gameId)]
        else
          cp_bind (put_initial C gameId StateTier initialState) (\<lambda>_.
          cp_bind (put_initial C gameId BlobTier initialBlob) (\<lambda>_.
          cp_bind (cp_http (readOptionalStringArray body ''allowedPlayers'')) (\<lambda>allowedPlayers.
          cp_bind (add_players C gameId allowedPlayers) (\<lambda>_.
          cp_return (JsonResponse 201 (JObj [(''ok'', JBool True), (''game'', game),
            (''storage'', JObj [(''stateBytes'', JNum (case initialState of None \<Rightarrow> 0 | Some x \<Rightarrow> snd x)),
              (''blobBytes'', JNum (case initialBlob of None \<Rightarrow> 0 | Some x \<Rightarrow> snd x))])])))))))))))))) )"

section \<open>API kinds\<close>

definition cp_assertApiKindRegistration :: "('d, 'o, 's) control_env \<Rightarrow> ApiKindRegistration \<Rightarrow> HttpError + unit" where
  "cp_assertApiKindRegistration C r =
     (if \<not> isApiKindName (ak_kindName r)
      then Inl (badRequest [(''field'', JStr ''kindName''), (''expected'', JStr ''versioned API kind name such as mock-ai.v1'')])
      else case cc_protocol C (ak_url r) of
        Inl m \<Rightarrow> Inl (badRequest [(''field'', JStr ''url''), (''message'', JStr m)])
      | Inr p \<Rightarrow> if p \<noteq> ''http:'' \<and> p \<noteq> ''https:''
                then Inl (badRequest [(''field'', JStr ''url''), (''message'', JStr ''URL must be http or https'')]) else Inr ())"

definition handleApiKindsCollection :: "('d, 'o, 's) control_env \<Rightarrow> control_request \<Rightarrow> ('d, 'o, 's, http_response) cp" where
  "handleApiKindsCollection C rq =
     (if cq_method rq = ''GET''
      then cp_bind (cp_read (listApiKinds (cc_host C) (cc_R C))) (\<lambda>kinds.
             cp_return (JsonResponse 200 (JObj [(''ok'', JBool True), (''kinds'', JArr kinds)])))
      else if cq_method rq \<noteq> ''POST'' then methodNotAllowed rq
      else
        cp_bind (cp_body C rq ''api-kind registration'') (\<lambda>body.
        cp_bind (cp_http (body_string body ''kindName'')) (\<lambda>kindName.
        cp_bind (cp_http (body_string body ''url'')) (\<lambda>url.
        let registration = \<lparr>ak_kindName = kindName, ak_url = url, ak_registeredAt = Some (cc_now C)\<rparr> in
        cp_bind (cp_http (cp_assertApiKindRegistration C registration)) (\<lambda>_.
        cp_bind (cp_do (\<lambda>d. ((), putApiKind (cc_R C) registration d))) (\<lambda>_.
        cp_return (JsonResponse 201 (JObj [(''ok'', JBool True), (''registration'', registration_js registration)]))))))))"

definition handleApiKindResource :: "('d, 'o, 's) control_env \<Rightarrow> control_request \<Rightarrow> string \<Rightarrow> ('d, 'o, 's, http_response) cp" where
  "handleApiKindResource C rq kindName =
     (if cq_method rq = ''GET''
      then cp_bind (cp_read (getApiKind (cc_host C) (cc_R C) kindName)) (\<lambda>r.
             case r of
               None \<Rightarrow> cp_throw 404 ''apiKindNotFound'' [(''kindName'', JStr kindName)]
             | Some registration \<Rightarrow> cp_return (JsonResponse 200 (JObj [(''ok'', JBool True), (''registration'', registration)])))
      else if cq_method rq = ''DELETE''
      then cp_bind (cp_do (deleteApiKind (cc_R C) kindName)) (\<lambda>deleted.
             cp_return (JsonResponse (if deleted then 200 else 404) (JObj [(''ok'', JBool deleted)])))
      else methodNotAllowed rq)"

section \<open>Players\<close>

definition handlePlayerResource :: "('d, 'o, 's) control_env \<Rightarrow> control_request \<Rightarrow> string \<Rightarrow> ('d, 'o, 's, http_response) cp" where
  "handlePlayerResource C rq playerId =
     (if cq_method rq \<noteq> ''DELETE'' then methodNotAllowed rq
      else if playerId = [] then cp_throw 400 ''badRequest'' [(''field'', JStr ''playerId'')]
      else
        cp_bind (cp_do (removePlayerFromAllAllowedLists (cc_R C) playerId)) (\<lambda>removed.
        cp_bind (appendControlHistory C ''player.deleted'' [(''playerId'', JStr playerId),
          (''removedFromGameIds'', JArr (map JStr removed)), (''removedFromGameCount'', JNum (int (length removed)))]) (\<lambda>_.
        cp_return (JsonResponse 200 (JObj [(''ok'', JBool True), (''playerId'', JStr playerId),
          (''removedFromGameIds'', JArr (map JStr removed))])))))"

definition handlePlayerGames :: "('d, 'o, 's) control_env \<Rightarrow> control_request \<Rightarrow> string \<Rightarrow> ('d, 'o, 's, http_response) cp" where
  "handlePlayerGames C rq playerId =
     (if cq_method rq \<noteq> ''GET'' then methodNotAllowed rq
      else if playerId = [] then cp_throw 400 ''badRequest'' [(''field'', JStr ''playerId'')]
      else cp_bind (cp_read (listGamesForAllowedPlayer (cc_host C) (cc_R C) playerId)) (\<lambda>games.
             cp_return (JsonResponse 200 (JObj [(''ok'', JBool True), (''playerId'', JStr playerId),
               (''gameIds'', JArr (map (\<lambda>g. js_get g ''gameId'') games)), (''games'', JArr games)]))))"

section \<open>The bundle of a game\<close>

definition compat_js :: "CompatCheckResult \<Rightarrow> js js_map" where
  "compat_js c =
     (case c of
        CompatOk \<Rightarrow> [(''ok'', JBool True)]
      | CompatRefused tag accepted \<Rightarrow> [(''ok'', JBool False), (''error'', JStr ''compatTagOutOfRange''), (''blobCompatTag'', JStr tag),
          (''bundleCompatTagsAccepted'', JArr (map JStr accepted))])"

definition rollback_js :: "js \<Rightarrow> string \<Rightarrow> int \<Rightarrow> int \<Rightarrow> js" where
  "rollback_js previous failed1 now retention =
     JObj [(''previousBundleName'', previous), (''failedBundleName'', JStr failed1), (''createdAt'', JNum now),
       (''expiresAt'', JNum (now + retention)), (''consecutiveWakeFailures'', JNum 0)]"

definition flipped_game :: "('d, 'o, 's) control_env \<Rightarrow> js \<Rightarrow> string \<Rightarrow> js" where
  "flipped_game C game newBundleName =
     js_spread game
       ((''bundleName'', JStr newBundleName)
        # (if js_get game ''bundleName'' = JStr newBundleName then []
           else [(''bundleRollback'', rollback_js (js_get game ''bundleName'') newBundleName (cc_now C) (cc_rollbackMs C))]))"

definition handleBundleFlip :: "('d, 'o, 's) control_env \<Rightarrow> control_request \<Rightarrow> string \<Rightarrow> ('d, 'o, 's, http_response) cp" where
  "handleBundleFlip C rq gameId =
     cp_bind (cp_body C rq ''bundle flip body'') (\<lambda>body.
     cp_bind (cp_http (body_string body ''newBundleName'')) (\<lambda>newBundleName.
     cp_bind (requireGame C gameId) (\<lambda>game.
     cp_bind (requireBundle C newBundleName) (\<lambda>bundle.
     let compat = checkBundleCompat (js_get game ''blobCompatTag'') (js_get bundle ''manifest'') in
     if compat \<noteq> CompatOk
     then cp_bind (appendControlHistory C ''bundle.flip.rejected''
            ([(''gameId'', JStr gameId), (''oldBundleName'', js_get game ''bundleName''), (''newBundleName'', JStr newBundleName)] @ compat_js compat)) (\<lambda>_.
          cp_return (JsonResponse 409 (JObj (compat_js compat))))
     else
       let updated = flipped_game C game newBundleName in
       cp_bind (cp_do (\<lambda>d. ((), putGame (cc_R C) updated d))) (\<lambda>_.
       cp_bind (appendControlHistory C ''bundle.flip.succeeded''
          [(''gameId'', JStr gameId), (''oldBundleName'', js_get game ''bundleName''), (''newBundleName'', JStr newBundleName),
           (''blobCompatTag'', js_get game ''blobCompatTag''),
           (''rollbackBackupExpiresAt'', js_get (js_get updated ''bundleRollback'') ''expiresAt'')]) (\<lambda>_.
       cp_return (JsonResponse 200 (JObj [(''ok'', JBool True), (''game'', updated)]))))))))"

definition handleBundleCompatDryRun :: "('d, 'o, 's) control_env \<Rightarrow> string \<Rightarrow> string option \<Rightarrow> ('d, 'o, 's, http_response) cp" where
  "handleBundleCompatDryRun C gameId bundleName =
     (case truthy bundleName of
        None \<Rightarrow> cp_throw 400 ''badRequest'' [(''field'', JStr ''bundleName'')]
      | Some name \<Rightarrow>
          cp_bind (requireGame C gameId) (\<lambda>game.
          cp_bind (requireBundle C name) (\<lambda>bundle.
          let compat = checkBundleCompat (js_get game ''blobCompatTag'') (js_get bundle ''manifest'') in
          cp_return (JsonResponse (if compat = CompatOk then 200 else 409) (JObj (compat_js compat))))))"

end
