(* ===== verification/ControlRoutes.thy ===== *)
theory ControlRoutes
  imports ControlHandlers
begin

text \<open>
  The control plane, third part: host events, shards, the history, snapshots, checkpoints and restores, and
  the routes of \<^verbatim>\<open>app.mts\<close>.
\<close>

section \<open>Host events\<close>

record host_event_target =
  tg_shardId :: js
  tg_shardUrl :: string
  tg_wakeTriggered :: bool

definition activeHostEventTarget :: "('d, 'o, 's) control_env \<Rightarrow> js \<Rightarrow> ('d, 'o, 's, host_event_target) cp" where
  "activeHostEventTarget C activeGame =
     cp_bind (cp_read (getShard (cc_host C) (cc_R C) (js_String (js_get activeGame ''shardId'')))) (\<lambda>s.
       case s of
         None \<Rightarrow> cp_throw 503 ''activeShardMissing'' [(''shardId'', js_get activeGame ''shardId'')]
       | Some shard \<Rightarrow> cp_return \<lparr>tg_shardId = js_get shard ''shardId'', tg_shardUrl = js_String (js_get shard ''url''), tg_wakeTriggered = False\<rparr>)"

definition cp_URL :: "('d, 'o, 's) control_env \<Rightarrow> string \<Rightarrow> string \<Rightarrow> ('d, 'o, 's, string) cp" where
  "cp_URL C path base = cp_lift (cc_URL C path base)"

definition placementHostEventTarget :: "('d, 'o, 's) control_env \<Rightarrow> string \<Rightarrow> ('d, 'o, 's, host_event_target) cp" where
  "placementHostEventTarget C gameId =
     cp_bind (cp_URL C ''/placement'' (cc_routerUrl C)) (\<lambda>url.
     cp_bind (cp_fetch C ''POST'' url (Some (json_text (JObj [(''gameId'', JStr gameId), (''playerId'', JStr ''__pax_host_event__''),
        (''passthrough'', JObj [(''internalWake'', JStr ''hostEvent'')])])))) (\<lambda>r.
     if \<not> fp_ok r
     then cp_throw 503 ''hostEventWakePlacementFailed'' [(''gameId'', JStr gameId), (''status'', JNum (fp_status r)), (''body'', JStr (fp_text r))]
     else
       cp_bind (cp_lift (case host_parse (cc_host C) (fp_text r) of None \<Rightarrow> Inl ''SyntaxError'' | Some v \<Rightarrow> Inr v)) (\<lambda>placement.
       case (js_string (js_get placement ''shardId''), js_string (js_get placement ''shardUrl'')) of
         (Some shardId, Some shardUrl) \<Rightarrow> cp_return \<lparr>tg_shardId = JStr shardId, tg_shardUrl = shardUrl, tg_wakeTriggered = True\<rparr>
       | _ \<Rightarrow> cp_throw 503 ''hostEventWakePlacementFailed'' [(''gameId'', JStr gameId),
                (''detail'', JStr ''placement response missing shardId or shardUrl'')])))"

definition isReleasedDuringHostEventDelivery :: "int \<Rightarrow> string \<Rightarrow> bool" where
  "isReleasedDuringHostEventDelivery status body \<longleftrightarrow> status \<ge> 500 \<and> sublist '' was released'' body"

definition drain_path :: "string \<Rightarrow> string" where
  "drain_path gameId = ''/admin/games/'' @ encodeURIComponent gameId @ ''/host-events/drain''"

definition retry_delivery ::
  "('d, 'o, 's) control_env \<Rightarrow> string \<Rightarrow> fetch_reply \<Rightarrow> ('d, 'o, 's, bool) cp" where
  "retry_delivery C gameId initial =
     cp_bind (placementHostEventTarget C gameId) (\<lambda>retry.
     cp_bind (cp_URL C (drain_path gameId) (tg_shardUrl retry)) (\<lambda>retryUrl.
     cp_bind (cp_fetch C ''POST'' retryUrl None) (\<lambda>r.
     if fp_ok r
     then cp_bind (appendControlHistory C ''onHostEvent.wakeRequested''
            [(''gameId'', JStr gameId), (''shardId'', tg_shardId retry), (''shardUrl'', JStr (tg_shardUrl retry)),
             (''deliveryUrl'', JStr retryUrl), (''reason'', JStr ''activeGameReleased'')]) (\<lambda>_. cp_return True)
     else cp_throw 503 ''hostEventDeliveryFailed''
            [(''gameId'', JStr gameId), (''shardUrl'', JStr (tg_shardUrl retry)), (''status'', JNum (fp_status r)), (''body'', JStr (fp_text r)),
             (''initialStatus'', JNum (fp_status initial)), (''initialBody'', JStr (fp_text initial))])))"

definition triggerHostEventDelivery :: "('d, 'o, 's) control_env \<Rightarrow> string \<Rightarrow> js option \<Rightarrow> ('d, 'o, 's, bool) cp" where
  "triggerHostEventDelivery C gameId activeGame =
     cp_bind (case activeGame of Some a \<Rightarrow> activeHostEventTarget C a | None \<Rightarrow> placementHostEventTarget C gameId) (\<lambda>target.
     cp_bind (cp_URL C (drain_path gameId) (tg_shardUrl target)) (\<lambda>deliveryUrl.
     cp_bind (cp_fetch C ''POST'' deliveryUrl None) (\<lambda>r.
     if \<not> fp_ok r
     then if \<not> tg_wakeTriggered target \<and> isReleasedDuringHostEventDelivery (fp_status r) (fp_text r)
          then retry_delivery C gameId r
          else cp_throw 503 ''hostEventDeliveryFailed''
                 [(''gameId'', JStr gameId), (''shardUrl'', JStr (tg_shardUrl target)), (''status'', JNum (fp_status r)), (''body'', JStr (fp_text r))]
     else cp_bind (appendControlHistory C
            (if tg_wakeTriggered target then ''onHostEvent.wakeRequested'' else ''onHostEvent.deliveryRequested'')
            [(''gameId'', JStr gameId), (''shardId'', tg_shardId target), (''shardUrl'', JStr (tg_shardUrl target)),
             (''deliveryUrl'', JStr deliveryUrl)]) (\<lambda>_. cp_return (tg_wakeTriggered target)))))"

definition host_event :: "('d, 'o, 's) control_env \<Rightarrow> string \<Rightarrow> string \<Rightarrow> js \<Rightarrow> bool \<Rightarrow> HostEventRecord" where
  "host_event C gameId eventType payload wakeOnDelivery =
     \<lparr>he_gameId = gameId, he_eventId = cc_uuid C, he_eventType = eventType, he_payload = payload, he_receivedAt = cc_now C,
      he_deliveryAttempts = 0, he_wakeOnDelivery = wakeOnDelivery, he_expiresAt = cc_now C + HOST_EVENT_QUEUE_TTL_SECONDS * 1000\<rparr>"

definition handleHostEvent :: "('d, 'o, 's) control_env \<Rightarrow> control_request \<Rightarrow> string \<Rightarrow> ('d, 'o, 's, http_response) cp" where
  "handleHostEvent C rq gameId =
     cp_bind (requireGame C gameId) (\<lambda>_.
     cp_bind (cp_body C rq ''host-event body'') (\<lambda>body.
     cp_bind (cp_http (body_string body ''eventType'')) (\<lambda>eventType.
     let payload = (if map_has body ''payload'' then js_get (JObj body) ''payload'' else JNull);
         wakeOnDelivery = (js_get (JObj body) ''wakeOnDelivery'' = JBool True);
         ev = host_event C gameId eventType payload wakeOnDelivery in
     cp_bind (cp_read (getActiveGame (cc_host C) (cc_R C) gameId)) (\<lambda>activeGame.
     cp_bind (appendControlHistory C ''onHostEvent.received''
        [(''gameId'', JStr gameId), (''eventId'', JStr (cc_uuid C)), (''eventType'', JStr eventType), (''payload'', payload),
         (''wakeOnDelivery'', JBool wakeOnDelivery), (''receivedAt'', JNum (cc_now C))]) (\<lambda>_.
     if \<not> wakeOnDelivery \<and> activeGame = None
     then cp_bind (appendControlHistory C ''onHostEvent.dropped''
            [(''gameId'', JStr gameId), (''eventId'', JStr (cc_uuid C)), (''eventType'', JStr eventType),
             (''wakeOnDelivery'', JBool wakeOnDelivery), (''reason'', JStr ''gameAsleep'')]) (\<lambda>_.
          cp_return (JsonResponse 202 (JObj [(''ok'', JBool True), (''eventId'', JStr (cc_uuid C)), (''status'', JStr ''dropped''),
            (''wakeTriggered'', JBool False)])))
     else
       cp_bind (cp_do (\<lambda>d. ((), enqueueHostEvent (cc_R C) ev HOST_EVENT_QUEUE_TTL_SECONDS d))) (\<lambda>_.
       cp_bind (triggerHostEventDelivery C gameId activeGame) (\<lambda>wakeTriggered.
       cp_return (JsonResponse 202 (JObj [(''ok'', JBool True), (''eventId'', JStr (cc_uuid C)), (''status'', JStr ''queued''),
         (''wakeTriggered'', JBool wakeTriggered), (''deliveryTriggered'', JBool True)])))))))))"

section \<open>Shards\<close>

definition js_truthy :: "js \<Rightarrow> bool" where
  "js_truthy v = (case v of JUndef \<Rightarrow> False | JNull \<Rightarrow> False | JBool b \<Rightarrow> b | JNum n \<Rightarrow> n \<noteq> 0 | JStr s \<Rightarrow> s \<noteq> [] | JBig n \<Rightarrow> n \<noteq> 0 | _ \<Rightarrow> True)"

definition js_coalesce :: "js \<Rightarrow> js \<Rightarrow> js" where
  "js_coalesce v x = (if v = JUndef \<or> v = JNull then x else v)"

definition shardGameCount :: "js \<Rightarrow> js" where
  "shardGameCount shard = js_coalesce (js_get shard ''currentGameCount'') (js_get shard ''activeGames'')"

definition shardStatus :: "js \<Rightarrow> string" where
  "shardStatus shard =
     (let status = js_text (js_get shard ''status'') in
      if status \<in> {''healthy'', ''draining'', ''drained'', ''unhealthy''} then status
      else if \<not> js_truthy (js_get shard ''healthy'') then ''unhealthy''
      else if \<not> js_truthy (js_get shard ''acceptingWakes'') then if shardGameCount shard = JNum 0 then ''drained'' else ''draining''
      else ''healthy'')"

definition shardView :: "js \<Rightarrow> js" where
  "shardView shard = js_spread shard [(''status'', JStr (shardStatus shard)), (''currentGameCount'', shardGameCount shard)]"

definition maybeEmitDrainCompleted :: "('d, 'o, 's) control_env \<Rightarrow> js \<Rightarrow> ('d, 'o, 's, unit) cp" where
  "maybeEmitDrainCompleted C shard =
     (if shardStatus shard \<noteq> ''drained'' then cp_return ()
      else cp_bind (cp_do (markShardDrainCompletedOnce (cc_R C) (cc_now C) (js_String (js_get shard ''shardId'')))) (\<lambda>first.
             if \<not> first then cp_return ()
             else appendControlHistory C ''shard.drain.completed''
                    [(''shardId'', js_get shard ''shardId''), (''activeGames'', shardGameCount shard)]))"

definition setBrokerDrain :: "('d, 'o, 's) control_env \<Rightarrow> js \<Rightarrow> bool \<Rightarrow> ('d, 'o, 's, unit) cp" where
  "setBrokerDrain C shard draining =
     cp_bind (cp_URL C ''/admin/drain'' (js_String (js_get shard ''url''))) (\<lambda>url.
     cp_bind (cp_fetch C (if draining then ''POST'' else ''DELETE'') url None) (\<lambda>r.
     if fp_ok r then cp_return ()
     else cp_throw 503 ''brokerDrainRequestFailed''
            [(''shardId'', js_get shard ''shardId''), (''url'', JStr url), (''status'', JNum (fp_status r)), (''body'', JStr (fp_text r))]))"

fun shard_views :: "('d, 'o, 's) control_env \<Rightarrow> js list \<Rightarrow> ('d, 'o, 's, js list) cp" where
  "shard_views C [] = cp_return []"
| "shard_views C (s # ss) =
     cp_bind (maybeEmitDrainCompleted C s) (\<lambda>_. cp_bind (shard_views C ss) (\<lambda>vs. cp_return (shardView s # vs)))"

definition handleShardsCollection :: "('d, 'o, 's) control_env \<Rightarrow> control_request \<Rightarrow> ('d, 'o, 's, http_response) cp" where
  "handleShardsCollection C rq =
     (if cq_method rq \<noteq> ''GET'' then methodNotAllowed rq
      else cp_bind (cp_read (listShards (cc_host C) (cc_R C))) (\<lambda>shards.
           cp_bind (shard_views C shards) (\<lambda>views.
           cp_return (JsonResponse 200 (JObj [(''ok'', JBool True), (''shards'', JArr views)])))))"

definition not_found_path :: "string list \<Rightarrow> ('d, 'o, 's, 'a) cp" where
  "not_found_path parts = cp_throw 404 ''notFound'' [(''path'', JStr (''/'' @ join ''/'' parts))]"

definition shard_or_404 :: "string \<Rightarrow> js option \<Rightarrow> ('d, 'o, 's, js) cp" where
  "shard_or_404 shardId s = (case s of None \<Rightarrow> cp_throw 404 ''shardNotFound'' [(''shardId'', JStr shardId)] | Some shard \<Rightarrow> cp_return shard)"

definition handleShardResource :: "('d, 'o, 's) control_env \<Rightarrow> control_request \<Rightarrow> string list \<Rightarrow> ('d, 'o, 's, http_response) cp" where
  "handleShardResource C rq parts =
     (let shardId = parts ! 2 in
      if length parts = 3 \<and> cq_method rq = ''GET''
      then cp_bind (cp_read (getShard (cc_host C) (cc_R C) shardId)) (\<lambda>s.
           cp_bind (shard_or_404 shardId s) (\<lambda>shard.
           cp_bind (maybeEmitDrainCompleted C shard) (\<lambda>_.
           cp_return (JsonResponse 200 (JObj [(''ok'', JBool True), (''shard'', shardView shard)])))))
      else if length parts = 4 \<and> parts ! 3 = ''drain'' \<and> cq_method rq = ''POST''
      then cp_bind (cp_try (setShardDrain (cc_host C) (cc_R C) (cc_now C) shardId True)) (\<lambda>s.
           cp_bind (shard_or_404 shardId s) (\<lambda>shard.
           cp_bind (setBrokerDrain C shard True) (\<lambda>_.
           cp_bind (appendControlHistory C ''shard.drain.started'' [(''shardId'', JStr shardId), (''activeGames'', js_get shard ''activeGames'')]) (\<lambda>_.
           cp_bind (maybeEmitDrainCompleted C shard) (\<lambda>_.
           cp_return (JsonResponse 202 (JObj [(''ok'', JBool True), (''draining'', JBool True), (''shard'', shardView shard)])))))))
      else if length parts = 4 \<and> parts ! 3 = ''drain'' \<and> cq_method rq = ''DELETE''
      then cp_bind (cp_try (setShardDrain (cc_host C) (cc_R C) (cc_now C) shardId False)) (\<lambda>s.
           cp_bind (shard_or_404 shardId s) (\<lambda>shard.
           cp_bind (setBrokerDrain C shard False) (\<lambda>_.
           cp_return (JsonResponse 200 (JObj [(''ok'', JBool True), (''draining'', JBool False), (''shard'', shardView shard)])))))
      else not_found_path parts)"

section \<open>History\<close>

definition session_view_js :: "SessionRecordView \<Rightarrow> js" where
  "session_view_js s =
     JObj [(''sessionId'', JStr (sv_sessionId s)), (''playerId'', JStr (sv_playerId s)), (''gameId'', JStr (sv_gameId s)),
       (''connectedAt'', opt_int (sv_connectedAt s)),
       (''disconnectedAt'', (case sv_disconnectedAt s of None \<Rightarrow> JUndef | Some d \<Rightarrow> opt_int d)), (''reason'', opt_str (sv_reason s)),
       (''shardId'', JStr (sv_shardId s)), (''jwtClaims'', sv_jwtClaims s)]"

definition connected_js :: "SessionRecordView \<Rightarrow> js" where
  "connected_js s = JObj [(''sessionId'', JStr (sv_sessionId s)), (''playerId'', JStr (sv_playerId s)), (''connectedAt'', opt_int (sv_connectedAt s))]"

definition history_query :: "string js_map \<Rightarrow> HistoryQuery" where
  "history_query q =
     \<lparr>hq_event = map_get q ''event'', hq_gameId = map_get q ''gameId'', hq_playerId = map_get q ''playerId'',
      hq_sessionId = map_get q ''sessionId'', hq_shardId = map_get q ''shardId'', hq_from = map_get q ''from'', hq_to = map_get q ''to'',
      hq_cursor = optionalInt (map_get q ''cursor''), hq_limit = clampInt (map_get q ''limit'') 1 1000 500\<rparr>"

definition handleHistory :: "('d, 'o, 's) control_env \<Rightarrow> string js_map \<Rightarrow> ('d, 'o, 's, http_response) cp" where
  "handleHistory C q w =
     (case queryHistory (cc_host C) (cc_dateParse C) (cp_history w) (history_query q) of
        (events, nextCursor) \<Rightarrow>
          (Inr (JsonResponse 200 (JObj [(''ok'', JBool True), (''events'', JArr events),
             (''nextCursor'', (case nextCursor of None \<Rightarrow> JNull | Some n \<Rightarrow> JNum (int n)))])), w))"

definition handleSessionLookup :: "('d, 'o, 's) control_env \<Rightarrow> string \<Rightarrow> ('d, 'o, 's, http_response) cp" where
  "handleSessionLookup C sessionId w =
     (case sessionById (cc_host C) (cc_dateParse C) (cp_history w) sessionId of
        None \<Rightarrow> cp_throw 404 ''sessionNotFound'' [(''sessionId'', JStr sessionId)] w
      | Some s \<Rightarrow> (Inr (JsonResponse 200 (JObj [(''ok'', JBool True), (''session'', session_view_js s)])), w))"

section \<open>Snapshots and checkpoints\<close>

definition state_message :: "state_error \<Rightarrow> string" where
  "state_message e =
     (case e of
        StoreErr (ConditionalPutConflict k) \<Rightarrow> ''conditional put conflict for '' @ k
      | StoreErr (StoreFailure m) \<Rightarrow> m
      | UnsupportedSchema \<Rightarrow> ''unsupported state root schema version''
      | GameIdMismatch g h \<Rightarrow> ''root gameId mismatch: expected '' @ g @ '', got '' @ h
      | MissingStateKey g \<Rightarrow> ''root '' @ g @ '' missing state object key''
      | StateObjectMissing k \<Rightarrow> ''state object missing: '' @ k
      | _ \<Rightarrow> ''SyntaxError'')"

definition cp_state_read :: "('d, 'o, 's) control_env \<Rightarrow> ('s \<Rightarrow> state_error + 'a) \<Rightarrow> ('d, 'o, 's, 'a) cp" where
  "cp_state_read C f w = cp_lift (case f (cp_state w) of Inl e \<Rightarrow> Inl (state_message e) | Inr a \<Rightarrow> Inr a) w"

definition decodeStoredText :: "host \<Rightarrow> string \<Rightarrow> js js_map" where
  "decodeStoredText H raw =
     (let bytes = JNum (int (length raw)) in
      case host_parse H raw of
        None \<Rightarrow> [(''found'', JBool True), (''bytes'', bytes), (''parseError'', JStr ''SyntaxError'')]
      | Some (JObj fs) \<Rightarrow>
          if map_has fs ''value'' then [(''found'', JBool True), (''bytes'', bytes), (''value'', js_get (JObj fs) ''value'')]
          else [(''found'', JBool True), (''bytes'', bytes), (''value'', JObj fs)]
      | Some v \<Rightarrow> [(''found'', JBool True), (''bytes'', bytes), (''value'', v)])"

definition decodeStoredBytes :: "host \<Rightarrow> bytes \<Rightarrow> js js_map" where
  "decodeStoredBytes H bytes = (if bytes = [] then [(''found'', JBool False), (''bytes'', JNum 0)] else decodeStoredText H bytes)"

fun blob_snapshot_loop ::
  "host \<Rightarrow> 's StateObjectStore \<Rightarrow> 's \<Rightarrow> BlobVersion js_map \<Rightarrow> state_error + js js_map \<times> js js_map" where
  "blob_snapshot_loop H ops s [] = Inr ([], [])"
| "blob_snapshot_loop H ops s ((key, version) # rest) =
     (case obj_get ops s (bv_objectKey version) of
        Inl e \<Rightarrow> Inl e
      | Inr object \<Rightarrow>
         (case blob_snapshot_loop H ops s rest of
            Inl e \<Rightarrow> Inl e
          | Inr (values, storage) \<Rightarrow>
             (case object of
                None \<Rightarrow> Inr (values, (key, JObj [(''found'', JBool False), (''bytes'', JNum 0), (''sha256'', JStr (bv_sha256 version)),
                              (''objectKey'', JStr (bv_objectKey version))]) # storage)
              | Some (body, v) \<Rightarrow>
                  Inr ((key, JStr (b64_encode body)) # values,
                       (key, JObj (decodeStoredBytes H body @ [(''base64'', JStr (b64_encode body)), (''sha256'', JStr (bv_sha256 version)),
                                (''objectKey'', JStr (bv_objectKey version))])) # storage))))"

definition readBlobSnapshot :: "('d, 'o, 's) control_env \<Rightarrow> MaterializedGameState \<Rightarrow> bool \<Rightarrow> ('d, 'o, 's, js \<times> js) cp" where
  "readBlobSnapshot C m includeBlob =
     (if \<not> includeBlob then cp_return (JNull, JObj [(''omitted'', JBool True)])
      else cp_bind (cp_state_read C (\<lambda>s. blob_snapshot_loop (cc_host C) (cc_ops C) s
               (sort_by (\<lambda>a b. host_localeLe (cc_host C) (fst a) (fst b)) (mt_blobs m)))) (\<lambda>(values, storage).
             cp_return (JObj values, JObj storage)))"

definition out_of_horizon :: "string \<Rightarrow> string \<Rightarrow> js \<Rightarrow> ('d, 'o, 's, 'a) cp" where
  "out_of_horizon field gameId checkpointSeq = cp_throw 409 ''checkpointOutOfHorizon'' [(''gameId'', JStr gameId), (field, checkpointSeq)]"

definition snapshot_state :: "('d, 'o, 's) control_env \<Rightarrow> string \<Rightarrow> int option \<Rightarrow> ('d, 'o, 's, MaterializedGameState) cp" where
  "snapshot_state C gameId atSeq =
     (case atSeq of
        None \<Rightarrow> cp_state_read C (\<lambda>s. materialize (cc_E C) (cc_ops C) s gameId)
      | Some n \<Rightarrow>
          cp_bind (cp_state_read C (\<lambda>s. viewCheckpoint (cc_E C) (cc_ops C) s gameId n)) (\<lambda>m.
            case m of None \<Rightarrow> out_of_horizon ''atCheckpointSeq'' gameId (JNum n) | Some x \<Rightarrow> cp_return x))"

definition handleGameSnapshot :: "('d, 'o, 's) control_env \<Rightarrow> string \<Rightarrow> string js_map \<Rightarrow> ('d, 'o, 's, http_response) cp" where
  "handleGameSnapshot C gameId q w =
     cp_bind (requireGame C gameId) (\<lambda>game.
     let includeBlob = (map_get q ''includeBlob'' \<noteq> Some ''false''); apiLimit = clampInt (map_get q ''apiLimit'') 0 1000 100 in
     cp_bind (cp_http (readOptionalIntegerQuery (map_get q ''at'') ''at'')) (\<lambda>atSeq.
     cp_bind (snapshot_state C gameId atSeq) (\<lambda>m.
     let decodedState = decodeStoredBytes (cc_host C) (mt_state m) in
     cp_bind (readBlobSnapshot C m includeBlob) (\<lambda>(blob, blobStorage).
     cp_bind (cp_do (\<lambda>d. (listAllowedPlayers (cc_R C) gameId d, d))) (\<lambda>allowedPlayers.
     cp_return (JsonResponse 200 (JObj [(''ok'', JBool True), (''game'', game), (''checkpointSeq'', JNum (mt_checkpointSeq m)),
       (''atCheckpointSeq'', (case atSeq of None \<Rightarrow> JNull | Some n \<Rightarrow> JNum n)), (''allowedPlayers'', JArr (map JStr allowedPlayers)),
       (''connectedPlayers'', JArr (map connected_js (connectedPlayersForGame (cc_host C) (cc_dateParse C) (cp_history w) gameId))),
       (''state'', js_coalesce (js_get (JObj decodedState) ''value'') JNull), (''blob'', blob),
       (''storage'', JObj [(''state'', JObj decodedState), (''blob'', blobStorage)]),
       (''recentApiInvokes'', JArr (if apiLimit = 0 then []
          else apiWireRecordsForGame (cc_host C) (cc_wireFile C) (cp_history w) gameId apiLimit))]))))))) w"

definition checkpointResponse :: "StateCheckpoint \<Rightarrow> js" where
  "checkpointResponse c =
     JObj [(''checkpointSeq'', JNum (cp_checkpointSeq c)), (''rootId'', JStr (cp_rootId c)), (''rootObjectKey'', JStr (cp_rootObjectKey c)),
       (''ts'', JStr (cp_createdAt c)), (''createdAt'', JStr (cp_createdAt c)), (''codec'', codec_js (cp_codec c)),
       (''byteSize'', JNum (cp_byteSize c)), (''blobCompatTag'', str_or_null (cp_blobCompatTag c)),
       (''bundleCompatTag'', str_or_null (cp_bundleCompatTag c))]"

definition handleGameCheckpoints :: "('d, 'o, 's) control_env \<Rightarrow> string \<Rightarrow> string js_map \<Rightarrow> ('d, 'o, 's, http_response) cp" where
  "handleGameCheckpoints C gameId q =
     cp_bind (requireGame C gameId) (\<lambda>_.
     cp_bind (cp_state_read C (\<lambda>s. listCheckpoints (cc_E C) (cc_ops C) s gameId (nat (clampInt (map_get q ''limit'') 1 1000 100)))) (\<lambda>cs.
     cp_return (JsonResponse 200 (JObj [(''ok'', JBool True), (''gameId'', JStr gameId),
       (''head'', (case cs of [] \<Rightarrow> JNull | c # _ \<Rightarrow> JNum (cp_checkpointSeq c))), (''checkpoints'', JArr (map checkpointResponse cs)),
       (''nextCursor'', JNull)]))))"

definition requestActiveRestoreReload :: "('d, 'o, 's) control_env \<Rightarrow> js \<Rightarrow> string \<Rightarrow> ('d, 'o, 's, js) cp" where
  "requestActiveRestoreReload C activeGame gameId =
     cp_bind (cp_read (getShard (cc_host C) (cc_R C) (js_String (js_get activeGame ''shardId'')))) (\<lambda>s.
     case s of
       None \<Rightarrow> cp_throw 503 ''activeShardMissing'' [(''shardId'', js_get activeGame ''shardId'')]
     | Some shard \<Rightarrow>
         cp_bind (cp_URL C (''/admin/games/'' @ encodeURIComponent gameId @ ''/reload-from-storage?reason=stateRestore'') (js_String (js_get shard ''url''))) (\<lambda>url.
         cp_bind (cp_fetch C ''POST'' url None) (\<lambda>r.
         if \<not> fp_ok r
         then cp_throw 503 ''restoreReloadFailed'' [(''gameId'', JStr gameId), (''shardId'', js_get shard ''shardId''),
                (''status'', JNum (fp_status r)), (''body'', JStr (fp_text r))]
         else cp_return (JObj [(''requested'', JBool True), (''shardId'', js_get shard ''shardId''), (''shardUrl'', js_get shard ''url'')]))))"

definition cp_restore :: "('d, 'o, 's) control_env \<Rightarrow> string \<Rightarrow> int \<Rightarrow> string option \<Rightarrow> string option \<Rightarrow> ('d, 'o, 's, StateRoot option) cp" where
  "cp_restore C gameId seq bundleCompatTag blobCompatTag w =
     (case restoreCheckpoint (cc_E C) (cc_ops C) gameId seq bundleCompatTag blobCompatTag (cp_state w) of
        (x, s) \<Rightarrow> cp_lift (case x of Inl e \<Rightarrow> Inl (state_message e) | Inr r \<Rightarrow> Inr r) (w\<lparr>cp_state := s\<rparr>))"

definition handleGameRestore :: "('d, 'o, 's) control_env \<Rightarrow> control_request \<Rightarrow> string \<Rightarrow> ('d, 'o, 's, http_response) cp" where
  "handleGameRestore C rq gameId =
     cp_bind (cp_body C rq ''restore body'') (\<lambda>body.
     cp_bind (cp_http (readPositiveInteger body ''atCheckpointSeq'')) (\<lambda>fromCheckpointSeq.
     cp_bind (requireGame C gameId) (\<lambda>game.
     cp_bind (requireBundle C (js_String (js_get game ''bundleName''))) (\<lambda>bundle.
     cp_bind (cp_state_read C (\<lambda>s. viewCheckpoint (cc_E C) (cc_ops C) s gameId fromCheckpointSeq)) (\<lambda>target.
     cp_bind (cp_read (getActiveGame (cc_host C) (cc_R C) gameId)) (\<lambda>activeGame.
     if target = None then out_of_horizon ''fromCheckpointSeq'' gameId (JNum fromCheckpointSeq)
     else
       cp_bind (cp_restore C gameId fromCheckpointSeq (js_string (js_get (js_get bundle ''manifest'') ''compatTagProduced''))
                  (js_string (js_get game ''blobCompatTag''))) (\<lambda>restored.
       case restored of
         None \<Rightarrow> out_of_horizon ''fromCheckpointSeq'' gameId (JNum fromCheckpointSeq)
       | Some root1 \<Rightarrow>
           cp_bind (appendControlHistory C ''state.restore''
              [(''gameId'', JStr gameId), (''fromCheckpointSeq'', JNum fromCheckpointSeq), (''newCheckpointSeq'', JNum (rt_checkpointSeq root1)),
               (''rootId'', JStr (rt_rootId root1)), (''activeReloadRequested'', JBool (activeGame \<noteq> None))]) (\<lambda>_.
           cp_bind (case activeGame of
                      Some a \<Rightarrow> requestActiveRestoreReload C a gameId
                    | None \<Rightarrow> cp_return (JObj [(''requested'', JBool False)])) (\<lambda>reload.
           cp_return (JsonResponse 200 (JObj [(''ok'', JBool True), (''gameId'', JStr gameId), (''fromCheckpointSeq'', JNum fromCheckpointSeq),
             (''newCheckpointSeq'', JNum (rt_checkpointSeq root1)), (''reload'', reload)]))))))))))) "

section \<open>Compatibility tags\<close>

definition histogram_step :: "js \<Rightarrow> int js_map \<Rightarrow> int js_map" where
  "histogram_step game histogram =
     (let key = js_String (js_coalesce (js_get game ''blobCompatTag'') (JStr ''untagged''))
      in map_set key (default 0 (map_get histogram key) + 1) histogram)"

definition handleCompatTags :: "('d, 'o, 's) control_env \<Rightarrow> ('d, 'o, 's, http_response) cp" where
  "handleCompatTags C =
     cp_bind (cp_read (listGames (cc_host C) (cc_R C))) (\<lambda>games.
     cp_return (JsonResponse 200 (JObj [(''ok'', JBool True),
       (''compatTags'', JObj (map (\<lambda>(k, n). (k, JNum n)) (fold histogram_step games [(''untagged'', 0)])))])))"

definition handleGamesByCompatTag :: "('d, 'o, 's) control_env \<Rightarrow> string \<Rightarrow> string js_map \<Rightarrow> ('d, 'o, 's, http_response) cp" where
  "handleGamesByCompatTag C tag q =
     (let limit = clampInt (map_get q ''limit'') 1 1000 500; cursor = default 0 (optionalInt (map_get q ''cursor'')) in
      cp_bind (cp_read (listGames (cc_host C) (cc_R C))) (\<lambda>all.
      let matching = sort_by (\<lambda>a b. host_localeLe (cc_host C) (js_text (js_get a ''gameId'')) (js_text (js_get b ''gameId'')))
            (filter (\<lambda>g. if tag = ''untagged'' then js_get g ''blobCompatTag'' = JUndef else js_get g ''blobCompatTag'' = JStr tag) all);
          games = take (nat limit) (drop (nat cursor) matching);
          next1 = cursor + int (length games)
      in cp_return (JsonResponse 200 (JObj [(''ok'', JBool True), (''tag'', JStr tag), (''cursor'', JNum cursor), (''limit'', JNum limit),
           (''nextCursor'', if next1 < int (length matching) then JNum next1 else JNull), (''games'', JArr games)]))))"

section \<open>Routes\<close>

definition game_view :: "('d, 'o, 's) control_env \<Rightarrow> string \<Rightarrow> ('d, 'o, 's, http_response) cp" where
  "game_view C gameId w =
     cp_bind (requireGame C gameId) (\<lambda>game.
     cp_bind (cp_do (\<lambda>d. (listAllowedPlayers (cc_R C) gameId d, d))) (\<lambda>allowedPlayers.
     cp_bind (cp_read (getActiveGame (cc_host C) (cc_R C) gameId)) (\<lambda>activeGame.
     cp_return (JsonResponse 200 (JObj [(''ok'', JBool True), (''game'', game),
       (''status'', JStr (if activeGame = None then ''asleep'' else ''active'')),
       (''currentShardId'', (case activeGame of None \<Rightarrow> JNull | Some a \<Rightarrow> js_coalesce (js_get a ''shardId'') JNull)),
       (''currentBundleName'', js_get game ''bundleName''), (''blobCompatTag'', js_coalesce (js_get game ''blobCompatTag'') JNull),
       (''allowedPlayerCount'', JNum (int (length allowedPlayers))),
       (''connectedPlayerCount'', JNum (int (length (connectedPlayersForGame (cc_host C) (cc_dateParse C) (cp_history w) gameId)))),
       (''createdAt'', js_get game ''createdAt''),
       (''lastActivityAt'', (case lastActivityAtForGame (cc_host C) (cc_dateParse C) (cp_history w) gameId of
          Some n \<Rightarrow> JNum n | None \<Rightarrow> js_get game ''createdAt''))]))))) w"

definition game_delete :: "('d, 'o, 's) control_env \<Rightarrow> string \<Rightarrow> ('d, 'o, 's, http_response) cp" where
  "game_delete C gameId =
     cp_bind (cp_do (deleteGame (cc_R C) gameId)) (\<lambda>deleted.
     cp_bind (if deleted then appendControlHistory C ''game.deleted'' [(''gameId'', JStr gameId)] else cp_return ()) (\<lambda>_.
     cp_return (JsonResponse (if deleted then 200 else 404) (JObj [(''ok'', JBool deleted)]))))"

definition game_connected :: "('d, 'o, 's) control_env \<Rightarrow> string \<Rightarrow> ('d, 'o, 's, http_response) cp" where
  "game_connected C gameId w =
     cp_bind (requireGame C gameId) (\<lambda>_.
     cp_return (JsonResponse 200 (JObj [(''ok'', JBool True), (''gameId'', JStr gameId),
       (''connectedPlayers'', JArr (map connected_js (connectedPlayersForGame (cc_host C) (cc_dateParse C) (cp_history w) gameId)))]))) w"

definition game_sessions :: "('d, 'o, 's) control_env \<Rightarrow> string \<Rightarrow> string js_map \<Rightarrow> ('d, 'o, 's, http_response) cp" where
  "game_sessions C gameId q w =
     cp_bind (requireGame C gameId) (\<lambda>_.
     cp_return (JsonResponse 200 (JObj [(''ok'', JBool True), (''gameId'', JStr gameId),
       (''sessions'', JArr (map session_view_js (sessionsForGame (cc_host C) (cc_dateParse C) (cp_history w) gameId
          \<lparr>sq_from = map_get q ''from'', sq_to = map_get q ''to'', sq_playerId = map_get q ''playerId''\<rparr>)))]))) w"

definition game_allowed_player :: "('d, 'o, 's) control_env \<Rightarrow> control_request \<Rightarrow> string list \<Rightarrow> ('d, 'o, 's, http_response) cp" where
  "game_allowed_player C rq parts =
     (let gameId = parts ! 2; playerId = parts ! 4 in
      cp_bind (requireGame C gameId) (\<lambda>_.
      if cq_method rq = ''POST''
      then cp_bind (add_players C gameId [playerId]) (\<lambda>_.
           cp_return (JsonResponse 200 (JObj [(''ok'', JBool True), (''gameId'', JStr gameId), (''playerId'', JStr playerId)])))
      else if cq_method rq = ''DELETE''
      then cp_bind (cp_do (removeAllowedPlayer (cc_R C) gameId playerId)) (\<lambda>removed.
           cp_return (JsonResponse 200 (JObj [(''ok'', JBool True), (''removed'', JBool removed), (''gameId'', JStr gameId),
             (''playerId'', JStr playerId)])))
      else not_found_path parts))"

definition handleGameResource ::
  "('d, 'o, 's) control_env \<Rightarrow> control_request \<Rightarrow> string list \<Rightarrow> string js_map \<Rightarrow> ('d, 'o, 's, http_response) cp" where
  "handleGameResource C rq parts q =
     (let gameId = parts ! 2; sub = (\<lambda>m name. length parts = 4 \<and> parts ! 3 = name \<and> cq_method rq = m) in
      if length parts = 3 \<and> cq_method rq = ''GET'' then game_view C gameId
      else if length parts = 3 \<and> cq_method rq = ''DELETE'' then game_delete C gameId
      else if sub ''POST'' ''bundle'' then handleBundleFlip C rq gameId
      else if sub ''GET'' ''bundle-compat'' then handleBundleCompatDryRun C gameId (map_get q ''bundleName'')
      else if sub ''GET'' ''snapshot'' then handleGameSnapshot C gameId q
      else if sub ''GET'' ''checkpoints'' then handleGameCheckpoints C gameId q
      else if sub ''POST'' ''restore'' then handleGameRestore C rq gameId
      else if sub ''POST'' ''host-event'' then handleHostEvent C rq gameId
      else if sub ''GET'' ''allowed-players''
      then cp_bind (cp_do (\<lambda>d. (listAllowedPlayers (cc_R C) gameId d, d))) (\<lambda>players.
           cp_return (JsonResponse 200 (JObj [(''ok'', JBool True), (''gameId'', JStr gameId), (''allowedPlayers'', JArr (map JStr players))])))
      else if sub ''GET'' ''connected-players'' then game_connected C gameId
      else if sub ''GET'' ''sessions'' then game_sessions C gameId q
      else if length parts = 5 \<and> parts ! 3 = ''allowed-players'' then game_allowed_player C rq parts
      else not_found_path parts)"

definition cp_metricsText :: "('d, 'o, 's) ControlPlane \<Rightarrow> string" where
  "cp_metricsText w =
     join [CHR 0x0A]
       [''# HELP pax_control_plane_requests_total Total HTTP requests handled by the control plane.'',
        ''# TYPE pax_control_plane_requests_total counter'', ''pax_control_plane_requests_total '' @ dec_int (cp_requestsTotal w),
        ''# HELP pax_control_plane_errors_total Total requests that returned through the error handler.'',
        ''# TYPE pax_control_plane_errors_total counter'', ''pax_control_plane_errors_total '' @ dec_int (cp_errorsTotal w), []]"

fun decode_parts :: "string list \<Rightarrow> string + string list" where
  "decode_parts [] = Inr []"
| "decode_parts (p # ps) =
     (if p = [] then decode_parts ps
      else case decodeURIComponent p of
        None \<Rightarrow> Inl ''URI malformed''
      | Some s \<Rightarrow> (case decode_parts ps of Inl e \<Rightarrow> Inl e | Inr ss \<Rightarrow> Inr (s # ss)))"

definition control_route ::
  "('d, 'o, 's) control_env \<Rightarrow> control_request \<Rightarrow> string \<Rightarrow> string js_map \<Rightarrow> string list \<Rightarrow> ('d, 'o, 's, http_response) cp" where
  "control_route C rq path q parts =
     (let method = cq_method rq; n = length parts;
          under = (\<lambda>name. n \<ge> 2 \<and> parts ! 0 = ''admin'' \<and> parts ! 1 = name) in
      if method = ''GET'' \<and> path = ''/health''
      then cp_return (JsonResponse 200 (JObj [(''status'', JStr ''ok''), (''runtime'', JStr ''control-plane'')]))
      else if method = ''GET'' \<and> path = ''/metrics'' then (\<lambda>w. (Inr (TextResponse 200 (cp_metricsText w)), w))
      else if method = ''GET'' \<and> path = ''/admin/history'' then handleHistory C q
      else if method = ''GET'' \<and> under ''sessions'' \<and> n = 3 then handleSessionLookup C (parts ! 2)
      else if under ''bundles'' \<and> n = 3 then handleBundle C rq (parts ! 2)
      else if under ''api-kinds'' \<and> n = 2 then handleApiKindsCollection C rq
      else if under ''api-kinds'' \<and> n = 3 then handleApiKindResource C rq (parts ! 2)
      else if under ''players'' \<and> n = 3 then handlePlayerResource C rq (parts ! 2)
      else if under ''players'' \<and> n = 4 \<and> parts ! 3 = ''games'' then handlePlayerGames C rq (parts ! 2)
      else if under ''games'' \<and> n = 2 then handleGamesCollection C rq
      else if under ''shards'' \<and> n = 2 then handleShardsCollection C rq
      else if under ''shards'' \<and> n \<ge> 3 then handleShardResource C rq parts
      else if method = ''GET'' \<and> path = ''/admin/games/compat-tags'' then handleCompatTags C
      else if method = ''GET'' \<and> under ''games'' \<and> n = 4 \<and> parts ! 2 = ''by-compat-tag'' then handleGamesByCompatTag C (parts ! 3) q
      else if under ''games'' \<and> n \<ge> 3 then handleGameResource C rq parts q
      else cp_return (JsonResponse 404 (JObj [(''ok'', JBool False), (''error'', JStr ''notFound'')])))"

definition control_handleRequest ::
  "('d, 'o, 's) control_env \<Rightarrow> control_request \<Rightarrow> ('d, 'o, 's) ControlPlane \<Rightarrow> http_response \<times> ('d, 'o, 's) ControlPlane" where
  "control_handleRequest C rq w =
     (case cp_bind (cp_lift (cq_url rq)) (\<lambda>(path, q).
             cp_bind (cp_lift (decode_parts (split_on (CHR ''/'') path))) (\<lambda>parts. control_route C rq path q parts))
           (w\<lparr>cp_requestsTotal := cp_requestsTotal w + 1\<rparr>) of
        (Inr response, w1) \<Rightarrow> (response, w1)
      | (Inl (Http e), w1) \<Rightarrow> (http_error e, w1\<lparr>cp_errorsTotal := cp_errorsTotal w1 + 1\<rparr>)
      | (Inl (Thrown m), w1) \<Rightarrow> (internal_error m, w1\<lparr>cp_errorsTotal := cp_errorsTotal w1 + 1\<rparr>))"

end
