(* ===== verification/BrokerServer.thy ===== *)
theory BrokerServer
  imports BrokerReach RunnerPool ControlRoutes
begin

text \<open>
  The Broker's process: the admin server (\<^verbatim>\<open>createBrokerAdminServer\<close> of \<^verbatim>\<open>runtime/broker/src/index.mts\<close>), the
  metrics it serves, and \<^verbatim>\<open>runtime/broker/src/server.mts\<close>, which reads the environment, starts the Broker with
  its pool of runners, and decides for every websocket upgrade whether the connection is accepted here or
  replayed to the machine that holds the game.

  Request lines are given as \<^verbatim>\<open>new URL\<close> reads them: the path and the query, or the exception of the
  constructor. Numbers are exact: a quotient is a rational, and \<open>num\<close> is its text.
\<close>

section \<open>Metrics\<close>

definition escapePromLabel :: "string \<Rightarrow> string" where
  "escapePromLabel value =
     replace_char (CHR 0x0A) [CHR 0x5C, CHR ''n'']
       (replace_char (CHR 0x22) [CHR 0x5C, CHR 0x22] (replace_char (CHR 0x5C) [CHR 0x5C, CHR 0x5C] value))"

definition prom_label :: "string \<Rightarrow> string \<Rightarrow> string \<Rightarrow> string \<Rightarrow> string" where
  "prom_label name label value number =
     name @ [CHR 0x7B] @ label @ [CHR ''='', CHR 0x22] @ escapePromLabel value @ [CHR 0x22, CHR 0x7D, CHR '' ''] @ number"

text \<open>\<^verbatim>\<open>Object.entries\<close> of a snapshot: the budgets in the order of \<^verbatim>\<open>computeBudgetSnapshot\<close>.\<close>

definition budget_names :: "ComputeBudgetName list" where
  "budget_names = [CpuMsPerTick, MemoryBytes, BandwidthBytesPerSec, WsMessagesPerSec, StateBytes, BlobBytes, BlobKeys, ApiInvocationsPerMin]"

definition budget_ratio :: "ComputeBudgetUsage \<Rightarrow> rat" where
  "budget_ratio usage = (if bu_limit usage > 0 then rat_of_int (bu_currentUsage usage) / rat_of_int (bu_limit usage) else 0)"

definition max_ratios :: "ComputeBudgetSnapshot list \<Rightarrow> rat js_map" where
  "max_ratios snapshots =
     fold (\<lambda>snapshot. fold (\<lambda>budget m.
         map_set (budgetName budget) (max (default 0 (map_get m (budgetName budget))) (budget_ratio (snapshot budget))) m)
       budget_names) snapshots []"

definition budgetRatioLines :: "host \<Rightarrow> (rat \<Rightarrow> string) \<Rightarrow> ComputeBudgetSnapshot list \<Rightarrow> string list" where
  "budgetRatioLines H num snapshots =
     map (\<lambda>(budget, ratio). prom_label ''pax_broker_budget_consumed_ratio'' ''budget'' budget (num ratio))
       (sort_by (\<lambda>l r. host_localeLe H (fst l) (fst r)) (max_ratios snapshots))"

definition quantile_lines :: "string \<Rightarrow> string \<Rightarrow> string \<Rightarrow> string list" where
  "quantile_lines name half most = [prom_label name ''quantile'' ''0.50'' half, prom_label name ''quantile'' ''0.95'' most]"

definition prometheusLines :: "host \<Rightarrow> (rat \<Rightarrow> string) \<Rightarrow> WsSendMetrics \<Rightarrow> string list" where
  "prometheusLines H num m =
     (let seconds = (\<lambda>n. num (rat_of_int n / 1000)); q = (\<lambda>w. (dec_int (ns_quantile 1 2 w), dec_int (ns_quantile 19 20 w))) in
      [''# HELP pax_broker_ws_send_total Accepted outbound ws.send calls.'',
       ''# TYPE pax_broker_ws_send_total counter'',
       ''pax_broker_ws_send_total '' @ dec_int (wm_sentCount m),
       ''# HELP pax_broker_ws_send_rejected_total Rejected outbound ws.send calls by typed error.'',
       ''# TYPE pax_broker_ws_send_rejected_total counter'']
      @ map (\<lambda>(e, n). prom_label ''pax_broker_ws_send_rejected_total'' ''error'' (wsSendError e) (dec_int n))
          (sort_by (\<lambda>l r. host_localeLe H (wsSendError (fst l)) (wsSendError (fst r))) (wm_rejected m))
      @ [''# HELP pax_broker_ws_send_duration_seconds_sum Total accepted ws.send handling duration.'',
       ''# TYPE pax_broker_ws_send_duration_seconds_sum counter'',
       ''pax_broker_ws_send_duration_seconds_sum '' @ seconds (wm_durationMsSum m),
       ''# HELP pax_broker_ws_send_bytes_total Total outbound WebSocket payload bytes accepted by the Broker.'',
       ''# TYPE pax_broker_ws_send_bytes_total counter'',
       ''pax_broker_ws_send_bytes_total '' @ dec_int (wm_bytesSum m),
       ''# HELP pax_broker_ws_send_recipients_total Total WebSocket recipients accepted by the Broker.'',
       ''# TYPE pax_broker_ws_send_recipients_total counter'',
       ''pax_broker_ws_send_recipients_total '' @ dec_int (wm_recipientsSum m),
       ''# HELP pax_broker_ws_send_duration_seconds Recent ws.send handling duration quantiles.'',
       ''# TYPE pax_broker_ws_send_duration_seconds gauge'']
      @ quantile_lines ''pax_broker_ws_send_duration_seconds''
          (seconds (ns_quantile 1 2 (wm_durationMs m))) (seconds (ns_quantile 19 20 (wm_durationMs m)))
      @ [''# HELP pax_broker_ws_send_recipients Recent ws.send recipient count quantiles.'',
       ''# TYPE pax_broker_ws_send_recipients gauge'']
      @ (case q (wm_recipients m) of (h, l) \<Rightarrow> quantile_lines ''pax_broker_ws_send_recipients'' h l)
      @ [''# HELP pax_broker_ws_send_bytes Recent ws.send outbound byte count quantiles.'',
       ''# TYPE pax_broker_ws_send_bytes gauge'']
      @ (case q (wm_bytes m) of (h, l) \<Rightarrow> quantile_lines ''pax_broker_ws_send_bytes'' h l)
      @ [''# HELP pax_broker_ws_buffered_amount_bytes Recent post-send WebSocket bufferedAmount quantiles.'',
       ''# TYPE pax_broker_ws_buffered_amount_bytes gauge'']
      @ (case q (wm_bufferedAmount m) of (h, l) \<Rightarrow> quantile_lines ''pax_broker_ws_buffered_amount_bytes'' h l))"

text \<open>Computing the budgets of the games prunes their counters, so the metrics change the Broker.\<close>

definition broker_metricsText :: "(rat \<Rightarrow> string) \<Rightarrow> BrokerConfig \<Rightarrow> 's deps \<Rightarrow> 's Broker \<Rightarrow> string \<times> 's Broker" where
  "broker_metricsText num C D B =
     (let H = ev_host (dp_env D);
          capacity = snapshotCapacity C D B;
          connected = fold (\<lambda>(k, G) total. total + int (length (bg_sessions G))) (b_games B) 0;
          snapshots = map (computeBudgetSnapshot C (dp_now D) \<circ> snd) (b_games B)
      in (join [CHR 0x0A]
           ([''# HELP pax_broker_active_games Active games on this Broker.'',
             ''# TYPE pax_broker_active_games gauge'',
             ''pax_broker_active_games '' @ dec_int (int (length (b_games B))),
             ''# HELP pax_broker_connected_sessions Connected websocket sessions on this Broker.'',
             ''# TYPE pax_broker_connected_sessions gauge'',
             ''pax_broker_connected_sessions '' @ dec_int connected,
             ''# HELP pax_broker_accepting_wakes Whether this Broker is accepting new wakes.'',
             ''# TYPE pax_broker_accepting_wakes gauge'',
             ''pax_broker_accepting_wakes '' @ dec_int (if cr_acceptingWakes capacity then 1 else 0),
             ''# HELP pax_broker_capacity_max_games Configured active-game capacity.'',
             ''# TYPE pax_broker_capacity_max_games gauge'',
             ''pax_broker_capacity_max_games '' @ dec_int (cr_maxGames capacity),
             ''# HELP pax_broker_budget_consumed_ratio Max current budget usage ratio by budget.'',
             ''# TYPE pax_broker_budget_consumed_ratio gauge'']
            @ budgetRatioLines H num snapshots
            @ prometheusLines H num (b_wsSendMetrics B)
            @ [[]]),
          B\<lparr>b_games := map (\<lambda>(k, G). (k, snapshot_prunes (dp_now D) G)) (b_games B)\<rparr>))"

section \<open>The admin server\<close>

record admin_request =
  aq_method :: "string option"
  aq_url :: "string + string \<times> (string \<times> string) list"

definition capacity_row_js :: "BrokerCapacityRow \<Rightarrow> js" where
  "capacity_row_js row =
     JObj [(''shardId'', JStr (cr_shardId row)), (''url'', JStr (cr_url row)),
       (''status'', JStr (shard_status (cr_status row))), (''healthy'', JBool (cr_healthy row)),
       (''acceptingWakes'', JBool (cr_acceptingWakes row)),
       (''runtimeContractsSupported'', JArr [JNum (fst (cr_runtimeContractsSupported row)), JNum (snd (cr_runtimeContractsSupported row))]),
       (''activeGames'', JNum (cr_activeGames row)), (''currentGameCount'', JNum (cr_currentGameCount row)),
       (''maxGames'', JNum (cr_maxGames row)), (''lastSeenAt'', JNum (cr_lastSeenAt row))]"

definition health_js :: "BrokerHealthSnapshot \<Rightarrow> js" where
  "health_js h =
     JObj [(''shardId'', JStr (hs_shardId h)), (''started'', JBool (BrokerHealthSnapshot.hs_started h)),
       (''acceptingWakes'', JBool (hs_acceptingWakes h)), (''activeGames'', JNum (hs_activeGames h)),
       (''connectedSessions'', JNum (hs_connectedSessions h)), (''capacity'', capacity_row_js (hs_capacity h))]"

text \<open>The expressions \<^verbatim>\<open>/^pre([^/]+)post$/\<close>: the group, when the path matches.\<close>

definition match_segment :: "string \<Rightarrow> string \<Rightarrow> string \<Rightarrow> string option" where
  "match_segment pre post path =
     (let m = take (length path - length pre - length post) (drop (length pre) path) in
      if prefix pre path \<and> suffix post path \<and> length pre + length post < length path \<and> CHR ''/'' \<notin> set m
      then Some m else None)"

text \<open>An operation on the decoded group; a malformed escape is the \<^verbatim>\<open>URIError\<close>.\<close>

definition on_segment :: "(string \<Rightarrow> ('s, http_response) brk) \<Rightarrow> string \<Rightarrow> ('s, http_response) brk" where
  "on_segment f segment B =
     (case decodeURIComponent segment of None \<Rightarrow> (Inl ''URI malformed'', B) | Some x \<Rightarrow> f x B)"

definition found_response :: "string \<Rightarrow> bool \<Rightarrow> http_response" where
  "found_response missing found =
     (if found then JsonResponse 202 (JObj [(''ok'', JBool True)]) else JsonResponse 404 (JObj [(''error'', JStr missing)]))"

definition admin_hostEvents :: "BrokerConfig \<Rightarrow> 's deps \<Rightarrow> string \<Rightarrow> ('s, http_response) brk" where
  "admin_hostEvents C D gameId =
     brk_bind (deliverQueuedHostEventsForGame C D gameId) (\<lambda>delivered B.
       (Inr (JsonResponse 202 (JObj [(''ok'', JBool True), (''delivered'', JNum delivered)])), B))"

definition admin_evict :: "BrokerConfig \<Rightarrow> 's deps \<Rightarrow> string \<Rightarrow> ('s, http_response) brk" where
  "admin_evict C D gameId =
     brk_bind (evictGame C D gameId Evicted) (\<lambda>evicted B. (Inr (found_response ''gameNotFound'' evicted), B))"

definition admin_reload :: "BrokerConfig \<Rightarrow> 's deps \<Rightarrow> string \<Rightarrow> string \<Rightarrow> ('s, http_response) brk" where
  "admin_reload C D reason gameId B =
     (case reloadGameFromStorage C D gameId reason B of (reloaded, B1) \<Rightarrow> (Inr (found_response ''gameNotFound'' reloaded), B1))"

definition admin_fenceWinner :: "BrokerConfig \<Rightarrow> 's deps \<Rightarrow> string \<Rightarrow> string \<Rightarrow> ('s, http_response) brk" where
  "admin_fenceWinner C D marker gameId =
     brk_bind (writeFenceWinnerForTest C D gameId marker) (\<lambda>rt0 B.
       (Inr (JsonResponse 202 (JObj [(''ok'', JBool True), (''marker'', JStr marker),
          (''checkpointSeq'', opt_int (map_option rt_checkpointSeq rt0))])), B))"

definition admin_crash :: "'s deps \<Rightarrow> string \<Rightarrow> ('s, http_response) brk" where
  "admin_crash D runnerId =
     brk_bind (BrokerDispatch.crashRunnerForTest D runnerId) (\<lambda>crashed B. (Inr (found_response ''runnerNotFound'' crashed), B))"

text \<open>\<^verbatim>\<open>if (method === ... && match) { f(match[1]); return; }\<close> before the rest.\<close>

definition if_match :: "bool \<Rightarrow> string option \<Rightarrow> (string \<Rightarrow> 'a) \<Rightarrow> 'a \<Rightarrow> 'a" where
  "if_match method m f rest = (case m of Some g \<Rightarrow> if method then f g else rest | None \<Rightarrow> rest)"

definition GAMES_PATH :: string where
  "GAMES_PATH = ''/admin/games/''"

definition handleBrokerAdminRequest ::
  "(rat \<Rightarrow> string) \<Rightarrow> BrokerConfig \<Rightarrow> 's deps \<Rightarrow> admin_request \<Rightarrow> ('s, http_response) brk" where
  "handleBrokerAdminRequest num C D rq B =
     (case aq_url rq of
        Inl e \<Rightarrow> (Inl e, B)
      | Inr (path, query) \<Rightarrow>
        let is = (\<lambda>m. default ''GET'' (aq_method rq) = m);
            health = (\<lambda>B. health_js (healthSnapshot C D B));
            game = (\<lambda>post. match_segment GAMES_PATH post path)
        in if is ''GET'' \<and> path = ''/healthz'' then (Inr (JsonResponse 200 (health B)), B)
           else if is ''GET'' \<and> path = ''/readyz''
           then (Inr (JsonResponse (if b_started B \<and> b_acceptingWakes B then 200 else 503) (health B)), B)
           else if is ''GET'' \<and> path = ''/metrics''
           then (case broker_metricsText num C D B of (t, B1) \<Rightarrow> (Inr (TextResponse 200 t), B1))
           else if is ''POST'' \<and> path = ''/admin/drain''
           then (let B1 = requestDrain C D ''admin-http'' B in (Inr (JsonResponse 202 (health B1)), B1))
           else if is ''DELETE'' \<and> path = ''/admin/drain''
           then brk_bind (resumeWakes C D ''admin-http'') (\<lambda>_ B1. (Inr (JsonResponse 200 (health B1)), B1)) B
           else if_match (is ''POST'') (game ''/host-events/drain'') (\<lambda>g. on_segment (admin_hostEvents C D) g B)
           (if_match (is ''POST'') (game ''/evict'') (\<lambda>g. on_segment (admin_evict C D) g B)
           (if_match (is ''POST'') (game ''/reload-from-storage'')
              (\<lambda>g. on_segment (admin_reload C D (default ''stateRestore'' (map_get query ''reason''))) g B)
           (if_match (is ''POST'') (game ''/fence-winner'')
              (\<lambda>g. on_segment (admin_fenceWinner C D (default ''fence-winner'' (map_get query ''marker''))) g B)
           (if_match (is ''POST'') (match_segment ''/admin/runners/'' ''/crash'' path) (\<lambda>r. on_segment (admin_crash D) r B)
           (Inr (JsonResponse 404 (JObj [(''error'', JStr ''notFound'')])), B))))))"

text \<open>An exception becomes a 500; \<open>None\<close>: the handler waits for a flush that never returns.\<close>

definition createBrokerAdminServer ::
  "(rat \<Rightarrow> string) \<Rightarrow> BrokerConfig \<Rightarrow> 's deps \<Rightarrow> admin_request \<Rightarrow> 's Broker \<Rightarrow> http_response option \<times> 's Broker" where
  "createBrokerAdminServer num C D rq B =
     (case handleBrokerAdminRequest num C D rq B of
        (Inr r, B1) \<Rightarrow> (Some r, B1)
      | (Inl e, B1) \<Rightarrow>
         (if e = hang then None
          else Some (JsonResponse 500 (JObj [(''error'', JStr ''brokerAdminError''), (''detail'', JObj [(''message'', JStr e)])])), B1))"

text \<open>\<^verbatim>\<open>writeJson\<close> and \<^verbatim>\<open>writeText\<close>, as the client of the server reads them.\<close>

definition response_reply :: "http_response \<Rightarrow> fetch_reply" where
  "response_reply r =
     (case r of
        JsonResponse status body \<Rightarrow>
          \<lparr>fp_status = status, fp_contentLength = None,
           fp_text = (case stringify body of Inr (Some t) \<Rightarrow> t | _ \<Rightarrow> ''undefined'') @ [CHR 0x0A]\<rparr>
      | TextResponse status body \<Rightarrow> \<lparr>fp_status = status, fp_contentLength = None, fp_text = body\<rparr>)"

section \<open>Websocket upgrades\<close>

record upgrade_request =
  uq_url :: "string + string \<times> (string \<times> string) list"
  uq_headers :: "string js_map"

datatype upgrade_outcome =
    UncaughtException string
  | SocketDestroyed
  | SocketEnd string
  | Upgraded

definition http_text :: "string list \<Rightarrow> string" where
  "http_text lines = join [CHR 0x0D, CHR 0x0A] lines"

definition replay_headers :: "upgrade_request \<Rightarrow> string list" where
  "replay_headers rq = filter (map_has (uq_headers rq)) [''fly-force-instance-id'', ''fly-prefer-instance-id'']"

definition replay_text :: "upgrade_request \<Rightarrow> BrokerWebSocketReplay \<Rightarrow> string" where
  "replay_text rq replay =
     (if replay_headers rq \<noteq> []
      then let body = json_text (JObj [(''instance'', JStr (wp_flyMachineId replay)),
                 (''transform'', JObj [(''delete_headers'', JArr (map JStr (replay_headers rq)))])])
           in http_text [''HTTP/1.1 200 OK'', ''Content-Type: application/vnd.fly.replay+json'', ''Connection: close'',
                ''Content-Length: '' @ dec_int (int (length body)), [], body]
      else http_text [''HTTP/1.1 307 Temporary Redirect'', ''Fly-Replay: instance='' @ wp_flyMachineId replay,
             ''Connection: close'', ''Content-Length: 0'', [], []])"

definition unavailable_text :: string where
  "unavailable_text = http_text [''HTTP/1.1 503 Service Unavailable'', ''Connection: close'', ''Content-Length: 0'', [], []]"

text \<open>\<open>ws\<close> is the socket of the handshake. A failed \<^verbatim>\<open>acceptWebSocket\<close> closes it with 1011.\<close>

definition on_upgrade ::
  "BrokerConfig \<Rightarrow> 's deps \<Rightarrow> string \<Rightarrow> nat \<Rightarrow> upgrade_request \<Rightarrow> 's Broker \<Rightarrow> upgrade_outcome \<times> 's Broker" where
  "on_upgrade C D wsPath ws rq B =
     (case uq_url rq of
        Inl e \<Rightarrow> (UncaughtException e, B)
      | Inr (path, query) \<Rightarrow>
         if \<not> prefix wsPath path then (SocketDestroyed, B)
         else if truthy (map_get (uq_headers rq) ''fly-replay-failed'') \<noteq> None then (SocketEnd unavailable_text, B)
         else (case resolveWebSocketReplay C D query B of
             (Inl e, B1) \<Rightarrow> (SocketDestroyed, B1)
           | (Inr (Some replay), B1) \<Rightarrow> (SocketEnd (replay_text rq replay), B1)
           | (Inr None, B1) \<Rightarrow>
              (case acceptWebSocket C D ws query B1 of
                 (Inr u, B2) \<Rightarrow> (Upgraded, B2)
               | (Inl e, B2) \<Rightarrow>
                  (Upgraded, if e = hang then B2 else emit (WsClose ws 1011 ''broker accept failed'') B2))))"

section \<open>The environment\<close>

definition parsePositiveInteger :: "string \<Rightarrow> int \<Rightarrow> int" where
  "parsePositiveInteger value fallback = (case parseInt value of None \<Rightarrow> fallback | Some n \<Rightarrow> if n > 0 then n else fallback)"

definition parseNonNegativeInteger :: "string \<Rightarrow> int \<Rightarrow> int" where
  "parseNonNegativeInteger value fallback = (case parseInt value of None \<Rightarrow> fallback | Some n \<Rightarrow> if n \<ge> 0 then n else fallback)"

definition parseHostPort :: "string \<Rightarrow> string \<times> string" where
  "parseHostPort value =
     (if prefix ''['' value
      then let host = takeWhile (\<lambda>c. c \<noteq> CHR '']'') (tl value);
               rest = drop (length host + 2) value
           in if CHR '']'' \<notin> set value then ([], [])
              else (host, if take 1 rest = '':'' then drop 1 rest else [])
      else if CHR '':'' \<notin> set value then (''0.0.0.0'', value)
      else let port = rev (takeWhile (\<lambda>c. c \<noteq> CHR '':'') (rev value));
               host = take (length value - length port - 1) value
           in if CHR '':'' \<in> set host then ([], []) else (host, port))"

definition parseBind :: "string \<Rightarrow> string + string \<times> int" where
  "parseBind value =
     (case parseHostPort value of
        (host, rawPort) \<Rightarrow>
          (case parseInt rawPort of
             None \<Rightarrow> Inl (''invalid bind address: '' @ value)
           | Some port \<Rightarrow>
              if host = [] \<or> port \<le> 0 then Inl (''invalid bind address: '' @ value) else Inr (host, port)))"

definition parseRuntimeContracts :: "string option \<Rightarrow> string + int \<times> int" where
  "parseRuntimeContracts v =
     (case truthy v of
        None \<Rightarrow> Inr (1, 1)
      | Some value \<Rightarrow>
         (let parts = split_on (CHR '','') value; rawMin = hd parts;
              rawMax = (case parts of a # b # r \<Rightarrow> b | _ \<Rightarrow> rawMin)
          in case (parseInt rawMin, parseInt rawMax) of
               (Some lo, Some hi) \<Rightarrow>
                 if lo \<le> 0 \<or> hi < lo then Inl (''invalid PAX_RUNTIME_CONTRACTS_SUPPORTED: '' @ value) else Inr (lo, hi)
             | _ \<Rightarrow> Inl (''invalid PAX_RUNTIME_CONTRACTS_SUPPORTED: '' @ value)))"

definition parseRunnerKind :: "string \<Rightarrow> RunnerKind" where
  "parseRunnerKind value = (if value = ''noivm'' then Noivm else Ivm)"

text \<open>\<^verbatim>\<open>Number.parseFloat\<close>; \<open>None\<close> when it is not a number, or infinite.\<close>

definition digits_value :: "string \<Rightarrow> nat" where
  "digits_value ds = foldl (\<lambda>v c. 10 * v + (byte c - 48)) 0 ds"

definition exponent_part :: "string \<Rightarrow> int" where
  "exponent_part t =
     (case t of
        e # r \<Rightarrow>
          if e = CHR ''e'' \<or> e = CHR ''E''
          then let ds = takeWhile is_digit (case r of c # u \<Rightarrow> if c = CHR ''-'' \<or> c = CHR ''+'' then u else r | [] \<Rightarrow> [])
               in if prefix ''-'' r then - int (digits_value ds) else int (digits_value ds)
          else 0
      | [] \<Rightarrow> 0)"

definition parseFloat :: "string \<Rightarrow> rat option" where
  "parseFloat s =
     (let t = dropWhile is_space s;
          u = (case t of c # r \<Rightarrow> if c = CHR ''-'' \<or> c = CHR ''+'' then r else t | [] \<Rightarrow> []);
          whole = takeWhile is_digit u; r = dropWhile is_digit u;
          frac = (if prefix ''.'' r then takeWhile is_digit (tl r) else []);
          rest = (if prefix ''.'' r then dropWhile is_digit (tl r) else r);
          mantissa = rat_of_int (int (digits_value (whole @ frac))) / 10 ^ length frac;
          ex = exponent_part rest;
          v = (if ex < 0 then mantissa / 10 ^ nat (- ex) else mantissa * 10 ^ nat ex)
      in if whole = [] \<and> frac = [] then None else Some (if prefix ''-'' t then - v else v))"

definition parsePercent :: "string \<Rightarrow> rat \<Rightarrow> rat" where
  "parsePercent value fallback = (case parseFloat value of None \<Rightarrow> fallback | Some v \<Rightarrow> if 0 < v \<and> v \<le> 1 then v else fallback)"

text \<open>\<^verbatim>\<open>split(/\s+/).filter(Boolean)\<close>.\<close>

fun split_space :: "string \<Rightarrow> string list" where
  "split_space [] = [[]]"
| "split_space (c # cs) =
     (if is_space c then [] # split_space cs
      else case split_space cs of [] \<Rightarrow> [[c]] | x # xs \<Rightarrow> (c # x) # xs)"

definition parseExecArgv :: "string option \<Rightarrow> string list" where
  "parseExecArgv v = (case v of None \<Rightarrow> [''--import'', ''tsx''] | Some value \<Rightarrow> filter (\<lambda>w. w \<noteq> []) (split_space value))"

datatype object_store_choice = S3Store string "string option" string "string option" | LocalStore string

definition bucket_of :: "string js_map \<Rightarrow> string option" where
  "bucket_of env = truthy (case map_get env ''BUCKET_NAME'' of Some b \<Rightarrow> Some b | None \<Rightarrow> map_get env ''PAX_TIGRIS_BUCKET'')"

definition stateObjectStoreFromEnv :: "string js_map \<Rightarrow> object_store_choice" where
  "stateObjectStoreFromEnv env =
     (case bucket_of env of
        Some bucket \<Rightarrow> S3Store bucket (Some (default ''state-runtime/'' (map_get env ''PAX_STATE_OBJECT_PREFIX'')))
          (default ''auto'' (map_get env ''AWS_REGION'')) (map_get env ''AWS_ENDPOINT_URL_S3'')
      | None \<Rightarrow> LocalStore (default ''var/tigris-local'' (map_get env ''PAX_LOCAL_TIGRIS_DIR'')))"

definition bundleSourceStoreFromEnv :: "string js_map \<Rightarrow> object_store_choice" where
  "bundleSourceStoreFromEnv env =
     (case bucket_of env of
        Some bucket \<Rightarrow> S3Store bucket None (default ''auto'' (map_get env ''AWS_REGION'')) (map_get env ''AWS_ENDPOINT_URL_S3'')
      | None \<Rightarrow> LocalStore (default ''var/tigris-local'' (map_get env ''PAX_LOCAL_TIGRIS_DIR'')))"

record runner_spec =
  rs_id :: string
  rs_kind :: RunnerKind
  rs_execArgv :: "string list"
  rs_maxAssignedGames :: int
  rs_defaultHandlerTimeoutMs :: int

definition env_positive :: "string js_map \<Rightarrow> string \<Rightarrow> string \<Rightarrow> int \<Rightarrow> int" where
  "env_positive env name text1 fallback = parsePositiveInteger (default text1 (map_get env name)) fallback"

definition spawn_spec :: "string js_map \<Rightarrow> string \<Rightarrow> nat \<Rightarrow> runner_spec" where
  "spawn_spec env shardId index =
     \<lparr>rs_id = shardId @ ''-runner-'' @ dec_int (int index + 1),
      rs_kind = parseRunnerKind (default ''ivm'' (map_get env ''PAX_RUNNER_KIND'')),
      rs_execArgv = parseExecArgv (map_get env ''PAX_RUNNER_CHILD_EXEC_ARGV''),
      rs_maxAssignedGames = env_positive env ''PAX_RUNNER_MAX_ASSIGNED_GAMES'' ''128'' 128,
      rs_defaultHandlerTimeoutMs = env_positive env ''PAX_HANDLER_TIMEOUT_MS'' ''1000'' 1000\<rparr>"

record runtime_setup =
  bt_bind :: "string \<times> int"
  bt_wsPath :: string
  bt_runners :: "runner_spec list"
  bt_options :: StateStoreOptions
  bt_stateStore :: object_store_choice
  bt_bundleStore :: object_store_choice
  bt_directory :: RedisBrokerDirectoryOptions
  bt_config :: BrokerConfig

definition budgets_from_env :: "string js_map \<Rightarrow> PartialBudgets" where
  "budgets_from_env env =
     \<lparr>pb_cpuMsPerTick = Some (parsePositiveInteger (default ''1000''
          (case map_get env ''PAX_CPU_MS_PER_TICK_LIMIT'' of Some t \<Rightarrow> Some t | None \<Rightarrow> map_get env ''PAX_CPU_MS_PER_TICK'')) 1000),
      pb_memoryBytes = Some (parsePositiveInteger (default
          (dec_int (env_positive env ''PAX_RUNNER_MEMORY_LIMIT_MB'' ''256'' 256 * 1024 * 1024))
          (map_get env ''PAX_MEMORY_BYTES_LIMIT'')) (256 * 1024 * 1024)),
      pb_bandwidthBytesPerSec = Some (env_positive env ''PAX_WS_BANDWIDTH_BYTES_PER_SEC'' ''65536'' 65536),
      pb_wsMessagesPerSec = Some (env_positive env ''PAX_WS_MESSAGES_PER_SEC'' ''50'' 50),
      pb_stateBytes = Some (env_positive env ''PAX_STATE_BYTES_LIMIT'' ''131072'' 131072),
      pb_blobBytes = Some (parsePositiveInteger (default (dec_int (100 * 1024 * 1024)) (map_get env ''PAX_BLOB_BYTES_LIMIT'')) (100 * 1024 * 1024)),
      pb_blobKeys = Some (env_positive env ''PAX_BLOB_KEYS_LIMIT'' ''1024'' 1024),
      pb_apiInvocationsPerMin = Some (env_positive env ''PAX_API_INVOCATIONS_PER_MIN'' ''60'' 60)\<rparr>"

definition setup_from_env :: "string js_map \<Rightarrow> string + runtime_setup" where
  "setup_from_env env =
     sum_bind (parseBind (default ''0.0.0.0:7700'' (map_get env ''PAX_BROKER_BIND''))) (\<lambda>bind.
     sum_bind (parseRuntimeContracts (map_get env ''PAX_RUNTIME_CONTRACTS_SUPPORTED'')) (\<lambda>contracts.
     let publicUrl = default (''http://'' @ fst bind @ '':'' @ dec_int (snd bind)) (map_get env ''PAX_SHARD_PUBLIC_URL'');
         shardId = default (default ''shard-local'' (map_get env ''FLY_MACHINE_ID'')) (map_get env ''PAX_SHARD_ID'');
         wsPath = default ''/gateway'' (map_get env ''PAX_BROKER_WS_PATH'')
     in Inr
         \<lparr>bt_bind = bind, bt_wsPath = wsPath,
          bt_runners = map (spawn_spec env shardId) [0..<nat (env_positive env ''PAX_RUNNER_PROCESS_COUNT'' ''1'' 1)],
          bt_options = \<lparr>so_inlineStateMaxBytes = None,
            so_retainCheckpoints = Some (parseNonNegativeInteger (default ''0'' (map_get env ''PAX_STATE_RETAIN_CHECKPOINTS'')) 0),
            so_enableTimeTravel = Some (map_get env ''PAX_STATE_TIME_TRAVEL'' = Some ''1'')\<rparr>,
          bt_stateStore = stateObjectStoreFromEnv env, bt_bundleStore = bundleSourceStoreFromEnv env,
          bt_directory = \<lparr>do_flyMachineId = map_get env ''FLY_MACHINE_ID'',
            do_publicUrl = map_get env ''PAX_SHARD_PUBLIC_WS_URL'', do_wsPath = Some wsPath\<rparr>,
          bt_config =
            \<lparr>cf_shardId = shardId, cf_publicUrl = publicUrl, cf_runtimeContractsSupported = contracts,
             cf_maxActiveGames = env_positive env ''PAX_BROKER_MAX_ACTIVE_GAMES'' ''1000'' 1000,
             cf_softWatermarkPct = parsePercent (default ''0.75'' (map_get env ''PAX_BROKER_SOFT_WATERMARK_PCT'')) (3 / 4),
             cf_hardWatermarkPct = parsePercent (default ''0.95'' (map_get env ''PAX_BROKER_HARD_WATERMARK_PCT'')) (19 / 20),
             cf_budgets = Some (budgets_from_env env),
             cf_defaultMemoryLimitMb = Some (env_positive env ''PAX_RUNNER_MEMORY_LIMIT_MB'' ''256'' 256),
             cf_handlerTimeoutMs = Some (env_positive env ''PAX_HANDLER_TIMEOUT_MS'' ''1000'' 1000),
             cf_sleepGraceMs = None, cf_sleepDeadlineMs = None, cf_maxInboundFrameBytes = None,
             cf_capacityHeartbeatMs = Some (env_positive env ''PAX_BROKER_CAPACITY_HEARTBEAT_MS'' ''10000'' 10000),
             cf_checkpointIntervalMs = Some (parseNonNegativeInteger (default ''0'' (map_get env ''PAX_STATE_CHECKPOINT_INTERVAL_MS'')) 0),
             cf_tickMinIntervalMs = Some (env_positive env ''PAX_TICK_MIN_INTERVAL_MS'' ''15'' 15)\<rparr>\<rparr>))"

section \<open>The pool and the Broker together\<close>

text \<open>
  \<^verbatim>\<open>onEnvelope\<close> and \<^verbatim>\<open>onCrash\<close>: \<open>None\<close> is the variable \<^verbatim>\<open>broker\<close> before the Broker is constructed. A crash replaces
  the runner in the pool before the Broker restarts its games.
\<close>

definition on_envelope ::
  "BrokerConfig \<Rightarrow> 's deps \<Rightarrow> string \<Rightarrow> RunnerToBrokerEnvelope \<Rightarrow> 's Broker option \<Rightarrow> (string + unit) \<times> 's Broker option" where
  "on_envelope C D runnerId message b =
     (case b of
        None \<Rightarrow> (Inl ''Broker received Runner envelope before startup completed'', None)
      | Some B \<Rightarrow> (case handleRunnerEnvelope C D runnerId message B of (x, B1) \<Rightarrow> (x, Some B1)))"

definition on_crash ::
  "BrokerConfig \<Rightarrow> 's deps \<Rightarrow> 'r runner_ops \<Rightarrow> 'r \<Rightarrow> RunnerCrashEvent \<Rightarrow> 'r RunnerPool \<times> 's Broker option
   \<Rightarrow> (string + unit) \<times> 'r RunnerPool \<times> 's Broker option" where
  "on_crash C D R replacement event = (\<lambda>(P, b).
     (case replaceRunner R (ce_runnerId event) replacement P of
        (Inl e, P1) \<Rightarrow> (Inl e, P1, b)
      | (Inr u, P1) \<Rightarrow>
         (case b of
            None \<Rightarrow> (Inl ''Broker received Runner crash before startup completed'', P1, None)
          | Some B \<Rightarrow> (case handleRunnerCrash C D event B of (x, B1) \<Rightarrow> (x, P1, Some B1)))))"

definition runtime_stop ::
  "BrokerConfig \<Rightarrow> 's deps \<Rightarrow> ('r \<Rightarrow> 'r) \<Rightarrow> 'r RunnerPool \<times> 's Broker \<Rightarrow> (string + unit) \<times> 'r RunnerPool \<times> 's Broker" where
  "runtime_stop C D stop1 = (\<lambda>(P, B).
     (case BrokerConn.stop C D B of
        (Inl e, B1) \<Rightarrow> (Inl e, P, B1)
      | (Inr u, B1) \<Rightarrow> (Inr (), pool_stop stop1 (pool_stop stop1 P), B1)))"

end
