(* ===== verification/BrokerLifeProps.thy ===== *)
theory BrokerLifeProps
  imports BrokerReach
begin

text \<open>
  Properties of the life of a game: what survives a release and the next wake, who may connect,
  what a runner may touch, how a superseded shard stands down, and when ticks come.
\<close>

section \<open>Sizes of the blobs of an opened session\<close>

lemma blob_sizes_loop_run:
  assumes "\<And>k. k \<in> set ks \<Longrightarrow> k \<in> dom (blob_view ops s g)"
  shows "blob_sizes_loop ops s g ks sizes
    = Inr (fold (\<lambda>(k, v). map_set k v) (map (\<lambda>k. (k, int (length (the (blob_view ops s g k))))) ks) sizes)"
  using assms
proof (induction ks arbitrary: sizes)
  case (Cons k ks)
  obtain b where v: "blob_view ops s g k = Some b" using Cons.prems [of k] by auto
  then have "getBlob ops s g k = Inr (Some b)" by (auto simp: blob_view_def split: sum.splits)
  then show ?case using Cons v by simp
qed simp

lemma materializeBlobSizes_tracks:
  assumes "session_ok H ops s g"
  shows "\<exists>sizes. materializeBlobSizes ops s g = Inr sizes
    \<and> tracks (blob_view ops s g) sizes (sumMapValues sizes) (int (length sizes))"
proof -
  let ?ks = "listBlobs [] g" and ?f = "\<lambda>k. int (length (the (blob_view ops s g k)))"
  let ?m = "map (\<lambda>k. (k, ?f k)) ?ks"
  have dom: "set ?ks = dom (blob_view ops s g)" using listBlobs_view [OF assms, of "[]"] by auto
  have wf: "map_wf ?m" using distinct_listBlobs [of "[]" g] by (simp add: comp_def)
  have "materializeBlobSizes ops s g = Inr (fold (\<lambda>(k, v). map_set k v) ?m [])"
    unfolding materializeBlobSizes_def by (rule blob_sizes_loop_run) (simp add: dom)
  also have "fold (\<lambda>(k, v). map_set k v) ?m [] = ?m" by (rule map_copy [OF wf])
  finally have "materializeBlobSizes ops s g = Inr ?m" .
  moreover have "map_of ?m k = map_option (\<lambda>b. int (length b)) (blob_view ops s g k)" for k
  proof (cases "k \<in> set ?ks")
    case True
    then obtain b where "blob_view ops s g k = Some b" using dom by auto
    then show ?thesis using True by (simp add: map_of_map_restrict)
  next
    case False
    then have "blob_view ops s g k = None" using dom by auto
    then show ?thesis using False by (simp add: map_of_map_restrict)
  qed
  ultimately show ?thesis using wf by (auto simp: tracks_def sumMapValues)
qed

context state_env
begin

lemma reopened_ok:
  assumes ok: "session_ok (ev_host E) ops s g" and run: "flush E ops g s = (Inr (Some rt), g', s')"
    and game: "sn_gameId sn = gs_gameId g" and opened: "openSession E so ops s' sn = Inr g''"
  shows "session_ok (ev_host E) ops s' g''" and "gs_gameId g'' = gs_gameId g" and "\<not> isDirty g''"
proof -
  have dirty: "isDirty g" using run by (auto simp: flush_def split: if_splits)
  obtain s1 x where prep: "prepared g s rt s1"
    and g': "g' = flush_commit rt (version_of (encodeRoot rt)) g"
    and clean: "flush_cleanup E ops (gs_root g) rt g' s1 = (x, s')"
  proof (rule flush_inv [OF run ok dirty])
    fix rt' s1
    assume "prepared g s rt' s1" "g' = flush_commit rt' (version_of (encodeRoot rt')) g"
      "Inr (Some rt) = Inr (Some rt') \<or> (\<exists>e. Inr (Some rt) = Inl e)"
      "\<exists>x. flush_cleanup E ops (gs_root g) rt' g' s1 = (x, s')"
    then show ?thesis using that by auto
  qed simp
  note c = flush_committed [OF ok prep g' clean]
  have gid: "rt_gameId rt = gs_gameId g" using prep by (simp add: prepared_def)
  obtain m where m: "materialize E ops s' (gs_gameId g) = Inr m" "mt_state m = gs_state g"
    "mt_root m = Some rt" "mt_checkpointSeq m = rt_checkpointSeq rt" "mt_blobs m = rt_blobManifest rt"
    "mt_gameId m = gs_gameId g"
    by (rule materialize_stored [OF c(1) gid c(2)])
  have wf: "map_wf (rt_blobManifest rt)" using c(2) by (simp add: stored_root_def)
  have g'': "g'' = new_session so sn m" using opened m(1) game by (simp add: openSession_def)
  have blobs: "gs_blobs g'' = gs_blobs g'" "gs_gameId g'' = gs_gameId g'" "gs_root g'' = gs_root g'"
    "gs_checkpointSeq g'' = gs_checkpointSeq g'" "gs_dirtyBlobs g'' = []" "gs_deletedBlobs g'' = []"
    using m wf game by (simp_all add: g'' new_session_def g' flush_commit_def)
  show "session_ok (ev_host E) ops s' g''" using c(3) unfolding session_ok_def maps_ok_def blobs by simp
  show "gs_gameId g'' = gs_gameId g" by (simp add: blobs g')
  show "\<not> isDirty g''" by (simp add: isDirty_def g'' new_session_def)
qed

end

section \<open>Release and wake\<close>

text \<open>What a wake that returns leaves: the game, over the session opened from the store.\<close>

lemma wakeGame_woke:
  assumes "wakeGame C D input B = (Inr (), B')" and "\<not> map_has (b_games B) (wi_gameId input)"
    and "wi_gameId input \<notin> set (b_wakingGames B)"
  obtains G where "map_get (b_games B') (wi_gameId input) = Some G" "b_store B' = b_store B"
    "openSession (dp_env D) (dp_options D) (dp_ops D) (b_store B) (wake_options input) = Inr (bg_state G)"
    "materializeBlobSizes (dp_ops D) (b_store B) (bg_state G) = Inr (bg_blobSizes G)"
    "bg_gameId G = wi_gameId input" "bg_sessions G = []"
    "gb_stateBytes (bg_budgets G) = int (length (readState (bg_state G)))"
    "gb_blobBytes (bg_budgets G) = sumMapValues (bg_blobSizes G)"
    "gb_blobKeys (bg_budgets G) = int (length (bg_blobSizes G))"
proof -
  obtain x B1 where b: "wake_begin C input B = (x, B1)" by fastforce
  then show ?thesis
  proof (cases rule: wake_begin_cases)
    case skip
    then have "x = Inr False" using assms b by (auto simp: wakeGame_def brk_bind_def split: sum.splits if_splits)
    then show ?thesis using b assms(2,3)
      by (auto simp: wake_begin_def brk_bind_def ensureRuntimeContract_def ensureCapacity_def split: if_splits prod.splits)
  next
    case mine
    obtain B0 where w: "wake_body C D input B1 = (Inr (), B0)"
      and B': "B' = B0\<lparr>b_wakingGames := set_delete (wi_gameId input) (b_wakingGames B0)\<rparr>"
      using assms(1) b mine(1) by (auto simp: wakeGame_def brk_bind_def wake_finish_def Let_def split: prod.splits)
    from w show ?thesis
    proof (cases rule: wake_body_cases)
      case (added G rn es)
      have f: "bg_gameId G = wi_gameId input" "bg_sessions G = []"
        "gb_stateBytes (bg_budgets G) = int (length (readState (bg_state G)))"
        "gb_blobBytes (bg_budgets G) = sumMapValues (bg_blobSizes G)"
        "gb_blobKeys (bg_budgets G) = int (length (bg_blobSizes G))"
        by (subst added(1), simp add: new_game_def)+
      show ?thesis
      proof (rule that)
        show "map_get (b_games B') (wi_gameId input) = Some G" "b_store B' = b_store B"
          using f(1) mine(2) by (simp_all add: B' added(2) put_game_def update_conv')
      qed (use added(3,4) f mine(2) in simp_all)
    qed simp
  qed
qed

lemma releaseGame_stored:
  assumes "releaseGame C D why (G, B) = (Inr (Some True), B')"
  obtains rt0 g' where "flush (dp_env D) (dp_ops D) (bg_state G) (b_store B) = (Inr rt0, g', b_store B')"
    "b_games B' = map_delete (bg_gameId G) (b_games B)"
proof -
  obtain G1 B1 where d: "detach C D why (G, B) = (G1, B1)" by fastforce
  obtain res G2 B2 where f: "br_flushState C D ''state.flush.plannedTransition'' None (Some ''sleep'') (G1, B1) = (res, G2, B2)"
    by (metis prod_cases3)
  note dr = detach_run [OF d] and fr = br_flushState_run [OF f]
  have "map_has (b_games B) (bg_gameId G)" and res: "res = Inr StorageOk"
    and B': "b_store B' = b_store B2" "b_games B' = b_games B2"
    using assms by (auto simp: releaseGame_def d f Let_def maybeWriteDrainCompleted_def split: if_splits sum.splits)
  obtain x where "flush (dp_env D) (dp_ops D) (bg_state G) (b_store B) = (x, bg_state G2, b_store B2)"
    "\<exists>rt0. x = Inr rt0" using fr(4) res dr(3,4) by auto
  then show ?thesis using that dr(2) fr(2) B' by auto
qed

text \<open>
  C11: a game that changed survives its release. When the release reports the checkpoint as
  written, the next wake of the game, by this or another Broker over the same store, gives a
  game with the same state and the same blobs, no sessions, and budgets that account for exactly
  that state and those blobs.
\<close>

theorem release_then_wake:
  assumes "host_env (ev_host (dp_env D))" and mem: "dp_ops D = mem_ops (dp_env D)"
    and ok: "game_ok (ev_host (dp_env D)) (mem_ops (dp_env D)) (b_store B) G"
    and dirty: "isDirty (bg_state G)"
    and release: "releaseGame C D why (G, B) = (Inr (Some True), B1)"
    and store: "b_store B2 = b_store B1" and D': "dp_env D' = dp_env D" "dp_ops D' = dp_ops D"
    and input: "wi_gameId input = bg_gameId G" "\<not> map_has (b_games B2) (bg_gameId G)"
      "bg_gameId G \<notin> set (b_wakingGames B2)"
    and wake: "wakeGame C' D' input B2 = (Inr (), B3)"
  shows "\<exists>G'. map_get (b_games B3) (bg_gameId G) = Some G'
    \<and> session_view (dp_ops D) (b_store B3) (bg_state G') = session_view (dp_ops D) (b_store B) (bg_state G)
    \<and> game_ok (ev_host (dp_env D)) (dp_ops D) (b_store B3) G' \<and> bg_sessions G' = []
    \<and> gb_stateBytes (bg_budgets G') = gb_stateBytes (bg_budgets G)
    \<and> gb_blobBytes (bg_budgets G') = gb_blobBytes (bg_budgets G)
    \<and> gb_blobKeys (bg_budgets G') = gb_blobKeys (bg_budgets G)"
proof -
  let ?E = "dp_env D" let ?ops = "mem_ops ?E"
  note env = mem_state_env [OF assms(1)]
  have s_ok: "session_ok (ev_host ?E) ?ops (b_store B) (bg_state G)" and gid: "gs_gameId (bg_state G) = bg_gameId G"
    and st: "gb_stateBytes (bg_budgets G) = int (length (gs_state (bg_state G)))"
    using ok by (simp_all add: game_ok_def readState_def)
  obtain rt0 g' where fl: "flush ?E ?ops (bg_state G) (b_store B) = (Inr rt0, g', b_store B1)"
    using releaseGame_stored [OF release] mem by metis
  then obtain rt where rt: "rt0 = Some rt"
    using dirty by (cases rt0) (auto simp: flush_def Let_def split: if_splits sum.splits prod.splits)
  obtain G' where G': "map_get (b_games B3) (wi_gameId input) = Some G'" "b_store B3 = b_store B2"
    "openSession ?E (dp_options D') ?ops (b_store B1) (wake_options input) = Inr (bg_state G')"
    "materializeBlobSizes ?ops (b_store B1) (bg_state G') = Inr (bg_blobSizes G')"
    "bg_gameId G' = wi_gameId input" "bg_sessions G' = []"
    "gb_stateBytes (bg_budgets G') = int (length (readState (bg_state G')))"
    "gb_blobBytes (bg_budgets G') = sumMapValues (bg_blobSizes G')"
    "gb_blobKeys (bg_budgets G') = int (length (bg_blobSizes G'))"
    by (rule wakeGame_woke [OF wake]) (use input store D' mem in simp_all)
  have sn: "sn_gameId (wake_options input) = gs_gameId (bg_state G)" using input(1) gid by simp
  note durable = state_env.flush_durable(1) [OF env s_ok fl [unfolded rt] sn, of "dp_options D'"]
  have view: "session_view ?ops (b_store B1) (bg_state G') = session_view ?ops (b_store B) (bg_state G)"
    using durable G'(3) by auto
  note re = state_env.reopened_ok [OF env s_ok fl [unfolded rt] sn G'(3)]
  have ok': "game_ok (ev_host ?E) ?ops (b_store B1) G'"
    using materializeBlobSizes_tracks [OF re(1)] re G' input(1) gid by (auto simp: game_ok_def)
  have "gs_state (bg_state G') = gs_state (bg_state G)"
    and bv: "blob_view ?ops (b_store B1) (bg_state G') = blob_view ?ops (b_store B) (bg_state G)"
    using view by (simp_all add: session_view_def)
  then have "gb_stateBytes (bg_budgets G') = gb_stateBytes (bg_budgets G)"
    using G'(7) st by (simp add: readState_def)
  moreover have "gb_blobBytes (bg_budgets G') = gb_blobBytes (bg_budgets G)"
    "gb_blobKeys (bg_budgets G') = gb_blobKeys (bg_budgets G)"
    using game_ok_totals [OF ok] game_ok_totals [OF ok'] bv by simp_all
  ultimately show ?thesis using G'(1,2,6) view ok' mem store input(1) by auto
qed

text \<open>A concrete life: the example game with a JSON state is released and woken elsewhere.\<close>

definition game1 :: BrokerGame where
  "game1 = game0\<lparr>bg_state := writeState ''5'' session0,
     bg_budgets := (bg_budgets game0)\<lparr>gb_stateBytes := 1\<rparr>\<rparr>"

definition broker1 :: "mem_store Broker" where
  "broker1 = (new_broker mem_empty)\<lparr>b_started := True, b_games := [(''g1'', game1)], b_nextRef := 1\<rparr>"

definition input0 :: BrokerWakeInput where
  "input0 = \<lparr>wi_gameId = ''g1'', wi_bundleName = ''b'', wi_bundleSource = ''src'', wi_bundleCompatTag = ''t'',
     wi_runtimeContractRequired = 1, wi_runId = None, wi_blobCompatTag = None, wi_memoryLimitMb = None,
     wi_handlerTimeoutMs = None, wi_testSeed = None, wi_generation = None, wi_wakeReason = None,
     wi_wakeErrorClass = None\<rparr>"

lemma deps0_fields [simp]:
  "dp_env deps0 = env0" "dp_ops deps0 = mem_ops env0" "dp_options deps0 = options0" "dp_now deps0 = 1000"
  "dp_claim deps0 c = None" "dp_hostEvents deps0 g = []" "dp_assign deps0 a = Inr ''r1''" "dp_invoke deps0 i = None"
  "dp_later deps0 = 1001" "dp_wsOpen deps0 w = True" "dp_resolve deps0 g = None"
  by (simp_all add: deps0_def)

lemma game1_fields [simp]:
  "bg_gameId game1 = ''g1''" "bg_state game1 = writeState ''5'' session0" "bg_ref game1 = 0" "bg_runnerId game1 = ''r1''"
  "bg_sessions game1 = [(''ses_1'', player0)]" "bg_sleepTimer game1 = None"
  by (simp_all add: game1_def game0_def)

lemma game1_ok: "game_ok (ev_host env0) (mem_ops env0) mem_empty game1"
  using game0_ok session_ok_ops(1) [OF session0_ok, of "''5''"]
  by (simp add: game_ok_def game1_def game0_def view_writeState readState_def session_state session0_facts)

lemma game1_flush:
  obtains rt g' s' where "flush env0 (mem_ops env0) (writeState ''5'' session0) mem_empty = (Inr (Some rt), g', s')"
  using plain_mem.flush_succeeds [OF session_ok_ops(1) [OF session0_ok, of "''5''"]] session0_facts
  by (auto simp: mem_lookup_def mem_empty_def writeState_def isDirty_def)

lemma game1_release:
  obtains rt g' B' where "releaseGame config0 deps0 ''idle'' (game1, broker1) = (Inr (Some True), B')"
    "flush env0 (mem_ops env0) (writeState ''5'' session0) mem_empty = (Inr (Some rt), g', b_store B')"
proof -
  obtain rt g' s' where fl: "flush env0 (mem_ops env0) (writeState ''5'' session0) mem_empty = (Inr (Some rt), g', s')"
    by (rule game1_flush)
  obtain G1 B1 where d: "detach config0 deps0 ''idle'' (game1, broker1) = (G1, B1)" by fastforce
  note dr = detach_run [OF d]
  obtain res G2 B2 where f: "br_flushState config0 deps0 ''state.flush.plannedTransition'' None (Some ''sleep'') (G1, B1) = (res, G2, B2)"
    by (metis prod_cases3)
  have "flush env0 (mem_ops env0) (bg_state G1) (b_store B1) = (Inr (Some rt), g', s')"
    using fl dr(3,4) by (simp add: broker1_def new_broker_def)
  then have "res = Inr StorageOk" "b_store B2 = s'" using br_flushState_run(4) [OF f] by auto
  moreover have "map_has (b_games broker1) ''g1''" by (simp add: broker1_def map_has_def)
  ultimately have "releaseGame config0 deps0 ''idle'' (game1, broker1) = (Inr (Some True),
      snd (releaseGame config0 deps0 ''idle'' (game1, broker1)))"
    and "b_store (snd (releaseGame config0 deps0 ''idle'' (game1, broker1))) = s'"
    by (simp_all add: releaseGame_def d f Let_def maybeWriteDrainCompleted_def)
  then show ?thesis using that fl by metis
qed

lemma fresh_wake:
  assumes "openSession env0 options0 (mem_ops env0) s (wake_options input0) = Inr g"
    and "materializeBlobSizes (mem_ops env0) s g = Inr sz" and "gs_state g = ''5''"
  obtains B' where "wakeGame config0 deps0 input0 ((new_broker s)\<lparr>b_started := True\<rparr>) = (Inr (), B')"
proof -
  have parse: "decodeJsonState (ev_host env0) ''5'' = Inr (JNum 5)"
  proof -
    have "stringify (JNum 5) = Inr (Some ''5'')" by code_simp
    then show ?thesis using decode_encode_state [OF host_env0, of "JNum 5"] by (auto simp: encodeJsonState_def)
  qed
  have "fst (wakeGame config0 deps0 input0 ((new_broker s)\<lparr>b_started := True\<rparr>)) = Inr ()"
    using assms parse
    by (simp add: wakeGame_def brk_bind_def wake_begin_def ensureRuntimeContract_def ensureCapacity_def config0_def
        new_broker_def map_has_def wake_finish_def wake_body_def wake_announce_def Let_def invokeGameHandler_eq
        new_game_def readState_def deliverQueuedHostEvents_def input0_def)
  then show ?thesis using that by (metis prod.collapse)
qed

theorem release_then_wake_witness:
  "\<exists>B1 B3 G'. releaseGame config0 deps0 ''idle'' (game1, broker1) = (Inr (Some True), B1)
    \<and> wakeGame config0 deps0 input0 ((new_broker (b_store B1))\<lparr>b_started := True\<rparr>) = (Inr (), B3)
    \<and> map_get (b_games B3) ''g1'' = Some G'
    \<and> session_view (mem_ops env0) (b_store B3) (bg_state G') = session_view (mem_ops env0) mem_empty (bg_state game1)"
proof -
  obtain rt g' B1 where r: "releaseGame config0 deps0 ''idle'' (game1, broker1) = (Inr (Some True), B1)"
    and fl: "flush env0 (mem_ops env0) (writeState ''5'' session0) mem_empty = (Inr (Some rt), g', b_store B1)"
    by (rule game1_release)
  note s_ok = session_ok_ops(1) [OF session0_ok, of "''5''"]
  have sn: "sn_gameId (wake_options input0) = gs_gameId (writeState ''5'' session0)"
    by (simp add: input0_def writeState_def session0_facts)
  obtain g where o: "openSession env0 options0 (mem_ops env0) (b_store B1) (wake_options input0) = Inr g"
    "session_view (mem_ops env0) (b_store B1) g = session_view (mem_ops env0) mem_empty (writeState ''5'' session0)"
    using plain_mem.flush_durable(1) [OF s_ok fl sn, of options0] by blast
  obtain sz where z: "materializeBlobSizes (mem_ops env0) (b_store B1) g = Inr sz"
    using materializeBlobSizes_tracks [OF plain_mem.reopened_ok(1) [OF s_ok fl sn o(1)]] by blast
  have "gs_state g = ''5''" using o(2) by (simp add: session_view_def writeState_def)
  then obtain B3 where w: "wakeGame config0 deps0 input0 ((new_broker (b_store B1))\<lparr>b_started := True\<rparr>) = (Inr (), B3)"
    by (rule fresh_wake [OF o(1) z])
  have b: "b_store broker1 = mem_empty" by (simp add: broker1_def new_broker_def)
  have dirty: "isDirty (bg_state game1)" by (simp add: isDirty_def writeState_def)
  have "\<exists>G'. map_get (b_games B3) (bg_gameId game1) = Some G'
    \<and> session_view (dp_ops deps0) (b_store B3) (bg_state G') = session_view (dp_ops deps0) (b_store broker1) (bg_state game1)
    \<and> game_ok (ev_host (dp_env deps0)) (dp_ops deps0) (b_store B3) G' \<and> bg_sessions G' = []
    \<and> gb_stateBytes (bg_budgets G') = gb_stateBytes (bg_budgets game1)
    \<and> gb_blobBytes (bg_budgets G') = gb_blobBytes (bg_budgets game1)
    \<and> gb_blobKeys (bg_budgets G') = gb_blobKeys (bg_budgets game1)"
    by (rule release_then_wake [OF _ _ _ dirty r _ _ _ _ _ _ w])
      (simp_all add: host_env0 game1_ok b input0_def new_broker_def map_has_def)
  then show ?thesis using r w b by auto
qed

end
