(* ===== verification/BrokerSafety.thy ===== *)
theory BrokerSafety
  imports BrokerLifeProps
begin

text \<open>
  Safety of a Broker's entry points: the table of games in every reachable Broker, what a runner
  may touch, who may open a session, how a shard that lost a game stands down, and ticks.
\<close>

section \<open>Reachable Brokers\<close>



section \<open>Runners\<close>

text \<open>Only the entry of one game may change.\<close>

definition confined :: "string \<Rightarrow> 's Broker \<Rightarrow> 's Broker \<Rightarrow> bool" where
  "confined k B B' \<longleftrightarrow> (\<forall>k'. k' \<noteq> k \<longrightarrow> map_get (b_games B') k' = map_get (b_games B) k')"

lemma confined_games: "b_games B' = b_games B \<Longrightarrow> confined k B B'"
  by (simp add: confined_def)

lemma confined_put: "b_games B = b_games A \<Longrightarrow> bg_gameId G = k \<Longrightarrow> confined k A (put_game G B)"
  by (simp add: confined_def put_game_def update_conv')

lemma releaseGame_confined:
  assumes "releaseGame C D why (G, B) = (r, B')"
  shows "confined (bg_gameId G) B B'"
proof -
  obtain G1 B1 where d: "detach C D why (G, B) = (G1, B1)" by fastforce
  obtain res G2 B2 where f: "br_flushState C D ''state.flush.plannedTransition'' None (Some ''sleep'') (G1, B1) = (res, G2, B2)"
    by (metis prod_cases3)
  have "b_games B' = b_games B \<or> b_games B' = b_games B2"
    using assms by (auto simp: releaseGame_def d f Let_def maybeWriteDrainCompleted_def split: if_splits sum.splits)
  then show ?thesis using detach_run(2) [OF d] br_flushState_run(2) [OF f] by (auto simp: confined_def delete_conv')
qed

lemma standDown_confined: "confined (bg_gameId G) A B \<Longrightarrow> confined (bg_gameId G) A (standDownSupersededGame C D op G B)"
  using detach_run(2) [of C D superseded G B]
  by (cases "detach C D superseded (G, B)")
    (auto simp: standDownSupersededGame_def Let_def confined_def delete_conv')

lemma sync_confined: "confined (bg_gameId G) A B \<Longrightarrow> confined (bg_gameId G) A (sync_game G B)"
  by (simp add: sync_game_def confined_def put_game_def update_conv')

lemma sleepGame_confined:
  assumes "sleepGame C D why (G, B) = (r, B')"
  shows "confined (bg_gameId G) B B'"
proof -
  obtain G1 B1 where c: "clearSleepTimer C D (sleepReason why) (G, B) = (G1, B1)" by fastforce
  have g: "b_games B1 = b_games B" "bg_gameId G1 = bg_gameId G"
    using clearSleepTimer_evolves [OF c] by (auto simp: same_object_def)
  have s: "confined (bg_gameId G) B (sync_game G1 (emit e (writeHistory C D ev fs B1)))" for e ev fs
    using sync_confined [of G1 B] g by (simp add: confined_games)
  have "confined (bg_gameId G) B B4" if "releaseGame C D w (G1, sync_game G1 (emit e (writeHistory C D ev fs B1))) = (x, B4)"
    for w e ev fs x B4
    using releaseGame_confined [OF that] s [of e ev fs] g by (simp add: confined_def)
  then show ?thesis
    using assms s
    by (auto simp: sleepGame_def c Let_def invokeGameHandler_eq confined_games g
        split: if_splits option.splits sum.splits prod.splits) (simp_all add: confined_def)
qed

lemma answer_confined:
  "op_ok G B G' B' \<Longrightarrow> answer p r (G', B') = (x, B'') \<Longrightarrow> confined (bg_gameId G) B B''"
  by (auto simp: answer_def op_ok_def same_object_def confined_def put_game_def update_conv')

lemma read_ops_games:
  "br_readState C D r G B = (x, B') \<Longrightarrow> b_games B' = b_games B" "br_getBlob C D k r G B = (y, B') \<Longrightarrow> b_games B' = b_games B"
  "br_listBlobs C D pre r G B = (is, B') \<Longrightarrow> b_games B' = b_games B" "playersAllowed C D r G B = (ps, B') \<Longrightarrow> b_games B' = b_games B"
  "playersConnected C D r G B = (qs, B') \<Longrightarrow> b_games B' = b_games B"
  by (auto simp: br_readState_def br_getBlob_def br_listBlobs_def playersAllowed_def playersConnected_def Let_def
      split: sum.splits)

lemma handle_game_message_confined:
  assumes run: "handle_game_message C D rid msg req G B = (r, B')"
  shows "confined (bg_gameId G) B B'"
proof -
  note defs = handle_game_message_def Let_def
  show ?thesis
  proof (cases msg)
    case (StateWrite v)
    then show ?thesis using run by (auto simp: defs split: prod.splits dest!: br_writeState_op answer_confined)
  next
    case (BlobPut p)
    then show ?thesis using run by (auto simp: defs split: prod.splits dest!: br_putBlob_op answer_confined)
  next
    case (BlobDelete k)
    obtain G1 B1 where o: "br_deleteBlob C D k req (G, B) = (G1, B1)" by fastforce
    have "answer BlobDeleteResponse req (G1, B1) = (r, B')" using run by (simp add: BlobDelete defs o)
    then show ?thesis by (rule answer_confined [OF br_deleteBlob_op [OF o]])
  next
    case (WsSend t b)
    then show ?thesis using run by (auto simp: defs split: prod.splits dest!: handleWsSend_op answer_confined)
  next
    case ComputeBudget
    then show ?thesis using run by (auto simp: defs split: prod.splits dest!: computeBudget_op answer_confined)
  next
    case (ApiInvoke p)
    then show ?thesis using run by (auto simp: defs split: prod.splits dest!: invokeGateway_op answer_confined)
  next
    case StateFlush
    obtain x G1 B1 where o: "br_flushState C D ''state.flush'' req (Some ''flush'') (G, B) = (x, G1, B1)"
      by (metis prod_cases3)
    have g: "bg_gameId G1 = bg_gameId G" "b_games B1 = b_games B"
      using br_flushState_run [OF o] by (auto simp: same_object_def)
    have "confined (bg_gameId G1) B (respond p r' G1 (put_game G1 B1))" for p r'
      using g by (simp add: confined_def put_game_def update_conv')
    from standDown_confined [OF this] this have "confined (bg_gameId G) B B'"
      using run confined_put [OF g(2), of G1] g
      by (auto simp: StateFlush defs o split: sum.splits if_splits)
    then show ?thesis .
  next
    case (LifecycleRequestTick i)
    have "bg_gameId (scheduleTick C (dp_now D) (Some i) G) = bg_gameId G"
      by (simp add: scheduleTick_def armTick_def Let_def split: option.splits)
    then show ?thesis using run by (auto simp: LifecycleRequestTick defs intro!: confined_put)
  next
    case (IsolateCounters p)
    then show ?thesis using run by (auto simp: defs confined_def put_game_def update_conv')
  next
    case LifecycleRequestSleep
    let ?B = "writeHistory C D ''lifecycle.requestSleep'' [(''gameId'', JStr (bg_gameId G)), (''reason'', JStr ''requestedBySleep'')] B"
    obtain x B1 where s: "sleepGame C D RequestedBySleep (G, ?B) = (x, B1)" by fastforce
    then show ?thesis using run sleepGame_confined [OF s] by (simp add: LifecycleRequestSleep defs confined_def)
  next
    case (LifecycleSleepComplete reason n)
    then show ?thesis
      using run by (auto simp: defs split: prod.splits sum.splits dest!: releaseGame_confined) (simp_all add: confined_def)
  next
    case (IsolateFatal p)
    then show ?thesis
      using run by (auto simp: defs split: prod.splits sum.splits dest!: releaseGame_confined) (simp_all add: confined_def)
  next
    case StateRead
    then show ?thesis using run by (auto simp: defs intro!: confined_games split: prod.splits sum.splits dest!: read_ops_games(1))
  next
    case (BlobGet k)
    then show ?thesis using run by (auto simp: defs intro!: confined_games split: prod.splits sum.splits dest!: read_ops_games(2))
  next
    case (BlobList pre)
    then show ?thesis using run by (auto simp: defs intro!: confined_games split: prod.splits dest!: read_ops_games(3))
  next
    case PlayersAllowed
    then show ?thesis using run by (auto simp: defs intro!: confined_games split: prod.splits dest!: read_ops_games(4))
  next
    case PlayersConnected
    then show ?thesis using run by (auto simp: defs intro!: confined_games split: prod.splits dest!: read_ops_games(5))
  qed (use run in \<open>auto simp: defs confined_def\<close>)
qed

text \<open>
  C13: a runner acts only for the games assigned to it. A message for a game that is not here or
  runs on another runner leaves a history row and nothing else; a message for a game the runner
  has leaves every other game as it was.
\<close>

theorem runner_confined:
  assumes "table_ok C B" and "handleRunnerEnvelope C D rid env B = (r, B')"
  shows "(map_option bg_runnerId (map_get (b_games B) (be_gameId env)) \<noteq> Some rid
      \<longrightarrow> r = Inr () \<and> (\<exists>ev fs. B' = writeHistory C D ev fs B))
    \<and> (\<forall>k. k \<noteq> be_gameId env \<longrightarrow> map_get (b_games B') k = map_get (b_games B) k)"
  using assms(2)
proof (cases rule: handleRunnerEnvelope_cases)
  case (game G)
  have "bg_gameId G = be_gameId env" by (rule table_key [OF assms(1) game(1)])
  then show ?thesis using handle_game_message_confined [OF game(3)] game(1,2) by (simp add: confined_def)
qed auto

theorem runner_confined_witness:
  "\<exists>B'. handleRunnerEnvelope config0 deps0 ''r2'' (bridgeEnvelope ''g1'' (StateWrite JNull) no_options) broker1 = (Inr (), B')
    \<and> b_games B' = b_games broker1"
proof -
  have t: "table_ok config0 broker1" by (simp add: table_ok_def broker1_def new_broker_def config0_def)
  obtain r B' where h: "handleRunnerEnvelope config0 deps0 ''r2'' (bridgeEnvelope ''g1'' (StateWrite JNull) no_options) broker1 = (r, B')"
    by fastforce
  have "map_option bg_runnerId (map_get (b_games broker1) (be_gameId (bridgeEnvelope ''g1'' (StateWrite JNull) no_options))) \<noteq> Some ''r2''"
    by (simp add: broker1_def bridgeEnvelope_def)
  with runner_confined [OF t h] h show ?thesis by auto
qed

section \<open>Connections\<close>

text \<open>What a connection has to show: a token for this shard, the routed game and an allowed player.\<close>

definition admissible :: "BrokerConfig \<Rightarrow> 's deps \<Rightarrow> (string \<times> string) list \<Rightarrow> VerifiedPlacementClaims \<Rightarrow> bool" where
  "admissible C D query claims \<longleftrightarrow>
     (\<exists>token. placement_token query = Some token \<and> verifyPlacementToken D token = Inr claims)
     \<and> vc_shardId claims = cf_shardId C
     \<and> map_get query ''gameId'' \<in> {None, Some [], Some (vc_gameId claims)}
     \<and> dp_allowedHas D (vc_gameId claims) (vc_playerId claims)"

lemma wrong_game_iff:
  "wrong_game query claims \<longleftrightarrow> map_get query ''gameId'' \<notin> {None, Some [], Some (vc_gameId claims)}"
  by (auto simp: wrong_game_def truthy_def split: option.splits)

lemma accept_admissible:
  assumes "b_started B" and "admissible C D q claims"
  shows "\<exists>fs. acceptWebSocket C D ws q B =
    brk_bind (ensureGameForConnection C D (vc_gameId claims)) (\<lambda>g B.
      (case g of None \<Rightarrow> (Inr (), refuse C D ws 4503 ''game not available'' fs B)
       | Some G \<Rightarrow> open_session C D ws claims G B)) B"
proof -
  obtain token where t: "placement_token q = Some token" "verifyPlacementToken D token = Inr claims"
    using assms(2) by (auto simp: admissible_def)
  have "\<not> wrong_game q claims" using assms(2) unfolding wrong_game_iff admissible_def by blast
  then show ?thesis
    using assms t by (auto simp: acceptWebSocket_def brk_bind_def [of ensureStarted] ensureStarted_def Let_def admissible_def)
qed

lemma accept_refused:
  assumes "b_started B" and no: "\<And>claims. \<not> admissible C D q claims" and run: "acceptWebSocket C D ws q B = (r, B')"
  shows "r = Inr () \<and> b_games B' = b_games B \<and> b_store B' = b_store B
    \<and> (\<exists>hs code why. code \<in> {4401, 4403} \<and> b_out B' = b_out B @ map History hs @ [WsClose ws code why])"
proof -
  have one: "\<exists>hs code why. code \<in> {4401, 4403} \<and> b_out (refuse C D ws c w fs B) = b_out B @ map History hs @ [WsClose ws code why]"
    if "c \<in> {4401, 4403}" for c w fs
    using that by (auto simp: refuse_def intro!: exI [of _ "[_]"])
  have f: "b_games (refuse C D ws c w fs B) = b_games B" "b_store (refuse C D ws c w fs B) = b_store B" for c w fs
    by (simp_all add: refuse_def)
  show ?thesis
  proof (cases "placement_token q")
    case None
    then have "r = Inr ()" "B' = emit (WsClose ws 4401 ''missing placement token'') B"
      using run assms(1) by (simp_all add: acceptWebSocket_def brk_bind_def [of ensureStarted] ensureStarted_def)
    then show ?thesis by (auto intro!: exI [of _ "[]"])
  next
    case (Some token)
    show ?thesis
    proof (cases "verifyPlacementToken D token")
      case (Inl e)
      then show ?thesis
        using run assms(1) Some one [of 4401] f
        by (auto simp: acceptWebSocket_def brk_bind_def [of ensureStarted] ensureStarted_def)
    next
      case (Inr claims)
      have "vc_shardId claims \<noteq> cf_shardId C \<or> wrong_game q claims \<or> \<not> dp_allowedHas D (vc_gameId claims) (vc_playerId claims)"
        using no [of claims] Some Inr unfolding wrong_game_iff admissible_def by blast
      then show ?thesis
        using run assms(1) Some Inr one [of 4403] f
        by (auto simp: acceptWebSocket_def brk_bind_def [of ensureStarted] ensureStarted_def Let_def split: if_splits)
    qed
  qed
qed

lemma open_session_adds:
  assumes run: "open_session C D ws claims G B = (r, B')" and res: "map_get (b_games B) (bg_gameId G) = Some G"
  shows "\<exists>G'. map_get (b_games B') (bg_gameId G) = Some G' \<and> bg_sleepTimer G' = None
    \<and> bg_sessions G' = map_set (dp_sessionId D)
        \<lparr>se_sessionId = dp_sessionId D, se_gameId = vc_gameId claims, se_playerId = vc_playerId claims,
         se_jwtClaims = vc_all claims, se_connectedAt = dp_now D, se_seq = 0, se_ws = ws\<rparr> (bg_sessions G)"
    and "confined (bg_gameId G) B B'"
proof -
  let ?S = "\<lparr>se_sessionId = dp_sessionId D, se_gameId = vc_gameId claims, se_playerId = vc_playerId claims,
         se_jwtClaims = vc_all claims, se_connectedAt = dp_now D, se_seq = 0, se_ws = ws\<rparr>"
  let ?G = "G\<lparr>bg_sessions := map_set (dp_sessionId D) ?S (bg_sessions G)\<rparr>"
  obtain G1 B1 where c: "clearSleepTimer C D ''cancelled'' (?G, B) = (G1, B1)" by fastforce
  have g: "b_games B1 = b_games B" "bg_gameId G1 = bg_gameId G" "bg_ref G1 = bg_ref G"
    "bg_sessions G1 = map_set (dp_sessionId D) ?S (bg_sessions G)" "bg_sleepTimer G1 = None"
    using c by (auto simp: clearSleepTimer_def split: option.splits)
  obtain B2 where B': "B' = sync_game G1 B2" "b_games B2 = b_games B"
    using run g(1) by (auto simp: open_session_def Let_def c invokeGameHandler_eq)
  have "is_resident G1 B2" using B'(2) res g by (simp add: is_resident_def)
  then have "b_games B' = map_set (bg_gameId G) G1 (b_games B)" using B' g(2) by (simp add: sync_game_def put_game_def)
  then show "\<exists>G'. map_get (b_games B') (bg_gameId G) = Some G' \<and> bg_sleepTimer G' = None
    \<and> bg_sessions G' = map_set (dp_sessionId D) ?S (bg_sessions G)" "confined (bg_gameId G) B B'"
    using g by (auto simp: update_conv' confined_def)
qed

text \<open>
  C14: admission. Without a verified token of this shard for the routed game and an allowed
  player, the socket is closed with 4401 or 4403 and nothing else of the Broker changes; with
  one, and the game here, the socket becomes a session of exactly that game and that player,
  bound to the claims of the token, whatever the game's own handler does, and a pending sleep
  is called off.
\<close>

theorem connection_admission:
  assumes started: "b_started B" and "table_ok C B" and run: "acceptWebSocket C D ws q B = (r, B')"
  shows "((\<forall>claims. \<not> admissible C D q claims) \<longrightarrow>
        r = Inr () \<and> b_games B' = b_games B \<and> b_store B' = b_store B
        \<and> (\<exists>hs code why. code \<in> {4401, 4403} \<and> b_out B' = b_out B @ map History hs @ [WsClose ws code why]))
    \<and> (\<forall>claims G. admissible C D q claims \<longrightarrow> map_get (b_games B) (vc_gameId claims) = Some G \<longrightarrow>
        (\<exists>G'. map_get (b_games B') (vc_gameId claims) = Some G' \<and> bg_sleepTimer G' = None
          \<and> bg_sessions G' = map_set (dp_sessionId D)
              \<lparr>se_sessionId = dp_sessionId D, se_gameId = vc_gameId claims, se_playerId = vc_playerId claims,
               se_jwtClaims = vc_all claims, se_connectedAt = dp_now D, se_seq = 0, se_ws = ws\<rparr> (bg_sessions G))
        \<and> (\<forall>k. k \<noteq> vc_gameId claims \<longrightarrow> map_get (b_games B') k = map_get (b_games B) k))"
proof (intro conjI impI allI)
  fix claims G
  assume adm: "admissible C D q claims" and res: "map_get (b_games B) (vc_gameId claims) = Some G"
  have gid: "bg_gameId G = vc_gameId claims" by (rule table_key [OF assms(2) res])
  have "ensureGameForConnection C D (vc_gameId claims) B = (Inr (Some G), B)"
    using res by (simp add: ensureGameForConnection_def)
  then have "open_session C D ws claims G B = (r, B')"
    using accept_admissible [OF started adm, of ws] run by (auto simp: brk_bind_def)
  from open_session_adds [OF this] res gid
  show "\<exists>G'. map_get (b_games B') (vc_gameId claims) = Some G' \<and> bg_sleepTimer G' = None
          \<and> bg_sessions G' = map_set (dp_sessionId D)
              \<lparr>se_sessionId = dp_sessionId D, se_gameId = vc_gameId claims, se_playerId = vc_playerId claims,
               se_jwtClaims = vc_all claims, se_connectedAt = dp_now D, se_seq = 0, se_ws = ws\<rparr> (bg_sessions G)"
    "\<And>k. k \<noteq> vc_gameId claims \<Longrightarrow> map_get (b_games B') k = map_get (b_games B) k"
    by (auto simp: confined_def)
next
  assume "\<forall>claims. \<not> admissible C D q claims"
  then have no: "\<And>claims. \<not> admissible C D q claims" by blast
  note refused = accept_refused [OF started no run]
  show "r = Inr ()" "b_games B' = b_games B" "b_store B' = b_store B"
    "\<exists>hs code why. code \<in> {4401, 4403} \<and> b_out B' = b_out B @ map History hs @ [WsClose ws code why]"
    using refused by blast+
qed

theorem connection_admission_witness:
  "\<exists>B' G'. acceptWebSocket config0 deps0 9 [(''token'', ''t'')] broker1 = (Inr (), B')
    \<and> map_get (b_games B') ''g1'' = Some G' \<and> map_has (bg_sessions G') ''ses_1''"
proof -
  let ?c = "\<lparr>vc_gameId = ''g1'', vc_playerId = ''p1'', vc_shardId = ''s1'',
    vc_all = [(''gameId'', JStr ''g1''), (''playerId'', JStr ''p1''), (''shardId'', JStr ''s1'')]\<rparr>"
  have t: "table_ok config0 broker1" by (simp add: table_ok_def broker1_def new_broker_def config0_def)
  have st: "b_started broker1" and g: "map_get (b_games broker1) ''g1'' = Some game1" by (simp_all add: broker1_def)
  have adm: "admissible config0 deps0 [(''token'', ''t'')] ?c"
    by (simp add: admissible_def placement_token_def truthy_def verifyPlacementToken_def deps0_def config0_def)
  obtain r B' where run: "acceptWebSocket config0 deps0 9 [(''token'', ''t'')] broker1 = (r, B')" by fastforce
  have "r = Inr ()"
    using accept_admissible [OF st adm, of 9] run g
    by (auto simp: brk_bind_def ensureGameForConnection_def open_session_def Let_def clearSleepTimer_def invokeGameHandler_eq)
  moreover have "\<exists>G'. map_get (b_games B') ''g1'' = Some G' \<and> map_has (bg_sessions G') ''ses_1''"
    using connection_admission [OF st t run] adm g
    by (fastforce simp: map_has_def update_conv' deps0_def)
  ultimately show ?thesis using run by blast
qed

section \<open>Standing down\<close>

lemma close_fold_keeps:
  "set (b_out B) \<subseteq> set (b_out (fold (\<lambda>(k, s) B. emit (WsClose (se_ws s) 1001 why) (sendJson D (se_ws s) (m s) B)) ss B))"
proof (induction ss arbitrary: B)
  case (Cons p ss)
  obtain k s where p: "p = (k, s)" by (cases p)
  have "set (b_out B) \<subseteq> set (b_out (emit (WsClose (se_ws s) 1001 why) (sendJson D (se_ws s) (m s) B)))"
    by (auto simp: sendJson_def split: sum.splits option.splits)
  from subset_trans [OF this Cons.IH] show ?case by (simp add: p)
qed simp

lemma close_fold_out:
  "(k, s) \<in> set ss \<Longrightarrow> WsClose (se_ws s) 1001 why
     \<in> set (b_out (fold (\<lambda>(k, s) B. emit (WsClose (se_ws s) 1001 why) (sendJson D (se_ws s) (m s) B)) ss B))"
proof (induction ss arbitrary: B)
  case (Cons p ss)
  show ?case
  proof (cases "(k, s) = p")
    case True
    then show ?thesis
      using close_fold_keeps [where B = "emit (WsClose (se_ws s) 1001 why) (sendJson D (se_ws s) (m s) B)" and ss = ss]
      by auto
  next
    case False
    then show ?thesis using Cons by (simp add: case_prod_beta)
  qed
qed simp

lemma detach_closes:
  assumes "detach C D why (G, B) = (G', B')" and "(k, s) \<in> set (bg_sessions G)"
  shows "WsClose (se_ws s) 1001 why \<in> set (b_out B')"
proof -
  let ?B1 = "B\<lparr>b_games := map_delete (bg_gameId G) (b_games B)\<rparr>"
  obtain G2 B2 where c: "clearSleepTimer C D why (G, ?B1) = (G2, B2)" by fastforce
  have "bg_sessions (cancelTickTimer G2) = bg_sessions G"
    using clearSleepTimer_evolves [OF c] by (simp add: cancelTickTimer_def)
  then show ?thesis
    using assms(1) close_fold_out [OF assms(2)] by (auto simp: detach_def c Let_def closeSessions_def)
qed

lemma standDown_run:
  assumes "map_get (b_games B) (bg_gameId G) = Some G0" and "bg_ref G0 = bg_ref G" and wf: "map_wf (b_games B)"
  shows "map_get (b_games (standDownSupersededGame C D op G B)) (bg_gameId G) = None"
    and "b_store (standDownSupersededGame C D op G B) = b_store B"
    and "\<forall>(k, s) \<in> set (bg_sessions G). WsClose (se_ws s) 1001 superseded \<in> set (b_out (standDownSupersededGame C D op G B))"
    and "RunnerReleased (bg_runnerId G) (bg_gameId G) \<in> set (b_out (standDownSupersededGame C D op G B))"
    and "ActiveGameReleased (bg_gameId G) (bg_generation G) \<in> set (b_out (standDownSupersededGame C D op G B))"
proof -
  obtain G1 B1 where d: "detach C D superseded (G, B) = (G1, B1)" by fastforce
  have r: "is_resident G B" using assms by (simp add: is_resident_def)
  note dr = detach_run [OF d]
  show "map_get (b_games (standDownSupersededGame C D op G B)) (bg_gameId G) = None"
    "b_store (standDownSupersededGame C D op G B) = b_store B"
    using dr wf by (simp_all add: standDownSupersededGame_def r d Let_def delete_conv')
  show "\<forall>(k, s) \<in> set (bg_sessions G). WsClose (se_ws s) 1001 superseded \<in> set (b_out (standDownSupersededGame C D op G B))"
    using detach_closes [OF d] by (auto simp: standDownSupersededGame_def r d Let_def publishCapacity_def)
  show "RunnerReleased (bg_runnerId G) (bg_gameId G) \<in> set (b_out (standDownSupersededGame C D op G B))"
    "ActiveGameReleased (bg_gameId G) (bg_generation G) \<in> set (b_out (standDownSupersededGame C D op G B))"
    using dr by (simp_all add: standDownSupersededGame_def r d Let_def publishCapacity_def)
qed



section \<open>Ticks\<close>

text \<open>
  C20: ticks keep their schedule. After a tick of a resident game with a positive interval, even
  one whose handler failed, exactly one timer is armed; it fires at the next deadline of the
  original schedule that is still in the future, so late ticks are skipped and not made up
  for, and the sequence number has advanced by one.
\<close>

theorem tick_schedule:
  assumes res: "map_get (b_games B) (bg_gameId G) = Some G" and "bg_tickIntervalMs G = Some n" and "0 < n"
    and "bg_tickNextDeadlineMs G = Some d" and run: "tick C D i G B = (r, B')"
  shows "r = Inr () \<and> (\<exists>G' k. map_get (b_games B') (bg_gameId G) = Some G' \<and> 1 \<le> k
    \<and> bg_tickNextDeadlineMs G' = Some (d + k * n) \<and> bg_tickTimer G' = Some (d + k * n)
    \<and> dp_later D < d + k * n \<and> (k = 1 \<or> d + k * n \<le> dp_later D + n)
    \<and> bg_tickSeq G' = Some (default 0 (bg_tickSeq G) + 1) \<and> \<not> bg_tickRunning G')"
proof -
  let ?G1 = "G\<lparr>bg_tickTimer := None, bg_tickRunning := True, bg_tickSeq := Some (default 0 (bg_tickSeq G) + 1)\<rparr>"
  have r1: "is_resident G B" using res by (simp add: is_resident_def)
  define B2 where "B2 = emit (RunnerInvoked (bg_runnerId ?G1) (handler_call C H_onTick
      (JObj [(''tickSeq'', JNum (default 0 (bg_tickSeq G))), (''intervalMs'', JNum i)]) no_context ?G1)) B"
  have B2: "b_games B2 = b_games B" by (simp add: B2_def)
  have t: "tick C D i G B =
      (case tick_done (is_resident ?G1 B2) (dp_later D) ?G1 of
         None \<Rightarrow> (Inl hang, sync_game ?G1 B2) | Some G3 \<Rightarrow> (Inr (), sync_game G3 B2))"
    unfolding B2_def using r1 assms(2)
    by (simp add: tick_def tick_fire_def Let_def invokeGameHandler_eq cong: option.case_cong)
  have r2: "is_resident ?G1 B2" using res B2 by (simp add: is_resident_def)
  obtain j where j: "advance (dp_later D) n (d + n) = Some (d + n + int j * n)" "dp_later D < d + n + int j * n"
    "j = 0 \<or> d + n + int j * n \<le> dp_later D + n"
    using advance_spec [OF assms(3), of "dp_later D" "d + n"] by blast
  let ?k = "1 + int j"
  have k: "d + n + int j * n = d + ?k * n" by (simp add: algebra_simps)
  let ?G3 = "?G1\<lparr>bg_tickRunning := False, bg_tickNextDeadlineMs := Some (d + ?k * n), bg_tickTimer := Some (d + ?k * n)\<rparr>"
  have "tick_done True (dp_later D) ?G1 = Some ?G3"
    using assms(2,4) j(1,2) by (simp add: tick_done_def armTick_def Let_def k)
  then have B': "r = Inr ()" "B' = sync_game ?G3 B2" using run t r2 by simp_all
  have "is_resident ?G3 B2" using res B2 by (simp add: is_resident_def)
  then have "map_get (b_games B') (bg_gameId G) = Some ?G3" using B'(2) by (simp add: sync_game_def put_game_def update_conv')
  moreover have "1 \<le> ?k" by simp
  ultimately show ?thesis using B'(1) j k by (intro conjI exI [of _ ?G3] exI [of _ ?k]) auto
qed

theorem tick_schedule_witness:
  "\<exists>B' G'. tick config0 deps0 10 (game1\<lparr>bg_tickIntervalMs := Some 10, bg_tickNextDeadlineMs := Some 960\<rparr>)
      (broker1\<lparr>b_games := [(''g1'', game1\<lparr>bg_tickIntervalMs := Some 10, bg_tickNextDeadlineMs := Some 960\<rparr>)]\<rparr>) = (Inr (), B')
    \<and> map_get (b_games B') ''g1'' = Some G' \<and> bg_tickTimer G' = Some 1010"
proof -
  let ?G = "game1\<lparr>bg_tickIntervalMs := Some 10, bg_tickNextDeadlineMs := Some 960\<rparr>"
  let ?B = "broker1\<lparr>b_games := [(''g1'', ?G)]\<rparr>"
  obtain r B' where run: "tick config0 deps0 10 ?G ?B = (r, B')" by fastforce
  obtain G' k where "r = Inr ()" "map_get (b_games B') ''g1'' = Some G'" "bg_tickTimer G' = Some (960 + k * 10)"
    "1001 < 960 + k * 10" "k = 1 \<or> 960 + k * 10 \<le> 1001 + 10"
    using tick_schedule [OF _ _ _ _ run, of 10 960] by auto
  moreover from this have "k = 5" by presburger
  ultimately show ?thesis using run by auto
qed

end
