(* ===== verification/BrokerRaces.thy ===== *)
theory BrokerRaces
  imports BrokerSafety
begin

text \<open>
  What the guards of the Broker do not cover: schedules in which another handler runs at an
  \<^verbatim>\<open>await\<close>, and errors of a dependency that leave the table half updated. Each statement is a
  concrete run of the handlers of \<open>BrokerLife\<close> and \<open>BrokerConn\<close>.
\<close>

section \<open>A started Broker over an empty store\<close>

definition started0 :: "mem_store Broker" where
  "started0 = (new_broker mem_empty)\<lparr>b_started := True\<rparr>"

definition input2 :: BrokerWakeInput where
  "input2 = input0\<lparr>wi_gameId := ''g2''\<rparr>"

definition fresh_session :: "BrokerWakeInput \<Rightarrow> GameStateSession" where
  "fresh_session input = new_session options0 (wake_options input) (emptyMaterialized (wi_gameId input))"

lemma open_fresh [simp]:
  "openSession env0 options0 (mem_ops env0) mem_empty (wake_options input) = Inr (fresh_session input)"
  by (simp add: openSession_def materialize_def mem_get_def mem_lookup_def mem_empty_def fresh_session_def)

lemma fresh_session_facts [simp]:
  "readState (fresh_session input) = []"
  "materializeBlobSizes (mem_ops env0) s (fresh_session input) = Inr []"
  by (simp_all add: fresh_session_def new_session_def emptyMaterialized_def readState_def materializeBlobSizes_def listBlobs_def)

lemma started0_fields [simp]:
  "b_games started0 = []" "b_started started0" "b_acceptingWakes started0" "b_wakingGames started0 = []"
  "b_store started0 = mem_empty" "b_nextRef started0 = 0" "\<not> b_drainRequested started0" "\<not> b_drainCompleted started0"
  by (simp_all add: started0_def new_broker_def)

lemma config0_fields [simp]:
  "cf_maxActiveGames config0 = 1" "cf_runtimeContractsSupported config0 = (1, 1)" "cf_shardId config0 = ''s1''"
  "cf_sleepGraceMs config0 = None" "cf_budgets config0 = None"
  by (simp_all add: config0_def)

lemma input_fields [simp]:
  "wi_gameId input0 = ''g1''" "wi_gameId input2 = ''g2''" "wi_runtimeContractRequired input0 = 1"
  "wi_runtimeContractRequired input2 = 1" "wi_generation input0 = None"
  by (simp_all add: input2_def input0_def)

lemmas wake_run = wake_begin_def brk_bind_def ensureRuntimeContract_def ensureCapacity_def wake_finish_def wake_body_def
  wake_announce_def Let_def invokeGameHandler_eq deliverQueuedHostEvents_def map_has_def set_add_def

section \<open>Wakes that overlap\<close>

lemma fresh_wake_finish:
  assumes "b_store B = mem_empty"
  obtains G B' where "wake_finish config0 deps0 input B = (Inr (), B')" "bg_gameId G = wi_gameId input"
    "b_games B' = map_set (wi_gameId input) G (b_games B)" "b_store B' = mem_empty"
    "b_drainCompleted B' = b_drainCompleted B"
proof -
  let ?G = "new_game (b_nextRef B) (default 1000 (wi_generation input)) ''r1'' input (fresh_session input) []"
  have g: "bg_gameId ?G = wi_gameId input" "bg_state ?G = fresh_session input" by (simp_all add: new_game_def)
  have r: "is_resident ?G (B0\<lparr>b_games := map_set (wi_gameId input) ?G gs\<rparr>)" for B0 :: "mem_store Broker" and gs
    by (simp add: is_resident_def g update_conv')
  have "\<exists>B'. wake_finish config0 deps0 input B = (Inr (), B')
      \<and> b_games B' = map_set (wi_gameId input) ?G (b_games B) \<and> b_store B' = mem_empty
      \<and> b_drainCompleted B' = b_drainCompleted B"
    using assms by (simp add: wake_run decodeJsonState_def g sync_game_def put_game_def is_resident_def update_conv')
  then show ?thesis using that g by blast
qed

text \<open>The capacity is checked when a wake begins; two wakes in flight both pass it.\<close>

theorem overlapping_wakes_exceed_capacity:
  "\<exists>B1 B2 B3 B4. wake_begin config0 input0 started0 = (Inr True, B1)
    \<and> wake_begin config0 input2 B1 = (Inr True, B2)
    \<and> wake_finish config0 deps0 input0 B2 = (Inr (), B3) \<and> wake_finish config0 deps0 input2 B3 = (Inr (), B4)
    \<and> int (length (b_games B4)) = 2 \<and> cf_maxActiveGames config0 = 1"
proof -
  let ?B = "started0\<lparr>b_wakingGames := [''g1'', ''g2'']\<rparr>"
  have "wake_begin config0 input0 started0 = (Inr True, started0\<lparr>b_wakingGames := [''g1'']\<rparr>)"
    "wake_begin config0 input2 (started0\<lparr>b_wakingGames := [''g1'']\<rparr>) = (Inr True, ?B)"
    by (simp_all add: wake_run)
  moreover obtain G B3 where "wake_finish config0 deps0 input0 ?B = (Inr (), B3)" "b_games B3 = [(''g1'', G)]" "b_store B3 = mem_empty"
    by (rule fresh_wake_finish [of ?B input0]) simp_all
  moreover obtain G' B4 where "wake_finish config0 deps0 input2 B3 = (Inr (), B4)" "b_games B4 = map_set ''g2'' G' (b_games B3)"
    by (rule fresh_wake_finish [of B3 input2]) (use calculation in simp_all)
  ultimately show ?thesis by (intro exI conjI) auto
qed

text \<open>A drain requested while a wake is in flight is recorded as completed; then the game is there.\<close>

theorem drain_completed_during_wake:
  "\<exists>B1 B2 B3. wake_begin config0 input0 started0 = (Inr True, B1) \<and> requestDrain config0 deps0 ''deploy'' B1 = B2
    \<and> wake_finish config0 deps0 input0 B2 = (Inr (), B3) \<and> b_drainCompleted B3 \<and> map_has (b_games B3) ''g1''"
proof -
  let ?B1 = "started0\<lparr>b_wakingGames := [''g1'']\<rparr>"
  let ?B2 = "requestDrain config0 deps0 ''deploy'' ?B1"
  have "wake_begin config0 input0 started0 = (Inr True, ?B1)" by (simp add: wake_run)
  moreover have "b_store ?B2 = mem_empty" "b_drainCompleted ?B2"
    by (simp_all add: requestDrain_def Let_def maybeWriteDrainCompleted_def)
  moreover obtain G B3 where "wake_finish config0 deps0 input0 ?B2 = (Inr (), B3)"
    "b_games B3 = map_set ''g1'' G (b_games ?B2)" "b_drainCompleted B3"
    by (rule fresh_wake_finish [of ?B2 input0]) (use calculation in simp_all)
  ultimately show ?thesis
    by (intro exI [of _ ?B1] exI [of _ ?B2] exI [of _ B3]) (simp add: map_has_def update_conv')
qed

lemma sendJson_flags [simp]:
  "b_drainRequested (sendJson D ws v B) = b_drainRequested B" "b_drainCompleted (sendJson D ws v B) = b_drainCompleted B"
  by (simp_all add: sendJson_def split: sum.splits option.splits)

lemma fold_close_flags [simp]:
  "b_drainRequested (fold (\<lambda>(k, s) B. emit (WsClose (se_ws s) c why) (sendJson D (se_ws s) (m s) B)) ss B) = b_drainRequested B"
  "b_drainCompleted (fold (\<lambda>(k, s) B. emit (WsClose (se_ws s) c why) (sendJson D (se_ws s) (m s) B)) ss B) = b_drainCompleted B"
  by (induction ss arbitrary: B) (simp_all add: split_def)

section \<open>Drains that are never recorded as completed\<close>

text \<open>
  Only a release checks whether a drain is complete; the last game may leave by standing down.
\<close>

lemma stand_down_misses_drain:
  assumes "b_games B = [(bg_gameId G, G)]" and "b_drainRequested B" and "\<not> b_drainCompleted B"
  shows "b_games (standDownSupersededGame C D op G B) = [] \<and> b_drainRequested (standDownSupersededGame C D op G B)
    \<and> \<not> b_drainCompleted (standDownSupersededGame C D op G B)"
proof -
  obtain G1 B1 where d: "detach C D superseded (G, B) = (G1, B1)" by fastforce
  have "b_games B1 = []" using detach_run(2) [OF d] assms(1) by (simp add: delete_conv')
  moreover have "b_drainRequested B1" "\<not> b_drainCompleted B1"
    using d assms(2,3) fold_close_flags
    by (auto simp: detach_def clearSleepTimer_def closeSessions_def cancelCheckpointTimer_def Let_def split: option.splits if_splits prod.splits)
  ultimately show ?thesis using assms(1)
    by (simp add: standDownSupersededGame_def is_resident_def d Let_def)
qed

section \<open>Errors of a dependency\<close>

definition unclaimed :: "mem_store deps" where
  "unclaimed = deps0\<lparr>dp_claim := \<lambda>c. Some ''active game claim lost''\<rparr>"

definition failing :: "RuntimeHandlerName \<Rightarrow> mem_store deps" where
  "failing h = deps0\<lparr>dp_invoke := \<lambda>call. if ri_handler call = h then Some ''handler failed'' else None\<rparr>"

text \<open>
  A wake whose claim the directory refuses fails, and yet the game stays in the table: the next
  connection finds it there and is served, although another shard holds the game.
\<close>

theorem refused_claim_still_serves:
  "\<exists>B1 B2 G e. wakeGame config0 unclaimed input0 started0 = (Inl e, B1)
    \<and> acceptWebSocket config0 unclaimed 7 [(''token'', ''t'')] B1 = (Inr (), B2)
    \<and> map_get (b_games B2) ''g1'' = Some G \<and> map_has (bg_sessions G) ''ses_1''"
proof -
  let ?c = "\<lparr>vc_gameId = ''g1'', vc_playerId = ''p1'', vc_shardId = ''s1'',
    vc_all = [(''gameId'', JStr ''g1''), (''playerId'', JStr ''p1''), (''shardId'', JStr ''s1'')]\<rparr>"
  let ?G = "new_game 0 1000 ''r1'' input0 (fresh_session input0) []"
  let ?B1 = "snd (wakeGame config0 unclaimed input0 started0)"
  have "fst (wakeGame config0 unclaimed input0 started0) = Inl ''active game claim lost''"
    "b_games ?B1 = [(''g1'', ?G)]" "b_started ?B1"
    by (simp_all add: wakeGame_def wake_run unclaimed_def put_game_def new_game_def
        open_fresh [of input0, unfolded input_fields])
  then obtain e B1 where w: "wakeGame config0 unclaimed input0 started0 = (Inl e, B1)" "b_games B1 = [(''g1'', ?G)]" "b_started B1"
    by (metis prod.collapse)
  have adm: "admissible config0 unclaimed [(''token'', ''t'')] ?c"
    by (simp add: admissible_def placement_token_def truthy_def verifyPlacementToken_def deps0_def unclaimed_def)
  obtain r B2 where run: "open_session config0 unclaimed 7 ?c ?G B1 = (r, B2)" by fastforce
  have r: "r = Inr ()"
    using run by (auto simp: open_session_def Let_def clearSleepTimer_def invokeGameHandler_eq unclaimed_def new_game_def)
  have "map_get (b_games B1) (bg_gameId ?G) = Some ?G" using w(2) by (simp add: new_game_def)
  from open_session_adds(1) [OF run this] have "\<exists>G. map_get (b_games B2) ''g1'' = Some G \<and> map_has (bg_sessions G) ''ses_1''"
    by (auto simp: new_game_def map_has_def unclaimed_def deps0_def)
  moreover have "acceptWebSocket config0 unclaimed 7 [(''token'', ''t'')] B1 = (Inr (), B2)"
    using accept_admissible [OF w(3) adm, of 7] w(2) run r by (auto simp: brk_bind_def ensureGameForConnection_def)
  ultimately show ?thesis using w(1) by blast
qed

text \<open>A failing \<^verbatim>\<open>onPlayerDisconnect\<close> of the last player leaves the game with no session and no sleep timer.\<close>

theorem disconnect_error_never_sleeps:
  "\<exists>B' G. handleSessionClosed config0 (failing H_onPlayerDisconnect) player0 ''left'' broker1 = (Inl ''handler failed'', B')
    \<and> map_get (b_games B') ''g1'' = Some G \<and> bg_sessions G = [] \<and> bg_sleepTimer G = None"
  by (simp add: handleSessionClosed_def broker1_def player0_def Let_def map_has_def invokeGameHandler_eq failing_def
      handler_call_def sync_game_def is_resident_def put_game_def update_conv' delete_conv')

text \<open>A failing \<^verbatim>\<open>onSleep\<close> leaves the game where it was, with its sleep timer gone.\<close>

theorem sleep_error_never_sleeps:
  "\<exists>B' G. sleep_fire config0 (failing H_onSleep) (game1\<lparr>bg_sleepTimer := Some 1000, bg_sessions := []\<rparr>)
      (broker1\<lparr>b_games := [(''g1'', game1\<lparr>bg_sleepTimer := Some 1000, bg_sessions := []\<rparr>)]\<rparr>) = (Inl ''handler failed'', B')
    \<and> map_get (b_games B') ''g1'' = Some G \<and> bg_sessions G = [] \<and> bg_sleepTimer G = None"
  by (simp add: sleep_fire_def sleepGame_def clearSleepTimer_def broker1_def Let_def map_has_def invokeGameHandler_eq failing_def
      handler_call_def sync_game_def is_resident_def put_game_def update_conv')

definition event_of :: "string \<Rightarrow> HostEventRecord" where
  "event_of i = \<lparr>he_gameId = ''g1'', he_eventId = i, he_eventType = ''refund'', he_payload = JNull, he_receivedAt = 1,
     he_deliveryAttempts = 0, he_wakeOnDelivery = True, he_expiresAt = 2\<rparr>"

text \<open>
  The queue is emptied before its events are delivered: when the first fails, the second has left
  the queue and reaches no handler.
\<close>

theorem drained_events_lost:
  "\<exists>G B'. deliverQueuedHostEvents config0 ((failing H_onHostEvent)\<lparr>dp_hostEvents := \<lambda>g. [event_of ''e1'', event_of ''e2'']\<rparr>)
      (game1, broker1) = (Inl ''handler failed'', G, B')
    \<and> HostEventsDrained ''g1'' [event_of ''e1'', event_of ''e2''] \<in> set (b_out B')
    \<and> (\<forall>r call. RunnerInvoked r call \<in> set (b_out B') \<longrightarrow> js_get (ri_payload call) ''eventId'' = JStr ''e1'')"
  by (auto simp: deliverQueuedHostEvents_def Let_def deliverHostEventRecord_def invokeGameHandler_eq failing_def handler_call_def
      event_of_def broker1_def new_broker_def)

section \<open>Contexts of handlers that overlap\<close>

text \<open>
  Two handlers of a game overlap and the first ends first: for the rest of the second there is no
  context, and after both the context of the first stays, so later calls are attributed to its
  session.
\<close>

theorem dispatch_context_misattributed:
  "let (p1, G1) = dispatch_begin a G; (p2, G2) = dispatch_begin b G1; G3 = dispatch_end p1 G2; G4 = dispatch_end p2 G3
   in bg_currentDispatch G3 = bg_currentDispatch G \<and> bg_currentDispatch G4 = Some a"
  by (simp add: dispatch_begin_def dispatch_end_def)

end
