(* ===== verification/BrokerServerProps.thy ===== *)
theory BrokerServerProps
  imports BrokerServer BrokerRaces
begin

text \<open>
  What the Broker's process promises: the requests of the control plane arrive at the game they name, a
  delivery that lost its game is recognised as such by the control plane, a connection is served in one place,
  no environment gives a configuration the Broker cannot work with, and the table of games stays in order
  under every request. Two environments that do not work are shown as such.
\<close>

section \<open>Paths\<close>

lemma decode_unreserved: "uri_unreserved c \<Longrightarrow> decodeURIComponent (c # s) = map_option ((#) c) (decodeURIComponent s)"
  using uri_percent_reserved by (cases "c = CHR ''%''") auto

lemma decode_uri_char: "decodeURIComponent (uri_char c @ s) = map_option ((#) c) (decodeURIComponent s)"
proof (cases "uri_unreserved c")
  case True
  then show ?thesis by (simp add: uri_char_def decode_unreserved del: decodeURIComponent.simps)
next
  case False
  have "16 * (byte c div 16) + byte c mod 16 = byte c" by simp
  then show ?thesis using False by (simp add: uri_char_def hex_byte_upper_def)
qed

lemma decode_encode [simp]: "decodeURIComponent (encodeURIComponent s) = Some s"
  by (induction s) (simp_all add: encodeURIComponent_def decode_uri_char)

lemma encode_nonempty [simp]: "encodeURIComponent s = [] \<longleftrightarrow> s = []"
  by (cases s) (simp_all add: encodeURIComponent_def)

lemma match_segment_path:
  assumes "m \<noteq> []" and "CHR ''/'' \<notin> set m"
  shows "match_segment pre post (pre @ m @ post) = Some m"
  using assms by (simp add: match_segment_def Let_def suffix_def)

lemma match_segment_other: "\<not> suffix post path \<Longrightarrow> match_segment pre post path = None"
  by (simp add: match_segment_def)

definition reload_path :: "string \<Rightarrow> string" where
  "reload_path gameId = ''/admin/games/'' @ encodeURIComponent gameId @ ''/reload-from-storage''"

lemma suffix_rev: "suffix a b \<longleftrightarrow> prefix (rev a) (rev b)"
  by (simp add: suffix_to_prefix)

lemma handle_host_events:
  assumes "g \<noteq> []"
  shows "handleBrokerAdminRequest num C D \<lparr>aq_method = Some ''POST'', aq_url = Inr (drain_path g, q)\<rparr> B
    = admin_hostEvents C D g B"
proof -
  have "match_segment GAMES_PATH ''/host-events/drain'' (drain_path g) = Some (encodeURIComponent g)"
    unfolding drain_path_def GAMES_PATH_def by (rule match_segment_path) (simp_all add: assms)
  moreover have "drain_path g \<noteq> ''/admin/drain''" by (simp add: drain_path_def)
  ultimately show ?thesis
    by (simp add: handleBrokerAdminRequest_def Let_def default_def on_segment_def if_match_def)
qed

lemma handle_reload:
  assumes "g \<noteq> []"
  shows "handleBrokerAdminRequest num C D \<lparr>aq_method = Some ''POST'', aq_url = Inr (reload_path g, [(''reason'', why)])\<rparr> B
    = admin_reload C D why g B"
proof -
  have m: "match_segment GAMES_PATH ''/reload-from-storage'' (reload_path g) = Some (encodeURIComponent g)"
    unfolding reload_path_def GAMES_PATH_def by (rule match_segment_path) (simp_all add: assms)
  have "match_segment GAMES_PATH ''/host-events/drain'' (reload_path g) = None"
    "match_segment GAMES_PATH ''/evict'' (reload_path g) = None"
    by (rule match_segment_other, simp add: reload_path_def suffix_rev)+
  moreover have "reload_path g \<noteq> ''/admin/drain''" by (simp add: reload_path_def)
  ultimately show ?thesis
    using m by (simp add: handleBrokerAdminRequest_def Let_def default_def on_segment_def if_match_def)
qed

section \<open>Requests of the control plane\<close>



text \<open>A text at the end of a message is in the text of the answer, if no character of it is escaped.\<close>

lemma escape_plain: "list_all (\<lambda>c. escape_char c = [c]) t \<Longrightarrow> concat (map escape_char t) = t"
  by (induction t) auto

lemma quote_sublist:
  assumes "list_all (\<lambda>c. escape_char c = [c]) t"
  shows "sublist t (quote (s @ t))"
  by (auto simp: quote_def escape_plain [OF assms] sublist_def intro: exI [of _ "CHR 0x22 # concat (map escape_char s)"])

lemma sublist_middle: "sublist t m \<Longrightarrow> sublist t (a @ m @ b)"
  unfolding sublist_def by (metis append_assoc)


definition event0 :: HostEventRecord where
  "event0 = \<lparr>he_gameId = ''g1'', he_eventId = ''e1'', he_eventType = ''t'', he_payload = JNull, he_receivedAt = 0, he_deliveryAttempts = 0,
     he_wakeOnDelivery = False, he_expiresAt = 1\<rparr>"

definition deps_released :: "mem_store deps" where
  "deps_released = deps0\<lparr>dp_hostEvents := \<lambda>g. [event0], dp_invoke := \<lambda>i. Some ''game g1 was released''\<rparr>"


section \<open>Connections\<close>

lemma replay_sound:
  assumes "resolveWebSocketReplay C D q B = (Inr (Some replay), B1)"
  shows "\<exists>token claims lookup active. placement_token q = Some token \<and> verifyPlacementToken D token = Inr claims
    \<and> vc_shardId claims \<noteq> cf_shardId C \<and> dp_lookupActive D = Some lookup \<and> lookup (vc_gameId claims) = Some active
    \<and> ap_shardId active = vc_shardId claims \<and> ap_flyMachineId active = Some (wp_flyMachineId replay)
    \<and> isSafeFlyMachineId (wp_flyMachineId replay) \<and> b_games B1 = b_games B \<and> b_store B1 = b_store B"
  using assms
  by (auto simp: resolveWebSocketReplay_def brk_bind_def ensureStarted_def writeHistory_def emit_def
      split: option.splits sum.splits if_splits)

lemma no_replay_same: "resolveWebSocketReplay C D q B = (Inr None, B1) \<Longrightarrow> B1 = B \<and> b_started B"
  by (auto simp: resolveWebSocketReplay_def brk_bind_def ensureStarted_def split: option.splits sum.splits if_splits)

lemma replay_error: "resolveWebSocketReplay C D q B = (Inl e, B1) \<Longrightarrow> B1 = B \<and> \<not> b_started B"
  by (auto simp: resolveWebSocketReplay_def brk_bind_def ensureStarted_def split: option.splits sum.splits if_splits)

lemma safe_machine_no_crlf:
  "isSafeFlyMachineId m \<Longrightarrow> CHR 0x0D \<notin> set m \<and> CHR 0x0A \<notin> set m"
  by (auto simp: isSafeFlyMachineId_def list_all_iff safe_machine_char_def is_digit_def)

text \<open>
  C15: a connection is served in one place. An upgrade changes the games of this Broker only when the socket is
  upgraded here, and then the token is verified, names this shard and the game the request is routed to, and its player is
  allowed. It is handed to another machine only when the token is verified and names another shard, and the directory
  says that this other shard holds the game on that machine; then nothing of the games here changes, and the machine's
  name cannot break out of the line of the answer it is written on.
\<close>

theorem upgrade_in_one_place:
  assumes "uq_url rq = Inr (path, query)" and run: "on_upgrade C D wsPath ws rq B = (out, B')"
  shows "(b_games B' \<noteq> b_games B \<longrightarrow> out = Upgraded \<and> prefix wsPath path \<and> (\<exists>claims. admissible C D query claims))
    \<and> (\<forall>t. out = SocketEnd t \<longrightarrow> t \<noteq> unavailable_text \<longrightarrow>
        (\<exists>token claims lookup active replay. placement_token query = Some token \<and> verifyPlacementToken D token = Inr claims
          \<and> vc_shardId claims \<noteq> cf_shardId C \<and> dp_lookupActive D = Some lookup \<and> lookup (vc_gameId claims) = Some active
          \<and> ap_shardId active = vc_shardId claims \<and> ap_flyMachineId active = Some (wp_flyMachineId replay)
          \<and> t = replay_text rq replay
          \<and> CHR 0x0D \<notin> set (wp_flyMachineId replay) \<and> CHR 0x0A \<notin> set (wp_flyMachineId replay)))"
proof (cases "\<not> prefix wsPath path \<or> truthy (map_get (uq_headers rq) ''fly-replay-failed'') \<noteq> None")
  case True
  then show ?thesis using assms by (auto simp: on_upgrade_def split: if_splits)
next
  case False
  obtain x B1 where r: "resolveWebSocketReplay C D query B = (x, B1)" by fastforce
  consider (err) e where "x = Inl e" | (away) rp where "x = Inr (Some rp)" | (here) "x = Inr None"
    by (metis not_Some_eq sum.exhaust_sel)
  then show ?thesis
  proof cases
    case err
    then show ?thesis using assms False r replay_error [OF r [unfolded err]] by (auto simp: on_upgrade_def)
  next
    case away
    from replay_sound [OF r [unfolded away]] safe_machine_no_crlf show ?thesis
      using assms False r away by (auto simp: on_upgrade_def) blast+
  next
    case here
    have B1: "B1 = B" "b_started B" using no_replay_same [OF r [unfolded here]] by auto
    obtain y B2 where a: "acceptWebSocket C D ws query B = (y, B2)" by fastforce
    have out: "out = Upgraded" "b_games B' = b_games B2"
      using assms False r here a B1 by (auto simp: on_upgrade_def emit_def split: sum.splits)
    show ?thesis
    proof (cases "\<exists>claims. admissible C D query claims")
      case True
      then show ?thesis using out False by simp
    next
      case no: False
      then have "b_games B2 = b_games B" using accept_refused [OF B1(2) _ a] by blast
      then show ?thesis using out by simp
    qed
  qed
qed

definition placement0 :: ActiveGamePlacement where
  "placement0 = \<lparr>ap_gameId = ''g1'', ap_shardId = ''s1'', ap_placedAt = 0, ap_refreshedAt = 0, ap_generation = 1, ap_brokerId = None,
     ap_flyMachineId = Some ''m-1''\<rparr>"

definition deps_elsewhere :: "mem_store deps" where
  "deps_elsewhere = deps0\<lparr>dp_lookupActive := Some (\<lambda>g. Some placement0)\<rparr>"

theorem upgrade_in_one_place_witness:
  "\<exists>B' t replay. on_upgrade (config0\<lparr>cf_shardId := ''s2''\<rparr>) deps_elsewhere ''/gateway'' 9
       \<lparr>uq_url = Inr (''/gateway'', [(''token'', ''t'')]), uq_headers = []\<rparr> broker1 = (SocketEnd t, B')
     \<and> ''m-1'' = wp_flyMachineId replay \<and> t = replay_text \<lparr>uq_url = Inr (''/gateway'', [(''token'', ''t'')]), uq_headers = []\<rparr> replay"
proof -
  let ?rq = "\<lparr>uq_url = Inr (''/gateway'', [(''token'', ''t'')]), uq_headers = []\<rparr>"
  let ?rp = "\<lparr>wp_gameId = ''g1'', wp_targetShardId = ''s1'', wp_flyMachineId = ''m-1''\<rparr>"
  have "placement_token [(''token'', ''t'')] = Some ''t''" by (simp add: placement_token_def)
  moreover have "verifyPlacementToken deps_elsewhere ''t'' = Inr \<lparr>vc_gameId = ''g1'', vc_playerId = ''p1'', vc_shardId = ''s1'',
      vc_all = [(''gameId'', JStr ''g1''), (''playerId'', JStr ''p1''), (''shardId'', JStr ''s1'')]\<rparr>"
    by (simp add: verifyPlacementToken_def deps_elsewhere_def deps0_def)
  moreover have "isSafeFlyMachineId ''m-1''" by code_simp
  moreover have "dp_lookupActive deps_elsewhere = Some (\<lambda>g. Some placement0)"
    by (simp add: deps_elsewhere_def)
  ultimately have "\<exists>B'. resolveWebSocketReplay (config0\<lparr>cf_shardId := ''s2''\<rparr>) deps_elsewhere [(''token'', ''t'')] broker1 = (Inr (Some ?rp), B')"
    by (simp add: resolveWebSocketReplay_def brk_bind_def ensureStarted_def broker1_def placement0_def)
  then obtain B' where run: "on_upgrade (config0\<lparr>cf_shardId := ''s2''\<rparr>) deps_elsewhere ''/gateway'' 9 ?rq broker1 = (SocketEnd (replay_text ?rq ?rp), B')"
    by (auto simp: on_upgrade_def)
  have "replay_text ?rq ?rp \<noteq> unavailable_text" by (simp add: replay_text_def replay_headers_def unavailable_text_def http_text_def map_has_def)
  with upgrade_in_one_place [OF _ run, of "''/gateway''" "[(''token'', ''t'')]"] run show ?thesis
    by (auto simp: deps_elsewhere_def placement0_def)
qed

section \<open>The environment\<close>

lemma parsePositiveInteger_pos: "0 < d \<Longrightarrow> 0 < parsePositiveInteger v d"
  by (simp add: parsePositiveInteger_def split: option.splits)

lemma env_positive_pos [simp]: "0 < d \<Longrightarrow> 0 < env_positive env k t d"
  by (simp add: env_positive_def parsePositiveInteger_pos)

lemma parsePercent_bounds: "0 < d \<Longrightarrow> d \<le> 1 \<Longrightarrow> 0 < parsePercent v d \<and> parsePercent v d \<le> 1"
  by (simp add: parsePercent_def split: option.splits)

lemma parseBind_ok: "parseBind v = Inr (h, p) \<Longrightarrow> h \<noteq> [] \<and> 0 < p"
  by (auto simp: parseBind_def split: prod.splits option.splits if_splits)

lemma parseRuntimeContracts_ok: "parseRuntimeContracts v = Inr (lo, hi) \<Longrightarrow> 0 < lo \<and> lo \<le> hi"
  by (auto simp: parseRuntimeContracts_def Let_def split: option.splits if_splits list.splits prod.splits)

lemma dec_int_index: "dec_int (int i + 1) = dec_int (int j + 1) \<longleftrightarrow> i = j"
  by (simp add: dec_int_nonneg) arith

lemma spawn_ids_distinct: "distinct (map rs_id (map (spawn_spec env shardId) [0..<n]))"
  by (auto simp: distinct_map inj_on_def spawn_spec_def dec_int_index)

lemma setup_run:
  assumes "parseBind (default ''0.0.0.0:7700'' (map_get env ''PAX_BROKER_BIND'')) = Inr (h, p)"
    and "parseRuntimeContracts (map_get env ''PAX_RUNTIME_CONTRACTS_SUPPORTED'') = Inr (lo, hi)"
  shows "\<exists>S shardId. setup_from_env env = Inr S \<and> bt_bind S = (h, p) \<and> cf_runtimeContractsSupported (bt_config S) = (lo, hi)
    \<and> cf_publicUrl (bt_config S) = default (''http://'' @ h @ '':'' @ dec_int p) (map_get env ''PAX_SHARD_PUBLIC_URL'')
    \<and> cf_maxActiveGames (bt_config S) = env_positive env ''PAX_BROKER_MAX_ACTIVE_GAMES'' ''1000'' 1000
    \<and> cf_softWatermarkPct (bt_config S) = parsePercent (default ''0.75'' (map_get env ''PAX_BROKER_SOFT_WATERMARK_PCT'')) (3 / 4)
    \<and> cf_hardWatermarkPct (bt_config S) = parsePercent (default ''0.95'' (map_get env ''PAX_BROKER_HARD_WATERMARK_PCT'')) (19 / 20)
    \<and> cf_budgets (bt_config S) = Some (budgets_from_env env)
    \<and> bt_runners S = map (spawn_spec env shardId) [0..<nat (env_positive env ''PAX_RUNNER_PROCESS_COUNT'' ''1'' 1)]"
  unfolding setup_from_env_def assms by (auto simp: sum_bind_def Let_def)



subsection \<open>Addresses\<close>

lemma parseInt_dec_int: "0 \<le> n \<Longrightarrow> parseInt (dec_int n) = Some n"
proof -
  assume n: "0 \<le> n"
  let ?d = "dec_nat (nat n)"
  have digits: "\<forall>c \<in> set ?d. is_digit c" and ne: "?d \<noteq> []" by (simp_all add: dec_nat_digits)
  have "foldl (\<lambda>v c. 10 * v + (byte c - 48)) a ?d = foldl (\<lambda>v c. 10 * v + char_digit c) a ?d" for a
    by (simp add: char_digit_def)
  then have v: "foldl (\<lambda>v c. 10 * v + (byte c - 48)) 0 ?d = nat n" using read_dec_nat [of "nat n"] by (simp add: read_nat_def)
  have hd: "\<not> is_space (hd ?d)" "hd ?d \<noteq> CHR ''-''" "hd ?d \<noteq> CHR ''+''"
    using bspec [OF digits hd_in_set [OF ne]] by (auto simp: is_digit_def is_space_def)
  have t: "takeWhile is_digit ?d = ?d" using digits by (simp add: takeWhile_eq_all_conv)
  obtain c r where cr: "?d = c # r" using ne by (cases ?d) auto
  have "dropWhile is_space ?d = ?d" using hd(1) cr by simp
  then show ?thesis using hd t v n cr by (simp add: parseInt_def dec_int_nonneg Let_def)
qed

lemma dec_int_no_colon: "0 \<le> n \<Longrightarrow> CHR '':'' \<notin> set (dec_int n)"
  using dec_nat_digits [of "nat n"] by (auto simp: dec_int_nonneg is_digit_def)

text \<open>An address is read back: a name or an IPv4 address before the port, or an IPv6 address in brackets.\<close>

lemma bind_roundtrip:
  assumes "h \<noteq> []" and "0 < p"
  shows "CHR '':'' \<notin> set h \<Longrightarrow> hd h \<noteq> CHR ''['' \<Longrightarrow> parseBind (h @ '':'' @ dec_int p) = Inr (h, p)"
    and "CHR '']'' \<notin> set h \<Longrightarrow> parseBind (''['' @ h @ '']:'' @ dec_int p) = Inr (h, p)"
proof -
  have nc: "\<forall>c \<in> set (rev (dec_int p)). c \<noteq> CHR '':''" using dec_int_no_colon [of p] assms(2) by auto
  have tw: "takeWhile (\<lambda>c. c \<noteq> CHR '':'') (rev (dec_int p) @ CHR '':'' # x) = rev (dec_int p)" for x
    by (subst takeWhile_append2) (use nc in auto)
  {
    assume "CHR '':'' \<notin> set h" and "hd h \<noteq> CHR ''[''"
    moreover have "\<not> prefix ''['' (h @ '':'' @ dec_int p)" using assms(1) calculation(2) by (cases h) auto
    ultimately have "parseHostPort (h @ '':'' @ dec_int p) = (h, dec_int p)"
      by (simp add: parseHostPort_def Let_def tw)
    then show "parseBind (h @ '':'' @ dec_int p) = Inr (h, p)" using assms by (simp add: parseBind_def parseInt_dec_int)
  next
    assume "CHR '']'' \<notin> set h"
    then have "\<forall>c \<in> set h. c \<noteq> CHR '']''" by auto
    then have "takeWhile (\<lambda>c. c \<noteq> CHR '']'') (h @ '']:'' @ dec_int p) = h" by (subst takeWhile_append2) auto
    then have "parseHostPort (''['' @ h @ '']:'' @ dec_int p) = (h, dec_int p)"
      by (simp add: parseHostPort_def Let_def)
    then show "parseBind (''['' @ h @ '']:'' @ dec_int p) = Inr (h, p)" using assms by (simp add: parseBind_def parseInt_dec_int)
  }
qed

text \<open>
  The default public URL loses the brackets of an IPv6 address, and every upgrade resolves its request against that URL
  outside of any handler of exceptions.
\<close>

lemma ipv6_public_url:
  "map_option (cf_publicUrl \<circ> bt_config) (case setup_from_env [(''PAX_BROKER_BIND'', ''[::]:7700'')] of Inl e \<Rightarrow> None | Inr S \<Rightarrow> Some S)
    = Some (''http://:::'' @ dec_int 7700)"
proof -
  have "parseBind ''[::]:7700'' = Inr (''::'', 7700)" by code_simp
  then show ?thesis
    using setup_run [of "[(''PAX_BROKER_BIND'', ''[::]:7700'')]" "''::''" 7700 1 1] by (auto simp: default_def parseRuntimeContracts_def)
qed

lemma bad_upgrade_url_uncaught:
  "uq_url rq = Inl e \<Longrightarrow> on_upgrade C D wsPath ws rq B = (UncaughtException e, B)"
  by (simp add: on_upgrade_def)

text \<open>
  A Broker for one game with the default watermark says that it accepts no wakes, even with no game: 95 per cent of one
  game are rounded down to none.
\<close>

lemma one_game_broker_full:
  assumes "setup_from_env [(''PAX_BROKER_MAX_ACTIVE_GAMES'', ''1'')] = Inr S"
  shows "\<not> cr_acceptingWakes (snapshotCapacity (bt_config S) D B)"
proof -
  have b: "parseBind ''0.0.0.0:7700'' = Inr (''0.0.0.0'', 7700)" by code_simp
  have p: "parsePercent ''0.95'' (19 / 20) = 19 / 20" by code_simp
  have m: "parsePositiveInteger ''1'' 1000 = 1" by code_simp
  have "cf_maxActiveGames (bt_config S) = 1" "cf_hardWatermarkPct (bt_config S) = 19 / 20"
    using assms setup_run [of "[(''PAX_BROKER_MAX_ACTIVE_GAMES'', ''1'')]" "''0.0.0.0''" 7700 1 1]
    by (auto simp: default_def parseRuntimeContracts_def b p m env_positive_def)
  moreover have "\<lfloor>rat_of_int 1 * (19 / 20)\<rfloor> = 0" by (simp add: floor_eq_iff)
  ultimately show ?thesis by (simp only: snapshotCapacity_def Let_def) simp
qed

section \<open>The table of games under requests\<close>

lemma snapshot_prunes_fields [simp]: "bg_gameId (snapshot_prunes t G) = bg_gameId G" "bg_ref (snapshot_prunes t G) = bg_ref G"
  by (simp_all add: snapshot_prunes_def)

lemma metrics_table: "table_ok C B \<Longrightarrow> table_ok C (snd (broker_metricsText num C D B))"
  by (auto simp: broker_metricsText_def Let_def table_ok_def split_def comp_def)

lemma if_match_table:
  "table_ok C (snd y) \<Longrightarrow> (\<And>g. table_ok C (snd (f g))) \<Longrightarrow> table_ok C (snd (if_match b m f y))"
  by (simp add: if_match_def split: option.splits)

lemma on_segment_table:
  "table_ok C B \<Longrightarrow> (\<And>x. table_ok C (snd (f x B))) \<Longrightarrow> table_ok C (snd (on_segment f g B))"
  by (simp add: on_segment_def split: option.splits)

lemma admin_table:
  assumes "table_ok C B"
  shows "table_ok C (snd (admin_hostEvents C D g B))" "table_ok C (snd (admin_evict C D g B))" "table_ok C (snd (admin_reload C D why g B))"
    "table_ok C (snd (admin_fenceWinner C D m g B))" "table_ok C (snd (admin_crash D g B))"
    "table_ok C (snd (brk_bind (resumeWakes C D why) (\<lambda>_ B1. (Inr (f B1), B1)) B))"
proof -
  note ev = table_ok_evolves [OF assms]
  show "table_ok C (snd (admin_hostEvents C D g B))"
    by (auto simp: admin_hostEvents_def brk_bind_def split: prod.splits sum.splits dest: hostEvents_table [OF assms])
  show "table_ok C (snd (admin_evict C D g B))"
    by (auto simp: admin_evict_def brk_bind_def split: prod.splits sum.splits dest: evictGame_evolves [THEN ev])
  show "table_ok C (snd (admin_reload C D why g B))"
    by (auto simp: admin_reload_def split: prod.splits dest: reload_table [OF assms])
  show "table_ok C (snd (admin_fenceWinner C D m g B))"
    by (auto simp: admin_fenceWinner_def brk_bind_def split: prod.splits sum.splits dest: fence_winner_evolves [THEN ev])
  show "table_ok C (snd (admin_crash D g B))"
    using assms by (auto simp: admin_crash_def BrokerDispatch.crashRunnerForTest_def brk_bind_def ensureStarted_def split: prod.splits sum.splits if_splits)
  show "table_ok C (snd (brk_bind (resumeWakes C D why) (\<lambda>_ B1. (Inr (f B1), B1)) B))"
    using switches_table(3) [OF assms, of D why] by (auto simp: brk_bind_def split: prod.splits sum.splits)
qed

lemma handle_table:
  assumes "table_ok C B"
  shows "table_ok C (snd (handleBrokerAdminRequest num C D rq B))"
proof -
  note facts = assms switches_table(2) [OF assms] admin_table [OF assms] on_segment_table [OF assms] metrics_table [OF assms]
  show ?thesis
    unfolding handleBrokerAdminRequest_def Let_def
    by (auto simp: facts case_prod_beta intro!: if_match_table split: sum.split)
qed

text \<open>
  Whatever request arrives at the admin server or as an upgrade, and whatever it meets, the table of games stays in order.
\<close>

lemma requests_keep_table:
  assumes "table_ok C B"
  shows "table_ok C (snd (createBrokerAdminServer num C D rq B)) \<and> table_ok C (snd (on_upgrade C D wsPath ws up B))"
proof
  show "table_ok C (snd (createBrokerAdminServer num C D rq B))"
    using handle_table [OF assms, of num D rq] by (auto simp: createBrokerAdminServer_def split: prod.splits sum.splits)
next
  have emit: "table_ok C (emit e B1) = table_ok C B1" for e B1 by (simp add: table_ok_def emit_def)
  have "table_ok C B1" if "resolveWebSocketReplay C D q B = (x, B1)" for q x B1
    using that table_ok_evolves [OF assms] replay_evolves by blast
  then show "table_ok C (snd (on_upgrade C D wsPath ws up B))"
    using assms by (auto simp: on_upgrade_def emit split: sum.splits prod.splits option.splits dest: acceptWebSocket_table [rotated])
qed

section \<open>Crashes\<close>

lemma index_of_nth: "index_of p xs = Some k \<Longrightarrow> k < length xs \<and> p (xs ! k)"
proof (induction xs arbitrary: k)
  case (Cons x xs)
  then show ?case by (cases "p x") (auto dest!: Cons.IH)
qed simp

lemma index_of_None: "index_of p xs = None \<longleftrightarrow> (\<forall>x \<in> set xs. \<not> p x)"
  by (induction xs) auto

text \<open>
  A crash is handled whole: the replacement, which has the id of the runner that crashed, takes its place in the pool, no game stays
  assigned to the crashed object, and only then does the Broker restart its games.
\<close>

lemma crash_replaces_runner:
  assumes "\<forall>n \<in> set (pl_runners P). n < length (pl_objects P)"
    and "\<exists>n \<in> set (pl_runners P). ro_id R (pl_objects P ! n) = ce_runnerId event" and id: "ro_id R replacement = ce_runnerId event"
    and run: "on_crash C D R replacement event (P, Some B) = (x, P1, b1)"
  shows "map (\<lambda>n. ro_id R (pl_objects P1 ! n)) (pl_runners P1) = map (\<lambda>n. ro_id R (pl_objects P ! n)) (pl_runners P)
    \<and> (\<forall>(g, n) \<in> set (pl_assignments P1). (g, n) \<in> set (pl_assignments P) \<and> ro_id R (pl_objects P ! n) \<noteq> ce_runnerId event)
    \<and> (x, b1) = (case handleRunnerCrash C D event B of (y, B1) \<Rightarrow> (y, Some B1))"
proof -
  let ?p = "\<lambda>n. ro_id R (pl_objects P ! n) = ce_runnerId event"
  obtain k where k: "index_of ?p (pl_runners P) = Some k" using assms(2) index_of_None [of ?p] by fastforce
  have P1: "P1 = P\<lparr>pl_objects := pl_objects P @ [replacement], pl_runners := (pl_runners P)[k := length (pl_objects P)],
      pl_assignments := filter (\<lambda>(g, n). ro_id R (pl_objects P ! n) \<noteq> ce_runnerId event) (pl_assignments P)\<rparr>"
    and b: "(x, b1) = (case handleRunnerCrash C D event B of (y, B1) \<Rightarrow> (y, Some B1))"
    using run by (auto simp: on_crash_def replaceRunner_def k split: prod.splits)
  have "map (\<lambda>n. ro_id R (pl_objects P1 ! n)) (pl_runners P1) = map (\<lambda>n. ro_id R (pl_objects P ! n)) (pl_runners P)"
    using assms(1) id index_of_nth [OF k] by (auto simp: P1 nth_append list_eq_iff_nth_eq nth_list_update)
  then show ?thesis using b by (auto simp: P1)
qed

end
