(* ===== verification/S3Store.thy ===== *)
theory S3Store
  imports ObjectStore "HOL-Library.Monad_Syntax"
begin

text \<open>
  The two object stores that survive a restart (\<^verbatim>\<open>runtime/state-store/src/adapters.mts\<close>): \<^verbatim>\<open>S3StateObjectStore\<close> over a client
  of an S3 service, and \<^verbatim>\<open>LocalStateObjectStore\<close> over a directory.

  The client is third-party code, a parameter: \<open>s3_client\<close> holds its four commands on a bucket. The locale \<open>s3_service\<close> states what S3
  documents of them, and \<open>s3_strict\<close> adds that a condition on a missing object fails like a condition on a changed one; under
  both the adapter is an \<open>object_store\<close>, on which the flush relies. S3 itself documents the status 404 for the missing object, and
  the lemmas at the end show what the adapter makes of that. A listing asks for pages until there is no token; it is proved to end.
\<close>

section \<open>The client\<close>

datatype s3_body =
    TransformToByteArray bytes
  | ByteArray bytes
  | BodyText string
  | BodyChunks "(string + bytes) list"
  | OtherBody

record s3_object =
  so_Body :: "s3_body option"
  so_ETag :: "string option"

record s3_put_result =
  sp_ETag :: "string option"
  sp_VersionId :: "string option"

record s3_entry =
  sn_Key :: "string option"
  sn_Size :: "int option"
  sn_LastModified :: "int option"

record s3_page =
  pg_Contents :: "s3_entry list option"
  pg_NextContinuationToken :: "string option"

text \<open>The commands on one bucket; \<open>Inl\<close> is the exception's value.\<close>

record 'c s3_client =
  s3_get :: "'c \<Rightarrow> string \<Rightarrow> js + s3_object"
  s3_put :: "'c \<Rightarrow> string \<Rightarrow> bytes \<Rightarrow> string option \<Rightarrow> js + 'c \<times> s3_put_result"
  s3_delete :: "'c \<Rightarrow> string \<Rightarrow> js + 'c"
  s3_list :: "'c \<Rightarrow> string \<Rightarrow> string option \<Rightarrow> js + s3_page"

section \<open>The S3 adapter\<close>

fun responseBodyToBytes :: "s3_body \<Rightarrow> string + bytes" where
  "responseBodyToBytes (TransformToByteArray b) = Inr b"
| "responseBodyToBytes (ByteArray b) = Inr b"
| "responseBodyToBytes (BodyText t) = Inr t"
| "responseBodyToBytes (BodyChunks cs) = Inr (concat (map (case_sum id id) cs))"
| "responseBodyToBytes OtherBody = Inl ''Tigris object body is not readable''"

definition trim_slashes :: "string \<Rightarrow> string" where
  "trim_slashes s = rev (dropWhile (\<lambda>c. c = CHR ''/'') (rev (dropWhile (\<lambda>c. c = CHR ''/'') s)))"

definition s3_prefix :: "string option \<Rightarrow> string" where
  "s3_prefix p = (case p of None \<Rightarrow> [] | Some s \<Rightarrow> trim_slashes s)"

text \<open>\<open>text\<close> gives the message of an exception that is passed on.\<close>

definition s3_os_get ::
  "host \<Rightarrow> (js \<Rightarrow> string) \<Rightarrow> 'c s3_client \<Rightarrow> string \<Rightarrow> 'c \<Rightarrow> string \<Rightarrow> store_error + (bytes \<times> string) option" where
  "s3_os_get H msg K pre c key =
     (case s3_get K c (keyFor pre key) of
        Inl err \<Rightarrow> if isObjectNotFound err then Inr None else Inl (StoreFailure (msg err))
      | Inr result \<Rightarrow>
         (case so_Body result of
            None \<Rightarrow> Inr (Some ([], case so_ETag result of None \<Rightarrow> [] | Some v \<Rightarrow> v))
          | Some body \<Rightarrow>
             (case responseBodyToBytes body of
                Inl m \<Rightarrow> Inl (StoreFailure m)
              | Inr b \<Rightarrow> Inr (Some (b, case so_ETag result of None \<Rightarrow> etag H b | Some v \<Rightarrow> v)))))"

definition s3_os_put ::
  "host \<Rightarrow> (js \<Rightarrow> string) \<Rightarrow> 'c s3_client \<Rightarrow> string \<Rightarrow> 'c \<Rightarrow> string \<Rightarrow> bytes \<Rightarrow> string option \<Rightarrow> store_error + 'c \<times> string" where
  "s3_os_put H msg K pre c key b ifCurrent =
     (case s3_put K c (keyFor pre key) b ifCurrent of
        Inl err \<Rightarrow> Inl (if isConditionalConflict err then ConditionalPutConflict key else StoreFailure (msg err))
      | Inr (c', result) \<Rightarrow>
         Inr (c', case sp_ETag result of Some v \<Rightarrow> v
                  | None \<Rightarrow> (case sp_VersionId result of Some v \<Rightarrow> v | None \<Rightarrow> etag H b)))"

definition s3_os_delete :: "(js \<Rightarrow> string) \<Rightarrow> 'c s3_client \<Rightarrow> string \<Rightarrow> 'c \<Rightarrow> string \<Rightarrow> store_error + 'c" where
  "s3_os_delete msg K pre c key =
     (case s3_delete K c (keyFor pre key) of Inl err \<Rightarrow> Inl (StoreFailure (msg err)) | Inr c' \<Rightarrow> Inr c')"

definition page_entries :: "string \<Rightarrow> s3_page \<Rightarrow> list_entry list" where
  "page_entries pre pg =
     List.map_filter (\<lambda>o1. case sn_Key o1 of
          None \<Rightarrow> None
        | Some k \<Rightarrow> if k = [] then None
            else Some \<lparr>le_key = unkey pre k, le_size = sn_Size o1, le_updatedAt = sn_LastModified o1\<rparr>)
       (case pg_Contents pg of None \<Rightarrow> [] | Some cs \<Rightarrow> cs)"

text \<open>The loop over the pages; \<open>None\<close>: it does not end.\<close>

partial_function (option) s3_pages ::
  "(js \<Rightarrow> string) \<Rightarrow> 'c s3_client \<Rightarrow> string \<Rightarrow> 'c \<Rightarrow> string \<Rightarrow> string option \<Rightarrow> list_entry list \<Rightarrow> (store_error + list_entry list) option" where
  "s3_pages msg K pre c p token acc =
     (case s3_list K c (keyFor pre p) token of
        Inl err \<Rightarrow> Some (Inl (StoreFailure (msg err)))
      | Inr pg \<Rightarrow>
         let acc' = acc @ page_entries pre pg in
         (case pg_NextContinuationToken pg of
            None \<Rightarrow> Some (Inr acc')
          | Some t \<Rightarrow> if t = [] then Some (Inr acc') else s3_pages msg K pre c p (Some t) acc'))"

definition s3_os_list ::
  "host \<Rightarrow> (js \<Rightarrow> string) \<Rightarrow> 'c s3_client \<Rightarrow> string \<Rightarrow> 'c \<Rightarrow> string \<Rightarrow> (store_error + list_entry list) option" where
  "s3_os_list H msg K pre c p =
     map_option (\<lambda>r. case r of Inl e \<Rightarrow> Inl e | Inr es \<Rightarrow> Inr (sort_by (\<lambda>l r. host_localeLe H (le_key l) (le_key r)) es))
       (s3_pages msg K pre c p None [])"

text \<open>The store; a listing that does not end is given as a failure of that name.\<close>

definition S3StateObjectStore :: "host \<Rightarrow> (js \<Rightarrow> string) \<Rightarrow> 'c s3_client \<Rightarrow> string \<Rightarrow> 'c StateObjectStore" where
  "S3StateObjectStore H msg K pre =
     \<lparr>os_get = s3_os_get H msg K pre, os_put = s3_os_put H msg K pre, os_delete = s3_os_delete msg K pre,
      os_list = Some (\<lambda>c p. case s3_os_list H msg K pre c p of None \<Rightarrow> Inl (StoreFailure ''never returns'') | Some r \<Rightarrow> r)\<rparr>"

section \<open>What S3 documents\<close>

text \<open>The answers to the requests for the pages of a listing, each with the token of the one before.\<close>

fun page_chain :: "'c s3_client \<Rightarrow> 'c \<Rightarrow> string \<Rightarrow> string option \<Rightarrow> s3_page list \<Rightarrow> bool" where
  "page_chain K c p token [] = False"
| "page_chain K c p token [pg] = (s3_list K c p token = Inr pg \<and> pg_NextContinuationToken pg = None)"
| "page_chain K c p token (pg # pg' # pgs) =
     (s3_list K c p token = Inr pg
      \<and> (\<exists>t. t \<noteq> [] \<and> pg_NextContinuationToken pg = Some t \<and> page_chain K c p (Some t) (pg' # pgs)))"

definition page_keys :: "s3_page \<Rightarrow> string list" where
  "page_keys pg = List.map_filter sn_Key (case pg_Contents pg of None \<Rightarrow> [] | Some cs \<Rightarrow> cs)"

locale s3_service =
  fixes K :: "'c s3_client" and contents :: "'c \<Rightarrow> string \<Rightarrow> bytes option" and etag_of :: "bytes \<Rightarrow> string"
  assumes get_hit: "contents c k = Some b \<Longrightarrow>
      \<exists>body. s3_get K c k = Inr \<lparr>so_Body = Some body, so_ETag = Some (etag_of b)\<rparr> \<and> responseBodyToBytes body = Inr b"
    and get_miss: "contents c k = None \<Longrightarrow> \<exists>err. s3_get K c k = Inl err \<and> isObjectNotFound err"
    and put_match: "ifMatch = None \<or> map_option etag_of (contents c k) = ifMatch \<Longrightarrow>
      \<exists>c' r. s3_put K c k b ifMatch = Inr (c', r) \<and> sp_ETag r = Some (etag_of b) \<and> contents c' = (contents c)(k \<mapsto> b)"
    and put_changed: "ifMatch \<noteq> None \<Longrightarrow> contents c k = Some b0 \<Longrightarrow> Some (etag_of b0) \<noteq> ifMatch \<Longrightarrow>
      \<exists>err. s3_put K c k b ifMatch = Inl err \<and> isConditionalConflict err"
    and delete: "\<exists>c'. s3_delete K c k = Inr c' \<and> contents c' = (contents c)(k := None)"
    and pages: "\<exists>pgs. page_chain K c p None pgs \<and> distinct (concat (map page_keys pgs))
      \<and> set (concat (map page_keys pgs)) = {k. prefix p k \<and> contents c k \<noteq> None}"
begin

lemma adapter_get: "s3_os_get H msg K pre c k = Inr (map_option (\<lambda>b. (b, etag_of b)) (contents c (keyFor pre k)))"
proof (cases "contents c (keyFor pre k)")
  case None
  then show ?thesis using get_miss [of c "keyFor pre k"] by (auto simp: s3_os_get_def)
next
  case (Some b)
  then show ?thesis using get_hit [OF Some] by (auto simp: s3_os_get_def)
qed

lemma adapter_put:
  assumes "ifCurrent = None \<or> map_option etag_of (contents c (keyFor pre k)) = ifCurrent"
  obtains c' where "s3_os_put H msg K pre c k b ifCurrent = Inr (c', etag_of b)" "contents c' = (contents c)(keyFor pre k \<mapsto> b)"
  using put_match [OF assms, of b] that by (auto simp: s3_os_put_def)

lemma adapter_put_changed:
  assumes "ifCurrent \<noteq> None" and "contents c (keyFor pre k) = Some b0" and "Some (etag_of b0) \<noteq> ifCurrent"
  shows "s3_os_put H msg K pre c k b ifCurrent = Inl (ConditionalPutConflict k)"
  using put_changed [OF assms, of b] by (auto simp: s3_os_put_def)

lemma adapter_delete:
  obtains c' where "s3_os_delete msg K pre c k = Inr c'" "contents c' = (contents c)(keyFor pre k := None)"
  using delete [of c "keyFor pre k"] that by (auto simp: s3_os_delete_def)

text \<open>The loop follows a chain of pages to its end.\<close>

lemma pages_follow:
  "page_chain K c (keyFor pre p) token pgs \<Longrightarrow>
     s3_pages msg K pre c p token acc = Some (Inr (acc @ concat (map (page_entries pre) pgs)))"
proof (induction K c "keyFor pre p" token pgs arbitrary: acc rule: page_chain.induct)
  case (3 K c token pg pg' pgs)
  then show ?case by (subst s3_pages.simps) auto
qed (auto simp: s3_pages.simps)

lemma page_entries_keys: "[] \<notin> set (page_keys pg) \<Longrightarrow> map le_key (page_entries pre pg) = map (unkey pre) (page_keys pg)"
proof -
  have "map le_key (List.map_filter (\<lambda>o1. case sn_Key o1 of None \<Rightarrow> None
        | Some k \<Rightarrow> if k = [] then None else Some \<lparr>le_key = unkey pre k, le_size = sn_Size o1, le_updatedAt = sn_LastModified o1\<rparr>) cs)
      = map (unkey pre) (List.map_filter sn_Key cs)" if "[] \<notin> set (List.map_filter sn_Key cs)" for cs
    using that by (induction cs) (auto simp: List.map_filter_simps split: option.splits)
  then show "[] \<notin> set (page_keys pg) \<Longrightarrow> ?thesis" by (simp add: page_entries_def page_keys_def split: option.splits)
qed

lemma keyFor_inject: "keyFor pre k = keyFor pre k' \<longleftrightarrow> k = k'"
  by (simp add: keyFor_def)

lemma adapter_list:
  assumes "pre \<noteq> []"
  shows "\<exists>es. s3_os_list H msg K pre c p = Some (Inr es) \<and> distinct (map le_key es)
     \<and> le_key ` set es = {k. prefix p k \<and> contents c (keyFor pre k) \<noteq> None}"
proof -
  obtain pgs where ch: "page_chain K c (keyFor pre p) None pgs" and d: "distinct (concat (map page_keys pgs))"
    and s: "set (concat (map page_keys pgs)) = {k. prefix (keyFor pre p) k \<and> contents c k \<noteq> None}"
    using pages by blast
  let ?es = "concat (map (page_entries pre) pgs)" and ?ks = "concat (map page_keys pgs)"
  have ne: "[] \<notin> set ?ks" using s assms by (auto simp: keyFor_def)
  have keys: "map le_key ?es = map (unkey pre) ?ks"
    using ne by (induction pgs) (auto simp: page_entries_keys)
  have under: "\<exists>k'. k = keyFor pre k' \<and> prefix p k' \<and> contents c k \<noteq> None" if "k \<in> set ?ks" for k
  proof -
    have "prefix (keyFor pre p) k" "contents c k \<noteq> None" using that s by blast+
    then show ?thesis using assms by (auto simp: keyFor_def prefix_def)
  qed
  have "inj_on (unkey pre) (set ?ks)"
    by (rule inj_onI) (metis under unkey_keyFor)
  then have dist: "distinct (map le_key ?es)" unfolding keys using d by (simp add: distinct_map)
  have "le_key ` set ?es = unkey pre ` set ?ks" using keys by (metis list.set_map)
  also have "\<dots> = {k. prefix p k \<and> contents c (keyFor pre k) \<noteq> None}"
  proof (intro equalityI subsetI)
    fix k assume "k \<in> unkey pre ` set ?ks"
    then show "k \<in> {k. prefix p k \<and> contents c (keyFor pre k) \<noteq> None}" using under unkey_keyFor by fastforce
  next
    fix k assume "k \<in> {k. prefix p k \<and> contents c (keyFor pre k) \<noteq> None}"
    then have "keyFor pre k \<in> set ?ks" unfolding s by (auto simp: keyFor_def)
    then show "k \<in> unkey pre ` set ?ks" using unkey_keyFor by (metis imageI)
  qed
  finally show ?thesis
    using dist pages_follow [OF ch, of msg "[]"] by (auto simp: s3_os_list_def intro!: distinct_map_sort_by)
qed

end

text \<open>A service for which a condition on a missing object fails like one on a changed object.\<close>

locale s3_strict = s3_service +
  assumes put_missing: "contents c k = None \<Longrightarrow> ifMatch \<noteq> None \<Longrightarrow> \<exists>err. s3_put K c k b ifMatch = Inl err \<and> isConditionalConflict err"
begin

lemma adapter_store:
  "object_store (S3StateObjectStore H msg K pre) (\<lambda>c k. map_option (\<lambda>b. (b, etag_of b)) (contents c (keyFor pre k))) etag_of"
proof unfold_locales
  fix c k b ifCurrent
  let ?look = "\<lambda>c k. map_option (\<lambda>b. (b, etag_of b)) (contents c (keyFor pre k))"
  note defs = S3StateObjectStore_def option.map_comp comp_def
  show "os_get (S3StateObjectStore H msg K pre) c k = Inr (?look c k)" by (simp add: defs adapter_get)
  show "\<exists>c'. os_put (S3StateObjectStore H msg K pre) c k b ifCurrent = Inr (c', etag_of b) \<and> ?look c' = (?look c)(k \<mapsto> (b, etag_of b))"
    if "ifCurrent = None \<or> map_option snd (?look c k) = ifCurrent"
  proof -
    have "ifCurrent = None \<or> map_option etag_of (contents c (keyFor pre k)) = ifCurrent" using that by (simp add: defs)
    from adapter_put [OF this, of H msg b]
    obtain c' where "s3_os_put H msg K pre c k b ifCurrent = Inr (c', etag_of b)" "contents c' = (contents c)(keyFor pre k \<mapsto> b)" .
    then show ?thesis by (auto simp: defs fun_eq_iff keyFor_inject)
  qed
  show "os_put (S3StateObjectStore H msg K pre) c k b ifCurrent = Inl (ConditionalPutConflict k)"
    if "ifCurrent \<noteq> None" and "map_option snd (?look c k) \<noteq> ifCurrent"
  proof (cases "contents c (keyFor pre k)")
    case None
    then show ?thesis using put_missing [OF None that(1), of b] by (auto simp: defs s3_os_put_def)
  next
    case (Some b0)
    then show ?thesis using adapter_put_changed [OF that(1) Some] that(2) by (simp add: defs)
  qed
  from adapter_delete [of msg pre c k] obtain c' where "s3_os_delete msg K pre c k = Inr c'" "contents c' = (contents c)(keyFor pre k := None)" .
  then show "\<exists>c'. os_delete (S3StateObjectStore H msg K pre) c k = Inr c' \<and> ?look c' = (?look c)(k := None)"
    by (auto simp: defs fun_eq_iff keyFor_inject)
qed

end

sublocale s3_strict \<subseteq> store: object_store "S3StateObjectStore H msg K pre"
    "\<lambda>c k. map_option (\<lambda>b. (b, etag_of b)) (contents c (keyFor pre k))" etag_of for H msg pre
  by (rule adapter_store)

section \<open>A bucket\<close>

text \<open>
  A bucket that keeps the laws: objects by key, the entity tag is the quoted digest, a page holds \<open>n + 1\<close> keys and a
  token is an offset. \<open>strict\<close> says how a condition on a missing object fails: with 412, or with the 404 that S3 documents.
\<close>

definition s3_error :: "string \<Rightarrow> int \<Rightarrow> js" where
  "s3_error name status = JObj [(''name'', JStr name), (''$metadata'', JObj [(''httpStatusCode'', JNum status)])]"

definition bucket_tag :: "bytes \<Rightarrow> string" where
  "bucket_tag b = [CHR 0x22] @ concat (map hex_byte b) @ [CHR 0x22]"

definition bucket_keys :: "bytes js_map \<Rightarrow> string \<Rightarrow> string list" where
  "bucket_keys c p = remdups (filter (prefix p) (map fst c))"

definition bucket_page :: "nat \<Rightarrow> bytes js_map \<Rightarrow> string \<Rightarrow> nat \<Rightarrow> s3_page" where
  "bucket_page n c p i =
     \<lparr>pg_Contents = Some (map (\<lambda>k. \<lparr>sn_Key = Some k, sn_Size = map_option (int \<circ> length) (map_get c k), sn_LastModified = None\<rparr>)
        (take (Suc n) (drop i (bucket_keys c p)))),
      pg_NextContinuationToken = (if i + Suc n < length (bucket_keys c p) then Some (dec_nat (i + Suc n)) else None)\<rparr>"

definition bucket_client :: "bool \<Rightarrow> nat \<Rightarrow> bytes js_map s3_client" where
  "bucket_client strict n =
     \<lparr>s3_get = (\<lambda>c k. case map_get c k of
          None \<Rightarrow> Inl (s3_error ''NoSuchKey'' 404)
        | Some b \<Rightarrow> Inr \<lparr>so_Body = Some (ByteArray b), so_ETag = Some (bucket_tag b)\<rparr>),
      s3_put = (\<lambda>c k b ifMatch.
          if ifMatch = None \<or> map_option bucket_tag (map_get c k) = ifMatch
          then Inr (map_set k b c, \<lparr>sp_ETag = Some (bucket_tag b), sp_VersionId = None\<rparr>)
          else if map_has c k \<or> strict then Inl (s3_error ''PreconditionFailed'' 412) else Inl (s3_error ''NoSuchKey'' 404)),
      s3_delete = (\<lambda>c k. Inr (map_delete k c)),
      s3_list = (\<lambda>c p token. Inr (bucket_page n c p (case token of None \<Rightarrow> 0 | Some t \<Rightarrow> read_nat t)))\<rparr>"

lemma s3_error_simps [simp]:
  "isObjectNotFound (s3_error ''NoSuchKey'' 404)" "\<not> isConditionalConflict (s3_error ''NoSuchKey'' 404)"
  "isConditionalConflict (s3_error ''PreconditionFailed'' 412)"
  by (simp_all add: isObjectNotFound_def isConditionalConflict_def err_status_def s3_error_def)

lemma page_keys_bucket: "page_keys (bucket_page n c p i) = take (Suc n) (drop i (bucket_keys c p))"
  by (simp add: page_keys_def bucket_page_def List.map_filter_def comp_def)

lemma bucket_chain:
  "\<exists>pgs. page_chain (bucket_client strict n) c p (if i = 0 then None else Some (dec_nat i)) pgs
     \<and> concat (map page_keys pgs) = drop i (bucket_keys c p)"
proof (induction "length (bucket_keys c p) - i" arbitrary: i rule: less_induct)
  case less
  let ?tok = "if i = 0 then None else Some (dec_nat i)"
  have page: "s3_list (bucket_client strict n) c p ?tok = Inr (bucket_page n c p i)" by (simp add: bucket_client_def)
  show ?case
  proof (cases "i + Suc n < length (bucket_keys c p)")
    case False
    then have "pg_NextContinuationToken (bucket_page n c p i) = None" by (simp add: bucket_page_def)
    then show ?thesis
      using page False by (intro exI [of _ "[bucket_page n c p i]"]) (simp add: page_keys_bucket)
  next
    case True
    then have "length (bucket_keys c p) - (i + Suc n) < length (bucket_keys c p) - i" by simp
    from less [OF this] obtain pgs where pgs: "page_chain (bucket_client strict n) c p (Some (dec_nat (i + Suc n))) pgs"
      "concat (map page_keys pgs) = drop (i + Suc n) (bucket_keys c p)" by auto
    have next1: "pg_NextContinuationToken (bucket_page n c p i) = Some (dec_nat (i + Suc n))" using True by (simp add: bucket_page_def)
    obtain pg' pgs' where ne: "pgs = pg' # pgs'" using pgs(1) by (cases pgs) auto
    have "page_chain (bucket_client strict n) c p ?tok (bucket_page n c p i # pgs)"
      using page next1 pgs(1) unfolding ne by simp
    moreover have "concat (map page_keys (bucket_page n c p i # pgs)) = drop i (bucket_keys c p)"
      using pgs(2) by (simp add: page_keys_bucket) (metis append_take_drop_id add.commute drop_drop add_Suc_right)
    ultimately show ?thesis by blast
  qed
qed

lemma bucket_service: "s3_service (bucket_client strict n) map_get bucket_tag"
proof unfold_locales
  fix c k b b0 ifMatch p
  note defs = bucket_client_def
  show "\<exists>body. s3_get (bucket_client strict n) c k = Inr \<lparr>so_Body = Some body, so_ETag = Some (bucket_tag b)\<rparr> \<and> responseBodyToBytes body = Inr b"
    if "map_get c k = Some b" using that by (auto simp: defs)
  show "\<exists>err. s3_get (bucket_client strict n) c k = Inl err \<and> isObjectNotFound err" if "map_get c k = None" using that by (simp add: defs)
  show "\<exists>c' r. s3_put (bucket_client strict n) c k b ifMatch = Inr (c', r) \<and> sp_ETag r = Some (bucket_tag b) \<and> map_get c' = (map_get c)(k \<mapsto> b)"
    if "ifMatch = None \<or> map_option bucket_tag (map_get c k) = ifMatch"
    using that by (auto simp: defs update_conv' fun_eq_iff)
  show "\<exists>err. s3_put (bucket_client strict n) c k b ifMatch = Inl err \<and> isConditionalConflict err"
    if "ifMatch \<noteq> None" "map_get c k = Some b0" "Some (bucket_tag b0) \<noteq> ifMatch"
    using that by (auto simp: defs map_has_def)
  show "\<exists>c'. s3_delete (bucket_client strict n) c k = Inr c' \<and> map_get c' = (map_get c)(k := None)"
    by (simp add: defs delete_conv' fun_eq_iff)
  have keys: "set (bucket_keys c p) = {k. prefix p k \<and> map_get c k \<noteq> None}"
    by (auto simp: bucket_keys_def map_of_eq_None_iff)
  obtain pgs where "page_chain (bucket_client strict n) c p None pgs" "concat (map page_keys pgs) = bucket_keys c p"
    using bucket_chain [of strict n c p 0] by auto
  moreover have "distinct (bucket_keys c p)" by (simp add: bucket_keys_def)
  ultimately show "\<exists>pgs. page_chain (bucket_client strict n) c p None pgs \<and> distinct (concat (map page_keys pgs))
      \<and> set (concat (map page_keys pgs)) = {k. prefix p k \<and> map_get c k \<noteq> None}"
    using keys by metis
qed

interpretation bucket: s3_strict "bucket_client True n" map_get bucket_tag for n
  by (intro s3_strict.intro bucket_service s3_strict_axioms.intro) (auto simp: bucket_client_def)

section \<open>Properties\<close>

text \<open>
  C9: a listing over an S3 service ends and is complete: however many pages the service splits it into, the loop over the
  tokens returns, and what it returns are exactly the stored keys of this store under the prefix, without the store's own prefix,
  each once, with none of another prefix of the bucket.
\<close>

theorem s3_listing_complete:
  assumes "s3_service K contents etag_of" and "pre \<noteq> []"
  shows "\<exists>es. s3_os_list H msg K pre c p = Some (Inr es) \<and> distinct (map le_key es)
    \<and> le_key ` set es = {k. prefix p k \<and> contents c (keyFor pre k) \<noteq> None}"
  by (rule s3_service.adapter_list [OF assms])

theorem s3_listing_complete_witness:
  "\<exists>es. s3_os_list plain_host (\<lambda>e. []) (bucket_client False 0) ''st''
      [(''st/a/1'', ''x''), (''other/a'', ''y''), (''st/a/2'', ''z''), (''st/b'', ''w'')] ''a/'' = Some (Inr es)
    \<and> le_key ` set es = {''a/1'', ''a/2''}"
proof -
  let ?c = "[(''st/a/1'', ''x''), (''other/a'', ''y''), (''st/a/2'', ''z''), (''st/b'', ''w'')]"
  have "{k. prefix ''a/'' k \<and> map_get ?c (keyFor ''st'' k) \<noteq> None} = {''a/1'', ''a/2''}"
    by (auto simp: keyFor_def split: if_splits)
  then show ?thesis
    using s3_listing_complete [OF bucket_service, of "''st''" plain_host "\<lambda>e. []" False 0 ?c "''a/''"] by auto
qed

text \<open>
  A condition on an object that is gone. S3 answers with 404, which the adapter passes on as a failure; the in-memory store answers
  with the conflict by which a session learns that it has been fenced off.
\<close>

lemma condition_on_missing:
  "os_put (S3StateObjectStore H msg (bucket_client False n) pre) [] k b (Some v) = Inl (StoreFailure (msg (s3_error ''NoSuchKey'' 404)))"
  "os_put (S3StateObjectStore H msg (bucket_client True n) pre) [] k b (Some v) = Inl (ConditionalPutConflict k)"
  "os_put (MemoryStateObjectStore H) mem_empty k b (Some v) = Inl (ConditionalPutConflict k)"
  by (simp_all add: S3StateObjectStore_def s3_os_put_def bucket_client_def map_has_def mem_defs mem_empty_def)

end
