(* ===== verification/LocalStore.thy ===== *)
theory LocalStore
  imports ObjectStore
begin

text \<open>
  \<^verbatim>\<open>LocalStateObjectStore\<close> (\<^verbatim>\<open>runtime/state-store/src/adapters.mts\<close>), the object store of a development machine, over a
  directory of the file system. Files and directories are named by their segments; a failed call is its error code. A put reads
  before it writes, in two steps that other puts may separate: \<open>local_put_check\<close> and \<open>local_put_write\<close>.
\<close>

section \<open>The file system\<close>

record local_files =
  lo_files :: "(string list \<times> bytes) list"
  lo_mtime :: "(string list \<times> int) list"
  lo_dirs :: "string list list"
  lo_clock :: int

definition under_file :: "local_files \<Rightarrow> string list \<Rightarrow> bool" where
  "under_file L path = list_ex (\<lambda>(q, b). strict_prefix q path) (lo_files L)"

definition fs_read :: "local_files \<Rightarrow> string list \<Rightarrow> string + bytes" where
  "fs_read L path =
     (case map_of (lo_files L) path of
        Some b \<Rightarrow> Inr b
      | None \<Rightarrow> Inl (if path \<in> set (lo_dirs L) then ''EISDIR'' else if under_file L path then ''ENOTDIR'' else ''ENOENT''))"

text \<open>\<^verbatim>\<open>mkdir\<close> with \<^verbatim>\<open>recursive\<close>, \<^verbatim>\<open>writeFile\<close>, and \<^verbatim>\<open>rm\<close> with \<^verbatim>\<open>force\<close>.\<close>

definition fs_mkdir :: "string list \<Rightarrow> local_files \<Rightarrow> string + local_files" where
  "fs_mkdir path L =
     (if map_of (lo_files L) path \<noteq> None then Inl ''EEXIST''
      else if under_file L path then Inl ''ENOTDIR''
      else Inr (L\<lparr>lo_dirs := prefixes path @ lo_dirs L\<rparr>))"

definition fs_write :: "string list \<Rightarrow> bytes \<Rightarrow> local_files \<Rightarrow> string + local_files" where
  "fs_write path b L =
     (if path \<in> set (lo_dirs L) then Inl ''EISDIR''
      else Inr (L\<lparr>lo_files := AList.update path b (lo_files L), lo_mtime := AList.update path (lo_clock L) (lo_mtime L)\<rparr>))"

definition fs_rm :: "string list \<Rightarrow> local_files \<Rightarrow> string + local_files" where
  "fs_rm path L =
     (if path \<in> set (lo_dirs L) then Inl ''ERR_FS_EISDIR''
      else if under_file L path then Inl ''ENOTDIR''
      else Inr (L\<lparr>lo_files := AList.delete path (lo_files L)\<rparr>))"

section \<open>The adapter\<close>

definition local_get :: "host \<Rightarrow> string list \<Rightarrow> local_files \<Rightarrow> string \<Rightarrow> store_error + (bytes \<times> string) option" where
  "local_get H root1 L key =
     (case pathFor root1 key of
        Inl e \<Rightarrow> Inl e
      | Inr path \<Rightarrow>
         (case fs_read L path of
            Inr b \<Rightarrow> Inr (Some (b, etag H b))
          | Inl code \<Rightarrow> if code = ''ENOENT'' then Inr None else Inl (StoreFailure code)))"

definition local_put_check :: "host \<Rightarrow> string list \<Rightarrow> local_files \<Rightarrow> string \<Rightarrow> string option \<Rightarrow> store_error + unit" where
  "local_put_check H root1 L key ifCurrent =
     (case local_get H root1 L key of
        Inl e \<Rightarrow> Inl e
      | Inr existing \<Rightarrow>
         if ifCurrent \<noteq> None \<and> map_option snd existing \<noteq> ifCurrent then Inl (ConditionalPutConflict key) else Inr ())"

definition fs_fail :: "string + 'a \<Rightarrow> store_error + 'a" where
  "fs_fail x = (case x of Inl code \<Rightarrow> Inl (StoreFailure code) | Inr a \<Rightarrow> Inr a)"

definition local_put_write :: "host \<Rightarrow> string list \<Rightarrow> local_files \<Rightarrow> string \<Rightarrow> bytes \<Rightarrow> store_error + local_files \<times> string" where
  "local_put_write H root1 L key b =
     (case pathFor root1 key of
        Inl e \<Rightarrow> Inl e
      | Inr path \<Rightarrow>
         (case fs_fail (fs_mkdir (butlast path) L) of
            Inl e \<Rightarrow> Inl e
          | Inr L1 \<Rightarrow> (case fs_fail (fs_write path b L1) of Inl e \<Rightarrow> Inl e | Inr L2 \<Rightarrow> Inr (L2, etag H b))))"

definition local_put :: "host \<Rightarrow> string list \<Rightarrow> local_files \<Rightarrow> string \<Rightarrow> bytes \<Rightarrow> string option \<Rightarrow> store_error + local_files \<times> string" where
  "local_put H root1 L key b ifCurrent =
     (case local_put_check H root1 L key ifCurrent of Inl e \<Rightarrow> Inl e | Inr u \<Rightarrow> local_put_write H root1 L key b)"

definition local_delete :: "string list \<Rightarrow> local_files \<Rightarrow> string \<Rightarrow> store_error + local_files" where
  "local_delete root1 L key = (case pathFor root1 key of Inl e \<Rightarrow> Inl e | Inr path \<Rightarrow> fs_fail (fs_rm path L))"

text \<open>\<^verbatim>\<open>walk\<close> visits every file below the root; their keys are the paths relative to it.\<close>

definition local_walk :: "string list \<Rightarrow> local_files \<Rightarrow> string + string list list" where
  "local_walk root1 L =
     (if map_of (lo_files L) root1 \<noteq> None \<or> under_file L root1 then Inl ''ENOTDIR''
      else Inr (filter (strict_prefix root1) (map fst (lo_files L))))"

definition local_entry :: "string list \<Rightarrow> local_files \<Rightarrow> string list \<Rightarrow> list_entry" where
  "local_entry root1 L path =
     \<lparr>le_key = join ''/'' (drop (length root1) path), le_size = map_option (int \<circ> length) (map_of (lo_files L) path),
      le_updatedAt = map_of (lo_mtime L) path\<rparr>"

definition local_list :: "host \<Rightarrow> string list \<Rightarrow> local_files \<Rightarrow> string \<Rightarrow> store_error + list_entry list" where
  "local_list H root1 L p =
     (case fs_fail (local_walk root1 L) of
        Inl e \<Rightarrow> Inl e
      | Inr paths \<Rightarrow>
         Inr (sort_by (\<lambda>l r. host_localeLe H (le_key l) (le_key r))
           (filter (\<lambda>e. prefix p (le_key e)) (map (local_entry root1 L) paths))))"

definition LocalStateObjectStore :: "host \<Rightarrow> string list \<Rightarrow> local_files StateObjectStore" where
  "LocalStateObjectStore H root1 =
     \<lparr>os_get = local_get H root1, os_put = local_put H root1, os_delete = local_delete root1, os_list = Some (local_list H root1)\<rparr>"

section \<open>Keys and paths\<close>

text \<open>The keys of the state store: no empty segment, and none that moves within the tree.\<close>

definition plain_key :: "string \<Rightarrow> bool" where
  "plain_key k \<longleftrightarrow> (\<forall>x \<in> set (split_on (CHR ''/'') k). x \<noteq> [] \<and> x \<noteq> ''.'' \<and> x \<noteq> ''..'')"

lemma split_on_ne [simp]: "split_on d s \<noteq> []"
  by (induction s) (auto split: list.splits)

lemma join_split_on: "join [d] (split_on d s) = s"
proof (induction s)
  case (Cons c s)
  obtain x xs where "split_on d s = x # xs" by (cases "split_on d s") auto
  then show ?case using Cons by (cases xs) auto
qed simp

lemma resolve_plain: "\<forall>x \<in> set xs. x \<noteq> [] \<and> x \<noteq> ''.'' \<and> x \<noteq> ''..'' \<Longrightarrow> resolve_segs cwd xs = cwd @ xs"
  by (induction xs arbitrary: cwd) auto

lemma pathFor_plain:
  assumes "plain_key k"
  shows "pathFor root1 k = Inr (root1 @ split_on (CHR ''/'') k)"
proof -
  have "\<not> (k \<noteq> [] \<and> hd k = CHR ''/'')"
  proof
    assume "k \<noteq> [] \<and> hd k = CHR ''/''"
    then have "[] \<in> set (split_on (CHR ''/'') k)" by (cases k) simp_all
    then show False using assms unfolding plain_key_def by blast
  qed
  then have "resolve_path root1 k = root1 @ split_on (CHR ''/'') k"
    using resolve_plain [OF assms [unfolded plain_key_def], of root1] by (simp only: resolve_path_def if_False)
  then show ?thesis by (simp add: pathFor_def)
qed

section \<open>Properties\<close>

text \<open>Keys, one of which is not a directory of the other.\<close>

definition apart :: "string \<Rightarrow> string \<Rightarrow> bool" where
  "apart k k' \<longleftrightarrow> \<not> prefix (split_on (CHR ''/'') k) (split_on (CHR ''/'') k') \<and> \<not> prefix (split_on (CHR ''/'') k') (split_on (CHR ''/'') k)"

lemma under_file_iff: "under_file M q \<longleftrightarrow> (\<exists>x \<in> fst ` set (lo_files M). strict_prefix x q)"
  by (force simp: under_file_def list_ex_iff)

lemma update_keys: "fst ` set (AList.update k v m) = insert k (fst ` set m)"
  using dom_update [of k v m] by (simp add: dom_map_of_conv_image_fst)

lemma read_after_write:
  assumes "fs_mkdir (butlast path) L = Inr L1" and "fs_write path b L1 = Inr L2" and "path \<noteq> []"
  shows "fs_read L2 path = Inr b"
    and "\<not> prefix path q \<Longrightarrow> \<not> prefix q path \<Longrightarrow> fs_read L2 q = fs_read L q"
proof -
  have L: "lo_files L2 = AList.update path b (lo_files L)" "lo_dirs L2 = prefixes (butlast path) @ lo_dirs L"
    using assms(1,2) by (auto simp: fs_mkdir_def fs_write_def split: if_splits)
  then show "fs_read L2 path = Inr b" by (simp add: fs_read_def update_conv')
  assume a: "\<not> prefix path q" "\<not> prefix q path"
  have "map_of (lo_files L2) q = map_of (lo_files L) q" using a L by (auto simp: update_conv')
  moreover have "q \<notin> set (prefixes (butlast path))" using a by (auto dest: prefix_order.trans [OF _ prefixeq_butlast])
  then have "q \<in> set (lo_dirs L2) \<longleftrightarrow> q \<in> set (lo_dirs L)" using L by auto
  moreover have "under_file L2 q \<longleftrightarrow> under_file L q"
  proof -
    have "\<not> strict_prefix path q" using a(1) by (auto simp: strict_prefix_def)
    then show ?thesis unfolding under_file_iff L(1) update_keys by blast
  qed
  ultimately show "fs_read L2 q = fs_read L q" by (simp add: fs_read_def)
qed

text \<open>
  A put that succeeds is read back, with the version it returned, and no other key apart from it changes; a put under a version that is
  not the stored one is a conflict and changes nothing.
\<close>

lemma local_store_exact:
  assumes k: "plain_key k"
  shows "local_put H root1 L k b v = Inr (L', w) \<Longrightarrow> local_get H root1 L' k = Inr (Some (b, w)) \<and> w = etag H b"
    and "local_put H root1 L k b v = Inr (L', w) \<Longrightarrow> plain_key k' \<Longrightarrow> apart k k' \<Longrightarrow> local_get H root1 L' k' = local_get H root1 L k'"
    and "local_get H root1 L k = Inr x \<Longrightarrow> v \<noteq> None \<Longrightarrow> map_option snd x \<noteq> v \<Longrightarrow> local_put H root1 L k b v = Inl (ConditionalPutConflict k)"
proof -
  let ?p = "root1 @ split_on (CHR ''/'') k"
  have step: "\<exists>L1. fs_mkdir (butlast ?p) L = Inr L1 \<and> fs_write ?p b L1 = Inr L' \<and> w = etag H b"
    if "local_put H root1 L k b v = Inr (L', w)" for L'
    using that by (auto simp: local_put_def local_put_write_def pathFor_plain [OF k] fs_fail_def split: sum.splits)
  show "local_put H root1 L k b v = Inr (L', w) \<Longrightarrow> local_get H root1 L' k = Inr (Some (b, w)) \<and> w = etag H b"
    using step read_after_write(1) by (fastforce simp: local_get_def pathFor_plain [OF k])
  show "local_get H root1 L' k' = local_get H root1 L k'"
    if "local_put H root1 L k b v = Inr (L', w)" and k': "plain_key k'" and "apart k k'"
  proof -
    have "fs_read L' (root1 @ split_on (CHR ''/'') k') = fs_read L (root1 @ split_on (CHR ''/'') k')"
      using step [OF that(1)] read_after_write(2) that(3) by (fastforce simp: apart_def)
    then show ?thesis by (simp add: local_get_def pathFor_plain [OF k'])
  qed
  show "local_get H root1 L k = Inr x \<Longrightarrow> v \<noteq> None \<Longrightarrow> map_option snd x \<noteq> v \<Longrightarrow> local_put H root1 L k b v = Inl (ConditionalPutConflict k)"
    by (simp add: local_put_def local_put_check_def)
qed

text \<open>
  A condition is not atomic. Two puts that name the same stored version both succeed when both have compared before either has
  written: the first writer is told that its checkpoint is the current one, and it is gone.
\<close>

lemma local_condition_race:
  assumes k: "plain_key k" and c: "local_put_check H root1 L k v = Inr ()" and w: "local_put_write H root1 L k b = Inr (L1, v1)"
  shows "\<exists>L2. local_put_write H root1 L1 k b' = Inr (L2, etag H b') \<and> local_get H root1 L2 k = Inr (Some (b', etag H b'))"
proof -
  let ?p = "root1 @ split_on (CHR ''/'') k"
  have L: "lo_files L1 = AList.update ?p b (lo_files L)" "lo_dirs L1 = prefixes (butlast ?p) @ lo_dirs L" "?p \<notin> set (lo_dirs L1)"
    and d: "map_of (lo_files L) (butlast ?p) = None" "\<not> under_file L (butlast ?p)"
    using w by (auto simp: local_put_write_def pathFor_plain [OF k] fs_fail_def fs_mkdir_def fs_write_def split: sum.splits if_splits)
  have "length (butlast ?p) < length ?p" by (simp add: length_butlast)
  then have sp: "\<not> prefix ?p (butlast ?p)" using prefix_length_le [of ?p "butlast ?p"] by linarith
  have "map_of (lo_files L1) (butlast ?p) = None" using L(1) d(1) sp by (auto simp: update_conv')
  moreover have "\<not> under_file L1 (butlast ?p)"
  proof -
    have "\<not> strict_prefix ?p (butlast ?p)" using sp by (auto simp: strict_prefix_def)
    then show ?thesis using d(2) unfolding under_file_iff L(1) update_keys by blast
  qed
  ultimately obtain L2 where "fs_mkdir (butlast ?p) L1 = Inr (L1\<lparr>lo_dirs := prefixes (butlast ?p) @ lo_dirs L1\<rparr>)"
    and w2: "fs_write ?p b' (L1\<lparr>lo_dirs := prefixes (butlast ?p) @ lo_dirs L1\<rparr>) = Inr L2"
    using L(2,3) by (auto simp: fs_mkdir_def fs_write_def)
  moreover from this have "fs_read L2 ?p = Inr b'" using read_after_write(1) by simp
  ultimately show ?thesis by (simp add: local_put_write_def local_get_def pathFor_plain [OF k] fs_fail_def)
qed

end
