(* ===== verification/ControlProps.thy ===== *)
theory ControlProps
  imports ControlRoutes StateStoreProps
begin

text \<open>
  What the control plane promises. The lemmas on uploads are proved for every bundle store that satisfies
  the contract \<open>bundle_objects\<close>, which is interpreted on the local store; those on records for every
  database that satisfies \<open>redis_db\<close>.
\<close>

section \<open>The bundle store\<close>

definition plain_name :: "string \<Rightarrow> bool" where
  "plain_name f \<longleftrightarrow> f \<noteq> [] \<and> f \<noteq> ''.'' \<and> f \<noteq> ''..'' \<and> CHR ''/'' \<notin> set f"

locale bundle_objects =
  fixes B :: "'o BundleObjectStore"
  assumes get_put: "bo_put B k v t o1 = (Inr u, o2) \<Longrightarrow> bo_get B k o2 = Inr (Some v)"
    and get_put_other: "bo_put B (p @ ''/'' @ f) v t o1 = (Inr u, o2) \<Longrightarrow> plain_name f \<Longrightarrow> plain_name f' \<Longrightarrow> f \<noteq> f'
      \<Longrightarrow> bo_get B (p' @ ''/'' @ f') o1 = Inr (Some w) \<Longrightarrow> bo_get B (p' @ ''/'' @ f') o2 = Inr (Some w)"

lemma split_on_plain: "c \<notin> set f \<Longrightarrow> split_on c f = [f]"
  by (induction f) auto

lemma split_on_nonempty: "split_on d s \<noteq> []"
  by (induction s) (auto split: list.splits)

lemma split_on_snoc: "CHR ''/'' \<notin> set f \<Longrightarrow> split_on (CHR ''/'') (p @ ''/'' @ f) = split_on (CHR ''/'') p @ [f]"
proof (induction p)
  case (Cons c p)
  then show ?case using split_on_nonempty [of "CHR ''/''" p] by (auto split: list.splits)
qed (simp add: split_on_plain)

lemma resolve_snoc: "plain_name f \<Longrightarrow> resolve_segments base (ss @ [f]) = resolve_segments base ss @ [f]"
  by (induction base ss rule: resolve_segments.induct) (auto simp: plain_name_def)

lemma local_path_last:
  assumes "localObjectPath root1 (p @ ''/'' @ f) = Inr path" and "plain_name f"
  shows "last path = f"
proof -
  let ?ss = "filter (\<lambda>part. part \<noteq> []) (split_on (CHR ''/'') p)"
  have f: "CHR ''/'' \<notin> set f" "f \<noteq> []" using assms(2) by (auto simp: plain_name_def)
  have "path = resolve_segments root1 (filter (\<lambda>part. part \<noteq> []) (split_on (CHR ''/'') (p @ ''/'' @ f)))"
    using assms(1) by (auto simp: localObjectPath_def Let_def split: if_splits)
  also have "\<dots> = resolve_segments root1 ?ss @ [f]"
    unfolding split_on_snoc [OF f(1)] using resolve_snoc [OF assms(2)] f(2) by simp
  finally show ?thesis by simp
qed

interpretation local: bundle_objects "LocalBundleObjectStore root1" for root1
proof
  fix k v t o1 u o2
  assume "bo_put (LocalBundleObjectStore root1) k v t o1 = (Inr u, o2)"
  then show "bo_get (LocalBundleObjectStore root1) k o2 = Inr (Some v)"
    by (auto simp: LocalBundleObjectStore_def update_conv' split: sum.splits if_splits)
next
  fix p f v t o1 u o2 f' p' w
  assume put: "bo_put (LocalBundleObjectStore root1) (p @ ''/'' @ f) v t o1 = (Inr u, o2)" and f: "plain_name f" "plain_name f'" "f \<noteq> f'"
    and get: "bo_get (LocalBundleObjectStore root1) (p' @ ''/'' @ f') o1 = Inr (Some w)"
  obtain q where q: "localObjectPath root1 (p @ ''/'' @ f) = Inr q" "o2 = map_set q v o1"
    using put by (auto simp: LocalBundleObjectStore_def split: sum.splits if_splits)
  obtain q' where q': "localObjectPath root1 (p' @ ''/'' @ f') = Inr q'" "map_get o1 q' = Some w"
    using get by (auto simp: LocalBundleObjectStore_def split: sum.splits option.splits if_splits)
  have "q \<noteq> q'" using local_path_last [OF q(1) f(1)] local_path_last [OF q'(1) f(2)] f(3) by auto
  then show "bo_get (LocalBundleObjectStore root1) (p' @ ''/'' @ f') o2 = Inr (Some w)"
    using q(2) q' by (simp add: LocalBundleObjectStore_def update_conv')
qed

section \<open>Steps of handlers\<close>

lemma cp_bind_Inr: "cp_bind m f w = (Inr b, w') \<longleftrightarrow> (\<exists>a w1. m w = (Inr a, w1) \<and> f a w1 = (Inr b, w'))"
  by (auto simp: cp_bind_def split: prod.splits sum.splits)

lemma cp_http_Inr: "cp_http x w = (Inr a, w') \<longleftrightarrow> x = Inr a \<and> w' = w"
  by (auto simp: cp_http_def split: sum.splits)

lemma cp_lift_Inr: "cp_lift x w = (Inr a, w') \<longleftrightarrow> x = Inr a \<and> w' = w"
  by (auto simp: cp_lift_def split: sum.splits)

lemma cp_read_Inr: "cp_read f w = (Inr a, w') \<longleftrightarrow> f (cp_db w) = Inr a \<and> w' = w"
  by (simp add: cp_read_def cp_lift_Inr)

lemma cp_return_Inr: "cp_return a w = (Inr b, w') \<longleftrightarrow> b = a \<and> w' = w"
  by (auto simp: cp_return_def)

lemma cp_throw_Inr: "cp_throw s c d w \<noteq> (Inr b, w')"
  by (simp add: cp_throw_def)

lemma cp_do_Inr: "cp_do f w = (Inr a, w') \<longleftrightarrow> (\<exists>d. f (cp_db w) = (a, d) \<and> w' = w\<lparr>cp_db := d\<rparr>)"
  by (auto simp: cp_do_def split: prod.splits)

lemma requireBundle_Inr: "requireBundle C n w = (Inr b, w') \<longleftrightarrow> getBundle (cc_host C) (cc_R C) n (cp_db w) = Inr (Some b) \<and> w' = w"
  by (auto simp: requireBundle_def cp_bind_Inr cp_read_Inr cp_return_Inr cp_throw_Inr split: option.splits)

lemma requireGame_Inr: "requireGame C g w = (Inr b, w') \<longleftrightarrow> getGame (cc_host C) (cc_R C) g (cp_db w) = Inr (Some b) \<and> w' = w"
  by (auto simp: requireGame_def cp_bind_Inr cp_read_Inr cp_return_Inr cp_throw_Inr split: option.splits)

lemma cp_body_Inr: "cp_body C rq l w = (Inr b, w') \<longleftrightarrow> (\<exists>v. readJson (cc_host C) (cq_body rq) = Inr v \<and> asRecord v l = Inr b) \<and> w' = w"
  by (auto simp: cp_body_def cp_bind_Inr cp_http_Inr)

lemmas cp_Inr = cp_bind_Inr cp_http_Inr cp_lift_Inr cp_read_Inr cp_return_Inr cp_do_Inr requireBundle_Inr requireGame_Inr cp_body_Inr

section \<open>Uploads\<close>

lemma upload_check_Inr:
  "upload_check C rq n w = (Inr u, w') \<Longrightarrow> w' = w \<and> bu_bundleName u = n \<and> getBundle (cc_host C) (cc_R C) n (cp_db w) = Inr None"
  by (auto simp: upload_check_def cp_Inr cp_throw_Inr split: if_splits)

lemma cp_put_Inr:
  "cp_put C k b t w = (Inr x, w') \<longleftrightarrow> (\<exists>o1. bo_put (cc_B C) k b t (cp_objects w) = (Inr x, o1) \<and> w' = w\<lparr>cp_objects := o1\<rparr>)"
  by (auto simp: cp_put_def cp_lift_Inr split: prod.splits)

lemma upload_keys:
  "sourceObjectKey n = (''bundles/'' @ n) @ ''/'' @ ''source.js''" "manifestObjectKey n = (''bundles/'' @ n) @ ''/'' @ ''manifest.json''"
  "metadataObjectKey n = (''bundles/'' @ n) @ ''/'' @ ''metadata.json''"
  by (simp_all add: sourceObjectKey_def manifestObjectKey_def metadataObjectKey_def tigrisPath_def)

lemma plain_names: "plain_name ''source.js''" "plain_name ''manifest.json''" "plain_name ''metadata.json''"
  by (simp_all add: plain_name_def)

context bundle_objects
begin

lemma upload_objects_stored:
  assumes "cc_B C = B" and "upload_objects C u w = (Inr x, w')"
  shows "bo_get B (sourceObjectKey (bu_bundleName u)) (cp_objects w') = Inr (Some (bu_source u))" and "cp_db w' = cp_db w"
proof -
  obtain y1 y2 o1 o2 o3 t1 t2 t3 b2 b3 where
    1: "bo_put B (sourceObjectKey (bu_bundleName u)) (bu_source u) t1 (cp_objects w) = (Inr y1, o1)"
    and 2: "bo_put B (manifestObjectKey (bu_bundleName u)) b2 t2 o1 = (Inr y2, o2)"
    and 3: "bo_put B (metadataObjectKey (bu_bundleName u)) b3 t3 o2 = (Inr x, o3)" and w': "w' = w\<lparr>cp_objects := o3\<rparr>"
    using assms by (auto simp: upload_objects_def cp_bind_Inr cp_put_Inr)
  have "bo_get B (sourceObjectKey (bu_bundleName u)) o2 = Inr (Some (bu_source u))"
    unfolding upload_keys
    by (rule get_put_other [OF 2 [unfolded upload_keys] plain_names(2,1) _ get_put [OF 1, unfolded upload_keys]]) simp
  then have "bo_get B (sourceObjectKey (bu_bundleName u)) o3 = Inr (Some (bu_source u))"
    unfolding upload_keys by (rule get_put_other [OF 3 [unfolded upload_keys] plain_names(3,1), rotated]) simp
  then show "bo_get B (sourceObjectKey (bu_bundleName u)) (cp_objects w') = Inr (Some (bu_source u))" by (simp add: w')
  show "cp_db w' = cp_db w" by (simp add: w')
qed

end

lemma is_json_bundle: "is_json (bundle_js H u)"
  by (auto simp: bundle_js_def upload_fields_def bundle_manifest_js_def list_all_iff)


text \<open>A control plane over empty stores, whose requests to other services fail.\<close>

definition control0 :: "(mem_redis, files, mem_store) control_env" where
  "control0 =
     \<lparr>cc_host = plain_host, cc_R = mr_ops, cc_B = LocalBundleObjectStore [''root''], cc_ops = mem_ops env0, cc_E = env0, cc_now = 5,
      cc_iso = ''t'', cc_uuid = ''u'', cc_dateParse = (\<lambda>t. None), cc_fetch = (\<lambda>c d. (Inl ''down'', d)),
      cc_URL = (\<lambda>path base. Inr (base @ path)), cc_protocol = (\<lambda>raw. Inr ''http:''), cc_href = (\<lambda>raw. raw), cc_wireFile = None,
      cc_routerUrl = ''r'', cc_historyPath = ''h'', cc_stateLimit = 100, cc_blobLimit = 100, cc_rollbackMs = 9\<rparr>"

definition plane0 :: "(mem_redis, files, mem_store) ControlPlane" where
  "plane0 = \<lparr>cp_db = mr_empty, cp_objects = [], cp_state = mem_empty, cp_history = None, cp_nextSeq = [], cp_requestsTotal = 0, cp_errorsTotal = 0\<rparr>"

definition post :: "js \<Rightarrow> control_request" where
  "post v = \<lparr>cq_method = ''POST'', cq_url = Inr ([], []), cq_body = json_text v, cq_uploadedBy = None\<rparr>"

definition upload_body :: "string list \<Rightarrow> string \<Rightarrow> js" where
  "upload_body tags source = JObj [(''compatTagProduced'', JStr (hd tags)), (''compatTagsAccepted'', JArr (map JStr tags)),
     (''runtimeContractRequired'', JNum 1), (''source'', JStr source)]"

lemma control0_simps [simp]:
  "cc_host control0 = plain_host" "cc_R control0 = mr_ops" "cc_B control0 = LocalBundleObjectStore [''root'']" "cc_iso control0 = ''t''"
  "cc_now control0 = 5" "cc_ops control0 = mem_ops env0" "cc_E control0 = env0" "cc_uuid control0 = ''u''" "cc_historyPath control0 = ''h''"
  "cc_protocol control0 raw = Inr ''http:''" "cc_fetch control0 c d = (Inl ''down'', d)" "cc_URL control0 path base = Inr (base @ path)"
  by (simp_all add: control0_def)

lemma plane0_simps [simp]:
  "cp_db plane0 = mr_empty" "cp_objects plane0 = []" "cp_history plane0 = None" "rd_get mr_ops mr_empty k = None"
  by (simp_all add: plane0_def mr_ops_def mr_empty_def)

lemma post_simps [simp]: "cq_method (post v) = ''POST''" "cq_body (post v) = json_text v" "cq_uploadedBy (post v) = None"
  by (simp_all add: post_def)

lemma post_body:
  assumes "is_json (JObj fs)" and "cc_host C = plain_host"
  shows "cp_body C (post (JObj fs)) l w = (Inr fs, w)"
proof -
  have "js_trim (json_text (JObj fs)) \<noteq> []" unfolding trim_obj by simp
  moreover have "host_parse plain_host (json_text (JObj fs)) = Some (JObj fs)" by (rule plain_host.parse_text [OF assms(1)])
  ultimately have "readJson plain_host (json_text (JObj fs)) = Inr (JObj fs)" unfolding readJson_def by simp
  then show ?thesis by (simp add: cp_body_def cp_bind_def cp_http_def asRecord_def assms(2))
qed

definition upload_of :: "string \<Rightarrow> bundle_upload" where
  "upload_of source = \<lparr>bu_bundleName = ''b'', bu_manifest = \<lparr>bm_compatTagProduced = ''t1'', bm_compatTagsAccepted = [''t1''],
     bm_runtimeContractRequired = 1\<rparr>, bu_source = source, bu_uploadedAt = ''t'', bu_uploadedBy = ''vercel-backend''\<rparr>"

lemma upload0_check:
  assumes "s \<noteq> []"
  shows "upload_check control0 (post (upload_body [''t1''] s)) ''b'' plane0 = (Inr (upload_of s), plane0)"
proof -
  have n: "assertBundleName ''b'' = Inr ()" by code_simp
  let ?fs = "[(''compatTagProduced'', JStr ''t1''), (''compatTagsAccepted'', JArr [JStr ''t1'']), (''runtimeContractRequired'', JNum 1), (''source'', JStr s)]"
  have b: "cp_body control0 (post (upload_body [''t1''] s)) l w = (Inr ?fs, w)" for l w
    using post_body [of ?fs control0] by (simp add: upload_body_def)
  have m: "assertBundleManifest (JObj ?fs) = Inr \<lparr>bm_compatTagProduced = ''t1'', bm_compatTagsAccepted = [''t1''], bm_runtimeContractRequired = 1\<rparr>"
    by (simp add: assertBundleManifest_def include_str_def js_text_def)
  have src: "body_string ?fs ''source'' = Inr s" using assms by (simp add: body_string_def truthy_def)
  show ?thesis
    by (simp add: upload_check_def cp_bind_def cp_http_def cp_lift_def cp_read_def cp_return_def n b m src getBundle_def getJson_def upload_of_def)
qed

definition stored_of :: "string \<Rightarrow> files" where
  "stored_of source =
     [([''root'', ''bundles'', ''b'', ''source.js''], source),
      ([''root'', ''bundles'', ''b'', ''manifest.json''], json_pretty 0 (bundle_manifest_js (bu_manifest (upload_of source)))),
      ([''root'', ''bundles'', ''b'', ''metadata.json''], json_pretty 0 (metadata_js plain_host (upload_of source)))]"

lemma upload0_paths:
  "localObjectPath [''root''] (sourceObjectKey ''b'') = Inr [''root'', ''bundles'', ''b'', ''source.js'']"
  "localObjectPath [''root''] (manifestObjectKey ''b'') = Inr [''root'', ''bundles'', ''b'', ''manifest.json'']"
  "localObjectPath [''root''] (metadataObjectKey ''b'') = Inr [''root'', ''bundles'', ''b'', ''metadata.json'']"
  by code_simp+

lemma upload0_objects:
  assumes "cp_objects w = [] \<or> (\<exists>s'. cp_objects w = stored_of s')"
  shows "upload_objects control0 (upload_of s) w = (Inr (), w\<lparr>cp_objects := stored_of s\<rparr>)"
proof -
  have n: "bu_bundleName (upload_of s) = ''b''" "bu_source (upload_of s) = s" by (simp_all add: upload_of_def)
  show ?thesis
    using assms unfolding upload_objects_def cp_bind_def cp_put_def cp_lift_def n
    by (elim disjE exE) (simp_all add: LocalBundleObjectStore_def upload0_paths stored_of_def strict_prefix_def n)
qed

lemma upload0_verify: "cp_objects w = stored_of s \<Longrightarrow> upload_verify control0 (upload_of s) w = (Inr (), w)"
  by (simp add: upload_verify_def cp_bind_def cp_lift_def cp_return_def LocalBundleObjectStore_def upload0_paths stored_of_def upload_of_def)

lemma upload0_commit:
  assumes "cp_db w = mr_empty"
  shows "upload_commit control0 (upload_of s) w
    = (Inr (JsonResponse 201 (JObj [(''ok'', JBool True), (''bundle'', bundle_js plain_host (upload_of s)),
         (''contentSha256'', JStr (sha256String plain_host s)), (''sizeBytes'', JNum (int (length s)))])),
       w\<lparr>cp_db := mr_put (BUNDLE_KEY_PREFIX @ ''b'') (json_text (bundle_js plain_host (upload_of s))) mr_empty\<rparr>)"
  using assms
  by (simp add: upload_commit_def cp_bind_def cp_do_def cp_return_def putBundleWriteOnce_def mr_ops_def mr_empty_def map_has_def bundle_js_def
      js_text_def upload_of_def)

lemma first_upload_ok: "\<exists>r. fst (handleBundle control0 (post (upload_body [''t1''] ''s1'')) ''b'' plane0) = Inr r"
  by (simp add: handleBundle_def upload_bundle_def cp_bind_def upload0_check upload0_objects upload0_verify upload0_commit)

lemma control0_laws: "redis_db (cc_R control0)" "host_env (cc_host control0)" "bundle_objects (cc_B control0)"
  using mr.redis_db_axioms plain_host.host_env_axioms local.bundle_objects_axioms by (simp_all add: control0_def)


text \<open>
  Two uploads of one name that overlap: both find the name free, the first stores and verifies its source, then the
  second does, then the first enters its record and is answered 201 while the second is refused with
  409. The bundle is now bound to a record whose hash is not that of the stored source, and no later upload can mend it.
\<close>

theorem overlapping_uploads_break_record:
  "\<exists>u1 u2 w1 w2 w3 r bundle.
     upload_check control0 (post (upload_body [''t1''] ''s1'')) ''b'' plane0 = (Inr u1, plane0)
     \<and> upload_check control0 (post (upload_body [''t1''] ''s2'')) ''b'' plane0 = (Inr u2, plane0)
     \<and> cp_bind (upload_objects control0 u1) (\<lambda>_. upload_verify control0 u1) plane0 = (Inr (), w1)
     \<and> cp_bind (upload_objects control0 u2) (\<lambda>_. upload_verify control0 u2) w1 = (Inr (), w2)
     \<and> upload_commit control0 u1 w2 = (Inr (JsonResponse 201 r), w3)
     \<and> upload_commit control0 u2 w3 = (Inl (Http \<lparr>ht_statusCode = 409, ht_code = ''bundleAlreadyExists'', ht_detail = JObj [(''bundleName'', JStr ''b'')]\<rparr>), w3)
     \<and> getBundle plain_host mr_ops ''b'' (cp_db w3) = Inr (Some bundle)
     \<and> js_get bundle ''contentSha256'' = JStr (sha256String plain_host ''s1'')
     \<and> bo_get (cc_B control0) (js_text (js_get bundle ''sourceObjectKey'')) (cp_objects w3) = Inr (Some ''s2'')
     \<and> sha256String plain_host ''s2'' \<noteq> sha256String plain_host ''s1''"
proof -
  let ?w1 = "plane0\<lparr>cp_objects := stored_of ''s1''\<rparr>" and ?w2 = "plane0\<lparr>cp_objects := stored_of ''s2''\<rparr>"
  let ?b = "bundle_js plain_host (upload_of ''s1'')"
  let ?d = "mr_put (BUNDLE_KEY_PREFIX @ ''b'') (json_text ?b) mr_empty"
  let ?w3 = "plane0\<lparr>cp_objects := stored_of ''s2'', cp_db := ?d\<rparr>"
  have run: "cp_bind (upload_objects control0 (upload_of s)) (\<lambda>_. upload_verify control0 (upload_of s)) w = (Inr (), w\<lparr>cp_objects := stored_of s\<rparr>)"
    if "cp_objects w = [] \<or> (\<exists>s'. cp_objects w = stored_of s')" for s w
    using upload0_objects [OF that] by (simp add: cp_bind_def upload0_verify)
  have late: "upload_commit control0 (upload_of ''s2'') ?w3
      = (Inl (Http \<lparr>ht_statusCode = 409, ht_code = ''bundleAlreadyExists'', ht_detail = JObj [(''bundleName'', JStr ''b'')]\<rparr>), ?w3)"
    by (simp add: upload_commit_def cp_bind_def cp_do_def cp_throw_def putBundleWriteOnce_def mr_ops_def mr_put_def mr_empty_def map_has_def bundle_js_def
      js_text_def upload_of_def)
  have get: "getBundle plain_host mr_ops ''b'' ?d = Inr (Some ?b)"
    unfolding getBundle_def by (rule getJson_text [OF plain_host.host_env_axioms is_json_bundle]) (simp add: mr_ops_def mr_put_def mr_empty_def)
  have "js_get ?b ''contentSha256'' = JStr (sha256String plain_host ''s1'')" "js_get ?b ''sourceObjectKey'' = JStr (sourceObjectKey ''b'')"
    by (simp_all add: bundle_js_def upload_fields_def upload_of_def)
  moreover have "bo_get (LocalBundleObjectStore [''root'']) (sourceObjectKey ''b'') (stored_of ''s2'') = Inr (Some ''s2'')"
    by (simp add: LocalBundleObjectStore_def upload0_paths stored_of_def)
  moreover have "sha256String plain_host ''s2'' \<noteq> sha256String plain_host ''s1''" by code_simp
  moreover have "upload_check control0 (post (upload_body [''t1''] ''s1'')) ''b'' plane0 = (Inr (upload_of ''s1''), plane0)"
    "upload_check control0 (post (upload_body [''t1''] ''s2'')) ''b'' plane0 = (Inr (upload_of ''s2''), plane0)"
    by (simp_all add: upload0_check)
  moreover have "\<exists>r. upload_commit control0 (upload_of ''s1'') ?w2 = (Inr (JsonResponse 201 r), ?w3)" by (simp add: upload0_commit)
  ultimately show ?thesis
    using run [of plane0 "''s1''"] run [of ?w1 "''s2''"] late get by (fastforce simp: js_text_def)
qed

end
