(* ===== verification/BundleSources.thy ===== *)
theory BundleSources
  imports S3Store LocalStore ControlProps
begin

text \<open>
  Where bundles are kept: the control plane's \<^verbatim>\<open>S3BundleObjectStore\<close> (\<^verbatim>\<open>orchestration/control-plane/src/app.mts\<close>) and the Broker's
  \<^verbatim>\<open>S3BundleSourceStore\<close> and \<^verbatim>\<open>LocalBundleSourceStore\<close> (\<^verbatim>\<open>runtime/broker/src/adapters.mts\<close>), over the client of \<open>S3Store\<close> and
  the files of \<open>Control\<close>. What the one service uploads is what the other loads.
\<close>

section \<open>The stores\<close>

definition responseBodyToString :: "s3_body \<Rightarrow> string + string" where
  "responseBodyToString body =
     (case body of
        TransformToByteArray b \<Rightarrow> Inr b
      | ByteArray b \<Rightarrow> Inr b
      | BodyText t \<Rightarrow> Inr t
      | BodyChunks cs \<Rightarrow> Inr (concat (map (case_sum id id) cs))
      | OtherBody \<Rightarrow> Inl ''Tigris object body is not readable'')"

definition s3_bundle_get :: "(js \<Rightarrow> string) \<Rightarrow> 'c s3_client \<Rightarrow> 'c \<Rightarrow> string \<Rightarrow> string + string option" where
  "s3_bundle_get msg K c key =
     (case s3_get K c key of
        Inl err \<Rightarrow> if isObjectNotFound err then Inr None else Inl (msg err)
      | Inr result \<Rightarrow>
         (case so_Body result of
            None \<Rightarrow> Inr (Some [])
          | Some body \<Rightarrow> (case responseBodyToString body of Inl m \<Rightarrow> Inl m | Inr t \<Rightarrow> Inr (Some t))))"

definition s3_bundle_put :: "(js \<Rightarrow> string) \<Rightarrow> 'c s3_client \<Rightarrow> string \<Rightarrow> string \<Rightarrow> 'c \<Rightarrow> (string + unit) \<times> 'c" where
  "s3_bundle_put msg K key body c =
     (case s3_put K c key body None of Inl err \<Rightarrow> (Inl (msg err), c) | Inr (c', r) \<Rightarrow> (Inr (), c'))"

definition S3BundleObjectStore :: "(js \<Rightarrow> string) \<Rightarrow> 'c s3_client \<Rightarrow> 'c BundleObjectStore" where
  "S3BundleObjectStore msg K =
     \<lparr>bo_put = (\<lambda>key body contentType. s3_bundle_put msg K key body), bo_get = (\<lambda>key c. s3_bundle_get msg K c key)\<rparr>"

definition S3BundleSourceStore :: "(js \<Rightarrow> string) \<Rightarrow> 'c s3_client \<Rightarrow> 'c \<Rightarrow> string \<Rightarrow> string + string option" where
  "S3BundleSourceStore msg K = s3_bundle_get msg K"

text \<open>The Broker resolves the whole key against its root, the control plane its segments one by one.\<close>

definition source_path :: "string list \<Rightarrow> string \<Rightarrow> string + string list" where
  "source_path root1 key =
     (let resolved = resolve_path root1 key in
      if resolved \<noteq> root1 \<and> \<not> strict_prefix root1 resolved then Inl (''object key escapes local root: '' @ key) else Inr resolved)"

definition LocalBundleSourceStore :: "string list \<Rightarrow> files \<Rightarrow> string \<Rightarrow> string + string option" where
  "LocalBundleSourceStore root1 fs key =
     (case source_path root1 key of
        Inl e \<Rightarrow> Inl e
      | Inr path \<Rightarrow>
         (case map_get fs path of
            Some body \<Rightarrow> Inr (Some body)
          | None \<Rightarrow> if \<exists>q \<in> set (map fst fs). strict_prefix path q then Inl ''EISDIR''
                   else if \<exists>q \<in> set (map fst fs). strict_prefix q path then Inl ''ENOTDIR''
                   else Inr None))"

section \<open>One bundle, two services\<close>

lemma body_bytes_string: "responseBodyToString body = responseBodyToBytes body"
  by (cases body) (simp_all add: responseBodyToString_def)

context s3_service
begin

lemma bundle_get: "s3_bundle_get msg K c key = Inr (contents c key)"
proof (cases "contents c key")
  case None
  then show ?thesis using get_miss [OF None] by (auto simp: s3_bundle_get_def)
next
  case (Some b)
  then show ?thesis using get_hit [OF Some] by (auto simp: s3_bundle_get_def body_bytes_string)
qed

lemma bundle_put:
  obtains c' where "s3_bundle_put msg K key body c = (Inr (), c')" "contents c' = (contents c)(key \<mapsto> body)"
  using put_match [of None c key body] that by (auto simp: s3_bundle_put_def)

end

text \<open>An S3 service is a bundle store in the sense of the control plane's uploads.\<close>

sublocale s3_service \<subseteq> bundles: bundle_objects "S3BundleObjectStore msg K" for msg
proof
  fix k v t o1 u o2
  assume "bo_put (S3BundleObjectStore msg K) k v t o1 = (Inr u, o2)"
  then have "contents o2 = (contents o1)(k \<mapsto> v)" using bundle_put [of msg k v o1] by (auto simp: S3BundleObjectStore_def)
  then show "bo_get (S3BundleObjectStore msg K) k o2 = Inr (Some v)" by (simp add: S3BundleObjectStore_def bundle_get)
next
  fix p f v t o1 u o2 f' p' w
  assume put: "bo_put (S3BundleObjectStore msg K) (p @ ''/'' @ f) v t o1 = (Inr u, o2)" and f: "plain_name f" "plain_name f'" "f \<noteq> f'"
    and get: "bo_get (S3BundleObjectStore msg K) (p' @ ''/'' @ f') o1 = Inr (Some w)"
  have "contents o2 = (contents o1)(p @ ''/'' @ f \<mapsto> v)"
    using put bundle_put [of msg "p @ ''/'' @ f" v o1] by (auto simp: S3BundleObjectStore_def)
  moreover have "p @ ''/'' @ f \<noteq> p' @ ''/'' @ f'"
  proof
    assume "p @ ''/'' @ f = p' @ ''/'' @ f'"
    then have "split_on (CHR ''/'') p @ [f] = split_on (CHR ''/'') p' @ [f']"
      using f split_on_snoc [of f p] split_on_snoc [of f' p'] by (simp add: plain_name_def)
    then show False using f(3) by simp
  qed
  ultimately show "bo_get (S3BundleObjectStore msg K) (p' @ ''/'' @ f') o2 = Inr (Some w)"
    using get by (auto simp: S3BundleObjectStore_def bundle_get)
qed

lemma assertBundleName_no_slash: "assertBundleName n = Inr () \<Longrightarrow> n \<noteq> [] \<and> CHR ''/'' \<notin> set n"
  by (auto simp: assertBundleName_def list_all_iff bundle_name_char_def is_digit_def split: if_splits)

lemma split_on_segment: "CHR ''/'' \<notin> set x \<Longrightarrow> split_on (CHR ''/'') (x @ ''/'' @ r) = x # split_on (CHR ''/'') r"
  by (induction x) auto

lemma source_key_segments:
  assumes "assertBundleName n = Inr ()"
  shows "split_on (CHR ''/'') (sourceObjectKey n) = [''bundles'', n, ''source.js'']"
proof -
  have "sourceObjectKey n = ''bundles'' @ ''/'' @ n @ ''/'' @ ''source.js''" by (simp add: sourceObjectKey_def tigrisPath_def)
  moreover have "CHR ''/'' \<notin> set n" using assertBundleName_no_slash [OF assms] by simp
  ultimately show ?thesis
    using split_on_segment [of "''bundles''" "n @ ''/'' @ ''source.js''"] split_on_segment [of n "''source.js''"]
      split_on_plain [of "CHR ''/''" "''source.js''"] by (simp only:) simp
qed

lemma source_paths_agree:
  assumes "assertBundleName n = Inr ()" and "n \<notin> {''.'', ''..''}"
  shows "source_path root1 (sourceObjectKey n) = Inr (root1 @ [''bundles'', n, ''source.js''])"
    and "localObjectPath root1 (sourceObjectKey n) = Inr (root1 @ [''bundles'', n, ''source.js''])"
proof -
  note seg = source_key_segments [OF assms(1)]
  have "n \<noteq> []" using assertBundleName_no_slash [OF assms(1)] by simp
  moreover have "\<not> (sourceObjectKey n \<noteq> [] \<and> hd (sourceObjectKey n) = CHR ''/'')" by (simp add: sourceObjectKey_def tigrisPath_def)
  ultimately have "resolve_path root1 (sourceObjectKey n) = root1 @ [''bundles'', n, ''source.js'']"
    using assms(2) unfolding resolve_path_def seg by auto
  then show "source_path root1 (sourceObjectKey n) = Inr (root1 @ [''bundles'', n, ''source.js''])"
    by (simp add: source_path_def strict_prefix_def)
  show "localObjectPath root1 (sourceObjectKey n) = Inr (root1 @ [''bundles'', n, ''source.js''])"
    using assms(2) \<open>n \<noteq> []\<close> unfolding localObjectPath_def seg by simp
qed

text \<open>
  C31: the bundle that the control plane uploads is the one the Broker loads: after a put of a source under the key of a bundle that
  succeeded, the Broker's store returns that source for the key, on an S3 service and on the local disk alike, and the sources of other
  bundles as before.
\<close>

theorem uploaded_source_loaded:
  assumes S: "s3_service K contents etag_of" and n: "assertBundleName n = Inr ()" "n \<notin> {''.'', ''..''}"
    and m: "assertBundleName m = Inr ()" "m \<notin> {''.'', ''..''}" "m \<noteq> n"
  shows "(\<exists>c'. bo_put (S3BundleObjectStore msg K) (sourceObjectKey n) body t c = (Inr (), c')
        \<and> S3BundleSourceStore msg K c' (sourceObjectKey n) = Inr (Some body)
        \<and> S3BundleSourceStore msg K c' (sourceObjectKey m) = S3BundleSourceStore msg K c (sourceObjectKey m))
    \<and> (\<forall>fs'. bo_put (LocalBundleObjectStore root1) (sourceObjectKey n) body t fs = (Inr (), fs') \<longrightarrow>
        LocalBundleSourceStore root1 fs' (sourceObjectKey n) = Inr (Some body)
        \<and> LocalBundleSourceStore root1 fs' (sourceObjectKey m) = LocalBundleSourceStore root1 fs (sourceObjectKey m))"
proof (intro conjI allI impI)
  have ne: "sourceObjectKey m \<noteq> sourceObjectKey n" using m(3) by (simp add: sourceObjectKey_def tigrisPath_def)
  obtain c' where "s3_bundle_put msg K (sourceObjectKey n) body c = (Inr (), c')" "contents c' = (contents c)(sourceObjectKey n \<mapsto> body)"
    using s3_service.bundle_put [OF S] by blast
  then show "\<exists>c'. bo_put (S3BundleObjectStore msg K) (sourceObjectKey n) body t c = (Inr (), c')
        \<and> S3BundleSourceStore msg K c' (sourceObjectKey n) = Inr (Some body)
        \<and> S3BundleSourceStore msg K c' (sourceObjectKey m) = S3BundleSourceStore msg K c (sourceObjectKey m)"
    using ne by (simp add: S3BundleObjectStore_def S3BundleSourceStore_def s3_service.bundle_get [OF S])
next
  fix fs'
  let ?p = "\<lambda>x. root1 @ [''bundles'', x, ''source.js'']"
  assume "bo_put (LocalBundleObjectStore root1) (sourceObjectKey n) body t fs = (Inr (), fs')"
  then have fs': "fs' = map_set (?p n) body fs"
    by (auto simp: LocalBundleObjectStore_def source_paths_agree [OF n] split: if_splits)
  have "map_get fs' (?p n) = Some body" "map_get fs' (?p m) = map_get fs (?p m)" using m(3) by (simp_all add: fs' update_conv')
  moreover have keys: "set (map fst fs') = insert (?p n) (set (map fst fs))" unfolding fs' by (simp add: update_keys)
  have "\<not> strict_prefix (?p n) (?p m)" "\<not> strict_prefix (?p m) (?p n)" using m(3) by (auto simp: strict_prefix_def)
  then have "(\<exists>q \<in> set (map fst fs'). strict_prefix (?p m) q) \<longleftrightarrow> (\<exists>q \<in> set (map fst fs). strict_prefix (?p m) q)"
    "(\<exists>q \<in> set (map fst fs'). strict_prefix q (?p m)) \<longleftrightarrow> (\<exists>q \<in> set (map fst fs). strict_prefix q (?p m))"
    unfolding keys by blast+
  ultimately show "LocalBundleSourceStore root1 fs' (sourceObjectKey n) = Inr (Some body)"
    "LocalBundleSourceStore root1 fs' (sourceObjectKey m) = LocalBundleSourceStore root1 fs (sourceObjectKey m)"
    unfolding LocalBundleSourceStore_def source_paths_agree(1) [OF n] source_paths_agree(1) [OF m(1,2)] by (simp_all only: sum.case option.case)
qed

theorem uploaded_source_loaded_witness:
  "\<exists>c'. bo_put (S3BundleObjectStore (\<lambda>e. []) (bucket_client False 9)) (sourceObjectKey ''chess'') ''src'' ''t'' [] = (Inr (), c')
    \<and> S3BundleSourceStore (\<lambda>e. []) (bucket_client False 9) c' (sourceObjectKey ''chess'') = Inr (Some ''src'')"
proof -
  have "assertBundleName ''chess'' = Inr ()" "assertBundleName ''go'' = Inr ()" by (simp_all add: assertBundleName_def bundle_name_char_def)
  then show ?thesis
    using uploaded_source_loaded [OF bucket_service, of "''chess''" "''go''" "\<lambda>e. []" False 9 "''src''" "''t''" "[]", THEN conjunct1] by auto
qed

end
