(* ===== verification/GatewayProps.thy ===== *)
theory GatewayProps
  imports Gateway
begin

text \<open>
  Properties of the API gateway: every call is counted once, a replay gives back what the
  provider said, and what the record of a refused call does to later replays.
\<close>

section \<open>Counting\<close>

definition error_total :: "'r ApiGateway \<Rightarrow> int" where
  "error_total g = sum_list (map (metric_errors g) [KindUnknown, ProviderError, ApiRateExceeded, ReplayCoverageGap])"

text \<open>The counters after one call with the given response.\<close>

definition counted :: "'r ApiGateway \<Rightarrow> ApiInvokeResponse \<Rightarrow> 'r ApiGateway \<Rightarrow> bool" where
  "counted g r g' \<longleftrightarrow> gw_invocationsTotal g' = gw_invocationsTotal g
     \<and> gw_okTotal g' = gw_okTotal g + (if error_of r = None then 1 else 0)
     \<and> (\<forall>e. metric_errors g' e = metric_errors g e + (if error_of r = Some e then 1 else 0))"

lemma counted_metrics: "counted g r (recordMetrics r g)"
  by (cases r) (auto simp: counted_def recordMetrics_def error_of_def metric_errors_def update_conv')

lemma counted_step:
  "counted g r g' \<Longrightarrow> gw_invocationsTotal h = gw_invocationsTotal g \<Longrightarrow> gw_okTotal h = gw_okTotal g
   \<Longrightarrow> gw_errorsTotal h = gw_errorsTotal g \<Longrightarrow> counted h r g'"
  "counted g r g' \<Longrightarrow> gw_invocationsTotal h = gw_invocationsTotal g' \<Longrightarrow> gw_okTotal h = gw_okTotal g'
   \<Longrightarrow> gw_errorsTotal h = gw_errorsTotal g' \<Longrightarrow> counted g r h"
  by (auto simp: counted_def metric_errors_def)

lemma do_record_counters:
  "do_record W r g = (x, g') \<Longrightarrow> gw_invocationsTotal g' = gw_invocationsTotal g \<and> gw_okTotal g' = gw_okTotal g
    \<and> gw_errorsTotal g' = gw_errorsTotal g \<and> gw_budget g' = gw_budget g \<and> gw_defaultMode g' = gw_defaultMode g"
  by (auto simp: do_record_def split: prod.splits)

lemma recordAndReturn_counted:
  assumes "recordAndReturn W E i env m st e detail g = (Inr res, g')"
  shows "counted g (gr_response res) g'" and "gr_response res = ApiErr e (Some detail)"
proof -
  let ?r = "ApiErr e (Some detail)"
  obtain rec where d: "do_record W rec (recordMetrics ?r g) = (Inr (), g')" and res: "gr_response res = ?r"
    using assms by (auto simp: recordAndReturn_def Let_def split: sum.splits prod.splits)
  show "gr_response res = ?r" by (rule res)
  show "counted g (gr_response res) g'"
    unfolding res using do_record_counters [OF d] by (intro counted_step(2) [OF counted_metrics]) simp_all
qed

lemma invoke_replay_counted:
  assumes "invoke_replay H W E i env g = (Inr res, g')"
  shows "counted g (gr_response res) g'"
proof -
  obtain x s where l: "wo_lookup W (ge_fingerprint env) (gw_records g) = (x, s)" by fastforce
  show ?thesis
  proof (cases x)
    case (Inr o1)
    show ?thesis
    proof (cases o1)
      case None
      then have "recordAndReturn W E i env Replay 0 ReplayCoverageGap
          (JObj [(''fingerprint'', JStr (ge_fingerprint env))]) (g\<lparr>gw_records := s\<rparr>) = (Inr res, g')"
        using assms l Inr by (simp add: invoke_replay_def)
      from recordAndReturn_counted(1) [OF this] show ?thesis by (rule counted_step(1)) simp_all
    next
      case (Some recorded)
      then obtain rec g1 where d: "do_record W rec (g\<lparr>gw_records := s\<rparr>) = (Inr (), g1)"
        and g': "g' = recordMetrics (gr_response res) g1"
        using assms l Inr by (auto simp: invoke_replay_def Let_def split: sum.splits prod.splits)
      show ?thesis unfolding g' using do_record_counters [OF d] by (intro counted_step(1) [OF counted_metrics]) simp_all
    qed
  qed (use assms l in \<open>simp add: invoke_replay_def\<close>)
qed

lemma invoke_live_counted:
  assumes "invoke_live H W E url i env g = (Inr res, g')"
  shows "counted g (gr_response res) g'"
proof (cases "ce_fetch E url env")
  case (Inl m)
  then show ?thesis using assms by (auto simp: invoke_live_def Let_def dest: recordAndReturn_counted(1))
next
  case (Inr p)
  obtain status raw where p: "p = (status, raw)" by fastforce
  let ?r = "apiInvokeResponseFromHttp H status raw"
  obtain rec where rec: "rec = \<lparr>wr_requestId = ge_requestId env, wr_fingerprint = ge_fingerprint env, wr_mode = Live,
      wr_kind = ai_kind i, wr_gameId = di_gameId i, wr_runId = di_runId i,
      wr_rawOutbound = ge_rawOutbound env, wr_rawInbound = raw, wr_statusCode = status,
      wr_error = error_of ?r, wr_recordedAt = ce_iso E\<rparr>" by simp
  obtain x g1 where d: "do_record W rec g = (x, g1)" by fastforce
  note dc = do_record_counters [OF d]
  show ?thesis
  proof (cases x)
    case Inl
    then have "\<exists>detail. recordAndReturn W E i env Live 0 ProviderError detail g1 = (Inr res, g')"
      using assms Inr p d rec by (auto simp: invoke_live_def Let_def)
    then show ?thesis using dc by (auto dest: recordAndReturn_counted(1) intro: counted_step(1))
  next
    case (Inr u)
    then have "gr_response res = ?r" "g' = recordMetrics ?r g1"
      using assms \<open>ce_fetch E url env = Inr p\<close> p d rec by (auto simp: invoke_live_def Let_def)
    then show ?thesis using dc by (auto intro: counted_step(1) [OF counted_metrics])
  qed
qed

text \<open>
  The three ways a call that returns ends: refused by the budget, refused as unknown, or served in
  its mode.
\<close>

lemma invokeWithMetrics_cases:
  assumes "invokeWithMetrics H W E i g = (Inr res, g')"
  obtains (refused) env b e detail where
      "buildGatewayEnvelope H (ce_uuid E) i (invoke_mode i g) = Inr env" "e \<in> {ApiRateExceeded, KindUnknown}" "plain_json detail"
      "recordAndReturn W E i env (invoke_mode i g) 0 e detail
         (g\<lparr>gw_invocationsTotal := gw_invocationsTotal g + 1, gw_budget := b\<rparr>) = (Inr res, g')"
    | (replay) env b where "buildGatewayEnvelope H (ce_uuid E) i (invoke_mode i g) = Inr env" "invoke_mode i g = Replay"
      "invoke_replay H W E i env (g\<lparr>gw_invocationsTotal := gw_invocationsTotal g + 1, gw_budget := b\<rparr>) = (Inr res, g')"
    | (live) env b url where "buildGatewayEnvelope H (ce_uuid E) i (invoke_mode i g) = Inr env" "invoke_mode i g = Live"
      "invoke_live H W E url i env (g\<lparr>gw_invocationsTotal := gw_invocationsTotal g + 1, gw_budget := b\<rparr>) = (Inr res, g')"
proof -
  let ?g1 = "g\<lparr>gw_invocationsTotal := gw_invocationsTotal g + 1\<rparr>"
  have m: "invoke_mode i ?g1 = invoke_mode i g" by (simp add: invoke_mode_def)
  obtain env where b: "buildGatewayEnvelope H (ce_uuid E) i (invoke_mode i g) = Inr env"
    using assms by (auto simp: invokeWithMetrics_def Let_def m split: sum.splits)
  obtain dec bu where c: "checkAndRecord (di_gameId i) (ce_now E) (gw_budget g) = (dec, bu)" by fastforce
  note run = assms [unfolded invokeWithMetrics_def Let_def m b, simplified, unfolded c, simplified]
  show ?thesis
  proof (cases "rd_ok dec")
    case False
    have "plain_json (JObj [(''currentUsage'', JNum (rd_currentUsage dec)), (''limit'', JNum (rd_limit dec)),
        (''windowMs'', JNum (rd_windowMs dec))])" by (simp add: proto_def)
    from refused [OF b _ this, of ApiRateExceeded bu] show ?thesis using run False by simp
  next
    case True
    then obtain found where f: "ce_url E = Inr found" using run by (cases "ce_url E") auto
    show ?thesis
    proof (cases "truthy found")
      case None
      have "plain_json (JObj [(''kind'', JStr (ai_kind i))])" by (simp add: proto_def)
      from refused [OF b _ this, of KindUnknown bu] show ?thesis using run True f None by simp
    next
      case (Some url)
      then show ?thesis using replay [OF b] live [OF b] run True f by (cases "invoke_mode i g") auto
    qed
  qed
qed

text \<open>
  C24: every invocation that returns is counted exactly once: the invocations go up by one, and
  of the counters of successes and of the four errors exactly the one of its response, whatever
  the record store does.
\<close>

theorem every_call_counted:
  assumes "invokeWithMetrics H W E i g = (Inr res, g')"
  shows "gw_invocationsTotal g' = gw_invocationsTotal g + 1
    \<and> gw_okTotal g' = gw_okTotal g + (if error_of (gr_response res) = None then 1 else 0)
    \<and> (\<forall>e. metric_errors g' e = metric_errors g e + (if error_of (gr_response res) = Some e then 1 else 0))
    \<and> gw_okTotal g' + error_total g' - gw_invocationsTotal g' = gw_okTotal g + error_total g - gw_invocationsTotal g"
proof -
  have "\<exists>b. counted (g\<lparr>gw_invocationsTotal := gw_invocationsTotal g + 1, gw_budget := b\<rparr>) (gr_response res) g'"
    using assms
    by (cases rule: invokeWithMetrics_cases)
      (blast dest: recordAndReturn_counted(1) invoke_replay_counted invoke_live_counted)+
  then have c: "gw_invocationsTotal g' = gw_invocationsTotal g + 1"
    "gw_okTotal g' = gw_okTotal g + (if error_of (gr_response res) = None then 1 else 0)"
    "\<And>e. metric_errors g' e = metric_errors g e + (if error_of (gr_response res) = Some e then 1 else 0)"
    by (auto simp: counted_def metric_errors_def)
  have "gw_okTotal g' + error_total g' = gw_okTotal g + error_total g + 1"
  proof (cases "error_of (gr_response res)")
    case (Some e)
    then show ?thesis using c(2,3) by (cases e) (simp_all add: error_total_def)
  qed (use c in \<open>simp add: error_total_def\<close>)
  then show ?thesis using c by simp
qed

section \<open>Recording\<close>

lemma plain_response:
  "plain_json d \<Longrightarrow> plain_json (response_js (ApiErr e (Some d)))"
  by (simp add: response_js_def proto_def)

lemma serialize_response:
  assumes "plain_json d"
  shows "stableSerialize (response_js (ApiErr e (Some d))) = Inr (Some (json_text (canonicalize (response_js (ApiErr e (Some d))))))"
  unfolding stableSerialize_def by (rule stringify_json [OF canonicalize_json [OF plain_response [OF assms]]])

lemma canonical_response_record: "isRecord (canonicalize (response_js r))"
  by (cases r) (simp_all add: response_js_def)

text \<open>What a replay makes of the record of a refused call.\<close>

lemma replay_refused:
  assumes "host_env H" and "plain_json d"
  shows "apiInvokeResponseFromHttp H 0 (json_text (canonicalize (response_js (ApiErr e (Some d)))))
    = ApiErr ProviderError (Some (canonicalize (response_js (ApiErr e (Some d)))))"
  using json_codec.parse_text [OF host_env.axioms(1) [OF assms(1)] canonicalize_json [OF plain_response [OF assms(2)]]]
    canonical_response_record [of "ApiErr e (Some d)"]
  by (simp add: apiInvokeResponseFromHttp_def gw_parseJson_def)

lemma http_errors: "error_of (apiInvokeResponseFromHttp H st raw) \<in> {None, Some ProviderError}"
  by (simp add: apiInvokeResponseFromHttp_def Let_def error_of_def)

lemma invoke_live_errors:
  assumes "invoke_live H W E url i env g = (Inr res, g')"
  shows "error_of (gr_response res) \<in> {None, Some ProviderError}"
proof (cases "ce_fetch E url env")
  case (Inl m)
  then show ?thesis
    using assms by (auto simp: invoke_live_def Let_def error_of_def dest: recordAndReturn_counted(2))
next
  case (Inr p)
  obtain x g1 where d: "do_record W \<lparr>wr_requestId = ge_requestId env, wr_fingerprint = ge_fingerprint env, wr_mode = Live,
      wr_kind = ai_kind i, wr_gameId = di_gameId i, wr_runId = di_runId i,
      wr_rawOutbound = ge_rawOutbound env, wr_rawInbound = snd p, wr_statusCode = fst p,
      wr_error = error_of (apiInvokeResponseFromHttp H (fst p) (snd p)), wr_recordedAt = ce_iso E\<rparr> g = (x, g1)" by fastforce
  show ?thesis
  proof (cases x)
    case Inl
    then show ?thesis using assms Inr d
      by (auto simp: invoke_live_def Let_def error_of_def split_def dest: recordAndReturn_counted(2))
  next
    case (Inr u)
    then have "gr_response res = apiInvokeResponseFromHttp H (fst p) (snd p)"
      using assms \<open>ce_fetch E url env = Inr p\<close> d by (auto simp: invoke_live_def Let_def split_def)
    then show ?thesis using http_errors by simp
  qed
qed

context wire_store
begin

lemma do_record_run:
  assumes "inv (gw_records g)"
  obtains g' where "do_record ops r g = (Inr (), g')" "inv (gw_records g')"
    "view (gw_records g') = (if wr_fingerprint r \<in> pinned (gw_records g) then view (gw_records g)
       else (view (gw_records g))(wr_fingerprint r \<mapsto> r))"
proof -
  obtain x s where w: "wo_record ops r (gw_records g) = (x, s)" by fastforce
  show ?thesis using record_view [OF assms w] that [of "g\<lparr>gw_records := s\<rparr>"] w by (simp add: do_record_def)
qed

lemma recordAndReturn_run:
  assumes "inv (gw_records g)" and "plain_json d"
  obtains res g' where "recordAndReturn ops E i env m st e d g = (Inr res, g')" "inv (gw_records g')"
    "gr_response res = ApiErr e (Some d)"
    "ge_fingerprint env \<notin> pinned (gw_records g) \<Longrightarrow> \<exists>r. view (gw_records g') (ge_fingerprint env) = Some r
      \<and> wr_statusCode r = st \<and> wr_rawInbound r = json_text (canonicalize (response_js (ApiErr e (Some d))))"
proof -
  let ?r = "\<lparr>wr_requestId = ge_requestId env, wr_fingerprint = ge_fingerprint env, wr_mode = m,
      wr_kind = ai_kind i, wr_gameId = di_gameId i, wr_runId = di_runId i,
      wr_rawOutbound = ge_rawOutbound env, wr_rawInbound = json_text (canonicalize (response_js (ApiErr e (Some d)))),
      wr_statusCode = st, wr_error = Some e, wr_recordedAt = ce_iso E\<rparr>"
  have "gw_records (recordMetrics (ApiErr e (Some d)) g) = gw_records g" by (simp add: recordMetrics_def)
  then obtain g' where "do_record ops ?r (recordMetrics (ApiErr e (Some d)) g) = (Inr (), g')" "inv (gw_records g')"
    "view (gw_records g') = (if wr_fingerprint ?r \<in> pinned (gw_records g) then view (gw_records g)
       else (view (gw_records g))(wr_fingerprint ?r \<mapsto> ?r))"
    using do_record_run [of "recordMetrics (ApiErr e (Some d)) g" ?r] assms(1) by metis
  then show ?thesis
    using that [of "\<lparr>gr_response = ApiErr e (Some d), gr_wireRecord = Some ?r\<rparr>" g'] serialize_response [OF assms(2), of e]
    by (simp add: recordAndReturn_def default_text_def Let_def)
qed

lemma invoke_replay_run:
  assumes "inv (gw_records g)" and "view (gw_records g) (ge_fingerprint env) = Some r"
  obtains res g' where "invoke_replay H ops E i env g = (Inr res, g')"
    "gr_response res = apiInvokeResponseFromHttp H (wr_statusCode r) (wr_rawInbound r)"
proof -
  obtain x s where l: "wo_lookup ops (ge_fingerprint env) (gw_records g) = (x, s)" by fastforce
  have x: "x = Inr (Some r)" and s: "inv s" using lookup_view [OF assms(1) l] assms(2) by simp_all
  let ?r = "r\<lparr>wr_mode := Replay, wr_requestId := ge_requestId env, wr_kind := ai_kind i,
      wr_gameId := di_gameId i, wr_runId := di_runId i, wr_rawOutbound := ge_rawOutbound env,
      wr_recordedAt := ce_iso E\<rparr>"
  obtain g1 where "do_record ops ?r (g\<lparr>gw_records := s\<rparr>) = (Inr (), g1)"
    using do_record_run [of "g\<lparr>gw_records := s\<rparr>" ?r] s by auto
  then show ?thesis using that l x by (simp add: invoke_replay_def Let_def)
qed

text \<open>A replay of a call whose fingerprint has a record.\<close>

lemma invoke_recorded:
  assumes "inv (gw_records g)" and "buildGatewayEnvelope H (ce_uuid E) j Replay = Inr env" and "invoke_mode j g = Replay"
    and "view (gw_records g) (ge_fingerprint env) = Some r" and "ce_url E = Inr found"
  shows "\<exists>res g'. invokeWithMetrics H ops E j g = (Inr res, g')
    \<and> (error_of (gr_response res) \<in> {Some ApiRateExceeded, Some KindUnknown}
       \<or> gr_response res = apiInvokeResponseFromHttp H (wr_statusCode r) (wr_rawInbound r))"
proof -
  let ?g1 = "g\<lparr>gw_invocationsTotal := gw_invocationsTotal g + 1\<rparr>"
  obtain dec bu where c: "checkAndRecord (di_gameId j) (ce_now E) (gw_budget g) = (dec, bu)" by fastforce
  let ?g = "?g1\<lparr>gw_budget := bu\<rparr>"
  have m: "invoke_mode j ?g1 = Replay" using assms(3) by (simp add: invoke_mode_def split: if_splits)
  have i: "inv (gw_records ?g)" using assms(1) by simp
  have refused: ?thesis if "invokeWithMetrics H ops E j g = recordAndReturn ops E j env Replay 0 e d ?g"
    "plain_json d" "e \<in> {ApiRateExceeded, KindUnknown}" for e d
    by (rule recordAndReturn_run [OF i that(2), of E j env Replay 0 e]) (use that in \<open>auto simp: error_of_def\<close>)
  have run: "invokeWithMetrics H ops E j g =
     (if \<not> rd_ok dec
      then recordAndReturn ops E j env Replay 0 ApiRateExceeded
             (JObj [(''currentUsage'', JNum (rd_currentUsage dec)), (''limit'', JNum (rd_limit dec)),
                    (''windowMs'', JNum (rd_windowMs dec))]) ?g
      else case truthy found of
             None \<Rightarrow> recordAndReturn ops E j env Replay 0 KindUnknown (JObj [(''kind'', JStr (ai_kind j))]) ?g
           | Some url \<Rightarrow> invoke_replay H ops E j env ?g)"
    using assms(2,5) by (simp add: invokeWithMetrics_def Let_def m c cong: option.case_cong)
  show ?thesis
  proof (cases "rd_ok dec")
    case False
    then show ?thesis by (intro refused) (auto simp: run proto_def)
  next
    case ok: True
    show ?thesis
    proof (cases "truthy found")
      case None
      then show ?thesis using ok by (intro refused) (auto simp: run proto_def)
    next
      case (Some url)
      have "view (gw_records ?g) (ge_fingerprint env) = Some r" using assms(4) by simp
      from invoke_replay_run [OF i this, of H E j] obtain res g' where "invoke_replay H ops E j env ?g = (Inr res, g')"
        "gr_response res = apiInvokeResponseFromHttp H (wr_statusCode r) (wr_rawInbound r)" by blast
      then show ?thesis using ok Some by (auto simp: run)
    qed
  qed
qed

lemma live_recorded:
  assumes "inv (gw_records g)" and "invokeWithMetrics H ops E i g = (Inr res, g')" and "invoke_mode i g = Live"
    and "\<And>url env. \<exists>p. ce_fetch E url env = Inr p"
    and "error_of (gr_response res) \<notin> {Some ApiRateExceeded, Some KindUnknown}"
  obtains env r where "buildGatewayEnvelope H (ce_uuid E) i Live = Inr env" "inv (gw_records g')"
    "gr_response res = apiInvokeResponseFromHttp H (wr_statusCode r) (wr_rawInbound r)"
    "ge_fingerprint env \<notin> pinned (gw_records g) \<Longrightarrow> view (gw_records g') (ge_fingerprint env) = Some r"
  using assms(2)
proof (cases rule: invokeWithMetrics_cases)
  case (refused env b e detail)
  then show ?thesis using recordAndReturn_counted(2) [OF refused(4)] assms(5) by (auto simp: error_of_def)
next
  case (replay env b)
  then show ?thesis using assms(3) by simp
next
  case (live env b url)
  let ?g = "g\<lparr>gw_invocationsTotal := gw_invocationsTotal g + 1, gw_budget := b\<rparr>"
  obtain status raw where f: "ce_fetch E url env = Inr (status, raw)" using assms(4) [of url env] by auto
  let ?r = "\<lparr>wr_requestId = ge_requestId env, wr_fingerprint = ge_fingerprint env, wr_mode = Live,
      wr_kind = ai_kind i, wr_gameId = di_gameId i, wr_runId = di_runId i,
      wr_rawOutbound = ge_rawOutbound env, wr_rawInbound = raw, wr_statusCode = status,
      wr_error = error_of (apiInvokeResponseFromHttp H status raw), wr_recordedAt = ce_iso E\<rparr>"
  have rm: "gw_records (recordMetrics x h) = gw_records h" for x and h :: "'a ApiGateway"
    by (simp add: recordMetrics_def split: ApiInvokeResponse.splits)
  obtain g1 where "do_record ops ?r ?g = (Inr (), g1)" "inv (gw_records g1)"
    "view (gw_records g1) = (if wr_fingerprint ?r \<in> pinned (gw_records ?g) then view (gw_records ?g)
       else (view (gw_records ?g))(wr_fingerprint ?r \<mapsto> ?r))"
    using do_record_run [of ?g ?r] assms(1) by auto
  then show ?thesis
    using that [of env ?r] live f by (auto simp: invoke_live_def Let_def rm)
qed

text \<open>A call that ends in one of the gateway's own errors leaves that answer as the record.\<close>

lemma refused_recorded:
  assumes "inv (gw_records g)" and "invokeWithMetrics H ops E i g = (Inr res, g')"
    and "error_of (gr_response res) \<in> {Some ApiRateExceeded, Some KindUnknown, Some ReplayCoverageGap}"
  obtains env e d where "buildGatewayEnvelope H (ce_uuid E) i (invoke_mode i g) = Inr env" "inv (gw_records g')"
    "gr_response res = ApiErr e (Some d)" "plain_json d"
    "ge_fingerprint env \<notin> pinned (gw_records g) \<Longrightarrow> \<exists>r. view (gw_records g') (ge_fingerprint env) = Some r
       \<and> wr_statusCode r = 0 \<and> wr_rawInbound r = json_text (canonicalize (response_js (ApiErr e (Some d))))"
  using assms(2)
proof (cases rule: invokeWithMetrics_cases)
  case (refused env b e d)
  let ?g = "g\<lparr>gw_invocationsTotal := gw_invocationsTotal g + 1, gw_budget := b\<rparr>"
  have "inv (gw_records ?g)" using assms(1) by simp
  then obtain res1 g1 where run: "recordAndReturn ops E i env (invoke_mode i g) 0 e d ?g = (Inr res1, g1)"
    and r1: "inv (gw_records g1)" "gr_response res1 = ApiErr e (Some d)"
      "ge_fingerprint env \<notin> pinned (gw_records ?g) \<Longrightarrow> \<exists>r. view (gw_records g1) (ge_fingerprint env) = Some r
         \<and> wr_statusCode r = 0 \<and> wr_rawInbound r = json_text (canonicalize (response_js (ApiErr e (Some d))))"
    by (rule recordAndReturn_run [OF _ refused(3), of ?g E i env "invoke_mode i g" 0 e]) blast
  have "res1 = res" "g1 = g'" using run refused(4) by simp_all
  then show ?thesis using that [OF refused(1) _ _ refused(3)] r1 by auto
next
  case (replay env b)
  let ?g = "g\<lparr>gw_invocationsTotal := gw_invocationsTotal g + 1, gw_budget := b\<rparr>"
  have i: "inv (gw_records ?g)" using assms(1) by simp
  show ?thesis
  proof (cases "view (gw_records ?g) (ge_fingerprint env)")
    case (Some r)
    obtain res1 g1 where "invoke_replay H ops E i env ?g = (Inr res1, g1)"
      "gr_response res1 = apiInvokeResponseFromHttp H (wr_statusCode r) (wr_rawInbound r)"
      by (rule invoke_replay_run [OF i Some])
    then show ?thesis using replay(3) http_errors [of H "wr_statusCode r" "wr_rawInbound r"] assms(3) by auto
  next
    case None
    let ?d = "JObj [(''fingerprint'', JStr (ge_fingerprint env))]"
    obtain x s where l: "wo_lookup ops (ge_fingerprint env) (gw_records ?g) = (x, s)" by fastforce
    note v = lookup_view [OF i l]
    have d: "plain_json ?d" by (simp add: proto_def)
    have i2: "inv (gw_records (?g\<lparr>gw_records := s\<rparr>))" using v by simp
    then obtain res1 g1 where run: "recordAndReturn ops E i env Replay 0 ReplayCoverageGap ?d (?g\<lparr>gw_records := s\<rparr>) = (Inr res1, g1)"
      and r1: "inv (gw_records g1)" "gr_response res1 = ApiErr ReplayCoverageGap (Some ?d)"
        "ge_fingerprint env \<notin> pinned (gw_records (?g\<lparr>gw_records := s\<rparr>)) \<Longrightarrow> \<exists>r. view (gw_records g1) (ge_fingerprint env) = Some r
           \<and> wr_statusCode r = 0 \<and> wr_rawInbound r = json_text (canonicalize (response_js (ApiErr ReplayCoverageGap (Some ?d))))"
      by (rule recordAndReturn_run [OF _ d, of "?g\<lparr>gw_records := s\<rparr>" E i env Replay 0 ReplayCoverageGap]) blast
    have "invoke_replay H ops E i env ?g = (Inr res1, g1)" using l v None run by (simp add: invoke_replay_def)
    then have "res1 = res" "g1 = g'" using replay(3) by simp_all
    then show ?thesis using that [OF replay(1) _ _ d] r1 v by auto
  qed
next
  case (live env b url)
  then show ?thesis using invoke_live_errors [OF live(3)] assms(3) by auto
qed

end

section \<open>Replay\<close>


text \<open>
  The record of a refused call takes the place of the provider's answer. Once a call has been
  refused for its rate, for an unknown kind or, in a replay, for want of a record, a later replay
  of the same call that is not itself refused answers \<^verbatim>\<open>providerError\<close>, with the refusal as its
  detail, even if the provider's answer had been recorded before.
\<close>

theorem refusal_replaces_record:
  assumes "host_env H" and "jl_inv H (gw_records g)"
    and "invokeWithMetrics H (jsonl_ops H) E i g = (Inr res, g1)"
    and "error_of (gr_response res) \<in> {Some ApiRateExceeded, Some KindUnknown, Some ReplayCoverageGap}"
    and "plain_json (ai_args i)" and "plain_json (ai_args j)" and "ai_kind j = ai_kind i" and "js_eq (ai_args i) (ai_args j)"
    and "gw_records g2 = gw_records g1" and "invoke_mode j g2 = Replay"
    and "buildGatewayEnvelope H (ce_uuid E') j Replay = Inr env'" and "ce_url E' = Inr found"
  shows "\<exists>res' g3. invokeWithMetrics H (jsonl_ops H) E' j g2 = (Inr res', g3)
    \<and> (error_of (gr_response res') \<in> {Some ApiRateExceeded, Some KindUnknown}
       \<or> gr_response res' = ApiErr ProviderError (Some (canonicalize (response_js (gr_response res)))))"
proof -
  note W = jsonl_wire_store [OF assms(1)]
  obtain env e d where e: "buildGatewayEnvelope H (ce_uuid E) i (invoke_mode i g) = Inr env" "jl_inv H (gw_records g1)"
    "gr_response res = ApiErr e (Some d)" "plain_json d"
    and "\<exists>r. jl_view H (gw_records g1) (ge_fingerprint env) = Some r
       \<and> wr_statusCode r = 0 \<and> wr_rawInbound r = json_text (canonicalize (response_js (ApiErr e (Some d))))"
    by (rule wire_store.refused_recorded [OF W assms(2-4)]) simp
  then obtain r where r: "jl_view H (gw_records g1) (ge_fingerprint env) = Some r" "wr_statusCode r = 0"
    "wr_rawInbound r = json_text (canonicalize (response_js (ApiErr e (Some d))))" by blast
  have "ge_fingerprint env' = ge_fingerprint env"
    using host_env.fingerprint_iff [OF assms(1) e(1) assms(11) assms(5,6)] assms(7,8) by simp
  then show ?thesis
    using wire_store.invoke_recorded [OF W, of g2 H E' j env' r found] e r assms(9-12) replay_refused [OF assms(1) e(4), of e] by simp
qed

section \<open>Runs\<close>

definition budget1 :: "int \<Rightarrow> SlidingWindowApiInvocationBudget" where
  "budget1 n = \<lparr>ab_hitsByGameId = [], ab_limitPerMinute = n, ab_windowMs = 60000\<rparr>"

definition gateway0 :: "int \<Rightarrow> WireMode \<Rightarrow> JsonlWireRecordStore ApiGateway" where
  "gateway0 n mode = new_gateway (budget1 n) \<lparr>jl_records = [], jl_loaded = False, jl_file = None\<rparr> mode None"

definition raw7 :: string where
  "raw7 = json_text (JObj [(''result'', JNum 7)])"

definition env_of :: "string \<Rightarrow> call_env" where
  "env_of uuid = \<lparr>ce_now = 1000, ce_uuid = uuid, ce_iso = ''t'', ce_url = Inr (Some ''http://p''),
     ce_fetch = (\<lambda>u e. Inr (200, raw7))\<rparr>"

lemma gateway0_inv: "jl_inv H (gw_records (gateway0 n mode))"
  by (auto simp: jl_inv_def gateway0_def new_gateway_def intro: exI [of _ "[]"])

lemma fetch0: "apiInvokeResponseFromHttp plain_host 200 raw7 = ApiOk (JNum 7)"
proof -
  have "host_parse plain_host raw7 = Some (JObj [(''result'', JNum 7)])"
    unfolding raw7_def by (rule plain_host.parse_text) simp
  then show ?thesis by (simp add: apiInvokeResponseFromHttp_def gw_parseJson_def map_has_def)
qed

lemma live0:
  assumes "plain_json args"
  obtains g' res where "invokeWithMetrics plain_host (jsonl_ops plain_host) (env_of u) (call_of args) (gateway0 1 Live) = (Inr res, g')"
    "gr_response res = ApiOk (JNum 7)"
proof -
  obtain e where b: "buildGatewayEnvelope plain_host u (call_of args) Live = Inr e" by (rule build_call_of [OF assms])
  let ?g = "(gateway0 1 Live)\<lparr>gw_invocationsTotal := 1, gw_budget := (budget1 1)\<lparr>ab_hitsByGameId := [(''g1'', [1000])]\<rparr>\<rparr>"
  have c: "checkAndRecord ''g1'' 1000 (budget1 1)
      = (\<lparr>rd_ok = True, rd_currentUsage = 1, rd_limit = 1, rd_windowMs = 60000\<rparr>, (budget1 1)\<lparr>ab_hitsByGameId := [(''g1'', [1000])]\<rparr>)"
    by (simp add: checkAndRecord_def budget1_def)
  have r: "invokeWithMetrics plain_host (jsonl_ops plain_host) (env_of u) (call_of args) (gateway0 1 Live)
      = invoke_live plain_host (jsonl_ops plain_host) (env_of u) ''http://p'' (call_of args) e ?g"
    by (simp add: invokeWithMetrics_def Let_def invoke_mode_def gateway0_def new_gateway_def env_of_def b c)
  have "jl_inv plain_host (gw_records ?g)" using gateway0_inv [of plain_host 1 Live] by simp
  then have "\<exists>g'. do_record (jsonl_ops plain_host) w ?g = (Inr (), g')" for w
    using jsonl.do_record_run [of ?g w] by blast
  then obtain G where "\<And>w. do_record (jsonl_ops plain_host) w ?g = (Inr (), G w)" by metis
  then show ?thesis using that r by (simp add: invoke_live_def env_of_def Let_def fetch0)
qed

abbreviation args1 :: js where
  "args1 \<equiv> JObj [(''a'', JNum 1), (''b'', JNull)]"

abbreviation args2 :: js where
  "args2 \<equiv> JObj [(''b'', JNull), (''a'', JNum 1)]"

lemma args_plain: "plain_json args1" "plain_json args2" "js_eq args1 args2"
  by (auto simp: proto_def)

theorem every_call_counted_witness:
  "\<exists>res g'. invokeWithMetrics plain_host (jsonl_ops plain_host) (env_of ''r1'') (call_of args1) (gateway0 1 Live) = (Inr res, g')
    \<and> gw_invocationsTotal g' = 1 \<and> gw_okTotal g' = 1"
proof -
  obtain g' res where r: "invokeWithMetrics plain_host (jsonl_ops plain_host) (env_of ''r1'') (call_of args1) (gateway0 1 Live) = (Inr res, g')"
    "gr_response res = ApiOk (JNum 7)" by (rule live0 [OF args_plain(1)])
  from every_call_counted [OF r(1)] r show ?thesis by (auto simp: error_of_def gateway0_def new_gateway_def)
qed


lemma refused0:
  assumes "plain_json args"
  obtains g' res where "invokeWithMetrics plain_host (jsonl_ops plain_host) (env_of u) (call_of args)
      ((gateway0 1 Live)\<lparr>gw_budget := (budget1 1)\<lparr>ab_hitsByGameId := [(''g1'', [999])]\<rparr>\<rparr>) = (Inr res, g')"
    "error_of (gr_response res) = Some ApiRateExceeded"
proof -
  let ?b = "(budget1 1)\<lparr>ab_hitsByGameId := [(''g1'', [999])]\<rparr>"
  let ?d = "JObj [(''currentUsage'', JNum 1), (''limit'', JNum 1), (''windowMs'', JNum 60000)]"
  let ?g = "(gateway0 1 Live)\<lparr>gw_invocationsTotal := 1, gw_budget := ?b\<rparr>"
  obtain e where b: "buildGatewayEnvelope plain_host u (call_of args) Live = Inr e" by (rule build_call_of [OF assms])
  have c: "checkAndRecord ''g1'' 1000 ?b
      = (\<lparr>rd_ok = False, rd_currentUsage = 1, rd_limit = 1, rd_windowMs = 60000\<rparr>, ?b)"
    by (simp add: checkAndRecord_def budget1_def)
  have r: "invokeWithMetrics plain_host (jsonl_ops plain_host) (env_of u) (call_of args) ((gateway0 1 Live)\<lparr>gw_budget := ?b\<rparr>)
      = recordAndReturn (jsonl_ops plain_host) (env_of u) (call_of args) e Live 0 ApiRateExceeded ?d ?g"
    by (simp add: invokeWithMetrics_def Let_def invoke_mode_def gateway0_def new_gateway_def env_of_def b c)
  have i: "jl_inv plain_host (gw_records ?g)" using gateway0_inv [of plain_host 1 Live] by simp
  have d: "plain_json ?d" by (simp add: proto_def)
  show ?thesis
    by (rule jsonl.recordAndReturn_run [OF i d, of "env_of u" "call_of args" e Live 0 ApiRateExceeded])
      (use that r in \<open>auto simp: error_of_def\<close>)
qed

theorem refusal_replaces_record_witness:
  "\<exists>res g1 res' g3.
     invokeWithMetrics plain_host (jsonl_ops plain_host) (env_of ''r1'') (call_of args1)
       ((gateway0 1 Live)\<lparr>gw_budget := (budget1 1)\<lparr>ab_hitsByGameId := [(''g1'', [999])]\<rparr>\<rparr>) = (Inr res, g1)
     \<and> invokeWithMetrics plain_host (jsonl_ops plain_host) (env_of ''r2'') (call_of args2)
         (g1\<lparr>gw_defaultMode := Replay, gw_budget := budget1 1\<rparr>) = (Inr res', g3)
     \<and> (error_of (gr_response res') \<in> {Some ApiRateExceeded, Some KindUnknown}
        \<or> gr_response res' = ApiErr ProviderError (Some (canonicalize (response_js (gr_response res)))))"
proof -
  let ?g = "(gateway0 1 Live)\<lparr>gw_budget := (budget1 1)\<lparr>ab_hitsByGameId := [(''g1'', [999])]\<rparr>\<rparr>"
  obtain g1 res where r: "invokeWithMetrics plain_host (jsonl_ops plain_host) (env_of ''r1'') (call_of args1) ?g = (Inr res, g1)"
    "error_of (gr_response res) = Some ApiRateExceeded" by (rule refused0 [OF args_plain(1)])
  obtain e where b: "buildGatewayEnvelope plain_host ''r2'' (call_of args2) Replay = Inr e" by (rule build_call_of [OF args_plain(2)])
  let ?g2 = "g1\<lparr>gw_defaultMode := Replay, gw_budget := budget1 1\<rparr>"
  have "\<exists>res' g3. invokeWithMetrics plain_host (jsonl_ops plain_host) (env_of ''r2'') (call_of args2) ?g2 = (Inr res', g3)
    \<and> (error_of (gr_response res') \<in> {Some ApiRateExceeded, Some KindUnknown}
       \<or> gr_response res' = ApiErr ProviderError (Some (canonicalize (response_js (gr_response res)))))"
  proof (rule refusal_replaces_record [OF plain_host.host_env_axioms _ r(1)])
    show "jl_inv plain_host (gw_records ?g)" using gateway0_inv [of plain_host 1 Live] by simp
    show "error_of (gr_response res) \<in> {Some ApiRateExceeded, Some KindUnknown, Some ReplayCoverageGap}" using r(2) by simp
    show "buildGatewayEnvelope plain_host (ce_uuid (env_of ''r2'')) (call_of args2) Replay = Inr e" using b by (simp add: env_of_def)
    show "ce_url (env_of ''r2'') = Inr (Some ''http://p'')" by (simp add: env_of_def)
    show "plain_json (ai_args (call_of args1))" "plain_json (ai_args (call_of args2))"
      "js_eq (ai_args (call_of args1)) (ai_args (call_of args2))" using args_plain by simp_all
  qed (simp_all add: invoke_mode_def)
  then show ?thesis using r by auto
qed

text \<open>
  A lookup that arrives while the file is being read finds the store marked as loaded and
  empty, although the file holds the record.
\<close>

lemma lookup_during_load:
  assumes "jl_records s = []" and "\<not> jl_loaded s" and "load_begin s = (t, s1)"
  shows "jl_lookup H fp s1 = (Inr None, s1)"
  using assms by (auto simp: load_begin_def jl_lookup_def)

section \<open>Kinds\<close>

text \<open>
  The registry lists exactly the kinds it serves: each kind once, and with the URL to which a
  call of that kind is dispatched, whether the kind was registered by an operator in Redis or
  comes with the gateway; an operator's registration comes first.
\<close>

theorem listed_kinds_are_served:
  assumes "redis_db R" and "host_env H" and "registry_ok R d" and "map_wf fallback"
  shows "\<exists>rs. registry_list H R fallback d = Inr rs \<and> distinct (map ak_kindName rs)
    \<and> (\<forall>k u. registry_get H R fallback d k = Inr (Some u) \<longleftrightarrow> (\<exists>r \<in> set rs. ak_kindName r = k \<and> ak_url r = u))"
  by (rule redis_db.list_agrees [OF assms])

theorem listed_kinds_are_served_witness:
  "\<exists>d rs. registry_set (\<lambda>u. Inr ''http:'') mr_ops 5 \<lparr>ak_kindName = ''ai.v1'', ak_url = ''u'', ak_registeredAt = None\<rparr> mr_empty = (Inr (), d)
    \<and> registry_list plain_host mr_ops [(''echo.v1'', ''e'')] d = Inr rs
    \<and> (\<exists>r \<in> set rs. ak_kindName r = ''ai.v1'' \<and> ak_url r = ''u'') \<and> (\<exists>r \<in> set rs. ak_kindName r = ''echo.v1'' \<and> ak_url r = ''e'')"
proof -
  let ?r = "\<lparr>ak_kindName = ''ai.v1'', ak_url = ''u'', ak_registeredAt = None\<rparr>"
  have "assertApiKindRegistration (\<lambda>u. Inr ''http:'') ?r = Inr ()" by code_simp
  then obtain d where d: "registry_set (\<lambda>u. Inr ''http:'') mr_ops 5 ?r mr_empty = (Inr (), d)"
    and g: "rd_get mr_ops d = [kind_key ''ai.v1'' \<mapsto> json_text (registration_js (?r\<lparr>ak_registeredAt := Some 5\<rparr>))]"
    by (auto simp: registry_set_def mr.get_set) (simp add: mr_ops_def mr_empty_def mr_put_def)
  have "registry_ok mr_ops mr_empty" by (simp add: registry_ok_def mr_ops_def mr_empty_def)
  note ok = mr.registry_set_ok [OF d this]
  obtain rs where rs: "registry_list plain_host mr_ops [(''echo.v1'', ''e'')] d = Inr rs"
    "\<And>k u. registry_get plain_host mr_ops [(''echo.v1'', ''e'')] d k = Inr (Some u) \<longleftrightarrow> (\<exists>r \<in> set rs. ak_kindName r = k \<and> ak_url r = u)"
    using listed_kinds_are_served [OF mr.redis_db_axioms plain_host.host_env_axioms ok, of "[(''echo.v1'', ''e'')]"] by auto
  have "getJson plain_host mr_ops d (kind_key ''ai.v1'') = Inr (Some (registration_js (?r\<lparr>ak_registeredAt := Some 5\<rparr>)))"
    by (rule getJson_text [OF plain_host.host_env_axioms]) (simp_all add: g)
  then have "registry_get plain_host mr_ops [(''echo.v1'', ''e'')] d ''ai.v1'' = Inr (Some ''u'')"
    by (simp add: registry_get_def)
  moreover have "registry_get plain_host mr_ops [(''echo.v1'', ''e'')] d ''echo.v1'' = Inr (Some ''e'')"
    by (simp add: registry_get_def getJson_def g memory_get_def)
  ultimately show ?thesis using d rs by blast
qed

end
