(* ===== verification/GatewayServices.thy ===== *)
theory GatewayServices
  imports GatewayProps
begin

text \<open>
  The gateway and its reference services together: a live call whose kind is one of the catalog
  goes out through the registry to the gateway's own service route and comes back. \<open>loopback\<close> is
  the network between the two: it hands the POST of the dispatch to \<^verbatim>\<open>handleRequest\<close> and returns
  what \<^verbatim>\<open>writeJson\<close> writes.
\<close>

definition loopback ::
  "'r WireRecordStore \<Rightarrow> 'd gateway_deps \<Rightarrow> string \<Rightarrow> ReferenceServiceMetrics js_map \<Rightarrow> 'd \<times> 'r ApiGateway
   \<Rightarrow> string \<Rightarrow> BuiltGatewayEnvelope \<Rightarrow> string + int \<times> string" where
  "loopback W D baseUrl m st u env =
     (case fst (handleRequest W D
         \<lparr>rq_method = ''POST'', rq_path = drop (length (strip_slashes baseUrl)) u, rq_body = ge_rawOutbound env,
          rq_envelopeVersion = map_get (ge_headers env) ''x-gateway-envelope-version''\<rparr> m st) of
        JsonResponse status body \<Rightarrow>
          (case stringify body of Inr t \<Rightarrow> Inr (status, default_text t) | Inl e \<Rightarrow> Inl e)
      | TextResponse status t \<Rightarrow> Inr (status, t))"

section \<open>Canonical objects\<close>

lemma map_of_normal_fields:
  assumes "distinct (map fst fs)"
  shows "map_of (normal_fields fs) = map_of fs"
proof -
  have "distinct (normal_fields fs)"
    using assms by (auto simp: normal_fields_def object_order_def distinct_map)
  then have d: "distinct (map fst (normal_fields fs))" using assms by (simp add: distinct_map)
  show ?thesis
  proof
    fix k show "map_of (normal_fields fs) k = map_of fs k"
      using map_of_eq_Some_iff [OF d] map_of_eq_Some_iff [OF assms] by (metis not_Some_eq set_normal_fields)
  qed
qed

lemma js_get_canonicalize:
  assumes "plain_json (JObj fs)"
  shows "js_get (canonicalize (JObj fs)) k = canonicalize (js_get (JObj fs) k)"
proof -
  have "distinct (map fst (map (\<lambda>(k, x). (k, canonicalize x)) fs))" using assms by (simp add: comp_def split_def)
  then show ?thesis
    unfolding canonicalize_obj [OF assms] by (simp add: map_of_normal_fields map_of_map split: option.split)
qed

lemma canonicalize_JObj: "\<exists>gs. canonicalize (JObj fs) = JObj gs"
  by simp

lemma js_eq_canonicalize: "plain_json v \<Longrightarrow> js_eq v (canonicalize v)"
proof (induction v)
  case (JArr xs)
  then show ?case by (auto simp: list_all2_conv_all_nth list_all_length)
next
  case (JObj fs)
  have d: "distinct (map fst fs)" using JObj.prems by simp
  have "js_eq x (canonicalize x)" if "(k, x) \<in> set fs" for k x
    using JObj.IH [OF that] JObj.prems that by (auto simp: snds.simps list_all_iff)
  then have "js_eq x (canonicalize y)" if "(k, x) \<in> set fs" "(k, y) \<in> set fs" for k x y
    using that eq_key_imp_eq_value [OF d] by metis
  then show ?case unfolding canonicalize_obj [OF JObj.prems] by (fastforce simp: image_image split_def)
qed simp_all

section \<open>A call of a service\<close>

definition plain_input :: "ApiGatewayDispatchInput \<Rightarrow> bool" where
  "plain_input i \<longleftrightarrow> plain_json (ai_args i)
     \<and> (case di_triggeringJwtClaims i of None \<Rightarrow> True | Some fs \<Rightarrow> plain_json (JObj fs))"

lemma plain_str_or_null: "plain_json (str_or_null x)"
  by (simp add: str_or_null_def split: option.split)

lemma plain_body:
  assumes "plain_json (gb_args b)" and "case gc_triggeringJwtClaims (gb_context b) of None \<Rightarrow> True | Some fs \<Rightarrow> plain_json (JObj fs)"
  shows "plain_json (body_js b)"
  using assms by (auto simp: body_js_def context_js_def session_js_def proto_def plain_str_or_null list_all_iff split: option.splits)

text \<open>What the service route reads from an envelope of the dispatch.\<close>

lemma envelope_read:
  assumes H: "host_env H" and b: "buildGatewayEnvelope H u i mode = Inr env" and p: "plain_input i"
  shows "map_get (ge_headers env) ''x-gateway-envelope-version'' = Some (dec_int GATEWAY_ENVELOPE_VERSION)"
    and "\<exists>c. sum_bind (readJson H (ge_rawOutbound env)) asGatewayHttpRequest = Inr (canonicalize (ai_args i), c)"
proof -
  show "map_get (ge_headers env) ''x-gateway-envelope-version'' = Some (dec_int GATEWAY_ENVELOPE_VERSION)"
    using b by (auto simp: buildGatewayEnvelope_def gateway_headers_def Let_def split: sum.splits)
  let ?b = "ge_body env"
  have f: "gb_args ?b = ai_args i" "gc_triggeringJwtClaims (gb_context ?b) = di_triggeringJwtClaims i"
    using b by (auto simp: buildGatewayEnvelope_def Let_def split: sum.splits)
  then have pb: "plain_json (body_js ?b)" using p by (intro plain_body) (simp_all add: plain_input_def)
  have "ge_rawOutbound env = json_text (canonicalize (body_js ?b))"
    using b stringify_json [OF canonicalize_json [OF pb]]
    by (auto simp: buildGatewayEnvelope_def Let_def stableSerialize_def default_text_def split: sum.splits)
  moreover obtain fs where fs: "canonicalize (body_js ?b) = JObj fs" by (simp add: body_js_def)
  ultimately have r: "readJson H (ge_rawOutbound env) = Inr (JObj fs)"
    using json_codec.parse_text [OF host_env.axioms(1) [OF H] canonicalize_json [OF pb]] json_text_head [OF canonicalize_json [OF pb]]
    by (simp add: readJson_def trim_obj del: json_text.simps)
  have g: "js_get (JObj fs) k = canonicalize (js_get (body_js ?b) k)" for k
    using js_get_canonicalize pb unfolding body_js_def fs [symmetric, unfolded body_js_def] by blast
  have "js_get (JObj fs) ''args'' = canonicalize (ai_args i)" "\<exists>c. js_get (JObj fs) ''context'' = JObj c"
    unfolding g by (simp_all add: body_js_def f context_js_def)
  then show "\<exists>c. sum_bind (readJson H (ge_rawOutbound env)) asGatewayHttpRequest = Inr (canonicalize (ai_args i), c)"
    unfolding r by (auto simp: sum_bind_def asGatewayHttpRequest_def asRecord_def simp del: js_get.simps)
qed

lemma route_service:
  assumes "rq_method rq = ''POST''" and "rq_path rq = svc_pathname s" and "rq_envelopeVersion rq = Some (dec_int GATEWAY_ENVELOPE_VERSION)"
    and "sum_bind (readJson (gd_host D) (rq_body rq)) asGatewayHttpRequest = Inr (args, c)"
    and "service_handle (gd_services D) (gd_referenceServices D) s args = Inr r" and "rs_handled r"
  shows "fst (handleRequest W D rq m st) = JsonResponse (rs_statusCode r) (rs_body r)"
proof -
  have 1: "rq_path rq \<notin> {''/health'', ''/metrics'', ''/admin/api-kinds'', ''/invoke''}" "prefix services_path (rq_path rq)"
    using assms(2) by (cases s; simp add: svc_pathname_def services_path_def)+
  have 2: "sum_bind (assertGatewayEnvelopeVersion rq) (\<lambda>_. sum_bind (readJson (gd_host D) (rq_body rq)) asGatewayHttpRequest) = Inr (args, c)"
    using assms(3,4) by (simp add: sum_bind_def assertGatewayEnvelopeVersion_def)
  show ?thesis
    using 1 2 assms by (cases st) (simp add: handleRequest_def handle_known Let_def)
qed

lemma registered_service:
  assumes "memory_registry protocol (referenceKindRegistrations baseUrl) [] = Inr fallback"
  shows "memory_get fallback (svc_kindName s) = Some (strip_slashes baseUrl @ svc_pathname s)"
  using assms
  by (cases s) (auto simp: referenceKindRegistrations_def SERVICES_def memory_get_def update_conv' svc_kindName_def split: sum.splits)

lemma build_total:
  assumes "plain_input i"
  obtains env where "buildGatewayEnvelope H u i mode = Inr env"
proof -
  let ?t = "if isTraceId (di_traceId i) then di_traceId i else None"
  let ?b = "\<lparr>gb_args = ai_args i, gb_context =
            \<lparr>gc_gameId = di_gameId i, gc_traceId = ?t, gc_triggeringSessionId = di_triggeringSessionId i,
             gc_triggeringJwtClaims = di_triggeringJwtClaims i, gc_connectedSessions = di_connectedSessions i,
             gc_bundleName = di_bundleName i, gc_bundleCompatTag = di_bundleCompatTag i,
             gc_runId = di_runId i, gc_idempotencyKey = ai_idempotencyKey i\<rparr>\<rparr>"
  have "plain_json (body_js ?b)" using assms by (intro plain_body) (simp_all add: plain_input_def)
  note 1 = stringify_json [OF canonicalize_json [OF this]]
  have "plain_json (fingerprint_js i)" using assms by (intro plain_fingerprint) (simp add: plain_input_def)
  note 2 = stringify_json [OF canonicalize_json [OF this]]
  have "\<exists>env. buildGatewayEnvelope H u i mode = Inr env"
    by (simp add: buildGatewayEnvelope_def stableSerialize_def Let_def 1 2)
  then show ?thesis using that by blast
qed

definition service_call_env ::
  "'r WireRecordStore \<Rightarrow> 'd gateway_deps \<Rightarrow> string \<Rightarrow> ReferenceServiceMetrics js_map \<Rightarrow> 'd \<Rightarrow> 'r ApiGateway \<Rightarrow> string \<Rightarrow> call_env" where
  "service_call_env W D baseUrl m d g kind =
     (gd_env D)\<lparr>ce_url := registry_get (gd_host D) (gd_redis D) (gd_fallback D) d kind,
       ce_fetch := loopback W D baseUrl m (d, g)\<rparr>"

lemma record_budget [simp]: "gw_records (g\<lparr>gw_invocationsTotal := n, gw_budget := b\<rparr>) = gw_records g"
  by simp

context wire_store
begin

text \<open>The fate of a live call to a kind that has an address and a provider that answers.\<close>

lemma live_call:
  assumes "inv (gw_records g)" and "plain_input i" and "invoke_mode i g = Live"
    and "ce_url E = Inr (Some u)" and "u \<noteq> []"
    and "\<And>env. buildGatewayEnvelope H (ce_uuid E) i Live = Inr env \<Longrightarrow> ce_fetch E u env = Inr (status, raw)"
  shows "\<exists>res g'. invokeWithMetrics H ops E i g = (Inr res, g')
    \<and> (if rd_ok (fst (checkAndRecord (di_gameId i) (ce_now E) (gw_budget g)))
       then gr_response res = apiInvokeResponseFromHttp H status raw
       else error_of (gr_response res) = Some ApiRateExceeded)"
proof -
  obtain env where b: "buildGatewayEnvelope H (ce_uuid E) i Live = Inr env" by (rule build_total [OF assms(2)])
  obtain dec bu where c: "checkAndRecord (di_gameId i) (ce_now E) (gw_budget g) = (dec, bu)" by fastforce
  let ?g = "g\<lparr>gw_invocationsTotal := gw_invocationsTotal g + 1, gw_budget := bu\<rparr>"
  have m: "invoke_mode i (g\<lparr>gw_invocationsTotal := gw_invocationsTotal g + 1\<rparr>) = Live" using assms(3) by (auto simp: invoke_mode_def split: if_splits)
  have i: "inv (gw_records ?g)" using assms(1) by simp
  show ?thesis
  proof (cases "rd_ok dec")
    case True
    have "invokeWithMetrics H ops E i g = invoke_live H ops E u i env ?g"
      using True assms(4,5) by (simp add: invokeWithMetrics_def Let_def m b c truthy_def)
    moreover obtain res g' where "invoke_live H ops E u i env ?g = (Inr res, g')" "gr_response res = apiInvokeResponseFromHttp H status raw"
    proof -
      let ?r = "apiInvokeResponseFromHttp H status raw"
      let ?w = "\<lparr>wr_requestId = ge_requestId env, wr_fingerprint = ge_fingerprint env, wr_mode = Live,
          wr_kind = ai_kind i, wr_gameId = di_gameId i, wr_runId = di_runId i, wr_rawOutbound = ge_rawOutbound env,
          wr_rawInbound = raw, wr_statusCode = status, wr_error = error_of ?r, wr_recordedAt = ce_iso E\<rparr>"
      obtain g1 where g1: "do_record ops ?w ?g = (Inr (), g1)" by (rule do_record_run [OF i])
      show thesis
        by (rule that [of "\<lparr>gr_response = ?r, gr_wireRecord = Some ?w\<rparr>" "recordMetrics ?r g1"])
           (simp_all add: invoke_live_def Let_def assms(6) [OF b] g1)
    qed
    ultimately show ?thesis using True c by auto
  next
    case False
    let ?d = "JObj [(''currentUsage'', JNum (rd_currentUsage dec)), (''limit'', JNum (rd_limit dec)), (''windowMs'', JNum (rd_windowMs dec))]"
    have "plain_json ?d" by (simp add: proto_def)
    then obtain res g' where "recordAndReturn ops E i env Live 0 ApiRateExceeded ?d ?g = (Inr res, g')"
      "gr_response res = ApiErr ApiRateExceeded (Some ?d)" using recordAndReturn_run [OF i] by blast
    then show ?thesis
      using False by (intro exI [of _ res] exI [of _ g']) (simp add: invokeWithMetrics_def Let_def m b c error_of_def)
  qed
qed

text \<open>A call of a service of the catalog comes back with what the service answered.\<close>

lemma service_call:
  assumes "inv (gw_records g)" and "host_env (gd_host D)" and "plain_input i" and "invoke_mode i g = Live"
    and "memory_registry protocol (referenceKindRegistrations baseUrl) [] = Inr (gd_fallback D)"
    and "rd_get (gd_redis D) d (kind_key (svc_kindName s)) = None" and "ai_kind i = svc_kindName s"
    and "service_handle (gd_services D) (gd_referenceServices D) s (canonicalize (ai_args i)) = Inr r"
    and "rs_handled r" and "is_json (rs_body r)" and "E = service_call_env ops D baseUrl m d g (ai_kind i)"
  shows "\<exists>res g'. invokeWithMetrics (gd_host D) ops E i g = (Inr res, g')
    \<and> (if rd_ok (fst (checkAndRecord (di_gameId i) (ce_now E) (gw_budget g)))
       then gr_response res = apiInvokeResponseFromHttp (gd_host D) (rs_statusCode r) (json_text (rs_body r))
       else error_of (gr_response res) = Some ApiRateExceeded)"
proof (rule live_call [OF assms(1,3,4), where u = "strip_slashes baseUrl @ svc_pathname s"])
  show "ce_url E = Inr (Some (strip_slashes baseUrl @ svc_pathname s))"
    using assms(6,7,11) registered_service [OF assms(5)] by (simp add: service_call_env_def registry_get_def getJson_def truthy_def)
  show "strip_slashes baseUrl @ svc_pathname s \<noteq> []" by (cases s) (simp_all add: svc_pathname_def)
  fix env assume b: "buildGatewayEnvelope (gd_host D) (ce_uuid E) i Live = Inr env"
  obtain c where "sum_bind (readJson (gd_host D) (ge_rawOutbound env)) asGatewayHttpRequest = Inr (canonicalize (ai_args i), c)"
    using envelope_read(2) [OF assms(2) b assms(3)] by blast
  then show "ce_fetch E (strip_slashes baseUrl @ svc_pathname s) env = Inr (rs_statusCode r, json_text (rs_body r))"
    using envelope_read(1) [OF assms(2) b assms(3)] assms(8,9,11) stringify_json [OF assms(10)]
    by (simp add: service_call_env_def loopback_def default_text_def route_service)
qed

end

lemma result_from_http:
  assumes "host_env H" and "is_json v"
  shows "apiInvokeResponseFromHttp H 200 (json_text (JObj [(''result'', v)])) = ApiOk v"
proof -
  have "host_parse H (json_text (JObj [(''result'', v)])) = Some (JObj [(''result'', v)])"
    by (rule json_codec.parse_text [OF host_env.axioms(1) [OF assms(1)]]) (simp add: assms(2))
  then show ?thesis
    by (simp add: apiInvokeResponseFromHttp_def gw_parseJson_def map_has_def del: json_text.simps)
qed

text \<open>
  A live call of \<^verbatim>\<open>echo.v1\<close> through the whole gateway (decoded registry, envelope, POST, service
  route, router, service, response) returns the arguments of the call, up to the order of their
  fields, unless the game has used up its rate; and it always returns.
\<close>

theorem echo_round_trip:
  assumes "wire_store ops ok view pinned" and "ok (gw_records g)" and "host_env (gd_host D)" and "plain_input i"
    and "invoke_mode i g = Live" and "ai_kind i = ''echo.v1''"
    and "memory_registry protocol (referenceKindRegistrations baseUrl) [] = Inr (gd_fallback D)"
    and "rd_get (gd_redis D) d (kind_key ''echo.v1'') = None"
    and "E = service_call_env ops D baseUrl m d g ''echo.v1''"
  shows "\<exists>res g'. invokeWithMetrics (gd_host D) ops E i g = (Inr res, g')
    \<and> (if rd_ok (fst (checkAndRecord (di_gameId i) (ce_now E) (gw_budget g)))
       then \<exists>v. gr_response res = ApiOk v \<and> js_eq (ai_args i) v
       else error_of (gr_response res) = Some ApiRateExceeded)"
proof -
  have p: "plain_json (ai_args i)" using assms(4) by (simp add: plain_input_def)
  let ?r = "svc_ok (canonicalize (ai_args i))"
  have k: "svc_kindName EchoService = ''echo.v1''" by (simp add: svc_kindName_def)
  have h: "service_handle (gd_services D) (gd_referenceServices D) EchoService (canonicalize (ai_args i)) = Inr ?r"
    by (simp add: service_handle_def echo_handle_def)
  have r: "rs_handled ?r" "is_json (rs_body ?r)" "rs_statusCode ?r = 200"
    using canonicalize_json [OF p] by (simp_all add: svc_ok_def)
  have a: "apiInvokeResponseFromHttp (gd_host D) 200 (json_text (rs_body ?r)) = ApiOk (canonicalize (ai_args i))"
    using result_from_http [OF assms(3) canonicalize_json [OF p]] by (simp add: svc_ok_def)
  have e: "js_eq (ai_args i) (canonicalize (ai_args i))" by (rule js_eq_canonicalize [OF p])
  show ?thesis
    using wire_store.service_call [OF assms(1,2,3,4,5,7), of d EchoService ?r E m] assms(6,8,9) k h r a e by (auto split: if_splits)
qed

section \<open>A witness\<close>

definition deps_echo :: "mem_redis gateway_deps" where
  "deps_echo = \<lparr>gd_host = plain_host, gd_redis = mr_ops, gd_protocol = (\<lambda>u. Inr ''http:''),
     gd_fallback = map (\<lambda>s. (svc_kindName s, ''http://h'' @ svc_pathname s)) SERVICES, gd_env = env_of ''r1'',
     gd_services = no_network, gd_referenceServices = \<lparr>rc_httpFetchAllowlist = [], rc_delayMaxMs = 5\<rparr>\<rparr>"

lemma deps_echo_fallback:
  "memory_registry (\<lambda>u. Inr ''http:'') (referenceKindRegistrations ''http://h/'') [] = Inr (gd_fallback deps_echo)"
  by code_simp

definition echo_call :: ApiGatewayDispatchInput where
  "echo_call = (call_of (JObj [(''a'', JNum 1)]))\<lparr>ai_kind := ''echo.v1''\<rparr>"

theorem echo_round_trip_witness:
  "\<exists>res g' v. invokeWithMetrics plain_host (jsonl_ops plain_host)
       (service_call_env (jsonl_ops plain_host) deps_echo ''http://h/'' metricsByKindName mr_empty (gateway0 1 Live) ''echo.v1'')
       echo_call (gateway0 1 Live) = (Inr res, g')
    \<and> gr_response res = ApiOk v \<and> js_eq (JObj [(''a'', JNum 1)]) v"
proof -
  let ?E = "service_call_env (jsonl_ops plain_host) deps_echo ''http://h/'' metricsByKindName mr_empty (gateway0 1 Live) ''echo.v1''"
  have p: "plain_input echo_call" by (simp add: plain_input_def echo_call_def call_of_def proto_def)
  have f: "invoke_mode echo_call (gateway0 1 Live) = Live" "ai_kind echo_call = ''echo.v1''" "gd_host deps_echo = plain_host"
    "rd_get (gd_redis deps_echo) mr_empty (kind_key ''echo.v1'') = None" "ai_args echo_call = JObj [(''a'', JNum 1)]"
    by (simp_all add: invoke_mode_def echo_call_def call_of_def gateway0_def new_gateway_def deps_echo_def mr_ops_def mr_empty_def)
  have r: "rd_ok (fst (checkAndRecord (di_gameId echo_call) (ce_now ?E) (gw_budget (gateway0 1 Live))))"
    by (simp add: checkAndRecord_def gateway0_def new_gateway_def budget1_def Let_def)
  show ?thesis
    using echo_round_trip [OF jsonl_wire_store [OF plain_host.host_env_axioms] gateway0_inv, of deps_echo echo_call 1 Live _ "''http://h/''" mr_empty ?E metricsByKindName]
      deps_echo_fallback plain_host.host_env_axioms p f r by auto
qed

end
