(* ===== verification/ControlGames.thy ===== *)
theory ControlGames
  imports ControlProps
begin

text \<open>
  Games in the control plane: their creation, the change of their bundle, the deletion of bundles, and API
  kinds as the gateway sees them.
\<close>

section \<open>Creation\<close>

text \<open>Requests to other services do not change the database.\<close>

definition fetch_pure :: "('d, 'o, 's) control_env \<Rightarrow> bool" where
  "fetch_pure C \<longleftrightarrow> (\<forall>c d. snd (cc_fetch C c d) = d)"

lemma stored_value_pure:
  assumes "fetch_pure C" and "readOptionalStoredValue C r f u n w = (x, w')"
  shows "w' = w"
proof -
  have "snd (fetchStoredValueFromUrl C v f n w) = w" for v
    using assms(1)
    by (auto simp: fetchStoredValueFromUrl_def fetch_pure_def cp_http_def split: sum.splits prod.splits) (metis snd_conv ControlPlane.surjective ControlPlane.update_convs(1))+
  then show ?thesis
    using assms(2) by (auto simp: readOptionalStoredValue_def cp_simps Let_def split: if_splits sum.splits prod.splits) (metis snd_conv)+
qed

lemma is_json_game: "is_json (game_js g b t n)"
  by (auto simp: game_js_def split: option.splits)

context redis_frames
begin

lemma initial_keeps:
  assumes "cc_R C = R" and "put_initial C g tier v w = (Inr u, w')"
  shows "rd_get R (cp_db w') (GAME_KEY_PREFIX @ h) = rd_get R (cp_db w) (GAME_KEY_PREFIX @ h)"
    and "rd_smembers R (cp_db w') (ALLOWED_PLAYERS_KEY_PREFIX @ h) = rd_smembers R (cp_db w) (ALLOWED_PLAYERS_KEY_PREFIX @ h)"
proof -
  have k: "storageKey g tier \<noteq> GAME_KEY_PREFIX @ h" "storageKey g tier \<noteq> ALLOWED_PLAYERS_KEY_PREFIX @ h"
    by (cases tier; simp add: storageKey_def STATE_KEY_PREFIX_def BLOB_KEY_PREFIX_def GAME_KEY_PREFIX_def ALLOWED_PLAYERS_KEY_PREFIX_def)+
  show "rd_get R (cp_db w') (GAME_KEY_PREFIX @ h) = rd_get R (cp_db w) (GAME_KEY_PREFIX @ h)"
    "rd_smembers R (cp_db w') (ALLOWED_PLAYERS_KEY_PREFIX @ h) = rd_smembers R (cp_db w) (ALLOWED_PLAYERS_KEY_PREFIX @ h)"
    using assms(2) k by (auto simp: assms(1) put_initial_def cp_Inr putStorageRaw_def get_set smembers_set split: option.splits)
qed

lemma add_players_spec:
  "rd_get R (fold (addAllowedPlayer R g) ps d) (GAME_KEY_PREFIX @ h) = rd_get R d (GAME_KEY_PREFIX @ h)
   \<and> set (rd_smembers R (fold (addAllowedPlayer R g) ps d) (ALLOWED_PLAYERS_KEY_PREFIX @ h))
     = set (rd_smembers R d (ALLOWED_PLAYERS_KEY_PREFIX @ h)) \<union> (if h = g then set ps else {})"
proof (induction ps arbitrary: d)
  case (Cons p ps)
  have "GAME_KEY_PREFIX @ h \<noteq> ALLOWED_PLAYERS_KEY_PREFIX @ g" by (simp add: GAME_KEY_PREFIX_def ALLOWED_PLAYERS_KEY_PREFIX_def)
  then show ?case using Cons.IH [of "addAllowedPlayer R g p d"] by (auto simp: addAllowedPlayer_def get_sadd smembers_sadd)
qed simp

end

lemma game_js_id [simp]: "js_get (game_js g b t n) ''gameId'' = JStr g"
  by (simp add: game_js_def)

lemma creation_steps:
  assumes "fetch_pure C" and "cq_method rq = ''POST''" and "cp_body C rq ''game create body'' w = (Inr body, w)"
    and "body_string body ''gameId'' = Inr gameId" and "handleGamesCollection C rq w = (Inr r, w')"
  obtains bundleName tag players x1 x2 d u1 w1 u2 w2 where
    "body_string body ''bundleName'' = Inr bundleName" "readOptionalString body ''blobCompatTag'' = Inr tag"
    "rd_setNx (cc_R C) (GAME_KEY_PREFIX @ gameId) (json_text (game_js gameId bundleName tag (cc_now C))) None (cp_db w) = (True, d)"
    "put_initial C gameId StateTier x1 (w\<lparr>cp_db := d\<rparr>) = (Inr u1, w1)" "put_initial C gameId BlobTier x2 w1 = (Inr u2, w2)"
    "readOptionalStringArray body ''allowedPlayers'' = Inr players" "cp_db w' = fold (addAllowedPlayer (cc_R C) gameId) players (cp_db w2)"
proof -
  from assms(2-5) obtain bundleName tag players x1 x2 d u1 w0 w1 u2 w2 v1 v2 where
    s: "readOptionalStoredValue C body ''initialState'' ''initialStateUrl'' (cc_stateLimit C) w = (Inr x1, w0)"
      "readOptionalStoredValue C body ''initialBlob'' ''initialBlobUrl'' (cc_blobLimit C) w0 = (Inr x2, v1)"
    and r: "body_string body ''bundleName'' = Inr bundleName" "readOptionalString body ''blobCompatTag'' = Inr tag"
      "rd_setNx (cc_R C) (GAME_KEY_PREFIX @ gameId) (json_text (game_js gameId bundleName tag (cc_now C))) None (cp_db v1) = (True, d)"
      "put_initial C gameId StateTier x1 (v1\<lparr>cp_db := d\<rparr>) = (Inr u1, w1)" "put_initial C gameId BlobTier x2 w1 = (Inr u2, w2)"
      "readOptionalStringArray body ''allowedPlayers'' = Inr players" "cp_db w' = fold (addAllowedPlayer (cc_R C) gameId) players (cp_db w2)"
    by (auto simp: handleGamesCollection_def cp_bind_Inr cp_http_Inr cp_do_Inr cp_return_Inr requireBundle_Inr Let_def cp_throw_Inr
        add_players_def putGameWriteOnce_def js_text_def split: if_splits)
  have "w0 = w" by (rule stored_value_pure [OF assms(1) s(1)])
  moreover have "v1 = w0" by (rule stored_value_pure [OF assms(1) s(2)])
  ultimately show thesis using that r by simp
qed

text \<open>
  A game whose creation is answered with 201 did not exist before; afterwards its record is the one of the
  request, its allowed players are those the request lists besides any that were there, and the
  records of the other games and their players are as before.
\<close>

theorem game_created:
  assumes "redis_frames (cc_R C)" and "host_env (cc_host C)" and "fetch_pure C" and "cq_method rq = ''POST''"
    and "cp_body C rq ''game create body'' w = (Inr body, w)" and "body_string body ''gameId'' = Inr gameId"
    and "handleGamesCollection C rq w = (Inr r, w')"
  shows "\<exists>bundleName tag players. body_string body ''bundleName'' = Inr bundleName \<and> readOptionalString body ''blobCompatTag'' = Inr tag
        \<and> readOptionalStringArray body ''allowedPlayers'' = Inr players
        \<and> rd_get (cc_R C) (cp_db w) (GAME_KEY_PREFIX @ gameId) = None
        \<and> getGame (cc_host C) (cc_R C) gameId (cp_db w') = Inr (Some (game_js gameId bundleName tag (cc_now C)))
        \<and> set (listAllowedPlayers (cc_R C) gameId (cp_db w')) = set (listAllowedPlayers (cc_R C) gameId (cp_db w)) \<union> set players
        \<and> (\<forall>other. other \<noteq> gameId \<longrightarrow>
             getGame (cc_host C) (cc_R C) other (cp_db w') = getGame (cc_host C) (cc_R C) other (cp_db w)
             \<and> set (listAllowedPlayers (cc_R C) other (cp_db w')) = set (listAllowedPlayers (cc_R C) other (cp_db w)))"
proof -
  from assms(3-7) obtain bundleName tag players x1 x2 d u1 w1 u2 w2 where
    n: "body_string body ''bundleName'' = Inr bundleName" "readOptionalString body ''blobCompatTag'' = Inr tag"
    and nx: "rd_setNx (cc_R C) (GAME_KEY_PREFIX @ gameId) (json_text (game_js gameId bundleName tag (cc_now C))) None (cp_db w) = (True, d)"
    and i: "put_initial C gameId StateTier x1 (w\<lparr>cp_db := d\<rparr>) = (Inr u1, w1)" "put_initial C gameId BlobTier x2 w1 = (Inr u2, w2)"
    and p: "readOptionalStringArray body ''allowedPlayers'' = Inr players" "cp_db w' = fold (addAllowedPlayer (cc_R C) gameId) players (cp_db w2)"
    by (rule creation_steps)
  let ?R = "cc_R C" and ?g = "\<lambda>h. GAME_KEY_PREFIX @ h" and ?a = "\<lambda>h. ALLOWED_PLAYERS_KEY_PREFIX @ h"
  note db = redis_frames.axioms(1) [OF assms(1)]
  note init = redis_frames.initial_keeps [OF assms(1) refl]
  have get: "rd_get ?R (cp_db w') (?g h) = rd_get ?R d (?g h)" for h
    using redis_frames.add_players_spec [OF assms(1), of gameId players "cp_db w2" h] init(1) [OF i(2)] init(1) [OF i(1)] p(2) by simp
  have mem: "set (rd_smembers ?R (cp_db w') (?a h)) = set (rd_smembers ?R d (?a h)) \<union> (if h = gameId then set players else {})" for h
    using redis_frames.add_players_spec [OF assms(1), of gameId players "cp_db w2" h] init(2) [OF i(2)] init(2) [OF i(1)] p(2) by simp
  have d: "rd_get ?R (cp_db w) (?g gameId) = None" "rd_get ?R d = (rd_get ?R (cp_db w))(?g gameId \<mapsto> json_text (game_js gameId bundleName tag (cc_now C)))"
    using redis_db.get_setNx [OF db nx] by auto
  have "?a h \<noteq> ?g gameId" for h by (simp add: GAME_KEY_PREFIX_def ALLOWED_PLAYERS_KEY_PREFIX_def)
  then have dm: "rd_smembers ?R d (?a h) = rd_smembers ?R (cp_db w) (?a h)" for h
    using redis_frames.smembers_setNx [OF assms(1) _ nx] by blast
  have "getGame (cc_host C) ?R gameId (cp_db w') = Inr (Some (game_js gameId bundleName tag (cc_now C)))"
    unfolding getGame_def by (rule getJson_text [OF assms(2) is_json_game]) (simp add: get d(2))
  moreover have "getGame (cc_host C) ?R other (cp_db w') = getGame (cc_host C) ?R other (cp_db w)" if "other \<noteq> gameId" for other
    using that by (simp add: getGame_def getJson_def get d(2))
  ultimately show ?thesis using n p(1) d(1) mem dm by (simp add: listAllowedPlayers_def)
qed

text \<open>A control plane that has one bundle.\<close>

definition plane1 :: "(mem_redis, files, mem_store) ControlPlane" where
  "plane1 = plane0\<lparr>cp_db := mr_put (BUNDLE_KEY_PREFIX @ ''b'') (json_text (bundle_js plain_host (upload_of ''s''))) mr_empty\<rparr>"

lemma plane1_bundle: "requireBundle control0 ''b'' plane1 = (Inr (bundle_js plain_host (upload_of ''s'')), plane1)"
  unfolding requireBundle_Inr getBundle_def
  by (simp, rule getJson_text [OF plain_host.host_env_axioms is_json_bundle]) (simp add: plane1_def mr_ops_def mr_put_def mr_empty_def)

definition create_body :: "js \<Rightarrow> js js_map" where
  "create_body players = [(''gameId'', JStr ''g''), (''bundleName'', JStr ''b''), (''allowedPlayers'', players)]"

lemma create0:
  assumes "is_json players"
  shows "handleGamesCollection control0 (post (JObj (create_body players))) plane1
    = (let w1 = plane1\<lparr>cp_db := mr_put (GAME_KEY_PREFIX @ ''g'') (json_text (game_js ''g'' ''b'' None 5)) (cp_db plane1)\<rparr>
       in case readOptionalStringArray (create_body players) ''allowedPlayers'' of
            Inl e \<Rightarrow> (Inl (Http e), w1)
          | Inr ps \<Rightarrow> (Inr (JsonResponse 201 (JObj [(''ok'', JBool True), (''game'', game_js ''g'' ''b'' None 5),
              (''storage'', JObj [(''stateBytes'', JNum 0), (''blobBytes'', JNum 0)])])),
              w1\<lparr>cp_db := fold (addAllowedPlayer mr_ops ''g'') ps (cp_db w1)\<rparr>))"
proof -
  have b: "cp_body control0 (post (JObj (create_body players))) l w = (Inr (create_body players), w)" for l w
    by (rule post_body) (simp_all add: create_body_def assms)
  have f: "body_string (create_body players) ''gameId'' = Inr ''g''" "body_string (create_body players) ''bundleName'' = Inr ''b''"
    "readOptionalString (create_body players) ''blobCompatTag'' = Inr None"
    by (simp_all add: create_body_def body_string_def readOptionalString_def)
  have s: "readOptionalStoredValue control0 (create_body players) ''initialState'' ''initialStateUrl'' n w = (Inr None, w)"
    "readOptionalStoredValue control0 (create_body players) ''initialBlob'' ''initialBlobUrl'' n w = (Inr None, w)" for n w
    by (simp_all add: readOptionalStoredValue_def create_body_def map_has_def cp_return_def)
  have nx: "putGameWriteOnce mr_ops (game_js ''g'' ''b'' None 5) (cp_db plane1)
      = (True, mr_put (GAME_KEY_PREFIX @ ''g'') (json_text (game_js ''g'' ''b'' None 5)) (cp_db plane1))"
    by (simp add: putGameWriteOnce_def js_text_def mr_ops_def plane1_def mr_put_def mr_empty_def map_has_def GAME_KEY_PREFIX_def BUNDLE_KEY_PREFIX_def)
  show ?thesis
    by (simp add: handleGamesCollection_def cp_bind_def b f s plane1_bundle cp_http_def cp_do_def nx put_initial_def cp_return_def add_players_def Let_def
        split: sum.splits)
qed

theorem game_created_witness:
  "\<exists>players. getGame plain_host mr_ops ''g'' (cp_db (snd (handleGamesCollection control0 (post (JObj (create_body (JArr [JStr ''p'']))))  plane1)))
      = Inr (Some (game_js ''g'' ''b'' None 5))
    \<and> set (listAllowedPlayers mr_ops ''g'' (cp_db (snd (handleGamesCollection control0 (post (JObj (create_body (JArr [JStr ''p''])))) plane1)))) = {''p''}"
proof -
  have b: "cp_body control0 (post (JObj (create_body (JArr [JStr ''p''])))) ''game create body'' plane1 = (Inr (create_body (JArr [JStr ''p''])), plane1)"
    by (rule post_body) (simp_all add: create_body_def)
  have f: "body_string (create_body (JArr [JStr ''p''])) ''gameId'' = Inr ''g''" "body_string (create_body (JArr [JStr ''p''])) ''bundleName'' = Inr ''b''"
    "readOptionalString (create_body (JArr [JStr ''p''])) ''blobCompatTag'' = Inr None"
    "readOptionalStringArray (create_body (JArr [JStr ''p''])) ''allowedPlayers'' = Inr [''p'']"
    by (simp_all add: create_body_def body_string_def readOptionalString_def readOptionalStringArray_def js_text_def)
  obtain r w' where run: "handleGamesCollection control0 (post (JObj (create_body (JArr [JStr ''p''])))) plane1 = (Inr r, w')"
    by (simp add: create0 f Let_def)
  have "fetch_pure control0" by (simp add: fetch_pure_def control0_def)
  moreover have "rd_smembers mr_ops (cp_db plane1) k = []" for k by (simp add: plane1_def mr_ops_def mr_put_def mr_empty_def mr_list_def)
  ultimately show ?thesis
    using game_created [of control0 "post (JObj (create_body (JArr [JStr ''p''])))" plane1, OF _ _ _ _ b f(1) run] f run
      mr.redis_frames_axioms plain_host.host_env_axioms
    by (auto simp: listAllowedPlayers_def)
qed

text \<open>
  The list of allowed players is read after the game has been written. A request whose list is
  malformed is answered 400, but the game exists afterwards, with no allowed players, and the corrected request is
  refused because the game exists.
\<close>

theorem refused_creation_leaves_game:
  "\<exists>e w1. handleGamesCollection control0 (post (JObj (create_body (JNum 3)))) plane1 = (Inl (Http e), w1)
     \<and> ht_statusCode e = 400 \<and> getGame plain_host mr_ops ''g'' (cp_db w1) = Inr (Some (game_js ''g'' ''b'' None 5))
     \<and> listAllowedPlayers mr_ops ''g'' (cp_db w1) = []
     \<and> \<not> (\<exists>body r w2. cp_body control0 body ''game create body'' w1 = (Inr (create_body (JArr [JStr ''p''])), w1)
           \<and> cq_method body = ''POST'' \<and> handleGamesCollection control0 body w1 = (Inr r, w2))"
proof -
  let ?w1 = "plane1\<lparr>cp_db := mr_put (GAME_KEY_PREFIX @ ''g'') (json_text (game_js ''g'' ''b'' None 5)) (cp_db plane1)\<rparr>"
  obtain e where e: "readOptionalStringArray (create_body (JNum 3)) ''allowedPlayers'' = Inl e" "ht_statusCode e = 400"
    by (simp add: create_body_def readOptionalStringArray_def badRequest_def)
  have g: "rd_get mr_ops (cp_db ?w1) (GAME_KEY_PREFIX @ ''g'') = Some (json_text (game_js ''g'' ''b'' None 5))"
    by (simp add: mr_ops_def mr_put_def update_conv')
  have "getGame plain_host mr_ops ''g'' (cp_db ?w1) = Inr (Some (game_js ''g'' ''b'' None 5))"
    unfolding getGame_def by (rule getJson_text [OF plain_host.host_env_axioms is_json_game g])
  moreover have "listAllowedPlayers mr_ops ''g'' (cp_db ?w1) = []"
    by (simp add: listAllowedPlayers_def plane1_def mr_ops_def mr_put_def mr_empty_def mr_list_def)
  moreover have "False" if c: "cp_body control0 body ''game create body'' ?w1 = (Inr (create_body (JArr [JStr ''p''])), ?w1)"
    "cq_method body = ''POST''" "handleGamesCollection control0 body ?w1 = (Inr r, w2)" for body r w2
  proof -
    have pure: "fetch_pure control0" by (simp add: fetch_pure_def control0_def)
    have id: "body_string (create_body (JArr [JStr ''p''])) ''gameId'' = Inr ''g''" by (simp add: create_body_def body_string_def)
    obtain v d where "rd_setNx mr_ops (GAME_KEY_PREFIX @ ''g'') v None (cp_db ?w1) = (True, d)"
      by (rule creation_steps [OF pure c(2,1) id c(3)]) simp
    then show False using mr.get_setNx g by fastforce
  qed
  ultimately show ?thesis using e by (intro exI [of _ e] exI [of _ ?w1]) (auto simp: create0 Let_def)
qed

section \<open>The bundle of a game\<close>

lemma is_json_update: "list_all (\<lambda>(k, x). is_json x) fs \<Longrightarrow> is_json v \<Longrightarrow> list_all (\<lambda>(k, x). is_json x) (map_set k v fs)"
  by (induction fs) auto

lemma append_history [simp]:
  "fst (appendControlHistory C event fs w) = Inr ()" "cp_db (snd (appendControlHistory C event fs w)) = cp_db w"
  "cp_state (snd (appendControlHistory C event fs w)) = cp_state w" "cp_objects (snd (appendControlHistory C event fs w)) = cp_objects w"
  by (auto simp: appendControlHistory_def nextControlPaxSeq_def Let_def split: option.splits prod.splits)

lemma bind_append: "cp_bind (appendControlHistory C event fs) f w = f () (snd (appendControlHistory C event fs w))"
  by (cases "appendControlHistory C event fs w") (use append_history(1) [of C event fs w] in \<open>simp add: cp_bind_def\<close>)

lemma flipped_fields:
  assumes "game = JObj fs"
  shows "js_get (flipped_game C game n) k =
    (if k = ''bundleRollback'' \<and> js_get game ''bundleName'' \<noteq> JStr n
     then rollback_js (js_get game ''bundleName'') n (cc_now C) (cc_rollbackMs C)
     else if k = ''bundleName'' then JStr n else js_get game k)"
  unfolding flipped_game_def assms by (auto simp: update_conv')

lemma is_json_flipped:
  assumes "is_json game" and "js_get game ''gameId'' = JStr g" and "js_get game ''bundleName'' = JStr b"
  shows "is_json (flipped_game C game n)"
proof -
  obtain fs where fs: "game = JObj fs" using assms(2) by (cases game) auto
  show ?thesis using assms(1,3) unfolding flipped_game_def fs by (auto simp: rollback_js_def intro!: is_json_update)
qed

text \<open>
  C32: the bundle of a game changes to another one exactly when the game's storage carries no compatibility tag or one that the new bundle
  accepts. Then the game's record names the new bundle, keeps its tag, and remembers the old bundle as the one to roll back to (an
  earlier rollback record is kept when the bundle is the same). Otherwise the request is answered 409
  and the database is unchanged.
\<close>

theorem flip_guarded:
  assumes "redis_db (cc_R C)" and "host_env (cc_host C)" and "cp_body C rq ''bundle flip body'' w = (Inr body, w)"
    and "body_string body ''newBundleName'' = Inr n" and "getGame (cc_host C) (cc_R C) gameId (cp_db w) = Inr (Some game)"
    and "is_json game" and "js_get game ''gameId'' = JStr gameId" and "js_get game ''bundleName'' = JStr old"
    and "getBundle (cc_host C) (cc_R C) n (cp_db w) = Inr (Some bundle)" and "handleBundleFlip C rq gameId w = (answer, w')"
  shows "if js_get game ''blobCompatTag'' = JUndef
        \<or> js_get game ''blobCompatTag'' \<in> set (accepted_tags (js_get (js_get bundle ''manifest'') ''compatTagsAccepted''))
      then \<exists>game'. answer = Inr (JsonResponse 200 (JObj [(''ok'', JBool True), (''game'', game')]))
        \<and> getGame (cc_host C) (cc_R C) gameId (cp_db w') = Inr (Some game')
        \<and> js_get game' ''bundleName'' = JStr n \<and> js_get game' ''blobCompatTag'' = js_get game ''blobCompatTag''
        \<and> js_get game' ''bundleRollback'' = (if old = n then js_get game ''bundleRollback'' else rollback_js (JStr old) n (cc_now C) (cc_rollbackMs C))
      else (\<exists>r. answer = Inr (JsonResponse 409 r)) \<and> cp_db w' = cp_db w"
proof -
  obtain fs where fs: "game = JObj fs" using assms(7) by (cases game) auto
  have g: "requireGame C gameId w = (Inr game, w)" "requireBundle C n w = (Inr bundle, w)"
    using assms(5,9) by (simp_all add: requireGame_Inr requireBundle_Inr)
  let ?c = "checkBundleCompat (js_get game ''blobCompatTag'') (js_get bundle ''manifest'')"
  have c: "?c = CompatOk \<longleftrightarrow> js_get game ''blobCompatTag'' = JUndef
      \<or> js_get game ''blobCompatTag'' \<in> set (accepted_tags (js_get (js_get bundle ''manifest'') ''compatTagsAccepted''))"
    by (simp add: checkBundleCompat_def include_str_def Let_def)
  show ?thesis
  proof (cases "?c = CompatOk")
    case True
    let ?u = "flipped_game C game n"
    have id: "js_text (js_get ?u ''gameId'') = gameId" using assms(7) by (simp add: js_text_def flipped_fields [OF fs])
    have "answer = Inr (JsonResponse 200 (JObj [(''ok'', JBool True), (''game'', ?u)]))
      \<and> cp_db w' = rd_set (cc_R C) (GAME_KEY_PREFIX @ gameId) (json_text ?u) (cp_db w)"
      using assms(10) True
      unfolding handleBundleFlip_def cp_bind_def [of "cp_body C rq l" for l] assms(3) cp_bind_def [of "cp_http x" for x] cp_http_def assms(4)
        cp_bind_def [of "requireGame C gameId"] cp_bind_def [of "requireBundle C n"] g Let_def prod.case sum.case
      by (auto simp: bind_append cp_bind_def [of "cp_do f" for f] cp_do_def cp_return_def putGame_def id)
    then have a: "answer = Inr (JsonResponse 200 (JObj [(''ok'', JBool True), (''game'', ?u)]))"
      and d: "rd_get (cc_R C) (cp_db w') (GAME_KEY_PREFIX @ gameId) = Some (json_text ?u)"
      by (simp_all add: redis_db.get_set [OF assms(1)])
    have "getGame (cc_host C) (cc_R C) gameId (cp_db w') = Inr (Some ?u)"
      unfolding getGame_def by (rule getJson_text [OF assms(2) is_json_flipped [OF assms(6,7,8)] d])
    then show ?thesis using True c a assms(8) by (auto simp: flipped_fields [OF fs])
  next
    case False
    then have "(\<exists>r. answer = Inr (JsonResponse 409 r)) \<and> cp_db w' = cp_db w"
      using assms(10)
      unfolding handleBundleFlip_def cp_bind_def [of "cp_body C rq l" for l] assms(3) cp_bind_def [of "cp_http x" for x] cp_http_def assms(4)
        cp_bind_def [of "requireGame C gameId"] cp_bind_def [of "requireBundle C n"] g Let_def prod.case sum.case
      by (auto simp: bind_append cp_return_def)
    then show ?thesis using False c by auto
  qed
qed

definition plane2 :: "(mem_redis, files, mem_store) ControlPlane" where
  "plane2 = plane1\<lparr>cp_db := mr_put (GAME_KEY_PREFIX @ ''g'') (json_text (game_js ''g'' ''a'' (Some ''t1'') 5)) (cp_db plane1)\<rparr>"

lemma plane2_game: "getGame plain_host mr_ops ''g'' (cp_db plane2) = Inr (Some (game_js ''g'' ''a'' (Some ''t1'') 5))"
  unfolding getGame_def
  by (rule getJson_text [OF plain_host.host_env_axioms is_json_game]) (simp add: plane2_def mr_ops_def mr_put_def update_conv')

lemma plane2_bundle: "getBundle plain_host mr_ops ''b'' (cp_db plane2) = Inr (Some (bundle_js plain_host (upload_of ''s'')))"
  unfolding getBundle_def
  by (rule getJson_text [OF plain_host.host_env_axioms is_json_bundle])
    (simp add: plane2_def plane1_def mr_ops_def mr_put_def mr_empty_def update_conv' GAME_KEY_PREFIX_def BUNDLE_KEY_PREFIX_def)

theorem flip_guarded_witness:
  "\<exists>game'. getGame plain_host mr_ops ''g'' (cp_db (snd (handleBundleFlip control0 (post (JObj [(''newBundleName'', JStr ''b'')])) ''g'' plane2))) = Inr (Some game')
    \<and> js_get game' ''bundleName'' = JStr ''b'' \<and> js_get (js_get game' ''bundleRollback'') ''previousBundleName'' = JStr ''a''"
proof -
  let ?fs = "[(''newBundleName'', JStr ''b'')]" and ?g = "game_js ''g'' ''a'' (Some ''t1'') 5" and ?b = "bundle_js plain_host (upload_of ''s'')"
  have p: "cp_body control0 (post (JObj ?fs)) ''bundle flip body'' plane2 = (Inr ?fs, plane2)" by (rule post_body) simp_all
  have n: "body_string ?fs ''newBundleName'' = Inr ''b''" by (simp add: body_string_def)
  have g: "js_get ?g ''bundleName'' = JStr ''a''" "js_get ?g ''blobCompatTag'' = JStr ''t1''" by (simp_all add: game_js_def)
  have t: "accepted_tags (js_get (js_get ?b ''manifest'') ''compatTagsAccepted'') = [JStr ''t1'']"
    by (simp add: bundle_js_def bundle_manifest_js_def upload_of_def)
  show ?thesis
    using flip_guarded [of control0 "post (JObj ?fs)" plane2, OF _ _ p n _ is_json_game game_js_id g(1) _ prod.collapse [symmetric], of ?b]
      mr.redis_db_axioms plain_host.host_env_axioms plane2_game plane2_bundle g(2) t
    by (auto simp: rollback_js_def)
qed

section \<open>Deletion of bundles\<close>

lemma parse_all_mem:
  "parse_all H raws = Inr vs \<Longrightarrow> raw \<in> set raws \<Longrightarrow> truthy raw = Some t \<Longrightarrow> host_parse H t = Some v \<Longrightarrow> v \<in> set vs"
  by (induction raws arbitrary: vs) (auto split: option.splits sum.splits)

context redis_db
begin

lemma listed_game:
  assumes "listGames H R d = Inr games" and "getGame H R g d = Inr (Some game)"
  shows "game \<in> set games"
proof -
  obtain t where t: "rd_get R d (GAME_KEY_PREFIX @ g) = Some t" "truthy (Some t) = Some t" "host_parse H t = Some game"
    using assms(2) by (auto simp: getGame_def getJson_def truthy_def split: option.splits if_splits)
  have "GAME_KEY_PREFIX @ g \<in> set (rd_keys R d GAME_KEY_PREFIX)" using keys t(1) by simp
  then have "Some t \<in> set (map (rd_get R d) (rd_keys R d GAME_KEY_PREFIX))" using t(1) by (force simp: image_iff)
  then show ?thesis using parse_all_mem t(2,3) assms(1) unfolding listGames_def scan_json_def by blast
qed

end

text \<open>
  A bundle is deleted only when no game's record names it as its bundle; a bundle in use is refused
  with 409 and the database is unchanged.
\<close>

theorem bundle_in_use_kept:
  assumes "redis_db (cc_R C)" and "cq_method rq = ''DELETE''" and "getGame (cc_host C) (cc_R C) g (cp_db w) = Inr (Some game)"
    and "js_get game ''bundleName'' = JStr bundleName" and "handleBundle C rq bundleName w = (answer, w')"
  shows "w' = w \<and> (\<exists>e. answer = Inl e)
    \<and> (\<forall>games. listGames (cc_host C) (cc_R C) (cp_db w) = Inr games \<longrightarrow>
        (\<exists>detail. answer = Inl (Http \<lparr>ht_statusCode = 409, ht_code = ''bundleInUse'', ht_detail = JObj detail\<rparr>)))"
proof (cases "listGames (cc_host C) (cc_R C) (cp_db w)")
  case (Inl e)
  then show ?thesis
    using assms(2,5) by (auto simp: handleBundle_def cp_bind_def cp_try_def cp_lift_def deleteBundleIfUnused_def)
next
  case (Inr games)
  have "game \<in> set games" by (rule redis_db.listed_game [OF assms(1) Inr assms(3)])
  then have "filter (\<lambda>g. js_get g ''bundleName'' = JStr bundleName) games \<noteq> []" using assms(4) by (auto simp: filter_empty_conv)
  then have "\<exists>ids. deleteBundleIfUnused (cc_host C) (cc_R C) bundleName (cp_db w) = (Inr (InUse ids), cp_db w)"
    by (cases "sort (map (\<lambda>g. js_text (js_get g ''gameId'')) (filter (\<lambda>g. js_get g ''bundleName'' = JStr bundleName) games))")
      (auto simp: deleteBundleIfUnused_def Inr Let_def dest: arg_cong [of _ _ length])
  then show ?thesis
    using assms(2,5) Inr by (auto simp: handleBundle_def cp_bind_def cp_try_def cp_lift_def cp_throw_def)
qed

theorem bundle_in_use_kept_witness:
  "snd (handleBundle control0 ((post JNull)\<lparr>cq_method := ''DELETE''\<rparr>) ''a'' plane2) = plane2"
  using bundle_in_use_kept [of control0 "(post JNull)\<lparr>cq_method := ''DELETE''\<rparr>" "''g''" plane2 "game_js ''g'' ''a'' (Some ''t1'') 5" "''a''",
      OF _ _ _ _ prod.collapse [symmetric]] mr.redis_db_axioms plane2_game
  by (simp add: game_js_def)

text \<open>
  Only the current bundle of a game counts: the bundle that a game would roll back to can be deleted.
\<close>

lemma rollback_bundle_deleted:
  assumes "listGames H R d = Inr [game]" and "js_get game ''bundleName'' = JStr n" and "old \<noteq> n"
    and "js_get (js_get game ''bundleRollback'') ''previousBundleName'' = JStr old" and "rd_del R [BUNDLE_KEY_PREFIX @ old] d = (1, d')"
  shows "deleteBundleIfUnused H R old d = (Inr Deleted, d')"
  using assms by (simp add: deleteBundleIfUnused_def Let_def)

section \<open>API kinds, as the gateway reads them\<close>

lemma is_json_registration: "is_json (registration_js r)"
  by (auto simp: registration_js_def split: option.splits)

text \<open>
  An API kind whose registration the control plane answers with 201 is what the gateway's registry returns for
  it from then on, whatever the gateway has in its configuration; the other kinds are as before.
\<close>

theorem registered_kind_served:
  assumes "redis_db (cc_R C)" and "host_env (cc_host C)" and "cq_method rq = ''POST''"
    and "cp_body C rq ''api-kind registration'' w = (Inr body, w)" and "body_string body ''kindName'' = Inr kindName"
    and "body_string body ''url'' = Inr url" and "handleApiKindsCollection C rq w = (Inr r, w')"
  shows "registry_get (cc_host C) (cc_R C) fallback (cp_db w') kindName = Inr (Some url)
    \<and> (\<forall>other. other \<noteq> kindName \<longrightarrow>
        registry_get (cc_host C) (cc_R C) fallback (cp_db w') other = registry_get (cc_host C) (cc_R C) fallback (cp_db w) other)"
proof -
  let ?r = "\<lparr>ak_kindName = kindName, ak_url = url, ak_registeredAt = Some (cc_now C)\<rparr>"
  have d: "cp_db w' = rd_set (cc_R C) (kind_key kindName) (json_text (registration_js ?r)) (cp_db w)"
    using assms(3-7) by (auto simp: handleApiKindsCollection_def cp_bind_Inr cp_http_Inr cp_do_Inr cp_return_Inr Let_def putApiKind_def kind_key_def)
  have "getJson (cc_host C) (cc_R C) (cp_db w') (kind_key kindName) = Inr (Some (registration_js ?r))"
    by (rule getJson_text [OF assms(2) is_json_registration]) (simp add: d redis_db.get_set [OF assms(1)])
  moreover have "getJson (cc_host C) (cc_R C) (cp_db w') (kind_key other) = getJson (cc_host C) (cc_R C) (cp_db w) (kind_key other)"
    if "other \<noteq> kindName" for other
    using that by (simp add: getJson_def d redis_db.get_set [OF assms(1)] kind_key_def)
  ultimately show ?thesis by (simp add: registry_get_def kind_of_js_def registration_js_def)
qed

theorem registered_kind_served_witness:
  "registry_get plain_host mr_ops [(''echo.v1'', ''old'')]
     (cp_db (snd (handleApiKindsCollection control0 (post (JObj [(''kindName'', JStr ''echo.v1''), (''url'', JStr ''new'')])) plane0))) ''echo.v1''
   = Inr (Some ''new'')"
proof -
  let ?fs = "[(''kindName'', JStr ''echo.v1''), (''url'', JStr ''new'')]"
  have p: "cp_body control0 (post (JObj ?fs)) l w = (Inr ?fs, w)" for l w by (rule post_body) simp_all
  have n: "body_string ?fs ''kindName'' = Inr ''echo.v1''" "body_string ?fs ''url'' = Inr ''new''" by (simp_all add: body_string_def)
  have k: "isApiKindName ''echo.v1''" by code_simp
  obtain r w' where "handleApiKindsCollection control0 (post (JObj ?fs)) plane0 = (Inr r, w')"
    by (simp add: handleApiKindsCollection_def cp_bind_def p n cp_http_def cp_assertApiKindRegistration_def k cp_do_def cp_return_def Let_def)
  then show ?thesis
    using registered_kind_served [of control0 "post (JObj ?fs)" plane0 ?fs, OF _ _ _ p n] mr.redis_db_axioms plain_host.host_env_axioms by auto
qed

end
