(* ===== verification/BrokerAdaptersProps.thy ===== *)
theory BrokerAdaptersProps
  imports BrokerAdapters
begin

text \<open>
  What the directory and the queue of host events promise: a claim is held against every other
  shard and generation until it is released, and a drained event is taken off the queue once, in
  the order of arrival. The lemmas are proved in the interface \<open>redis_db\<close>.
\<close>

section \<open>Claims\<close>

lemma is_json_claim: "is_json (claim_js O1 c)"
  by (auto simp: claim_js_def opt_field_def split: option.splits)

lemma claim_js_fields [simp]:
  "js_get (claim_js O1 c) ''gameId'' = JStr (ac_gameId c)"
  "js_get (claim_js O1 c) ''shardId'' = JStr (ac_shardId c)"
  "js_get (claim_js O1 c) ''placedAt'' = JNum (ac_placedAt c)"
  "js_get (claim_js O1 c) ''refreshedAt'' = JNum (ac_refreshedAt c)"
  "js_get (claim_js O1 c) ''generation'' = JNum (ac_generation c)"
  "claim_js O1 c \<noteq> JNull"
  by (simp_all add: claim_js_def)

lemma active_key_neq [simp]:
  "SHARD_REGISTRY_KEY_PREFIX @ s \<noteq> active_key g"
  "active_key g = active_key g' \<longleftrightarrow> g = g'"
  by (simp_all add: active_key_def SHARD_REGISTRY_KEY_PREFIX_def ACTIVE_GAMES_KEY_PREFIX_def)

text \<open>\<open>holds H R d g s n\<close>: the directory says that shard \<open>s\<close> runs game \<open>g\<close> in generation \<open>n\<close>.\<close>

definition holds :: "host \<Rightarrow> 'd redis \<Rightarrow> 'd \<Rightarrow> string \<Rightarrow> string \<Rightarrow> int \<Rightarrow> bool" where
  "holds H R d g s n \<longleftrightarrow>
     (\<exists>p. lookupActiveGame H R g d = Inr (Some p) \<and> ap_shardId p = s \<and> ap_generation p = n)"

definition held_as :: "host \<Rightarrow> 'd redis \<Rightarrow> 'd \<Rightarrow> RedisBrokerDirectoryOptions \<Rightarrow> BrokerActiveGameClaim \<Rightarrow> bool" where
  "held_as H R d O1 c \<longleftrightarrow> rd_get R d (active_key (ac_gameId c)) = Some (json_text (claim_js O1 c))"

lemma held_as_lookup:
  assumes "host_env H" and "held_as H R d O1 c"
  shows "getJson H R d (active_key (ac_gameId c)) = Inr (Some (claim_js O1 c))"
  using getJson_text [OF assms(1) is_json_claim] assms(2) by (simp add: held_as_def)

lemma held_as_holds:
  assumes "host_env H" and "held_as H R d O1 c"
  shows "holds H R d (ac_gameId c) (ac_shardId c) (ac_generation c)"
  by (simp add: holds_def lookupActiveGame_def held_as_lookup [OF assms] placement_of_js_def js_text_def js_number_def)

text \<open>The operations of the directory, and those that come from another shard or another generation.\<close>

datatype dir_op =
    Claim RedisBrokerDirectoryOptions BrokerActiveGameClaim
  | Release string "int option"
  | Publish RedisBrokerDirectoryOptions "string option" BrokerCapacityRow
  | Remove string

definition dir_step :: "host \<Rightarrow> 'd redis \<Rightarrow> dir_op \<Rightarrow> 'd \<Rightarrow> 'd" where
  "dir_step H R op1 d =
     (case op1 of
        Claim O1 c \<Rightarrow> snd (claimActiveGame H R O1 c d)
      | Release g n \<Rightarrow> snd (releaseActiveGame H R g n d)
      | Publish O1 e row \<Rightarrow> dir_publishCapacity R O1 e row d
      | Remove s \<Rightarrow> dir_removeShard R s d)"

definition foreign :: "BrokerActiveGameClaim \<Rightarrow> dir_op \<Rightarrow> bool" where
  "foreign c op1 =
     (case op1 of
        Claim O1 c' \<Rightarrow> ac_gameId c' = ac_gameId c \<longrightarrow> (ac_shardId c', ac_generation c') \<noteq> (ac_shardId c, ac_generation c)
      | Release g n \<Rightarrow> g = ac_gameId c \<longrightarrow> n \<noteq> None \<and> n \<noteq> Some (ac_generation c)
      | _ \<Rightarrow> True)"

context redis_db
begin

lemma claim_holds:
  assumes "claimActiveGame H R O1 c d = (Inr (), d1)"
  shows "held_as H R d1 O1 c"
proof -
  let ?k = "active_key (ac_gameId c)" and ?v = "json_text (claim_js O1 c)"
  obtain b d2 where n: "rd_setNx R ?k ?v (Some ACTIVE_GAME_TTL_SECONDS) d = (b, d2)" by fastforce
  obtain b' d3 where x: "rd_setXx R ?k ?v ACTIVE_GAME_TTL_SECONDS d2 = (b', d3)" by fastforce
  show ?thesis
  proof (cases b)
    case True
    then show ?thesis using assms n get_setNx [OF n] by (simp add: claimActiveGame_def held_as_def)
  next
    case False
    then have "rd_get R d2 ?k \<noteq> None" using get_setNx [OF n] by auto
    moreover have "d1 = d3"
      using assms n x False by (auto simp: claimActiveGame_def Let_def split: sum.splits if_splits)
    ultimately show ?thesis using get_setXx [OF x] by (simp add: held_as_def)
  qed
qed

lemma claim_refused:
  assumes "host_env H" and "held_as H R d O1 c" and "ac_gameId c' = ac_gameId c"
    and "(ac_shardId c', ac_generation c') \<noteq> (ac_shardId c, ac_generation c)"
  obtains d2 where "rd_get R d2 = rd_get R d"
    and "claimActiveGame H R O2 c' d = (Inl (''game '' @ ac_gameId c @ '' is already claimed by '' @ ac_shardId c), d2)"
proof -
  let ?k = "active_key (ac_gameId c)" and ?v = "json_text (claim_js O2 c')"
  obtain b d2 where n: "rd_setNx R ?k ?v (Some ACTIVE_GAME_TTL_SECONDS) d = (b, d2)" by fastforce
  have b: "\<not> b" "rd_get R d2 = rd_get R d" using get_setNx [OF n] assms(2) by (auto simp: held_as_def)
  then have "getJson H R d2 ?k = Inr (Some (claim_js O1 c))"
    using held_as_lookup [OF assms(1,2)] by (simp add: getJson_def)
  with assms(3,4) n b show thesis by (intro that [of d2]) (auto simp: claimActiveGame_def)
qed

lemma claim_other_key:
  assumes "ac_gameId c' \<noteq> g"
  shows "rd_get R (snd (claimActiveGame H R O2 c' d)) (active_key g) = rd_get R d (active_key g)"
proof -
  let ?k = "active_key (ac_gameId c')" and ?v = "json_text (claim_js O2 c')"
  obtain b d2 where n: "rd_setNx R ?k ?v (Some ACTIVE_GAME_TTL_SECONDS) d = (b, d2)" by fastforce
  obtain b' d3 where x: "rd_setXx R ?k ?v ACTIVE_GAME_TTL_SECONDS d2 = (b', d3)" by fastforce
  have "snd (claimActiveGame H R O2 c' d) \<in> {d2, d3}"
    using n x by (auto simp: claimActiveGame_def Let_def split: sum.splits)
  then show ?thesis using get_setNx [OF n] get_setXx [OF x] assms by auto
qed

lemma release_other:
  assumes "host_env H" and "held_as H R d O1 c" and "g = ac_gameId c \<longrightarrow> n \<noteq> None \<and> n \<noteq> Some (ac_generation c)"
  shows "held_as H R (snd (releaseActiveGame H R g n d)) O1 c"
proof (cases "g = ac_gameId c")
  case True
  then show ?thesis
    using assms held_as_lookup [OF assms(1,2)] by (auto simp: releaseActiveGame_def release_check_def split: option.splits)
next
  case False
  obtain m d2 where x: "rd_del R [active_key g] d = (m, d2)" by fastforce
  have "snd (releaseActiveGame H R g n d) \<in> {d, d2}"
    using x by (auto simp: releaseActiveGame_def split: sum.splits)
  then show ?thesis using get_del [OF x] False assms(2) by (auto simp: held_as_def)
qed

lemma dir_step_held:
  assumes H: "host_env H" and h: "held_as H R d O1 c" and f: "foreign c op1"
  shows "held_as H R (dir_step H R op1 d) O1 c"
proof (cases op1)
  case (Claim O2 c')
  show ?thesis
  proof (cases "ac_gameId c' = ac_gameId c")
    case True
    with f Claim have "(ac_shardId c', ac_generation c') \<noteq> (ac_shardId c, ac_generation c)" by (simp add: foreign_def)
    then obtain d2 where "rd_get R d2 = rd_get R d"
      "claimActiveGame H R O2 c' d = (Inl (''game '' @ ac_gameId c @ '' is already claimed by '' @ ac_shardId c), d2)"
      using claim_refused [OF H h True] by blast
    with h Claim show ?thesis by (simp add: dir_step_def held_as_def)
  qed (use h Claim claim_other_key in \<open>simp add: dir_step_def held_as_def\<close>)
next
  case (Release g n)
  then show ?thesis using release_other [OF H h] f by (simp add: dir_step_def foreign_def)
next
  case (Publish O2 e row)
  then show ?thesis using h by (simp add: dir_step_def dir_publishCapacity_def get_setEx held_as_def active_key_neq(1) [THEN not_sym])
next
  case (Remove s)
  obtain m d2 where "rd_del R [SHARD_REGISTRY_KEY_PREFIX @ s] d = (m, d2)" by fastforce
  then show ?thesis using h Remove get_del by (fastforce simp: dir_step_def dir_removeShard_def held_as_def active_key_neq(1) [THEN not_sym])
qed

lemma dir_run_held:
  assumes "host_env H" and "held_as H R d O1 c" and "list_all (foreign c) ops"
  shows "held_as H R (fold (dir_step H R) ops d) O1 c"
  using assms(2,3) by (induction ops arbitrary: d) (simp_all add: dir_step_held [OF assms(1)])

lemma release_own:
  assumes "host_env H" and "held_as H R d O1 c"
  shows "lookupActiveGame H R (ac_gameId c) (snd (releaseActiveGame H R (ac_gameId c) (Some (ac_generation c)) d)) = Inr None"
proof -
  obtain m d2 where x: "rd_del R [active_key (ac_gameId c)] d = (m, d2)" by fastforce
  then have "snd (releaseActiveGame H R (ac_gameId c) (Some (ac_generation c)) d) = d2"
    using held_as_lookup [OF assms] by (simp add: releaseActiveGame_def release_check_def)
  then show ?thesis using get_del [OF x] by (simp add: lookupActiveGame_def getJson_def truthy_def)
qed

end


definition options0 :: RedisBrokerDirectoryOptions where
  "options0 = \<lparr>do_flyMachineId = None, do_publicUrl = None, do_wsPath = None\<rparr>"

definition claim_by :: "string \<Rightarrow> int \<Rightarrow> BrokerActiveGameClaim" where
  "claim_by s n = \<lparr>ac_gameId = ''g'', ac_shardId = s, ac_generation = n, ac_placedAt = 1, ac_refreshedAt = 1\<rparr>"

lemma claim_first: "claimActiveGame plain_host mr_ops options0 (claim_by s n) mr_empty
    = (Inr (), mr_put (active_key ''g'') (json_text (claim_js options0 (claim_by s n))) mr_empty)"
  by (simp add: claimActiveGame_def mr_ops_def mr_empty_def map_has_def claim_by_def)


text \<open>
  A release reads and deletes in two commands. When the first holder's claim has expired in
  between and another shard has claimed the game, the deletion removes that shard's claim.
\<close>

lemma release_race:
  assumes "claimActiveGame plain_host mr_ops options0 (claim_by ''a'' 1) mr_empty = (Inr (), d1)"
  shows "release_check plain_host mr_ops ''g'' (Some 1) d1 = Inr True
    \<and> (let expired = mr_drop [active_key ''g''] d1;
           taken = snd (claimActiveGame plain_host mr_ops options0 (claim_by ''b'' 2) expired)
       in holds plain_host mr_ops taken ''g'' ''b'' 2
          \<and> lookupActiveGame plain_host mr_ops ''g'' (snd (rd_del mr_ops [active_key ''g''] taken)) = Inr None)"
proof -
  have h: "held_as plain_host mr_ops d1 options0 (claim_by ''a'' 1)" by (rule mr.claim_holds [OF assms])
  have g: "ac_gameId (claim_by s n) = ''g''" for s n by (simp add: claim_by_def)
  have 1: "release_check plain_host mr_ops ''g'' (Some 1) d1 = Inr True"
    using held_as_lookup [OF plain_host.host_env_axioms h] by (simp add: release_check_def g) (simp add: claim_by_def)
  have "d1 = mr_put (active_key ''g'') (json_text (claim_js options0 (claim_by ''a'' 1))) mr_empty"
    using assms claim_first by simp
  then have e: "mr_drop [active_key ''g''] d1 = mr_empty"
    by (simp add: mr_drop_def mr_put_def mr_empty_def)
  have h2: "held_as plain_host mr_ops (snd (claimActiveGame plain_host mr_ops options0 (claim_by ''b'' 2) mr_empty)) options0 (claim_by ''b'' 2)"
    using claim_first mr.claim_holds by (metis snd_conv)
  have "holds plain_host mr_ops (snd (claimActiveGame plain_host mr_ops options0 (claim_by ''b'' 2) mr_empty)) ''g'' ''b'' 2"
    using held_as_holds [OF plain_host.host_env_axioms h2] by (simp add: claim_by_def)
  moreover have "lookupActiveGame plain_host mr_ops ''g'' (snd (rd_del mr_ops [active_key ''g''] d)) = Inr None" for d
    using mr.get_del [of "[active_key ''g'']" d] by (cases "rd_del mr_ops [active_key ''g''] d") (simp add: lookupActiveGame_def getJson_def truthy_def)
  ultimately show ?thesis using 1 e by (simp add: Let_def)
qed

section \<open>The queue of host events\<close>

context redis_db
begin

lemma drain_takes_prefix:
  "rd_lrange R (snd (drain H R m g d)) (HOST_EVENT_QUEUE_KEY_PREFIX @ g) = drop m (rd_lrange R d (HOST_EVENT_QUEUE_KEY_PREFIX @ g))"
  "fst (drain H R m g d) = List.map_filter (drained H) (take m (rd_lrange R d (HOST_EVENT_QUEUE_KEY_PREFIX @ g)))"
  by (auto simp: drain_def Let_def lrange_ltrim map_filter_simps min_def)

lemma drain_twice:
  "fst (drain H R m g d) @ fst (drain H R n g (snd (drain H R m g d)))
     = List.map_filter (drained H) (take (m + n) (rd_lrange R d (HOST_EVENT_QUEUE_KEY_PREFIX @ g)))"
  by (simp add: drain_takes_prefix take_add map_filter_def)

end

end
