(* ===== verification/ControlEvents.thy ===== *)
theory ControlEvents
  imports ControlGames BrokerAdaptersProps
begin

text \<open>
  Host events from the control plane to the Broker's queue, the numbering of the control plane's history rows, and what
  snapshots show of a game's state.
\<close>

section \<open>Steps that leave the queues alone\<close>

definition keeps_lists :: "'d redis \<Rightarrow> ('d, 'o, 's, 'a) cp \<Rightarrow> bool" where
  "keeps_lists R m \<longleftrightarrow> (\<forall>w. rd_lrange R (cp_db (snd (m w))) = rd_lrange R (cp_db w))"

definition fetch_keeps_lists :: "('d, 'o, 's) control_env \<Rightarrow> bool" where
  "fetch_keeps_lists C \<longleftrightarrow> (\<forall>c d. rd_lrange (cc_R C) (snd (cc_fetch C c d)) = rd_lrange (cc_R C) d)"

lemma keeps_bind: "keeps_lists R m \<Longrightarrow> (\<And>a. keeps_lists R (f a)) \<Longrightarrow> keeps_lists R (cp_bind m f)"
  unfolding keeps_lists_def cp_bind_def by (auto split: prod.splits sum.splits) (metis snd_conv)+

lemma keeps_pure: "keeps_lists R (cp_return a)" "keeps_lists R (cp_throw s c d)" "keeps_lists R (cp_lift x)" "keeps_lists R (cp_http y)"
    "keeps_lists R (cp_read g)" "keeps_lists R (cp_URL C p b)"
  by (auto simp: keeps_lists_def cp_simps cp_URL_def split: sum.splits)

lemma keeps_append: "keeps_lists R (appendControlHistory C event fs)"
  by (simp add: keeps_lists_def)

lemma keeps_fetch: "fetch_keeps_lists C \<Longrightarrow> keeps_lists (cc_R C) (cp_fetch C m u b)"
  by (auto simp: keeps_lists_def fetch_keeps_lists_def cp_fetch_def cp_try_def cp_lift_def split: prod.splits sum.splits) (metis snd_conv)+

lemmas keeps_rules = keeps_bind keeps_pure keeps_append keeps_fetch

lemma keeps_placement: "fetch_keeps_lists C \<Longrightarrow> keeps_lists (cc_R C) (placementHostEventTarget C g)"
  unfolding placementHostEventTarget_def by (intro keeps_rules) (auto intro!: keeps_rules split: option.splits)

lemma keeps_active: "keeps_lists R (activeHostEventTarget C a)"
  unfolding activeHostEventTarget_def by (intro keeps_rules) (auto intro!: keeps_rules split: option.splits)

lemma keeps_retry: "fetch_keeps_lists C \<Longrightarrow> keeps_lists (cc_R C) (retry_delivery C g r)"
  unfolding retry_delivery_def by (intro keeps_rules keeps_placement) (auto intro!: keeps_rules)

lemma keeps_trigger: "fetch_keeps_lists C \<Longrightarrow> keeps_lists (cc_R C) (triggerHostEventDelivery C g a)"
  unfolding triggerHostEventDelivery_def
  by (intro keeps_bind) (auto intro!: keeps_rules keeps_placement keeps_active keeps_retry split: option.splits)

section \<open>Host events\<close>

lemma event_roundtrip: "event_of_js (event_js r) = r"
  by (simp add: event_of_js_def event_js_def js_text_def js_number_def)

lemma drained_event:
  assumes "host_env H" and "is_json (he_payload r)"
  shows "drained H (json_text (event_js r)) = Some (r\<lparr>he_deliveryAttempts := he_deliveryAttempts r + 1\<rparr>)"
proof -
  have "host_parse H (json_text (event_js r)) = Some (event_js r)"
    by (rule json_codec.parse_text [OF host_env.axioms(1) [OF assms(1)]]) (simp add: event_js_def assms(2))
  moreover obtain fs where "event_js r = JObj fs" by (simp add: event_js_def)
  ultimately show ?thesis using event_roundtrip [of r] by (simp add: drained_def Let_def)
qed

definition event_queue :: "('d, 'o, 's) control_env \<Rightarrow> string \<Rightarrow> 'd \<Rightarrow> string list" where
  "event_queue C g d = rd_lrange (cc_R C) d (HOST_EVENT_QUEUE_KEY_PREFIX @ g)"



section \<open>Numbering of the control plane's rows\<close>

text \<open>
  What happens to the history file: the control plane appends a row, another writer appends a row of a
  shard of its own, the control plane restarts and forgets its counter.
\<close>

datatype file_step = OwnRow string "js js_map" | OtherRow "js js_map" | Restart

fun history_step :: "('d, 'o, 's) control_env \<Rightarrow> file_step \<Rightarrow> ('d, 'o, 's) ControlPlane \<Rightarrow> ('d, 'o, 's) ControlPlane" where
  "history_step C (OwnRow event fs) w = snd (appendControlHistory C event fs w)"
| "history_step C (OtherRow fs) w = w\<lparr>cp_history := Some (default [] (cp_history w) @ json_text (JObj fs) @ [CHR 0x0A])\<rparr>"
| "history_step C Restart w = w\<lparr>cp_nextSeq := []\<rparr>"

fun step_ok :: "file_step \<Rightarrow> bool" where
  "step_ok (OwnRow event fs) = list_all (\<lambda>(k, v). v = JUndef \<or> is_json v) fs"
| "step_ok (OtherRow fs) = (is_json (JObj fs) \<and> js_get (JObj fs) ''shardId'' \<noteq> JStr CONTROL_PLANE_SHARD_ID)"
| "step_ok Restart = True"

fun is_own :: "file_step \<Rightarrow> bool" where
  "is_own (OwnRow event fs) = True"
| "is_own s = False"

definition file_of :: "js list \<Rightarrow> string" where
  "file_of rows = concat (map (\<lambda>v. json_text v @ [newline]) rows)"

definition own_row :: "js \<Rightarrow> bool" where
  "own_row v \<longleftrightarrow> js_get v ''shardId'' = JStr CONTROL_PLANE_SHARD_ID"

definition rows_ok :: "js list \<Rightarrow> nat \<Rightarrow> bool" where
  "rows_ok rows n \<longleftrightarrow> (\<forall>v \<in> set rows. is_json v \<and> isRecord v)
     \<and> map (\<lambda>v. js_get v ''pax_seq'') (filter own_row rows) = map (\<lambda>i. JNum (int i)) [1..<Suc n]
     \<and> (\<forall>v \<in> set (filter own_row rows). is_str (js_get v ''ts'') \<and> is_str (js_get v ''event''))"

lemma control_row_facts:
  assumes "list_all (\<lambda>(k, v). v = JUndef \<or> is_json v) fs"
  shows "is_json (control_row C n event fs)" "isRecord (control_row C n event fs)" "own_row (control_row C n event fs)"
    "js_get (control_row C n event fs) ''pax_seq'' = JNum n" "is_str (js_get (control_row C n event fs) ''ts'')"
    "is_str (js_get (control_row C n event fs) ''event'')"
proof -
  have "list_all (\<lambda>(k, x). is_json x) (filter (\<lambda>(k, v). v \<noteq> JUndef) fs)" using assms by (auto simp: list_all_iff)
  then show "is_json (control_row C n event fs)" by (auto simp: control_row_def intro!: is_json_update)
  show "isRecord (control_row C n event fs)" "own_row (control_row C n event fs)" "js_get (control_row C n event fs) ''pax_seq'' = JNum n"
    "is_str (js_get (control_row C n event fs) ''ts'')" "is_str (js_get (control_row C n event fs) ''event'')"
    by (simp_all add: control_row_def own_row_def update_conv' is_str_def)
qed

lemma record_text: "isRecord v \<Longrightarrow> \<exists>t. json_text v = t @ [CHR 0x7D] \<and> t \<noteq> []"
  by (cases v) auto

lemma last_line_whole:
  assumes "isRecord v"
  shows "trimEnd (s @ json_text v @ [newline]) = s @ json_text v"
proof -
  obtain t where t: "json_text v = t @ [CHR 0x7D]" using record_text [OF assms] by blast
  show ?thesis by (simp add: t trimEnd_def is_space_def)
qed

lemma split_rows:
  assumes "rows \<noteq> []" and "\<forall>v \<in> set rows. is_json v \<and> isRecord v"
  shows "split_on newline (trimEnd (file_of rows)) = map json_text rows"
  using assms
proof (induction rows)
  case (Cons v rows)
  have nl: "newline \<notin> set (json_text v)" using Cons.prems by (simp add: json_text_no_newline)
  show ?case
  proof (cases "rows = []")
    case True
    have "split_on newline (json_text v) = [json_text v]"
      using nl by (rule split_on_plain)
    then show ?thesis using last_line_whole [of v "[]"] Cons.prems True by (simp add: file_of_def)
  next
    case False
    then obtain u rest where r: "rows = rest @ [u]" by (cases rows rule: rev_cases) auto
    have u: "isRecord u" using Cons.prems r by simp
    have "trimEnd (file_of (v # rows)) = json_text v @ [newline] @ trimEnd (file_of rows)"
      using last_line_whole [OF u, of "json_text v @ [newline] @ file_of rest"] last_line_whole [OF u, of "file_of rest"]
      by (simp add: r file_of_def)
    then show ?thesis using Cons.IH False Cons.prems(2) split_on_line [OF nl] by simp
  qed
qed simp

lemma last_seq_rows:
  assumes "host_env H" and "\<forall>v \<in> set rows. is_json v \<and> isRecord v \<and> (own_row v \<longrightarrow> js_int (js_get v ''pax_seq'') \<noteq> None)"
  shows "last_seq H CONTROL_PLANE_SHARD_ID (map json_text rows)
    = (case filter own_row rows of [] \<Rightarrow> 0 | v # _ \<Rightarrow> the (js_int (js_get v ''pax_seq'')))"
  using assms(2)
proof (induction rows)
  case (Cons v rows)
  have "json_text v \<noteq> []" "host_parse H (json_text v) = Some v"
    using Cons.prems record_text [of v] json_codec.parse_text [OF host_env.axioms(1) [OF assms(1)], of v] by auto
  then show ?case using Cons by (auto simp: own_row_def split: js.splits)
qed simp

lemma rows_last:
  assumes "host_env H" and "rows_ok rows n" and "default [] hist = file_of rows"
  shows "loadLastPaxSeqForShard H hist CONTROL_PLANE_SHARD_ID = int n"
proof (cases hist)
  case None
  then have "rows = []" using assms(3) by (cases rows) (auto simp: file_of_def)
  then show ?thesis using None assms(2) by (auto simp: rows_ok_def loadLastPaxSeqForShard_def split: if_splits)
next
  case (Some raw)
  note ok = assms(2) [unfolded rows_ok_def]
  have own: "\<exists>i. js_get v ''pax_seq'' = JNum i" if "v \<in> set rows" "own_row v" for v
  proof -
    have "js_get v ''pax_seq'' \<in> set (map (\<lambda>v. js_get v ''pax_seq'') (filter own_row rows))" using that by auto
    then show ?thesis using ok by auto
  qed
  show ?thesis
  proof (cases "rows = []")
    case True
    then show ?thesis using Some assms(3) ok by (auto simp: file_of_def loadLastPaxSeqForShard_def trimEnd_def split: if_splits)
  next
    case False
    have "loadLastPaxSeqForShard H hist CONTROL_PLANE_SHARD_ID = last_seq H CONTROL_PLANE_SHARD_ID (map json_text (rev rows))"
      using Some assms(3) split_rows [OF False] ok by (simp add: loadLastPaxSeqForShard_def rev_map)
    also have "\<dots> = (case filter own_row (rev rows) of [] \<Rightarrow> 0 | v # _ \<Rightarrow> the (js_int (js_get v ''pax_seq'')))"
      using ok own by (intro last_seq_rows [OF assms(1)]) fastforce
    also have "\<dots> = int n"
    proof (cases n)
      case 0
      then show ?thesis using ok by (auto simp: rev_filter [symmetric] split: list.splits)
    next
      case (Suc m)
      have "map (\<lambda>v. js_get v ''pax_seq'') (filter own_row (rev rows)) = rev (map (\<lambda>i. JNum (int i)) [1..<Suc n])"
        using ok by (metis rev_filter rev_map)
      then show ?thesis using Suc by (auto split: list.splits)
    qed
    finally show ?thesis .
  qed
qed

definition rows_inv :: "('d, 'o, 's) control_env \<Rightarrow> ('d, 'o, 's) ControlPlane \<Rightarrow> js list \<Rightarrow> nat \<Rightarrow> bool" where
  "rows_inv C w rows n \<longleftrightarrow> default [] (cp_history w) = file_of rows \<and> rows_ok rows n
     \<and> (case map_get (cp_nextSeq w) (cc_historyPath C) of None \<Rightarrow> True | Some s \<Rightarrow> s = int n + 1)"

lemma rows_ok_snoc:
  assumes "rows_ok rows n" and "is_json v" and "isRecord v"
    and "own_row v \<Longrightarrow> js_get v ''pax_seq'' = JNum (int n + 1) \<and> is_str (js_get v ''ts'') \<and> is_str (js_get v ''event'')"
  shows "rows_ok (rows @ [v]) (if own_row v then Suc n else n)"
  using assms by (auto simp: rows_ok_def add.commute)

lemma history_step_inv:
  assumes "host_env (cc_host C)" and "rows_inv C w rows n" and "step_ok s"
  shows "\<exists>rows'. rows_inv C (history_step C s w) rows' (if is_own s then Suc n else n)"
proof (cases s)
  case (OwnRow event fs)
  let ?row = "control_row C (int n + 1) event fs"
  have "loadLastPaxSeqForShard (cc_host C) (cp_history w) CONTROL_PLANE_SHARD_ID = int n"
    using assms(2) by (intro rows_last [OF assms(1)]) (auto simp: rows_inv_def)
  then have "fst (nextControlPaxSeq C w) = int n + 1" "cp_history (snd (nextControlPaxSeq C w)) = cp_history w"
    "map_get (cp_nextSeq (snd (nextControlPaxSeq C w))) (cc_historyPath C) = Some (int (Suc n) + 1)"
    using assms(2) by (auto simp: nextControlPaxSeq_def rows_inv_def Let_def update_conv' split: option.splits)
  then have w: "default [] (cp_history (history_step C s w)) = file_of (rows @ [?row])"
    "map_get (cp_nextSeq (history_step C s w)) (cc_historyPath C) = Some (int (Suc n) + 1)"
    using assms(2) by (auto simp: OwnRow appendControlHistory_def rows_inv_def file_of_def split: prod.splits)
  have "list_all (\<lambda>(k, v). v = JUndef \<or> is_json v) fs" using assms(3) by (simp add: OwnRow)
  note row = control_row_facts [OF this, of C "int n + 1" event]
  have "rows_ok (rows @ [?row]) (Suc n)"
    using rows_ok_snoc [of rows n ?row] assms(2) row by (simp add: rows_inv_def)
  then show ?thesis using w by (auto simp: rows_inv_def OwnRow intro!: exI [of _ "rows @ [?row]"])
next
  case (OtherRow fs)
  then have "\<not> own_row (JObj fs)" using assms(3) by (simp add: own_row_def)
  then have "rows_ok (rows @ [JObj fs]) n"
    using rows_ok_snoc [of rows n "JObj fs"] assms(2,3) by (simp add: rows_inv_def OtherRow)
  then show ?thesis
    using assms(2) by (auto simp: rows_inv_def OtherRow file_of_def intro!: exI [of _ "rows @ [JObj fs]"])
next
  case Restart
  then show ?thesis using assms(2) by (auto simp: rows_inv_def)
qed

lemma history_steps_inv:
  assumes "host_env (cc_host C)" and "rows_inv C w rows n" and "list_all step_ok steps"
  shows "\<exists>rows'. rows_inv C (fold (history_step C) steps w) rows' (n + length (filter is_own steps))"
  using assms(2,3)
proof (induction steps arbitrary: w rows n)
  case (Cons s steps)
  obtain rows1 where "rows_inv C (history_step C s w) rows1 (if is_own s then Suc n else n)"
    using history_step_inv [OF assms(1) Cons.prems(1)] Cons.prems(2) by auto
  from Cons.IH [OF this] Cons.prems(2) show ?case by (auto split: if_splits)
qed auto

lemma read_rows:
  assumes "host_env H" and "rows_ok rows n" and "default [] hist = file_of rows"
  shows "filter own_row (readHistory H hist) = filter own_row rows"
proof (cases hist)
  case None
  then have "rows = []" using assms(3) by (cases rows) (auto simp: file_of_def)
  then show ?thesis using None by (simp add: readHistory_def)
next
  case (Some raw)
  have lines: "split_on newline raw = map json_text rows @ [[]]"
    using split_on_lines [of "map json_text rows"] assms(2,3) Some json_text_no_newline by (simp add: file_of_def rows_ok_def o_def)
  have "history_line H (json_text v) = [v] \<or> history_line H (json_text v) = [] \<and> \<not> own_row v" if m: "v \<in> set rows" for v
  proof -
    have "isRecord v" using assms(2) m by (simp add: rows_ok_def)
    then obtain fs where v: "v = JObj fs" by (cases v) auto
    have "host_parse H (json_text v) = Some v"
      using assms(2) m by (intro json_codec.parse_text [OF host_env.axioms(1) [OF assms(1)]]) (simp add: rows_ok_def)
    moreover have "js_trim (json_text v) = json_text v" "json_text v \<noteq> []" unfolding v trim_obj by simp_all
    moreover have "own_row v \<Longrightarrow> is_str (js_get v ''ts'') \<and> is_str (js_get v ''shardId'') \<and> is_str (js_get v ''event'')"
      using assms(2) m by (auto simp: rows_ok_def own_row_def is_str_def)
    ultimately show ?thesis by (auto simp: history_line_def Let_def)
  qed
  then have "filter own_row (concat (map (history_line H \<circ> json_text) rows)) = filter own_row rows"
    by (induction rows) fastforce+
  moreover have "history_line H [] = []" by (simp add: history_line_def js_trim_def)
  ultimately show ?thesis using Some lines by (simp add: readHistory_def)
qed

text \<open>
  C34: however the control plane's rows, the rows of other writers and restarts of the control plane
  follow each other, the rows of the control plane in the history file carry the sequence numbers 1, 2, 3
  and so on, one per row, without gaps and without repetitions.
\<close>

theorem control_rows_numbered:
  assumes "host_env (cc_host C)" and "list_all step_ok steps" and "cp_history w = None" and "cp_nextSeq w = []"
  shows "map (\<lambda>e. js_get e ''pax_seq'') (filter own_row (readHistory (cc_host C) (cp_history (fold (history_step C) steps w))))
    = map (\<lambda>i. JNum (int i)) [1..<Suc (length (filter is_own steps))]"
proof -
  have "rows_inv C w [] 0" using assms(3,4) by (simp add: rows_inv_def rows_ok_def file_of_def)
  then obtain rows where "rows_inv C (fold (history_step C) steps w) rows (length (filter is_own steps))"
    using history_steps_inv [OF assms(1) _ assms(2), of w "[]" 0] by auto
  then show ?thesis
    using read_rows [OF assms(1), of rows "length (filter is_own steps)"] by (auto simp: rows_inv_def rows_ok_def)
qed

theorem control_rows_numbered_witness:
  "map (\<lambda>e. js_get e ''pax_seq'') (filter own_row (readHistory plain_host (cp_history (fold (history_step control0)
     [OwnRow ''a'' [], OtherRow [(''shardId'', JStr ''s'')], Restart, OwnRow ''b'' []] plane0)))) = [JNum 1, JNum 2]"
  using control_rows_numbered [of control0 "[OwnRow ''a'' [], OtherRow [(''shardId'', JStr ''s'')], Restart, OwnRow ''b'' []]" plane0]
    plain_host.host_env_axioms
  by (simp add: CONTROL_PLANE_SHARD_ID_def plane0_def upt_rec)

section \<open>Snapshots\<close>

text \<open>
  The state in a snapshot of a game whose stored state is the JSON of \<open>v\<close>, which is what the Broker reads: the value
  itself, unless it is an object with a field \<^verbatim>\<open>value\<close>, of which only that field is shown.
\<close>

lemma snapshot_state_shown:
  assumes "host_env H" and "is_json v"
  shows "js_get (JObj (decodeStoredBytes H (json_text v))) ''value'' = (if js_get v ''value'' = JUndef then v else js_get v ''value'')"
    and "decodeJsonState H (json_text v) = Inr v"
proof -
  have p: "host_parse H (json_text v) = Some v" "json_text v \<noteq> []"
    using json_codec.parse_text [OF host_env.axioms(1) [OF assms(1)] assms(2)] truthy_json_text [OF assms(2)] by (auto simp: truthy_def split: if_splits)
  show "decodeJsonState H (json_text v) = Inr v" by (simp add: decodeJsonState_def p)
  show "js_get (JObj (decodeStoredBytes H (json_text v))) ''value'' = (if js_get v ''value'' = JUndef then v else js_get v ''value'')"
  proof (cases v)
    case (JObj fs)
    have "map_has fs ''value'' \<longleftrightarrow> js_get v ''value'' \<noteq> JUndef"
      using assms(2) by (auto simp: JObj map_has_def list_all_iff split: option.splits dest!: map_of_SomeD)
    then show ?thesis using p by (simp add: decodeStoredBytes_def decodeStoredText_def JObj)
  qed (use p assms(2) in \<open>simp_all add: decodeStoredBytes_def decodeStoredText_def\<close>)
qed

end
