(* ===== verification/ControlState.thy ===== *)
theory ControlState
  imports ControlEvents
begin

text \<open>
  What the control plane does to state that other components keep: the lists of allowed players, which the
  Broker reads when a player connects, the drains of shards, and the checkpoints of a game in the state
  store.
\<close>

lemma cp_bind_do: "cp_bind (cp_do f) g w = g (fst (f (cp_db w))) (w\<lparr>cp_db := snd (f (cp_db w))\<rparr>)"
  by (simp add: cp_bind_def cp_do_def split: prod.splits)

lemma append_result: "appendControlHistory C event fs w = (x, w') \<Longrightarrow> cp_db w' = cp_db w \<and> cp_state w' = cp_state w"
  using append_history [of C event fs w] by simp

section \<open>Players\<close>

lemma srem_all_lists:
  assumes "redis_db R" and "srem_all R p ks d = (gone, d')"
  shows "set (rd_smembers R d' k) = set (rd_smembers R d k) - (if k \<in> set ks then {p} else {})"
    and "set gone = {k \<in> set ks. p \<in> set (rd_smembers R d k)}"
  using assms(2)
proof (induction ks arbitrary: d gone d' k)
  case (Cons key ks)
  { case 1
    then show ?case using redis_db.smembers_srem [OF assms(1)] Cons.IH(1) by (fastforce split: prod.splits if_splits)
  next
    case 2
    obtain n d1 where r: "rd_srem R key p d = (n, d1)" by fastforce
    obtain g1 where g: "srem_all R p ks d1 = (g1, d')" "gone = (if n > 0 then key # g1 else g1)"
      using 2 r by (auto split: prod.splits)
    have "set (rd_smembers R d1 k) = set (rd_smembers R d k) - (if k = key then {p} else {})" for k
      using redis_db.smembers_srem [OF assms(1) r] by blast
    then show ?case using Cons.IH(2) [OF g(1)] g(2) redis_db.smembers_srem [OF assms(1) r] by (auto split: if_splits) }
qed simp_all

text \<open>
  C37: deleting a player takes the player off every game's list, whichever games there are, and
  leaves every other player's admission alone; the answer names exactly the games whose list held the player.
\<close>

theorem player_deleted_everywhere:
  assumes "redis_frames (cc_R C)" and "cq_method rq = ''DELETE''" and "playerId \<noteq> []"
    and "handlePlayerResource C rq playerId w = (answer, w')"
  shows "\<exists>gameIds. answer = Inr (JsonResponse 200 (JObj [(''ok'', JBool True), (''playerId'', JStr playerId),
        (''removedFromGameIds'', JArr (map JStr gameIds))]))
    \<and> set gameIds = {g. allowed_has (cc_R C) g playerId (cp_db w)}
    \<and> (\<forall>g p. allowed_has (cc_R C) g p (cp_db w') \<longleftrightarrow> allowed_has (cc_R C) g p (cp_db w) \<and> p \<noteq> playerId)"
proof -
  have db: "redis_db (cc_R C)" using assms(1) by (rule redis_frames.axioms(1))
  define keys where "keys = rd_setKeys (cc_R C) (cp_db w) ALLOWED_PLAYERS_KEY_PREFIX"
  obtain gone d where s: "srem_all (cc_R C) playerId keys (cp_db w) = (gone, d)" by fastforce
  let ?ids = "sort (map (drop (length ALLOWED_PLAYERS_KEY_PREFIX)) gone)"
  have keys: "set keys = {k. prefix ALLOWED_PLAYERS_KEY_PREFIX k \<and> rd_smembers (cc_R C) (cp_db w) k \<noteq> []}"
    unfolding keys_def by (rule redis_frames.setKeys [OF assms(1)])
  have run: "answer = Inr (JsonResponse 200 (JObj [(''ok'', JBool True), (''playerId'', JStr playerId),
        (''removedFromGameIds'', JArr (map JStr ?ids))]))" "cp_db w' = d"
    using assms(2-4) s [unfolded keys_def]
    by (auto simp: handlePlayerResource_def removePlayerFromAllAllowedLists_def cp_bind_do bind_append cp_return_def append_history)
  have "set gone = (@) ALLOWED_PLAYERS_KEY_PREFIX ` {g. allowed_has (cc_R C) g playerId (cp_db w)}"
    unfolding srem_all_lists(2) [OF db s] keys by (auto simp: allowed_has_def prefix_def)
  then have "set ?ids = {g. allowed_has (cc_R C) g playerId (cp_db w)}" by (simp add: image_image)
  moreover have "allowed_has (cc_R C) g p d \<longleftrightarrow> allowed_has (cc_R C) g p (cp_db w) \<and> p \<noteq> playerId" for g p
    using srem_all_lists(1) [OF db s, of "ALLOWED_PLAYERS_KEY_PREFIX @ g"] keys by (auto simp: allowed_has_def)
  ultimately show ?thesis using run by blast
qed

theorem player_deleted_everywhere_witness:
  "\<not> allowed_has mr_ops ''g'' ''p'' (cp_db (snd (handlePlayerResource control0 ((post JNull)\<lparr>cq_method := ''DELETE''\<rparr>) ''p''
      (plane0\<lparr>cp_db := rd_sadd mr_ops (ALLOWED_PLAYERS_KEY_PREFIX @ ''g'') ''p'' mr_empty\<rparr>))))
    \<and> allowed_has mr_ops ''g'' ''p'' (rd_sadd mr_ops (ALLOWED_PLAYERS_KEY_PREFIX @ ''g'') ''p'' mr_empty)"
proof -
  let ?w = "plane0\<lparr>cp_db := rd_sadd mr_ops (ALLOWED_PLAYERS_KEY_PREFIX @ ''g'') ''p'' mr_empty\<rparr>"
  have "allowed_has mr_ops ''g'' ''p'' (cp_db ?w)" using mr.smembers_sadd by (simp add: allowed_has_def)
  then show ?thesis
    using player_deleted_everywhere [of control0 "(post JNull)\<lparr>cq_method := ''DELETE''\<rparr>" "''p''" ?w, OF _ _ _ prod.collapse [symmetric]]
      mr.redis_frames_axioms by auto
qed

section \<open>Drains\<close>

text \<open>
  The completion of a drain is recorded once: however often a drained shard is looked at, the second and
  every later look changes neither the history nor the database, until a new drain is requested.
\<close>

theorem drain_completed_once:
  assumes "redis_db (cc_R C)" and "maybeEmitDrainCompleted C shard w = (Inr (), w')"
    and "rd_get (cc_R C) (cp_db w2) = rd_get (cc_R C) (cp_db w')"
  shows "\<exists>w3. maybeEmitDrainCompleted C shard w2 = (Inr (), w3) \<and> cp_history w3 = cp_history w2
    \<and> rd_get (cc_R C) (cp_db w3) = rd_get (cc_R C) (cp_db w2)"
proof -
  let ?k = "SHARD_DRAIN_COMPLETED_KEY_PREFIX @ js_String (js_get shard ''shardId'')"
  obtain b d where s: "rd_setNx (cc_R C) ?k (dec_int (cc_now C)) None (cp_db w) = (b, d)" by fastforce
  obtain b2 d2 where s2: "rd_setNx (cc_R C) ?k (dec_int (cc_now C)) None (cp_db w2) = (b2, d2)" by fastforce
  have "rd_get (cc_R C) d ?k \<noteq> None" using redis_db.get_setNx [OF assms(1) s] by auto
  moreover have "shardStatus shard = ''drained'' \<Longrightarrow> rd_get (cc_R C) (cp_db w') = rd_get (cc_R C) d"
    using assms(2) s
    by (auto simp: maybeEmitDrainCompleted_def markShardDrainCompletedOnce_def cp_bind_do cp_return_def split: if_splits dest!: append_result)
  ultimately have "shardStatus shard = ''drained'' \<Longrightarrow> \<not> b2 \<and> rd_get (cc_R C) d2 = rd_get (cc_R C) (cp_db w2)"
    using redis_db.get_setNx [OF assms(1) s2] assms(3) by auto
  then show ?thesis
    using s2 by (auto simp: maybeEmitDrainCompleted_def markShardDrainCompletedOnce_def cp_bind_do cp_return_def)
qed

theorem drain_completed_once_witness:
  "\<exists>w'. maybeEmitDrainCompleted control0 (JObj [(''shardId'', JStr ''s''), (''status'', JStr ''drained''), (''activeGames'', JNum 0)]) plane0 = (Inr (), w')
    \<and> cp_history w' \<noteq> None
    \<and> cp_history (snd (maybeEmitDrainCompleted control0 (JObj [(''shardId'', JStr ''s''), (''status'', JStr ''drained''), (''activeGames'', JNum 0)]) w'))
      = cp_history w'"
proof -
  let ?shard = "JObj [(''shardId'', JStr ''s''), (''status'', JStr ''drained''), (''activeGames'', JNum 0)]"
  have "shardStatus ?shard = ''drained''" by (simp add: shardStatus_def js_text_def)
  moreover have "fst (rd_setNx mr_ops k v t mr_empty)" for k v t by (simp add: mr_ops_def mr_empty_def map_has_def)
  ultimately obtain w' where w': "maybeEmitDrainCompleted control0 ?shard plane0 = (Inr (), w')" "cp_history w' \<noteq> None"
    by (cases "nextControlPaxSeq control0 (plane0\<lparr>cp_db := snd (rd_setNx mr_ops (SHARD_DRAIN_COMPLETED_KEY_PREFIX @ ''s'') (dec_int 5) None mr_empty)\<rparr>)")
      (auto simp: maybeEmitDrainCompleted_def markShardDrainCompletedOnce_def cp_bind_do appendControlHistory_def)
  then show ?thesis using drain_completed_once [OF _ w'(1) refl] mr.redis_db_axioms by auto
qed

text \<open>The row does not say which shard was drained: the control plane's own name replaces the shard's.\<close>

lemma drain_row_unnamed:
  "control_row C n event [(''shardId'', JStr a), (''activeGames'', v)] = control_row C n event [(''shardId'', JStr b), (''activeGames'', v)]"
  by (simp add: control_row_def)

section \<open>Restores\<close>

lemma cp_bind_ok: "\<not> isl (fst (m w)) \<Longrightarrow> cp_bind m f w = f (projr (fst (m w))) (snd (m w))"
  by (auto simp: cp_bind_def split: prod.splits sum.splits)

text \<open>
  C5: a restore of a sleeping game's checkpoint is answered with the number of a new checkpoint; a snapshot
  taken afterwards shows the restored state, and snapshots at every earlier checkpoint still show what they
  showed before.
\<close>

theorem restore_then_snapshot:
  assumes "host_env (ev_host (cc_E C))" and "cc_ops C = mem_ops (cc_E C)"
    and "history_reach (ev_host (cc_E C)) gid (g, cp_state w, trail)" and "(root1, st, view) \<in> set trail"
    and "cp_body C rq ''restore body'' w = (Inr body, w)" and "readPositiveInteger body ''atCheckpointSeq'' = Inr (rt_checkpointSeq root1)"
    and "getGame (cc_host C) (cc_R C) gid (cp_db w) = Inr (Some game)"
    and "getBundle (cc_host C) (cc_R C) (js_String (js_get game ''bundleName'')) (cp_db w) = Inr (Some bundle)"
    and "getActiveGame (cc_host C) (cc_R C) gid (cp_db w) = Inr None"
    and "handleGameRestore C rq gid w = (answer, w')"
  shows "answer = Inr (JsonResponse 200 (JObj [(''ok'', JBool True), (''gameId'', JStr gid), (''fromCheckpointSeq'', JNum (rt_checkpointSeq root1)),
        (''newCheckpointSeq'', JNum (int (length trail) + 1)), (''reload'', JObj [(''requested'', JBool False)])]))
    \<and> (\<exists>m. snapshot_state C gid None w' = (Inr m, w') \<and> mt_state m = st
         \<and> blob_view (cc_ops C) (cp_state w') (new_session so sn m) = view)
    \<and> (\<forall>(r, st', view') \<in> set trail. \<exists>m. snapshot_state C gid (Some (rt_checkpointSeq r)) w' = (Inr m, w') \<and> mt_state m = st'
         \<and> blob_view (cc_ops C) (cp_state w') (new_session so sn m) = view')"
proof -
  let ?bt = "js_string (js_get (js_get bundle ''manifest'') ''compatTagProduced'')" and ?ct = "js_string (js_get game ''blobCompatTag'')"
  obtain new s' where r: "restoreCheckpoint (cc_E C) (mem_ops (cc_E C)) gid (rt_checkpointSeq root1) ?bt ?ct (cp_state w) = (Inr (Some new), s')"
    and seq: "rt_checkpointSeq new = int (length trail) + 1"
    and head: "\<exists>m. materialize (cc_E C) (mem_ops (cc_E C)) s' gid = Inr m \<and> mt_state m = st \<and> blob_view (mem_ops (cc_E C)) s' (new_session so sn m) = view"
    and old: "\<forall>(r, st', view') \<in> set ((new, st, view) # trail). \<exists>m. viewCheckpoint (cc_E C) (mem_ops (cc_E C)) s' gid (rt_checkpointSeq r) = Inr (Some m)
       \<and> mt_state m = st' \<and> blob_view (mem_ops (cc_E C)) s' (new_session so sn m) = view'"
    using restore_views [OF assms(1,3,4), of ?bt ?ct so sn] by blast
  obtain m0 where v: "viewCheckpoint (cc_E C) (mem_ops (cc_E C)) (cp_state w) gid (rt_checkpointSeq root1) = Inr (Some m0)"
    using checkpoint_viewed [OF assms(1,3,4)] by blast
  let ?w1 = "w\<lparr>cp_state := s'\<rparr>"
  have req: "cp_http (readPositiveInteger body ''atCheckpointSeq'') w = (Inr (rt_checkpointSeq root1), w)"
    "requireGame C gid w = (Inr game, w)" "requireBundle C (js_String (js_get game ''bundleName'')) w = (Inr bundle, w)"
    "cp_state_read C (\<lambda>s. viewCheckpoint (cc_E C) (cc_ops C) s gid (rt_checkpointSeq root1)) w = (Inr (Some m0), w)"
    "cp_read (getActiveGame (cc_host C) (cc_R C) gid) w = (Inr None, w)"
    "cp_restore C gid (rt_checkpointSeq root1) ?bt ?ct w = (Inr (Some new), ?w1)"
    using assms(2,6-9) r v by (simp_all add: cp_Inr cp_state_read_def cp_restore_def)
  have run: "answer = Inr (JsonResponse 200 (JObj [(''ok'', JBool True), (''gameId'', JStr gid), (''fromCheckpointSeq'', JNum (rt_checkpointSeq root1)),
        (''newCheckpointSeq'', JNum (int (length trail) + 1)), (''reload'', JObj [(''requested'', JBool False)])]))" "cp_state w' = s'"
    using assms(10) seq
    by (auto simp: handleGameRestore_def cp_bind_ok assms(5) req cp_return_def)
  have "\<exists>m. snapshot_state C gid None w' = (Inr m, w') \<and> mt_state m = st \<and> blob_view (cc_ops C) (cp_state w') (new_session so sn m) = view"
    using head run(2) assms(2) by (auto simp: snapshot_state_def cp_state_read_def cp_lift_def cp_bind_def cp_return_def)
  moreover have "\<exists>m. snapshot_state C gid (Some (rt_checkpointSeq r)) w' = (Inr m, w') \<and> mt_state m = st'
         \<and> blob_view (cc_ops C) (cp_state w') (new_session so sn m) = view'" if "(r, st', view') \<in> set trail" for r st' view'
    using old that run(2) assms(2) by (fastforce simp: snapshot_state_def cp_state_read_def cp_lift_def cp_bind_def cp_return_def)
  ultimately show ?thesis using run(1) by blast
qed

definition plane3 :: "mem_store \<Rightarrow> (mem_redis, files, mem_store) ControlPlane" where
  "plane3 s = plane1\<lparr>cp_db := mr_put (GAME_KEY_PREFIX @ ''g1'') (json_text (game_js ''g1'' ''b'' (Some ''t1'') 5)) (cp_db plane1), cp_state := s\<rparr>"

lemma plane3_records:
  "getGame plain_host mr_ops ''g1'' (cp_db (plane3 s)) = Inr (Some (game_js ''g1'' ''b'' (Some ''t1'') 5))"
  "getBundle plain_host mr_ops ''b'' (cp_db (plane3 s)) = Inr (Some (bundle_js plain_host (upload_of ''s'')))"
  "getActiveGame plain_host mr_ops ''g1'' (cp_db (plane3 s)) = Inr None"
proof -
  show "getGame plain_host mr_ops ''g1'' (cp_db (plane3 s)) = Inr (Some (game_js ''g1'' ''b'' (Some ''t1'') 5))"
    unfolding getGame_def
    by (rule getJson_text [OF plain_host.host_env_axioms is_json_game]) (simp add: plane3_def mr_ops_def mr_put_def update_conv')
  show "getBundle plain_host mr_ops ''b'' (cp_db (plane3 s)) = Inr (Some (bundle_js plain_host (upload_of ''s'')))"
    unfolding getBundle_def
    by (rule getJson_text [OF plain_host.host_env_axioms is_json_bundle])
      (simp add: plane3_def plane1_def mr_ops_def mr_put_def mr_empty_def update_conv' GAME_KEY_PREFIX_def BUNDLE_KEY_PREFIX_def)
  show "getActiveGame plain_host mr_ops ''g1'' (cp_db (plane3 s)) = Inr None"
    by (simp add: getActiveGame_def getJson_def plane3_def plane1_def mr_ops_def mr_put_def mr_empty_def ACTIVE_GAMES_KEY_PREFIX_def
        GAME_KEY_PREFIX_def BUNDLE_KEY_PREFIX_def update_conv')
qed

theorem restore_then_snapshot_witness:
  "\<exists>s m. snapshot_state control0 ''g1'' None (snd (handleGameRestore control0 (post (JObj [(''atCheckpointSeq'', JNum 1)])) ''g1'' (plane3 s)))
      = (Inr m, snd (handleGameRestore control0 (post (JObj [(''atCheckpointSeq'', JNum 1)])) ''g1'' (plane3 s)))
    \<and> mt_state m = ''a''"
proof -
  obtain g2 s2 root2 root1 where
    h0: "history_reach plain_host ''g1'' (g2, s2, [(root2, (''b'', Map.empty)), (root1, (''a'', Map.empty))])"
    by (rule history0)
  then have h: "history_reach (ev_host env0) ''g1'' (g2, s2, [(root2, (''b'', Map.empty)), (root1, (''a'', Map.empty))])" by (simp add: env0_def)
  have one: "rt_checkpointSeq root1 = 1"
    using history_reach_inv [OF h0 plain_host_env] by (simp add: history_inv_def env0_def)
  let ?fs = "[(''atCheckpointSeq'', JNum 1)]"
  have b: "cp_body control0 (post (JObj ?fs)) ''restore body'' (plane3 s2) = (Inr ?fs, plane3 s2)" by (rule post_body) simp_all
  have p: "readPositiveInteger ?fs ''atCheckpointSeq'' = Inr (rt_checkpointSeq root1)" by (simp add: readPositiveInteger_def one)
  have n: "js_String (js_get (game_js ''g1'' ''b'' (Some ''t1'') 5) ''bundleName'') = ''b''" by (simp add: game_js_def)
  have st: "cp_state (plane3 s2) = s2" by (simp add: plane3_def)
  have "host_env (ev_host (cc_E control0))" "cc_ops control0 = mem_ops (cc_E control0)" using host_env0 by simp_all
  note shown = restore_then_snapshot [where C = control0 and w = "plane3 s2" and game = "game_js ''g1'' ''b'' (Some ''t1'') 5"
      and rq = "post (JObj ?fs)" and st = "''a''" and view = Map.empty and so = StateStoreFlush.options0 and sn = session_options0, OF this, of "''g1''" g2, unfolded st, simplified, OF h [simplified] _ b p,
      unfolded n, OF _ plane3_records prod.collapse [symmetric]]
  then show ?thesis by auto
qed

end
