(* ===== verification/RunnerIsolate.thy ===== *)
theory RunnerIsolate
  imports RunnerHost
begin

text \<open>
  The runner with isolates (\<^verbatim>\<open>runtime/runner/src/ivm.mts\<close>): the script every isolate starts with, which
  has a Base64 codec of its own and builds the messages of a bundle's calls, and \<^verbatim>\<open>IvmRunnerProcess\<close>. The
  library that runs isolates is outside: what the scripts and handlers do in an isolate, its CPU
  time and its heap are arguments.
\<close>

unbundle bit_operations_syntax

section \<open>Base64 inside an isolate\<close>

definition pax_base64_chars :: string where
  "pax_base64_chars = ''ABCDEFGHIJKLMNOPQRSTUVWXYZabcdefghijklmnopqrstuvwxyz0123456789+/''"

text \<open>The shifts are JavaScript's, on 32 bits; \<^verbatim>\<open>>>\<close> keeps the sign.\<close>

definition pax_triplet :: "char \<Rightarrow> char \<Rightarrow> char \<Rightarrow> u32" where
  "pax_triplet a b c = push_bit 16 (of_nat (byte a)) OR push_bit 8 (of_nat (byte b)) OR of_nat (byte c)"

definition pax_sextet :: "u32 \<Rightarrow> nat \<Rightarrow> char" where
  "pax_sextet triplet n = pax_base64_chars ! unat (signed_drop_bit n triplet AND 63)"

fun pax_bytes_to_base64 :: "bytes \<Rightarrow> string" where
  "pax_bytes_to_base64 [] = []"
| "pax_bytes_to_base64 [a] =
     (let triplet = pax_triplet a (CHR 0x00) (CHR 0x00)
      in [pax_sextet triplet 18, pax_sextet triplet 12, CHR ''='', CHR ''=''])"
| "pax_bytes_to_base64 [a, b] =
     (let triplet = pax_triplet a b (CHR 0x00)
      in [pax_sextet triplet 18, pax_sextet triplet 12, pax_sextet triplet 6, CHR ''=''])"
| "pax_bytes_to_base64 (a # b # c # rest) =
     (let triplet = pax_triplet a b c
      in [pax_sextet triplet 18, pax_sextet triplet 12, pax_sextet triplet 6, pax_sextet triplet 0] @ pax_bytes_to_base64 rest)"

fun char_index :: "char \<Rightarrow> string \<Rightarrow> nat option" where
  "char_index c [] = None"
| "char_index c (d # s) = (if d = c then Some 0 else map_option Suc (char_index c s))"

text \<open>
  The loop over the characters. \<open>buffer\<close> is never cut: it wraps around at 32 bits. The bytes written so far fill the
  array from its start; its length is what the loop writes in all.
\<close>

fun pax_decode :: "u32 \<Rightarrow> nat \<Rightarrow> string \<Rightarrow> string + bytes" where
  "pax_decode buffer bits [] = Inr []"
| "pax_decode buffer bits (ch # rest) =
     (case char_index ch pax_base64_chars of
        None \<Rightarrow> Inl ''invalid base64''
      | Some v \<Rightarrow>
          let buffer1 = push_bit 6 buffer OR of_nat v; bits1 = bits + 6
          in if 8 \<le> bits1
             then (case pax_decode buffer1 (bits1 - 8) rest of
                     Inl e \<Rightarrow> Inl e
                   | Inr out \<Rightarrow> Inr (char_of (unat (signed_drop_bit (bits1 - 8) buffer1 AND 255)) # out))
             else pax_decode buffer1 bits1 rest)"

definition strip_pad :: "string \<Rightarrow> string" where
  "strip_pad s = rev (dropWhile (\<lambda>c. c = CHR ''='') (rev s))"

definition pax_base64_to_bytes :: "string \<Rightarrow> string + bytes" where
  "pax_base64_to_bytes base64 = pax_decode 0 0 (strip_pad base64)"

section \<open>The calls of a bundle in an isolate\<close>

definition pax_safe_json :: "host \<Rightarrow> js \<Rightarrow> string + js" where
  "pax_safe_json H v =
     (case stringify v of
        Inl e \<Rightarrow> Inl e
      | Inr None \<Rightarrow> Inl ''SyntaxError''
      | Inr (Some t) \<Rightarrow> (case host_parse H t of None \<Rightarrow> Inl ''SyntaxError'' | Some w \<Rightarrow> Inr w))"

text \<open>A console argument that has no JSON is shown as its string.\<close>

definition pax_console_arg :: "host \<Rightarrow> js \<Rightarrow> js" where
  "pax_console_arg H arg = (case pax_safe_json H arg of Inl e \<Rightarrow> JStr (js_String arg) | Inr w \<Rightarrow> w)"

definition pax_call :: "host \<Rightarrow> sdk_call \<Rightarrow> string + bool \<times> string \<times> js" where
  "pax_call H c =
     (case c of
        C_ws_send target body \<Rightarrow>
          (case pax_safe_json H target of
             Inl e \<Rightarrow> Inl e
           | Inr t \<Rightarrow> sum_map (\<lambda>b. (True, ''ws.send'', JObj [(''target'', t), (''body'', b)])) (pax_safe_json H body))
      | C_log_emit payload \<Rightarrow> sum_map (\<lambda>w. (False, ''log.emit'', w)) (pax_safe_json H payload)
      | C_metrics_emit payload \<Rightarrow> sum_map (\<lambda>w. (False, ''metrics.emit'', w)) (pax_safe_json H payload)
      | C_requestSleep \<Rightarrow> Inr (False, ''lifecycle.requestSleep'', JObj [])
      | C_requestTick intervalMs \<Rightarrow> Inr (False, ''lifecycle.requestTick'', JObj [(''intervalMs'', JNum intervalMs)])
      | C_api_invoke kind args key \<Rightarrow>
          sum_map (\<lambda>w. (True, ''api.invoke'', JObj [(''kind'', JStr kind), (''args'', w),
             (''idempotencyKey'', (case key of None \<Rightarrow> JUndef | Some k \<Rightarrow> JStr k))])) (pax_safe_json H args)
      | C_players_allowed \<Rightarrow> Inr (True, ''players.allowed'', JObj [])
      | C_players_connected \<Rightarrow> Inr (True, ''players.connected'', JObj [])
      | C_compute_budget \<Rightarrow> Inr (True, ''compute.budget'', JObj [])
      | C_state_read \<Rightarrow> Inr (True, ''state.read'', JObj [])
      | C_state_write value \<Rightarrow> sum_map (\<lambda>w. (True, ''state.write'', JObj [(''value'', w)])) (pax_safe_json H value)
      | C_state_flush \<Rightarrow> Inr (True, ''state.flush'', JObj [])
      | C_blob_put key bytes \<Rightarrow> Inr (True, ''blob.put'', JObj [(''key'', JStr key), (''bytesBase64'', JStr (pax_bytes_to_base64 bytes))])
      | C_blob_get key \<Rightarrow> Inr (True, ''blob.get'', JObj [(''key'', JStr key)])
      | C_blob_delete key \<Rightarrow> Inr (True, ''blob.delete'', JObj [(''key'', JStr key)])
      | C_blob_list p \<Rightarrow> Inr (True, ''blob.list'', JObj (case p of None \<Rightarrow> [] | Some s \<Rightarrow> [(''prefix'', JStr s)]))
      | C_console level args \<Rightarrow>
          Inr (False, ''log.emit'', JObj [(''event'', JStr ''console''), (''source'', JStr ''console''), (''level'', JStr level),
            (''message'', JStr (join '' '' (map js_String args))), (''args'', JArr (map (pax_console_arg H) args))]))"

text \<open>The payload leaves the isolate as JSON and is parsed on the other side.\<close>

definition ivm_message :: "host \<Rightarrow> sdk_call \<Rightarrow> string + bool \<times> string \<times> js" where
  "ivm_message H c =
     (case pax_call H c of
        Inl e \<Rightarrow> Inl e
      | Inr (request, channel, payload) \<Rightarrow> sum_map (\<lambda>w. (request, channel, w)) (pax_safe_json H payload))"

definition ivm_perform :: "host \<Rightarrow> string \<Rightarrow> string \<Rightarrow> sdk_call \<Rightarrow> ProcessBrokerBridge \<Rightarrow> (string + unit) \<times> ProcessBrokerBridge" where
  "ivm_perform H uuid gameId c b =
     (case ivm_message H c of
        Inl e \<Rightarrow> (Inl e, b)
      | Inr (request, channel, payload) \<Rightarrow>
          (Inr (), if request then bridge_request uuid gameId channel payload b else bridge_emit gameId channel payload b))"

text \<open>What a bundle gets from an answer, which enters the isolate as JSON too.\<close>

definition pax_truthy :: "js \<Rightarrow> bool" where
  "pax_truthy v =
     (case v of JUndef \<Rightarrow> False | JNull \<Rightarrow> False | JBool b \<Rightarrow> b | JNum n \<Rightarrow> n \<noteq> 0 | JStr s \<Rightarrow> s \<noteq> [] | JBig n \<Rightarrow> n \<noteq> 0 | _ \<Rightarrow> True)"

definition pax_players :: "js \<Rightarrow> js" where
  "pax_players v =
     (if pax_truthy (js_get v ''players'') then js_get v ''players''
      else if pax_truthy (js_get v ''items'') then js_get v ''items'' else JArr [])"

datatype isolate_value = IvmJs js | IvmBytes "bytes option"

definition pax_blob_get :: "js \<Rightarrow> string + bytes option" where
  "pax_blob_get v =
     (if pax_truthy (js_get v ''found'') \<and> pax_truthy (js_get v ''bytesBase64'')
      then sum_map Some (pax_base64_to_bytes (js_String (js_get v ''bytesBase64''))) else Inr None)"

definition pax_answer :: "sdk_call \<Rightarrow> js \<Rightarrow> string + isolate_value" where
  "pax_answer c v =
     (case c of
        C_players_allowed \<Rightarrow> Inr (IvmJs (pax_players v))
      | C_players_connected \<Rightarrow> Inr (IvmJs (pax_players v))
      | C_compute_budget \<Rightarrow> Inr (IvmJs (js_get v ''budget''))
      | C_state_read \<Rightarrow> Inr (IvmJs (if js_get v ''found'' = JBool False then JUndef else js_get v ''value''))
      | C_blob_get key \<Rightarrow> sum_map IvmBytes (pax_blob_get v)
      | C_blob_delete key \<Rightarrow> Inr (IvmJs v)
      | C_blob_list p \<Rightarrow> Inr (IvmJs (js_get v ''items''))
      | _ \<Rightarrow> Inr (IvmJs (unwrapResponse v)))"

definition ivm_answer :: "host \<Rightarrow> sdk_call \<Rightarrow> js \<Rightarrow> string + isolate_value" where
  "ivm_answer H c response = (case pax_safe_json H response of Inl e \<Rightarrow> Inl e | Inr v \<Rightarrow> pax_answer c v)"

text \<open>The same in the runner without isolates (\<^verbatim>\<open>noivm.mts\<close>), which gets the answer itself.\<close>

definition sdk_answer :: "sdk_call \<Rightarrow> js \<Rightarrow> isolate_value" where
  "sdk_answer c v =
     (case c of
        C_players_allowed \<Rightarrow> IvmJs (unwrapPlayers v)
      | C_players_connected \<Rightarrow> IvmJs (unwrapPlayers v)
      | C_compute_budget \<Rightarrow> IvmJs (unwrapBudget v)
      | C_state_read \<Rightarrow> IvmJs (state_read_value v)
      | C_blob_get key \<Rightarrow> IvmBytes (blob_get_bytes v)
      | C_blob_delete key \<Rightarrow> IvmJs v
      | C_blob_list p \<Rightarrow> IvmJs (js_get v ''items'')
      | _ \<Rightarrow> IvmJs (unwrapResponse v))"

section \<open>The clock and the random numbers of an isolate\<close>

definition deterministicRuntime :: "RunnerAssignment \<Rightarrow> bundle_clock" where
  "deterministicRuntime a =
     (let rngState = hashSeed (seed_text a)
      in \<lparr>bc_rngState = rngState, bc_now = 1700000000000 + int (unat rngState mod 1000000000)\<rparr>)"

text \<open>The numerator over \<open>2^32\<close>, and the next state.\<close>

definition ivm_rng :: "bundle_clock \<Rightarrow> u32 \<times> bundle_clock" where
  "ivm_rng k =
     (let rngState = bc_rngState k + 0x6d2b79f5;
          mixed = (rngState XOR drop_bit 15 rngState) * (rngState OR 1);
          mixed1 = mixed XOR (mixed + (mixed XOR drop_bit 7 mixed) * (mixed OR 61))
      in (mixed1 XOR drop_bit 14 mixed1, k\<lparr>bc_rngState := rngState\<rparr>))"

definition ivm_now :: "bundle_clock \<Rightarrow> int \<times> bundle_clock" where
  "ivm_now k = (bc_now k + 1, k\<lparr>bc_now := bc_now k + 1\<rparr>)"

section \<open>The runner\<close>

text \<open>
  Isolates are numbered as they are created; \<open>iv_live\<close> are those that have not been disposed of. \<open>booted\<close> is how the
  set-up of the context and the bootstrap script end, \<open>loaded\<close> how the bundle's script ends and what
  \<^verbatim>\<open>__pax_bundle\<close> is then.
\<close>

record 'b IvmGame =
  ig_assignment :: RunnerAssignment
  ig_isolate :: nat
  ig_bundleExports :: 'b
  ig_cpuMs :: int
  ig_memoryBytes :: int

record 'b IvmRunnerProcess =
  iv_id :: string
  iv_assignedGames :: js_set
  iv_games :: "'b IvmGame js_map"
  iv_live :: "nat list"
  iv_created :: nat

definition ivm_assign ::
  "string + unit \<Rightarrow> string + 'b option \<Rightarrow> RunnerAssignment \<Rightarrow> 'b IvmRunnerProcess \<times> ProcessBrokerBridge
   \<Rightarrow> (string + unit) \<times> 'b IvmRunnerProcess \<times> ProcessBrokerBridge" where
  "ivm_assign booted loaded a = (\<lambda>(R, b).
     if map_has (iv_games R) (ra_gameId a) then (Inl (''game '' @ ra_gameId a @ '' is already assigned''), R, b)
     else
       let isolate = iv_created R; R1 = R\<lparr>iv_created := isolate + 1, iv_live := isolate # iv_live R\<rparr>; disposed = R1\<lparr>iv_live := iv_live R\<rparr>
       in case booted of
            Inl e \<Rightarrow> (Inl e, R1, b)
          | Inr u \<Rightarrow>
             (case loaded of
                Inl e \<Rightarrow> (Inl e, disposed, b)
              | Inr None \<Rightarrow> (Inl (''bundle '' @ as_bundleName a @ '' did not call __pax_install''), disposed, b)
              | Inr (Some bundle) \<Rightarrow>
                  (Inr (),
                   R1\<lparr>iv_games := map_set (ra_gameId a)
                        \<lparr>ig_assignment = a, ig_isolate = isolate, ig_bundleExports = bundle, ig_cpuMs = 0, ig_memoryBytes = 0\<rparr> (iv_games R),
                      iv_assignedGames := set_add (ra_gameId a) (iv_assignedGames R)\<rparr>,
                   bridge_emit (ra_gameId a) ''isolate.ready''
                     (JObj ([(''runnerId'', JStr (iv_id R)), (''bundleName'', JStr (as_bundleName a)),
                        (''bundleCompatTag'', JStr (as_bundleCompatTag a))] @ str_field ''runId'' (as_runId a))) b)))"

definition ivm_dispose :: "nat \<Rightarrow> 'b IvmRunnerProcess \<Rightarrow> 'b IvmRunnerProcess" where
  "ivm_dispose isolate R = R\<lparr>iv_live := removeAll isolate (iv_live R)\<rparr>"

definition ivm_release :: "string \<Rightarrow> 'b IvmRunnerProcess \<Rightarrow> 'b IvmRunnerProcess" where
  "ivm_release gameId R =
     (case map_get (iv_games R) gameId of
        None \<Rightarrow> R
      | Some G \<Rightarrow> (ivm_dispose (ig_isolate G) R)\<lparr>iv_games := map_delete gameId (iv_games R),
                    iv_assignedGames := set_delete gameId (iv_assignedGames R)\<rparr>)"

definition ivm_stop :: "'b IvmRunnerProcess \<Rightarrow> 'b IvmRunnerProcess" where
  "ivm_stop R = (fold (\<lambda>(g, G). ivm_dispose (ig_isolate G)) (iv_games R) R)\<lparr>iv_games := [], iv_assignedGames := []\<rparr>"

text \<open>The statistics of the isolate's heap, and its wall time.\<close>

record ivm_heap =
  ih_used :: int
  ih_external :: int
  ih_limit :: int
  ih_wallTimeMs :: int

definition ivm_counters_js :: "RunnerTelemetry \<Rightarrow> ivm_heap \<Rightarrow> js" where
  "ivm_counters_js t h =
     JObj [(''gameId'', JStr (te_gameId t)), (''runnerId'', JStr (te_runnerId t)), (''memoryBytes'', JNum (te_memoryBytes t)),
       (''cpuMs'', JNum (te_cpuMs t)), (''isolateCount'', JNum (te_isolateCount t)), (''heapUsedBytes'', JNum (ih_used h)),
       (''heapLimitBytes'', JNum (ih_limit h)), (''wallTimeMs'', JNum (ih_wallTimeMs h))]"

definition ivm_emitTelemetry ::
  "ivm_heap \<Rightarrow> string \<Rightarrow> 'b IvmRunnerProcess \<times> ProcessBrokerBridge \<Rightarrow> 'b IvmRunnerProcess \<times> ProcessBrokerBridge" where
  "ivm_emitTelemetry heap gameId = (\<lambda>(R, b).
     case map_get (iv_games R) gameId of
       None \<Rightarrow> (R, b)
     | Some G \<Rightarrow>
        let memoryBytes = ih_used heap + ih_external heap;
            t = \<lparr>te_gameId = gameId, te_runnerId = iv_id R, te_memoryBytes = memoryBytes, te_cpuMs = ig_cpuMs G,
                 te_isolateCount = int (length (iv_games R))\<rparr>
        in (R\<lparr>iv_games := map_set gameId (G\<lparr>ig_memoryBytes := memoryBytes\<rparr>) (iv_games R)\<rparr>,
            bridge_emit gameId ''isolate.counters'' (ivm_counters_js t heap) (emitTelemetry t b)))"

text \<open>
  \<^verbatim>\<open>invoke\<close> up to the call of the handler, and from its end: \<open>IvmMissing\<close> is a member that is undefined or null,
  \<open>IvmOther t\<close> one of the type \<open>t\<close>. The handler's payload is copied before the call; a payload
  that cannot be copied makes the call fail like a handler that throws. The host runs one operation of a game at
  a time, so the game is there when its handler ends.
\<close>

datatype ivm_member = IvmMissing | IvmOther string | IvmFunction

definition ivm_invoke_begin ::
  "('b \<Rightarrow> RuntimeHandlerName \<Rightarrow> ivm_member) \<Rightarrow> ivm_heap \<Rightarrow> int \<Rightarrow> RunnerInvoke \<Rightarrow> 'b IvmRunnerProcess \<times> ProcessBrokerBridge
   \<Rightarrow> (string + bool) \<times> 'b IvmRunnerProcess \<times> ProcessBrokerBridge" where
  "ivm_invoke_begin members heap elapsed i = (\<lambda>(R, b).
     case map_get (iv_games R) (ri_gameId i) of
       None \<Rightarrow> (Inl (''game '' @ ri_gameId i @ '' is not assigned to ivm runner '' @ iv_id R), R, b)
     | Some G \<Rightarrow>
        (case members (ig_bundleExports G) (ri_handler i) of
           IvmMissing \<Rightarrow> (Inr False, ivm_emitTelemetry heap (ri_gameId i)
              (R, bridge_emit (ri_gameId i) ''handler.complete'' (complete_js i elapsed) b))
         | IvmOther t \<Rightarrow> (Inl (handlerName (ri_handler i) @ '' is '' @ t @ '', not a function''), R, b)
         | IvmFunction \<Rightarrow> (Inr True, R, b)))"

definition ivm_invoke_end ::
  "ivm_heap \<Rightarrow> int \<Rightarrow> string + unit \<Rightarrow> int \<Rightarrow> RunnerInvoke \<Rightarrow> 'b IvmRunnerProcess \<times> ProcessBrokerBridge
   \<Rightarrow> (string + unit) \<times> 'b IvmRunnerProcess \<times> ProcessBrokerBridge" where
  "ivm_invoke_end heap cpuMs result durationMs i = (\<lambda>(R, b).
     case result of
       Inr u \<Rightarrow>
         (Inr (), ivm_emitTelemetry heap (ri_gameId i)
            (R\<lparr>iv_games := map_adjust (iv_games R) (ri_gameId i) (\<lambda>G. G\<lparr>ig_cpuMs := ig_cpuMs G + cpuMs\<rparr>)\<rparr>,
             bridge_emit (ri_gameId i) ''handler.complete'' (complete_js i durationMs) b))
     | Inl e \<Rightarrow>
         (Inl e, R, bridge_emit (ri_gameId i) ''handler.error''
            (error_js i e (if durationMs \<ge> ri_timeoutMs i then ''handlerTimeout'' else ''handlerException'') durationMs) b))"

end
