(* ===== verification/RunnerIsolateProps.thy ===== *)
theory RunnerIsolateProps
  imports RunnerIsolate RunnerPool
begin

text \<open>
  The isolates' Base64 codec agrees with Node's, their messages with those of the runner without
  isolates, isolates do not leak, and the runner with isolates satisfies the contract \<open>runner_process\<close> of the pool.
\<close>

unbundle bit_operations_syntax

section \<open>The words\<close>

lemma unat_field:
  assumes "n + k \<le> 32"
  shows "unat (signed_drop_bit n (w :: u32) AND mask k) = unat w div 2 ^ n mod 2 ^ k"
proof -
  have "signed_drop_bit n w AND mask k = drop_bit n w AND mask k"
    using assms by (intro bit_word_eqI) (auto simp: bit_simps)
  also have "\<dots> = take_bit k (drop_bit n w)" by (simp add: take_bit_eq_mask)
  finally have e: "signed_drop_bit n w AND mask k = take_bit k (drop_bit n w)" .
  have "unat (take_bit k (drop_bit n w)) = take_bit k (drop_bit n (unat w))"
    using take_bit_nat_eq_self [of "unat w" 32] unsigned_less [of w, where 'a = nat]
    by (simp only: unsigned_take_bit_eq unsigned_drop_bit_eq) simp
  then show ?thesis unfolding e by (simp add: take_bit_eq_mod drop_bit_eq_div)
qed

lemma unat_shift_in:
  assumes "v < 64"
  shows "unat (push_bit 6 (w :: u32) OR of_nat v) mod 64 = v" and "unat (push_bit 6 w OR of_nat v) mod 4096 = (unat w mod 64) * 64 + v"
proof -
  have v: "v = take_bit 6 v" using assms by (simp add: take_bit_nat_eq_self)
  have "push_bit 6 w AND of_nat v = 0"
    by (subst v) (auto intro!: bit_word_eqI simp: bit_simps)
  then have "push_bit 6 w OR of_nat v = push_bit 6 w + of_nat v" by (simp add: disjunctive_add_eq_or)
  also have "\<dots> = of_nat (unat w * 64 + v)" by (simp add: push_bit_eq_mult)
  finally have e: "push_bit 6 w OR of_nat v = (of_nat (unat w * 64 + v) :: u32)" .
  have u: "unat (push_bit 6 w OR of_nat v) = (unat w * 64 + v) mod 2 ^ 32" unfolding e unat_of_nat by simp
  have "((unat w * 64 + v) mod 2 ^ 32) mod 64 = (unat w * 64 + v) mod 64" by (simp add: mod_mod_cancel)
  also have "\<dots> = v" using assms by simp
  finally show "unat (push_bit 6 w OR of_nat v) mod 64 = v" unfolding u .
  have "((unat w * 64 + v) mod 2 ^ 32) mod 4096 = (unat w * 64 + v) mod 4096" by (simp add: mod_mod_cancel)
  also have "\<dots> = ((unat w div 64) * 4096 + ((unat w mod 64) * 64 + v)) mod 4096"
    using div_mult_mod_eq [of "unat w" 64] by (intro arg_cong [of _ _ "\<lambda>x. x mod 4096"]) linarith
  also have "\<dots> = (unat w mod 64) * 64 + v"
  proof -
    have "(unat w mod 64) * 64 + v < 4096" using assms mod_less_divisor [of 64 "unat w"] by linarith
    then show ?thesis by simp
  qed
  finally show "unat (push_bit 6 w OR of_nat v) mod 4096 = (unat w mod 64) * 64 + v" unfolding u .
qed

lemma unat_triplet: "unat (pax_triplet a b c) = byte a * 65536 + byte b * 256 + byte c"
proof -
  have bd: "byte x < 256" for x using of_char_bound [of x] by simp
  have t: "byte x = take_bit 8 (byte x)" for x using bd by (simp add: take_bit_nat_eq_self)
  let ?m = "push_bit 8 (byte b) OR byte c"
  have disj: "push_bit n x AND take_bit n y = 0" for n x and y :: nat by (auto intro!: bit_eqI simp: bit_simps)
  have "push_bit 8 (byte b) AND byte c = 0" by (subst t [of c]) (rule disj)
  then have m: "?m = byte b * 256 + byte c" by (simp add: disjunctive_add_eq_or push_bit_eq_mult)
  have "byte b * 256 + byte c < 65536" using bd [of b] bd [of c] by linarith
  then have "?m = take_bit 16 ?m" unfolding m by (simp add: take_bit_nat_eq_self)
  then have "push_bit 16 (byte a) AND ?m = 0" using disj [of 16 "byte a" ?m] by simp
  then have n: "push_bit 16 (byte a) OR ?m = byte a * 65536 + (byte b * 256 + byte c)"
    using m by (simp add: disjunctive_add_eq_or push_bit_eq_mult)
  have "pax_triplet a b c = of_nat (push_bit 16 (byte a) OR ?m)"
    by (simp add: pax_triplet_def of_nat_or_eq of_nat_push_bit)
  also have "unat \<dots> = byte a * 65536 + (byte b * 256 + byte c)"
  proof -
    have "byte a * 65536 + (byte b * 256 + byte c) < 16777216" using bd [of a] bd [of b] bd [of c] by linarith
    then show ?thesis unfolding n unat_of_nat by (intro mod_less) simp
  qed
  finally show ?thesis by simp
qed

section \<open>The codec of the isolates is Node's\<close>

lemma pax_char: "n < 64 \<Longrightarrow> pax_base64_chars ! n = b64_char n"
proof -
  have "list_all (\<lambda>n. pax_base64_chars ! n = b64_char n) [0..<64]" by code_simp
  then show "n < 64 \<Longrightarrow> pax_base64_chars ! n = b64_char n" by (simp add: list_all_iff)
qed

lemma pax_sextet_char: "n + 6 \<le> 32 \<Longrightarrow> pax_sextet t n = b64_char (unat t div 2 ^ n mod 64)"
  using unat_field [of n 6 t] by (simp add: pax_sextet_def pax_char mask_eq_exp_minus_1)

lemma div_at: "(r :: nat) < m \<Longrightarrow> (q * m + r) div m = q" "(r :: nat) < m \<Longrightarrow> (q * m + r) mod m = r"
  by simp_all

lemma sextets:
  fixes a b c :: nat
  assumes "a < 256" and "b < 256" and "c < 256"
  shows "(a * 65536 + b * 256 + c) div 2 ^ 18 mod 64 = a div 4"
    and "(a * 65536 + b * 256 + c) div 2 ^ 12 mod 64 = a mod 4 * 16 + b div 16"
    and "(a * 65536 + b * 256 + c) div 2 ^ 6 mod 64 = b mod 16 * 4 + c div 64"
    and "(a * 65536 + b * 256 + c) div 2 ^ 0 mod 64 = c mod 64"
proof -
  obtain a1 a0 where a: "a = a1 * 4 + a0" "a0 < 4" "a1 < 64"
    using assms(1) that [of "a div 4" "a mod 4"] by (simp add: less_mult_imp_div_less)
  obtain b1 b0 where b: "b = b1 * 16 + b0" "b0 < 16" "b1 < 16"
    using assms(2) that [of "b div 16" "b mod 16"] by (simp add: less_mult_imp_div_less)
  obtain c1 c0 where c: "c = c1 * 64 + c0" "c0 < 64" "c1 < 4"
    using assms(3) that [of "c div 64" "c mod 64"] by (simp add: less_mult_imp_div_less)
  have parts: "a div 4 = a1" "a mod 4 = a0" "b div 16 = b1" "b mod 16 = b0" "c div 64 = c1" "c mod 64 = c0"
    using a b c by (simp_all only: div_at)
  let ?t = "a * 65536 + b * 256 + c"
  have "?t = a1 * 262144 + (a0 * 65536 + b * 256 + c)" by (simp add: a)
  moreover have "a0 * 65536 + b * 256 + c < 262144" using a(2) assms by linarith
  ultimately have "?t div 262144 = a1" by (simp only: div_at)
  then show "?t div 2 ^ 18 mod 64 = a div 4" using a(3) parts by simp
  have "?t = (a1 * 64 + (a0 * 16 + b1)) * 4096 + (b0 * 256 + c)" by (simp add: a b)
  moreover have "b0 * 256 + c < 4096" using b(2) assms(3) by linarith
  ultimately have "?t div 4096 = a1 * 64 + (a0 * 16 + b1)" by (simp only: div_at)
  moreover have "a0 * 16 + b1 < 64" using a b by linarith
  ultimately show "?t div 2 ^ 12 mod 64 = a mod 4 * 16 + b div 16" using parts by simp
  have "?t = ((a * 16 + b1) * 64 + (b0 * 4 + c1)) * 64 + c0" by (simp add: b c)
  then have "?t div 64 = (a * 16 + b1) * 64 + (b0 * 4 + c1)" using c(2) by (simp only: div_at)
  moreover have "b0 * 4 + c1 < 64" using b c by linarith
  ultimately have "?t div 64 mod 64 = b0 * 4 + c1" by (simp only: div_at)
  then show "?t div 2 ^ 6 mod 64 = b mod 16 * 4 + c div 64" using parts by simp
  have "?t = (a * 1024 + b * 4 + c1) * 64 + c0" by (simp add: c)
  then show "?t div 2 ^ 0 mod 64 = c mod 64" using c(2) parts by (simp only: div_at power_0 div_by_1)
qed

lemma pax_sextets:
  "pax_sextet (pax_triplet a b c) 18 = b64_char (byte a div 4)"
  "pax_sextet (pax_triplet a b c) 12 = b64_char (byte a mod 4 * 16 + byte b div 16)"
  "pax_sextet (pax_triplet a b c) 6 = b64_char (byte b mod 16 * 4 + byte c div 64)"
  "pax_sextet (pax_triplet a b c) 0 = b64_char (byte c mod 64)"
proof -
  note s = sextets [of "byte a" "byte b" "byte c"]
  have bd: "byte x < 256" for x using of_char_bound [of x] by simp
  have p: "pax_sextet (pax_triplet a b c) n = b64_char ((byte a * 65536 + byte b * 256 + byte c) div 2 ^ n mod 64)" if "n + 6 \<le> 32" for n
    unfolding pax_sextet_char [OF that] unat_triplet ..
  show "pax_sextet (pax_triplet a b c) 18 = b64_char (byte a div 4)"
    "pax_sextet (pax_triplet a b c) 12 = b64_char (byte a mod 4 * 16 + byte b div 16)"
    "pax_sextet (pax_triplet a b c) 6 = b64_char (byte b mod 16 * 4 + byte c div 64)"
    "pax_sextet (pax_triplet a b c) 0 = b64_char (byte c mod 64)"
    using p [of 18] p [of 12] p [of 6] p [of 0] by (simp_all only: s bd)
qed

lemma encoders_agree: "pax_bytes_to_base64 bs = b64_encode bs"
  by (induction bs rule: pax_bytes_to_base64.induct) (simp_all add: pax_sextets Let_def)

text \<open>The decoder: what one step does to the last characters, whatever the buffer held before.\<close>

lemma char_index_nth: "distinct s \<Longrightarrow> i < length s \<Longrightarrow> char_index (s ! i) s = Some i"
  by (induction s arbitrary: i) (auto simp: nth_Cons split: nat.splits)

lemma char_index_None: "c \<notin> set s \<Longrightarrow> char_index c s = None"
  by (induction s) auto

lemma value_char:
  assumes "b64_value c = Some v" and "c \<noteq> CHR ''-''" and "c \<noteq> CHR ''_''"
  shows "v < 64 \<and> b64_char v = c"
proof -
  have r: "c = char_of n" if "byte c = n" for n by (simp add: that [symmetric])
  have "(char_of (45 :: nat) :: char) = CHR ''-''" "(char_of (95 :: nat) :: char) = CHR ''_''"
    "(char_of (43 :: nat) :: char) = CHR ''+''" "(char_of (47 :: nat) :: char) = CHR ''/''" by code_simp+
  then have "byte c = 45 \<Longrightarrow> c = CHR ''-''" "byte c = 95 \<Longrightarrow> c = CHR ''_''" "byte c = 43 \<Longrightarrow> c = CHR ''+''" "byte c = 47 \<Longrightarrow> c = CHR ''/''"
    using r [of 45] r [of 95] r [of 43] r [of 47] by simp_all
  then show ?thesis using assms by (auto simp: b64_value_def b64_char_def Let_def split: if_splits)
qed

lemma index_value: "char_index c pax_base64_chars = (if c = CHR ''-'' \<or> c = CHR ''_'' then None else b64_value c)"
proof -
  have d: "distinct pax_base64_chars" "length pax_base64_chars = 64" "CHR ''-'' \<notin> set pax_base64_chars" "CHR ''_'' \<notin> set pax_base64_chars"
    by code_simp+
  show ?thesis
  proof (cases "c \<in> set pax_base64_chars")
    case True
    then obtain i where i: "i < 64" "c = pax_base64_chars ! i" using d(2) by (auto simp: in_set_conv_nth)
    then have "char_index c pax_base64_chars = Some i" "b64_value c = Some i" using char_index_nth [OF d(1)] d(2) by (simp_all add: pax_char)
    then show ?thesis using True d(3,4) by auto
  next
    case False
    have "b64_value c = None" if "c \<noteq> CHR ''-''" "c \<noteq> CHR ''_''"
    proof (rule ccontr)
      assume "b64_value c \<noteq> None"
      then obtain v where "b64_value c = Some v" by auto
      from value_char [OF this that] have v: "v < 64" "b64_char v = c" by simp_all
      have "pax_base64_chars ! v \<in> set pax_base64_chars" by (rule nth_mem) (simp only: d(2) v(1))
      then show False using False v by (simp only: pax_char)
    qed
    then show ?thesis using char_index_None [OF False] by simp
  qed
qed

lemma value_less: "b64_value c = Some v \<Longrightarrow> v < 64"
  by (auto simp: b64_value_def Let_def split: if_splits)

definition shift_in :: "u32 \<Rightarrow> nat \<Rightarrow> u32" where
  "shift_in w v = push_bit 6 w OR of_nat v"

lemma out_byte:
  assumes "k \<le> 4"
  shows "unat (signed_drop_bit k (w :: u32) AND 255) = unat w mod 4096 div 2 ^ k mod 256"
proof -
  have "unat (signed_drop_bit k w AND 255) = unat w div 2 ^ k mod 2 ^ 8"
    using unat_field [of k 8 w] assms by (simp add: mask_eq_exp_minus_1)
  also have "\<dots> = take_bit 8 (drop_bit k (unat w))" by (simp add: take_bit_eq_mod drop_bit_eq_div)
  also have "\<dots> = take_bit 8 (drop_bit k (take_bit 12 (unat w)))"
    using assms by (auto intro!: bit_eqI simp: bit_simps)
  also have "\<dots> = unat w mod 4096 div 2 ^ k mod 256" by (simp add: take_bit_eq_mod drop_bit_eq_div)
  finally show ?thesis .
qed

lemma pax_decode_step:
  assumes "char_index ch pax_base64_chars = Some v"
  shows "pax_decode w 0 (ch # s) = pax_decode (shift_in w v) 6 s"
    and "pax_decode w 2 (ch # s) = sum_map ((#) (char_of (unat (shift_in w v AND 255)))) (pax_decode (shift_in w v) 0 s)"
    and "pax_decode w 4 (ch # s) = sum_map ((#) (char_of (unat (signed_drop_bit 2 (shift_in w v) AND 255)))) (pax_decode (shift_in w v) 2 s)"
    and "pax_decode w 6 (ch # s) = sum_map ((#) (char_of (unat (signed_drop_bit 4 (shift_in w v) AND 255)))) (pax_decode (shift_in w v) 4 s)"
  using assms by (simp_all add: shift_in_def sum_map_def Let_def split: sum.splits)

lemma shifted_bytes:
  assumes "v < 64" "x < 64" "y < 64" "z < 64"
  shows "unat (signed_drop_bit 4 (shift_in (shift_in w v) x) AND 255) = v * 4 + x div 16"
    and "unat (signed_drop_bit 2 (shift_in (shift_in (shift_in w v) x) y) AND 255) = x mod 16 * 16 + y div 4"
    and "unat (shift_in (shift_in (shift_in (shift_in w v) x) y) z AND 255) = y mod 4 * 64 + z"
proof -
  have two: "unat (shift_in (shift_in w v) x) mod 4096 = v * 64 + x" if "v < 64" "x < 64" for w v x
    using unat_shift_in(2) [OF that(2), of "shift_in w v"] unat_shift_in(1) [OF that(1), of w] unfolding shift_in_def by simp
  obtain x1 x0 where x: "x = x1 * 16 + x0" "x0 < 16" "x1 < 4"
    using assms(2) that [of "x div 16" "x mod 16"] by (simp add: less_mult_imp_div_less)
  obtain y1 y0 where y: "y = y1 * 4 + y0" "y0 < 4" "y1 < 16"
    using assms(3) that [of "y div 4" "y mod 4"] by (simp add: less_mult_imp_div_less)
  have parts: "x div 16 = x1" "x mod 16 = x0" "y div 4 = y1" "y mod 4 = y0" using x y by (simp_all only: div_at)
  have "v * 64 + x = (v * 4 + x1) * 16 + x0" by (simp add: x)
  then have "(v * 64 + x) div 16 = v * 4 + x1" using x(2) by (simp only: div_at)
  moreover have "v * 4 + x1 < 256" using assms(1) x(3) by linarith
  ultimately show "unat (signed_drop_bit 4 (shift_in (shift_in w v) x) AND 255) = v * 4 + x div 16"
    using two [OF assms(1,2)] parts by (simp add: out_byte)
  have "x * 64 + y = (x1 * 256 + (x0 * 16 + y1)) * 4 + y0" by (simp add: x y)
  then have "(x * 64 + y) div 4 = x1 * 256 + (x0 * 16 + y1)" using y(2) by (simp only: div_at)
  moreover have "x0 * 16 + y1 < 256" using x(2) y(3) by linarith
  ultimately have "(x * 64 + y) div 4 mod 256 = x0 * 16 + y1" by (simp only: div_at)
  then show "unat (signed_drop_bit 2 (shift_in (shift_in (shift_in w v) x) y) AND 255) = x mod 16 * 16 + y div 4"
    using two [OF assms(2,3)] parts by (simp add: out_byte)
  have "y * 64 + z = y1 * 256 + (y0 * 64 + z)" "y0 * 64 + z < 256" using y(2) assms(4) by (simp add: y, linarith)
  then have "(y * 64 + z) mod 256 = y0 * 64 + z" by (simp only: div_at)
  then show "unat (shift_in (shift_in (shift_in (shift_in w v) x) y) z AND 255) = y mod 4 * 64 + z"
    using two [OF assms(3,4)] parts out_byte [of 0] by simp
qed

text \<open>The characters of a text that the isolates' decoder accepts, with their values.\<close>

lemma pax_decode_groups:
  assumes "list_all2 (\<lambda>c v. char_index c pax_base64_chars = Some v \<and> v < 64) s vs"
  shows "pax_decode w 0 s = Inr (b64_groups vs)"
  using assms
proof (induction vs arbitrary: s w rule: b64_groups.induct)
  case (1 v x y z r)
  then obtain c1 c2 c3 c4 t where s: "s = c1 # c2 # c3 # c4 # t" by (auto simp: list_all2_Cons2)
  have "pax_decode u 0 t = Inr (b64_groups r)" for u using 1 s by auto
  then show ?case using 1(2) s by (auto simp: pax_decode_step shifted_bytes sum_map_def simp del: pax_decode.simps)
qed (auto simp: list_all2_Cons2 pax_decode_step shifted_bytes sum_map_def simp del: pax_decode.simps(2))

lemma pax_decode_refused: "\<exists>c \<in> set s. c \<notin> set pax_base64_chars \<Longrightarrow> pax_decode w n s = Inl ''invalid base64''"
proof (induction s arbitrary: w n)
  case (Cons c s)
  show ?case
  proof (cases "\<exists>c \<in> set s. c \<notin> set pax_base64_chars")
    case True
    then have "pax_decode w n s = Inl ''invalid base64''" for w n by (rule Cons.IH)
    then show ?thesis by (simp add: Let_def split: option.splits)
  next
    case False
    then have "c \<notin> set pax_base64_chars" using Cons.prems by auto
    then show ?thesis by (simp add: char_index_None)
  qed
qed simp

lemma strip_pad_cases: "\<exists>n. s = strip_pad s @ replicate n (CHR ''='')"
proof -
  let ?p = "\<lambda>c. c = CHR ''=''"
  have "rev s = takeWhile ?p (rev s) @ dropWhile ?p (rev s)" by simp
  then have "s = strip_pad s @ rev (takeWhile ?p (rev s))" unfolding strip_pad_def by (metis rev_append rev_rev_ident)
  moreover have "takeWhile ?p t = replicate (length (takeWhile ?p t)) (CHR ''='')" for t
    by (rule replicate_length_same [symmetric]) (auto dest: set_takeWhileD)
  ultimately show ?thesis by (metis rev_replicate)
qed

lemma pax_char_value: "c \<in> set pax_base64_chars \<Longrightarrow> c \<noteq> CHR ''='' \<and> (\<exists>v. char_index c pax_base64_chars = Some v \<and> b64_value c = Some v \<and> v < 64)"
proof -
  have d: "distinct pax_base64_chars" "length pax_base64_chars = 64" by code_simp+
  assume "c \<in> set pax_base64_chars"
  then obtain i where "i < 64" "c = pax_base64_chars ! i" using d(2) by (auto simp: in_set_conv_nth)
  then show ?thesis using char_index_nth [OF d(1), of i] d(2) by (simp add: pax_char)
qed

lemma decoders_agree:
  assumes "set (strip_pad s) \<subseteq> set pax_base64_chars"
  shows "pax_base64_to_bytes s = Inr (b64_decode s)"
proof -
  let ?vs = "List.map_filter b64_value (strip_pad s)"
  have "list_all2 (\<lambda>c v. char_index c pax_base64_chars = Some v \<and> v < 64) t (List.map_filter b64_value t)"
    if "set t \<subseteq> set pax_base64_chars" for t
    using that
  proof (induction t)
    case (Cons c t)
    then show ?case using pax_char_value [of c] by (auto simp: List.map_filter_simps)
  qed (simp add: List.map_filter_simps)
  then have "pax_base64_to_bytes s = Inr (b64_groups ?vs)"
    using assms unfolding pax_base64_to_bytes_def by (intro pax_decode_groups) simp
  moreover have "takeWhile (\<lambda>c. c \<noteq> CHR ''='') s = strip_pad s"
  proof -
    obtain n where n: "s = strip_pad s @ replicate n (CHR ''='')" using strip_pad_cases by blast
    have "CHR ''='' \<notin> set (strip_pad s)" using assms pax_char_value by blast
    then have "takeWhile (\<lambda>c. c \<noteq> CHR ''='') (strip_pad s @ replicate n (CHR ''='')) = strip_pad s"
      by (subst takeWhile_append2) (auto simp: takeWhile_eq_Nil_iff)
    then show ?thesis using n by simp
  qed
  ultimately show ?thesis by (simp add: b64_decode_def)
qed

lemma encoded_chars: "set (strip_pad (b64_encode bs)) \<subseteq> set pax_base64_chars"
proof -
  have c: "n < 64 \<Longrightarrow> b64_char n \<in> set pax_base64_chars" for n
  proof -
    have "length pax_base64_chars = 64" by code_simp
    then show "n < 64 \<Longrightarrow> b64_char n \<in> set pax_base64_chars" using nth_mem [of n pax_base64_chars] by (simp add: pax_char)
  qed
  have "\<exists>t n. b64_encode bs = t @ replicate n (CHR ''='') \<and> set t \<subseteq> set pax_base64_chars"
  proof (induction bs rule: b64_encode.induct)
    case (2 a)
    have "b64_encode [a] = [b64_char (byte a div 4), b64_char (byte a mod 4 * 16)] @ replicate 2 (CHR ''='')" by (simp add: numeral_2_eq_2)
    then show ?case using c by (intro exI conjI) (assumption, simp)
  next
    case (3 a b)
    have "b64_encode [a, b] = [b64_char (byte a div 4), b64_char (byte a mod 4 * 16 + byte b div 16), b64_char (byte b mod 16 * 4)] @ replicate 1 (CHR ''='')" by simp
    then show ?case using c by (intro exI conjI) (assumption, simp)
  next
    case (4 a b e r)
    then obtain t n where "b64_encode r = t @ replicate n (CHR ''='')" "set t \<subseteq> set pax_base64_chars" by blast
    then show ?case using c
      by (intro exI [of _ "[b64_char (byte a div 4), b64_char (byte a mod 4 * 16 + byte b div 16), b64_char (byte b mod 16 * 4 + byte e div 64),
          b64_char (byte e mod 64)] @ t"] exI [of _ n]) simp
  qed simp
  then obtain t n where t: "b64_encode bs = t @ replicate n (CHR ''='')" "set t \<subseteq> set pax_base64_chars" by blast
  have "strip_pad (b64_encode bs) = strip_pad t" unfolding strip_pad_def t by (simp, subst dropWhile_append2) auto
  then show ?thesis using t(2) by (auto simp: strip_pad_def dest!: set_dropWhileD)
qed

text \<open>
  C38: the Base64 codec that the isolates carry is Node's: its encoder gives the same text for all bytes; its
  decoder, whose 32-bit buffer wraps around, gives back the bytes of every encoded text, and on any other text it
  gives what Node gives, except that it refuses the characters outside its alphabet, which Node
  skips or reads as URL-safe.
\<close>

theorem isolate_base64:
  "pax_bytes_to_base64 bs = b64_encode bs \<and> pax_base64_to_bytes (pax_bytes_to_base64 bs) = Inr bs
   \<and> pax_base64_to_bytes s = (if set (strip_pad s) \<subseteq> set pax_base64_chars then Inr (b64_decode s) else Inl ''invalid base64'')"
proof (intro conjI)
  show "pax_base64_to_bytes (pax_bytes_to_base64 bs) = Inr bs"
    using decoders_agree [OF encoded_chars, of bs] by (simp add: encoders_agree b64_roundtrip)
  show "pax_base64_to_bytes s = (if set (strip_pad s) \<subseteq> set pax_base64_chars then Inr (b64_decode s) else Inl ''invalid base64'')"
    using decoders_agree [of s] pax_decode_refused [of "strip_pad s" 0 0] by (auto simp: pax_base64_to_bytes_def)
qed (rule encoders_agree)

section \<open>Messages of isolates and of the runner without them\<close>

text \<open>The values a call carries.\<close>

fun call_values :: "sdk_call \<Rightarrow> js list" where
  "call_values (C_ws_send target body) = [target, body]"
| "call_values (C_log_emit p) = [p]"
| "call_values (C_metrics_emit p) = [p]"
| "call_values (C_api_invoke kind args key) = [args]"
| "call_values (C_state_write v) = [v]"
| "call_values (C_console level args) = args"
| "call_values c = []"

lemma safe_json_id:
  assumes "json_codec (host_parse H)" and "is_json v"
  shows "pax_safe_json H v = Inr v" and "jsonClone H v = Inr v"
  using json_codec.parse_text [OF assms] stringify_json(1) [OF assms(2)] assms(2) by (auto simp: pax_safe_json_def jsonClone_def)

lemma clone_all_id: "json_codec (host_parse H) \<Longrightarrow> list_all is_json vs \<Longrightarrow> clone_all H vs = Inr vs"
  by (induction vs) (simp_all add: safe_json_id)

lemma safe_json_undef: "pax_safe_json H (JObj [a, b, (k, JUndef)]) = pax_safe_json H (JObj [a, b])"
proof -
  have "stringify_fields [b, (k, JUndef)] = stringify_fields [b]" for b by (cases b) (simp split: sum.splits option.splits)
  then have "stringify_fields [a, b, (k, JUndef)] = stringify_fields [a, b]" by (cases a) (simp split: sum.splits option.splits)
  then show ?thesis by (simp only: pax_safe_json_def stringify.simps)
qed

lemma console_args: "json_codec (host_parse H) \<Longrightarrow> list_all is_json vs \<Longrightarrow> map (pax_console_arg H) vs = vs"
  by (induction vs) (simp_all add: pax_console_arg_def safe_json_id)

text \<open>Answers with the fields of the wire contract: lists of players, a flag, the Base64 text of bytes.\<close>

definition contract_answer :: "js \<Rightarrow> bool" where
  "contract_answer v \<longleftrightarrow> is_json v \<and> (js_get v ''players'' = JUndef \<or> (\<exists>xs. js_get v ''players'' = JArr xs))
     \<and> (js_get v ''items'' = JUndef \<or> (\<exists>xs. js_get v ''items'' = JArr xs)) \<and> (js_get v ''found'' = JUndef \<or> (\<exists>b. js_get v ''found'' = JBool b))
     \<and> (js_get v ''bytesBase64'' = JUndef \<or> (\<exists>bs. js_get v ''bytesBase64'' = JStr (b64_encode bs)))"

lemma pax_answer_sdk:
  assumes "contract_answer v"
  shows "pax_answer c v = Inr (sdk_answer c v)"
proof -
  have p: "pax_players v = unwrapPlayers v"
    using assms by (auto simp: contract_answer_def pax_players_def unwrapPlayers_def pax_truthy_def nullish_def)
  have "pax_base64_to_bytes (b64_encode bs) = Inr bs" for bs using decoders_agree [OF encoded_chars, of bs] by (simp add: b64_roundtrip)
  then have "pax_blob_get v = Inr (blob_get_bytes v)"
    using assms by (auto simp: contract_answer_def pax_blob_get_def blob_get_bytes_def pax_truthy_def truthy_def b64_roundtrip sum_map_def)
  then show ?thesis using p by (cases c) (simp_all add: pax_answer_def sdk_answer_def state_read_value_def unwrapBudget_def sum_map_def)
qed

text \<open>
  C39: a bundle cannot tell from its messages where it runs. For calls whose values are JSON, an
  isolate sends the same message as the runner without isolates, on the same channel, as a request or not alike;
  and from every answer with the fields of the wire contract the bundle gets the same value.
\<close>

theorem isolate_messages_agree:
  assumes "json_codec (host_parse H)" and "list_all is_json (call_values c)" and "contract_answer v"
  shows "ivm_perform H uuid gameId c b = sdk_perform H uuid gameId c b \<and> ivm_answer H c v = Inr (sdk_answer c v)"
proof -
  have "ivm_message H c = sdk_message H c"
  proof (cases c)
    case (C_api_invoke kind args key)
    then have "is_json args" using assms(2) by simp
    then show ?thesis
      using safe_json_id [OF assms(1), of "JObj [(''kind'', JStr kind), (''args'', args), (''idempotencyKey'', JStr (the key))]"]
        safe_json_id [OF assms(1), of "JObj [(''kind'', JStr kind), (''args'', args)]"] safe_json_id [OF assms(1), of args]
      by (cases key) (auto simp: C_api_invoke ivm_message_def pax_call_def sdk_message_def sum_map_def str_field_def safe_json_undef)
  qed (use assms(1,2) in \<open>auto simp: ivm_message_def pax_call_def sdk_message_def sum_map_def str_field_def safe_json_id clone_all_id console_args
      encoders_agree list_all_iff split: option.splits\<close>)
  then show ?thesis
    using pax_answer_sdk [OF assms(3)] safe_json_id(1) [OF assms(1), of v] assms(3)
    by (simp add: ivm_perform_def sdk_perform_def ivm_answer_def contract_answer_def)
qed

theorem isolate_messages_agree_witness:
  "ivm_perform plain_host ''u'' ''g'' (C_blob_put ''k'' ''AB'') = sdk_perform plain_host ''u'' ''g'' (C_blob_put ''k'' ''AB'')
   \<and> ivm_answer plain_host (C_blob_get ''k'') (JObj [(''found'', JBool True), (''bytesBase64'', JStr (b64_encode ''AB''))])
     = Inr (IvmBytes (Some ''AB''))"
proof -
  let ?v = "JObj [(''found'', JBool True), (''bytesBase64'', JStr (b64_encode ''AB''))]"
  have v: "contract_answer ?v" by (auto simp: contract_answer_def simp del: b64_encode.simps)
  have n: "b64_encode ''AB'' \<noteq> []" by simp
  have codec: "json_codec (host_parse plain_host)" by (rule host_env.axioms(1) [OF plain_host.host_env_axioms])
  have "sdk_answer (C_blob_get ''k'') ?v = IvmBytes (Some ''AB'')"
    using n by (simp add: sdk_answer_def blob_get_bytes_def truthy_def b64_roundtrip del: b64_encode.simps)
  then show ?thesis
    using isolate_messages_agree [OF codec _ v, of "C_blob_put ''k'' ''AB''" "''u''" "''g''"] isolate_messages_agree [OF codec _ v, of "C_blob_get ''k''"]
    by (auto simp del: b64_encode.simps)
qed

text \<open>The runners differ on a value that has no JSON: without isolates it is sent without the value, in an isolate the call fails.\<close>

lemma undefined_state_differs:
  "sdk_message H (C_state_write JUndef) = Inr (True, ''state.write'', JObj [(''value'', JUndef)])"
  "ivm_message H (C_state_write JUndef) = Inl ''SyntaxError''"
  by (simp_all add: sdk_message_def ivm_message_def pax_call_def pax_safe_json_def jsonClone_def sum_map_def)

text \<open>A bundle sees the same clock and the same random numbers in both runners.\<close>

lemma isolate_clock: "deterministicRuntime a = makeContext a" "ivm_rng k = c_rng k" "ivm_now k = c_now k"
  by (simp_all add: deterministicRuntime_def makeContext_def ivm_rng_def c_rng_def makeMulberry32_def ivm_now_def c_now_def Let_def)

section \<open>Isolates and games\<close>

text \<open>What happens to a runner, with what comes from outside.\<close>

datatype 'b ivm_op =
    IvmAssign "string + unit" "string + 'b option" RunnerAssignment
  | IvmBegin "'b \<Rightarrow> RuntimeHandlerName \<Rightarrow> ivm_member" ivm_heap int RunnerInvoke
  | IvmEnd ivm_heap int "string + unit" int RunnerInvoke
  | IvmRelease string
  | IvmStop

fun ivm_run :: "'b ivm_op \<Rightarrow> 'b IvmRunnerProcess \<times> ProcessBrokerBridge \<Rightarrow> 'b IvmRunnerProcess \<times> ProcessBrokerBridge" where
  "ivm_run (IvmAssign booted loaded a) p = snd (ivm_assign booted loaded a p)"
| "ivm_run (IvmBegin members heap elapsed i) p = snd (ivm_invoke_begin members heap elapsed i p)"
| "ivm_run (IvmEnd heap cpuMs result durationMs i) p = snd (ivm_invoke_end heap cpuMs result durationMs i p)"
| "ivm_run (IvmRelease g) p = (ivm_release g (fst p), snd p)"
| "ivm_run IvmStop p = (ivm_stop (fst p), snd p)"

fun boots :: "'b ivm_op \<Rightarrow> bool" where
  "boots (IvmAssign booted loaded a) = (\<not> isl booted)"
| "boots _ = True"

definition new_ivm :: "string \<Rightarrow> 'b IvmRunnerProcess" where
  "new_ivm name = \<lparr>iv_id = name, iv_assignedGames = [], iv_games = [], iv_live = [], iv_created = 0\<rparr>"

definition isolates :: "'b IvmRunnerProcess \<Rightarrow> (string \<times> nat) list" where
  "isolates R = map (\<lambda>(g, G). (g, ig_isolate G)) (iv_games R)"

text \<open>Every live isolate is the isolate of one game, and the games are the assigned ones.\<close>

definition ivm_inv :: "'b IvmRunnerProcess \<Rightarrow> bool" where
  "ivm_inv R \<longleftrightarrow> distinct (map fst (isolates R)) \<and> distinct (map snd (isolates R)) \<and> distinct (iv_live R)
     \<and> set (iv_live R) = snd ` set (isolates R) \<and> (\<forall>n \<in> set (iv_live R). n < iv_created R)
     \<and> set (iv_assignedGames R) = fst ` set (isolates R)"

lemma isolates_frame [simp]:
  "isolates (R\<lparr>iv_created := n\<rparr>) = isolates R" "isolates (R\<lparr>iv_live := l\<rparr>) = isolates R"
  by (simp_all add: isolates_def)

lemma isolates_adjust:
  assumes "map_get (iv_games R) g = Some G" and "ig_isolate G' = ig_isolate G"
  shows "isolates (R\<lparr>iv_games := map_set g G' (iv_games R)\<rparr>) = isolates R"
proof -
  have "map_get m g = Some G \<Longrightarrow> map (\<lambda>(g, G). (g, ig_isolate G)) (map_set g G' m) = map (\<lambda>(g, G). (g, ig_isolate G)) m" for m
    using assms(2) by (induction m) (auto split: if_splits)
  then show ?thesis using assms(1) by (simp add: isolates_def)
qed

lemma ivm_inv_same:
  assumes "ivm_inv R" and "isolates R' = isolates R" and "iv_live R' = iv_live R" and "iv_created R' = iv_created R"
    and "iv_assignedGames R' = iv_assignedGames R"
  shows "ivm_inv R'"
  using assms by (simp add: ivm_inv_def)

lemma isolate_telemetry_inv: "ivm_inv R \<Longrightarrow> ivm_inv (fst (ivm_emitTelemetry heap g (R, b)))"
  by (auto simp: ivm_emitTelemetry_def Let_def isolates_adjust split: option.splits intro: ivm_inv_same)

lemma adjust_inv: "ivm_inv R \<Longrightarrow> ivm_inv (R\<lparr>iv_games := map_adjust (iv_games R) g (\<lambda>G. G\<lparr>ig_cpuMs := f G\<rparr>)\<rparr>)"
  by (auto simp: map_adjust_def isolates_adjust split: option.splits intro: ivm_inv_same)

lemma isolate_assign_inv:
  assumes "ivm_inv R" and "\<not> isl booted"
  shows "ivm_inv (fst (snd (ivm_assign booted loaded a (R, b))))"
proof (cases "map_has (iv_games R) (ra_gameId a)")
  case False
  have g: "ra_gameId a \<notin> fst ` set (iv_games R)" using False by (simp add: map_has_def map_of_eq_None_iff)
  then have g': "ra_gameId a \<notin> fst ` set (isolates R)" by (force simp: isolates_def)
  have n: "iv_created R \<notin> set (iv_live R)" using assms(1) by (auto simp: ivm_inv_def)
  obtain u where u: "booted = Inr u" using assms(2) by (cases booted) auto
  have same: "ivm_inv (R\<lparr>iv_created := Suc (iv_created R), iv_live := iv_live R\<rparr>)"
    using assms(1) by (auto simp: ivm_inv_def intro: less_SucI)
  show ?thesis
  proof (cases "\<exists>bundle. loaded = Inr (Some bundle)")
    case True
    then obtain x where l: "loaded = Inr (Some x)" by blast
    let ?R = "fst (snd (ivm_assign booted loaded a (R, b)))"
    have R: "isolates ?R = isolates R @ [(ra_gameId a, iv_created R)]" "iv_live ?R = iv_created R # iv_live R"
      "iv_created ?R = Suc (iv_created R)" "iv_assignedGames ?R = set_add (ra_gameId a) (iv_assignedGames R)"
      using False by (simp_all add: ivm_assign_def Let_def u l isolates_def map_set_absent [OF g])
    have "snd ` set (isolates R) = set (iv_live R)" using assms(1) by (simp add: ivm_inv_def)
    moreover have "m < Suc (iv_created R)" if "m \<in> set (iv_live R)" for m
    proof -
      have "\<forall>n \<in> set (iv_live R). n < iv_created R" using assms(1) unfolding ivm_inv_def by blast
      then show ?thesis using that by (blast intro: less_SucI)
    qed
    ultimately show ?thesis using assms(1) g' n unfolding ivm_inv_def R by simp
  next
    case False
    then have "fst (snd (ivm_assign booted loaded a (R, b))) = R\<lparr>iv_created := Suc (iv_created R), iv_live := iv_live R\<rparr>"
      using \<open>\<not> map_has (iv_games R) (ra_gameId a)\<close> by (auto simp: ivm_assign_def Let_def u split: sum.splits option.splits)
    then show ?thesis using same by simp
  qed
qed (use assms in \<open>simp add: ivm_assign_def\<close>)

lemma removed_snd:
  assumes "distinct (map fst l)" and "distinct (map snd l)" and "(g, n) \<in> set l"
  shows "snd ` set (filter (\<lambda>(k, m). g \<noteq> k) l) = snd ` set l - {n}"
  using assms
proof (induction l)
  case (Cons p l)
  obtain k m where p: "p = (k, m)" by fastforce
  show ?case
  proof (cases "k = g")
    case True
    then have "g \<notin> fst ` set l" "m \<notin> snd ` set l" "m = n"
      using Cons.prems p by (auto simp: rev_image_eqI)
    moreover from this have "filter (\<lambda>(k, m). g \<noteq> k) l = l" by (auto simp: filter_id_conv rev_image_eqI)
    ultimately show ?thesis using p True by auto
  next
    case False
    then have l: "(g, n) \<in> set l" using Cons.prems p by auto
    then have "m \<noteq> n" using Cons.prems(2) p by (auto simp: rev_image_eqI)
    then show ?thesis using Cons.IH Cons.prems l p False by auto
  qed
qed simp

lemma isolate_release_inv:
  assumes "ivm_inv R"
  shows "ivm_inv (ivm_release g R)"
proof (cases "map_get (iv_games R) g")
  case (Some G)
  then have G: "(g, ig_isolate G) \<in> set (isolates R)" by (force simp: isolates_def dest: map_of_SomeD)
  have i: "isolates (ivm_release g R) = filter (\<lambda>(k, n). g \<noteq> k) (isolates R)"
    using Some by (simp add: ivm_release_def isolates_def AList.delete_eq filter_map o_def case_prod_unfold)
  have "snd ` set (isolates (ivm_release g R)) = snd ` set (isolates R) - {ig_isolate G}"
    unfolding i using assms G by (intro removed_snd) (simp_all add: ivm_inv_def)
  moreover have "fst ` set (isolates (ivm_release g R)) = fst ` set (isolates R) - {g}" unfolding i by force
  moreover have "iv_live (ivm_release g R) = removeAll (ig_isolate G) (iv_live R)" "iv_created (ivm_release g R) = iv_created R"
    "iv_assignedGames (ivm_release g R) = set_delete g (iv_assignedGames R)"
    using Some by (simp_all add: ivm_release_def ivm_dispose_def)
  moreover have "distinct (map fst (isolates (ivm_release g R)))" "distinct (map snd (isolates (ivm_release g R)))"
    using assms unfolding i by (simp_all add: ivm_inv_def distinct_map_filter)
  ultimately show ?thesis using assms by (simp add: ivm_inv_def distinct_removeAll)
qed (use assms in \<open>simp add: ivm_release_def\<close>)

lemma stop_disposes:
  "iv_live (fold (\<lambda>(g, G). ivm_dispose (ig_isolate G)) gs R) = filter (\<lambda>n. n \<notin> (ig_isolate \<circ> snd) ` set gs) (iv_live R)"
proof (induction gs arbitrary: R)
  case (Cons x gs)
  have "filter P (removeAll n l) = filter (\<lambda>m. m \<noteq> n \<and> P m) l" for P l and n :: nat by (induction l) auto
  then show ?case using Cons.IH by (cases x) (simp add: ivm_dispose_def)
qed simp

lemma stop_inv:
  assumes "ivm_inv R"
  shows "ivm_inv (ivm_stop R)" and "iv_live (ivm_stop R) = []"
proof -
  have "(ig_isolate \<circ> snd) ` set (iv_games R) = snd ` set (isolates R)" by (force simp: isolates_def)
  then show l: "iv_live (ivm_stop R) = []"
    using assms by (auto simp: ivm_stop_def stop_disposes ivm_inv_def filter_empty_conv)
  then show "ivm_inv (ivm_stop R)" unfolding ivm_inv_def l by (simp add: isolates_def ivm_stop_def)
qed

lemma ivm_run_inv:
  assumes "ivm_inv (fst p)" and "boots op"
  shows "ivm_inv (fst (ivm_run op p))"
proof -
  obtain R b where p: "p = (R, b)" by fastforce
  have R: "ivm_inv R" using assms(1) p by simp
  show ?thesis
  proof (cases op)
    case (IvmAssign booted loaded a)
    then show ?thesis using isolate_assign_inv [OF R] assms(2) p by simp
  next
    case (IvmBegin members heap elapsed i)
    then show ?thesis using R isolate_telemetry_inv [OF R] p by (auto simp: ivm_invoke_begin_def split: option.splits ivm_member.splits)
  next
    case (IvmEnd heap cpuMs result durationMs i)
    then show ?thesis using R isolate_telemetry_inv [OF adjust_inv [OF R]] p by (auto simp: ivm_invoke_end_def split: sum.splits)
  qed (use R p isolate_release_inv stop_inv in auto)
qed

text \<open>
  C40: isolates do not leak. After any sequence of assignments (with bundles that load or fail), calls, releases and
  stops of a fresh runner in which every isolate could be set up, the live isolates are
  those of the assigned games, one per game; and a stop leaves none.
\<close>

theorem isolates_accounted:
  assumes "list_all boots ops" and "(R, b) = fold ivm_run ops (new_ivm name, b0)"
  shows "distinct (iv_live R) \<and> set (iv_live R) = snd ` set (isolates R) \<and> length (iv_live R) = length (iv_games R)
    \<and> set (iv_assignedGames R) = fst ` set (iv_games R) \<and> iv_live (ivm_stop R) = []"
proof -
  have "ivm_inv (fst (fold ivm_run ops p))" if "ivm_inv (fst p)" for p
    using assms(1) that
  proof (induction ops arbitrary: p)
    case (Cons op ops)
    then show ?case using Cons.IH [of "ivm_run op p"] ivm_run_inv [of p op] by simp
  qed simp
  moreover have "ivm_inv (new_ivm name)" by (simp add: ivm_inv_def new_ivm_def isolates_def)
  ultimately have inv: "ivm_inv R" using assms(2) by (metis fst_conv)
  then have "length (iv_live R) = length (iv_games R)"
    unfolding ivm_inv_def by (metis distinct_card isolates_def length_map list.set_map)
  moreover have "fst ` set (isolates R) = fst ` set (iv_games R)" by (force simp: isolates_def)
  ultimately show ?thesis using inv stop_inv(2) [OF inv] by (simp add: ivm_inv_def)
qed

theorem isolates_accounted_witness:
  "length (iv_live (fst (fold ivm_run [IvmAssign (Inr ()) (Inr (Some ())) assignment0] (new_ivm ''r'', new_bridge)))) = 1
   \<and> iv_live (ivm_stop (fst (fold ivm_run [IvmAssign (Inr ()) (Inr (Some ())) assignment0] (new_ivm ''r'', new_bridge)))) = []"
proof -
  let ?ops = "[IvmAssign (Inr ()) (Inr (Some ())) assignment0]"
  have "length (iv_games (fst (fold ivm_run ?ops (new_ivm ''r'', new_bridge)))) = 1"
    by (simp add: ivm_assign_def new_ivm_def map_has_def Let_def)
  then show ?thesis
    using isolates_accounted [of ?ops "fst (fold ivm_run ?ops (new_ivm ''r'', new_bridge))" "snd (fold ivm_run ?ops (new_ivm ''r'', new_bridge))"
        "''r''" new_bridge, OF _ prod.collapse] by simp
qed

text \<open>An isolate whose set-up fails is never disposed of: the bootstrap script runs before the handler of failures.\<close>

lemma failed_setup_leaks:
  assumes "\<not> map_has (iv_games R) (ra_gameId a)"
  shows "iv_live (fst (snd (ivm_assign (Inl e) loaded a (R, b)))) = iv_created R # iv_live R"
    and "isolates (fst (snd (ivm_assign (Inl e) loaded a (R, b)))) = isolates R"
  using assms by (simp_all add: ivm_assign_def Let_def)

section \<open>The runner with isolates as a runner\<close>

definition ivm_ops :: "('b IvmRunnerProcess \<times> ProcessBrokerBridge) runner_ops" where
  "ivm_ops = \<lparr>ro_id = (\<lambda>p. iv_id (fst p)), ro_assignedGames = (\<lambda>p. iv_assignedGames (fst p)), ro_maxAssignedGames = \<lambda>p. None\<rparr>"

definition ivm_assigned ::
  "(string + unit) \<times> (string + 'b option) \<Rightarrow> RunnerAssignment \<Rightarrow> 'b IvmRunnerProcess \<times> ProcessBrokerBridge
   \<Rightarrow> (string + unit) \<times> 'b IvmRunnerProcess \<times> ProcessBrokerBridge" where
  "ivm_assigned x a p = ivm_assign (fst x) (snd x) a p"

definition ivm_released ::
  "string \<Rightarrow> 'b IvmRunnerProcess \<times> ProcessBrokerBridge \<Rightarrow> (string + unit) \<times> 'b IvmRunnerProcess \<times> ProcessBrokerBridge" where
  "ivm_released g p = (Inr (), ivm_release g (fst p), snd p)"

definition ivm_ok :: "'b IvmRunnerProcess \<times> ProcessBrokerBridge \<Rightarrow> bool" where
  "ivm_ok p \<longleftrightarrow> (\<forall>g. g \<in> set (iv_assignedGames (fst p)) \<longleftrightarrow> map_has (iv_games (fst p)) g)"

lemma ivm_assigned_cases:
  "ivm_assigned x a p = (y, p') \<Longrightarrow> ivm_ok p \<Longrightarrow> ivm_ok p'
    \<and> (case y of Inl e \<Rightarrow> iv_assignedGames (fst p') = iv_assignedGames (fst p)
       | Inr u \<Rightarrow> ra_gameId a \<notin> set (iv_assignedGames (fst p)) \<and> iv_assignedGames (fst p') = iv_assignedGames (fst p) @ [ra_gameId a])"
  by (auto simp: ivm_assigned_def ivm_assign_def ivm_ok_def map_has_def set_add_def update_conv' Let_def
      split: if_splits sum.splits option.splits prod.splits)

lemma ivm_released_cases:
  "ivm_released g p = (y, p') \<Longrightarrow> ivm_ok p \<Longrightarrow> y = Inr () \<and> ivm_ok p' \<and> iv_assignedGames (fst p') = set_delete g (iv_assignedGames (fst p))"
  by (auto simp: ivm_released_def ivm_release_def ivm_dispose_def ivm_ok_def map_has_def delete_conv' set_delete_def
      split: option.splits if_splits intro!: filter_True [symmetric])

interpretation ivm: runner_process ivm_ops ivm_ok ivm_assigned ivm_released
proof unfold_locales
  fix r :: "'b IvmRunnerProcess \<times> ProcessBrokerBridge" and r' x a y g
  show "ivm_assigned x a r = (y, r') \<Longrightarrow>
    ro_id ivm_ops r' = ro_id ivm_ops r \<and> ro_maxAssignedGames ivm_ops r' = ro_maxAssignedGames ivm_ops r"
    by (auto simp: ivm_assigned_def ivm_assign_def ivm_ops_def Let_def split: if_splits sum.splits option.splits prod.splits)
  show "ivm_released g r = (y, r') \<Longrightarrow>
    ro_id ivm_ops r' = ro_id ivm_ops r \<and> ro_maxAssignedGames ivm_ops r' = ro_maxAssignedGames ivm_ops r"
    by (auto simp: ivm_released_def ivm_release_def ivm_dispose_def ivm_ops_def split: option.splits)
qed (auto dest!: ivm_assigned_cases ivm_released_cases simp: ivm_ops_def)

end
