(* ===== verification/Harness.thy ===== *)
theory Harness
  imports RunnerIsolate GatewayEnvelope
begin

unbundle bit_operations_syntax

text \<open>
  The test harness of bundles (\<^verbatim>\<open>sdk/runtime-sdk-test-harness/src\<close>): an in-memory context with seeded random numbers, sessions,
  state, blobs and recorded answers of API kinds, and the lint of a bundle's source. A handler of a bundle is given by the calls it
  makes on the context and how it ends; what those calls are may depend on their answers, the harness does not.
\<close>

section \<open>Random numbers and fingerprints\<close>

text \<open>One call of the closure \<^verbatim>\<open>makeSeededRng\<close> returns: the numerator over \<open>2^32\<close> and the next state.\<close>

definition makeSeededRng :: "u32 \<Rightarrow> u32 \<times> u32" where
  "makeSeededRng state0 =
     (let state = state0 + 0x6d2b79f5;
          mixed = (state XOR drop_bit 15 state) * (state OR 1);
          mixed1 = mixed XOR (mixed + (mixed XOR drop_bit 7 mixed) * (mixed OR 61))
      in (mixed1 XOR drop_bit 14 mixed1, state))"

definition harness_hashSeed :: "string \<Rightarrow> u32" where
  "harness_hashSeed input = foldl (\<lambda>hash c. (hash XOR word_of_nat (byte c)) * 0x01000193) 0x811c9dc5 input"

fun sortJson :: "host \<Rightarrow> js \<Rightarrow> js" where
  "sortJson H (JArr xs) = JArr (map (sortJson H) xs)"
| "sortJson H (JObj fs) =
     JObj (object_order (sort_by (\<lambda>l r. host_localeLe H (fst l) (fst r)) (map (\<lambda>(k, x). (k, sortJson H x)) fs)))"
| "sortJson H v = v"

text \<open>\<open>Inl\<close>: \<^verbatim>\<open>JSON.stringify\<close> throws.\<close>

definition stableJson :: "host \<Rightarrow> js \<Rightarrow> string + string" where
  "stableJson H v = (case stringify (sortJson H v) of Inl e \<Rightarrow> Inl e | Inr None \<Rightarrow> Inr ''null'' | Inr (Some t) \<Rightarrow> Inr t)"

definition fnv1a32 :: "string \<Rightarrow> string" where
  "fnv1a32 input = pad_start0 8 (radix 16 (unat (harness_hashSeed input)))"

definition fingerprintArgs :: "host \<Rightarrow> js \<Rightarrow> string + string" where
  "fingerprintArgs H v = (case stableJson H v of Inl e \<Rightarrow> Inl e | Inr t \<Rightarrow> Inr (fnv1a32 t))"

section \<open>The harness\<close>

record HarnessSession = ConnectedSessionSnapshot +
  hn_jwtClaims :: "js js_map"

record HarnessApiFixture =
  hf_kind :: string
  hf_argsFingerprint :: string
  hf_response :: ApiInvokeResponse

record HarnessApiInvocation =
  hi_kind :: string
  hi_args :: js
  hi_idempotencyKey :: "string option"
  hi_triggeringSessionId :: "string option"
  hi_connectedSessions :: "ConnectedSessionSnapshot list"
  hi_response :: ApiInvokeResponse

record HarnessOptions =
  ho_seed :: "string option"
  ho_nowStartMs :: "int option"
  ho_allowedPlayers :: "string list"
  ho_sessions :: "HarnessSession list"
  ho_state :: js
  ho_blobs :: "bytes js_map"
  ho_apiFixtures :: "HarnessApiFixture list"
  ho_computeBudget :: "ComputeBudgetSnapshot option"

record RuntimeSdkHarness =
  ha_state :: js
  ha_blobs :: "bytes js_map"
  ha_now :: int
  ha_nextSeq :: int
  ha_triggering :: "string option"
  ha_rng :: u32
  ha_allowed :: js_set
  ha_sessions :: "HarnessSession js_map"
  ha_fixtures :: "ApiInvokeResponse js_map"
  ha_logs :: "js list"
  ha_metrics :: "js list"
  ha_wsMessages :: "(js \<times> js) list"
  ha_apiInvocations :: "HarnessApiInvocation list"
  ha_budget :: ComputeBudgetSnapshot

fun DEFAULT_COMPUTE_BUDGET :: ComputeBudgetSnapshot where
  "DEFAULT_COMPUTE_BUDGET CpuMsPerTick = \<lparr>bu_currentUsage = 0, bu_limit = 1000, bu_windowMs = None\<rparr>"
| "DEFAULT_COMPUTE_BUDGET MemoryBytes = \<lparr>bu_currentUsage = 0, bu_limit = 134217728, bu_windowMs = None\<rparr>"
| "DEFAULT_COMPUTE_BUDGET BandwidthBytesPerSec = \<lparr>bu_currentUsage = 0, bu_limit = 65536, bu_windowMs = Some 1000\<rparr>"
| "DEFAULT_COMPUTE_BUDGET WsMessagesPerSec = \<lparr>bu_currentUsage = 0, bu_limit = 50, bu_windowMs = Some 1000\<rparr>"
| "DEFAULT_COMPUTE_BUDGET StateBytes = \<lparr>bu_currentUsage = 0, bu_limit = 131072, bu_windowMs = None\<rparr>"
| "DEFAULT_COMPUTE_BUDGET BlobBytes = \<lparr>bu_currentUsage = 0, bu_limit = 104857600, bu_windowMs = None\<rparr>"
| "DEFAULT_COMPUTE_BUDGET BlobKeys = \<lparr>bu_currentUsage = 0, bu_limit = 1024, bu_windowMs = None\<rparr>"
| "DEFAULT_COMPUTE_BUDGET ApiInvocationsPerMin = \<lparr>bu_currentUsage = 0, bu_limit = 60, bu_windowMs = Some 60000\<rparr>"

definition fixture_key :: "string \<Rightarrow> string \<Rightarrow> string" where
  "fixture_key kind fingerprint = kind @ '':'' @ fingerprint"

definition fixtureMap :: "HarnessApiFixture list \<Rightarrow> ApiInvokeResponse js_map" where
  "fixtureMap fixtures = fold (\<lambda>f. map_set (fixture_key (hf_kind f) (hf_argsFingerprint f)) (hf_response f)) fixtures []"

definition createRuntimeSdkHarness :: "string option \<Rightarrow> HarnessOptions \<Rightarrow> RuntimeSdkHarness" where
  "createRuntimeSdkHarness runId o1 =
     \<lparr>ha_state = ho_state o1, ha_blobs = ho_blobs o1, ha_now = default 1700000000000 (ho_nowStartMs o1), ha_nextSeq = 0,
      ha_triggering = None, ha_rng = harness_hashSeed (default (default ''pax-harness'' runId) (ho_seed o1)),
      ha_allowed = fold set_add (ho_allowedPlayers o1) [],
      ha_sessions = fold (\<lambda>s. map_set (ss_sessionId s) s) (ho_sessions o1) [],
      ha_fixtures = fixtureMap (ho_apiFixtures o1), ha_logs = [], ha_metrics = [], ha_wsMessages = [], ha_apiInvocations = [],
      ha_budget = default DEFAULT_COMPUTE_BUDGET (ho_computeBudget o1)\<rparr>"

definition connectedSessionsSnapshot :: "host \<Rightarrow> HarnessSession js_map \<Rightarrow> ConnectedSessionSnapshot list" where
  "connectedSessionsSnapshot H sessions =
     sort_by (\<lambda>a b. host_localeLe H (ss_sessionId a) (ss_sessionId b))
       (map (\<lambda>(k, s). \<lparr>ss_sessionId = ss_sessionId s, ss_playerId = ss_playerId s, ss_connectedAt = ss_connectedAt s\<rparr>) sessions)"

definition responseForFixture :: "host \<Rightarrow> ApiInvokeResponse js_map \<Rightarrow> string \<Rightarrow> js \<Rightarrow> string + ApiInvokeResponse" where
  "responseForFixture H fixtures kind args =
     (case fingerprintArgs H args of
        Inl e \<Rightarrow> Inl e
      | Inr fp \<Rightarrow>
         (case map_get fixtures (fixture_key kind fp) of
            Some r \<Rightarrow> Inr r
          | None \<Rightarrow> Inr (ApiErr ReplayCoverageGap (Some (JObj [(''kind'', JStr kind), (''argsFingerprint'', JStr fp)])))))"

section \<open>The context\<close>

datatype harness_call =
    HRng
  | HNow
  | HSend js js
  | HLog js
  | HMetrics js
  | HRequestSleep
  | HRequestTick int
  | HInvoke string js "string option"
  | HAllowed
  | HConnected
  | HBudget
  | HStateRead
  | HStateWrite js
  | HStateFlush
  | HBlobPut string bytes
  | HBlobGet string
  | HBlobDelete string
  | HBlobList string

datatype harness_answer =
    ARng u32
  | ANow int
  | ASend WsSendResponse
  | AUnit
  | AInvoke ApiInvokeResponse
  | AThrown string
  | AAllowed "string list"
  | AConnected "ConnectedSessionSnapshot list"
  | ABudget ComputeBudgetSnapshot
  | AState js
  | AWritten StorageWriteResponse
  | ABlob "bytes option"
  | ABlobs "(string \<times> int) list"

definition serializationFailed :: "string \<Rightarrow> string \<Rightarrow> WsSendResponse" where
  "serializationFailed field message =
     WsErr SerializationFailed (Some (JObj [(''field'', JStr field), (''message'', JStr message)]))"

definition tryJsonStringify :: "js \<Rightarrow> string \<Rightarrow> WsSendResponse + string" where
  "tryJsonStringify value field =
     (case stringify value of
        Inl m \<Rightarrow> Inl (serializationFailed field m)
      | Inr None \<Rightarrow> Inl (serializationFailed field ''value must be JSON-serializable'')
      | Inr (Some raw) \<Rightarrow> Inr raw)"

definition harness_send :: "js \<Rightarrow> js \<Rightarrow> RuntimeSdkHarness \<Rightarrow> WsSendResponse \<times> RuntimeSdkHarness" where
  "harness_send target body h =
     (case tryJsonStringify target ''target'' of
        Inl r \<Rightarrow> (r, h)
      | Inr t \<Rightarrow>
         (case tryJsonStringify body ''body'' of
            Inl r \<Rightarrow> (r, h)
          | Inr raw \<Rightarrow> (WsSent 1 (int (length raw)), h\<lparr>ha_wsMessages := ha_wsMessages h @ [(target, body)]\<rparr>)))"

definition harness_invoke :: "host \<Rightarrow> string \<Rightarrow> js \<Rightarrow> string option \<Rightarrow> RuntimeSdkHarness \<Rightarrow> (string + ApiInvokeResponse) \<times> RuntimeSdkHarness" where
  "harness_invoke H kind args key h =
     (case responseForFixture H (ha_fixtures h) kind args of
        Inl e \<Rightarrow> (Inl e, h)
      | Inr response \<Rightarrow>
         (Inr response,
          h\<lparr>ha_apiInvocations := ha_apiInvocations h @
             [\<lparr>hi_kind = kind, hi_args = args, hi_idempotencyKey = key, hi_triggeringSessionId = ha_triggering h,
               hi_connectedSessions = connectedSessionsSnapshot H (ha_sessions h), hi_response = response\<rparr>]\<rparr>))"

fun harness_do :: "host \<Rightarrow> harness_call \<Rightarrow> RuntimeSdkHarness \<Rightarrow> harness_answer \<times> RuntimeSdkHarness" where
  "harness_do H HRng h = (let (r, s) = makeSeededRng (ha_rng h) in (ARng r, h\<lparr>ha_rng := s\<rparr>))"
| "harness_do H HNow h = (ANow (ha_now h + 1), h\<lparr>ha_now := ha_now h + 1\<rparr>)"
| "harness_do H (HSend target body) h = (case harness_send target body h of (r, h1) \<Rightarrow> (ASend r, h1))"
| "harness_do H (HLog payload) h = (AUnit, h\<lparr>ha_logs := ha_logs h @ [payload]\<rparr>)"
| "harness_do H (HMetrics payload) h = (AUnit, h\<lparr>ha_metrics := ha_metrics h @ [payload]\<rparr>)"
| "harness_do H HRequestSleep h =
     (AUnit, h\<lparr>ha_logs := ha_logs h @ [JObj [(''event'', JStr ''harness.lifecycle.requestSleep'')]]\<rparr>)"
| "harness_do H (HRequestTick ms) h =
     (AUnit, h\<lparr>ha_logs := ha_logs h @ [JObj [(''event'', JStr ''harness.lifecycle.requestTick''), (''intervalMs'', JNum ms)]]\<rparr>)"
| "harness_do H (HInvoke kind args key) h =
     (case harness_invoke H kind args key h of (Inl e, h1) \<Rightarrow> (AThrown e, h1) | (Inr r, h1) \<Rightarrow> (AInvoke r, h1))"
| "harness_do H HAllowed h = (AAllowed (sort (ha_allowed h)), h)"
| "harness_do H HConnected h = (AConnected (connectedSessionsSnapshot H (ha_sessions h)), h)"
| "harness_do H HBudget h = (ABudget (ha_budget h), h)"
| "harness_do H HStateRead h = (AState (ha_state h), h)"
| "harness_do H (HStateWrite v) h = (AWritten StorageOk, h\<lparr>ha_state := v\<rparr>)"
| "harness_do H HStateFlush h = (AWritten StorageOk, h)"
| "harness_do H (HBlobPut k b) h = (AWritten StorageOk, h\<lparr>ha_blobs := map_set k b (ha_blobs h)\<rparr>)"
| "harness_do H (HBlobGet k) h = (ABlob (map_get (ha_blobs h) k), h)"
| "harness_do H (HBlobDelete k) h = (AWritten StorageOk, h\<lparr>ha_blobs := map_delete k (ha_blobs h)\<rparr>)"
| "harness_do H (HBlobList p) h =
     (ABlobs (sort_by (\<lambda>a b. host_localeLe H (fst a) (fst b))
        (map (\<lambda>(k, b). (k, int (length b))) (filter (\<lambda>(k, b). prefix p k) (ha_blobs h)))), h)"

fun harness_calls :: "host \<Rightarrow> harness_call list \<Rightarrow> RuntimeSdkHarness \<Rightarrow> RuntimeSdkHarness" where
  "harness_calls H [] h = h"
| "harness_calls H (c # cs) h = harness_calls H cs (snd (harness_do H c h))"

section \<open>Events\<close>

text \<open>A handler: the calls it makes and whether it throws; a missing one makes none. The results start with the payload the handler is given.\<close>

type_synonym handler_script = "harness_call list \<times> (string + unit)"

definition harness_connect :: "host \<Rightarrow> HarnessSession \<Rightarrow> handler_script \<Rightarrow> RuntimeSdkHarness \<Rightarrow> js \<times> (string + unit) \<times> RuntimeSdkHarness" where
  "harness_connect H session script h =
     (JObj [(''playerId'', JStr (ss_playerId session)), (''sessionId'', JStr (ss_sessionId session)),
        (''jwtClaims'', JObj (hn_jwtClaims session)), (''connectedAt'', JNum (ss_connectedAt session))],
      snd script, harness_calls H (fst script)
        (h\<lparr>ha_allowed := set_add (ss_playerId session) (ha_allowed h),
           ha_sessions := map_set (ss_sessionId session) session (ha_sessions h)\<rparr>))"

definition harness_disconnect :: "host \<Rightarrow> string \<Rightarrow> string option \<Rightarrow> handler_script \<Rightarrow> RuntimeSdkHarness
    \<Rightarrow> js option \<times> (string + unit) \<times> RuntimeSdkHarness" where
  "harness_disconnect H sessionId reason script h =
     (case map_get (ha_sessions h) sessionId of
        None \<Rightarrow> (None, Inr (), h)
      | Some session \<Rightarrow>
         (Some (JObj [(''playerId'', JStr (ss_playerId session)), (''sessionId'', JStr sessionId), (''reason'', JStr (default ''left'' reason))]),
          snd script, harness_calls H (fst script) (h\<lparr>ha_sessions := map_delete sessionId (ha_sessions h)\<rparr>)))"

record HarnessBundleInput =
  hb_compatTagProduced :: string
  hb_bundleName :: "string option"
  hb_bundleCompatTag :: "string option"
  hb_runId :: "string option"

definition harness_wake :: "host \<Rightarrow> HarnessBundleInput \<Rightarrow> js js_map \<Rightarrow> handler_script \<Rightarrow> RuntimeSdkHarness
    \<Rightarrow> js \<times> (string + unit) \<times> RuntimeSdkHarness" where
  "harness_wake H input payload script h =
     (JObj (fold (\<lambda>(k, v). map_set k v) payload
        [(''reason'', JStr ''cold-start''), (''runId'', JStr (default ''harness-run'' (hb_runId input))),
         (''bundleName'', JStr (default ''harness-bundle'' (hb_bundleName input))),
         (''bundleCompatTag'', JStr (default (hb_compatTagProduced input) (hb_bundleCompatTag input))), (''state'', ha_state h)]),
      snd script, harness_calls H (fst script) h)"

text \<open>\<open>given\<close> is the sequence number of the payload; the number the handler sees is in the result.\<close>

definition playerMessage :: "host \<Rightarrow> string \<Rightarrow> int option \<Rightarrow> handler_script \<Rightarrow> RuntimeSdkHarness
    \<Rightarrow> int \<times> (string + unit) \<times> RuntimeSdkHarness" where
  "playerMessage H sessionId given script h =
     (let seq = default (ha_nextSeq h + 1) given;
          h1 = harness_calls H (fst script) (h\<lparr>ha_nextSeq := seq, ha_triggering := Some sessionId\<rparr>)
      in (seq, snd script, h1\<lparr>ha_triggering := None\<rparr>))"

section \<open>The lint\<close>

record HarnessLintFinding =
  hl_code :: string
  hl_message :: string
  hl_line :: nat
  hl_column :: nat

text \<open>\<^verbatim>\<open>split(/\r?\n/)\<close>\<close>

fun split_lines :: "string \<Rightarrow> string list" where
  "split_lines [] = [[]]"
| "split_lines (c # s) =
     (if c = CHR 0x0A then [] # split_lines s
      else if c = CHR 0x0D \<and> prefix [CHR 0x0A] s then split_lines s
      else case split_lines s of [] \<Rightarrow> [[c]] | l # ls \<Rightarrow> (c # l) # ls)"

text \<open>\<^verbatim>\<open>indexOf\<close>, from the start of the text.\<close>

fun index_sub :: "string \<Rightarrow> string \<Rightarrow> nat option" where
  "index_sub p [] = (if p = [] then Some 0 else None)"
| "index_sub p (c # s) = (if prefix p (c # s) then Some 0 else map_option Suc (index_sub p s))"

function find_columns :: "string \<Rightarrow> string \<Rightarrow> nat \<Rightarrow> nat list" where
  "find_columns p line from =
     (if length line \<le> from \<or> p = [] then []
      else case index_sub p (drop from line) of
        None \<Rightarrow> []
      | Some k \<Rightarrow> (from + k) # find_columns p line (from + k + length p))"
  by pat_completeness auto
termination by (relation "measure (\<lambda>(p, line, from). length line - from)") (auto simp: not_le neq_Nil_conv)

declare find_columns.simps [simp del]

definition findPattern :: "string \<Rightarrow> string \<Rightarrow> string \<Rightarrow> string \<Rightarrow> HarnessLintFinding list" where
  "findPattern source pattern1 code message =
     concat (map (\<lambda>(i, line). map (\<lambda>k. \<lparr>hl_code = code, hl_message = message, hl_line = i + 1, hl_column = k + 1\<rparr>)
         (find_columns pattern1 line 0))
       (List.enumerate 0 (split_lines source)))"

definition lintBundleSource :: "string \<Rightarrow> HarnessLintFinding list" where
  "lintBundleSource source =
     findPattern source ''Date.now'' ''raw-date-now'' ''Use c.now() for deterministic tests.''
     @ findPattern source ''Math.random'' ''raw-math-random'' ''Use c.rng() for deterministic tests.''"

definition assertHarnessLintClean :: "string \<Rightarrow> string + unit" where
  "assertHarnessLintClean source =
     (let findings = lintBundleSource source in
      if findings = [] then Inr ()
      else Inl (join [CHR 0x0A] (map (\<lambda>f. hl_code f @ '' at '' @ dec_nat (hl_line f) @ '':'' @ dec_nat (hl_column f) @ '': '' @ hl_message f) findings)))"

section \<open>Random numbers of the harness and of the runners\<close>

lemma makeSeededRng_mulberry: "makeSeededRng = makeMulberry32"
  by (simp add: fun_eq_iff makeSeededRng_def makeMulberry32_def Let_def)

lemma harness_hashSeed_runner: "harness_hashSeed = hashSeed"
proof -
  have "(\<lambda>hash c. (hash XOR word_of_nat (byte c)) * 0x01000193) = hash_step" by (simp add: fun_eq_iff hash_step_def)
  then show ?thesis by (simp add: fun_eq_iff harness_hashSeed_def hashSeed_def)
qed

lemma ivm_rng_c_rng: "ivm_rng k = c_rng k"
  by (simp add: ivm_rng_def c_rng_def makeMulberry32_def Let_def)

definition draws :: "('a \<Rightarrow> u32 \<times> 'a) \<Rightarrow> nat \<Rightarrow> 'a \<Rightarrow> u32" where
  "draws f n s = fst (f (((snd \<circ> f) ^^ n) s))"

lemma draws_simulated:
  assumes "\<And>s. fst (f s) = fst (g (v s))" and "\<And>s. v (snd (f s)) = snd (g (v s))"
  shows "draws f n s = draws g n (v s)"
proof -
  have "v (((snd \<circ> f) ^^ n) s) = ((snd \<circ> g) ^^ n) (v s)" by (induction n) (simp_all add: assms(2))
  then show ?thesis by (simp add: draws_def assms(1))
qed

text \<open>
  The harness is a faithful source of random numbers: seeded with the text that a runner seeds a game with, its numbers are the runner's,
  one by one, with isolates and without.
\<close>

lemma harness_numbers_as_runtime:
  "draws makeSeededRng n (harness_hashSeed (seed_text a)) = draws c_rng n (makeContext a)"
  "draws makeSeededRng n (harness_hashSeed (seed_text a)) = draws ivm_rng n (deterministicRuntime a)"
proof -
  have sim: "draws c_rng n k = draws makeSeededRng n (bc_rngState k)" for k :: bundle_clock
    by (rule draws_simulated) (simp_all add: c_rng_def makeSeededRng_mulberry split_def Let_def)
  show "draws makeSeededRng n (harness_hashSeed (seed_text a)) = draws c_rng n (makeContext a)"
    by (simp add: sim makeContext_def harness_hashSeed_runner Let_def)
  have "ivm_rng = c_rng" by (simp add: fun_eq_iff ivm_rng_c_rng)
  then show "draws makeSeededRng n (harness_hashSeed (seed_text a)) = draws ivm_rng n (deterministicRuntime a)"
    by (simp add: sim deterministicRuntime_def harness_hashSeed_runner Let_def)
qed

text \<open>Seeded with the test seed alone, as a test does, it is not: the runner adds the game and the bundle to the seed.\<close>

lemma harness_seed_differs: "fst (makeSeededRng (harness_hashSeed ''7'')) \<noteq> fst (makeSeededRng (harness_hashSeed ''7:g:b:t''))"
  by code_simp

section \<open>Calls during a message\<close>

lemma harness_do_triggering: "ha_triggering (snd (harness_do H c h)) = ha_triggering h \<and> ha_sessions (snd (harness_do H c h)) = ha_sessions h
    \<and> ha_nextSeq (snd (harness_do H c h)) = ha_nextSeq h
    \<and> (\<exists>ivs. ha_apiInvocations (snd (harness_do H c h)) = ha_apiInvocations h @ ivs
        \<and> (\<forall>i \<in> set ivs. hi_triggeringSessionId i = ha_triggering h \<and> hi_connectedSessions i = connectedSessionsSnapshot H (ha_sessions h)))"
  by (cases c) (auto simp: Let_def harness_send_def harness_invoke_def split: prod.splits sum.splits)

lemma harness_calls_triggering:
  "ha_triggering (harness_calls H cs h) = ha_triggering h \<and> ha_sessions (harness_calls H cs h) = ha_sessions h
    \<and> ha_nextSeq (harness_calls H cs h) = ha_nextSeq h
    \<and> (\<exists>ivs. ha_apiInvocations (harness_calls H cs h) = ha_apiInvocations h @ ivs
        \<and> (\<forall>i \<in> set ivs. hi_triggeringSessionId i = ha_triggering h \<and> hi_connectedSessions i = connectedSessionsSnapshot H (ha_sessions h)))"
proof (induction cs arbitrary: h)
  case (Cons c cs)
  let ?h = "snd (harness_do H c h)"
  obtain ivs where i: "ha_apiInvocations ?h = ha_apiInvocations h @ ivs"
    "\<forall>i \<in> set ivs. hi_triggeringSessionId i = ha_triggering h \<and> hi_connectedSessions i = connectedSessionsSnapshot H (ha_sessions h)"
    "ha_triggering ?h = ha_triggering h" "ha_sessions ?h = ha_sessions h" "ha_nextSeq ?h = ha_nextSeq h"
    using harness_do_triggering [of H c h] by auto
  obtain js where j: "ha_apiInvocations (harness_calls H cs ?h) = ha_apiInvocations ?h @ js"
    "\<forall>i \<in> set js. hi_triggeringSessionId i = ha_triggering ?h \<and> hi_connectedSessions i = connectedSessionsSnapshot H (ha_sessions ?h)"
    using Cons.IH [of ?h] by auto
  show ?case
    using Cons.IH [of ?h] i j by (auto intro!: exI [of _ "ivs @ js"])
qed (auto intro: exI [of _ "[]"])

text \<open>
  Calls are attributed to the message they are made for. Whatever a handler of a message does and however it ends, every API call made
  during it, and no other, is recorded with the session of the message and the sessions connected then; afterwards no session is current,
  also when the handler throws, and the message after it without a number of its own gets the next one.
\<close>

theorem message_attributed:
  "case playerMessage H sessionId given script h of (seq, r, h') \<Rightarrow>
     ha_triggering h' = None \<and> r = snd script
     \<and> (\<exists>ivs. ha_apiInvocations h' = ha_apiInvocations h @ ivs
         \<and> (\<forall>i \<in> set ivs. hi_triggeringSessionId i = Some sessionId \<and> hi_connectedSessions i = connectedSessionsSnapshot H (ha_sessions h)))
     \<and> fst (playerMessage H other None script' h') = seq + 1"
proof -
  let ?h = "h\<lparr>ha_nextSeq := default (ha_nextSeq h + 1) given, ha_triggering := Some sessionId\<rparr>"
  show ?thesis
    using harness_calls_triggering [of H "fst script" ?h] by (auto simp: playerMessage_def Let_def default_def)
qed

definition harness0 :: RuntimeSdkHarness where
  "harness0 = createRuntimeSdkHarness None \<lparr>ho_seed = None, ho_nowStartMs = None, ho_allowedPlayers = [], ho_sessions = [], ho_state = JNull,
     ho_blobs = [], ho_apiFixtures = [], ho_computeBudget = None\<rparr>"

theorem message_attributed_witness:
  "\<exists>ivs. ha_apiInvocations (snd (snd (playerMessage plain_host ''s1'' None ([HNow, HInvoke ''k'' JNull None], Inl ''boom'') harness0))) = ivs
     \<and> ivs \<noteq> [] \<and> (\<forall>i \<in> set ivs. hi_triggeringSessionId i = Some ''s1'')"
proof -
  have "ha_apiInvocations (snd (snd (playerMessage plain_host ''s1'' None ([HNow, HInvoke ''k'' JNull None], Inl ''boom'') harness0))) \<noteq> []"
    by (simp add: playerMessage_def Let_def harness_invoke_def responseForFixture_def fingerprintArgs_def stableJson_def harness0_def
        createRuntimeSdkHarness_def fixtureMap_def)
  then show ?thesis
    using message_attributed [where H = plain_host and sessionId = "''s1''" and given = None
      and script = "([HNow, HInvoke ''k'' JNull None], Inl ''boom'')" and h = harness0 and other = "''s2''" and script' = "([], Inr ())"]
    by (auto simp: harness0_def createRuntimeSdkHarness_def split: prod.splits)
qed

section \<open>Recorded answers\<close>

text \<open>
  Two arguments of one fingerprint: the fixture recorded for the one answers a call with the other, for which nothing was recorded.
\<close>

lemma fixture_collision: "fingerprintArgs H (JNum 40189) = fingerprintArgs H (JNum 797186)"
proof -
  have "harness_hashSeed ''40189'' = harness_hashSeed ''797186''" by code_simp
  moreover have "dec_int 40189 = ''40189''" by (simp add: dec_int_nonneg dec_nat.simps digit_char_def; code_simp)
  moreover have "dec_int 797186 = ''797186''" by (simp add: dec_int_nonneg dec_nat.simps digit_char_def; code_simp)
  ultimately show ?thesis by (simp add: fingerprintArgs_def stableJson_def fnv1a32_def)
qed

lemma fixture_collision_answered:
  assumes "fingerprintArgs H (JNum 40189) = Inr fp"
  shows "responseForFixture H (fixtureMap [\<lparr>hf_kind = k, hf_argsFingerprint = fp, hf_response = r\<rparr>]) k (JNum 797186) = Inr r"
  using assms by (simp add: responseForFixture_def fixtureMap_def fixture_collision [symmetric])

section \<open>The lint is exact\<close>

lemma index_sub_None: "index_sub p s = None \<longleftrightarrow> \<not> sublist p s"
  by (induction p s rule: index_sub.induct) (auto simp: sublist_Cons_right)

lemma find_columns_Nil: "p \<noteq> [] \<Longrightarrow> find_columns p line 0 = [] \<longleftrightarrow> \<not> sublist p line"
  using index_sub_None [of p line] by (subst find_columns.simps) (auto split: option.splits)

lemma split_lines_nonempty [simp]: "split_lines s \<noteq> []"
  by (induction s rule: split_lines.induct) (auto split: list.splits)

lemma prefix_first_line:
  "CHR 0x0A \<notin> set p \<Longrightarrow> CHR 0x0D \<notin> set p \<Longrightarrow> prefix p s \<longleftrightarrow> prefix p (hd (split_lines s))"
proof (induction s arbitrary: p rule: split_lines.induct)
  case (2 c s)
  have none: "prefix p (c # s) \<longleftrightarrow> p = []" if "c = CHR 0x0A \<or> c = CHR 0x0D" using 2(4,5) that by (cases p) auto
  consider "c = CHR 0x0A" | "c = CHR 0x0D" "prefix [CHR 0x0A] s" | "\<not> (c = CHR 0x0A \<or> c = CHR 0x0D \<and> prefix [CHR 0x0A] s)" by blast
  then show ?case
  proof cases
    case 1
    then show ?thesis using none by simp
  next
    case two: 2
    then have "hd (split_lines s) = []" by (cases s) auto
    then show ?thesis using none two by simp
  next
    case 3
    obtain l ls where l: "split_lines s = l # ls" by (cases "split_lines s") auto
    have "hd (split_lines (c # s)) = c # l" using 3 l by simp
    moreover have "prefix q s \<longleftrightarrow> prefix q l" if "p = d # q" for d q using "2.IH"(3) [of q] 3 "2.prems" that l by auto
    ultimately show ?thesis by (cases p) auto
  qed
qed simp

lemma sublist_lines:
  assumes "p \<noteq> []" and "CHR 0x0A \<notin> set p" and "CHR 0x0D \<notin> set p"
  shows "sublist p s \<longleftrightarrow> (\<exists>l \<in> set (split_lines s). sublist p l)"
proof (induction s rule: split_lines.induct)
  case (2 c s)
  have no: "c \<in> {CHR 0x0A, CHR 0x0D} \<Longrightarrow> \<not> prefix p (c # t)" for t using assms by (cases p) auto
  show ?case
  proof (cases "c = CHR 0x0A \<or> c = CHR 0x0D \<and> prefix [CHR 0x0A] s")
    case True
    then show ?thesis using 2 no assms(1) by (auto simp: sublist_Cons_right)
  next
    case False
    obtain l ls where l: "split_lines s = l # ls" by (cases "split_lines s") auto
    have "split_lines (c # s) = (c # l) # ls" using False l by simp
    moreover have "prefix p (c # s) \<longleftrightarrow> prefix p (c # l)"
      using prefix_first_line [OF assms(2,3), of "c # s"] calculation by simp
    moreover have "sublist p s \<longleftrightarrow> (\<exists>l \<in> set (split_lines s). sublist p l)" using 2 False by blast
    ultimately show ?thesis using l by (auto simp: sublist_Cons_right)
  qed
qed (use assms(1) in auto)

lemma findPattern_Nil:
  assumes "p \<noteq> []" and "CHR 0x0A \<notin> set p" and "CHR 0x0D \<notin> set p"
  shows "findPattern s p code m = [] \<longleftrightarrow> \<not> sublist p s"
proof -
  have "findPattern s p code m = [] \<longleftrightarrow> (\<forall>l \<in> set (split_lines s). find_columns p l 0 = [])"
  proof -
    have "findPattern s p code m = [] \<longleftrightarrow> (\<forall>x \<in> set (List.enumerate 0 (split_lines s)). find_columns p (snd x) 0 = [])"
      by (auto simp: findPattern_def split_def)
    also have "\<dots> \<longleftrightarrow> (\<forall>l \<in> set (map snd (List.enumerate 0 (split_lines s))). find_columns p l 0 = [])" by (simp only: set_map ball_simps)
    finally show ?thesis by (simp only: map_snd_enumerate)
  qed
  then show ?thesis using sublist_lines [OF assms, of s] assms(1) by (auto simp: find_columns_Nil)
qed

text \<open>The lint passes exactly the sources in which neither name occurs, across any line breaks.\<close>

lemma lint_exact:
  "assertHarnessLintClean source = Inr () \<longleftrightarrow> \<not> sublist ''Date.now'' source \<and> \<not> sublist ''Math.random'' source"
proof -
  have "findPattern source ''Date.now'' c m = [] \<longleftrightarrow> \<not> sublist ''Date.now'' source" for c m by (rule findPattern_Nil) simp_all
  moreover have "findPattern source ''Math.random'' c m = [] \<longleftrightarrow> \<not> sublist ''Math.random'' source" for c m by (rule findPattern_Nil) simp_all
  ultimately show ?thesis by (simp add: assertHarnessLintClean_def lintBundleSource_def Let_def)
qed

end
