(* ===== verification/OracleHistory.thy ===== *)
theory OracleHistory
  imports Harness ControlHistory
begin

text \<open>
  How the oracles read a history (\<^verbatim>\<open>testing/oracles-lib/src/helpers.mts\<close>): \<^verbatim>\<open>parseHistoryJsonl\<close> on a whole text and \<^verbatim>\<open>readHistoryJsonl\<close> on
  a file, a buffer at a time, with the helpers that give an oracle its verdict. A file is given by the buffers that reading it fills;
  \<open>decode1\<close> is \<^verbatim>\<open>buffer.toString("utf8")\<close>. An exception of \<^verbatim>\<open>JSON.parse\<close> is the error \<open>SyntaxError\<close>.
\<close>

section \<open>Reading\<close>

definition parseHistoryLine :: "host \<Rightarrow> string \<Rightarrow> nat \<Rightarrow> js list \<Rightarrow> string + js list" where
  "parseHistoryLine H line lineNumber events =
     (if js_trim line = [] then Inr events
      else case host_parse H line of
        None \<Rightarrow> Inl ''SyntaxError''
      | Some parsed \<Rightarrow>
         if \<not> isRecord parsed \<or> js_string (js_get parsed ''event'') = None
         then Inl (''history line '' @ dec_nat lineNumber @ '' is not a history event'')
         else Inr (events @ [parsed]))"

fun parse_lines :: "host \<Rightarrow> string list \<Rightarrow> nat \<Rightarrow> js list \<Rightarrow> string + js list" where
  "parse_lines H [] index events = Inr events"
| "parse_lines H (line # lines) index events =
     (case parseHistoryLine H line (index + 1) events of Inl e \<Rightarrow> Inl e | Inr events' \<Rightarrow> parse_lines H lines (index + 1) events')"

definition parseHistoryJsonl :: "host \<Rightarrow> string \<Rightarrow> string + js list" where
  "parseHistoryJsonl H raw = parse_lines H (split_lines raw) 0 []"

lemma index_sub_bound: "p \<noteq> [] \<Longrightarrow> index_sub p s = Some k \<Longrightarrow> k < length s"
  by (induction p s arbitrary: k rule: index_sub.induct) (auto split: if_splits)

text \<open>The inner loop: the lines that are complete, and what is carried over.\<close>

function take_lines :: "host \<Rightarrow> string \<Rightarrow> nat \<Rightarrow> js list \<Rightarrow> string + string \<times> nat \<times> js list" where
  "take_lines H carry lineNumber events =
     (case index_sub [CHR 0x0A] carry of
        None \<Rightarrow> Inr (carry, lineNumber, events)
      | Some k \<Rightarrow>
         (case parseHistoryLine H (take k carry) (lineNumber + 1) events of
            Inl e \<Rightarrow> Inl e
          | Inr events' \<Rightarrow> take_lines H (drop (k + 1) carry) (lineNumber + 1) events'))"
  by pat_completeness auto
termination by (relation "measure (\<lambda>(H, carry, n, events). length carry)") (auto dest!: index_sub_bound [rotated])

declare take_lines.simps [simp del]

fun read_buffers :: "host \<Rightarrow> (bytes \<Rightarrow> string) \<Rightarrow> bytes list \<Rightarrow> string \<Rightarrow> nat \<Rightarrow> js list \<Rightarrow> string + js list" where
  "read_buffers H decode1 [] carry lineNumber events =
     (if js_trim carry \<noteq> [] then parseHistoryLine H carry (lineNumber + 1) events else Inr events)"
| "read_buffers H decode1 (b # bs) carry lineNumber events =
     (case take_lines H (carry @ decode1 b) lineNumber events of
        Inl e \<Rightarrow> Inl e
      | Inr (carry', lineNumber', events') \<Rightarrow> read_buffers H decode1 bs carry' lineNumber' events')"

definition readHistoryJsonl :: "host \<Rightarrow> (bytes \<Rightarrow> string) \<Rightarrow> bytes list \<Rightarrow> string + js list" where
  "readHistoryJsonl H decode1 buffers = read_buffers H decode1 buffers [] 0 []"

section \<open>Verdicts\<close>

datatype OracleStatus = OraclePass | OracleFail | OracleInconclusive

record OracleFinding =
  of_code :: string
  of_message :: string
  of_event :: "js option"
  of_detail :: "js option"

record OracleResult =
  or_oracle :: string
  or_guarantee :: int
  or_status :: OracleStatus
  or_checkedEvents :: nat
  or_findings :: "OracleFinding list"

definition oracle_result :: "string \<Rightarrow> int \<Rightarrow> js list \<Rightarrow> int \<Rightarrow> OracleFinding list \<Rightarrow> OracleResult" where
  "oracle_result oracle guarantee history observedEvents findings =
     \<lparr>or_oracle = oracle, or_guarantee = guarantee,
      or_status = (if findings \<noteq> [] then OracleFail else if observedEvents > 0 then OraclePass else OracleInconclusive),
      or_checkedEvents = length history, or_findings = findings\<rparr>"

definition stringField :: "js \<Rightarrow> string \<Rightarrow> string option" where
  "stringField event key = truthy (js_string (js_get event key))"

definition numberField :: "js \<Rightarrow> string \<Rightarrow> int option" where
  "numberField event key = (case js_get event key of JNum n \<Rightarrow> Some n | _ \<Rightarrow> None)"

definition booleanField :: "js \<Rightarrow> string \<Rightarrow> bool option" where
  "booleanField event key = (case js_get event key of JBool b \<Rightarrow> Some b | _ \<Rightarrow> None)"

definition requiredStringFindings :: "js \<Rightarrow> string list \<Rightarrow> OracleFinding list" where
  "requiredStringFindings event required =
     concat (map (\<lambda>field. case stringField event field of
          Some s \<Rightarrow> []
        | None \<Rightarrow> [\<lparr>of_code = ''missing-field'', of_message = js_text (js_get event ''event'') @ '' is missing required string field '' @ field,
             of_event = Some event, of_detail = Some (JObj [(''field'', JStr field)])\<rparr>]) required)"

section \<open>The two readers agree\<close>

text \<open>The line that ends at a line feed, with or without the carriage return before it.\<close>

definition strip_cr :: "string \<Rightarrow> string" where
  "strip_cr l = (if l \<noteq> [] \<and> last l = CHR 0x0D then butlast l else l)"

lemma split_lines_feed: "CHR 0x0A \<notin> set l \<Longrightarrow> split_lines (l @ CHR 0x0A # r) = strip_cr l # split_lines r"
proof (induction l)
  case (Cons c l)
  show ?case
  proof (cases "l = []")
    case True
    then show ?thesis using Cons by (auto simp: strip_cr_def)
  next
    case False
    then have "\<not> prefix [CHR 0x0A] (l @ CHR 0x0A # r)" using Cons.prems by (cases l) auto
    then show ?thesis using Cons False by (auto simp: strip_cr_def)
  qed
qed (simp add: strip_cr_def)

lemma split_lines_last: "CHR 0x0A \<notin> set l \<Longrightarrow> split_lines l = [l]"
proof (induction l)
  case (Cons c l)
  then have "\<not> prefix [CHR 0x0A] l" by (cases l) auto
  then show ?case using Cons by auto
qed simp

lemma index_sub_feed: "index_sub [CHR 0x0A] (l @ CHR 0x0A # r) = Some (length l)" if "CHR 0x0A \<notin> set l"
  using that by (induction l) auto

lemma index_sub_no_feed: "CHR 0x0A \<notin> set l \<Longrightarrow> index_sub [CHR 0x0A] l = None"
  by (induction l) auto

lemma js_trim_strip_cr: "js_trim (strip_cr l) = [] \<longleftrightarrow> js_trim l = []"
proof -
  have iff: "js_trim s = [] \<longleftrightarrow> (\<forall>c \<in> set s. is_space c)" for s
  proof -
    have "js_trim s = [] \<longleftrightarrow> (\<forall>x \<in> set (dropWhile is_space s). is_space x)" by (simp add: js_trim_def dropWhile_eq_Nil_conv)
    also have "\<dots> \<longleftrightarrow> dropWhile is_space s = []" using hd_dropWhile [of is_space s] hd_in_set [of "dropWhile is_space s"] by (metis empty_iff list.set(1))
    finally show ?thesis by (simp add: dropWhile_eq_Nil_conv)
  qed
  show ?thesis
  proof (cases "l \<noteq> [] \<and> last l = CHR 0x0D")
    case True
    then have "set l = insert (CHR 0x0D) (set (butlast l))" by (metis append_butlast_last_id Un_insert_right list.set(1,2) set_append sup_bot.right_neutral)
    then show ?thesis using True by (simp add: iff strip_cr_def is_space_def)
  qed (auto simp: strip_cr_def)
qed

lemma parse_line_cr:
  assumes "\<And>l. host_parse H (l @ [CHR 0x0D]) = host_parse H l"
  shows "parseHistoryLine H (strip_cr l) n events = parseHistoryLine H l n events"
proof -
  have "host_parse H (strip_cr l) = host_parse H l" using assms [of "butlast l"] by (auto simp: strip_cr_def) (metis append_butlast_last_id)
  then show ?thesis by (simp add: parseHistoryLine_def js_trim_strip_cr)
qed

lemma index_sub_split:
  assumes "index_sub [CHR 0x0A] s = Some k"
  shows "s = take k s @ CHR 0x0A # drop (k + 1) s \<and> CHR 0x0A \<notin> set (take k s)"
  using assms by (induction s arbitrary: k) (auto split: if_splits)

text \<open>Taking the complete lines of what is carried is the start of parsing the whole.\<close>

lemma take_lines_parse:
  assumes "\<And>l. host_parse H (l @ [CHR 0x0D]) = host_parse H l"
  shows "parse_lines H (split_lines (carry @ rest)) n events =
     (case take_lines H carry n events of Inl e \<Rightarrow> Inl e | Inr (c, m, es) \<Rightarrow> parse_lines H (split_lines (c @ rest)) m es)
    \<and> (\<forall>c m es. take_lines H carry n events = Inr (c, m, es) \<longrightarrow> CHR 0x0A \<notin> set c)"
  using assms
proof (induction H carry n events rule: take_lines.induct)
  case (1 H carry n events)
  show ?case
  proof (cases "index_sub [CHR 0x0A] carry")
    case None
    then have "CHR 0x0A \<notin> set carry" using index_sub_None [of "[CHR 0x0A]" carry] by (metis split_list sublist_appendI append_Cons append_Nil)
    then show ?thesis using None by (subst (1 2) take_lines.simps) simp
  next
    case (Some k)
    let ?l = "take k carry" and ?r = "drop (k + 1) carry"
    have c: "carry = ?l @ CHR 0x0A # ?r" "CHR 0x0A \<notin> set ?l" using index_sub_split [OF Some] by auto
    have sp: "split_lines (carry @ rest) = strip_cr ?l # split_lines (?r @ rest)"
      using split_lines_feed [OF c(2), of "?r @ rest"] c(1) by (metis append_Cons append_assoc)
    show ?thesis
    proof (cases "parseHistoryLine H ?l (n + 1) events")
      case (Inl e)
      then show ?thesis using Some sp by (subst (1 2) take_lines.simps) (simp add: parse_line_cr [OF 1(2)])
    next
      case (Inr es)
      then show ?thesis using Some sp 1(1) [OF Some Inr 1(2)] by (subst (1 2) take_lines.simps) (simp add: parse_line_cr [OF 1(2)])
    qed
  qed
qed

lemma read_buffers_parse:
  assumes "\<And>l. host_parse H (l @ [CHR 0x0D]) = host_parse H l" and "CHR 0x0A \<notin> set carry"
  shows "read_buffers H decode1 bs carry n events = parse_lines H (split_lines (carry @ concat (map decode1 bs))) n events"
  using assms(2)
proof (induction bs arbitrary: carry n events)
  case Nil
  then show ?case by (simp add: split_lines_last parseHistoryLine_def split: sum.split option.split)
next
  case (Cons b bs)
  note t = take_lines_parse [OF assms(1), of "carry @ decode1 b" "concat (map decode1 bs)" n events]
  show ?case
  proof (cases "take_lines H (carry @ decode1 b) n events")
    case (Inl e)
    then show ?thesis using t by simp
  next
    case (Inr x)
    obtain c m es where "x = (c, m, es)" by (cases x)
    then show ?thesis using t Inr Cons.IH [of c m es] by simp
  qed
qed

text \<open>
  Reading a file a buffer at a time gives what parsing its text at once gives, errors and their line numbers included, if the buffers do
  not cut a character in two and \<^verbatim>\<open>JSON.parse\<close> allows a carriage return after a value.
\<close>

lemma readers_agree:
  assumes "\<And>l. host_parse H (l @ [CHR 0x0D]) = host_parse H l" and "decode1 (concat buffers) = concat (map decode1 buffers)"
  shows "readHistoryJsonl H decode1 buffers = parseHistoryJsonl H (decode1 (concat buffers))"
  using read_buffers_parse [OF assms(1), of "[]" decode1 buffers 0 "[]"] assms(2) by (simp add: readHistoryJsonl_def parseHistoryJsonl_def)

end
