(* ===== verification/Spec2Isabelle.thy ===== *)
theory Spec2Isabelle
  imports BrokerServerProps BundleSources IpcIds GatewayServices ControlState RunnerIsolateProps OracleHistory
begin

text \<open>
  A verification library for \<^verbatim>\<open>pax-backend\<close>, a runtime that keeps game instances (bundles of JavaScript)
  resident on shards, talks to their players over WebSockets and stores their state durably.

  \<^bold>\<open>The program.\<close> A shard runs one \<^emph>\<open>Broker\<close> (\<^verbatim>\<open>runtime/broker\<close>). The Broker accepts players' connections,
  wakes a game when it is needed, claims it in a directory kept in Redis, assigns it to a \<^emph>\<open>runner\<close>
  (\<^verbatim>\<open>runtime/runner\<close>, a child process with its bundles) and then relays: players' messages and timers to
  handlers of the game, and requests of the game (sends, storage, calls of outside services, budgets) back.
  The two sides exchange the messages of \<^verbatim>\<open>shared/ipc-protocol\<close>. Storage goes through a session of the
  \<^emph>\<open>state store\<close> (\<^verbatim>\<open>runtime/state-store\<close>), which writes checkpoint roots and blobs to an object store.
  Calls of outside services go to the \<^emph>\<open>API gateway\<close> (\<^verbatim>\<open>orchestration/api-gateway\<close>), which looks the kind up in
  a registry, records or replays the call, and may reach the \<^emph>\<open>reference services\<close>
  (\<^verbatim>\<open>orchestration/url-services\<close>). The \<^emph>\<open>control plane\<close> (\<^verbatim>\<open>orchestration/control-plane\<close>) keeps the records of bundles,
  games, allowed players and kinds in Redis, uploads bundles, queues host events, drains shards and
  answers queries over the history that the Brokers and it write.

  \<^bold>\<open>Shared theories.\<close>
  \<^item> \<open>Prelude\<close>: strings as UTF-8 bytes, JavaScript maps and sets as ordered association lists and lists,
    option and sum helpers, their rewrite rules. \<open>Codecs\<close>: hexadecimal, Base64, \<^verbatim>\<open>encodeURIComponent\<close>.
  \<^item> \<open>Json\<close>: JavaScript values, \<^verbatim>\<open>JSON.stringify\<close> as a function and \<^verbatim>\<open>JSON.parse\<close> as the locale \<open>json_codec\<close>,
    with a parser that satisfies it.
  \<^item> \<open>Redis\<close>: the commands the program issues, as the locales \<open>redis_db\<close> and \<open>redis_frames\<close>, with an in-memory database.

  \<^bold>\<open>State store\<close> (\<^verbatim>\<open>runtime/state-store/src/index.mts\<close>, \<^verbatim>\<open>adapters.mts\<close>).
  \<^item> \<open>ObjectStore\<close>: the interface \<^verbatim>\<open>StateObjectStore\<close> as the locale \<open>object_store\<close>, the in-memory adapter, and
    the key functions of the others. \<open>S3Store\<close>: the S3 adapter, which is such a store over every service of the locales
    \<open>s3_service\<close> and \<open>s3_strict\<close>, and its paged listings. \<open>LocalStore\<close>: the adapter over a directory, whose conditional
    put is not atomic. \<open>StateRoot\<close>: roots, references and versions with their JSON, round
    trip and object keys. \<open>StateStore\<close>: every operation of \<^verbatim>\<open>StateStore\<close>, \<^verbatim>\<open>GameStateSession\<close> and
    \<^verbatim>\<open>CheckpointScheduler\<close>.
  \<^item> \<open>StateStoreFlush\<close>, \<open>StateStoreHistory\<close>, \<open>StateStoreReap\<close>, \<open>StateStoreProps\<close>: a session refines a map of
    blobs beside the state; a flush makes it durable or is refused when another session won; checkpoints
    give back what was flushed; restore appends; reaping keeps what checkpoints refer to. Four defects
    are proved as runs (an unfenced first flush, a write lost during a flush, a history cut by reaping, a
    walk that never ends).

  \<^bold>\<open>Wire contract\<close> (\<^verbatim>\<open>shared/ipc-protocol/src/index.mts\<close>): \<open>Ipc\<close> has its records, unions and catalogs, \<open>IpcIds\<close>
  the seeded identifiers on 32-bit words.

  \<^bold>\<open>Broker\<close> (\<^verbatim>\<open>runtime/broker/src/index.mts\<close>).
  \<^item> \<open>BrokerBudget\<close> (sliding windows, locale \<open>rate_counter\<close>), \<open>BrokerWs\<close> (frames and targets), \<open>BrokerState\<close> (the
    Broker's record, its dependencies as parameters, shared methods), \<open>BrokerOps\<close> (requests of games),
    \<open>BrokerLife\<close> (wake, sleep, release, stand-down, host events), \<open>BrokerConn\<close> (connections, timers, start,
    drain), \<open>BrokerDispatch\<close> (messages of runners, crashes, reload). A handler is a function on the Broker's
    record; where the code awaits, the definition is split into the part before and after.
  \<^item> \<open>BrokerOpsProps\<close> (accounting of storage, locale \<open>blob_accounting\<close>; sends), \<open>BrokerEvolve\<close> and \<open>BrokerReach\<close>
    (the handlers as a step relation and the invariant of the table of games), \<open>BrokerLifeProps\<close> (what
    survives release and wake), \<open>BrokerSafety\<close> (admission, confinement of runners, stand-down, ticks),
    \<open>BrokerRaces\<close> (schedules the guards do not cover).
  \<^item> \<open>BrokerServer\<close>, \<open>BrokerServerProps\<close> (also \<^verbatim>\<open>runtime/broker/src/server.mts\<close>): the admin server and its metrics, the
    upgrade of connections and their replay to another machine, the configuration read from the environment, and the
    pool and the Broker together at a crash. The requests the control plane builds reach the game they name, a
    connection is served in one place, and every environment that is accepted gives a workable configuration.
  \<^item> \<open>BrokerAdapters\<close>, \<open>BrokerAdaptersProps\<close> (\<^verbatim>\<open>runtime/broker/src/adapters.mts\<close>): the Redis directory, allowed
    players, host event queue, bundle resolver, gateway client, history file; claims are exclusive.

  \<^bold>\<open>Runner\<close> (\<^verbatim>\<open>runtime/runner/src/child-process.mts\<close>, \<^verbatim>\<open>noivm.mts\<close>, \<^verbatim>\<open>index.mts\<close>).
  \<^item> \<open>RunnerFrames\<close>: messages on the process channel and their checks. \<open>RunnerChild\<close>: the Broker's side of a
    process. \<open>RunnerHost\<close>: the bridge inside the process and the runner without isolates, with the calls a
    bundle can make. \<open>RunnerProcess\<close>: the host's queue of operations per game. \<open>RunnerIsolate\<close>: the runner with
    isolates (\<^verbatim>\<open>ivm.mts\<close>), the script in them, with its Base64 codec on 32-bit words. \<open>RunnerPool\<close>: the pool.
  \<^item> \<open>RunnerChildProps\<close>: in every run each request waits or is settled once, and none waits after the exit.
    \<open>RunnerProcessProps\<close>: each operation is answered by one message, which settles its request in the
    Broker. \<open>RunnerPool\<close> states what a runner promises as the locale \<open>runner_process\<close>, interpreted on runner
    processes and on the runners with and without isolates, and shows that the pool respects capacity, routes to
    the holder and spreads games evenly. \<open>RunnerIsolateProps\<close>: the isolates' codec is Node's, a bundle
    exchanges the same messages in both runners, and isolates are disposed of.

  \<^bold>\<open>API gateway\<close> (\<^verbatim>\<open>orchestration/api-gateway/src\<close>): \<open>GatewayEnvelope\<close> (canonical JSON, fingerprints, rate
  limit), \<open>GatewayRecords\<close> (wire records, locale \<open>wire_store\<close>), \<open>GatewayRegistry\<close> (kinds), \<open>Gateway\<close> (calls,
  metrics, routes); \<open>GatewayProps\<close> shows that every call is counted once and that a replay gives what the live
  call gave. \<open>UrlServices\<close> models \<^verbatim>\<open>orchestration/url-services/src\<close>, and \<open>GatewayServices\<close> composes the two.

  \<^bold>\<open>Control plane\<close> (\<^verbatim>\<open>orchestration/control-plane/src\<close>).
  \<^item> \<open>ControlHistory\<close> (\<^verbatim>\<open>history.mts\<close>): reading the history, its pages, the sessions and connected players it tells
    of, recent calls. \<open>ControlStore\<close> (\<^verbatim>\<open>store.mts\<close>, \<^verbatim>\<open>manifest.mts\<close>): the records in Redis and the manifests.
    \<open>Control\<close>, \<open>ControlHandlers\<close>, \<open>ControlRoutes\<close> (\<^verbatim>\<open>app.mts\<close>): the numbering of history rows, the decoding of
    bodies and queries, and every route. A handler is a function on the record \<open>ControlPlane\<close> that returns a
    response or an error beside the new record.
  \<^item> \<open>ControlProps\<close> (uploads over any bundle store of the locale \<open>bundle_objects\<close>), \<open>ControlGames\<close> (creation, flips
    of bundles, deletion, kinds as the gateway sees them), \<open>ControlEvents\<close> (host events as the Broker drains
    them, numbering of rows across restarts), \<open>ControlState\<close> (players, drains, restores and snapshots over
    the state store), \<open>BundleSources\<close> (bundles in S3 or on the local disk, as the control plane writes and the Broker
    reads them).

  \<^bold>\<open>Test harness\<close> (\<^verbatim>\<open>sdk/runtime-sdk-test-harness/src\<close>): \<open>Harness\<close> has the in-memory context, the events a test sends and
  the lint. Its random numbers are the runners' for the same seed text, API calls are attributed to the message they are made for, the
  lint is exact; its fingerprints of arguments collide. \<open>OracleHistory\<close> (\<^verbatim>\<open>testing/oracles-lib/src\<close>): reading a history a buffer at a time
  agrees with parsing it whole.

  \<^bold>\<open>Bounds and fuel.\<close> Loops are structural, or recurse on a measure; the walks along parents of roots
  (\<open>StateStore\<close>) take fuel, and the properties about them show that as many steps as there are roots are
  enough, or that none are; the loop over the pages of a listing is partial and proved to return. Numbers are integers; the identifiers' generators and the random numbers of
  bundles are 32-bit words. Time is a parameter of the operations that read it.

  \<^bold>\<open>Outside code\<close> is a parameter: the hash, the codecs of the host, the object store, Redis, sockets,
  the bundle's handlers, the verification of tokens. What is relied on is a locale with an instance.

  \<^bold>\<open>Not modelled.\<close> The placement router is written in Rust. The SDK declares types only.
  Telemetry and servers' sockets are I/O, as is the environment of the services other than the Broker. The bundle tools,
  scenarios, deployment scripts and examples are not part of the deployed system.
\<close>

end
